(* ===== verification/Prelude.thy ===== *)
theory Prelude
  imports Main "HOL-Library.Word"
begin

text \<open>
  Shared vocabulary of the development: the widths of the C integer types, the ways a call can
  fail to return normally, sequencing of such calls, signed 32-bit wrap-around, and the lemma
  collections the component theories fill.
\<close>

unbundle bit_operations_syntax

type_synonym u8 = "8 word"
type_synonym u16 = "16 word"
type_synonym u32 = "32 word"
type_synonym u64 = "64 word"

named_theorems res_simps "sequencing of calls that may not return"
named_theorems inv_intros "operations that keep a component's invariant"
named_theorems frame_simps "state components an operation leaves alone"

section \<open>Calls that may not return\<close>

text \<open>
  \<open>Null_deref\<close> and \<open>Host_undef\<close> are executions the C standard leaves undefined (a null pointer is
  followed; an access outside an allocation, an over-long shift, a trapping division);
  \<open>Sim_done\<close> is \<open>sim_done()\<close> and \<open>Exit_failure\<close> is \<open>exit()\<close> with an error message.
\<close>

datatype stop = Null_deref | Host_undef | Sim_done | Exit_failure

type_synonym 'a res = "stop + 'a"

definition bind_res :: "'a res \<Rightarrow> ('a \<Rightarrow> 'b res) \<Rightarrow> 'b res" where
  "bind_res r f = (case r of Inl e \<Rightarrow> Inl e | Inr x \<Rightarrow> f x)"

lemma bind_res_Inl [simp, res_simps]: "bind_res (Inl e) f = Inl e"
  by (simp add: bind_res_def)

lemma bind_res_Inr [simp, res_simps]: "bind_res (Inr x) f = f x"
  by (simp add: bind_res_def)

lemma bind_res_eq_Inr:
  "bind_res r f = Inr y \<longleftrightarrow> (\<exists>x. r = Inr x \<and> f x = Inr y)"
  by (cases r) auto

lemma bind_res_InrE:
  assumes "bind_res r f = Inr y"
  obtains x where "r = Inr x" and "f x = Inr y"
  using assms by (auto simp: bind_res_eq_Inr)

lemma bind_res_assoc: "bind_res (bind_res r f) g = bind_res r (\<lambda>x. bind_res (f x) g)"
  by (cases r) auto

text \<open>The same for calls that may not return, the value \<open>None\<close>.\<close>

definition bind_run :: "'a res option \<Rightarrow> ('a \<Rightarrow> 'b res option) \<Rightarrow> 'b res option" where
  "bind_run r f = (case r of None \<Rightarrow> None | Some (Inl e) \<Rightarrow> Some (Inl e) | Some (Inr x) \<Rightarrow> f x)"

lemma bind_run_simps [simp, res_simps]:
  "bind_run None f = None" "bind_run (Some (Inl e)) f = Some (Inl e)" "bind_run (Some (Inr x)) f = f x"
  by (simp_all add: bind_run_def)

section \<open>Signed 32-bit integers\<close>

abbreviation (input) INT32_MAX :: int where "INT32_MAX \<equiv> 2147483647"
abbreviation (input) INT32_MIN :: int where "INT32_MIN \<equiv> - 2147483648"

text \<open>The value an \<open>int32_t\<close> object holds after an assignment of \<open>x\<close>.\<close>

definition i32 :: "int \<Rightarrow> int" where
  "i32 x = (x + 2147483648) mod 4294967296 - 2147483648"

lemma i32_id [simp]: "INT32_MIN \<le> x \<Longrightarrow> x \<le> INT32_MAX \<Longrightarrow> i32 x = x"
  by (simp add: i32_def)

lemma i32_range: "INT32_MIN \<le> i32 x \<and> i32 x \<le> INT32_MAX"
proof -
  have "0 \<le> (x + 2147483648) mod 4294967296" and "(x + 2147483648) mod 4294967296 < 4294967296"
    by simp_all
  then show ?thesis by (simp only: i32_def) linarith
qed

section \<open>Flags in words\<close>

text \<open>C's truth value of \<open>w & f\<close>.\<close>

definition has :: "'a::len word \<Rightarrow> 'a word \<Rightarrow> bool" where
  "has w f \<longleftrightarrow> w AND f \<noteq> 0"

text \<open>C's \<open>w |= f\<close> and \<open>w &= ~f\<close>.\<close>

abbreviation (input) set_flag :: "'a::len word \<Rightarrow> 'a word \<Rightarrow> 'a word" where
  "set_flag w f \<equiv> w OR f"

abbreviation (input) clear_flag :: "'a::len word \<Rightarrow> 'a word \<Rightarrow> 'a word" where
  "clear_flag w f \<equiv> w AND NOT f"

lemma has_set_flag_same [simp]: "f \<noteq> 0 \<Longrightarrow> has (w OR f) f"
  by (simp add: has_def bit.conj_disj_distrib2)

lemma has_clear_flag_same [simp]: "\<not> has (w AND NOT f) f"
proof -
  have "(w AND NOT f) AND f = 0"
    by (rule bit_word_eqI) (auto simp: bit_simps)
  then show ?thesis by (simp add: has_def)
qed

lemma has_set_flag_other: "f AND g = 0 \<Longrightarrow> has (w OR f) g = has w g"
  by (simp add: has_def bit.conj_disj_distrib2)

lemma has_clear_flag_other:
  assumes "f AND g = 0"
  shows "has (w AND NOT f) g = has w g"
proof -
  have "(w AND NOT f) AND g = w AND g"
  proof (rule bit_word_eqI)
    fix n assume "n < LENGTH('a)"
    from assms have "bit (f AND g) n = bit (0 :: 'a word) n" by simp
    then show "bit ((w AND NOT f) AND g) n = bit (w AND g) n"
      using \<open>n < LENGTH('a)\<close> by (auto simp: bit_simps)
  qed
  then show ?thesis by (simp add: has_def)
qed

section \<open>Casts\<close>

lemma ucast_down_add:
  "LENGTH('b::len) \<le> LENGTH('a::len) \<Longrightarrow> (ucast (a + b :: 'a word) :: 'b word) = ucast a + ucast b"
  apply transfer
  subgoal for a b
    using take_bit_add[of "LENGTH('b)" "take_bit LENGTH('a) a" "take_bit LENGTH('a) b"]
      take_bit_add[of "LENGTH('b)" a b]
    by (simp add: min_absorb1)
  done

lemma ucast_ucast_id: "LENGTH('b::len) \<le> LENGTH('a::len) \<Longrightarrow> (ucast (ucast (w :: 'b word) :: 'a word) :: 'b word) = w"
  by transfer (simp add: min_def)

end
