(* ===== verification/SprDefs.thy ===== *)
theory SprDefs
  imports Prelude
begin

text \<open>
  The constants of \<open>cpu/or1k/spr-defs.h\<close> and \<open>cpu/or1k/except.h\<close>: special purpose register numbers as
  \<open>nat\<close> (indices of \<open>cpu_state.sprs\<close>), register fields and exception vectors as \<open>u32\<close>. They are input
  abbreviations of numerals, so that the simplifier computes with them.
\<close>

section \<open>Register numbers\<close>

abbreviation (input) MAX_GRPS :: nat where "MAX_GRPS \<equiv> 32"
abbreviation (input) MAX_SPRS_PER_GRP_BITS :: nat where "MAX_SPRS_PER_GRP_BITS \<equiv> 11"
abbreviation (input) MAX_SPRS_PER_GRP :: nat where "MAX_SPRS_PER_GRP \<equiv> 2048"
abbreviation (input) MAX_SPRS :: nat where "MAX_SPRS \<equiv> 65536"
abbreviation (input) SPRGROUP_SYS :: nat where "SPRGROUP_SYS \<equiv> 0"
abbreviation (input) SPRGROUP_DMMU :: nat where "SPRGROUP_DMMU \<equiv> 2048"
abbreviation (input) SPRGROUP_IMMU :: nat where "SPRGROUP_IMMU \<equiv> 4096"
abbreviation (input) SPRGROUP_DC :: nat where "SPRGROUP_DC \<equiv> 6144"
abbreviation (input) SPRGROUP_IC :: nat where "SPRGROUP_IC \<equiv> 8192"
abbreviation (input) SPRGROUP_MAC :: nat where "SPRGROUP_MAC \<equiv> 10240"
abbreviation (input) SPRGROUP_D :: nat where "SPRGROUP_D \<equiv> 12288"
abbreviation (input) SPRGROUP_PC :: nat where "SPRGROUP_PC \<equiv> 14336"
abbreviation (input) SPRGROUP_PM :: nat where "SPRGROUP_PM \<equiv> 16384"
abbreviation (input) SPRGROUP_PIC :: nat where "SPRGROUP_PIC \<equiv> 18432"
abbreviation (input) SPRGROUP_TT :: nat where "SPRGROUP_TT \<equiv> 20480"
abbreviation (input) SPRGROUP_FP :: nat where "SPRGROUP_FP \<equiv> 22528"
abbreviation (input) SPR_VR :: nat where "SPR_VR \<equiv> 0"
abbreviation (input) SPR_UPR :: nat where "SPR_UPR \<equiv> 1"
abbreviation (input) SPR_CPUCFGR :: nat where "SPR_CPUCFGR \<equiv> 2"
abbreviation (input) SPR_DMMUCFGR :: nat where "SPR_DMMUCFGR \<equiv> 3"
abbreviation (input) SPR_IMMUCFGR :: nat where "SPR_IMMUCFGR \<equiv> 4"
abbreviation (input) SPR_DCCFGR :: nat where "SPR_DCCFGR \<equiv> 5"
abbreviation (input) SPR_ICCFGR :: nat where "SPR_ICCFGR \<equiv> 6"
abbreviation (input) SPR_DCFGR :: nat where "SPR_DCFGR \<equiv> 7"
abbreviation (input) SPR_PCCFGR :: nat where "SPR_PCCFGR \<equiv> 8"
abbreviation (input) SPR_NPC :: nat where "SPR_NPC \<equiv> 16"
abbreviation (input) SPR_SR :: nat where "SPR_SR \<equiv> 17"
abbreviation (input) SPR_PPC :: nat where "SPR_PPC \<equiv> 18"
abbreviation (input) SPR_FPCSR :: nat where "SPR_FPCSR \<equiv> 20"
abbreviation (input) SPR_EPCR_BASE :: nat where "SPR_EPCR_BASE \<equiv> 32"
abbreviation (input) SPR_EPCR_LAST :: nat where "SPR_EPCR_LAST \<equiv> 47"
abbreviation (input) SPR_EEAR_BASE :: nat where "SPR_EEAR_BASE \<equiv> 48"
abbreviation (input) SPR_EEAR_LAST :: nat where "SPR_EEAR_LAST \<equiv> 63"
abbreviation (input) SPR_ESR_BASE :: nat where "SPR_ESR_BASE \<equiv> 64"
abbreviation (input) SPR_ESR_LAST :: nat where "SPR_ESR_LAST \<equiv> 79"
abbreviation (input) SPR_GPR_BASE :: nat where "SPR_GPR_BASE \<equiv> 1024"
abbreviation (input) SPR_DMMUCR :: nat where "SPR_DMMUCR \<equiv> 2048"
abbreviation (input) SPR_DTLBEIR :: nat where "SPR_DTLBEIR \<equiv> 2050"
abbreviation (input) SPR_IMMUCR :: nat where "SPR_IMMUCR \<equiv> 4096"
abbreviation (input) SPR_ITLBEIR :: nat where "SPR_ITLBEIR \<equiv> 4098"
abbreviation (input) SPR_DCCR :: nat where "SPR_DCCR \<equiv> 6144"
abbreviation (input) SPR_DCBPR :: nat where "SPR_DCBPR \<equiv> 6145"
abbreviation (input) SPR_DCBFR :: nat where "SPR_DCBFR \<equiv> 6146"
abbreviation (input) SPR_DCBIR :: nat where "SPR_DCBIR \<equiv> 6147"
abbreviation (input) SPR_DCBWR :: nat where "SPR_DCBWR \<equiv> 6148"
abbreviation (input) SPR_DCBLR :: nat where "SPR_DCBLR \<equiv> 6149"
abbreviation (input) SPR_ICCR :: nat where "SPR_ICCR \<equiv> 8192"
abbreviation (input) SPR_ICBPR :: nat where "SPR_ICBPR \<equiv> 8193"
abbreviation (input) SPR_ICBIR :: nat where "SPR_ICBIR \<equiv> 8194"
abbreviation (input) SPR_ICBLR :: nat where "SPR_ICBLR \<equiv> 8195"
abbreviation (input) SPR_MACLO :: nat where "SPR_MACLO \<equiv> 10241"
abbreviation (input) SPR_MACHI :: nat where "SPR_MACHI \<equiv> 10242"
abbreviation (input) SPR_DMR1 :: nat where "SPR_DMR1 \<equiv> 12304"
abbreviation (input) SPR_DMR2 :: nat where "SPR_DMR2 \<equiv> 12305"
abbreviation (input) SPR_DWCR0 :: nat where "SPR_DWCR0 \<equiv> 12306"
abbreviation (input) SPR_DWCR1 :: nat where "SPR_DWCR1 \<equiv> 12307"
abbreviation (input) SPR_DSR :: nat where "SPR_DSR \<equiv> 12308"
abbreviation (input) SPR_DRR :: nat where "SPR_DRR \<equiv> 12309"
abbreviation (input) SPR_PMR :: nat where "SPR_PMR \<equiv> 16384"
abbreviation (input) SPR_PICMR :: nat where "SPR_PICMR \<equiv> 18432"
abbreviation (input) SPR_PICPR :: nat where "SPR_PICPR \<equiv> 18433"
abbreviation (input) SPR_PICSR :: nat where "SPR_PICSR \<equiv> 18434"
abbreviation (input) SPR_TTMR :: nat where "SPR_TTMR \<equiv> 20480"
abbreviation (input) SPR_TTCR :: nat where "SPR_TTCR \<equiv> 20481"
abbreviation (input) SPR_VR_VER_OFF :: nat where "SPR_VR_VER_OFF \<equiv> 24"
abbreviation (input) SPR_VR_CFG_OFF :: nat where "SPR_VR_CFG_OFF \<equiv> 16"
abbreviation (input) SPR_VR_REV_OFF :: nat where "SPR_VR_REV_OFF \<equiv> 0"
abbreviation (input) MAX_MATCHPOINTS :: nat where "MAX_MATCHPOINTS \<equiv> 8"
abbreviation (input) MAX_WATCHPOINTS :: nat where "MAX_WATCHPOINTS \<equiv> 10"
abbreviation (input) SPR_DCCFGR_NCW_OFF :: nat where "SPR_DCCFGR_NCW_OFF \<equiv> 0"
abbreviation (input) SPR_DCCFGR_NCS_OFF :: nat where "SPR_DCCFGR_NCS_OFF \<equiv> 3"
abbreviation (input) SPR_DCCFGR_CBS_OFF :: nat where "SPR_DCCFGR_CBS_OFF \<equiv> 7"
abbreviation (input) SPR_ICCFGR_NCW_OFF :: nat where "SPR_ICCFGR_NCW_OFF \<equiv> 0"
abbreviation (input) SPR_ICCFGR_NCS_OFF :: nat where "SPR_ICCFGR_NCS_OFF \<equiv> 3"
abbreviation (input) SPR_ICCFGR_CBS_OFF :: nat where "SPR_ICCFGR_CBS_OFF \<equiv> 7"
abbreviation (input) SPR_DMMUCFGR_NTW_OFF :: nat where "SPR_DMMUCFGR_NTW_OFF \<equiv> 0"
abbreviation (input) SPR_DMMUCFGR_NTS_OFF :: nat where "SPR_DMMUCFGR_NTS_OFF \<equiv> 2"
abbreviation (input) SPR_IMMUCFGR_NTW_OFF :: nat where "SPR_IMMUCFGR_NTW_OFF \<equiv> 0"
abbreviation (input) SPR_IMMUCFGR_NTS_OFF :: nat where "SPR_IMMUCFGR_NTS_OFF \<equiv> 2"
abbreviation (input) SPR_DMR2_AWTC_OFF :: nat where "SPR_DMR2_AWTC_OFF \<equiv> 2"
abbreviation (input) SPR_DMR2_WGB_OFF :: nat where "SPR_DMR2_WGB_OFF \<equiv> 12"
abbreviation (input) SPR_DMR2_WBS_OFF :: nat where "SPR_DMR2_WBS_OFF \<equiv> 22"
abbreviation (input) SPR_DWCR_MATCH_OFF :: nat where "SPR_DWCR_MATCH_OFF \<equiv> 16"
abbreviation (input) NOP_TRACE_OFF :: nat where "NOP_TRACE_OFF \<equiv> 9"
abbreviation (input) SPR_DTLBMR_BASE :: "nat \<Rightarrow> nat" where "SPR_DTLBMR_BASE i \<equiv> 2560 + i * 256"
abbreviation (input) SPR_DTLBMR_LAST :: "nat \<Rightarrow> nat" where "SPR_DTLBMR_LAST i \<equiv> 2687 + i * 256"
abbreviation (input) SPR_DTLBTR_BASE :: "nat \<Rightarrow> nat" where "SPR_DTLBTR_BASE i \<equiv> 2688 + i * 256"
abbreviation (input) SPR_DTLBTR_LAST :: "nat \<Rightarrow> nat" where "SPR_DTLBTR_LAST i \<equiv> 2815 + i * 256"
abbreviation (input) SPR_ITLBMR_BASE :: "nat \<Rightarrow> nat" where "SPR_ITLBMR_BASE i \<equiv> 4608 + i * 256"
abbreviation (input) SPR_ITLBMR_LAST :: "nat \<Rightarrow> nat" where "SPR_ITLBMR_LAST i \<equiv> 4735 + i * 256"
abbreviation (input) SPR_ITLBTR_BASE :: "nat \<Rightarrow> nat" where "SPR_ITLBTR_BASE i \<equiv> 4736 + i * 256"
abbreviation (input) SPR_ITLBTR_LAST :: "nat \<Rightarrow> nat" where "SPR_ITLBTR_LAST i \<equiv> 4863 + i * 256"
abbreviation (input) SPR_DCR_BASE :: "nat \<Rightarrow> nat" where "SPR_DCR_BASE i \<equiv> 6656 + i * 512"
abbreviation (input) SPR_DCR_LAST :: "nat \<Rightarrow> nat" where "SPR_DCR_LAST i \<equiv> 7167 + i * 512"
abbreviation (input) SPR_ICR_BASE :: "nat \<Rightarrow> nat" where "SPR_ICR_BASE i \<equiv> 8704 + i * 512"
abbreviation (input) SPR_ICR_LAST :: "nat \<Rightarrow> nat" where "SPR_ICR_LAST i \<equiv> 9215 + i * 512"
abbreviation (input) SPR_DVR :: "nat \<Rightarrow> nat" where "SPR_DVR i \<equiv> 12288 + i"
abbreviation (input) SPR_DCR :: "nat \<Rightarrow> nat" where "SPR_DCR i \<equiv> 12296 + i"
abbreviation (input) SPR_PCCR :: "nat \<Rightarrow> nat" where "SPR_PCCR i \<equiv> 14336 + i"
abbreviation (input) SPR_PCMR :: "nat \<Rightarrow> nat" where "SPR_PCMR i \<equiv> 14344 + i"

section \<open>Register fields\<close>

abbreviation (input) SPR_VR_VER :: u32 where "SPR_VR_VER \<equiv> 0xff000000"
abbreviation (input) SPR_VR_CFG :: u32 where "SPR_VR_CFG \<equiv> 0xff0000"
abbreviation (input) SPR_VR_RES :: u32 where "SPR_VR_RES \<equiv> 0xffc0"
abbreviation (input) SPR_VR_REV :: u32 where "SPR_VR_REV \<equiv> 0x3f"
abbreviation (input) SPR_UPR_UP :: u32 where "SPR_UPR_UP \<equiv> 1"
abbreviation (input) SPR_UPR_DCP :: u32 where "SPR_UPR_DCP \<equiv> 2"
abbreviation (input) SPR_UPR_ICP :: u32 where "SPR_UPR_ICP \<equiv> 4"
abbreviation (input) SPR_UPR_DMP :: u32 where "SPR_UPR_DMP \<equiv> 8"
abbreviation (input) SPR_UPR_IMP :: u32 where "SPR_UPR_IMP \<equiv> 0x10"
abbreviation (input) SPR_UPR_MP :: u32 where "SPR_UPR_MP \<equiv> 0x20"
abbreviation (input) SPR_UPR_DUP :: u32 where "SPR_UPR_DUP \<equiv> 0x40"
abbreviation (input) SPR_UPR_PCUP :: u32 where "SPR_UPR_PCUP \<equiv> 0x80"
abbreviation (input) SPR_UPR_PMP :: u32 where "SPR_UPR_PMP \<equiv> 0x100"
abbreviation (input) SPR_UPR_PICP :: u32 where "SPR_UPR_PICP \<equiv> 0x200"
abbreviation (input) SPR_UPR_TTP :: u32 where "SPR_UPR_TTP \<equiv> 0x400"
abbreviation (input) SPR_UPR_RES :: u32 where "SPR_UPR_RES \<equiv> 0xfe0000"
abbreviation (input) SPR_UPR_CUP :: u32 where "SPR_UPR_CUP \<equiv> 0xff000000"
abbreviation (input) SPR_CPUCFGR_NSGF :: u32 where "SPR_CPUCFGR_NSGF \<equiv> 0xf"
abbreviation (input) SPR_CPUCFGR_CGF :: u32 where "SPR_CPUCFGR_CGF \<equiv> 0x10"
abbreviation (input) SPR_CPUCFGR_OB32S :: u32 where "SPR_CPUCFGR_OB32S \<equiv> 0x20"
abbreviation (input) SPR_CPUCFGR_OB64S :: u32 where "SPR_CPUCFGR_OB64S \<equiv> 0x40"
abbreviation (input) SPR_CPUCFGR_OF32S :: u32 where "SPR_CPUCFGR_OF32S \<equiv> 0x80"
abbreviation (input) SPR_CPUCFGR_OF64S :: u32 where "SPR_CPUCFGR_OF64S \<equiv> 0x100"
abbreviation (input) SPR_CPUCFGR_OV64S :: u32 where "SPR_CPUCFGR_OV64S \<equiv> 0x200"
abbreviation (input) SPR_CPUCFGR_RES :: u32 where "SPR_CPUCFGR_RES \<equiv> 0xfffffc00"
abbreviation (input) SPR_DCFGR_NDP :: u32 where "SPR_DCFGR_NDP \<equiv> 7"
abbreviation (input) SPR_DCFGR_NDP1 :: u32 where "SPR_DCFGR_NDP1 \<equiv> 0"
abbreviation (input) SPR_DCFGR_NDP2 :: u32 where "SPR_DCFGR_NDP2 \<equiv> 1"
abbreviation (input) SPR_DCFGR_NDP3 :: u32 where "SPR_DCFGR_NDP3 \<equiv> 2"
abbreviation (input) SPR_DCFGR_NDP4 :: u32 where "SPR_DCFGR_NDP4 \<equiv> 3"
abbreviation (input) SPR_DCFGR_NDP5 :: u32 where "SPR_DCFGR_NDP5 \<equiv> 4"
abbreviation (input) SPR_DCFGR_NDP6 :: u32 where "SPR_DCFGR_NDP6 \<equiv> 5"
abbreviation (input) SPR_DCFGR_NDP7 :: u32 where "SPR_DCFGR_NDP7 \<equiv> 6"
abbreviation (input) SPR_DCFGR_NDP8 :: u32 where "SPR_DCFGR_NDP8 \<equiv> 7"
abbreviation (input) SPR_DCFGR_WPCI :: u32 where "SPR_DCFGR_WPCI \<equiv> 8"
abbreviation (input) SPR_SR_SM :: u32 where "SPR_SR_SM \<equiv> 1"
abbreviation (input) SPR_SR_TEE :: u32 where "SPR_SR_TEE \<equiv> 2"
abbreviation (input) SPR_SR_IEE :: u32 where "SPR_SR_IEE \<equiv> 4"
abbreviation (input) SPR_SR_DCE :: u32 where "SPR_SR_DCE \<equiv> 8"
abbreviation (input) SPR_SR_ICE :: u32 where "SPR_SR_ICE \<equiv> 0x10"
abbreviation (input) SPR_SR_DME :: u32 where "SPR_SR_DME \<equiv> 0x20"
abbreviation (input) SPR_SR_IME :: u32 where "SPR_SR_IME \<equiv> 0x40"
abbreviation (input) SPR_SR_LEE :: u32 where "SPR_SR_LEE \<equiv> 0x80"
abbreviation (input) SPR_SR_CE :: u32 where "SPR_SR_CE \<equiv> 0x100"
abbreviation (input) SPR_SR_F :: u32 where "SPR_SR_F \<equiv> 0x200"
abbreviation (input) SPR_SR_CY :: u32 where "SPR_SR_CY \<equiv> 0x400"
abbreviation (input) SPR_SR_OV :: u32 where "SPR_SR_OV \<equiv> 0x800"
abbreviation (input) SPR_SR_OVE :: u32 where "SPR_SR_OVE \<equiv> 0x1000"
abbreviation (input) SPR_SR_DSX :: u32 where "SPR_SR_DSX \<equiv> 0x2000"
abbreviation (input) SPR_SR_EPH :: u32 where "SPR_SR_EPH \<equiv> 0x4000"
abbreviation (input) SPR_SR_FO :: u32 where "SPR_SR_FO \<equiv> 0x8000"
abbreviation (input) SPR_SR_SUMRA :: u32 where "SPR_SR_SUMRA \<equiv> 0x10000"
abbreviation (input) SPR_SR_RES :: u32 where "SPR_SR_RES \<equiv> 0xffe0000"
abbreviation (input) SPR_SR_CID :: u32 where "SPR_SR_CID \<equiv> 0xf0000000"
abbreviation (input) SPR_DMMUCR_P2S :: u32 where "SPR_DMMUCR_P2S \<equiv> 0x3e"
abbreviation (input) SPR_DMMUCR_P1S :: u32 where "SPR_DMMUCR_P1S \<equiv> 0x7c0"
abbreviation (input) SPR_DMMUCR_VADDR_WIDTH :: u32 where "SPR_DMMUCR_VADDR_WIDTH \<equiv> 0xf800"
abbreviation (input) SPR_DMMUCR_PADDR_WIDTH :: u32 where "SPR_DMMUCR_PADDR_WIDTH \<equiv> 0xf0000"
abbreviation (input) SPR_IMMUCR_P2S :: u32 where "SPR_IMMUCR_P2S \<equiv> 0x3e"
abbreviation (input) SPR_IMMUCR_P1S :: u32 where "SPR_IMMUCR_P1S \<equiv> 0x7c0"
abbreviation (input) SPR_IMMUCR_VADDR_WIDTH :: u32 where "SPR_IMMUCR_VADDR_WIDTH \<equiv> 0xf800"
abbreviation (input) SPR_IMMUCR_PADDR_WIDTH :: u32 where "SPR_IMMUCR_PADDR_WIDTH \<equiv> 0xf0000"
abbreviation (input) SPR_DTLBMR_V :: u32 where "SPR_DTLBMR_V \<equiv> 1"
abbreviation (input) SPR_DTLBMR_PL1 :: u32 where "SPR_DTLBMR_PL1 \<equiv> 2"
abbreviation (input) SPR_DTLBMR_CID :: u32 where "SPR_DTLBMR_CID \<equiv> 0x3c"
abbreviation (input) SPR_DTLBMR_LRU :: u32 where "SPR_DTLBMR_LRU \<equiv> 0xc0"
abbreviation (input) SPR_DTLBMR_VPN :: u32 where "SPR_DTLBMR_VPN \<equiv> 0xffffe000"
abbreviation (input) SPR_DTLBTR_CC :: u32 where "SPR_DTLBTR_CC \<equiv> 1"
abbreviation (input) SPR_DTLBTR_CI :: u32 where "SPR_DTLBTR_CI \<equiv> 2"
abbreviation (input) SPR_DTLBTR_WBC :: u32 where "SPR_DTLBTR_WBC \<equiv> 4"
abbreviation (input) SPR_DTLBTR_WOM :: u32 where "SPR_DTLBTR_WOM \<equiv> 8"
abbreviation (input) SPR_DTLBTR_A :: u32 where "SPR_DTLBTR_A \<equiv> 0x10"
abbreviation (input) SPR_DTLBTR_D :: u32 where "SPR_DTLBTR_D \<equiv> 0x20"
abbreviation (input) SPR_DTLBTR_URE :: u32 where "SPR_DTLBTR_URE \<equiv> 0x40"
abbreviation (input) SPR_DTLBTR_UWE :: u32 where "SPR_DTLBTR_UWE \<equiv> 0x80"
abbreviation (input) SPR_DTLBTR_SRE :: u32 where "SPR_DTLBTR_SRE \<equiv> 0x100"
abbreviation (input) SPR_DTLBTR_SWE :: u32 where "SPR_DTLBTR_SWE \<equiv> 0x200"
abbreviation (input) SPR_DTLBTR_PPN :: u32 where "SPR_DTLBTR_PPN \<equiv> 0xffffe000"
abbreviation (input) SPR_ITLBMR_V :: u32 where "SPR_ITLBMR_V \<equiv> 1"
abbreviation (input) SPR_ITLBMR_PL1 :: u32 where "SPR_ITLBMR_PL1 \<equiv> 2"
abbreviation (input) SPR_ITLBMR_CID :: u32 where "SPR_ITLBMR_CID \<equiv> 0x3c"
abbreviation (input) SPR_ITLBMR_LRU :: u32 where "SPR_ITLBMR_LRU \<equiv> 0xc0"
abbreviation (input) SPR_ITLBMR_VPN :: u32 where "SPR_ITLBMR_VPN \<equiv> 0xffffe000"
abbreviation (input) SPR_ITLBTR_CC :: u32 where "SPR_ITLBTR_CC \<equiv> 1"
abbreviation (input) SPR_ITLBTR_CI :: u32 where "SPR_ITLBTR_CI \<equiv> 2"
abbreviation (input) SPR_ITLBTR_WBC :: u32 where "SPR_ITLBTR_WBC \<equiv> 4"
abbreviation (input) SPR_ITLBTR_WOM :: u32 where "SPR_ITLBTR_WOM \<equiv> 8"
abbreviation (input) SPR_ITLBTR_A :: u32 where "SPR_ITLBTR_A \<equiv> 0x10"
abbreviation (input) SPR_ITLBTR_D :: u32 where "SPR_ITLBTR_D \<equiv> 0x20"
abbreviation (input) SPR_ITLBTR_SXE :: u32 where "SPR_ITLBTR_SXE \<equiv> 0x40"
abbreviation (input) SPR_ITLBTR_UXE :: u32 where "SPR_ITLBTR_UXE \<equiv> 0x80"
abbreviation (input) SPR_ITLBTR_PPN :: u32 where "SPR_ITLBTR_PPN \<equiv> 0xffffe000"
abbreviation (input) SPR_DCCR_EW :: u32 where "SPR_DCCR_EW \<equiv> 0xff"
abbreviation (input) SPR_ICCR_EW :: u32 where "SPR_ICCR_EW \<equiv> 0xff"
abbreviation (input) SPR_DCCFGR_NCW :: u32 where "SPR_DCCFGR_NCW \<equiv> 7"
abbreviation (input) SPR_DCCFGR_NCS :: u32 where "SPR_DCCFGR_NCS \<equiv> 0x78"
abbreviation (input) SPR_DCCFGR_CBS :: u32 where "SPR_DCCFGR_CBS \<equiv> 0x80"
abbreviation (input) SPR_DCCFGR_CWS :: u32 where "SPR_DCCFGR_CWS \<equiv> 0x100"
abbreviation (input) SPR_DCCFGR_CCRI :: u32 where "SPR_DCCFGR_CCRI \<equiv> 0x200"
abbreviation (input) SPR_DCCFGR_CBIRI :: u32 where "SPR_DCCFGR_CBIRI \<equiv> 0x400"
abbreviation (input) SPR_DCCFGR_CBPRI :: u32 where "SPR_DCCFGR_CBPRI \<equiv> 0x800"
abbreviation (input) SPR_DCCFGR_CBLRI :: u32 where "SPR_DCCFGR_CBLRI \<equiv> 0x1000"
abbreviation (input) SPR_DCCFGR_CBFRI :: u32 where "SPR_DCCFGR_CBFRI \<equiv> 0x2000"
abbreviation (input) SPR_DCCFGR_CBWBRI :: u32 where "SPR_DCCFGR_CBWBRI \<equiv> 0x4000"
abbreviation (input) SPR_ICCFGR_NCW :: u32 where "SPR_ICCFGR_NCW \<equiv> 7"
abbreviation (input) SPR_ICCFGR_NCS :: u32 where "SPR_ICCFGR_NCS \<equiv> 0x78"
abbreviation (input) SPR_ICCFGR_CBS :: u32 where "SPR_ICCFGR_CBS \<equiv> 0x80"
abbreviation (input) SPR_ICCFGR_CCRI :: u32 where "SPR_ICCFGR_CCRI \<equiv> 0x200"
abbreviation (input) SPR_ICCFGR_CBIRI :: u32 where "SPR_ICCFGR_CBIRI \<equiv> 0x400"
abbreviation (input) SPR_ICCFGR_CBPRI :: u32 where "SPR_ICCFGR_CBPRI \<equiv> 0x800"
abbreviation (input) SPR_ICCFGR_CBLRI :: u32 where "SPR_ICCFGR_CBLRI \<equiv> 0x1000"
abbreviation (input) SPR_DMMUCFGR_NTW :: u32 where "SPR_DMMUCFGR_NTW \<equiv> 3"
abbreviation (input) SPR_DMMUCFGR_NTS :: u32 where "SPR_DMMUCFGR_NTS \<equiv> 0x1c"
abbreviation (input) SPR_DMMUCFGR_NAE :: u32 where "SPR_DMMUCFGR_NAE \<equiv> 0xe0"
abbreviation (input) SPR_DMMUCFGR_CRI :: u32 where "SPR_DMMUCFGR_CRI \<equiv> 0x100"
abbreviation (input) SPR_DMMUCFGR_PRI :: u32 where "SPR_DMMUCFGR_PRI \<equiv> 0x200"
abbreviation (input) SPR_DMMUCFGR_TEIRI :: u32 where "SPR_DMMUCFGR_TEIRI \<equiv> 0x400"
abbreviation (input) SPR_DMMUCFGR_HTR :: u32 where "SPR_DMMUCFGR_HTR \<equiv> 0x800"
abbreviation (input) SPR_IMMUCFGR_NTW :: u32 where "SPR_IMMUCFGR_NTW \<equiv> 3"
abbreviation (input) SPR_IMMUCFGR_NTS :: u32 where "SPR_IMMUCFGR_NTS \<equiv> 0x1c"
abbreviation (input) SPR_IMMUCFGR_NAE :: u32 where "SPR_IMMUCFGR_NAE \<equiv> 0xe0"
abbreviation (input) SPR_IMMUCFGR_CRI :: u32 where "SPR_IMMUCFGR_CRI \<equiv> 0x100"
abbreviation (input) SPR_IMMUCFGR_PRI :: u32 where "SPR_IMMUCFGR_PRI \<equiv> 0x200"
abbreviation (input) SPR_IMMUCFGR_TEIRI :: u32 where "SPR_IMMUCFGR_TEIRI \<equiv> 0x400"
abbreviation (input) SPR_IMMUCFGR_HTR :: u32 where "SPR_IMMUCFGR_HTR \<equiv> 0x800"
abbreviation (input) SPR_DCR_DP :: u32 where "SPR_DCR_DP \<equiv> 1"
abbreviation (input) SPR_DCR_CC :: u32 where "SPR_DCR_CC \<equiv> 0xe"
abbreviation (input) SPR_DCR_SC :: u32 where "SPR_DCR_SC \<equiv> 0x10"
abbreviation (input) SPR_DCR_CT :: u32 where "SPR_DCR_CT \<equiv> 0xe0"
abbreviation (input) SPR_DCR_CC_MASKED :: u32 where "SPR_DCR_CC_MASKED \<equiv> 0"
abbreviation (input) SPR_DCR_CC_EQUAL :: u32 where "SPR_DCR_CC_EQUAL \<equiv> 2"
abbreviation (input) SPR_DCR_CC_LESS :: u32 where "SPR_DCR_CC_LESS \<equiv> 4"
abbreviation (input) SPR_DCR_CC_LESSE :: u32 where "SPR_DCR_CC_LESSE \<equiv> 6"
abbreviation (input) SPR_DCR_CC_GREAT :: u32 where "SPR_DCR_CC_GREAT \<equiv> 8"
abbreviation (input) SPR_DCR_CC_GREATE :: u32 where "SPR_DCR_CC_GREATE \<equiv> 0xa"
abbreviation (input) SPR_DCR_CC_NEQUAL :: u32 where "SPR_DCR_CC_NEQUAL \<equiv> 0xc"
abbreviation (input) SPR_DCR_CT_DISABLED :: u32 where "SPR_DCR_CT_DISABLED \<equiv> 0"
abbreviation (input) SPR_DCR_CT_IFEA :: u32 where "SPR_DCR_CT_IFEA \<equiv> 0x20"
abbreviation (input) SPR_DCR_CT_LEA :: u32 where "SPR_DCR_CT_LEA \<equiv> 0x40"
abbreviation (input) SPR_DCR_CT_SEA :: u32 where "SPR_DCR_CT_SEA \<equiv> 0x60"
abbreviation (input) SPR_DCR_CT_LD :: u32 where "SPR_DCR_CT_LD \<equiv> 0x80"
abbreviation (input) SPR_DCR_CT_SD :: u32 where "SPR_DCR_CT_SD \<equiv> 0xa0"
abbreviation (input) SPR_DCR_CT_LSEA :: u32 where "SPR_DCR_CT_LSEA \<equiv> 0xc0"
abbreviation (input) SPR_DCR_CT_LSD :: u32 where "SPR_DCR_CT_LSD \<equiv> 0xe0"
abbreviation (input) SPR_DMR1_CW :: u32 where "SPR_DMR1_CW \<equiv> 0xfffff"
abbreviation (input) SPR_DMR1_CW0_AND :: u32 where "SPR_DMR1_CW0_AND \<equiv> 1"
abbreviation (input) SPR_DMR1_CW0_OR :: u32 where "SPR_DMR1_CW0_OR \<equiv> 2"
abbreviation (input) SPR_DMR1_CW0 :: u32 where "SPR_DMR1_CW0 \<equiv> 3"
abbreviation (input) SPR_DMR1_CW1_AND :: u32 where "SPR_DMR1_CW1_AND \<equiv> 4"
abbreviation (input) SPR_DMR1_CW1_OR :: u32 where "SPR_DMR1_CW1_OR \<equiv> 8"
abbreviation (input) SPR_DMR1_CW1 :: u32 where "SPR_DMR1_CW1 \<equiv> 0xc"
abbreviation (input) SPR_DMR1_CW2_AND :: u32 where "SPR_DMR1_CW2_AND \<equiv> 0x10"
abbreviation (input) SPR_DMR1_CW2_OR :: u32 where "SPR_DMR1_CW2_OR \<equiv> 0x20"
abbreviation (input) SPR_DMR1_CW2 :: u32 where "SPR_DMR1_CW2 \<equiv> 0x30"
abbreviation (input) SPR_DMR1_CW3_AND :: u32 where "SPR_DMR1_CW3_AND \<equiv> 0x40"
abbreviation (input) SPR_DMR1_CW3_OR :: u32 where "SPR_DMR1_CW3_OR \<equiv> 0x80"
abbreviation (input) SPR_DMR1_CW3 :: u32 where "SPR_DMR1_CW3 \<equiv> 0xc0"
abbreviation (input) SPR_DMR1_CW4_AND :: u32 where "SPR_DMR1_CW4_AND \<equiv> 0x100"
abbreviation (input) SPR_DMR1_CW4_OR :: u32 where "SPR_DMR1_CW4_OR \<equiv> 0x200"
abbreviation (input) SPR_DMR1_CW4 :: u32 where "SPR_DMR1_CW4 \<equiv> 0x300"
abbreviation (input) SPR_DMR1_CW5_AND :: u32 where "SPR_DMR1_CW5_AND \<equiv> 0x400"
abbreviation (input) SPR_DMR1_CW5_OR :: u32 where "SPR_DMR1_CW5_OR \<equiv> 0x800"
abbreviation (input) SPR_DMR1_CW5 :: u32 where "SPR_DMR1_CW5 \<equiv> 0xc00"
abbreviation (input) SPR_DMR1_CW6_AND :: u32 where "SPR_DMR1_CW6_AND \<equiv> 0x1000"
abbreviation (input) SPR_DMR1_CW6_OR :: u32 where "SPR_DMR1_CW6_OR \<equiv> 0x2000"
abbreviation (input) SPR_DMR1_CW6 :: u32 where "SPR_DMR1_CW6 \<equiv> 0x3000"
abbreviation (input) SPR_DMR1_CW7_AND :: u32 where "SPR_DMR1_CW7_AND \<equiv> 0x4000"
abbreviation (input) SPR_DMR1_CW7_OR :: u32 where "SPR_DMR1_CW7_OR \<equiv> 0x8000"
abbreviation (input) SPR_DMR1_CW7 :: u32 where "SPR_DMR1_CW7 \<equiv> 0xc000"
abbreviation (input) SPR_DMR1_CW8_AND :: u32 where "SPR_DMR1_CW8_AND \<equiv> 0x10000"
abbreviation (input) SPR_DMR1_CW8_OR :: u32 where "SPR_DMR1_CW8_OR \<equiv> 0x20000"
abbreviation (input) SPR_DMR1_CW8 :: u32 where "SPR_DMR1_CW8 \<equiv> 0x30000"
abbreviation (input) SPR_DMR1_CW9_AND :: u32 where "SPR_DMR1_CW9_AND \<equiv> 0x40000"
abbreviation (input) SPR_DMR1_CW9_OR :: u32 where "SPR_DMR1_CW9_OR \<equiv> 0x80000"
abbreviation (input) SPR_DMR1_CW9 :: u32 where "SPR_DMR1_CW9 \<equiv> 0xc0000"
abbreviation (input) SPR_DMR1_RES1 :: u32 where "SPR_DMR1_RES1 \<equiv> 0x300000"
abbreviation (input) SPR_DMR1_ST :: u32 where "SPR_DMR1_ST \<equiv> 0x400000"
abbreviation (input) SPR_DMR1_BT :: u32 where "SPR_DMR1_BT \<equiv> 0x800000"
abbreviation (input) SPR_DMR1_RES2 :: u32 where "SPR_DMR1_RES2 \<equiv> 0xff000000"
abbreviation (input) SPR_DMR2_WCE0 :: u32 where "SPR_DMR2_WCE0 \<equiv> 1"
abbreviation (input) SPR_DMR2_WCE1 :: u32 where "SPR_DMR2_WCE1 \<equiv> 2"
abbreviation (input) SPR_DMR2_AWTC :: u32 where "SPR_DMR2_AWTC \<equiv> 0xffc"
abbreviation (input) SPR_DMR2_WGB :: u32 where "SPR_DMR2_WGB \<equiv> 0x3ff000"
abbreviation (input) SPR_DMR2_WBS :: u32 where "SPR_DMR2_WBS \<equiv> 0xffc00000"
abbreviation (input) SPR_DWCR_COUNT :: u32 where "SPR_DWCR_COUNT \<equiv> 0xffff"
abbreviation (input) SPR_DWCR_MATCH :: u32 where "SPR_DWCR_MATCH \<equiv> 0xffff0000"
abbreviation (input) SPR_DSR_RSTE :: u32 where "SPR_DSR_RSTE \<equiv> 1"
abbreviation (input) SPR_DSR_BUSEE :: u32 where "SPR_DSR_BUSEE \<equiv> 2"
abbreviation (input) SPR_DSR_DPFE :: u32 where "SPR_DSR_DPFE \<equiv> 4"
abbreviation (input) SPR_DSR_IPFE :: u32 where "SPR_DSR_IPFE \<equiv> 8"
abbreviation (input) SPR_DSR_TTE :: u32 where "SPR_DSR_TTE \<equiv> 0x10"
abbreviation (input) SPR_DSR_AE :: u32 where "SPR_DSR_AE \<equiv> 0x20"
abbreviation (input) SPR_DSR_IIE :: u32 where "SPR_DSR_IIE \<equiv> 0x40"
abbreviation (input) SPR_DSR_IE :: u32 where "SPR_DSR_IE \<equiv> 0x80"
abbreviation (input) SPR_DSR_DME :: u32 where "SPR_DSR_DME \<equiv> 0x100"
abbreviation (input) SPR_DSR_IME :: u32 where "SPR_DSR_IME \<equiv> 0x200"
abbreviation (input) SPR_DSR_RE :: u32 where "SPR_DSR_RE \<equiv> 0x400"
abbreviation (input) SPR_DSR_SCE :: u32 where "SPR_DSR_SCE \<equiv> 0x800"
abbreviation (input) SPR_DSR_FPE :: u32 where "SPR_DSR_FPE \<equiv> 0x1000"
abbreviation (input) SPR_DSR_TE :: u32 where "SPR_DSR_TE \<equiv> 0x2000"
abbreviation (input) SPR_DRR_RSTE :: u32 where "SPR_DRR_RSTE \<equiv> 1"
abbreviation (input) SPR_DRR_BUSEE :: u32 where "SPR_DRR_BUSEE \<equiv> 2"
abbreviation (input) SPR_DRR_DPFE :: u32 where "SPR_DRR_DPFE \<equiv> 4"
abbreviation (input) SPR_DRR_IPFE :: u32 where "SPR_DRR_IPFE \<equiv> 8"
abbreviation (input) SPR_DRR_TTE :: u32 where "SPR_DRR_TTE \<equiv> 0x10"
abbreviation (input) SPR_DRR_AE :: u32 where "SPR_DRR_AE \<equiv> 0x20"
abbreviation (input) SPR_DRR_IIE :: u32 where "SPR_DRR_IIE \<equiv> 0x40"
abbreviation (input) SPR_DRR_IE :: u32 where "SPR_DRR_IE \<equiv> 0x80"
abbreviation (input) SPR_DRR_DME :: u32 where "SPR_DRR_DME \<equiv> 0x100"
abbreviation (input) SPR_DRR_IME :: u32 where "SPR_DRR_IME \<equiv> 0x200"
abbreviation (input) SPR_DRR_RE :: u32 where "SPR_DRR_RE \<equiv> 0x400"
abbreviation (input) SPR_DRR_SCE :: u32 where "SPR_DRR_SCE \<equiv> 0x800"
abbreviation (input) SPR_DRR_FPE :: u32 where "SPR_DRR_FPE \<equiv> 0x1000"
abbreviation (input) SPR_DRR_TE :: u32 where "SPR_DRR_TE \<equiv> 0x2000"
abbreviation (input) SPR_PCMR_CP :: u32 where "SPR_PCMR_CP \<equiv> 1"
abbreviation (input) SPR_PCMR_UMRA :: u32 where "SPR_PCMR_UMRA \<equiv> 2"
abbreviation (input) SPR_PCMR_CISM :: u32 where "SPR_PCMR_CISM \<equiv> 4"
abbreviation (input) SPR_PCMR_CIUM :: u32 where "SPR_PCMR_CIUM \<equiv> 8"
abbreviation (input) SPR_PCMR_LA :: u32 where "SPR_PCMR_LA \<equiv> 0x10"
abbreviation (input) SPR_PCMR_SA :: u32 where "SPR_PCMR_SA \<equiv> 0x20"
abbreviation (input) SPR_PCMR_IF :: u32 where "SPR_PCMR_IF \<equiv> 0x40"
abbreviation (input) SPR_PCMR_DCM :: u32 where "SPR_PCMR_DCM \<equiv> 0x80"
abbreviation (input) SPR_PCMR_ICM :: u32 where "SPR_PCMR_ICM \<equiv> 0x100"
abbreviation (input) SPR_PCMR_IFS :: u32 where "SPR_PCMR_IFS \<equiv> 0x200"
abbreviation (input) SPR_PCMR_LSUS :: u32 where "SPR_PCMR_LSUS \<equiv> 0x400"
abbreviation (input) SPR_PCMR_BS :: u32 where "SPR_PCMR_BS \<equiv> 0x800"
abbreviation (input) SPR_PCMR_DTLBM :: u32 where "SPR_PCMR_DTLBM \<equiv> 0x1000"
abbreviation (input) SPR_PCMR_ITLBM :: u32 where "SPR_PCMR_ITLBM \<equiv> 0x2000"
abbreviation (input) SPR_PCMR_DDS :: u32 where "SPR_PCMR_DDS \<equiv> 0x4000"
abbreviation (input) SPR_PCMR_WPE :: u32 where "SPR_PCMR_WPE \<equiv> 0x3ff8000"
abbreviation (input) SPR_PMR_SDF :: u32 where "SPR_PMR_SDF \<equiv> 0xf"
abbreviation (input) SPR_PMR_DME :: u32 where "SPR_PMR_DME \<equiv> 0x10"
abbreviation (input) SPR_PMR_SME :: u32 where "SPR_PMR_SME \<equiv> 0x20"
abbreviation (input) SPR_PMR_DCGE :: u32 where "SPR_PMR_DCGE \<equiv> 0x40"
abbreviation (input) SPR_PMR_SUME :: u32 where "SPR_PMR_SUME \<equiv> 0x80"
abbreviation (input) SPR_PICMR_IUM :: u32 where "SPR_PICMR_IUM \<equiv> 0xfffffffc"
abbreviation (input) SPR_PICPR_IPRIO :: u32 where "SPR_PICPR_IPRIO \<equiv> 0xfffffffc"
abbreviation (input) SPR_PICSR_IS :: u32 where "SPR_PICSR_IS \<equiv> 0xffffffff"
abbreviation (input) SPR_TTCR_CNT :: u32 where "SPR_TTCR_CNT \<equiv> 0xffffffff"
abbreviation (input) SPR_TTMR_TP :: u32 where "SPR_TTMR_TP \<equiv> 0xfffffff"
abbreviation (input) SPR_TTMR_IP :: u32 where "SPR_TTMR_IP \<equiv> 0x10000000"
abbreviation (input) SPR_TTMR_IE :: u32 where "SPR_TTMR_IE \<equiv> 0x20000000"
abbreviation (input) SPR_TTMR_DI :: u32 where "SPR_TTMR_DI \<equiv> 0"
abbreviation (input) SPR_TTMR_RT :: u32 where "SPR_TTMR_RT \<equiv> 0x40000000"
abbreviation (input) SPR_TTMR_SR :: u32 where "SPR_TTMR_SR \<equiv> 0x80000000"
abbreviation (input) SPR_TTMR_CR :: u32 where "SPR_TTMR_CR \<equiv> 0xc0000000"
abbreviation (input) SPR_TTMR_M :: u32 where "SPR_TTMR_M \<equiv> 0xc0000000"
abbreviation (input) SPR_FPCSR_FPEE :: u32 where "SPR_FPCSR_FPEE \<equiv> 1"
abbreviation (input) SPR_FPCSR_RM :: u32 where "SPR_FPCSR_RM \<equiv> 6"
abbreviation (input) SPR_FPCSR_OVF :: u32 where "SPR_FPCSR_OVF \<equiv> 8"
abbreviation (input) SPR_FPCSR_UNF :: u32 where "SPR_FPCSR_UNF \<equiv> 0x10"
abbreviation (input) SPR_FPCSR_SNF :: u32 where "SPR_FPCSR_SNF \<equiv> 0x20"
abbreviation (input) SPR_FPCSR_QNF :: u32 where "SPR_FPCSR_QNF \<equiv> 0x40"
abbreviation (input) SPR_FPCSR_ZF :: u32 where "SPR_FPCSR_ZF \<equiv> 0x80"
abbreviation (input) SPR_FPCSR_IXF :: u32 where "SPR_FPCSR_IXF \<equiv> 0x100"
abbreviation (input) SPR_FPCSR_IVF :: u32 where "SPR_FPCSR_IVF \<equiv> 0x200"
abbreviation (input) SPR_FPCSR_INF :: u32 where "SPR_FPCSR_INF \<equiv> 0x400"
abbreviation (input) SPR_FPCSR_DZF :: u32 where "SPR_FPCSR_DZF \<equiv> 0x800"
abbreviation (input) SPR_FPCSR_ALLF :: u32 where "SPR_FPCSR_ALLF \<equiv> 0xff8"
abbreviation (input) FPCSR_RM_RN :: u32 where "FPCSR_RM_RN \<equiv> 0"
abbreviation (input) FPCSR_RM_RZ :: u32 where "FPCSR_RM_RZ \<equiv> 2"
abbreviation (input) FPCSR_RM_RIP :: u32 where "FPCSR_RM_RIP \<equiv> 4"
abbreviation (input) FPCSR_RM_RIN :: u32 where "FPCSR_RM_RIN \<equiv> 6"
abbreviation (input) NOP_NOP :: u32 where "NOP_NOP \<equiv> 0"
abbreviation (input) NOP_EXIT :: u32 where "NOP_EXIT \<equiv> 1"
abbreviation (input) NOP_REPORT :: u32 where "NOP_REPORT \<equiv> 2"
abbreviation (input) NOP_PUTC :: u32 where "NOP_PUTC \<equiv> 4"
abbreviation (input) NOP_CNT_RESET :: u32 where "NOP_CNT_RESET \<equiv> 5"
abbreviation (input) NOP_GET_TICKS :: u32 where "NOP_GET_TICKS \<equiv> 6"
abbreviation (input) NOP_GET_PS :: u32 where "NOP_GET_PS \<equiv> 7"
abbreviation (input) NOP_TRACE_ON :: u32 where "NOP_TRACE_ON \<equiv> 8"
abbreviation (input) NOP_RANDOM :: u32 where "NOP_RANDOM \<equiv> 0xa"
abbreviation (input) NOP_OR1KSIM :: u32 where "NOP_OR1KSIM \<equiv> 0xb"

section \<open>Exception vectors\<close>

abbreviation (input) EXCEPT_NONE :: u32 where "EXCEPT_NONE \<equiv> 0x0000"
abbreviation (input) EXCEPT_RESET :: u32 where "EXCEPT_RESET \<equiv> 0x0100"
abbreviation (input) EXCEPT_BUSERR :: u32 where "EXCEPT_BUSERR \<equiv> 0x0200"
abbreviation (input) EXCEPT_DPF :: u32 where "EXCEPT_DPF \<equiv> 0x0300"
abbreviation (input) EXCEPT_IPF :: u32 where "EXCEPT_IPF \<equiv> 0x0400"
abbreviation (input) EXCEPT_TICK :: u32 where "EXCEPT_TICK \<equiv> 0x0500"
abbreviation (input) EXCEPT_ALIGN :: u32 where "EXCEPT_ALIGN \<equiv> 0x0600"
abbreviation (input) EXCEPT_ILLEGAL :: u32 where "EXCEPT_ILLEGAL \<equiv> 0x0700"
abbreviation (input) EXCEPT_INT :: u32 where "EXCEPT_INT \<equiv> 0x0800"
abbreviation (input) EXCEPT_DTLBMISS :: u32 where "EXCEPT_DTLBMISS \<equiv> 0x0900"
abbreviation (input) EXCEPT_ITLBMISS :: u32 where "EXCEPT_ITLBMISS \<equiv> 0x0a00"
abbreviation (input) EXCEPT_RANGE :: u32 where "EXCEPT_RANGE \<equiv> 0x0b00"
abbreviation (input) EXCEPT_SYSCALL :: u32 where "EXCEPT_SYSCALL \<equiv> 0x0c00"
abbreviation (input) EXCEPT_FPE :: u32 where "EXCEPT_FPE \<equiv> 0x0d00"
abbreviation (input) EXCEPT_TRAP :: u32 where "EXCEPT_TRAP \<equiv> 0x0e00"

end
