(* ===== verification/Sched.thy ===== *)
theory Sched
  imports Prelude "HOL-Library.Multiset"
begin

text \<open>
  The job scheduler of \<open>support/sched.c\<close>: two singly linked lists of \<open>struct sched_entry\<close>, the job
  queue (a delta list: an entry's \<open>time\<close> is relative to the entry before it) and the list of free
  entries. A linked list is the list of its entries, a function pointer a value of the type
  variable \<open>'f\<close>, the \<open>void *\<close> parameter a number (0 is \<open>NULL\<close>), an \<open>int32_t\<close> an \<open>int\<close> with every
  assignment reduced by \<open>i32\<close>. Following a null pointer is \<open>Inl Null_deref\<close>.

  The contract is the sorted list of absolute due times \<open>sched_abs\<close>; every operation refines an
  operation on that list (locale \<open>timed_queue\<close>, interpreted at the end of the theory).
\<close>

section \<open>State\<close>

record 'f sched_entry =
  time :: int
  param :: nat
  func :: 'f

record 'f scheduler_struct =
  free_job_queue :: "'f sched_entry list"
  job_queue :: "'f sched_entry list"

abbreviation (input) SCHED_HEAP_SIZE :: nat where "SCHED_HEAP_SIZE \<equiv> 128"
abbreviation (input) SCHED_TIME_MAX :: int where "SCHED_TIME_MAX \<equiv> INT32_MAX"

section \<open>Operations\<close>

text \<open>
  The loop of \<open>sched_add\<close>: walk while the accumulated time is below the wanted one. The result is
  the entries passed, the entries from \<open>cur\<close> on, and \<open>alltime\<close>.
\<close>

fun sched_scan :: "int \<Rightarrow> 'f sched_entry list \<Rightarrow> 'f sched_entry list \<Rightarrow> int
    \<Rightarrow> 'f sched_entry list \<times> 'f sched_entry list \<times> int" where
  "sched_scan job_time passed [] alltime = (passed, [], alltime)"
| "sched_scan job_time passed (cur # rest) alltime =
     (if alltime < job_time
      then (case rest of
              [] \<Rightarrow> (passed @ [cur], [], alltime)
            | nxt # _ \<Rightarrow> sched_scan job_time (passed @ [cur]) rest (i32 (alltime + time nxt)))
      else (passed, cur # rest, alltime))"

text \<open>\<open>cur->time -= d\<close> if \<open>cur\<close> is not \<open>NULL\<close>.\<close>

definition sub_head_time :: "int \<Rightarrow> 'f sched_entry list \<Rightarrow> 'f sched_entry list" where
  "sub_head_time d es = (case es of [] \<Rightarrow> [] | e # r \<Rightarrow> e\<lparr>time := i32 (time e - d)\<rparr> # r)"

definition head_time :: "'f sched_entry list \<Rightarrow> int" where
  "head_time es = (case es of [] \<Rightarrow> 0 | e # _ \<Rightarrow> time e)"

definition sched_add :: "'f \<Rightarrow> nat \<Rightarrow> int \<Rightarrow> 'f scheduler_struct \<Rightarrow> 'f scheduler_struct res" where
  "sched_add job_func job_param job_time s =
     (case job_queue s of
        [] \<Rightarrow> Inl Null_deref
      | c # _ \<Rightarrow>
         (case sched_scan job_time [] (job_queue s) (time c) of (passed, cur, alltime) \<Rightarrow>
           (case free_job_queue s of
              [] \<Rightarrow> Inl Null_deref
            | new_job # free \<Rightarrow>
               (let t = (if passed \<noteq> [] then i32 (job_time - i32 (alltime - head_time cur))
                         else if 0 \<le> job_time then job_time else head_time cur);
                    new_job = new_job\<lparr>func := job_func, param := job_param, time := t\<rparr>
                in Inr \<lparr>free_job_queue = free,
                        job_queue = passed @ new_job # sub_head_time t cur\<rparr>))))"

text \<open>\<open>sched_guard\<close> reschedules itself; \<open>self\<close> is its own function pointer.\<close>

definition sched_guard :: "'f \<Rightarrow> nat \<Rightarrow> 'f scheduler_struct \<Rightarrow> 'f scheduler_struct res" where
  "sched_guard self dat s =
     (if job_queue s \<noteq> [] then sched_add self dat SCHED_TIME_MAX s
      else (case free_job_queue s of
              [] \<Rightarrow> Inl Null_deref
            | e # free \<Rightarrow>
                Inr \<lparr>free_job_queue = free,
                     job_queue = [e\<lparr>func := self, time := SCHED_TIME_MAX\<rparr>]\<rparr>))"

text \<open>Every queued entry is pushed on the free list, front first.\<close>

fun sched_release :: "'f sched_entry list \<Rightarrow> 'f sched_entry list \<Rightarrow> 'f sched_entry list" where
  "sched_release [] free = free"
| "sched_release (cur # rest) free = sched_release rest (cur # free)"

definition sched_reset :: "'f \<Rightarrow> 'f scheduler_struct \<Rightarrow> 'f scheduler_struct res" where
  "sched_reset self s =
     sched_guard self 0
       \<lparr>free_job_queue = sched_release (job_queue s) (free_job_queue s), job_queue = []\<rparr>"

text \<open>\<open>fresh\<close> is what \<open>malloc\<close> returns: entries with whatever contents they have.\<close>

definition sched_init :: "'f \<Rightarrow> (nat \<Rightarrow> 'f sched_entry) \<Rightarrow> 'f scheduler_struct res" where
  "sched_init self fresh =
     sched_guard self 0 \<lparr>free_job_queue = rev (map fresh [0..<SCHED_HEAP_SIZE]), job_queue = []\<rparr>"

text \<open>\<open>e->time += d\<close>.\<close>

definition add_time :: "int \<Rightarrow> 'f sched_entry \<Rightarrow> 'f sched_entry" where
  "add_time d e = e\<lparr>time := i32 (time e + d)\<rparr>"

text \<open>
  One round of \<open>do_scheduler\<close> up to the call: the head goes to the free list, its (negative or
  zero) time is carried over to the next entry, which is dereferenced without a check.
\<close>

definition sched_pop :: "'f scheduler_struct \<Rightarrow> ('f \<times> nat \<times> 'f scheduler_struct) res" where
  "sched_pop s =
     (case job_queue s of
        [] \<Rightarrow> Inl Null_deref
      | [tmp] \<Rightarrow> Inl Null_deref
      | tmp # nxt # rest \<Rightarrow>
          Inr (func tmp, param tmp,
               \<lparr>free_job_queue = tmp # free_job_queue s,
                job_queue = add_time (time tmp) nxt # rest\<rparr>))"

fun find_remove :: "'f \<Rightarrow> nat \<Rightarrow> 'f sched_entry list \<Rightarrow> ('f sched_entry \<times> 'f sched_entry list) option"
where
  "find_remove f dat [] = None"
| "find_remove f dat (cur # rest) =
     (if func cur = f \<and> param cur = dat
      then Some (cur, case rest of [] \<Rightarrow> [] | nxt # r \<Rightarrow> add_time (time cur) nxt # r)
      else map_option (apsnd ((#) cur)) (find_remove f dat rest))"

definition sched_find_remove :: "'f \<Rightarrow> nat \<Rightarrow> 'f scheduler_struct \<Rightarrow> 'f scheduler_struct" where
  "sched_find_remove f dat s =
     (case find_remove f dat (job_queue s) of
        None \<Rightarrow> s
      | Some (cur, q) \<Rightarrow> \<lparr>free_job_queue = cur # free_job_queue s, job_queue = q\<rparr>)"

fun overdue_cycles :: "int \<Rightarrow> 'f sched_entry list \<Rightarrow> int" where
  "overdue_cycles cycles [] = cycles"
| "overdue_cycles cycles (cur # rest) =
     (if time cur < 0 then overdue_cycles (i32 (cycles - time cur)) rest else cycles)"

definition sched_next_insn :: "'f \<Rightarrow> nat \<Rightarrow> 'f scheduler_struct \<Rightarrow> 'f scheduler_struct res" where
  "sched_next_insn f dat s = sched_add f dat (overdue_cycles 1 (job_queue s)) s"


section \<open>The contract: a sorted list of due times\<close>

text \<open>Due times are relative to now, the delta of the first entry.\<close>

fun sched_abs :: "int \<Rightarrow> 'f sched_entry list \<Rightarrow> (int \<times> 'f \<times> nat) list" where
  "sched_abs now [] = []"
| "sched_abs now (e # es) = (now + time e, func e, param e) # sched_abs (now + time e) es"

fun tq_insert :: "int \<Rightarrow> 'x \<Rightarrow> (int \<times> 'x) list \<Rightarrow> (int \<times> 'x) list" where
  "tq_insert t x [] = [(t, x)]"
| "tq_insert t x (y # ys) = (if fst y < t then y # tq_insert t x ys else (t, x) # y # ys)"

fun tq_remove :: "'x \<Rightarrow> (int \<times> 'x) list \<Rightarrow> (int \<times> 'x) list" where
  "tq_remove x [] = []"
| "tq_remove x (y # ys) = (if snd y = x then ys else y # tq_remove x ys)"

definition in_int32 :: "int \<Rightarrow> bool" where
  "in_int32 t \<longleftrightarrow> INT32_MIN \<le> t \<and> t \<le> INT32_MAX"

definition sched_jobs :: "'f scheduler_struct \<Rightarrow> (int \<times> 'f \<times> nat) list" where
  "sched_jobs s = sched_abs 0 (job_queue s)"

text \<open>Sorted, every due time an \<open>int32_t\<close>, and no entry too far behind the first one.\<close>

definition tq_wf :: "(int \<times> 'x) list \<Rightarrow> bool" where
  "tq_wf q \<longleftrightarrow> sorted (map fst q)
     \<and> list_all (\<lambda>t. in_int32 t \<and> t - fst (hd q) \<le> INT32_MAX) (map fst q)"

definition sched_wf :: "'f scheduler_struct \<Rightarrow> bool" where
  "sched_wf s \<longleftrightarrow> tq_wf (sched_jobs s)"

definition sched_room :: "'f scheduler_struct \<Rightarrow> nat" where
  "sched_room s = length (free_job_queue s)"

text \<open>A job may be added \<open>t\<close> cycles from now: no entry is so late that the delta overflows, and a
  negative \<open>t\<close> lies behind the first entry.\<close>

definition tq_addable :: "int \<Rightarrow> (int \<times> 'x) list \<Rightarrow> bool" where
  "tq_addable t q \<longleftrightarrow> q \<noteq> [] \<and> INT32_MIN \<le> t \<and> t \<le> INT32_MAX \<and> t - fst (hd q) \<le> INT32_MAX
     \<and> (0 \<le> t \<or> fst (hd q) < t)"

lemma i32_in [simp]: "in_int32 t \<Longrightarrow> i32 t = t"
  by (simp add: in_int32_def)

abbreviation total_time :: "'f sched_entry list \<Rightarrow> int" where
  "total_time es \<equiv> sum_list (map time es)"

lemma sched_abs_append:
  "sched_abs now (xs @ ys) = sched_abs now xs @ sched_abs (now + total_time xs) ys"
  by (induction xs arbitrary: now) (simp_all add: algebra_simps)

lemma sched_abs_eq_Nil [simp]: "sched_abs now q = [] \<longleftrightarrow> q = []"
  by (cases q) simp_all

lemma length_sched_abs [simp]: "length (sched_abs now q) = length q"
  by (induction q arbitrary: now) simp_all

lemma sched_abs_last:
  "xs \<noteq> [] \<Longrightarrow> fst (last (sched_abs now xs)) = now + total_time xs"
  by (induction xs arbitrary: now) (auto simp: algebra_simps)

lemma sched_abs_sub_head:
  assumes "ys \<noteq> [] \<Longrightarrow> in_int32 (time (hd ys) - d)"
  shows "sched_abs (now + d) (sub_head_time d ys) = sched_abs now ys"
  using assms by (cases ys) (simp_all add: sub_head_time_def)

lemma sched_abs_add_time:
  "in_int32 (time e + d) \<Longrightarrow> sched_abs now (add_time d e # es) = sched_abs (now + d) (e # es)"
  by (simp add: add_time_def algebra_simps)

lemma tq_insert_append:
  assumes "\<forall>y\<in>set xs. fst y < t" and "ys \<noteq> [] \<Longrightarrow> t \<le> fst (hd ys)"
  shows "tq_insert t x (xs @ ys) = xs @ (t, x) # ys"
  using assms by (induction xs) (cases ys; auto)+

lemma set_tq_insert: "set (tq_insert t x q) = insert (t, x) (set q)"
  by (induction q) auto

lemma mset_tq_insert: "mset (tq_insert t x q) = add_mset (t, x) (mset q)"
  by (induction q) auto

lemma length_tq_insert [simp]: "length (tq_insert t x q) = Suc (length q)"
  by (induction q) auto

lemma sorted_tq_insert: "sorted (map fst q) \<Longrightarrow> sorted (map fst (tq_insert t x q))"
  by (induction q) (auto simp: set_tq_insert)

lemma set_tq_remove: "set (tq_remove x q) \<subseteq> set q"
  by (induction q) auto

lemma sorted_tq_remove: "sorted (map fst q) \<Longrightarrow> sorted (map fst (tq_remove x q))"
  by (induction q) (use set_tq_remove in fastforce)+

lemma tq_remove_hd:
  "sorted (map fst q) \<Longrightarrow> tq_remove x q \<noteq> [] \<Longrightarrow> fst (hd q) \<le> fst (hd (tq_remove x q))"
  by (cases q) (auto simp: neq_Nil_conv)

lemma tq_insert_hd: "q \<noteq> [] \<Longrightarrow> fst (hd (tq_insert t x q)) = min (fst (hd q)) t"
  by (cases q) (auto simp: min_def)

lemma tq_wf_insert [inv_intros]:
  assumes "tq_wf q" and "tq_addable t q"
  shows "tq_wf (tq_insert t x q)"
proof -
  have "in_int32 t" using assms(2) by (simp add: tq_addable_def in_int32_def)
  moreover have "fst y - fst (hd (tq_insert t x q)) \<le> INT32_MAX" if "y \<in> set (tq_insert t x q)" for y
    using that assms
    by (auto simp: tq_wf_def tq_addable_def set_tq_insert tq_insert_hd list_all_iff in_int32_def min_def)
  ultimately show ?thesis
    using assms(1) unfolding tq_wf_def list_all_iff set_map
    by (simp add: sorted_tq_insert) (simp add: set_tq_insert)
qed

lemma tq_wf_remove [inv_intros]:
  assumes wf: "tq_wf q"
  shows "tq_wf (tq_remove x q)"
proof (cases "tq_remove x q = []")
  case False
  have sub: "fst ` set (tq_remove x q) \<subseteq> fst ` set q"
    by (rule image_mono[OF set_tq_remove])
  have first: "fst (hd q) \<le> fst (hd (tq_remove x q))"
    by (rule tq_remove_hd) (use wf False in \<open>simp_all add: tq_wf_def\<close>)
  have "\<forall>t\<in>fst ` set (tq_remove x q). in_int32 t \<and> t - fst (hd q) \<le> INT32_MAX"
    using wf sub unfolding tq_wf_def list_all_iff set_map by blast
  then have "\<forall>t\<in>fst ` set (tq_remove x q). in_int32 t \<and> t - fst (hd (tq_remove x q)) \<le> INT32_MAX"
    by (intro ballI) (drule (1) bspec, use first in linarith)
  moreover have "sorted (map fst (tq_remove x q))"
    using wf by (simp add: tq_wf_def sorted_tq_remove)
  ultimately show ?thesis unfolding tq_wf_def list_all_iff set_map by blast
qed (simp add: tq_wf_def)

lemma tq_wf_tl:
  assumes wf: "tq_wf (y # q)"
  shows "tq_wf q"
proof (cases q)
  case (Cons z r)
  then have "fst y \<le> fst z" using wf by (simp add: tq_wf_def)
  moreover have "\<forall>x\<in>set q. in_int32 (fst x) \<and> fst x - fst y \<le> INT32_MAX"
    using wf by (simp add: tq_wf_def list_all_iff)
  ultimately have "\<forall>x\<in>set q. in_int32 (fst x) \<and> fst x - fst z \<le> INT32_MAX"
    by (intro ballI) (drule (1) bspec, linarith)
  then have "list_all (\<lambda>t. in_int32 t \<and> t - fst z \<le> INT32_MAX) (map fst q)"
    by (simp only: list_all_iff set_map ball_simps)
  moreover have "sorted (map fst q)" using wf by (simp add: tq_wf_def)
  ultimately show ?thesis unfolding tq_wf_def Cons by simp
qed (simp add: tq_wf_def)

lemma deltas_in_int32:
  assumes "sorted (now # map fst (sched_abs now q))" and "lo \<le> now"
    and "list_all (\<lambda>t. t - lo \<le> INT32_MAX) (map fst (sched_abs now q))"
  shows "list_all in_int32 (map time q)"
  using assms
proof (induction q arbitrary: now)
  case Nil
  then show ?case by simp
next
  case (Cons e q)
  have "list_all in_int32 (map time q)"
    by (rule Cons.IH[of "now + time e"]) (use Cons.prems in auto)
  moreover have "in_int32 (time e)" using Cons.prems by (simp add: in_int32_def)
  ultimately show ?case by simp
qed

lemma wf_ranges:
  assumes "tq_wf (sched_abs 0 q)"
  shows "list_all in_int32 (map fst (sched_abs 0 q))" and "list_all in_int32 (map time q)"
proof -
  from assms show "list_all in_int32 (map fst (sched_abs 0 q))"
    by (auto simp: tq_wf_def list_all_iff)
  show "list_all in_int32 (map time q)"
  proof (cases q)
    case Nil
    then show ?thesis by simp
  next
    case (Cons c r)
    with assms have "list_all in_int32 (map time r)"
      by (intro deltas_in_int32[of "time c" r "time c"]) (auto simp: tq_wf_def list_all_iff)
    with Cons assms show ?thesis by (simp add: tq_wf_def)
  qed
qed

section \<open>Adding a job\<close>

text \<open>The walk stops at the first entry that is due at or after the wanted time.\<close>

lemma sched_scan_splits:
  assumes "list_all in_int32 (map fst (sched_abs now (cur # rest)))"
  shows "\<exists>xs ys. cur # rest = xs @ ys
     \<and> sched_scan t passed (cur # rest) (now + time cur)
         = (passed @ xs, ys, now + total_time xs + head_time ys)
     \<and> (\<forall>y\<in>set (sched_abs now xs). fst y < t)
     \<and> (ys \<noteq> [] \<longrightarrow> t \<le> now + total_time xs + time (hd ys))"
  using assms
proof (induction rest arbitrary: cur now passed)
  case Nil
  show ?case
  proof (cases "now + time cur < t")
    case True
    then show ?thesis by (intro exI[of _ "[cur]"] exI[of _ "[]"]) (simp add: head_time_def)
  next
    case False
    then show ?thesis by (intro exI[of _ "[]"] exI[of _ "[cur]"]) (simp add: head_time_def)
  qed
next
  case (Cons nxt rest)
  show ?case
  proof (cases "now + time cur < t")
    case True
    let ?now = "now + time cur"
    from Cons.prems have range: "list_all in_int32 (map fst (sched_abs ?now (nxt # rest)))" by simp
    from Cons.IH[OF range, of "passed @ [cur]"] obtain xs ys where IH:
      "nxt # rest = xs @ ys"
      "sched_scan t (passed @ [cur]) (nxt # rest) (?now + time nxt)
         = ((passed @ [cur]) @ xs, ys, ?now + total_time xs + head_time ys)"
      "\<forall>y\<in>set (sched_abs ?now xs). fst y < t"
      "ys \<noteq> [] \<longrightarrow> t \<le> ?now + total_time xs + time (hd ys)"
      by blast
    from range have "i32 (?now + time nxt) = ?now + time nxt" by simp
    with True IH(2) have "sched_scan t passed (cur # nxt # rest) ?now
        = (passed @ cur # xs, ys, ?now + total_time xs + head_time ys)"
      by simp
    with IH(1,3,4) True show ?thesis
      by (rule_tac exI[of _ "cur # xs"], rule_tac exI[of _ ys]) (simp add: add.assoc)
  next
    case False
    then show ?thesis
      by (intro exI[of _ "[]"] exI[of _ "cur # nxt # rest"]) (simp add: head_time_def)
  qed
qed


lemma total_time_due:
  "xs \<noteq> [] \<Longrightarrow> (total_time xs, func (last xs), param (last xs)) \<in> set (sched_abs 0 xs)"
  by (induction xs rule: rev_induct) (simp_all add: sched_abs_append)

text \<open>The delta of the new entry and of its successor are representable.\<close>

lemma insert_gap:
  assumes jobs: "jobs = sched_abs 0 (xs @ ys)" and sorted: "sorted (map fst jobs)"
    and range: "list_all in_int32 (map fst jobs)" and deltas: "list_all in_int32 (map time (xs @ ys))"
    and ok: "tq_addable t jobs"
    and before: "\<forall>y\<in>set (sched_abs 0 xs). fst y < t"
    and after: "ys \<noteq> [] \<longrightarrow> t \<le> total_time xs + time (hd ys)"
  shows "in_int32 (t - total_time xs)" and "xs \<noteq> [] \<Longrightarrow> in_int32 (total_time xs)"
    and "xs = [] \<Longrightarrow> 0 \<le> t" and "ys \<noteq> [] \<Longrightarrow> in_int32 (time (hd ys) - (t - total_time xs))"
proof -
  have jobs_split: "jobs = sched_abs 0 xs @ sched_abs (total_time xs) ys"
    by (simp add: jobs sched_abs_append)
  have first: "fst (hd jobs) \<le> total_time xs \<and> total_time xs < t \<and> in_int32 (total_time xs)"
    if "xs \<noteq> []"
  proof -
    from that obtain x xs' where xs: "xs = x # xs'" by (cases xs) auto
    from total_time_due[OF that] have mem: "(total_time xs, func (last xs), param (last xs)) \<in> set jobs"
      by (simp add: jobs_split)
    with sorted xs have "fst (hd jobs) \<le> total_time xs" by (force simp: jobs_split)
    with mem total_time_due[OF that] before range show ?thesis by (force simp: list_all_iff)
  qed
  have empty: "0 \<le> t" if "xs = []"
    using that ok after by (cases ys) (auto simp: tq_addable_def jobs)
  have "t - total_time xs \<le> INT32_MAX"
    using first ok by (cases "xs = []") (auto simp: tq_addable_def)
  moreover have "INT32_MIN \<le> t - total_time xs" using first ok empty by (cases "xs = []") auto
  ultimately show "in_int32 (t - total_time xs)" by (simp add: in_int32_def)
  show "xs \<noteq> [] \<Longrightarrow> in_int32 (total_time xs)" using first by blast
  show "xs = [] \<Longrightarrow> 0 \<le> t" by (rule empty)
  assume "ys \<noteq> []"
  then obtain y ys' where ys: "ys = y # ys'" by (cases ys) auto
  with range have "total_time xs + time y \<le> INT32_MAX"
    by (simp add: jobs_split in_int32_def)
  moreover from deltas ys have "time y \<le> INT32_MAX" by (simp add: in_int32_def)
  ultimately show "in_int32 (time (hd ys) - (t - total_time xs))"
    using ys after first empty by (cases "xs = []") (auto simp: in_int32_def)
qed

text \<open>The queue that \<open>sched_add\<close> leaves: the new entry spliced in with a relative time.\<close>

lemma sched_add_splices:
  assumes wf: "sched_wf s" and room: "0 < sched_room s" and ok: "tq_addable t (sched_jobs s)"
  obtains xs ys e free where "job_queue s = xs @ ys" and "free_job_queue s = e # free"
    and "\<forall>y\<in>set (sched_abs 0 xs). fst y < t"
    and "ys \<noteq> [] \<longrightarrow> t \<le> total_time xs + time (hd ys)"
    and "sched_add f p t s = Inr \<lparr>free_job_queue = free, job_queue =
           xs @ e\<lparr>func := f, param := p, time := t - total_time xs\<rparr> # sub_head_time (t - total_time xs) ys\<rparr>"
proof -
  from ok obtain c q where q: "job_queue s = c # q"
    by (cases "job_queue s") (auto simp: tq_addable_def sched_jobs_def)
  from room obtain e free where free: "free_job_queue s = e # free"
    by (cases "free_job_queue s") (auto simp: sched_room_def)
  from wf q have wf_q: "tq_wf (sched_abs 0 (c # q))" by (simp add: sched_wf_def sched_jobs_def)
  note range = wf_ranges(1)[OF wf_q]
  from sched_scan_splits[OF range, of t "[]", unfolded add_0 append_Nil] obtain xs ys where split:
    "c # q = xs @ ys"
    "sched_scan t [] (c # q) (time c) = (xs, ys, total_time xs + head_time ys)"
    "\<forall>y\<in>set (sched_abs 0 xs). fst y < t"
    "ys \<noteq> [] \<longrightarrow> t \<le> total_time xs + time (hd ys)"
    by blast
  note gap = insert_gap[OF _ _ _ _ _ split(3,4), of "sched_jobs s"]
  have delta: "(if xs \<noteq> [] then i32 (t - i32 (total_time xs + head_time ys - head_time ys))
      else if 0 \<le> t then t else head_time ys) = t - total_time xs"
    using gap wf wf_ranges[OF wf_q] ok q split(1)
    by (cases "xs = []") (simp_all add: sched_wf_def sched_jobs_def tq_wf_def)
  have "sched_add f p t s = Inr \<lparr>free_job_queue = free, job_queue =
      xs @ e\<lparr>func := f, param := p, time := t - total_time xs\<rparr> # sub_head_time (t - total_time xs) ys\<rparr>"
    unfolding delta[symmetric] by (simp add: sched_add_def q free split(2) Let_def del: sched_scan.simps)
  with q free split show ?thesis by (intro that) simp_all
qed

lemma sched_add_refines:
  assumes wf: "sched_wf s" and room: "0 < sched_room s" and ok: "tq_addable t (sched_jobs s)"
  shows "\<exists>s'. sched_add f p t s = Inr s' \<and> sched_jobs s' = tq_insert t (f, p) (sched_jobs s)
     \<and> sched_wf s' \<and> Suc (sched_room s') = sched_room s"
proof -
  obtain xs ys e free where split: "job_queue s = xs @ ys" "free_job_queue s = e # free"
    "\<forall>y\<in>set (sched_abs 0 xs). fst y < t" "ys \<noteq> [] \<longrightarrow> t \<le> total_time xs + time (hd ys)"
    and run: "sched_add f p t s = Inr \<lparr>free_job_queue = free, job_queue =
       xs @ e\<lparr>func := f, param := p, time := t - total_time xs\<rparr> # sub_head_time (t - total_time xs) ys\<rparr>"
    using sched_add_splices[OF wf room ok, of f p] by blast
  let ?s' = "\<lparr>free_job_queue = free, job_queue =
       xs @ e\<lparr>func := f, param := p, time := t - total_time xs\<rparr> # sub_head_time (t - total_time xs) ys\<rparr>"
  have jobs_s: "sched_jobs s = sched_abs 0 (xs @ ys)" by (simp add: sched_jobs_def split(1))
  from wf have wf_s: "tq_wf (sched_jobs s)" by (simp add: sched_wf_def)
  then have "sorted (map fst (sched_jobs s))" and "list_all in_int32 (map fst (sched_jobs s))"
    and "list_all in_int32 (map time (xs @ ys))"
    using wf_ranges[of "xs @ ys"] by (simp_all add: tq_wf_def jobs_s)
  note gap = insert_gap[OF jobs_s this ok split(3,4)]
  have "sched_abs t (sub_head_time (t - total_time xs) ys) = sched_abs (total_time xs) ys"
    using sched_abs_sub_head[of ys "t - total_time xs" "total_time xs"] gap(4) by simp
  then have "sched_jobs ?s' = sched_abs 0 xs @ (t, f, p) # sched_abs (total_time xs) ys"
    by (simp add: sched_jobs_def sched_abs_append)
  also have "\<dots> = tq_insert t (f, p) (sched_jobs s)"
    unfolding jobs_s sched_abs_append add_0
    by (rule tq_insert_append[symmetric]) (use split(3,4) in \<open>cases ys; simp\<close>)+
  finally have jobs: "sched_jobs ?s' = tq_insert t (f, p) (sched_jobs s)" .
  have "sched_wf ?s'"
    unfolding sched_wf_def jobs by (intro inv_intros wf_s ok)
  moreover have "Suc (sched_room ?s') = sched_room s" by (simp add: sched_room_def split(2))
  ultimately show ?thesis using run jobs by blast
qed

section \<open>Taking and removing jobs\<close>

lemma sched_pop_refines:
  assumes wf: "sched_wf s" and two: "2 \<le> length (sched_jobs s)"
  shows "\<exists>t f p s'. sched_pop s = Inr (f, p, s') \<and> sched_jobs s = (t, f, p) # sched_jobs s'
     \<and> sched_wf s' \<and> sched_room s' = Suc (sched_room s)"
proof -
  from two obtain e nxt r where q: "job_queue s = e # nxt # r"
    unfolding sched_jobs_def length_sched_abs numeral_2_eq_2 Suc_le_length_iff by blast
  have range: "in_int32 (time nxt + time e)"
    using wf q by (simp add: sched_wf_def sched_jobs_def tq_wf_def add.commute)
  have jobs: "sched_jobs s = (time e, func e, param e) # sched_abs 0 (add_time (time e) nxt # r)"
    unfolding sched_jobs_def q sched_abs_add_time[OF range] by simp
  have "tq_wf (sched_abs 0 (add_time (time e) nxt # r))"
    using wf unfolding sched_wf_def jobs by (rule tq_wf_tl)
  then have "sched_wf \<lparr>free_job_queue = e # free_job_queue s, job_queue = add_time (time e) nxt # r\<rparr>"
    by (simp add: sched_wf_def sched_jobs_def)
  with jobs q show ?thesis
    by (auto simp: sched_pop_def sched_room_def sched_jobs_def)
qed

lemma find_remove_jobs:
  assumes "sorted (map fst (sched_abs now q))"
    and "list_all (\<lambda>t. in_int32 (t - now) \<and> t - fst (hd (sched_abs now q)) \<le> INT32_MAX)
           (map fst (sched_abs now q))"
  shows "case find_remove f p q of
      None \<Rightarrow> (f, p) \<notin> snd ` set (sched_abs now q)
    | Some (cur, r) \<Rightarrow> sched_abs now r = tq_remove (f, p) (sched_abs now q) \<and> Suc (length r) = length q"
  using assms
proof (induction q arbitrary: now)
  case Nil
  then show ?case by simp
next
  case (Cons e q)
  show ?case
  proof (cases "func e = f \<and> param e = p")
    case True
    have "sched_abs now (case q of [] \<Rightarrow> [] | nxt # r \<Rightarrow> add_time (time e) nxt # r)
        = sched_abs (now + time e) q"
    proof (cases q)
      case q: (Cons nxt r)
      with Cons.prems(2) have range: "in_int32 (time nxt + time e)" by (simp add: add.commute)
      show ?thesis unfolding q list.case by (rule sched_abs_add_time[OF range])
    qed simp
    with True show ?thesis by (simp split: list.splits)
  next
    case False
    let ?now = "now + time e"
    have first: "?now \<le> fst (hd (sched_abs ?now q))" if "q \<noteq> []"
      using Cons.prems(1) that by (cases q) auto
    have "sorted (map fst (sched_abs ?now q))" using Cons.prems(1) by simp
    moreover have "in_int32 (fst y - ?now) \<and> fst y - fst (hd (sched_abs ?now q)) \<le> INT32_MAX"
      if y: "y \<in> set (sched_abs ?now q)" for y
    proof -
      from y have "q \<noteq> []" by auto
      moreover from Cons.prems y have "?now \<le> fst y" and "fst y - ?now \<le> INT32_MAX"
        by (auto simp: list_all_iff)
      ultimately show ?thesis using first by (simp add: in_int32_def)
    qed
    ultimately have "case find_remove f p q of
        None \<Rightarrow> (f, p) \<notin> snd ` set (sched_abs ?now q)
      | Some (cur, r) \<Rightarrow> sched_abs ?now r = tq_remove (f, p) (sched_abs ?now q) \<and> Suc (length r) = length q"
      by (intro Cons.IH) (auto simp: list_all_iff)
    with False show ?thesis by (auto split: option.splits)
  qed
qed

lemma tq_remove_absent: "x \<notin> snd ` set q \<Longrightarrow> tq_remove x q = q"
  by (induction q) auto

lemma sched_find_remove_refines:
  assumes wf: "sched_wf s"
  shows "sched_jobs (sched_find_remove f p s) = tq_remove (f, p) (sched_jobs s)
     \<and> sched_wf (sched_find_remove f p s)
     \<and> sched_room (sched_find_remove f p s) + length (sched_jobs (sched_find_remove f p s))
         = sched_room s + length (sched_jobs s)"
proof -
  have "sched_jobs (sched_find_remove f p s) = tq_remove (f, p) (sched_jobs s)
     \<and> sched_room (sched_find_remove f p s) + length (sched_jobs (sched_find_remove f p s))
         = sched_room s + length (sched_jobs s)"
    using wf find_remove_jobs[of 0 "job_queue s" f p]
    by (auto simp: sched_wf_def tq_wf_def sched_jobs_def sched_find_remove_def sched_room_def
        tq_remove_absent split: option.splits)
  moreover from this wf have "sched_wf (sched_find_remove f p s)"
    unfolding sched_wf_def by (simp only: tq_wf_remove)
  ultimately show ?thesis by blast
qed

section \<open>The interface the simulator's components use\<close>

text \<open>
  A queue of jobs \<open>'x\<close> with due times. \<open>jobs\<close> is what the queue promises, the other operations are
  those of \<open>sched.h\<close>; their laws are the refinements proved above.
\<close>

locale timed_queue =
  fixes jobs :: "'s \<Rightarrow> (int \<times> 'x) list"
    and wf :: "'s \<Rightarrow> bool"
    and room :: "'s \<Rightarrow> nat"
    and add :: "'x \<Rightarrow> int \<Rightarrow> 's \<Rightarrow> 's res"
    and pop :: "'s \<Rightarrow> ('x \<times> 's) res"
    and remove :: "'x \<Rightarrow> 's \<Rightarrow> 's"
  assumes wf_jobs: "wf s \<Longrightarrow> tq_wf (jobs s)"
    and add_law: "\<lbrakk>wf s; 0 < room s; tq_addable t (jobs s)\<rbrakk> \<Longrightarrow>
          \<exists>s'. add x t s = Inr s' \<and> jobs s' = tq_insert t x (jobs s) \<and> wf s'
             \<and> Suc (room s') = room s"
    and pop_law: "\<lbrakk>wf s; 2 \<le> length (jobs s)\<rbrakk> \<Longrightarrow>
          \<exists>t x s'. pop s = Inr (x, s') \<and> jobs s = (t, x) # jobs s' \<and> wf s'
             \<and> room s' = Suc (room s)"
    and remove_law: "wf s \<Longrightarrow> jobs (remove x s) = tq_remove x (jobs s) \<and> wf (remove x s)
             \<and> room (remove x s) + length (jobs (remove x s)) = room s + length (jobs s)"
begin

lemma pop_earliest:
  assumes "wf s" and "2 \<le> length (jobs s)"
  shows "\<exists>t x s'. pop s = Inr (x, s') \<and> mset (jobs s) = add_mset (t, x) (mset (jobs s'))
     \<and> (\<forall>y\<in>set (jobs s'). t \<le> fst y) \<and> wf s'"
proof -
  from pop_law[OF assms] obtain t x s' where
    p: "pop s = Inr (x, s')" "jobs s = (t, x) # jobs s'" "wf s'" by blast
  with wf_jobs[OF assms(1)] have "\<forall>y\<in>set (jobs s'). t \<le> fst y" by (simp add: tq_wf_def)
  with p show ?thesis by (intro exI[of _ t] exI[of _ x] exI[of _ s']) simp
qed

lemma add_keeps_others:
  assumes "wf s" and "0 < room s" and "tq_addable t (jobs s)"
  shows "\<exists>s'. add x t s = Inr s' \<and> mset (jobs s') = add_mset (t, x) (mset (jobs s)) \<and> wf s'"
  using add_law[OF assms, of x] by (auto simp: mset_tq_insert)

lemma add_then_remove:
  assumes "wf s" and "0 < room s" and "tq_addable t (jobs s)" and "x \<notin> snd ` set (jobs s)"
  shows "\<exists>s'. add x t s = Inr s' \<and> jobs (remove x s') = jobs s \<and> room (remove x s') = room s"
proof -
  from add_law[OF assms(1-3), of x] obtain s' where
    s': "add x t s = Inr s'" "jobs s' = tq_insert t x (jobs s)" "wf s'" "Suc (room s') = room s"
    by blast
  have "tq_remove x (tq_insert t x q) = q" if "x \<notin> snd ` set q" for q
    using that by (induction q) auto
  with s' remove_law[OF s'(3), of x] assms(4) show ?thesis by auto
qed

text \<open>A job added to be due at once is the next one taken; ties go to the job added last.\<close>

lemma add_front_then_pop:
  assumes "wf s" and "0 < room s" and "tq_addable t (jobs s)" and "t \<le> fst (hd (jobs s))"
  shows "\<exists>s1 s2. add x t s = Inr s1 \<and> pop s1 = Inr (x, s2) \<and> jobs s2 = jobs s \<and> room s2 = room s"
proof -
  from add_law[OF assms(1-3), of x] obtain s1 where
    s1: "add x t s = Inr s1" "jobs s1 = tq_insert t x (jobs s)" "wf s1" "Suc (room s1) = room s"
    by blast
  from assms(3) obtain y ys where q: "jobs s = y # ys"
    by (cases "jobs s") (auto simp: tq_addable_def)
  with s1(2) assms(4) have j: "jobs s1 = (t, x) # y # ys" by simp
  with pop_law[OF s1(3)] q s1(1,4) show ?thesis by auto
qed

end

text \<open>\<open>tmp->func (tmp->param)\<close> of a round as one value.\<close>

definition sched_take :: "'f scheduler_struct \<Rightarrow> (('f \<times> nat) \<times> 'f scheduler_struct) res" where
  "sched_take s = bind_res (sched_pop s) (\<lambda>(f, p, s'). Inr ((f, p), s'))"

interpretation sq: timed_queue sched_jobs sched_wf sched_room
    "\<lambda>(f, p). sched_add f p" sched_take "\<lambda>(f, p). sched_find_remove f p"
proof (unfold_locales, goal_cases)
  case (1 s)
  then show ?case by (simp add: sched_wf_def)
next
  case (2 s t x)
  then show ?case by (cases x) (simp add: sched_add_refines)
next
  case (3 s)
  then show ?case using sched_pop_refines[of s] by (auto simp: sched_take_def)
next
  case (4 s x)
  then show ?case using sched_find_remove_refines[of s "fst x" "snd x"] by (auto split: prod.splits)
qed

section \<open>The guard, the allocation of entries, the next instruction\<close>

definition sched_entries :: "'f scheduler_struct \<Rightarrow> nat" where
  "sched_entries s = length (free_job_queue s) + length (job_queue s)"

lemma sched_scan_entries:
  "sched_scan t passed q a = (xs, ys, b) \<Longrightarrow> xs @ ys = passed @ q"
  by (induction t passed q a rule: sched_scan.induct) (auto split: if_splits list.splits)

lemma length_sub_head_time [simp]: "length (sub_head_time d q) = length q"
  by (simp add: sub_head_time_def split: list.split)

lemma sched_add_entries:
  assumes "sched_add f p t s = Inr s'"
  shows "sched_entries s' = sched_entries s"
proof -
  from assms obtain c q e free where q: "job_queue s = c # q" "free_job_queue s = e # free"
    by (auto simp: sched_add_def split: list.splits prod.splits)
  obtain xs ys a where scan: "sched_scan t [] (job_queue s) (time c) = (xs, ys, a)"
    by (cases "sched_scan t [] (job_queue s) (time c)") auto
  from sched_scan_entries[OF scan] have "length xs + length ys = length (job_queue s)"
    by (simp flip: length_append)
  with assms scan q show ?thesis
    by (auto simp: sched_add_def sched_entries_def Let_def simp del: sched_scan.simps)
qed

lemma sched_guard_entries: "sched_guard self p s = Inr s' \<Longrightarrow> sched_entries s' = sched_entries s"
  by (auto simp: sched_guard_def dest: sched_add_entries split: if_splits list.splits)
     (simp add: sched_entries_def)

lemma length_sched_release [simp]: "length (sched_release q free) = length q + length free"
  by (induction q free rule: sched_release.induct) auto

lemma sched_reset_entries: "sched_reset self s = Inr s' \<Longrightarrow> sched_entries s' = sched_entries s"
  by (auto simp: sched_reset_def sched_entries_def dest!: sched_guard_entries)

lemma sched_init_entries: "sched_init self fresh = Inr s \<Longrightarrow> sched_entries s = SCHED_HEAP_SIZE"
  by (auto simp: sched_init_def sched_entries_def dest!: sched_guard_entries)

lemma sched_pop_entries:
  assumes "sched_pop s = Inr (f, p, s')"
  shows "sched_entries s' = sched_entries s"
proof -
  from assms obtain e nxt r where q: "job_queue s = e # nxt # r"
    by (cases "job_queue s" rule: remdups_adj.cases) (simp_all add: sched_pop_def)
  with assms show ?thesis by (auto simp: sched_pop_def sched_entries_def)
qed

lemma find_remove_entries: "find_remove f p q = Some (e, r) \<Longrightarrow> Suc (length r) = length q"
proof (induction q arbitrary: r)
  case (Cons c q)
  show ?case
  proof (cases "func c = f \<and> param c = p")
    case True
    with Cons.prems show ?thesis by (cases q) auto
  next
    case False
    with Cons.prems Cons.IH show ?thesis by (auto simp: apsnd_def map_prod_def split: prod.splits)
  qed
qed simp

lemma sched_find_remove_entries: "sched_entries (sched_find_remove f p s) = sched_entries s"
  by (auto simp: sched_find_remove_def sched_entries_def dest!: find_remove_entries split: option.splits)

lemma sched_init_ok:
  "sched_init self fresh = Inr \<lparr>free_job_queue = rev (map fresh [0..<127]),
     job_queue = [(fresh 127)\<lparr>func := self, time := SCHED_TIME_MAX\<rparr>]\<rparr>"
proof -
  have "[0..<128] = [0..<127] @ [127::nat]" by (simp add: upt_Suc_append[of 0 127, simplified])
  then show ?thesis by (simp add: sched_init_def sched_guard_def del: upt_Suc)
qed

lemma overdue_cycles_wf:
  assumes "tq_wf (sched_abs 0 q)" and "q \<noteq> []" and "- INT32_MAX < time (hd q)"
  shows "overdue_cycles 1 q = 1 + max 0 (- time (hd q))"
proof -
  obtain e r where q: "q = e # r" using assms(2) by (cases q) auto
  have "in_int32 (1 - time e)" if "time e < 0" using assms(3) that by (simp add: q in_int32_def)
  moreover have "\<not> time (hd r) < 0" if "r \<noteq> []"
    using assms(1) that by (cases r) (auto simp: q tq_wf_def)
  then have "overdue_cycles c r = c" for c by (cases r) auto
  ultimately show ?thesis by (simp add: q max_def)
qed

lemma sched_next_insn_law:
  assumes "sched_wf s" and "0 < sched_room s" and "job_queue s \<noteq> []" and "- INT32_MAX < time (hd (job_queue s))"
    and "time (hd (job_queue s)) < 0 \<longrightarrow> 1 - 2 * time (hd (job_queue s)) \<le> INT32_MAX"
  shows "\<exists>s'. sched_next_insn f p s = Inr s'
     \<and> sched_jobs s' = tq_insert (1 + max 0 (- time (hd (job_queue s)))) (f, p) (sched_jobs s)
     \<and> sched_wf s' \<and> Suc (sched_room s') = sched_room s"
proof -
  let ?t = "1 + max 0 (- time (hd (job_queue s)))"
  have "overdue_cycles 1 (job_queue s) = ?t"
    by (rule overdue_cycles_wf) (use assms in \<open>simp_all add: sched_wf_def sched_jobs_def\<close>)
  moreover have "tq_addable ?t (sched_jobs s)"
    using assms(3-5) by (cases "job_queue s") (auto simp: tq_addable_def sched_jobs_def max_def)
  ultimately show ?thesis
    using sched_add_refines[OF assms(1,2), of ?t f p] by (simp add: sched_next_insn_def)
qed

section \<open>Reachable queues\<close>

text \<open>Every queue the simulator can have: initialised, then changed by the operations in any order.\<close>

inductive sched_reachable :: "'f \<Rightarrow> 'f scheduler_struct \<Rightarrow> bool" for self where
  start: "sched_init self fresh = Inr s \<Longrightarrow> sched_reachable self s"
| add: "sched_reachable self s \<Longrightarrow> sched_add f p t s = Inr s' \<Longrightarrow> sched_reachable self s'"
| next_insn: "sched_reachable self s \<Longrightarrow> sched_next_insn f p s = Inr s' \<Longrightarrow> sched_reachable self s'"
| pop: "sched_reachable self s \<Longrightarrow> sched_pop s = Inr (f, p, s') \<Longrightarrow> sched_reachable self s'"
| remove: "sched_reachable self s \<Longrightarrow> sched_reachable self (sched_find_remove f p s)"
| reset: "sched_reachable self s \<Longrightarrow> sched_reset self s = Inr s' \<Longrightarrow> sched_reachable self s'"

lemma sched_reachable_entries: "sched_reachable self s \<Longrightarrow> sched_entries s = SCHED_HEAP_SIZE"
  by (induction rule: sched_reachable.induct)
    (auto simp: sched_next_insn_def sched_find_remove_entries
      dest: sched_init_entries sched_add_entries sched_pop_entries sched_reset_entries)

section \<open>Properties\<close>

text \<open>A queue for the witnesses: the guard and three free entries.\<close>

definition sample_queue :: "nat scheduler_struct" where
  "sample_queue = \<lparr>free_job_queue = replicate 3 \<lparr>time = 0, param = 0, func = 0\<rparr>,
     job_queue = [\<lparr>time = 7, param = 0, func = 5\<rparr>, \<lparr>time = 100, param = 0, func = 0\<rparr>]\<rparr>"

lemma sample_queue_simps:
  "sched_jobs sample_queue = [(7, 5, 0), (107, 0, 0)]" "sched_wf sample_queue" "sched_room sample_queue = 3"
  by (simp_all add: sample_queue_def sched_wf_def tq_wf_def sched_jobs_def in_int32_def sched_room_def)

text \<open>
  C5: \<open>sched_add\<close> implements insertion into the sorted list of due times: for a well formed queue with
  a free entry and a representable due time it never follows a null pointer, keeps every other due
  time although it rewrites a delta, places the new job before jobs due at the same time, and uses
  up one free entry.
\<close>

theorem sched_add_contract:
  assumes "sched_wf s" and "0 < sched_room s" and "tq_addable t (sched_jobs s)"
  shows "\<exists>s'. sched_add f p t s = Inr s' \<and> sched_jobs s' = tq_insert t (f, p) (sched_jobs s)
     \<and> sched_wf s' \<and> Suc (sched_room s') = sched_room s"
  using sq.add_law[OF assms, of "(f, p)"] by simp

lemma sched_add_contract_witness:
  "\<exists>s'. sched_add 9 0 50 sample_queue = Inr s' \<and> sched_jobs s' = [(7, 5, 0), (50, 9, 0), (107, 0, 0)]"
  using sched_add_contract[of sample_queue 50 9 0] by (auto simp: sample_queue_simps tq_addable_def)

text \<open>
  a round of \<open>do_scheduler\<close> on a queue of at least two jobs takes a job that is due no later than
  any other, and leaves all the others pending with their due times unchanged.
\<close>

theorem sched_pop_earliest:
  assumes "sched_wf s" and "2 \<le> length (sched_jobs s)"
  shows "\<exists>t f p s'. sched_take s = Inr ((f, p), s') \<and> mset (sched_jobs s) = add_mset (t, f, p) (mset (sched_jobs s'))
     \<and> (\<forall>y\<in>set (sched_jobs s'). t \<le> fst y) \<and> sched_wf s'"
  using sq.pop_earliest[OF assms] by force

lemma sched_pop_earliest_witness:
  "\<exists>t f p s'. sched_take sample_queue = Inr ((f, p), s')
     \<and> mset [(7::int, 5::nat, 0), (107, 0, 0)] = add_mset (t, f, p) (mset (sched_jobs s'))
     \<and> (\<forall>y\<in>set (sched_jobs s'). t \<le> fst y) \<and> sched_wf s'"
  using sched_pop_earliest[of sample_queue] by (simp add: sample_queue_simps)

text \<open>
  \<open>sched_find_remove\<close> removes the first job with the given function and parameter and no other,
  keeps the due times of the jobs behind it, and returns the entry to the free list.
\<close>

theorem sched_find_remove_contract:
  assumes "sched_wf s"
  shows "sched_jobs (sched_find_remove f p s) = tq_remove (f, p) (sched_jobs s)
     \<and> sched_wf (sched_find_remove f p s)
     \<and> sched_room (sched_find_remove f p s) + length (sched_jobs (sched_find_remove f p s))
         = sched_room s + length (sched_jobs s)"
  using sq.remove_law[OF assms, of "(f, p)"] unfolding prod.case .

lemma sched_find_remove_contract_witness:
  "sched_jobs (sched_find_remove 5 0 sample_queue) = [(107, 0, 0)]"
  using sched_find_remove_contract[of sample_queue 5 0] by (simp add: sample_queue_simps)

text \<open>
  C23: no entry is ever lost or duplicated: in every reachable state the job queue and the free list
  together hold the 128 entries that \<open>sched_init\<close> allocated.
\<close>

theorem sched_conserves_entries:
  assumes "sched_reachable self s"
  shows "length (free_job_queue s) + length (job_queue s) = 128"
  using sched_reachable_entries[OF assms] by (simp add: sched_entries_def)

lemma sched_conserves_entries_witness:
  "length (rev (map (\<lambda>_. \<lparr>time = 0, param = 0, func = 0::nat\<rparr>) [0..<127]))
     + length [\<lparr>time = SCHED_TIME_MAX, param = 0, func = 0::nat\<rparr>] = 128"
  using sched_conserves_entries[OF sched_reachable.start[OF sched_init_ok[of 0 "\<lambda>_. \<lparr>time = 0, param = 0, func = 0::nat\<rparr>"]]]
  by simp

text \<open>
  The comment of \<open>sched_next_insn\<close> says the job runs after the next instruction; when the first
  job of the queue is already \<open>k\<close> cycles late, the job is in fact due only \<open>1 + k\<close> cycles from now.
\<close>

theorem sched_next_insn_delay:
  assumes "sched_wf s" and "0 < sched_room s" and "job_queue s \<noteq> []" and "time (hd (job_queue s)) = - int k" and "k < 2 ^ 30"
  shows "\<exists>s'. sched_next_insn f p s = Inr s' \<and> sched_jobs s' = tq_insert (1 + int k) (f, p) (sched_jobs s)"
  using sched_next_insn_law[of s f p] assms by auto

lemma sched_next_insn_delay_witness:
  "\<exists>s'. sched_next_insn 9 0 (sample_queue\<lparr>job_queue := [\<lparr>time = - 4, param = 0, func = 0\<rparr>]\<rparr>) = Inr s'
     \<and> sched_jobs s' = [(- 4, 0, 0), (5, 9, 0)]"
  using sched_next_insn_delay[of "sample_queue\<lparr>job_queue := [\<lparr>time = - 4, param = 0, func = 0\<rparr>]\<rparr>" 4 9 0]
  by (simp add: sched_wf_def sched_jobs_def sched_room_def tq_wf_def in_int32_def sample_queue_def)

end
