(* ===== verification/Machine.thy ===== *)
theory Machine
  imports SprDefs Sched
begin

text \<open>
  The state of the simulator: the global variables of its C files as one record, one sub-record per
  component. Variables that only feed output (logs, the profilers, the execution history) are left
  out; so are the peripherals. Integers used as truth values are \<open>bool\<close>, registers, addresses and
  \<open>unsigned\<close> counters are words, statistics counters are \<open>nat\<close>.
\<close>

section \<open>CPU\<close>

record iqueue_entry =
  insn_index :: int
  insn :: u32
  insn_addr :: u32

record cpu_state =
  reg :: "nat \<Rightarrow> u32"
  sprs :: "nat \<Rightarrow> u32"
  insn_ea :: u32
  delay_insn :: bool
  npc_not_valid :: bool
  pc :: u32
  pc_delay :: u32
  iqueue :: iqueue_entry
  icomplet :: iqueue_entry

section \<open>Configuration and run time data\<close>

record dc_config =
  dc_enabled :: bool
  dc_nways :: nat
  dc_nsets :: u32
  dc_blocksize :: u32
  dc_ustates :: nat
  dc_store_missdelay :: u32
  dc_store_hitdelay :: u32
  dc_load_missdelay :: u32
  dc_load_hitdelay :: u32

record bpb_config =
  bpb_enabled :: bool
  sbp_bnf_fwd :: bool
  sbp_bf_fwd :: bool
  bpb_btic :: bool
  bpb_missdelay :: int
  bpb_hitdelay :: int

record config =
  cfg_is_library :: bool
  cfg_strict_npc :: bool
  cfg_dependstats :: bool
  cfg_superscalar :: bool
  cfg_sbuf_len :: int
  cfg_hardfloat :: bool
  cfg_dc :: dc_config
  cfg_pic_enabled :: bool
  cfg_pic_edge_trigger :: bool
  cfg_pic_use_nmi :: bool
  cfg_pm_enabled :: u32
  cfg_pcu_enabled :: bool
  cfg_bpb :: bpb_config
  cfg_debug_enabled :: bool
  cfg_rsp_enabled :: bool
  cfg_clkcycle_ps :: u64

record runtime =
  cycles :: u64
  mem_cycles :: u32
  instructions :: u64
  reset_cycles :: u64
  reset_instructions :: u64
  stalled :: bool
  halted :: bool
  hush :: bool
  storecycles :: u32
  loadcycles :: u32

section \<open>Scheduled functions\<close>

datatype job = Guard | Tick_raise_except | Tick_restart | Tick_one_shot | Pic_rep_int | Check_int

section \<open>Memory map\<close>

text \<open>
  The function pointers of \<open>struct mem_ops\<close> as constructors (\<open>None\<close> where \<open>NULL\<close> has a meaning); the
  \<open>void *\<close> data pointer is a number, for the functions of \<open>memory.c\<close> that of a RAM.
\<close>

datatype read_fun = Simmem_read | Simmem_read_zero | Read_inv | Read_inv_direct
datatype write_fun = Simmem_write | Simmem_write_null | Write_inv | Write_inv_direct

record mem_ops =
  readfunc32 :: "read_fun option"
  readfunc16 :: "read_fun option"
  readfunc8 :: "read_fun option"
  read_dat8 :: nat
  read_dat16 :: nat
  read_dat32 :: nat
  writefunc32 :: "write_fun option"
  writefunc16 :: "write_fun option"
  writefunc8 :: "write_fun option"
  write_dat8 :: nat
  write_dat16 :: nat
  write_dat32 :: nat
  writeprog32 :: "write_fun option"
  writeprog8 :: "write_fun option"
  writeprog32_dat :: nat
  writeprog8_dat :: nat
  delayr :: u32
  delayw :: u32

record dev_memarea =
  addr_mask :: u32
  addr_compare :: u32
  area_size :: u32
  size_mask :: u32
  valid :: bool
  ops :: mem_ops
  direct_ops :: mem_ops

text \<open>A block returned by \<open>malloc\<close>: its size and its bytes, in host order.\<close>

record ram =
  ram_size :: nat
  ram_bytes :: "nat \<Rightarrow> u8"

record memory =
  dev_list :: "dev_memarea list"
  mc_area :: "nat option"
  cur_area :: "nat option"
  cur_vadd :: u32
  data_ci :: bool
  insn_ci :: bool
  rams :: "nat \<Rightarrow> ram option"

section \<open>Translation, caches, prediction\<close>

text \<open>\<open>struct immu\<close> and \<open>struct dmmu\<close> have the same fields.\<close>

record mmu =
  mmu_enabled :: bool
  mmu_nways :: nat
  mmu_nsets :: u32
  pagesize :: u32
  pagesize_log2 :: nat
  page_offset_mask :: u32
  page_mask :: u32
  vpn_mask :: u32
  lru_reload :: u32
  set_mask :: u32
  entrysize :: u32
  mmu_ustates :: nat
  mmu_missdelay :: u32
  mmu_hitdelay :: u32

record ic =
  ic_mem :: "nat \<Rightarrow> u8"
  ic_lrus :: "nat \<Rightarrow> u32"
  ic_tags :: "nat \<Rightarrow> u32"
  ic_enabled :: bool
  ic_nways :: u32
  ic_nsets :: u32
  ic_blocksize :: u32
  ic_ustates :: u32
  ic_missdelay :: u32
  ic_hitdelay :: u32
  ic_blocksize_log2 :: nat
  ic_set_mask :: u32
  ic_tagaddr_mask :: u32
  ic_last_way :: u32
  ic_block_offset_mask :: u32
  ic_block_mask :: u32
  ic_ustates_reload :: u32

text \<open>One way of one set of the data cache.\<close>

record dc_way =
  dc_line :: "nat \<Rightarrow> u32"
  dc_tagaddr :: u32
  dc_lru :: nat

record bpb_way =
  bpb_addr :: u32
  bpb_taken :: nat
  bpb_lru :: nat

record btic_way =
  btic_addr :: u32
  btic_lru :: nat

section \<open>Statistics, store buffer\<close>

record stats =
  fetch_tlbhit :: nat
  fetch_tlbmiss :: nat
  loads_tlbhit :: nat
  loads_tlbmiss :: nat
  ic_readhit :: nat
  ic_readmiss :: nat
  dc_readhit :: nat
  dc_readmiss :: nat
  dc_writehit :: nat
  dc_writemiss :: nat
  bpb_hit :: nat
  bpb_miss :: nat
  bpb_correct :: nat
  bpb_incorrect :: nat
  btic_hit :: nat
  btic_miss :: nat
  st_bf :: "bool \<Rightarrow> bool \<Rightarrow> nat"
  st_bnf :: "bool \<Rightarrow> bool \<Rightarrow> nat"

record sbuf =
  sbuf_head :: nat
  sbuf_tail :: nat
  sbuf_count :: int
  sbuf_buf :: "nat \<Rightarrow> int"
  sbuf_prev_cycles :: int
  sbuf_wait_cyc :: int
  sbuf_total_cyc :: int

section \<open>The machine\<close>

record machine =
  cpu :: cpu_state
  pcnext :: u32
  except_pending :: bool
  breakpoint :: bool
  next_delay_insn :: bool
  break_just_hit :: bool
  breakpoints :: "u32 list"
  conf :: config
  rt :: runtime
  scheduler :: "job scheduler_struct"
  cycle_count_at_tick_start :: u64
  tick_counting :: u32
  immu_state :: "mmu option"
  dmmu_state :: "mmu option"
  ic_state :: "ic option"
  dc :: "nat \<Rightarrow> nat \<Rightarrow> dc_way"
  bpb :: "nat \<Rightarrow> nat \<Rightarrow> bpb_way"
  btic :: "nat \<Rightarrow> nat \<Rightarrow> btic_way"
  mem :: memory
  sb :: sbuf
  st :: stats
  development :: "nat \<Rightarrow> u64"
  in_reset :: bool
  current_scan_chain :: nat

section \<open>Access to registers\<close>

definition spr :: "nat \<Rightarrow> machine \<Rightarrow> u32" where
  "spr r m = sprs (cpu m) r"

definition set_spr :: "nat \<Rightarrow> u32 \<Rightarrow> machine \<Rightarrow> machine" where
  "set_spr r v m = m\<lparr>cpu := (cpu m)\<lparr>sprs := (sprs (cpu m))(r := v)\<rparr>\<rparr>"

text \<open>\<open>cpu_state.sprs[r] |= f\<close> and \<open>cpu_state.sprs[r] &= ~f\<close>.\<close>

definition spr_or :: "nat \<Rightarrow> u32 \<Rightarrow> machine \<Rightarrow> machine" where
  "spr_or r f m = set_spr r (spr r m OR f) m"

definition spr_clear :: "nat \<Rightarrow> u32 \<Rightarrow> machine \<Rightarrow> machine" where
  "spr_clear r f m = set_spr r (spr r m AND NOT f) m"

text \<open>\<open>runtime.sim.mem_cycles += d\<close>.\<close>

definition add_mem_cycles :: "u32 \<Rightarrow> machine \<Rightarrow> machine" where
  "add_mem_cycles d m = m\<lparr>rt := (rt m)\<lparr>mem_cycles := mem_cycles (rt m) + d\<rparr>\<rparr>"

lemma spr_set_spr [simp]: "spr r (set_spr r' v m) = (if r = r' then v else spr r m)"
  by (simp add: spr_def set_spr_def)

lemma spr_spr_or [simp]: "spr r (spr_or r' f m) = (if r = r' then spr r m OR f else spr r m)"
  by (simp add: spr_or_def)

lemma spr_spr_clear [simp]: "spr r (spr_clear r' f m) = (if r = r' then spr r m AND NOT f else spr r m)"
  by (simp add: spr_clear_def)

lemma spr_add_mem_cycles [simp]: "spr r (add_mem_cycles d m) = spr r m"
  by (simp add: spr_def add_mem_cycles_def)

text \<open>What the register writes leave alone.\<close>

lemma set_spr_frame [simp, frame_simps]:
  "pcnext (set_spr r v m) = pcnext m"
  "except_pending (set_spr r v m) = except_pending m"
  "breakpoint (set_spr r v m) = breakpoint m"
  "next_delay_insn (set_spr r v m) = next_delay_insn m"
  "break_just_hit (set_spr r v m) = break_just_hit m"
  "breakpoints (set_spr r v m) = breakpoints m"
  "conf (set_spr r v m) = conf m"
  "scheduler (set_spr r v m) = scheduler m"
  "cycle_count_at_tick_start (set_spr r v m) = cycle_count_at_tick_start m"
  "tick_counting (set_spr r v m) = tick_counting m"
  "immu_state (set_spr r v m) = immu_state m"
  "dmmu_state (set_spr r v m) = dmmu_state m"
  "ic_state (set_spr r v m) = ic_state m"
  "dc (set_spr r v m) = dc m"
  "bpb (set_spr r v m) = bpb m"
  "btic (set_spr r v m) = btic m"
  "mem (set_spr r v m) = mem m"
  "sb (set_spr r v m) = sb m"
  "st (set_spr r v m) = st m"
  "development (set_spr r v m) = development m"
  "in_reset (set_spr r v m) = in_reset m"
  "current_scan_chain (set_spr r v m) = current_scan_chain m"
  "rt (set_spr r v m) = rt m"
  by (simp_all add: set_spr_def)

lemma spr_or_frame [simp, frame_simps]:
  "pcnext (spr_or r f m) = pcnext m"
  "except_pending (spr_or r f m) = except_pending m"
  "breakpoint (spr_or r f m) = breakpoint m"
  "next_delay_insn (spr_or r f m) = next_delay_insn m"
  "break_just_hit (spr_or r f m) = break_just_hit m"
  "breakpoints (spr_or r f m) = breakpoints m"
  "conf (spr_or r f m) = conf m"
  "scheduler (spr_or r f m) = scheduler m"
  "cycle_count_at_tick_start (spr_or r f m) = cycle_count_at_tick_start m"
  "tick_counting (spr_or r f m) = tick_counting m"
  "immu_state (spr_or r f m) = immu_state m"
  "dmmu_state (spr_or r f m) = dmmu_state m"
  "ic_state (spr_or r f m) = ic_state m"
  "dc (spr_or r f m) = dc m"
  "bpb (spr_or r f m) = bpb m"
  "btic (spr_or r f m) = btic m"
  "mem (spr_or r f m) = mem m"
  "sb (spr_or r f m) = sb m"
  "st (spr_or r f m) = st m"
  "development (spr_or r f m) = development m"
  "in_reset (spr_or r f m) = in_reset m"
  "current_scan_chain (spr_or r f m) = current_scan_chain m"
  "rt (spr_or r f m) = rt m"
  by (simp_all add: spr_or_def)

lemma spr_clear_frame [simp, frame_simps]:
  "pcnext (spr_clear r f m) = pcnext m"
  "except_pending (spr_clear r f m) = except_pending m"
  "breakpoint (spr_clear r f m) = breakpoint m"
  "next_delay_insn (spr_clear r f m) = next_delay_insn m"
  "break_just_hit (spr_clear r f m) = break_just_hit m"
  "breakpoints (spr_clear r f m) = breakpoints m"
  "conf (spr_clear r f m) = conf m"
  "scheduler (spr_clear r f m) = scheduler m"
  "cycle_count_at_tick_start (spr_clear r f m) = cycle_count_at_tick_start m"
  "tick_counting (spr_clear r f m) = tick_counting m"
  "immu_state (spr_clear r f m) = immu_state m"
  "dmmu_state (spr_clear r f m) = dmmu_state m"
  "ic_state (spr_clear r f m) = ic_state m"
  "dc (spr_clear r f m) = dc m"
  "bpb (spr_clear r f m) = bpb m"
  "btic (spr_clear r f m) = btic m"
  "mem (spr_clear r f m) = mem m"
  "sb (spr_clear r f m) = sb m"
  "st (spr_clear r f m) = st m"
  "development (spr_clear r f m) = development m"
  "in_reset (spr_clear r f m) = in_reset m"
  "current_scan_chain (spr_clear r f m) = current_scan_chain m"
  "rt (spr_clear r f m) = rt m"
  by (simp_all add: spr_clear_def)

lemma add_mem_cycles_frame [simp, frame_simps]:
  "pcnext (add_mem_cycles d m) = pcnext m"
  "except_pending (add_mem_cycles d m) = except_pending m"
  "breakpoint (add_mem_cycles d m) = breakpoint m"
  "next_delay_insn (add_mem_cycles d m) = next_delay_insn m"
  "break_just_hit (add_mem_cycles d m) = break_just_hit m"
  "breakpoints (add_mem_cycles d m) = breakpoints m"
  "conf (add_mem_cycles d m) = conf m"
  "scheduler (add_mem_cycles d m) = scheduler m"
  "cycle_count_at_tick_start (add_mem_cycles d m) = cycle_count_at_tick_start m"
  "tick_counting (add_mem_cycles d m) = tick_counting m"
  "immu_state (add_mem_cycles d m) = immu_state m"
  "dmmu_state (add_mem_cycles d m) = dmmu_state m"
  "ic_state (add_mem_cycles d m) = ic_state m"
  "dc (add_mem_cycles d m) = dc m"
  "bpb (add_mem_cycles d m) = bpb m"
  "btic (add_mem_cycles d m) = btic m"
  "mem (add_mem_cycles d m) = mem m"
  "sb (add_mem_cycles d m) = sb m"
  "st (add_mem_cycles d m) = st m"
  "development (add_mem_cycles d m) = development m"
  "in_reset (add_mem_cycles d m) = in_reset m"
  "current_scan_chain (add_mem_cycles d m) = current_scan_chain m"
  "cpu (add_mem_cycles d m) = cpu m"
  by (simp_all add: add_mem_cycles_def)

lemma set_spr_cpu [simp, frame_simps]:
  "reg (cpu (set_spr r v m)) = reg (cpu m)"
  "insn_ea (cpu (set_spr r v m)) = insn_ea (cpu m)"
  "delay_insn (cpu (set_spr r v m)) = delay_insn (cpu m)"
  "npc_not_valid (cpu (set_spr r v m)) = npc_not_valid (cpu m)"
  "pc (cpu (set_spr r v m)) = pc (cpu m)"
  "pc_delay (cpu (set_spr r v m)) = pc_delay (cpu m)"
  "iqueue (cpu (set_spr r v m)) = iqueue (cpu m)"
  "icomplet (cpu (set_spr r v m)) = icomplet (cpu m)"
  by (simp_all add: set_spr_def)

lemma spr_or_cpu [simp, frame_simps]:
  "reg (cpu (spr_or r f m)) = reg (cpu m)"
  "insn_ea (cpu (spr_or r f m)) = insn_ea (cpu m)"
  "delay_insn (cpu (spr_or r f m)) = delay_insn (cpu m)"
  "npc_not_valid (cpu (spr_or r f m)) = npc_not_valid (cpu m)"
  "pc (cpu (spr_or r f m)) = pc (cpu m)"
  "pc_delay (cpu (spr_or r f m)) = pc_delay (cpu m)"
  "iqueue (cpu (spr_or r f m)) = iqueue (cpu m)"
  "icomplet (cpu (spr_or r f m)) = icomplet (cpu m)"
  by (simp_all add: spr_or_def)

lemma spr_clear_cpu [simp, frame_simps]:
  "reg (cpu (spr_clear r f m)) = reg (cpu m)"
  "insn_ea (cpu (spr_clear r f m)) = insn_ea (cpu m)"
  "delay_insn (cpu (spr_clear r f m)) = delay_insn (cpu m)"
  "npc_not_valid (cpu (spr_clear r f m)) = npc_not_valid (cpu m)"
  "pc (cpu (spr_clear r f m)) = pc (cpu m)"
  "pc_delay (cpu (spr_clear r f m)) = pc_delay (cpu m)"
  "iqueue (cpu (spr_clear r f m)) = iqueue (cpu m)"
  "icomplet (cpu (spr_clear r f m)) = icomplet (cpu m)"
  by (simp_all add: spr_clear_def)

lemma spr_update [simp, frame_simps]:
  "spr r (m\<lparr>pcnext := x0\<rparr>) = spr r m"
  "spr r (m\<lparr>except_pending := x1\<rparr>) = spr r m"
  "spr r (m\<lparr>breakpoint := x2\<rparr>) = spr r m"
  "spr r (m\<lparr>next_delay_insn := x3\<rparr>) = spr r m"
  "spr r (m\<lparr>break_just_hit := x4\<rparr>) = spr r m"
  "spr r (m\<lparr>breakpoints := x5\<rparr>) = spr r m"
  "spr r (m\<lparr>conf := x6\<rparr>) = spr r m"
  "spr r (m\<lparr>scheduler := x7\<rparr>) = spr r m"
  "spr r (m\<lparr>cycle_count_at_tick_start := x8\<rparr>) = spr r m"
  "spr r (m\<lparr>tick_counting := x9\<rparr>) = spr r m"
  "spr r (m\<lparr>immu_state := x10\<rparr>) = spr r m"
  "spr r (m\<lparr>dmmu_state := x11\<rparr>) = spr r m"
  "spr r (m\<lparr>ic_state := x12\<rparr>) = spr r m"
  "spr r (m\<lparr>dc := x13\<rparr>) = spr r m"
  "spr r (m\<lparr>bpb := x14\<rparr>) = spr r m"
  "spr r (m\<lparr>btic := x15\<rparr>) = spr r m"
  "spr r (m\<lparr>mem := x16\<rparr>) = spr r m"
  "spr r (m\<lparr>sb := x17\<rparr>) = spr r m"
  "spr r (m\<lparr>st := x18\<rparr>) = spr r m"
  "spr r (m\<lparr>development := x19\<rparr>) = spr r m"
  "spr r (m\<lparr>in_reset := x20\<rparr>) = spr r m"
  "spr r (m\<lparr>current_scan_chain := x21\<rparr>) = spr r m"
  "spr r (m\<lparr>rt := x22\<rparr>) = spr r m"
  by (simp_all add: spr_def)

lemma spr_cpu_update [simp, frame_simps]: "spr r (m\<lparr>cpu := c\<rparr>) = sprs c r"
  by (simp add: spr_def)

lemma sprs_cpu [simp]: "sprs (cpu m) r = spr r m"
  by (simp add: spr_def)

section \<open>The machine before initialisation\<close>

text \<open>
  C's zero-initialised globals, with the one entry \<open>sched_init\<close> puts in the job queue and \<open>n\<close> free
  entries. The theorems with hypotheses are instantiated on states built from it.
\<close>

definition free_entry :: "job sched_entry" where
  "free_entry = \<lparr>time = 0, param = 0, func = Guard\<rparr>"

definition zero_mmu :: mmu where
  "zero_mmu = \<lparr>mmu_enabled = False, mmu_nways = 0, mmu_nsets = 0, pagesize = 0, pagesize_log2 = 0,
     page_offset_mask = 0, page_mask = 0, vpn_mask = 0, lru_reload = 0, set_mask = 0, entrysize = 0,
     mmu_ustates = 0, mmu_missdelay = 0, mmu_hitdelay = 0\<rparr>"

definition zero_cpu :: cpu_state where
  "zero_cpu = \<lparr>reg = \<lambda>_. 0, sprs = \<lambda>_. 0, insn_ea = 0, delay_insn = False, npc_not_valid = False,
     pc = 0, pc_delay = 0, iqueue = \<lparr>insn_index = 0, insn = 0, insn_addr = 0\<rparr>,
     icomplet = \<lparr>insn_index = 0, insn = 0, insn_addr = 0\<rparr>\<rparr>"

definition zero_config :: config where
  "zero_config = \<lparr>cfg_is_library = False, cfg_strict_npc = False, cfg_dependstats = False,
     cfg_superscalar = False, cfg_sbuf_len = 0, cfg_hardfloat = False,
     cfg_dc = \<lparr>dc_enabled = False, dc_nways = 1, dc_nsets = 1, dc_blocksize = 16, dc_ustates = 2,
       dc_store_missdelay = 0, dc_store_hitdelay = 0, dc_load_missdelay = 0, dc_load_hitdelay = 0\<rparr>,
     cfg_pic_enabled = False, cfg_pic_edge_trigger = False, cfg_pic_use_nmi = False, cfg_pm_enabled = 0,
     cfg_pcu_enabled = False,
     cfg_bpb = \<lparr>bpb_enabled = False, sbp_bnf_fwd = False, sbp_bf_fwd = False, bpb_btic = False,
       bpb_missdelay = 0, bpb_hitdelay = 0\<rparr>,
     cfg_debug_enabled = False, cfg_rsp_enabled = False, cfg_clkcycle_ps = 0\<rparr>"

definition zero_runtime :: runtime where
  "zero_runtime = \<lparr>cycles = 0, mem_cycles = 0, instructions = 0, reset_cycles = 0, reset_instructions = 0,
     stalled = False, halted = False, hush = True, storecycles = 0, loadcycles = 0\<rparr>"

definition zero_memory :: memory where
  "zero_memory = \<lparr>dev_list = [], mc_area = None, cur_area = None, cur_vadd = 0, data_ci = False,
     insn_ci = False, rams = \<lambda>_. None\<rparr>"

definition zero_stats :: stats where
  "zero_stats = \<lparr>fetch_tlbhit = 0, fetch_tlbmiss = 0, loads_tlbhit = 0, loads_tlbmiss = 0,
     ic_readhit = 0, ic_readmiss = 0, dc_readhit = 0, dc_readmiss = 0, dc_writehit = 0, dc_writemiss = 0,
     bpb_hit = 0, bpb_miss = 0, bpb_correct = 0, bpb_incorrect = 0, btic_hit = 0, btic_miss = 0,
     st_bf = \<lambda>_ _. 0, st_bnf = \<lambda>_ _. 0\<rparr>"

definition zero_machine :: "nat \<Rightarrow> machine" where
  "zero_machine n = \<lparr>cpu = zero_cpu, pcnext = 0, except_pending = False, breakpoint = False,
     next_delay_insn = False, break_just_hit = False, breakpoints = [], conf = zero_config,
     rt = zero_runtime,
     scheduler = \<lparr>free_job_queue = replicate n free_entry,
                  job_queue = [free_entry\<lparr>time := SCHED_TIME_MAX\<rparr>]\<rparr>,
     cycle_count_at_tick_start = 0, tick_counting = 0, immu_state = None, dmmu_state = None,
     ic_state = None, dc = \<lambda>_ _. \<lparr>dc_line = \<lambda>_. 0, dc_tagaddr = 0, dc_lru = 0\<rparr>,
     bpb = \<lambda>_ _. \<lparr>bpb_addr = 0, bpb_taken = 0, bpb_lru = 0\<rparr>,
     btic = \<lambda>_ _. \<lparr>btic_addr = 0, btic_lru = 0\<rparr>, mem = zero_memory,
     sb = \<lparr>sbuf_head = 0, sbuf_tail = 0, sbuf_count = 0, sbuf_buf = \<lambda>_. 0, sbuf_prev_cycles = 0,
          sbuf_wait_cyc = 0, sbuf_total_cyc = 0\<rparr>,
     st = zero_stats, development = \<lambda>_. 0, in_reset = False, current_scan_chain = 0\<rparr>"

text \<open>The same machine with the special purpose registers given by a list.\<close>

definition with_sprs :: "(nat \<times> u32) list \<Rightarrow> machine \<Rightarrow> machine" where
  "with_sprs rs m = fold (\<lambda>(r, v). set_spr r v) rs m"

lemma with_sprs_simps [simp]:
  "with_sprs [] m = m" "with_sprs ((r, v) # rs) m = with_sprs rs (set_spr r v m)"
  by (simp_all add: with_sprs_def)

lemma spr_zero_machine [simp]: "spr r (zero_machine n) = 0"
  by (simp add: spr_def zero_machine_def zero_cpu_def del: sprs_cpu)

lemma scheduler_zero_machine [simp]:
  "scheduler (zero_machine n) = \<lparr>free_job_queue = replicate n free_entry,
                                job_queue = [free_entry\<lparr>time := SCHED_TIME_MAX\<rparr>]\<rparr>"
  by (simp add: zero_machine_def)

lemma zero_machine_simps [simp]:
  "cpu (zero_machine n) = zero_cpu" "pcnext (zero_machine n) = 0" "\<not> except_pending (zero_machine n)"
  "conf (zero_machine n) = zero_config" "rt (zero_machine n) = zero_runtime"
  "cycle_count_at_tick_start (zero_machine n) = 0" "tick_counting (zero_machine n) = 0"
  "immu_state (zero_machine n) = None" "dmmu_state (zero_machine n) = None" "ic_state (zero_machine n) = None"
  "mem (zero_machine n) = zero_memory" "\<not> in_reset (zero_machine n)"
  by (simp_all add: zero_machine_def)

end
