(* ===== verification/Except.thy ===== *)
theory Except
  imports Machine
begin

text \<open>
  Exceptions (\<open>cpu/or1k/except.c\<close>) with the part of the debug unit they go through
  (\<open>set_stall_state\<close> and \<open>debug_ignore_exception\<close> of \<open>debug/debug-unit.c\<close>), and the register file and
  program counter updates of \<open>cpu/or32/execute.c\<close>. The notification of a connected debugger
  (\<open>rsp_exception\<close>) only changes the state of the RSP server, which is not part of the model.
\<close>

section \<open>Program counter and register file\<close>

definition update_pc :: "machine \<Rightarrow> machine" where
  "update_pc m =
     (let m = m\<lparr>cpu := (cpu m)\<lparr>delay_insn := next_delay_insn m\<rparr>\<rparr>;
          m = set_spr SPR_PPC (pc (cpu m)) m;
          m = m\<lparr>cpu := (cpu m)\<lparr>pc := pcnext m\<rparr>\<rparr>
      in m\<lparr>pcnext := if delay_insn (cpu m) then pc_delay (cpu m) else pcnext m + 4\<rparr>)"

abbreviation (input) MAX_GPRS :: nat where "MAX_GPRS \<equiv> 32"

definition evalsim_reg :: "u32 \<Rightarrow> machine \<Rightarrow> u32 res" where
  "evalsim_reg regno m =
     (if unat regno < MAX_GPRS then Inr (reg (cpu m) (unat regno)) else Inl Sim_done)"

definition setsim_reg :: "u32 \<Rightarrow> u32 \<Rightarrow> machine \<Rightarrow> machine res" where
  "setsim_reg regno v m =
     (let v = (if regno = 0 then 0 else v)
      in if unat regno < MAX_GPRS
         then Inr (m\<lparr>cpu := (cpu m)\<lparr>reg := (reg (cpu m))(unat regno := v)\<rparr>\<rparr>)
         else Inl Sim_done)"

section \<open>Debug unit\<close>

abbreviation (input) DEVELOPINT_RISCOP :: nat where "DEVELOPINT_RISCOP \<equiv> 4"
abbreviation (input) RISCOP_STALL :: u64 where "RISCOP_STALL \<equiv> 1"
abbreviation (input) RISCOP_RESET :: u64 where "RISCOP_RESET \<equiv> 2"

definition set_stall_state :: "bool \<Rightarrow> machine \<Rightarrow> machine" where
  "set_stall_state state m =
     (let d = clear_flag (development m DEVELOPINT_RISCOP) RISCOP_STALL;
          m = m\<lparr>development := (development m)
                  (DEVELOPINT_RISCOP := set_flag d (if state then RISCOP_STALL else 0))\<rparr>;
          m = m\<lparr>rt := (rt m)\<lparr>stalled := state\<rparr>\<rparr>
      in if \<not> stalled (rt m)
         then m\<lparr>cpu := (cpu m)\<lparr>npc_not_valid := False\<rparr>, rt := (rt m)\<lparr>halted := False\<rparr>\<rparr>
         else m)"

text \<open>The bit of DSR, and of DRR, that stands for an exception.\<close>

definition dsr_flag :: "u32 \<Rightarrow> u32" where
  "dsr_flag except =
     (if except = EXCEPT_RESET then SPR_DSR_RSTE
      else if except = EXCEPT_BUSERR then SPR_DSR_BUSEE
      else if except = EXCEPT_DPF then SPR_DSR_DPFE
      else if except = EXCEPT_IPF then SPR_DSR_IPFE
      else if except = EXCEPT_TICK then SPR_DSR_TTE
      else if except = EXCEPT_ALIGN then SPR_DSR_AE
      else if except = EXCEPT_ILLEGAL then SPR_DSR_IIE
      else if except = EXCEPT_INT then SPR_DSR_IE
      else if except = EXCEPT_DTLBMISS then SPR_DSR_DME
      else if except = EXCEPT_ITLBMISS then SPR_DSR_IME
      else if except = EXCEPT_RANGE then SPR_DSR_RE
      else if except = EXCEPT_SYSCALL then SPR_DSR_SCE
      else if except = EXCEPT_TRAP then SPR_DSR_TE
      else 0)"

definition debug_ignore_exception :: "u32 \<Rightarrow> machine \<Rightarrow> bool \<times> machine" where
  "debug_ignore_exception except m =
     (let result = spr SPR_DSR m AND dsr_flag except;
          m = spr_or SPR_DRR result m;
          m = set_stall_state (result \<noteq> 0) m
      in (result \<noteq> 0, m))"

section \<open>Raising an exception\<close>

text \<open>The \<open>switch\<close> of \<open>except_handle\<close>: EPCR by class of exception.\<close>

definition except_epcr :: "u32 \<Rightarrow> u32 \<Rightarrow> machine \<Rightarrow> machine" where
  "except_epcr except ea m =
     (let slot = (if delay_insn (cpu m) then 4 else 0)
      in if except = EXCEPT_RESET then m
         else if except \<in> {EXCEPT_ITLBMISS, EXCEPT_IPF} then set_spr SPR_EPCR_BASE (ea - slot) m
         else if except \<in> {EXCEPT_BUSERR, EXCEPT_DPF, EXCEPT_ALIGN, EXCEPT_ILLEGAL, EXCEPT_DTLBMISS,
                            EXCEPT_RANGE, EXCEPT_TRAP}
         then set_spr SPR_EPCR_BASE (pc (cpu m) - slot) m
         else if except = EXCEPT_SYSCALL then set_spr SPR_EPCR_BASE ((pc (cpu m) + 4) - slot) m
         else if except \<in> {EXCEPT_TICK, EXCEPT_INT}
         then (let m = set_spr SPR_EPCR_BASE (pc (cpu m) - slot) m;
                   m = m\<lparr>cpu := (cpu m)\<lparr>pc := pcnext m\<rparr>\<rparr>
               in m\<lparr>pcnext := pcnext m + 4\<rparr>)
         else m)"

definition except_handle :: "u32 \<Rightarrow> u32 \<Rightarrow> machine \<Rightarrow> machine" where
  "except_handle except ea m =
     (case debug_ignore_exception except m of (ignored, m) \<Rightarrow>
        if ignored then m
        else
          let m = m\<lparr>except_pending := True\<rparr>;
              except_vector = except + (if has (spr SPR_SR m) SPR_SR_EPH then 0xf0000000 else 0);
              m = m\<lparr>pcnext := except_vector\<rparr>;
              m = set_spr SPR_EEAR_BASE ea m;
              m = set_spr SPR_ESR_BASE (spr SPR_SR m) m;
              m = spr_clear SPR_SR SPR_SR_OVE m;
              m = spr_or SPR_SR SPR_SR_SM m;
              m = spr_clear SPR_SR (SPR_SR_IEE OR SPR_SR_TEE) m;
              m = spr_clear SPR_SR SPR_SR_DME m;
              m = except_epcr except ea m;
              m = spr_clear SPR_SR SPR_SR_IME m
          in m\<lparr>cpu := (cpu m)\<lparr>delay_insn := False\<rparr>\<rparr>)"

section \<open>What these operations leave alone\<close>

lemma set_stall_state_frame [simp, frame_simps]:
  "conf (set_stall_state b m) = conf m"
  "scheduler (set_stall_state b m) = scheduler m"
  "cycle_count_at_tick_start (set_stall_state b m) = cycle_count_at_tick_start m"
  "tick_counting (set_stall_state b m) = tick_counting m"
  "immu_state (set_stall_state b m) = immu_state m"
  "dmmu_state (set_stall_state b m) = dmmu_state m"
  "ic_state (set_stall_state b m) = ic_state m"
  "dc (set_stall_state b m) = dc m"
  "bpb (set_stall_state b m) = bpb m"
  "btic (set_stall_state b m) = btic m"
  "mem (set_stall_state b m) = mem m"
  "sb (set_stall_state b m) = sb m"
  "st (set_stall_state b m) = st m"
  "in_reset (set_stall_state b m) = in_reset m"
  "current_scan_chain (set_stall_state b m) = current_scan_chain m"
  "breakpoint (set_stall_state b m) = breakpoint m"
  "breakpoints (set_stall_state b m) = breakpoints m"
  "next_delay_insn (set_stall_state b m) = next_delay_insn m"
  "break_just_hit (set_stall_state b m) = break_just_hit m"
  "pcnext (set_stall_state b m) = pcnext m"
  "except_pending (set_stall_state b m) = except_pending m"
  "reg (cpu (set_stall_state b m)) = reg (cpu m)"
  "insn_ea (cpu (set_stall_state b m)) = insn_ea (cpu m)"
  "delay_insn (cpu (set_stall_state b m)) = delay_insn (cpu m)"
  "pc (cpu (set_stall_state b m)) = pc (cpu m)"
  "pc_delay (cpu (set_stall_state b m)) = pc_delay (cpu m)"
  "iqueue (cpu (set_stall_state b m)) = iqueue (cpu m)"
  "icomplet (cpu (set_stall_state b m)) = icomplet (cpu m)"
  "cycles (rt (set_stall_state b m)) = cycles (rt m)"
  "mem_cycles (rt (set_stall_state b m)) = mem_cycles (rt m)"
  "instructions (rt (set_stall_state b m)) = instructions (rt m)"
  "reset_cycles (rt (set_stall_state b m)) = reset_cycles (rt m)"
  "reset_instructions (rt (set_stall_state b m)) = reset_instructions (rt m)"
  "hush (rt (set_stall_state b m)) = hush (rt m)"
  "spr r (set_stall_state b m) = spr r m"
  by (simp_all add: set_stall_state_def Let_def)

lemma debug_ignore_frame [simp, frame_simps]:
  "conf (snd (debug_ignore_exception e m)) = conf m"
  "scheduler (snd (debug_ignore_exception e m)) = scheduler m"
  "cycle_count_at_tick_start (snd (debug_ignore_exception e m)) = cycle_count_at_tick_start m"
  "tick_counting (snd (debug_ignore_exception e m)) = tick_counting m"
  "immu_state (snd (debug_ignore_exception e m)) = immu_state m"
  "dmmu_state (snd (debug_ignore_exception e m)) = dmmu_state m"
  "ic_state (snd (debug_ignore_exception e m)) = ic_state m"
  "dc (snd (debug_ignore_exception e m)) = dc m"
  "bpb (snd (debug_ignore_exception e m)) = bpb m"
  "btic (snd (debug_ignore_exception e m)) = btic m"
  "mem (snd (debug_ignore_exception e m)) = mem m"
  "sb (snd (debug_ignore_exception e m)) = sb m"
  "st (snd (debug_ignore_exception e m)) = st m"
  "in_reset (snd (debug_ignore_exception e m)) = in_reset m"
  "current_scan_chain (snd (debug_ignore_exception e m)) = current_scan_chain m"
  "breakpoint (snd (debug_ignore_exception e m)) = breakpoint m"
  "breakpoints (snd (debug_ignore_exception e m)) = breakpoints m"
  "next_delay_insn (snd (debug_ignore_exception e m)) = next_delay_insn m"
  "break_just_hit (snd (debug_ignore_exception e m)) = break_just_hit m"
  "pcnext (snd (debug_ignore_exception e m)) = pcnext m"
  "except_pending (snd (debug_ignore_exception e m)) = except_pending m"
  "reg (cpu (snd (debug_ignore_exception e m))) = reg (cpu m)"
  "insn_ea (cpu (snd (debug_ignore_exception e m))) = insn_ea (cpu m)"
  "delay_insn (cpu (snd (debug_ignore_exception e m))) = delay_insn (cpu m)"
  "pc (cpu (snd (debug_ignore_exception e m))) = pc (cpu m)"
  "pc_delay (cpu (snd (debug_ignore_exception e m))) = pc_delay (cpu m)"
  "iqueue (cpu (snd (debug_ignore_exception e m))) = iqueue (cpu m)"
  "icomplet (cpu (snd (debug_ignore_exception e m))) = icomplet (cpu m)"
  "cycles (rt (snd (debug_ignore_exception e m))) = cycles (rt m)"
  "mem_cycles (rt (snd (debug_ignore_exception e m))) = mem_cycles (rt m)"
  "instructions (rt (snd (debug_ignore_exception e m))) = instructions (rt m)"
  "reset_cycles (rt (snd (debug_ignore_exception e m))) = reset_cycles (rt m)"
  "reset_instructions (rt (snd (debug_ignore_exception e m))) = reset_instructions (rt m)"
  "hush (rt (snd (debug_ignore_exception e m))) = hush (rt m)"
  by (simp_all add: debug_ignore_exception_def Let_def)

lemma except_epcr_frame [simp, frame_simps]:
  "conf (except_epcr e ea m) = conf m"
  "scheduler (except_epcr e ea m) = scheduler m"
  "cycle_count_at_tick_start (except_epcr e ea m) = cycle_count_at_tick_start m"
  "tick_counting (except_epcr e ea m) = tick_counting m"
  "immu_state (except_epcr e ea m) = immu_state m"
  "dmmu_state (except_epcr e ea m) = dmmu_state m"
  "ic_state (except_epcr e ea m) = ic_state m"
  "dc (except_epcr e ea m) = dc m"
  "bpb (except_epcr e ea m) = bpb m"
  "btic (except_epcr e ea m) = btic m"
  "mem (except_epcr e ea m) = mem m"
  "sb (except_epcr e ea m) = sb m"
  "st (except_epcr e ea m) = st m"
  "in_reset (except_epcr e ea m) = in_reset m"
  "current_scan_chain (except_epcr e ea m) = current_scan_chain m"
  "breakpoint (except_epcr e ea m) = breakpoint m"
  "breakpoints (except_epcr e ea m) = breakpoints m"
  "next_delay_insn (except_epcr e ea m) = next_delay_insn m"
  "break_just_hit (except_epcr e ea m) = break_just_hit m"
  "except_pending (except_epcr e ea m) = except_pending m"
  "development (except_epcr e ea m) = development m"
  "rt (except_epcr e ea m) = rt m"
  "reg (cpu (except_epcr e ea m)) = reg (cpu m)"
  "insn_ea (cpu (except_epcr e ea m)) = insn_ea (cpu m)"
  "npc_not_valid (cpu (except_epcr e ea m)) = npc_not_valid (cpu m)"
  "pc_delay (cpu (except_epcr e ea m)) = pc_delay (cpu m)"
  "iqueue (cpu (except_epcr e ea m)) = iqueue (cpu m)"
  "icomplet (cpu (except_epcr e ea m)) = icomplet (cpu m)"
  "delay_insn (cpu (except_epcr e ea m)) = delay_insn (cpu m)"
  by (simp_all add: except_epcr_def Let_def)

lemma except_handle_frame [simp, frame_simps]:
  "conf (except_handle e ea m) = conf m"
  "scheduler (except_handle e ea m) = scheduler m"
  "cycle_count_at_tick_start (except_handle e ea m) = cycle_count_at_tick_start m"
  "tick_counting (except_handle e ea m) = tick_counting m"
  "immu_state (except_handle e ea m) = immu_state m"
  "dmmu_state (except_handle e ea m) = dmmu_state m"
  "ic_state (except_handle e ea m) = ic_state m"
  "dc (except_handle e ea m) = dc m"
  "bpb (except_handle e ea m) = bpb m"
  "btic (except_handle e ea m) = btic m"
  "mem (except_handle e ea m) = mem m"
  "sb (except_handle e ea m) = sb m"
  "st (except_handle e ea m) = st m"
  "in_reset (except_handle e ea m) = in_reset m"
  "current_scan_chain (except_handle e ea m) = current_scan_chain m"
  "breakpoint (except_handle e ea m) = breakpoint m"
  "breakpoints (except_handle e ea m) = breakpoints m"
  "next_delay_insn (except_handle e ea m) = next_delay_insn m"
  "break_just_hit (except_handle e ea m) = break_just_hit m"
  "reg (cpu (except_handle e ea m)) = reg (cpu m)"
  "insn_ea (cpu (except_handle e ea m)) = insn_ea (cpu m)"
  "pc_delay (cpu (except_handle e ea m)) = pc_delay (cpu m)"
  "iqueue (cpu (except_handle e ea m)) = iqueue (cpu m)"
  "icomplet (cpu (except_handle e ea m)) = icomplet (cpu m)"
  "cycles (rt (except_handle e ea m)) = cycles (rt m)"
  "mem_cycles (rt (except_handle e ea m)) = mem_cycles (rt m)"
  "instructions (rt (except_handle e ea m)) = instructions (rt m)"
  "reset_cycles (rt (except_handle e ea m)) = reset_cycles (rt m)"
  "reset_instructions (rt (except_handle e ea m)) = reset_instructions (rt m)"
  "hush (rt (except_handle e ea m)) = hush (rt m)"
  by (simp_all add: except_handle_def Let_def case_prod_beta)

section \<open>What an exception does\<close>

definition exception_ignored :: "u32 \<Rightarrow> machine \<Rightarrow> bool" where
  "exception_ignored e m \<longleftrightarrow> has (spr SPR_DSR m) (dsr_flag e)"

definition exception_vector :: "u32 \<Rightarrow> machine \<Rightarrow> u32" where
  "exception_vector e m = e + (if has (spr SPR_SR m) SPR_SR_EPH then 0xf0000000 else 0)"

text \<open>The supervision register an exception handler starts with.\<close>

definition handler_sr :: "u32 \<Rightarrow> u32" where
  "handler_sr sr = (sr OR SPR_SR_SM)
     AND NOT (SPR_SR_OVE OR SPR_SR_IEE OR SPR_SR_TEE OR SPR_SR_DME OR SPR_SR_IME)"

lemma handler_sr_steps:
  "((((sr AND NOT SPR_SR_OVE) OR SPR_SR_SM) AND NOT (SPR_SR_IEE OR SPR_SR_TEE)) AND NOT SPR_SR_DME)
     AND NOT SPR_SR_IME = handler_sr sr"
  by (simp add: handler_sr_def bit.conj_disj_distrib2 and.assoc)

lemma handler_sr_flags:
  "has (handler_sr sr) SPR_SR_SM" "\<not> has (handler_sr sr) SPR_SR_IEE" "\<not> has (handler_sr sr) SPR_SR_TEE"
  "\<not> has (handler_sr sr) SPR_SR_DME" "\<not> has (handler_sr sr) SPR_SR_IME" "\<not> has (handler_sr sr) SPR_SR_OVE"
  by (simp_all add: handler_sr_def has_def bit.conj_disj_distrib2 and.assoc)

lemma handler_sr_keeps:
  "flag AND (SPR_SR_SM OR SPR_SR_OVE OR SPR_SR_IEE OR SPR_SR_TEE OR SPR_SR_DME OR SPR_SR_IME) = 0
    \<Longrightarrow> handler_sr sr AND flag = sr AND flag"
proof -
  assume "flag AND (SPR_SR_SM OR SPR_SR_OVE OR SPR_SR_IEE OR SPR_SR_TEE OR SPR_SR_DME OR SPR_SR_IME) = 0"
  then have off: "flag AND 0x1067 = 0" by simp
  have "flag = (flag AND 0x1067) OR (flag AND NOT 0x1067)"
    unfolding bit.conj_disj_distrib[symmetric] bit.disj_cancel_right by simp
  then have flag: "flag = flag AND NOT 0x1067" using off by simp
  have "handler_sr sr AND (flag AND NOT 0x1067) = sr AND (flag AND NOT 0x1067)"
    by (simp add: handler_sr_def bit.conj_disj_distrib2 bit.conj_disj_distrib and.assoc and.left_commute)
  then show ?thesis using flag by simp
qed

lemma except_epcr_sprs: "r \<noteq> SPR_EPCR_BASE \<Longrightarrow> spr r (except_epcr e ea m) = spr r m"
  by (simp add: except_epcr_def Let_def)

lemma debug_ignore_result: "fst (debug_ignore_exception e m) = exception_ignored e m"
  by (simp add: debug_ignore_exception_def Let_def exception_ignored_def has_def)

lemma debug_ignore_sprs:
  "r \<noteq> SPR_DRR \<Longrightarrow> spr r (snd (debug_ignore_exception e m)) = spr r m"
  by (simp add: debug_ignore_exception_def Let_def)

lemma except_handle_ignored:
  "exception_ignored e m \<Longrightarrow> except_handle e ea m = snd (debug_ignore_exception e m)"
  by (simp add: except_handle_def debug_ignore_result[symmetric] case_prod_beta)

lemma debug_ignore_not:
  "\<not> exception_ignored e m \<Longrightarrow> debug_ignore_exception e m = (False, set_stall_state False (spr_or SPR_DRR 0 m))"
  by (simp add: debug_ignore_exception_def Let_def exception_ignored_def has_def)

text \<open>The special purpose registers an accepted exception writes.\<close>

lemma except_handle_sprs:
  assumes "\<not> exception_ignored e m"
  shows "spr SPR_ESR_BASE (except_handle e ea m) = spr SPR_SR m"
    and "spr SPR_EEAR_BASE (except_handle e ea m) = ea"
    and "spr SPR_SR (except_handle e ea m) = handler_sr (spr SPR_SR m)"
    and "r \<notin> {SPR_SR, SPR_ESR_BASE, SPR_EEAR_BASE, SPR_EPCR_BASE} \<Longrightarrow>
          spr r (except_handle e ea m) = spr r m"
  using debug_ignore_not[OF assms]
  by (simp_all add: except_handle_def Let_def except_epcr_sprs handler_sr_steps[simplified])

lemma except_handle_flags:
  assumes "\<not> exception_ignored e m"
  shows "except_pending (except_handle e ea m)" and "\<not> delay_insn (cpu (except_handle e ea m))"
    and "\<not> stalled (rt (except_handle e ea m))"
  using debug_ignore_not[OF assms]
  by (simp_all add: except_handle_def Let_def set_stall_state_def)

text \<open>Exceptions raised between instructions move the program counter at once.\<close>

lemma except_handle_async:
  assumes "\<not> exception_ignored e m" and "e = EXCEPT_TICK \<or> e = EXCEPT_INT"
  shows "pc (cpu (except_handle e ea m)) = exception_vector e m"
    and "pcnext (except_handle e ea m) = exception_vector e m + 4"
    and "spr SPR_EPCR_BASE (except_handle e ea m)
           = pc (cpu m) - (if delay_insn (cpu m) then 4 else 0)"
  using debug_ignore_not[OF assms(1)] assms(2)
  by (auto simp: except_handle_def Let_def except_epcr_def exception_vector_def)

text \<open>Exceptions raised by an instruction redirect the next program counter.\<close>

lemma except_handle_sync:
  assumes "\<not> exception_ignored e m" and "e \<noteq> EXCEPT_TICK" and "e \<noteq> EXCEPT_INT"
  shows "pc (cpu (except_handle e ea m)) = pc (cpu m)"
    and "pcnext (except_handle e ea m) = exception_vector e m"
    and "e \<in> {EXCEPT_ITLBMISS, EXCEPT_IPF} \<Longrightarrow>
          spr SPR_EPCR_BASE (except_handle e ea m) = ea - (if delay_insn (cpu m) then 4 else 0)"
    and "e = EXCEPT_SYSCALL \<Longrightarrow>
          spr SPR_EPCR_BASE (except_handle e ea m) = pc (cpu m) + 4 - (if delay_insn (cpu m) then 4 else 0)"
    and "e \<in> {EXCEPT_BUSERR, EXCEPT_DPF, EXCEPT_ALIGN, EXCEPT_ILLEGAL, EXCEPT_DTLBMISS, EXCEPT_RANGE,
               EXCEPT_TRAP} \<Longrightarrow>
          spr SPR_EPCR_BASE (except_handle e ea m) = pc (cpu m) - (if delay_insn (cpu m) then 4 else 0)"
  using debug_ignore_not[OF assms(1)] assms(2,3)
  by (auto simp: except_handle_def Let_def except_epcr_def exception_vector_def)

section \<open>Properties\<close>

text \<open>
  C24: an exception that DSR does not select enters its handler: the supervision register is saved in
  ESR and replaced by supervisor mode with translation, interrupts and the overflow exception off,
  every other flag kept; EEAR holds the effective address; no other special purpose register than
  these and EPCR changes; the pipeline is redirected to the vector, high if SR[EPH] was set.
\<close>

theorem exception_entry:
  assumes "\<not> exception_ignored e m"
  shows "let m' = except_handle e ea m in
     except_pending m' \<and> \<not> delay_insn (cpu m')
     \<and> spr SPR_ESR_BASE m' = spr SPR_SR m \<and> spr SPR_EEAR_BASE m' = ea
     \<and> spr SPR_SR m' = (spr SPR_SR m OR SPR_SR_SM)
           AND NOT (SPR_SR_OVE OR SPR_SR_IEE OR SPR_SR_TEE OR SPR_SR_DME OR SPR_SR_IME)
     \<and> (\<forall>r. r \<in> {SPR_SR, SPR_ESR_BASE, SPR_EEAR_BASE, SPR_EPCR_BASE} \<or> spr r m' = spr r m)
     \<and> reg (cpu m') = reg (cpu m) \<and> mem m' = mem m
     \<and> (if e = EXCEPT_TICK \<or> e = EXCEPT_INT then pc (cpu m') else pcnext m') = exception_vector e m"
proof -
  let ?m' = "except_handle e ea m"
  have "\<forall>r. r \<in> {SPR_SR, SPR_ESR_BASE, SPR_EEAR_BASE, SPR_EPCR_BASE} \<or> spr r ?m' = spr r m"
    using except_handle_sprs(4)[OF assms] by blast
  moreover have "(if e = EXCEPT_TICK \<or> e = EXCEPT_INT then pc (cpu ?m') else pcnext ?m') = exception_vector e m"
    using except_handle_async(1)[OF assms] except_handle_sync(2)[OF assms] by simp
  ultimately show ?thesis
    using except_handle_sprs(1,2,3)[OF assms] except_handle_flags(1,2)[OF assms]
    unfolding Let_def handler_sr_def by simp
qed

lemma exception_entry_witness:
  "spr SPR_SR (except_handle EXCEPT_SYSCALL 0 (with_sprs [(SPR_SR, SPR_SR_IEE OR SPR_SR_TEE OR SPR_SR_FO)] (zero_machine 3)))
     = SPR_SR_FO OR SPR_SR_SM"
  using exception_entry[of EXCEPT_SYSCALL "with_sprs [(SPR_SR, SPR_SR_IEE OR SPR_SR_TEE OR SPR_SR_FO)] (zero_machine 3)" 0]
  by (simp add: exception_ignored_def has_def Let_def)

text \<open>
  An exception that DSR selects for the debugger stalls the processor and records the reason in
  DRR; nothing else of the architecture changes, so the handler is not entered.
\<close>

theorem exception_for_debugger:
  assumes "exception_ignored e m"
  shows "let m' = except_handle e ea m in
     stalled (rt m') \<and> has (spr SPR_DRR m') (dsr_flag e) \<and> (\<forall>r. r = SPR_DRR \<or> spr r m' = spr r m)
     \<and> pc (cpu m') = pc (cpu m) \<and> pcnext m' = pcnext m \<and> reg (cpu m') = reg (cpu m)
     \<and> except_pending m' = except_pending m"
proof -
  let ?w = "spr SPR_DSR m AND dsr_flag e"
  have nz: "?w \<noteq> 0" using assms by (simp add: exception_ignored_def has_def)
  have "(spr SPR_DRR m OR ?w) AND dsr_flag e \<noteq> 0"
  proof
    assume "(spr SPR_DRR m OR ?w) AND dsr_flag e = 0"
    then have "((spr SPR_DRR m OR ?w) AND dsr_flag e) AND ?w = 0" by simp
    moreover have "((spr SPR_DRR m OR ?w) AND dsr_flag e) AND ?w = ?w" by (rule bit_word_eqI) (auto simp: bit_simps)
    ultimately show False using nz by simp
  qed
  then show ?thesis
    using nz by (simp add: Let_def except_handle_ignored[OF assms] debug_ignore_exception_def has_def)
      (simp add: set_stall_state_def Let_def)
qed

lemma exception_for_debugger_witness:
  "stalled (rt (except_handle EXCEPT_TRAP 0 (with_sprs [(SPR_DSR, SPR_DSR_TE)] (zero_machine 3))))"
  using exception_for_debugger[of EXCEPT_TRAP "with_sprs [(SPR_DSR, SPR_DSR_TE)] (zero_machine 3)" 0]
  by (simp add: exception_ignored_def has_def dsr_flag_def Let_def)

text \<open>
  Raising an exception that is not for the debugger always releases the stall of the processor,
  also when the debugger had requested it: \<open>debug_ignore_exception\<close> calls \<open>set_stall_state (0)\<close>.
\<close>

theorem exception_releases_stall:
  assumes "\<not> exception_ignored e m"
  shows "\<not> stalled (rt (except_handle e ea m))
     \<and> \<not> has (development (except_handle e ea m) DEVELOPINT_RISCOP) RISCOP_STALL
     \<and> \<not> npc_not_valid (cpu (except_handle e ea m))"
proof -
  have d: "development (except_epcr x y m') = development m'" "npc_not_valid (cpu (except_epcr x y m')) = npc_not_valid (cpu m')"
    for x y m' by simp_all
  have "\<not> has (development m 4 AND NOT 1) 1" by (rule has_clear_flag_same)
  then show ?thesis
    using debug_ignore_not[OF assms] by (simp add: except_handle_def Let_def d set_stall_state_def)
qed

lemma exception_releases_stall_witness:
  "\<not> stalled (rt (except_handle EXCEPT_TICK 0 (set_stall_state True (zero_machine 3))))"
  using exception_releases_stall[of EXCEPT_TICK "set_stall_state True (zero_machine 3)" 0]
  by (simp add: exception_ignored_def has_def)

end
