(* ===== verification/Debug.thy ===== *)
theory Debug
  imports Except
begin

text \<open>
  The debug unit of \<open>debug/debug-unit.c\<close>: matchpoints (one comparison per DVR/DCR pair), watchpoints
  (matchpoints chained through DMR1), watchpoint counters and the breakpoints they cause
  (\<open>calculate_watchpoints\<close>), and the development interface registers. The long function is split at its
  comments. An \<open>unsigned char\<close> is a \<open>u8\<close>, an \<open>unsigned long\<close> a \<open>u64\<close> (the host is LP64), a
  \<open>short int\<close> counter a \<open>u16\<close> read as signed.
\<close>

datatype debug_unit_action =
  DebugInstructionFetch | DebugLoadAddress | DebugStoreAddress | DebugLoadData | DebugStoreData

abbreviation (input) MAX_MATCHPOINTS :: nat where "MAX_MATCHPOINTS \<equiv> 8"
abbreviation (input) MAX_WATCHPOINTS :: nat where "MAX_WATCHPOINTS \<equiv> 10"

section \<open>Matchpoints\<close>

text \<open>\<open>match_so_far\<close>: does the compare-to field select this kind of access?\<close>

definition dcr_selects :: "u32 \<Rightarrow> debug_unit_action \<Rightarrow> bool" where
  "dcr_selects dcr action =
     (let dcr_ct = dcr AND SPR_DCR_CT
      in if dcr_ct = SPR_DCR_CT_IFEA then action = DebugInstructionFetch
         else if dcr_ct = SPR_DCR_CT_LEA then action = DebugLoadAddress
         else if dcr_ct = SPR_DCR_CT_SEA then action = DebugStoreAddress
         else if dcr_ct = SPR_DCR_CT_LD then action = DebugLoadData
         else if dcr_ct = SPR_DCR_CT_SD then action = DebugStoreData
         else if dcr_ct = SPR_DCR_CT_LSEA then action = DebugLoadAddress \<or> action = DebugStoreAddress
         else if dcr_ct = SPR_DCR_CT_LSD then action = DebugLoadData \<or> action = DebugStoreData
         else False)"

text \<open>The comparison; its result is stored in an \<open>unsigned char\<close>.\<close>

definition dcr_compare :: "u32 \<Rightarrow> u64 \<Rightarrow> u64 \<Rightarrow> u8" where
  "dcr_compare dcr op1 op2 =
     (let signed = (dcr AND SPR_DCR_SC = SPR_DCR_SC);
          less = (if signed then op1 <s op2 else op1 < op2);
          cc = dcr AND SPR_DCR_CC
      in if cc = SPR_DCR_CC_MASKED then ucast (op1 AND op2)
         else if cc = SPR_DCR_CC_EQUAL then of_bool (op1 = op2)
         else if cc = SPR_DCR_CC_NEQUAL then of_bool (op1 \<noteq> op2)
         else if cc = SPR_DCR_CC_LESS then of_bool less
         else if cc = SPR_DCR_CC_LESSE then of_bool (less \<or> op1 = op2)
         else if cc = SPR_DCR_CC_GREAT then of_bool (\<not> less \<and> op1 \<noteq> op2)
         else if cc = SPR_DCR_CC_GREATE then of_bool (\<not> less)
         else 0)"

definition matchpoint :: "debug_unit_action \<Rightarrow> u64 \<Rightarrow> u32 \<Rightarrow> u32 \<Rightarrow> u8" where
  "matchpoint action udata dcr dvr =
     (if dcr AND SPR_DCR_DP \<noteq> SPR_DCR_DP then 0
      else if \<not> dcr_selects dcr action then 0
      else dcr_compare dcr udata (ucast dvr))"

definition matchpoints :: "debug_unit_action \<Rightarrow> u64 \<Rightarrow> machine \<Rightarrow> nat \<Rightarrow> u8" where
  "matchpoints action udata m i = matchpoint action udata (spr (SPR_DCR i) m) (spr (SPR_DVR i) m)"

section \<open>Watchpoints\<close>

text \<open>One \<open>switch (dmr1 & SPR_DMR1_CWi)\<close>: the two bits of watchpoint \<open>i\<close> chain it with \<open>prev\<close>.\<close>

definition chain_wp :: "u32 \<Rightarrow> nat \<Rightarrow> u8 \<Rightarrow> u8 \<Rightarrow> u8" where
  "chain_wp dmr1 i this prev =
     (let cw = (drop_bit (2 * i) dmr1) AND 3
      in if cw = 0 then this
         else if cw = 1 then of_bool (this \<noteq> 0 \<and> prev \<noteq> 0)
         else if cw = 2 then of_bool (this \<noteq> 0 \<or> prev \<noteq> 0)
         else 0)"

text \<open>Watchpoint 0 can only stand alone; the others chain with the one before.\<close>

fun watchpoint :: "u32 \<Rightarrow> (nat \<Rightarrow> u8) \<Rightarrow> nat \<Rightarrow> u8" where
  "watchpoint dmr1 mp 0 = (if dmr1 AND SPR_DMR1_CW0 = 0 then mp 0 else 0)"
| "watchpoint dmr1 mp (Suc i) = chain_wp dmr1 (Suc i) (mp (Suc i)) (watchpoint dmr1 mp i)"

text \<open>The counters: each watchpoint that matched is counted by the counter it is assigned to.\<close>

definition count_wps :: "bool \<Rightarrow> bool \<Rightarrow> u32 \<Rightarrow> (nat \<Rightarrow> u8) \<Rightarrow> u16 \<times> u16 \<Rightarrow> u16 \<times> u16" where
  "count_wps en0 en1 dmr2 wp cs =
     fold (\<lambda>i (c0, c1).
             if (drop_bit (SPR_DMR2_AWTC_OFF + i) dmr2) AND 1 \<noteq> 1
             then (if en0 \<and> wp i \<noteq> 0 then c0 + 1 else c0, c1)
             else (c0, if en1 \<and> wp i \<noteq> 0 then c1 + 1 else c1))
          [0..<MAX_WATCHPOINTS - 2] cs"

definition step_counters :: "(nat \<Rightarrow> u8) \<Rightarrow> machine \<Rightarrow> machine" where
  "step_counters wp m =
     (let dmr2 = spr SPR_DMR2 m;
          en0 = (dmr2 AND SPR_DMR2_WCE0 = SPR_DMR2_WCE0);
          en1 = (dmr2 AND SPR_DMR2_WCE1 = SPR_DMR2_WCE1)
      in if en0 \<or> en1
         then (case count_wps en0 en1 dmr2 wp
                      (ucast (spr SPR_DWCR0 m AND SPR_DWCR_COUNT), ucast (spr SPR_DWCR1 m AND SPR_DWCR_COUNT))
               of (counter0, counter1) \<Rightarrow>
                 spr_or SPR_DWCR1 (scast counter1) (spr_clear SPR_DWCR1 SPR_DWCR_COUNT
                   (spr_or SPR_DWCR0 (scast counter0) (spr_clear SPR_DWCR0 SPR_DWCR_COUNT m))))
         else m)"

definition counter_matched :: "u32 \<Rightarrow> u8" where
  "counter_matched dwcr =
     of_bool (dwcr AND SPR_DWCR_COUNT = drop_bit SPR_DWCR_MATCH_OFF (dwcr AND SPR_DWCR_MATCH))"

text \<open>All ten watchpoints, the last two from the counters.\<close>

definition watchpoints :: "u32 \<Rightarrow> (nat \<Rightarrow> u8) \<Rightarrow> machine \<Rightarrow> nat \<Rightarrow> u8" where
  "watchpoints dmr1 mp m i =
     (let wp8 = chain_wp dmr1 8 (counter_matched (spr SPR_DWCR0 m)) (watchpoint dmr1 mp 7)
      in if i < 8 then watchpoint dmr1 mp i
         else if i = 8 then wp8
         else chain_wp dmr1 9 (counter_matched (spr SPR_DWCR1 m)) wp8)"

section \<open>Breakpoints\<close>

text \<open>The last loop: status bits and the result.\<close>

definition break_status :: "(nat \<Rightarrow> u8) \<Rightarrow> u32 \<Rightarrow> u32 \<times> bool" where
  "break_status wp dmr2 =
     fold (\<lambda>i (d, found).
             if (drop_bit (SPR_DMR2_WGB_OFF + i) d) AND 1 = 1 \<and> wp i \<noteq> 0
             then (d OR push_bit (SPR_DMR2_WBS_OFF + i) 1, True) else (d, found))
          [0..<MAX_WATCHPOINTS] (dmr2, False)"

definition calculate_watchpoints :: "debug_unit_action \<Rightarrow> u64 \<Rightarrow> machine \<Rightarrow> bool \<times> machine" where
  "calculate_watchpoints action udata m =
     (let mp = matchpoints action udata m
      in if list_all (\<lambda>i. mp i = 0) [0..<MAX_MATCHPOINTS] then (False, m)
         else let dmr1 = spr SPR_DMR1 m;
                  dmr2 = spr SPR_DMR2 m;
                  m = step_counters (watchpoint dmr1 mp) m;
                  wp = watchpoints dmr1 mp m;
                  (dmr2, found) = break_status wp dmr2
              in (found, set_spr SPR_DMR2 dmr2 m))"

definition check_debug_unit :: "debug_unit_action \<Rightarrow> u64 \<Rightarrow> machine \<Rightarrow> bool \<times> machine" where
  "check_debug_unit action udata m =
     (if \<not> cfg_debug_enabled (conf m) \<or> in_reset m then (False, m)
      else if has (spr SPR_DMR2 m) (SPR_DMR2_WGB OR SPR_DMR2_AWTC)
      then calculate_watchpoints action udata m
      else (False, m))"

section \<open>Development interface\<close>

abbreviation (input) DEVELOPINT_MAX :: nat where "DEVELOPINT_MAX \<equiv> 27"

definition du_reset :: "machine \<Rightarrow> machine" where
  "du_reset m =
     set_stall_state False (m\<lparr>development := \<lambda>i. if i \<le> DEVELOPINT_MAX then 0 else development m i\<rparr>)"

datatype proxy_error = INVALID_CHAIN | INVALID_ADDRESS | ACCESS_EXCEPTION

definition get_devint_reg :: "u32 \<Rightarrow> machine \<Rightarrow> proxy_error + u64" where
  "get_devint_reg address m =
     (if unat address \<le> DEVELOPINT_MAX then Inr (development m (unat address))
      else Inl INVALID_ADDRESS)"

abbreviation (input) JTAG_CHAIN_DEBUG_UNIT :: nat where "JTAG_CHAIN_DEBUG_UNIT \<equiv> 1"
abbreviation (input) JTAG_CHAIN_TRACE :: nat where "JTAG_CHAIN_TRACE \<equiv> 3"
abbreviation (input) JTAG_CHAIN_DEVELOPMENT :: nat where "JTAG_CHAIN_DEVELOPMENT \<equiv> 4"
abbreviation (input) JTAG_CHAIN_WISHBONE :: nat where "JTAG_CHAIN_WISHBONE \<equiv> 5"

definition debug_set_chain :: "nat \<Rightarrow> machine \<Rightarrow> proxy_error option \<times> machine" where
  "debug_set_chain chain m =
     (if chain \<in> {JTAG_CHAIN_DEBUG_UNIT, JTAG_CHAIN_DEVELOPMENT, JTAG_CHAIN_WISHBONE}
      then (None, m\<lparr>current_scan_chain := chain\<rparr>) else (Some INVALID_CHAIN, m))"

section \<open>Which accesses cause a breakpoint\<close>

lemma drop_bit_and_1: "drop_bit n w AND 1 = (of_bool (bit w n) :: 'a::len word)"
  by (rule bit_word_eqI) (auto simp: bit_simps)

text \<open>The last loop sees the enable bits of DMR2 unchanged, and sets status bit \<open>i\<close> for each hit.\<close>

lemma break_status_upto:
  fixes wp :: "nat \<Rightarrow> u8" and dmr2 :: u32
  assumes "n \<le> MAX_WATCHPOINTS"
  defines "step \<equiv> \<lambda>i (d, found).
             if (drop_bit (SPR_DMR2_WGB_OFF + i) d) AND 1 = 1 \<and> wp i \<noteq> 0
             then (d OR push_bit (SPR_DMR2_WBS_OFF + i) 1, True) else (d, found)"
  shows "\<exists>d. fold step [0..<n] (dmr2, False)
             = (d, \<exists>i<n. bit dmr2 (SPR_DMR2_WGB_OFF + i) \<and> wp i \<noteq> 0)
         \<and> (\<forall>k. bit d k \<longleftrightarrow> bit dmr2 k
               \<or> (\<exists>i<n. k = SPR_DMR2_WBS_OFF + i \<and> bit dmr2 (SPR_DMR2_WGB_OFF + i) \<and> wp i \<noteq> 0))"
  using assms(1)
proof (induction n)
  case 0
  then show ?case by simp
next
  case (Suc n)
  then obtain d where d: "fold step [0..<n] (dmr2, False)
      = (d, \<exists>i<n. bit dmr2 (SPR_DMR2_WGB_OFF + i) \<and> wp i \<noteq> 0)"
    and bits: "\<And>k. bit d k \<longleftrightarrow> bit dmr2 k
      \<or> (\<exists>i<n. k = SPR_DMR2_WBS_OFF + i \<and> bit dmr2 (SPR_DMR2_WGB_OFF + i) \<and> wp i \<noteq> 0)" by auto
  have enable: "bit d (SPR_DMR2_WGB_OFF + n) \<longleftrightarrow> bit dmr2 (SPR_DMR2_WGB_OFF + n)"
    using Suc.prems by (auto simp: bits)
  have "fold step [0..<Suc n] (dmr2, False)
      = step n (d, \<exists>i<n. bit dmr2 (SPR_DMR2_WGB_OFF + i) \<and> wp i \<noteq> 0)"
    using d by simp
  also have "\<dots> = (if bit dmr2 (SPR_DMR2_WGB_OFF + n) \<and> wp n \<noteq> 0
        then d OR push_bit (SPR_DMR2_WBS_OFF + n) 1 else d,
      \<exists>i<Suc n. bit dmr2 (SPR_DMR2_WGB_OFF + i) \<and> wp i \<noteq> 0)"
    using enable by (auto simp: step_def drop_bit_and_1 less_Suc_eq)
  finally show ?case
    using Suc.prems by (auto simp: bits bit_simps less_Suc_eq)
qed

lemma break_status_found:
  "snd (break_status wp dmr2) \<longleftrightarrow> (\<exists>i<MAX_WATCHPOINTS. bit dmr2 (SPR_DMR2_WGB_OFF + i) \<and> wp i \<noteq> 0)"
  using break_status_upto[of "MAX_WATCHPOINTS" wp dmr2] by (auto simp: break_status_def)

lemma break_status_bits:
  "bit (fst (break_status wp dmr2)) k \<longleftrightarrow> bit dmr2 k
     \<or> (\<exists>i<MAX_WATCHPOINTS. k = SPR_DMR2_WBS_OFF + i \<and> bit dmr2 (SPR_DMR2_WGB_OFF + i) \<and> wp i \<noteq> 0)"
  using break_status_upto[of "MAX_WATCHPOINTS" wp dmr2] by (auto simp: break_status_def)

lemma chain_wp_alone: "drop_bit (2 * i) dmr1 AND 3 = 0 \<Longrightarrow> chain_wp dmr1 i this prev = this"
  by (simp add: chain_wp_def)

text \<open>The counters wrap to negative numbers, whose sign then fills the match field.\<close>

lemma sign_in_match_field:
  "drop_bit SPR_DWCR_MATCH_OFF ((scast (c :: u16) :: u32) AND SPR_DWCR_MATCH)
     = (if bit c 15 then 0xffff else 0)"
proof (rule bit_word_eqI)
  fix n assume "n < LENGTH(32)"
  have "bit (0xffff0000 :: u32) k \<longleftrightarrow> 16 \<le> k \<and> k < 32" for k
  proof -
    have eq: "(0xffff0000 :: u32) = push_bit 16 (mask 16)"
      by (simp add: mask_eq_exp_minus_1)
    show ?thesis unfolding eq by (auto simp: bit_simps)
  qed
  moreover have "bit (0xffff :: u32) k \<longleftrightarrow> k < 16" for k
  proof -
    have eq: "(0xffff :: u32) = mask 16" by (simp add: mask_eq_exp_minus_1)
    show ?thesis unfolding eq by (auto simp: bit_simps)
  qed
  ultimately show "bit (drop_bit SPR_DWCR_MATCH_OFF ((scast c :: u32) AND SPR_DWCR_MATCH)) n
      = bit (if bit c 15 then 0xffff else 0 :: u32) n"
    using \<open>n < LENGTH(32)\<close> by (auto simp: bit_simps signed_take_bit_def)
qed

section \<open>Watchpoints by the bits of the registers\<close>

text \<open>
  The watchpoints in terms of the register fields. \<open>hit i\<close> is the comparison watchpoint \<open>i\<close> has of its own: a
  matchpoint for the first eight, a counter for the last two. Its two bits in DMR1 combine it with the watchpoint before.
\<close>

fun wp_fires :: "u32 \<Rightarrow> (nat \<Rightarrow> bool) \<Rightarrow> nat \<Rightarrow> bool" where
  "wp_fires dmr1 hit 0 \<longleftrightarrow> hit 0 \<and> \<not> bit dmr1 0 \<and> \<not> bit dmr1 1"
| "wp_fires dmr1 hit (Suc i) \<longleftrightarrow>
     (case (bit dmr1 (2 * Suc i + 1), bit dmr1 (2 * Suc i)) of
        (False, False) \<Rightarrow> hit (Suc i)
      | (False, True) \<Rightarrow> hit (Suc i) \<and> wp_fires dmr1 hit i
      | (True, False) \<Rightarrow> hit (Suc i) \<or> wp_fires dmr1 hit i
      | (True, True) \<Rightarrow> False)"

text \<open>
  Counter \<open>k\<close> of the machine \<open>m\<close> in which the watchpoints \<open>fires\<close>: how many it counts, what it holds afterwards, and
  whether it has reached its match value. A count from 0x8000 on is negative and fills the match field with its sign as soon as
  one of the two counters is enabled.
\<close>

definition counts :: "machine \<Rightarrow> (nat \<Rightarrow> bool) \<Rightarrow> nat \<Rightarrow> nat" where
  "counts m fires k =
     (if bit (spr SPR_DMR2 m) k then length (filter (\<lambda>i. fires i \<and> bit (spr SPR_DMR2 m) (2 + i) = (k = 1)) [0..<8]) else 0)"

definition new_count :: "machine \<Rightarrow> (nat \<Rightarrow> bool) \<Rightarrow> nat \<Rightarrow> nat" where
  "new_count m fires k = (unat (spr (SPR_DWCR0 + k) m) + counts m fires k) mod 2 ^ 16"

definition counter_hit :: "machine \<Rightarrow> (nat \<Rightarrow> bool) \<Rightarrow> nat \<Rightarrow> bool" where
  "counter_hit m fires k \<longleftrightarrow>
     (let c = new_count m fires k
      in if 0x8000 \<le> c \<and> (bit (spr SPR_DMR2 m) 0 \<or> bit (spr SPR_DMR2 m) 1) then c = 0xffff
         else c = unat (spr (SPR_DWCR0 + k) m) div 2 ^ 16)"

definition wp_hits :: "debug_unit_action \<Rightarrow> u64 \<Rightarrow> machine \<Rightarrow> nat \<Rightarrow> bool" where
  "wp_hits action udata m i =
     (if i < 8 then matchpoints action udata m i \<noteq> 0
      else counter_hit m (wp_fires (spr SPR_DMR1 m) (\<lambda>i. matchpoints action udata m i \<noteq> 0)) (i - 8))"

lemma field_3: "(w :: u32) AND 3 = (if bit w 1 then 2 else 0) + (if bit w 0 then 1 else 0)"
proof -
  have "w AND 3 = (if bit w 1 then push_bit 1 1 else 0) OR (if bit w 0 then 1 else 0)"
  proof (rule bit_word_eqI)
    fix n assume "n < LENGTH(32)"
    have "(3 :: u32) = mask 2" by (simp add: mask_eq_exp_minus_1)
    then have "bit (3 :: u32) n \<longleftrightarrow> n < 2" by (simp only: bit_mask_iff) (use \<open>n < LENGTH(32)\<close> in simp)
    moreover have "n < 2 \<longleftrightarrow> n = 0 \<or> n = 1" by linarith
    ultimately show "bit (w AND 3) n = bit ((if bit w 1 then push_bit 1 1 else 0) OR (if bit w 0 then 1 else 0) :: u32) n"
      by (auto simp: bit_simps)
  qed
  then show ?thesis by simp
qed

lemma chain_wp_bool:
  "chain_wp dmr1 i this prev \<noteq> 0 \<longleftrightarrow>
     (case (bit dmr1 (2 * i + 1), bit dmr1 (2 * i)) of
        (False, False) \<Rightarrow> this \<noteq> 0 | (False, True) \<Rightarrow> this \<noteq> 0 \<and> prev \<noteq> 0
      | (True, False) \<Rightarrow> this \<noteq> 0 \<or> prev \<noteq> 0 | (True, True) \<Rightarrow> False)"
proof -
  have "drop_bit (2 * i) dmr1 AND 3 = (if bit dmr1 (2 * i + 1) then 2 else 0) + (if bit dmr1 (2 * i) then 1 else 0)"
    using field_3[of "drop_bit (2 * i) dmr1"] by (simp add: bit_drop_bit_eq add.commute)
  then show ?thesis unfolding chain_wp_def Let_def by (auto split: bool.split)
qed

lemma wp_fires_cong: "(\<And>j. j \<le> i \<Longrightarrow> hit j = hit' j) \<Longrightarrow> wp_fires dmr1 hit i = wp_fires dmr1 hit' i"
  by (induction i) (auto split: bool.split)

lemma watchpoint_fires: "watchpoint dmr1 mp i \<noteq> 0 \<longleftrightarrow> wp_fires dmr1 (\<lambda>i. mp i \<noteq> 0) i"
proof (induction i)
  case 0
  show ?case using field_3[of dmr1] by simp
next
  case (Suc i)
  show ?case by (simp only: watchpoint.simps wp_fires.simps chain_wp_bool Suc.IH)
qed

lemma count_wps_upto:
  "fold (\<lambda>i (c0, c1).
             if (drop_bit (SPR_DMR2_AWTC_OFF + i) dmr2) AND 1 \<noteq> 1
             then (if en0 \<and> wp i \<noteq> 0 then c0 + 1 else c0, c1)
             else (c0, if en1 \<and> wp i \<noteq> 0 then c1 + 1 else c1)) [0..<n] (c0, c1)
   = ((c0 :: u16) + of_nat (if en0 then length (filter (\<lambda>i. wp i \<noteq> (0 :: u8) \<and> \<not> bit (dmr2 :: u32) (2 + i)) [0..<n]) else 0),
      (c1 :: u16) + of_nat (if en1 then length (filter (\<lambda>i. wp i \<noteq> 0 \<and> bit dmr2 (2 + i)) [0..<n]) else 0))"
  by (induction n) (auto simp: drop_bit_and_1)

lemma count_wps_counts:
  fixes m :: machine and wp :: "nat \<Rightarrow> u8"
  defines "dmr2 \<equiv> spr SPR_DMR2 m"
  shows "count_wps (bit dmr2 0) (bit dmr2 1) dmr2 wp (c0, c1)
    = (c0 + of_nat (counts m (\<lambda>i. wp i \<noteq> 0) 0), c1 + of_nat (counts m (\<lambda>i. wp i \<noteq> 0) 1))"
  unfolding count_wps_def counts_def dmr2_def count_wps_upto by simp

lemma enabled_bits: "(w :: u32) AND 1 = 1 \<longleftrightarrow> bit w 0" "(w :: u32) AND 2 = 2 \<longleftrightarrow> bit w 1"
proof -
  have "(w AND 2 = 2) = has w (push_bit 1 1)"
  proof -
    have "w AND push_bit 1 1 = (if bit w 1 then push_bit 1 1 else 0)"
      by (rule bit_word_eqI) (auto simp: bit_simps)
    then show ?thesis by (simp add: has_def)
  qed
  moreover have "has w (push_bit 1 1) = bit w 1"
    unfolding has_def bit_eq_iff by (auto simp: bit_simps)
  ultimately show "(w :: u32) AND 2 = 2 \<longleftrightarrow> bit w 1" by simp
  show "w AND 1 = 1 \<longleftrightarrow> bit w 0" using drop_bit_and_1[of 0 w] by (simp add: bit_0)
qed

lemma unat_wider: "unat (ucast (c :: u16) :: u32) = unat c"
proof -
  have "uint (ucast c :: u32) = uint c" by (rule uint_up_ucast) (simp add: is_up)
  then show ?thesis by (metis unat_eq_nat_uint)
qed

lemma bit_sext: "bit (scast (c :: u16) :: u32) n \<longleftrightarrow> n < 32 \<and> (if n < 15 then bit c n else bit c 15)"
  by (auto simp: bit_simps min_def)

lemma counter_low: "take_bit 16 ((w AND NOT SPR_DWCR_COUNT) OR scast (c :: u16)) = (ucast c :: u32)"
proof (rule bit_word_eqI)
  fix n assume "n < LENGTH(32)"
  have m: "(0xffff :: u32) = mask 16" by (simp add: mask_eq_exp_minus_1)
  consider "n < 15" | "n = 15" | "16 \<le> n" by linarith
  then show "bit (take_bit 16 ((w AND NOT SPR_DWCR_COUNT) OR scast c)) n = bit (ucast c :: u32) n"
    unfolding m by cases (auto simp: bit_take_bit_iff bit_or_iff bit_and_iff bit_not_iff bit_mask_iff bit_sext bit_ucast_iff
      dest: bit_imp_le_length)
qed

text \<open>The word a counter register holds after \<open>counter\<close> has been stored back, and its comparison.\<close>

lemma low_half: "(w :: u32) AND SPR_DWCR_COUNT = take_bit 16 w" and high_half: "drop_bit 16 ((w :: u32) AND SPR_DWCR_MATCH) = drop_bit 16 w"
proof -
  have m: "(0xffff :: u32) = mask 16" by (simp add: mask_eq_exp_minus_1)
  show "w AND SPR_DWCR_COUNT = take_bit 16 w" unfolding m by (simp only: take_bit_eq_mask)
  have h: "(0xffff0000 :: u32) = push_bit 16 (mask 16)" by (simp add: mask_eq_exp_minus_1)
  show "drop_bit 16 (w AND SPR_DWCR_MATCH) = drop_bit 16 w"
    unfolding h by (rule bit_word_eqI) (auto simp: bit_simps dest: bit_imp_le_length)
qed

lemma counter_matched_halves: "counter_matched w \<noteq> 0 \<longleftrightarrow> take_bit 16 w = drop_bit 16 w"
  unfolding counter_matched_def low_half high_half by simp

lemma counter_kept: "counter_matched w \<noteq> 0 \<longleftrightarrow> unat w mod 2 ^ 16 = unat w div 2 ^ 16"
proof -
  have "take_bit 16 w = drop_bit 16 w \<longleftrightarrow> unat (take_bit 16 w) = unat (drop_bit 16 w)" by (rule word_unat_eq_iff)
  also have "\<dots> \<longleftrightarrow> take_bit 16 (unat w) = drop_bit 16 (unat w)" by (simp only: unsigned_take_bit_eq unat_drop_bit_eq)
  finally show ?thesis unfolding counter_matched_halves by (simp only: take_bit_eq_mod drop_bit_eq_div)
qed

lemma count_sum: "unat ((ucast (w AND SPR_DWCR_COUNT :: u32) :: u16) + of_nat n) = (unat w + n) mod 2 ^ 16"
proof -
  have "(ucast (w AND SPR_DWCR_COUNT) :: u16) = ucast w" unfolding low_half by (rule bit_word_eqI) (auto simp: bit_simps)
  also have "\<dots> = of_nat (unat w)" by (simp add: word_unat_eq_iff unsigned_ucast_eq take_bit_eq_mod unat_of_nat)
  finally have "(ucast (w AND SPR_DWCR_COUNT) :: u16) + of_nat n = of_nat (unat w + n)" by simp
  then show ?thesis by (simp only: unat_of_nat) (simp add: take_bit_eq_mod)
qed

text \<open>The word a counter register holds after the counter \<open>c\<close> has been stored back, and its comparison.\<close>

lemma counter_stored:
  fixes w :: u32 and c :: u16
  shows "counter_matched ((w AND NOT SPR_DWCR_COUNT) OR scast c) \<noteq> 0
    \<longleftrightarrow> (if 0x8000 \<le> unat c then unat c = 0xffff else unat c = unat w div 2 ^ 16)"
proof -
  let ?x = "(w AND NOT SPR_DWCR_COUNT) OR scast c"
  have m: "(0xffff :: u32) = mask 16" by (simp add: mask_eq_exp_minus_1)
  note low = counter_low[of w c] and sext = bit_sext[of c]
  have high: "drop_bit 16 ?x = (if bit c 15 then mask 16 else drop_bit 16 w)"
    unfolding m by (rule bit_word_eqI) (auto simp: bit_drop_bit_eq bit_or_iff bit_and_iff bit_not_iff bit_mask_iff sext
        dest: bit_imp_le_length)
  have "bit (unat c) 15 = bit c 15" by (simp add: bit_unsigned_iff)
  then have "bit c 15 = odd (unat c div 2 ^ 15)" by (simp add: bit_iff_odd)
  moreover have "unat c < 65536" using unsigned_less[of c] by simp
  then have "unat c div 2 ^ 15 = (if 0x8000 \<le> unat c then 1 else 0)" by (auto intro: div_nat_eqI)
  ultimately have sign: "bit c 15 \<longleftrightarrow> 0x8000 \<le> unat c" by simp
  note u = unat_wider[of c]
  have half: "unat (drop_bit 16 w) = unat w div 2 ^ 16" by (simp only: unat_drop_bit_eq) (simp only: drop_bit_eq_div)
  have "counter_matched ?x \<noteq> 0 \<longleftrightarrow> unat (ucast c :: u32) = unat (if bit c 15 then mask 16 else drop_bit 16 w)"
    unfolding counter_matched_halves low high by (rule word_unat_eq_iff)
  also have "\<dots> \<longleftrightarrow> (if bit c 15 then unat c = 0xffff else unat c = unat w div 2 ^ 16)"
    unfolding u using half by (cases "bit c 15") (simp_all add: mask_eq_exp_minus_1)
  finally show ?thesis unfolding sign .
qed

lemma step_counters_frame:
  "r \<noteq> SPR_DWCR0 \<Longrightarrow> r \<noteq> SPR_DWCR1 \<Longrightarrow> spr r (step_counters wp m) = spr r m"
  by (simp add: step_counters_def Let_def case_prod_beta)

lemma step_counters_counts:
  fixes wp :: "nat \<Rightarrow> u8" and m :: machine
  assumes "k = 0 \<or> k = 1"
  shows "spr (SPR_DWCR0 + k) (step_counters wp m)
     = (if bit (spr SPR_DMR2 m) 0 \<or> bit (spr SPR_DMR2 m) 1
        then (spr (SPR_DWCR0 + k) m AND NOT SPR_DWCR_COUNT)
           OR scast ((ucast (spr (SPR_DWCR0 + k) m AND SPR_DWCR_COUNT) :: u16) + of_nat (counts m (\<lambda>i. wp i \<noteq> 0) k))
        else spr (SPR_DWCR0 + k) m)"
  using assms unfolding step_counters_def Let_def enabled_bits count_wps_counts by auto

lemma counter_fires:
  assumes "k = 0 \<or> k = 1"
  shows "counter_matched (spr (SPR_DWCR0 + k) (step_counters wp m)) \<noteq> 0 \<longleftrightarrow> counter_hit m (\<lambda>i. wp i \<noteq> 0) k"
proof (cases "bit (spr SPR_DMR2 m) 0 \<or> bit (spr SPR_DMR2 m) 1")
  case True
  then show ?thesis
    unfolding step_counters_counts[OF assms] if_P[OF True] counter_stored count_sum
    by (simp only: counter_hit_def new_count_def Let_def simp_thms)
next
  case False
  then have "counts m (\<lambda>i. wp i \<noteq> 0) k = 0" using assms by (auto simp: counts_def)
  with False show ?thesis
    unfolding step_counters_counts[OF assms] if_not_P[OF False] counter_kept
    by (simp only: counter_hit_def new_count_def Let_def simp_thms add_0_right if_False)
qed

lemma step_counts:
  assumes "k = 0 \<or> k = 1"
  shows "unat (spr (SPR_DWCR0 + k) (step_counters wp m)) mod 2 ^ 16 = new_count m (\<lambda>i. wp i \<noteq> 0) k"
proof (cases "bit (spr SPR_DMR2 m) 0 \<or> bit (spr SPR_DMR2 m) 1")
  case True
  have low: "unat ((w AND NOT SPR_DWCR_COUNT) OR scast c :: u32) mod 2 ^ 16 = unat c" for w and c :: u16
  proof -
    have "unat ((w AND NOT SPR_DWCR_COUNT) OR scast c :: u32) mod 2 ^ 16 = unat (take_bit 16 ((w AND NOT SPR_DWCR_COUNT) OR scast c :: u32))"
      by (simp only: unsigned_take_bit_eq) (simp only: take_bit_eq_mod)
    then show ?thesis unfolding counter_low unat_wider .
  qed
  show ?thesis unfolding step_counters_counts[OF assms] if_P[OF True] low count_sum new_count_def ..
next
  case False
  then have "counts m (\<lambda>i. wp i \<noteq> 0) k = 0" using assms by (auto simp: counts_def)
  then show ?thesis unfolding step_counters_counts[OF assms] if_not_P[OF False] new_count_def by simp
qed

lemma counts_cong: "(\<And>i. i < 8 \<Longrightarrow> p i = q i) \<Longrightarrow> counts m p k = counts m q k"
  unfolding counts_def by (auto intro!: arg_cong[where f = length] filter_cong)

lemma new_count_cong: "(\<And>i. i < 8 \<Longrightarrow> p i = q i) \<Longrightarrow> new_count m p k = new_count m q k"
  using counts_cong[of p q m k] by (simp add: new_count_def)

lemma counter_hit_cong: "(\<And>i. i < 8 \<Longrightarrow> p i = q i) \<Longrightarrow> counter_hit m p k = counter_hit m q k"
  using counts_cong[of p q m k] by (simp add: counter_hit_def new_count_def)

lemma watchpoints_fire:
  fixes m :: machine and action :: debug_unit_action and udata :: u64
  defines "mp \<equiv> matchpoints action udata m" and "dmr1 \<equiv> spr SPR_DMR1 m"
  assumes "i < 10"
  shows "watchpoints dmr1 mp (step_counters (watchpoint dmr1 mp) m) i \<noteq> 0 \<longleftrightarrow> wp_fires dmr1 (wp_hits action udata m) i"
proof -
  let ?m = "step_counters (watchpoint dmr1 mp) m" and ?hit = "wp_hits action udata m"
  have low: "watchpoint dmr1 mp j \<noteq> 0 \<longleftrightarrow> wp_fires dmr1 ?hit j" if "j < 8" for j
    unfolding watchpoint_fires using that by (intro wp_fires_cong) (simp add: wp_hits_def mp_def)
  have counter: "counter_matched (spr (SPR_DWCR0 + k) ?m) \<noteq> 0 \<longleftrightarrow> ?hit (8 + k)" if "k = 0 \<or> k = 1" for k
    unfolding counter_fires[OF that] by (simp add: wp_hits_def watchpoint_fires mp_def dmr1_def)
  have eight: "chain_wp dmr1 8 (counter_matched (spr SPR_DWCR0 ?m)) (watchpoint dmr1 mp 7) \<noteq> 0 \<longleftrightarrow> wp_fires dmr1 ?hit 8"
  proof -
    have eq: "wp_fires dmr1 ?hit (Suc 7) \<longleftrightarrow> (case (bit dmr1 (2 * Suc 7 + 1), bit dmr1 (2 * Suc 7)) of
        (False, False) \<Rightarrow> ?hit (Suc 7) | (False, True) \<Rightarrow> ?hit (Suc 7) \<and> wp_fires dmr1 ?hit 7
      | (True, False) \<Rightarrow> ?hit (Suc 7) \<or> wp_fires dmr1 ?hit 7 | (True, True) \<Rightarrow> False)"
      unfolding wp_fires.simps ..
    have "Suc 7 = 8" by simp
    note eq = eq[unfolded this]
    show ?thesis using counter[of 0] low[of 7] eq by (simp add: chain_wp_bool split: bool.split)
  qed
  have nine: "chain_wp dmr1 9 (counter_matched (spr SPR_DWCR1 ?m)) prev \<noteq> 0 \<longleftrightarrow> wp_fires dmr1 ?hit 9"
    if "prev \<noteq> 0 \<longleftrightarrow> wp_fires dmr1 ?hit 8" for prev
  proof -
    have eq: "wp_fires dmr1 ?hit (Suc 8) \<longleftrightarrow> (case (bit dmr1 (2 * Suc 8 + 1), bit dmr1 (2 * Suc 8)) of
        (False, False) \<Rightarrow> ?hit (Suc 8) | (False, True) \<Rightarrow> ?hit (Suc 8) \<and> wp_fires dmr1 ?hit 8
      | (True, False) \<Rightarrow> ?hit (Suc 8) \<or> wp_fires dmr1 ?hit 8 | (True, True) \<Rightarrow> False)"
      unfolding wp_fires.simps ..
    have "Suc 8 = 9" by simp
    note eq = eq[unfolded this]
    show ?thesis using counter[of 1] that eq by (simp add: chain_wp_bool split: bool.split)
  qed
  consider "i < 8" | "i = 8" | "i = 9" using assms(3) by linarith
  then show ?thesis using low eight nine[OF eight] by cases (simp_all add: watchpoints_def Let_def)
qed

section \<open>Properties\<close>

text \<open>
  C21: when an access causes a breakpoint. If none of the eight matchpoints matches, nothing happens at all, even if a
  counter stands at its match value. Otherwise the access causes a breakpoint exactly when a watchpoint fires whose WGB bit is
  set in DMR2; DMR2 keeps all its bits and gains the status bit of each watchpoint that caused one; and the counters advance
  modulo \<open>2 ^ 16\<close> by the number of watchpoints assigned to them that fire. Which watchpoints fire is defined by the bits of
  DMR1 alone: own comparison, conjunction or disjunction with the watchpoint before.
\<close>

theorem breakpoint_iff_watchpoint:
  "if \<forall>i < 8. matchpoints action udata m i = 0 then calculate_watchpoints action udata m = (False, m)
   else (let fires = wp_fires (spr SPR_DMR1 m) (wp_hits action udata m); dmr2 = spr SPR_DMR2 m;
             (stop, m') = calculate_watchpoints action udata m
      in (stop \<longleftrightarrow> (\<exists>i < 10. bit dmr2 (12 + i) \<and> fires i))
       \<and> (\<forall>k. bit (spr SPR_DMR2 m') k \<longleftrightarrow> bit dmr2 k \<or> (\<exists>i < 10. k = 22 + i \<and> bit dmr2 (12 + i) \<and> fires i))
       \<and> unat (spr SPR_DWCR0 m') mod 2 ^ 16 = new_count m fires 0 \<and> unat (spr SPR_DWCR1 m') mod 2 ^ 16 = new_count m fires 1)"
proof -
  let ?mp = "matchpoints action udata m" and ?dmr1 = "spr SPR_DMR1 m" and ?dmr2 = "spr SPR_DMR2 m"
  let ?m = "step_counters (watchpoint ?dmr1 ?mp) m"
  let ?wp = "watchpoints ?dmr1 ?mp ?m" and ?fires = "wp_fires ?dmr1 (wp_hits action udata m)"
  have fires: "(\<exists>i < 10. P i \<and> ?wp i \<noteq> 0) \<longleftrightarrow> (\<exists>i < 10. P i \<and> ?fires i)" for P
    using watchpoints_fire[of _ m action udata] by auto
  obtain d f where b: "break_status ?wp ?dmr2 = (d, f)" by fastforce
  have count: "unat (spr (SPR_DWCR0 + k) ?m) mod 2 ^ 16 = new_count m ?fires k" if "k = 0 \<or> k = 1" for k
    unfolding step_counts[OF that] watchpoint_fires
    by (intro new_count_cong wp_fires_cong) (simp add: wp_hits_def)
  show ?thesis
  proof (cases "\<forall>i < 8. ?mp i = 0")
    case True
    then show ?thesis by (simp add: calculate_watchpoints_def Let_def list_all_iff)
  next
    case False
    then have "calculate_watchpoints action udata m = (f, set_spr SPR_DMR2 d ?m)"
      using b unfolding calculate_watchpoints_def Let_def by (auto simp: list_all_iff)
    moreover have "f \<longleftrightarrow> (\<exists>i < 10. bit ?dmr2 (12 + i) \<and> ?fires i)"
      using break_status_found[of ?wp ?dmr2] b by (simp add: fires)
    moreover have "bit d k \<longleftrightarrow> bit ?dmr2 k \<or> (\<exists>i < 10. k = 22 + i \<and> bit ?dmr2 (12 + i) \<and> ?fires i)" for k
      using break_status_bits[of ?wp ?dmr2 k] b fires[of "\<lambda>i. k = 22 + i \<and> bit ?dmr2 (12 + i)"] by simp
    ultimately show ?thesis
      using False count[of 0] count[of 1] by (simp only: Let_def case_prod_conv if_False spr_set_spr) simp
  qed
qed

text \<open>Watchpoint 1 is the disjunction of its own matchpoint, which is off, with watchpoint 0, and alone stops the processor.\<close>

definition watched_fetch :: machine where
  "watched_fetch = with_sprs [(SPR_DVR 0, 0x1000), (SPR_DCR 0, SPR_DCR_DP OR SPR_DCR_CC_EQUAL OR SPR_DCR_CT_IFEA),
     (SPR_DMR1, 8), (SPR_DMR2, 0x2000)] (zero_machine 3)"

lemma breakpoint_iff_watchpoint_witness:
  "fst (calculate_watchpoints DebugInstructionFetch 0x1000 watched_fetch)"
proof -
  let ?hit = "wp_hits DebugInstructionFetch 0x1000 watched_fetch"
  have mp: "matchpoints DebugInstructionFetch 0x1000 watched_fetch 0 = 1"
    by (simp add: watched_fetch_def matchpoints_def matchpoint_def dcr_selects_def dcr_compare_def Let_def)
  then have some: "\<not> (\<forall>i < 8. matchpoints DebugInstructionFetch 0x1000 watched_fetch i = 0)" by force
  have "?hit 0" using mp by (simp add: wp_hits_def)
  then have "wp_fires (spr SPR_DMR1 watched_fetch) ?hit (Suc 0)"
    by (simp only: wp_fires.simps) (simp add: watched_fetch_def)
  then have "\<exists>i < 10. bit (spr SPR_DMR2 watched_fetch) (12 + i) \<and> wp_fires (spr SPR_DMR1 watched_fetch) ?hit i"
    by (intro exI[of _ "Suc 0"]) (simp add: watched_fetch_def)
  then show ?thesis
    using breakpoint_iff_watchpoint[of DebugInstructionFetch "0x1000" watched_fetch] some
    by (simp only: if_False Let_def case_prod_beta)
qed

text \<open>
  An access that no matchpoint selects leaves the whole machine unchanged, counters and status
  bits included, and causes no breakpoint.
\<close>

theorem no_matchpoint_no_effect:
  assumes "\<forall>i<MAX_MATCHPOINTS. matchpoints action udata m i = 0"
  shows "check_debug_unit action udata m = (False, m)"
  using assms by (simp add: check_debug_unit_def calculate_watchpoints_def Let_def list_all_iff)

lemma no_matchpoint_no_effect_witness:
  "check_debug_unit DebugLoadData 5 (zero_machine 3) = (False, zero_machine 3)"
  using no_matchpoint_no_effect[of DebugLoadData 5 "zero_machine 3"]
  by (simp add: matchpoints_def matchpoint_def)

text \<open>
  With the masked comparison selected, a match is only seen in the low 8 bits: whenever the
  compared value and DVR have no common bit below bit 8, the matchpoint does not fire, whatever
  common bits they have above (the result is stored in an \<open>unsigned char\<close>).
\<close>

theorem masked_match_loses_high_bits:
  assumes "ucast udata AND (ucast dvr :: u8) = 0" and "dcr AND SPR_DCR_CC = SPR_DCR_CC_MASKED"
  shows "matchpoint action udata dcr dvr = 0"
proof -
  have "(ucast (udata AND ucast dvr) :: u8) = ucast udata AND ucast dvr"
    by (rule bit_word_eqI) (auto simp: bit_simps)
  then show ?thesis using assms by (simp add: matchpoint_def dcr_compare_def Let_def)
qed

lemma masked_match_loses_high_bits_witness:
  "matchpoint DebugLoadData 0xff00 (SPR_DCR_DP OR SPR_DCR_CT_LD) 0xff00 = 0 \<and> (0xff00 :: u64) AND 0xff00 \<noteq> 0"
  using masked_match_loses_high_bits[of "0xff00" "0xff00" "SPR_DCR_DP OR SPR_DCR_CT_LD" DebugLoadData] by simp

text \<open>
  When counter 0 is enabled, an access that counts nothing but whose count is at least \<open>0x8000\<close>
  overwrites the match field of DWCR0 with ones: the counter is a \<open>short\<close> that is sign extended.
\<close>

theorem counter_sign_corrupts_match:
  assumes "has (spr SPR_DMR2 m) SPR_DMR2_WCE0" and "bit (spr SPR_DWCR0 m) 15" and "\<forall>i<8. wp i = 0"
  shows "spr SPR_DWCR0 (step_counters wp m) AND SPR_DWCR_MATCH = SPR_DWCR_MATCH"
proof -
  have en: "spr SPR_DMR2 m AND SPR_DMR2_WCE0 = SPR_DMR2_WCE0"
    using assms(1) by (simp add: has_def and_one_eq split: if_splits)
  have same: "count_wps e0 e1 dmr2 wp cs = cs" for e0 e1 dmr2 cs
    using assms(3) by (cases cs) (simp add: count_wps_def upt_rec)
  let ?c = "ucast (spr SPR_DWCR0 m AND SPR_DWCR_COUNT) :: u16"
  have sign: "bit ?c 15" using assms(2) by (simp add: bit_simps)
  have "spr SPR_DWCR0 (step_counters wp m) = (spr SPR_DWCR0 m AND NOT SPR_DWCR_COUNT) OR scast ?c"
    using en by (simp add: step_counters_def Let_def same)
  moreover have "(w OR scast ?c) AND SPR_DWCR_MATCH = SPR_DWCR_MATCH" for w :: u32
  proof (rule bit_word_eqI)
    fix n assume n: "n < LENGTH(32)"
    have high: "bit (0xffff0000 :: u32) n \<longleftrightarrow> 16 \<le> n"
    proof -
      have eq: "(0xffff0000 :: u32) = push_bit 16 (mask 16)" by (simp add: mask_eq_exp_minus_1)
      show ?thesis unfolding eq using n by (auto simp: bit_push_bit_iff bit_mask_iff)
    qed
    have "16 \<le> n \<Longrightarrow> bit (scast ?c :: u32) n" using sign n by (simp add: bit_signed_iff)
    then show "bit ((w OR scast ?c) AND SPR_DWCR_MATCH) n = bit (SPR_DWCR_MATCH :: u32) n"
      using high by (auto simp: bit_and_iff bit_or_iff)
  qed
  ultimately show ?thesis by simp
qed

lemma counter_sign_corrupts_match_witness:
  "spr SPR_DWCR0 (step_counters (\<lambda>_. 0) (with_sprs [(SPR_DMR2, 1), (SPR_DWCR0, 0x00058000)] (zero_machine 3)))
     AND SPR_DWCR_MATCH = SPR_DWCR_MATCH"
  by (rule counter_sign_corrupts_match) (simp_all add: has_def)

end
