(* ===== verification/Jobs.thy ===== *)
theory Jobs
  imports Machine
begin

text \<open>
  The scheduler as a component of the machine: the macros \<open>SCHED_ADD\<close> and \<open>SCHED_FIND_REMOVE\<close> of
  \<open>support/sched.h\<close> on the global \<open>scheduler\<close>, with the parameter \<open>NULL\<close> every modelled caller passes. The
  contract \<open>jobs_ok\<close> is what the callers need of the queue; both macros keep it.
\<close>

definition SCHED_ADD :: "job \<Rightarrow> int \<Rightarrow> machine \<Rightarrow> machine res" where
  "SCHED_ADD f t m = bind_res (sched_add f 0 t (scheduler m)) (\<lambda>s. Inr (m\<lparr>scheduler := s\<rparr>))"

definition SCHED_FIND_REMOVE :: "job \<Rightarrow> machine \<Rightarrow> machine" where
  "SCHED_FIND_REMOVE f m = m\<lparr>scheduler := sched_find_remove f 0 (scheduler m)\<rparr>"

definition SCHED_NEXT_INSN :: "job \<Rightarrow> machine \<Rightarrow> machine res" where
  "SCHED_NEXT_INSN f m = bind_res (sched_next_insn f 0 (scheduler m)) (\<lambda>s. Inr (m\<lparr>scheduler := s\<rparr>))"

text \<open>The due times and functions of the pending jobs.\<close>

definition pending :: "machine \<Rightarrow> (int \<times> job) list" where
  "pending m = map (\<lambda>(t, f, p). (t, f)) (sched_jobs (scheduler m))"

abbreviation (input) MAX_LATE :: int where "MAX_LATE \<equiv> 0x30000000"

text \<open>
  Well formed, room for \<open>n\<close> more jobs, every parameter \<open>NULL\<close>, the guard is queued, and no job is more
  than \<open>MAX_LATE\<close> cycles late.
\<close>

definition jobs_ok :: "nat \<Rightarrow> machine \<Rightarrow> bool" where
  "jobs_ok n m \<longleftrightarrow> sched_wf (scheduler m) \<and> n \<le> sched_room (scheduler m)
     \<and> list_all (\<lambda>(t, f, p). p = 0 \<and> - MAX_LATE \<le> t) (sched_jobs (scheduler m))
     \<and> Guard \<in> snd ` set (pending m)"

lemma pending_nonempty: "jobs_ok n m \<Longrightarrow> sched_jobs (scheduler m) \<noteq> []"
  by (auto simp: jobs_ok_def pending_def)

lemma pending_insert:
  "map (\<lambda>(t, f, p). (t, f)) (tq_insert t (f, p) q) = tq_insert t f (map (\<lambda>(t, f, p). (t, f)) q)"
  by (induction q) auto

lemma pending_remove:
  "list_all (\<lambda>(t, f, p). p = 0 \<and> - MAX_LATE \<le> t) q \<Longrightarrow>
     map (\<lambda>(t, f, p). (t, f)) (tq_remove (f, 0) q) = tq_remove f (map (\<lambda>(t, f, p). (t, f)) q)"
  by (induction q) auto

lemma list_all_tq_insert: "list_all P (tq_insert t x q) \<longleftrightarrow> P (t, x) \<and> list_all P q"
  by (induction q) auto

lemma list_all_tq_remove: "list_all P q \<Longrightarrow> list_all P (tq_remove x q)"
  by (induction q) auto

lemma length_tq_remove: "length (tq_remove x q) \<le> length q"
  by (induction q) auto

lemma tq_remove_other: "x \<noteq> y \<Longrightarrow> y \<in> snd ` set q \<Longrightarrow> y \<in> snd ` set (tq_remove x q)"
  by (induction q) auto

lemma jobs_ok_mono: "jobs_ok n m \<Longrightarrow> k \<le> n \<Longrightarrow> jobs_ok k m"
  by (simp add: jobs_ok_def)

lemma jobs_addable:
  assumes "jobs_ok n m" and "0 \<le> t" and "t \<le> 0x40000000"
  shows "tq_addable t (sched_jobs (scheduler m))"
proof -
  from pending_nonempty[OF assms(1)] obtain y q where q: "sched_jobs (scheduler m) = y # q"
    by (cases "sched_jobs (scheduler m)") auto
  with assms show ?thesis by (auto simp: tq_addable_def jobs_ok_def)
qed

lemma SCHED_ADD_ok:
  assumes ok: "jobs_ok (Suc n) m" and t: "0 \<le> t" "t \<le> 0x40000000"
  shows "\<exists>s. SCHED_ADD f t m = Inr (m\<lparr>scheduler := s\<rparr>) \<and> jobs_ok n (m\<lparr>scheduler := s\<rparr>)
     \<and> pending (m\<lparr>scheduler := s\<rparr>) = tq_insert t f (pending m)"
proof -
  let ?q = "scheduler m"
  from ok have wf: "sched_wf ?q" "0 < sched_room ?q" by (simp_all add: jobs_ok_def)
  from sq.add_law[OF wf jobs_addable[OF ok t], of "(f, 0)"] obtain s where
    s: "sched_add f 0 t ?q = Inr s" "sched_jobs s = tq_insert t (f, 0) (sched_jobs ?q)"
      "sched_wf s" "Suc (sched_room s) = sched_room ?q" by auto
  have pend: "pending (m\<lparr>scheduler := s\<rparr>) = tq_insert t f (pending m)"
    by (simp add: pending_def s(2) pending_insert)
  moreover have "jobs_ok n (m\<lparr>scheduler := s\<rparr>)"
    unfolding jobs_ok_def pend using ok t s by (simp add: jobs_ok_def list_all_tq_insert set_tq_insert)
  ultimately show ?thesis using s(1) by (intro exI[of _ s]) (simp add: SCHED_ADD_def)
qed

lemma SCHED_FIND_REMOVE_ok:
  assumes ok: "jobs_ok n m" and "f \<noteq> Guard"
  shows "jobs_ok n (SCHED_FIND_REMOVE f m)"
    and "pending (SCHED_FIND_REMOVE f m) = tq_remove f (pending m)"
proof -
  let ?q = "scheduler m"
  from ok have "sched_wf ?q" by (simp add: jobs_ok_def)
  from sq.remove_law[OF this, of "(f, 0)"] have s:
    "sched_jobs (sched_find_remove f 0 ?q) = tq_remove (f, 0) (sched_jobs ?q)"
    "sched_wf (sched_find_remove f 0 ?q)"
    "sched_room (sched_find_remove f 0 ?q) + length (tq_remove (f, 0) (sched_jobs ?q))
       = sched_room ?q + length (sched_jobs ?q)" by auto
  have "length (tq_remove (f, 0) (sched_jobs ?q)) \<le> length (sched_jobs ?q)"
    by (rule length_tq_remove)
  with s(3) have room: "sched_room ?q \<le> sched_room (sched_find_remove f 0 ?q)" by linarith
  show pend: "pending (SCHED_FIND_REMOVE f m) = tq_remove f (pending m)"
    using ok by (simp add: pending_def SCHED_FIND_REMOVE_def s(1) pending_remove jobs_ok_def)
  show "jobs_ok n (SCHED_FIND_REMOVE f m)"
    unfolding jobs_ok_def pend using ok assms(2) s(1,2) room
    by (simp add: jobs_ok_def SCHED_FIND_REMOVE_def list_all_tq_remove tq_remove_other)
qed

lemma SCHED_FIND_REMOVE_frame [simp, frame_simps]:
  "spr r (SCHED_FIND_REMOVE f m) = spr r m"
  "tick_counting (SCHED_FIND_REMOVE f m) = tick_counting m"
  "cycle_count_at_tick_start (SCHED_FIND_REMOVE f m) = cycle_count_at_tick_start m"
  "cpu (SCHED_FIND_REMOVE f m) = cpu m"
  "rt (SCHED_FIND_REMOVE f m) = rt m"
  by (simp_all add: SCHED_FIND_REMOVE_def)

lemma pending_hd:
  assumes "jobs_ok n m"
  shows "fst (hd (pending m)) = time (hd (job_queue (scheduler m)))" and "job_queue (scheduler m) \<noteq> []"
    and "- MAX_LATE \<le> fst (hd (pending m))" and "pending m \<noteq> []"
proof -
  from pending_nonempty[OF assms] obtain e r where q: "job_queue (scheduler m) = e # r"
    by (cases "job_queue (scheduler m)") (auto simp: sched_jobs_def)
  then show "fst (hd (pending m)) = time (hd (job_queue (scheduler m)))"
    and "job_queue (scheduler m) \<noteq> []" and "pending m \<noteq> []"
    by (simp_all add: pending_def sched_jobs_def)
  show "- MAX_LATE \<le> fst (hd (pending m))"
    using assms q by (simp add: jobs_ok_def pending_def sched_jobs_def)
qed

lemma SCHED_NEXT_INSN_ok:
  assumes ok: "jobs_ok (Suc n) m"
  shows "\<exists>s. SCHED_NEXT_INSN f m = Inr (m\<lparr>scheduler := s\<rparr>) \<and> jobs_ok n (m\<lparr>scheduler := s\<rparr>)
     \<and> pending (m\<lparr>scheduler := s\<rparr>) = tq_insert (1 + max 0 (- fst (hd (pending m)))) f (pending m)"
proof -
  let ?t = "1 + max 0 (- fst (hd (pending m)))"
  have wf: "tq_wf (sched_abs 0 (job_queue (scheduler m)))"
    using ok by (simp add: jobs_ok_def sched_wf_def sched_jobs_def)
  have "overdue_cycles 1 (job_queue (scheduler m)) = ?t"
    using overdue_cycles_wf[OF wf pending_hd(2)[OF ok]] pending_hd(1,3)[OF ok] by simp
  then have "SCHED_NEXT_INSN f m = SCHED_ADD f ?t m"
    by (simp add: SCHED_NEXT_INSN_def SCHED_ADD_def sched_next_insn_def)
  moreover have "0 \<le> ?t" and "?t \<le> 0x40000000" using pending_hd(3)[OF ok] by simp_all
  ultimately show ?thesis using SCHED_ADD_ok[OF ok, of ?t f] by simp
qed

text \<open>How often a job is queued.\<close>

definition queued :: "job \<Rightarrow> (int \<times> job) list \<Rightarrow> nat" where
  "queued f q = count (mset (map snd q)) f"

lemma queued_insert [simp]: "queued f (tq_insert t g q) = (if f = g then Suc (queued f q) else queued f q)"
  by (induction q) (auto simp: queued_def)

lemma queued_remove [simp]:
  "queued f (tq_remove g q) = (if f = g then queued f q - 1 else queued f q)"
proof (induction q)
  case (Cons y q)
  show ?case
  proof (cases "snd y = g")
    case False
    moreover have "queued f (y # q') = (if f = snd y then Suc (queued f q') else queued f q')" for q'
      by (simp add: queued_def)
    ultimately show ?thesis using Cons by auto
  qed (simp add: queued_def)
qed (simp add: queued_def)

text \<open>Register writes do not touch the queue.\<close>

lemma pending_frame [simp, frame_simps]:
  "pending (set_spr r v m) = pending m" "pending (spr_or r v m) = pending m"
  "pending (spr_clear r v m) = pending m" "pending (m\<lparr>conf := c\<rparr>) = pending m"
  "pending (m\<lparr>tick_counting := w\<rparr>) = pending m" "pending (m\<lparr>cycle_count_at_tick_start := k\<rparr>) = pending m"
  by (simp_all add: pending_def)

lemma jobs_ok_frame [simp, frame_simps]:
  "jobs_ok n (set_spr r v m) = jobs_ok n m" "jobs_ok n (spr_or r v m) = jobs_ok n m"
  "jobs_ok n (spr_clear r v m) = jobs_ok n m" "jobs_ok n (m\<lparr>conf := c\<rparr>) = jobs_ok n m"
  "jobs_ok n (m\<lparr>tick_counting := w\<rparr>) = jobs_ok n m"
  "jobs_ok n (m\<lparr>cycle_count_at_tick_start := k\<rparr>) = jobs_ok n m"
  by (simp_all add: jobs_ok_def)

end
