(* ===== verification/Units.thy ===== *)
theory Units
  imports Jobs Except
begin

text \<open>
  The interrupt controller (\<open>pic/pic.c\<close>), the performance counters (\<open>pcu/pcu.c\<close>) and power management
  (\<open>pm/pm.c\<close>), with their configuration functions (the \<open>int\<close> of a \<open>union param_val\<close> is an argument).
\<close>

section \<open>Interrupt controller\<close>

definition pic_reset :: "machine \<Rightarrow> machine" where
  "pic_reset m =
     set_spr SPR_PICSR 0 (set_spr SPR_PICMR (if cfg_pic_use_nmi (conf m) then 3 else 0) m)"

definition pic_rep_int :: "machine \<Rightarrow> machine" where
  "pic_rep_int m =
     (if spr SPR_PICSR m \<noteq> 0 then except_handle EXCEPT_INT (spr SPR_EEAR_BASE m) m else m)"

definition pic_ints_en :: "machine \<Rightarrow> machine res" where
  "pic_ints_en m =
     (if spr SPR_PICMR m AND spr SPR_PICSR m \<noteq> 0 then SCHED_ADD Pic_rep_int 0 m else Inr m)"

text \<open>\<open>1 << line\<close> is undefined for a line outside the width of \<open>int\<close>.\<close>

definition report_interrupt :: "int \<Rightarrow> machine \<Rightarrow> machine res" where
  "report_interrupt line m =
     (if line < 0 \<or> 32 \<le> line then Inl Host_undef
      else
        let lmask = push_bit (nat line) 1;
            m = spr_clear SPR_PMR (SPR_PMR_DME OR SPR_PMR_SME) m
        in if \<not> cfg_pic_enabled (conf m)
           then Inr (if has (spr SPR_SR m) SPR_SR_IEE
                     then except_handle EXCEPT_INT (spr SPR_EEAR_BASE m) m else m)
           else if has (spr SPR_PICSR m) lmask then Inr m
           else
             let m = spr_or SPR_PICSR lmask m
             in if has (spr SPR_PICMR m) lmask \<and> has (spr SPR_SR m) SPR_SR_IEE
                then SCHED_ADD Pic_rep_int 0 m
                else Inr m)"

definition clear_interrupt :: "int \<Rightarrow> machine \<Rightarrow> machine res" where
  "clear_interrupt line m =
     (if line < 0 \<or> 32 \<le> line then Inl Host_undef
      else Inr (spr_clear SPR_PICSR (push_bit (nat line) 1) m))"

definition pic_enabled :: "int \<Rightarrow> machine \<Rightarrow> machine" where
  "pic_enabled val m =
     (let m = (if val \<noteq> 0 then spr_or SPR_UPR SPR_UPR_PICP m else spr_clear SPR_UPR SPR_UPR_PICP m)
      in m\<lparr>conf := (conf m)\<lparr>cfg_pic_enabled := val \<noteq> 0\<rparr>\<rparr>)"

definition pic_edge_trigger :: "int \<Rightarrow> machine \<Rightarrow> machine" where
  "pic_edge_trigger val m = m\<lparr>conf := (conf m)\<lparr>cfg_pic_edge_trigger := val \<noteq> 0\<rparr>\<rparr>"

definition pic_use_nmi :: "int \<Rightarrow> machine \<Rightarrow> machine" where
  "pic_use_nmi val m = m\<lparr>conf := (conf m)\<lparr>cfg_pic_use_nmi := val \<noteq> 0\<rparr>\<rparr>"

section \<open>Performance counters\<close>

text \<open>The condition under which counter \<open>i\<close> counts an event.\<close>

definition pcu_counts :: "u32 \<Rightarrow> machine \<Rightarrow> nat \<Rightarrow> bool" where
  "pcu_counts event m i \<longleftrightarrow>
     event AND spr (SPR_PCMR i) m \<noteq> 0
     \<and> (has (spr (SPR_PCMR i) m) SPR_PCMR_CISM \<and> has (spr SPR_SR m) SPR_SR_SM
        \<or> has (spr (SPR_PCMR i) m) SPR_PCMR_CIUM \<and> \<not> has (spr SPR_SR m) SPR_SR_SM)"

definition pcu_count_event :: "u32 \<Rightarrow> machine \<Rightarrow> machine" where
  "pcu_count_event event m =
     fold (\<lambda>i m. if pcu_counts event m i then set_spr (SPR_PCCR i) (spr (SPR_PCCR i) m + 1) m else m)
       [0..<8] m"

definition pcu_enabled :: "int \<Rightarrow> machine \<Rightarrow> machine" where
  "pcu_enabled val m =
     (let m = (if val \<noteq> 0
               then fold (\<lambda>i. set_spr (SPR_PCMR i) SPR_PCMR_CP) [0..<8] (spr_or SPR_UPR SPR_UPR_PCUP m)
               else spr_clear SPR_UPR SPR_UPR_PCUP m)
      in m\<lparr>conf := (conf m)\<lparr>cfg_pcu_enabled := val \<noteq> 0\<rparr>\<rparr>)"

section \<open>Power management\<close>

definition pm_reset :: "machine \<Rightarrow> machine" where
  "pm_reset m = set_spr SPR_PMR 0 m"

definition pm_enabled :: "int \<Rightarrow> machine \<Rightarrow> machine" where
  "pm_enabled val m =
     (let m = (if val \<noteq> 0 then spr_or SPR_UPR SPR_UPR_PMP m else spr_clear SPR_UPR SPR_UPR_PMP m)
      in m\<lparr>conf := (conf m)\<lparr>cfg_pm_enabled := word_of_int val\<rparr>\<rparr>)"

section \<open>Counting an event\<close>

lemma pcu_count_event_upto:
  fixes event :: u32
  assumes "n \<le> 8"
  defines "step \<equiv> \<lambda>i m. if pcu_counts event m i then set_spr (SPR_PCCR i) (spr (SPR_PCCR i) m + 1) m else m"
  shows "\<exists>f. fold step [0..<n] m = m\<lparr>cpu := (cpu m)\<lparr>sprs := f\<rparr>\<rparr>
     \<and> (\<forall>r. f r = (if \<exists>i<n. r = SPR_PCCR i \<and> pcu_counts event m i
                   then spr r m + 1 else spr r m))"
  using assms(1)
proof (induction n)
  case 0
  have "m = m\<lparr>cpu := (cpu m)\<lparr>sprs := \<lambda>r. spr r m\<rparr>\<rparr>" by (simp add: spr_def del: sprs_cpu)
  then show ?case by (intro exI[of _ "\<lambda>r. spr r m"]) simp
next
  case (Suc n)
  then obtain f where f: "fold step [0..<n] m = m\<lparr>cpu := (cpu m)\<lparr>sprs := f\<rparr>\<rparr>"
    "\<And>r. f r = (if \<exists>i<n. r = SPR_PCCR i \<and> pcu_counts event m i
                  then spr r m + 1 else spr r m)" by auto
  have counts: "pcu_counts event (m\<lparr>cpu := (cpu m)\<lparr>sprs := f\<rparr>\<rparr>) n = pcu_counts event m n"
    using Suc.prems by (simp add: pcu_counts_def f(2))
  have "fold step [0..<Suc n] m = step n (m\<lparr>cpu := (cpu m)\<lparr>sprs := f\<rparr>\<rparr>)" using f(1) by simp
  also have "\<dots> = m\<lparr>cpu := (cpu m)\<lparr>sprs := if pcu_counts event m n then f(SPR_PCCR n := f (SPR_PCCR n) + 1) else f\<rparr>\<rparr>"
    by (simp add: step_def counts set_spr_def)
  finally show ?case
    by (rule_tac exI[of _ "if pcu_counts event m n then f(SPR_PCCR n := f (SPR_PCCR n) + 1) else f"])
      (auto simp: f(2) less_Suc_eq)
qed

lemma pcu_count_event_sprs:
  "spr r (pcu_count_event event m) =
     (if \<exists>i<8. r = SPR_PCCR i \<and> pcu_counts event m i
      then spr r m + 1 else spr r m)"
proof -
  obtain f where "pcu_count_event event m = m\<lparr>cpu := (cpu m)\<lparr>sprs := f\<rparr>\<rparr>"
    "f r = (if \<exists>i<8. r = SPR_PCCR i \<and> pcu_counts event m i
            then spr r m + 1 else spr r m)"
    using pcu_count_event_upto[of 8 event m] unfolding pcu_count_event_def by blast
  then show ?thesis by simp
qed

lemma pcu_count_event_only_sprs:
  "\<exists>f. pcu_count_event event m = m\<lparr>cpu := (cpu m)\<lparr>sprs := f\<rparr>\<rparr>"
  using pcu_count_event_upto[of 8 event m] unfolding pcu_count_event_def by blast

lemma pcu_count_event_frame [simp, frame_simps]:
  "except_pending (pcu_count_event ev m) = except_pending m"
  "conf (pcu_count_event ev m) = conf m"
  "mem (pcu_count_event ev m) = mem m"
  "rt (pcu_count_event ev m) = rt m"
  "dc (pcu_count_event ev m) = dc m"
  "ic_state (pcu_count_event ev m) = ic_state m"
  "immu_state (pcu_count_event ev m) = immu_state m"
  "dmmu_state (pcu_count_event ev m) = dmmu_state m"
  "scheduler (pcu_count_event ev m) = scheduler m"
  "pcnext (pcu_count_event ev m) = pcnext m"
  "in_reset (pcu_count_event ev m) = in_reset m"
  "reg (cpu (pcu_count_event ev m)) = reg (cpu m)"
  "pc (cpu (pcu_count_event ev m)) = pc (cpu m)"
  "delay_insn (cpu (pcu_count_event ev m)) = delay_insn (cpu m)"
  by (rule exE[OF pcu_count_event_only_sprs[of ev m]]; simp)+

section \<open>Delivering interrupts\<close>

lemma report_interrupt_pending:
  assumes "0 \<le> line" and "line < 32" and "cfg_pic_enabled (conf m)"
    and "has (spr SPR_PICSR m) (push_bit (nat line) 1)"
  shows "report_interrupt line m = Inr (spr_clear SPR_PMR (SPR_PMR_DME OR SPR_PMR_SME) m)"
  using assms by (simp add: report_interrupt_def Let_def)

lemma report_interrupt_schedules:
  assumes ok: "jobs_ok (Suc n) m" and line: "0 \<le> line" "line < 32" and pic: "cfg_pic_enabled (conf m)"
    and new: "\<not> has (spr SPR_PICSR m) (push_bit (nat line) 1)"
    and enabled: "has (spr SPR_PICMR m) (push_bit (nat line) 1)" "has (spr SPR_SR m) SPR_SR_IEE"
  shows "\<exists>m'. report_interrupt line m = Inr m' \<and> spr SPR_PICSR m' = spr SPR_PICSR m OR push_bit (nat line) 1
     \<and> pending m' = tq_insert 0 Pic_rep_int (pending m) \<and> jobs_ok n m'"
proof -
  let ?m = "spr_or SPR_PICSR (push_bit (nat line) 1) (spr_clear SPR_PMR (SPR_PMR_DME OR SPR_PMR_SME) m)"
  have pend: "pending ?m = pending m" and "jobs_ok (Suc n) ?m" using ok by simp_all
  from SCHED_ADD_ok[OF this(2), of 0 Pic_rep_int] obtain s where
    s: "SCHED_ADD Pic_rep_int 0 ?m = Inr (?m\<lparr>scheduler := s\<rparr>)" "jobs_ok n (?m\<lparr>scheduler := s\<rparr>)"
      "pending (?m\<lparr>scheduler := s\<rparr>) = tq_insert 0 Pic_rep_int (pending m)"
    unfolding pend by auto
  have "report_interrupt line m = SCHED_ADD Pic_rep_int 0 ?m"
    using line pic new enabled by (simp add: report_interrupt_def Let_def)
  with s show ?thesis by simp
qed

text \<open>Two deliveries in a row: the second one loses the interrupted address.\<close>

lemma pic_rep_int_twice:
  assumes "\<not> exception_ignored EXCEPT_INT m" and "spr SPR_PICSR m \<noteq> 0"
  shows "spr SPR_EPCR_BASE (pic_rep_int (pic_rep_int m)) = exception_vector EXCEPT_INT m"
    and "\<not> has (spr SPR_SR (pic_rep_int m)) SPR_SR_IEE"
proof -
  let ?m = "pic_rep_int m"
  have m: "?m = except_handle EXCEPT_INT (spr SPR_EEAR_BASE m) m"
    using assms(2) by (simp add: pic_rep_int_def)
  have "\<not> exception_ignored EXCEPT_INT ?m"
    using assms(1) except_handle_sprs(4)[OF assms(1), of SPR_DSR "spr SPR_EEAR_BASE m"]
    by (simp add: m exception_ignored_def)
  moreover have "spr SPR_PICSR ?m \<noteq> 0"
    using assms(2) except_handle_sprs(4)[OF assms(1), of SPR_PICSR "spr SPR_EEAR_BASE m"] by (simp add: m)
  ultimately show "spr SPR_EPCR_BASE (pic_rep_int ?m) = exception_vector EXCEPT_INT m"
    using except_handle_async(3)[of EXCEPT_INT ?m "spr SPR_EEAR_BASE ?m"]
      except_handle_async(1)[OF assms(1), of "spr SPR_EEAR_BASE m"] except_handle_flags(2)[OF assms(1), of "spr SPR_EEAR_BASE m"]
    by (simp add: pic_rep_int_def[of ?m]) (simp add: m)
  show "\<not> has (spr SPR_SR ?m) SPR_SR_IEE"
    using except_handle_sprs(3)[OF assms(1), of "spr SPR_EEAR_BASE m"] handler_sr_flags(2) by (simp add: m)
qed

section \<open>Properties\<close>

text \<open>A machine with the interrupt controller on, line 3 unmasked and interrupts enabled.\<close>

definition pic_machine :: machine where
  "pic_machine = (with_sprs [(SPR_SR, SPR_SR_IEE), (SPR_PICMR, 8), (SPR_PMR, 0x30)] (zero_machine 5))
     \<lparr>conf := zero_config\<lparr>cfg_pic_enabled := True\<rparr>\<rparr>"

lemma pic_machine_ok: "jobs_ok (Suc 4) pic_machine"
  by (simp add: pic_machine_def jobs_ok_def pending_def sched_wf_def sched_jobs_def tq_wf_def in_int32_def
      sched_room_def free_entry_def)

text \<open>
  A new interrupt on an unmasked line, with interrupts enabled, is recorded in PICSR and its
  delivery is queued ahead of every job due from now on; all other pending jobs stay.
\<close>

theorem interrupt_is_scheduled:
  assumes "jobs_ok (Suc n) m" and "0 \<le> line" and "line < 32" and "cfg_pic_enabled (conf m)"
    and "\<not> has (spr SPR_PICSR m) (push_bit (nat line) 1)"
    and "has (spr SPR_PICMR m) (push_bit (nat line) 1)" and "has (spr SPR_SR m) SPR_SR_IEE"
  shows "\<exists>m'. report_interrupt line m = Inr m' \<and> spr SPR_PICSR m' = spr SPR_PICSR m OR push_bit (nat line) 1
     \<and> pending m' = tq_insert 0 Pic_rep_int (pending m) \<and> jobs_ok n m'"
  using assms by (rule report_interrupt_schedules)

lemma interrupt_is_scheduled_witness:
  "\<exists>m'. report_interrupt 3 pic_machine = Inr m' \<and> spr SPR_PICSR m' = 8
     \<and> pending m' = [(0, Pic_rep_int), (SCHED_TIME_MAX, Guard)]"
  using interrupt_is_scheduled[OF pic_machine_ok, of 3]
  by (auto simp: pic_machine_def has_def pending_def sched_jobs_def free_entry_def)

text \<open>
  Two queued deliveries (two lines reported in the same cycle) are both taken although the first
  one switched interrupts off; the second overwrites EPCR with the address of the handler, so the
  interrupted program cannot be resumed. \<open>pic_rep_int\<close> does not look at SR[IEE] or PICMR.
\<close>

theorem second_interrupt_loses_return_address:
  assumes "\<not> exception_ignored EXCEPT_INT m" and "spr SPR_PICSR m \<noteq> 0"
  shows "\<not> has (spr SPR_SR (pic_rep_int m)) SPR_SR_IEE
     \<and> spr SPR_EPCR_BASE (pic_rep_int (pic_rep_int m)) = exception_vector EXCEPT_INT m"
  using pic_rep_int_twice[OF assms] by simp

lemma second_interrupt_loses_return_address_witness:
  "spr SPR_EPCR_BASE (pic_rep_int (pic_rep_int (with_sprs [(SPR_PICSR, 1)] (zero_machine 5)))) = EXCEPT_INT"
  using second_interrupt_loses_return_address[of "with_sprs [(SPR_PICSR, 1)] (zero_machine 5)"]
  by (simp add: exception_ignored_def exception_vector_def has_def)

text \<open>
  an event increments, modulo \<open>2 ^ 32\<close>, exactly the performance counters whose mode register
  selects the event in the current privilege mode, each once, and changes no other register.
\<close>

theorem event_counted_once:
  "spr r (pcu_count_event event m) =
     (if \<exists>i<8. r = SPR_PCCR i \<and> pcu_counts event m i then spr r m + 1 else spr r m)"
  by (rule pcu_count_event_sprs)

end
