(* ===== verification/Mem.thy ===== *)
theory Mem
  imports Except
begin

text \<open>
  The memory map (\<open>cpu/common/abstract.c\<close>: registration and lookup of areas, the CPU's physical accesses
  \<open>evalsim_mem*\<close> and \<open>setsim_mem*\<close>) and the RAM peripheral (\<open>peripheral/memory.c\<close>). A pointer to an
  area is its index in \<open>dev_list\<close>, a block of host memory an entry of \<open>rams\<close>; the host is little endian
  and an access outside a block is \<open>Inl Host_undef\<close>. Access logs are left out.
\<close>

section \<open>Registering areas\<close>

text \<open>The loop of \<open>bit_mask\<close>; a shift by 32 or more is undefined.\<close>

function bit_mask_loop :: "u32 \<Rightarrow> nat \<Rightarrow> u32 res" where
  "bit_mask_loop data i =
     (if 32 \<le> i then Inl Host_undef
      else if drop_bit i data = 0 then Inr data
      else bit_mask_loop (data OR push_bit i 1) (Suc i))"
  by pat_completeness auto
termination by (relation "measure (\<lambda>(data, i). 32 - i)") auto

declare bit_mask_loop.simps [simp del]

definition bit_mask :: "u32 \<Rightarrow> u32 res" where
  "bit_mask data = bit_mask_loop (data - 1) 0"

definition area_overlaps :: "u32 \<Rightarrow> u32 \<Rightarrow> dev_memarea \<Rightarrow> bool" where
  "area_overlaps compare sz a \<longleftrightarrow>
     (addr_compare a \<le> compare \<and> compare < addr_compare a + area_size a)
     \<or> (addr_compare a < compare + sz \<and> compare < addr_compare a + area_size a)"

text \<open>
  \<open>malloc\<close> returns memory with arbitrary contents: \<open>fresh\<close> stands for the fields that are not set
  here. The result is the pointer to the new area.
\<close>

definition register_memoryarea_mask :: "dev_memarea \<Rightarrow> u32 \<Rightarrow> u32 \<Rightarrow> u32 \<Rightarrow> bool \<Rightarrow> memory
    \<Rightarrow> (nat \<times> memory) res" where
  "register_memoryarea_mask fresh msk compare sz mc_dev mm =
     bind_res (bit_mask sz) (\<lambda>smask.
       let compare = compare AND msk
       in if list_ex (area_overlaps compare sz) (dev_list mm) then Inl Exit_failure
          else
            let ptr = length (dev_list mm);
                new = fresh\<lparr>addr_mask := msk, addr_compare := compare, area_size := sz,
                            size_mask := smask, valid := True\<rparr>;
                mm = mm\<lparr>dev_list := dev_list mm @ [new], cur_area := Some ptr\<rparr>;
                mm = (if mc_dev then mm\<lparr>mc_area := Some ptr\<rparr> else mm)
            in Inr (ptr, mm))"

text \<open>The defaults \<open>reg_mem_area\<close> gives to the functions a device does not define.\<close>

definition default_ops :: "mem_ops \<Rightarrow> mem_ops" where
  "default_ops os =
     (let os = (if readfunc32 os = None then os\<lparr>readfunc32 := Some Read_inv\<rparr> else os);
          os = (if readfunc16 os = None then os\<lparr>readfunc16 := Some Read_inv\<rparr> else os);
          os = (if readfunc8 os = None then os\<lparr>readfunc8 := Some Read_inv\<rparr> else os);
          os = (if writefunc32 os = None then os\<lparr>writefunc32 := Some Write_inv\<rparr> else os);
          os = (if writefunc16 os = None then os\<lparr>writefunc16 := Some Write_inv\<rparr> else os);
          os = (if writefunc8 os = None then os\<lparr>writefunc8 := Some Write_inv\<rparr> else os);
          os = (if writeprog8 os = None
                 then os\<lparr>writeprog8 := writefunc8 os, writeprog8_dat := write_dat8 os\<rparr> else os)
      in if writeprog32 os = None
         then os\<lparr>writeprog32 := writefunc32 os, writeprog32_dat := write_dat32 os\<rparr> else os)"

definition default_direct_ops :: "nat \<Rightarrow> mem_ops \<Rightarrow> mem_ops" where
  "default_direct_ops ptr os =
     (let os = (if readfunc32 os = None
                 then os\<lparr>readfunc32 := Some Read_inv_direct, read_dat32 := ptr\<rparr> else os);
          os = (if readfunc16 os = None
                 then os\<lparr>readfunc16 := Some Read_inv_direct, read_dat16 := ptr\<rparr> else os);
          os = (if readfunc8 os = None
                 then os\<lparr>readfunc8 := Some Read_inv_direct, read_dat8 := ptr\<rparr> else os);
          os = (if writefunc32 os = None
                 then os\<lparr>writefunc32 := Some Write_inv_direct, write_dat32 := ptr\<rparr> else os);
          os = (if writefunc16 os = None
                 then os\<lparr>writefunc16 := Some Write_inv_direct, write_dat16 := ptr\<rparr> else os)
      in if writefunc8 os = None
         then os\<lparr>writefunc8 := Some Write_inv_direct, write_dat8 := ptr\<rparr> else os)"

definition set_area :: "nat \<Rightarrow> (dev_memarea \<Rightarrow> dev_memarea) \<Rightarrow> memory \<Rightarrow> memory" where
  "set_area ptr f mm = mm\<lparr>dev_list := (dev_list mm)[ptr := f (dev_list mm ! ptr)]\<rparr>"

definition reg_mem_area :: "dev_memarea \<Rightarrow> u32 \<Rightarrow> u32 \<Rightarrow> bool \<Rightarrow> mem_ops \<Rightarrow> memory
    \<Rightarrow> (nat \<times> memory) res" where
  "reg_mem_area fresh addr sz mc_dev mops mm =
     bind_res (bit_mask sz) (\<lambda>smask.
       let amask = NOT smask
       in bind_res (register_memoryarea_mask fresh amask (addr AND amask) (smask + 1) mc_dev mm)
            (\<lambda>(ptr, mm).
              Inr (ptr, set_area ptr (\<lambda>a. a\<lparr>ops := default_ops mops,
                                            direct_ops := default_direct_ops ptr mops\<rparr>) mm)))"

definition set_mem_valid :: "nat \<Rightarrow> bool \<Rightarrow> memory \<Rightarrow> memory" where
  "set_mem_valid ptr v mm = set_area ptr (\<lambda>a. a\<lparr>valid := v\<rparr>) mm"

definition adjust_rw_delay :: "nat \<Rightarrow> u32 \<Rightarrow> u32 \<Rightarrow> memory \<Rightarrow> memory" where
  "adjust_rw_delay ptr dr dw mm = set_area ptr (\<lambda>a. a\<lparr>ops := (ops a)\<lparr>delayr := dr, delayw := dw\<rparr>\<rparr>) mm"

section \<open>Looking an address up\<close>

definition area_matches :: "u32 \<Rightarrow> dev_memarea \<Rightarrow> bool" where
  "area_matches addr a \<longleftrightarrow> addr AND addr_mask a = addr_compare a AND addr_mask a"

fun find_area :: "u32 \<Rightarrow> dev_memarea list \<Rightarrow> nat \<Rightarrow> nat option" where
  "find_area addr [] i = None"
| "find_area addr (a # as) i =
     (if area_matches addr a \<and> valid a then Some i else find_area addr as (Suc i))"

definition points_to :: "u32 \<Rightarrow> memory \<Rightarrow> nat option \<Rightarrow> bool" where
  "points_to addr mm p = (case p of None \<Rightarrow> False | Some i \<Rightarrow> area_matches addr (dev_list mm ! i))"

text \<open>The memory controller first, then the area of the last access, then the list.\<close>

definition verify_memoryarea :: "u32 \<Rightarrow> memory \<Rightarrow> nat option \<times> memory" where
  "verify_memoryarea addr mm =
     (let r = (if points_to addr mm (mc_area mm) then mc_area mm
               else if points_to addr mm (cur_area mm) then cur_area mm
               else find_area addr (dev_list mm) 0)
      in (r, mm\<lparr>cur_area := r\<rparr>))"

section \<open>RAM\<close>

text \<open>Host memory, little endian.\<close>

definition host_read16 :: "(nat \<Rightarrow> u8) \<Rightarrow> nat \<Rightarrow> u16" where
  "host_read16 f a = ucast (f a) OR push_bit 8 (ucast (f (a + 1)))"

definition host_read32 :: "(nat \<Rightarrow> u8) \<Rightarrow> nat \<Rightarrow> u32" where
  "host_read32 f a = ucast (f a) OR push_bit 8 (ucast (f (a + 1)))
     OR push_bit 16 (ucast (f (a + 2))) OR push_bit 24 (ucast (f (a + 3)))"

definition host_write16 :: "nat \<Rightarrow> u16 \<Rightarrow> (nat \<Rightarrow> u8) \<Rightarrow> nat \<Rightarrow> u8" where
  "host_write16 a v f = f(a := ucast v, a + 1 := ucast (drop_bit 8 v))"

definition host_write32 :: "nat \<Rightarrow> u32 \<Rightarrow> (nat \<Rightarrow> u8) \<Rightarrow> nat \<Rightarrow> u8" where
  "host_write32 a v f = f(a := ucast v, a + 1 := ucast (drop_bit 8 v),
     a + 2 := ucast (drop_bit 16 v), a + 3 := ucast (drop_bit 24 v))"

text \<open>An access of \<open>n\<close> bytes at \<open>dat + addr\<close>.\<close>

definition ram_access :: "nat \<Rightarrow> nat \<Rightarrow> nat \<Rightarrow> memory \<Rightarrow> (nat \<Rightarrow> u8) res" where
  "ram_access dat addr n mm =
     (case rams mm dat of
        None \<Rightarrow> Inl Host_undef
      | Some r \<Rightarrow> if addr + n \<le> ram_size r then Inr (ram_bytes r) else Inl Host_undef)"

definition ram_update :: "nat \<Rightarrow> (nat \<Rightarrow> u8) \<Rightarrow> memory \<Rightarrow> memory" where
  "ram_update dat f mm =
     mm\<lparr>rams := (rams mm)(dat := map_option (\<lambda>r. r\<lparr>ram_bytes := f\<rparr>) (rams mm dat))\<rparr>"

text \<open>The host offset of a byte: \<open>(addr & ~3) | (3 - (addr & 3))\<close>.\<close>

definition byte_lane :: "u32 \<Rightarrow> nat" where
  "byte_lane addr = unat ((addr AND NOT 3) OR (3 - (addr AND 3)))"

definition simmem_read32 :: "u32 \<Rightarrow> nat \<Rightarrow> memory \<Rightarrow> u32 res" where
  "simmem_read32 addr dat mm =
     bind_res (ram_access dat (unat addr) 4 mm) (\<lambda>f. Inr (host_read32 f (unat addr)))"

definition simmem_read16 :: "u32 \<Rightarrow> nat \<Rightarrow> memory \<Rightarrow> u16 res" where
  "simmem_read16 addr dat mm =
     bind_res (ram_access dat (unat (addr XOR 2)) 2 mm) (\<lambda>f. Inr (host_read16 f (unat (addr XOR 2))))"

definition simmem_read8 :: "u32 \<Rightarrow> nat \<Rightarrow> memory \<Rightarrow> u8 res" where
  "simmem_read8 addr dat mm =
     bind_res (ram_access dat (byte_lane addr) 1 mm) (\<lambda>f. Inr (f (byte_lane addr)))"

definition simmem_write32 :: "u32 \<Rightarrow> u32 \<Rightarrow> nat \<Rightarrow> memory \<Rightarrow> memory res" where
  "simmem_write32 addr v dat mm =
     bind_res (ram_access dat (unat addr) 4 mm)
       (\<lambda>f. Inr (ram_update dat (host_write32 (unat addr) v f) mm))"

definition simmem_write16 :: "u32 \<Rightarrow> u16 \<Rightarrow> nat \<Rightarrow> memory \<Rightarrow> memory res" where
  "simmem_write16 addr v dat mm =
     bind_res (ram_access dat (unat (addr XOR 2)) 2 mm)
       (\<lambda>f. Inr (ram_update dat (host_write16 (unat (addr XOR 2)) v f) mm))"

definition simmem_write8 :: "u32 \<Rightarrow> u8 \<Rightarrow> nat \<Rightarrow> memory \<Rightarrow> memory res" where
  "simmem_write8 addr v dat mm =
     bind_res (ram_access dat (byte_lane addr) 1 mm)
       (\<lambda>f. Inr (ram_update dat (f(byte_lane addr := v)) mm))"

section \<open>Calling a device\<close>

definition set_mem :: "memory \<Rightarrow> machine \<Rightarrow> machine" where
  "set_mem mm m = m\<lparr>mem := mm\<rparr>"

text \<open>
  A call through one of the function pointers: RAM, the functions of an area without delay that read
  as zero and ignore writes, \<open>eval_mem_*_inv\<close> and \<open>set_mem_*_inv\<close> (a bus error at \<open>cur_vadd\<close>), and their
  \<open>_direct\<close> variants, which only print.
\<close>

definition call_read :: "(u32 \<Rightarrow> nat \<Rightarrow> memory \<Rightarrow> 'a::zero res) \<Rightarrow> read_fun option \<Rightarrow> u32 \<Rightarrow> nat
    \<Rightarrow> machine \<Rightarrow> ('a \<times> machine) res" where
  "call_read simmem f addr dat m =
     (case f of
        None \<Rightarrow> Inl Null_deref
      | Some Simmem_read \<Rightarrow> bind_res (simmem addr dat (mem m)) (\<lambda>v. Inr (v, m))
      | Some Simmem_read_zero \<Rightarrow> Inr (0, m)
      | Some Read_inv \<Rightarrow> Inr (0, except_handle EXCEPT_BUSERR (cur_vadd (mem m)) m)
      | Some Read_inv_direct \<Rightarrow> Inr (0, m))"

definition call_write :: "(u32 \<Rightarrow> 'a \<Rightarrow> nat \<Rightarrow> memory \<Rightarrow> memory res) \<Rightarrow> write_fun option \<Rightarrow> u32 \<Rightarrow> 'a \<Rightarrow> nat
    \<Rightarrow> machine \<Rightarrow> machine res" where
  "call_write simmem f addr v dat m =
     (case f of
        None \<Rightarrow> Inl Null_deref
      | Some Simmem_write \<Rightarrow> bind_res (simmem addr v dat (mem m)) (\<lambda>mm. Inr (set_mem mm m))
      | Some Simmem_write_null \<Rightarrow> Inr m
      | Some Write_inv \<Rightarrow> Inr (except_handle EXCEPT_BUSERR (cur_vadd (mem m)) m)
      | Some Write_inv_direct \<Rightarrow> Inr m)"

section \<open>Physical accesses of the CPU\<close>

definition evalsim_mem32 :: "u32 \<Rightarrow> u32 \<Rightarrow> machine \<Rightarrow> (u32 \<times> machine) res" where
  "evalsim_mem32 memaddr vaddr m =
     (case verify_memoryarea memaddr (mem m) of
        (Some i, mm) \<Rightarrow>
          let a = dev_list mm ! i;
              m = add_mem_cycles (delayr (ops a)) (set_mem mm m)
          in call_read simmem_read32 (readfunc32 (ops a)) (memaddr AND size_mask a) (read_dat32 (ops a)) m
      | (None, mm) \<Rightarrow> Inr (0, except_handle EXCEPT_BUSERR vaddr (set_mem mm m)))"

definition evalsim_mem16 :: "u32 \<Rightarrow> u32 \<Rightarrow> machine \<Rightarrow> (u16 \<times> machine) res" where
  "evalsim_mem16 memaddr vaddr m =
     (case verify_memoryarea memaddr (mem m) of
        (Some i, mm) \<Rightarrow>
          let a = dev_list mm ! i;
              m = add_mem_cycles (delayr (ops a)) (set_mem mm m)
          in call_read simmem_read16 (readfunc16 (ops a)) (memaddr AND size_mask a) (read_dat16 (ops a)) m
      | (None, mm) \<Rightarrow> Inr (0, except_handle EXCEPT_BUSERR vaddr (set_mem mm m)))"

definition evalsim_mem8 :: "u32 \<Rightarrow> u32 \<Rightarrow> machine \<Rightarrow> (u8 \<times> machine) res" where
  "evalsim_mem8 memaddr vaddr m =
     (case verify_memoryarea memaddr (mem m) of
        (Some i, mm) \<Rightarrow>
          let a = dev_list mm ! i;
              m = add_mem_cycles (delayr (ops a)) (set_mem mm m)
          in call_read simmem_read8 (readfunc8 (ops a)) (memaddr AND size_mask a) (read_dat8 (ops a)) m
      | (None, mm) \<Rightarrow> Inr (0, except_handle EXCEPT_BUSERR vaddr (set_mem mm m)))"

definition setsim_mem32 :: "u32 \<Rightarrow> u32 \<Rightarrow> u32 \<Rightarrow> machine \<Rightarrow> machine res" where
  "setsim_mem32 memaddr vaddr v m =
     (case verify_memoryarea memaddr (mem m) of
        (Some i, mm) \<Rightarrow>
          let a = dev_list mm ! i;
              m = add_mem_cycles (delayw (ops a)) (set_mem (mm\<lparr>cur_vadd := vaddr\<rparr>) m)
          in call_write simmem_write32 (writefunc32 (ops a)) (memaddr AND size_mask a) v (write_dat32 (ops a)) m
      | (None, mm) \<Rightarrow> Inr (except_handle EXCEPT_BUSERR vaddr (set_mem mm m)))"

definition setsim_mem16 :: "u32 \<Rightarrow> u32 \<Rightarrow> u16 \<Rightarrow> machine \<Rightarrow> machine res" where
  "setsim_mem16 memaddr vaddr v m =
     (case verify_memoryarea memaddr (mem m) of
        (Some i, mm) \<Rightarrow>
          let a = dev_list mm ! i;
              m = add_mem_cycles (delayw (ops a)) (set_mem (mm\<lparr>cur_vadd := vaddr\<rparr>) m)
          in call_write simmem_write16 (writefunc16 (ops a)) (memaddr AND size_mask a) v (write_dat16 (ops a)) m
      | (None, mm) \<Rightarrow> Inr (except_handle EXCEPT_BUSERR vaddr (set_mem mm m)))"

definition setsim_mem8 :: "u32 \<Rightarrow> u32 \<Rightarrow> u8 \<Rightarrow> machine \<Rightarrow> machine res" where
  "setsim_mem8 memaddr vaddr v m =
     (case verify_memoryarea memaddr (mem m) of
        (Some i, mm) \<Rightarrow>
          let a = dev_list mm ! i;
              m = add_mem_cycles (delayw (ops a)) (set_mem (mm\<lparr>cur_vadd := vaddr\<rparr>) m)
          in call_write simmem_write8 (writefunc8 (ops a)) (memaddr AND size_mask a) v (write_dat8 (ops a)) m
      | (None, mm) \<Rightarrow> Inr (except_handle EXCEPT_BUSERR vaddr (set_mem mm m)))"

section \<open>The RAM peripheral\<close>

datatype mem_type = MT_UNKNOWN | MT_PATTERN | MT_RANDOM | MT_EXITNOPS

record mem_config =
  mc_ce :: int
  mc_mc :: int
  mc_baseaddr :: u32
  mc_size :: u32
  mc_delayr :: int
  mc_delayw :: int
  mc_mem :: nat
  mc_pattern :: int
  mc_random_seed :: int
  mc_type :: mem_type

text \<open>
  The contents \<open>mem_reset\<close> gives to the first \<open>size\<close> bytes. \<open>rnd seed i\<close> is the \<open>i\<close>th result of the C
  library's \<open>random()\<close>, after \<open>srandom (seed)\<close> unless \<open>seed\<close> is \<open>None\<close>.
\<close>

definition reset_byte :: "(int option \<Rightarrow> nat \<Rightarrow> int) \<Rightarrow> mem_config \<Rightarrow> nat \<Rightarrow> u8 \<Rightarrow> u8" where
  "reset_byte rnd mc i old =
     (case mc_type mc of
        MT_RANDOM \<Rightarrow> word_of_int (rnd (if mc_random_seed mc = -1 then None else Some (mc_random_seed mc)) i AND 0xff)
      | MT_PATTERN \<Rightarrow> word_of_int (mc_pattern mc)
      | MT_UNKNOWN \<Rightarrow> old
      | MT_EXITNOPS \<Rightarrow> if i mod 4 = 3 then 0x15 else if i mod 4 = 0 then 1 else 0)"

definition mem_reset :: "(int option \<Rightarrow> nat \<Rightarrow> int) \<Rightarrow> mem_config \<Rightarrow> memory \<Rightarrow> memory res" where
  "mem_reset rnd mc mm =
     (case rams mm (mc_mem mc) of
        None \<Rightarrow> Inl Host_undef
      | Some r \<Rightarrow>
          if unat (mc_size mc) \<le> ram_size r
          then Inr (ram_update (mc_mem mc)
                 (\<lambda>i. if i < unat (mc_size mc) then reset_byte rnd mc i (ram_bytes r i) else ram_bytes r i) mm)
          else Inl Host_undef)"

definition memory_random_seed :: "int \<Rightarrow> mem_config \<Rightarrow> mem_config" where
  "memory_random_seed val mc = mc\<lparr>mc_random_seed := val\<rparr>"

definition memory_pattern :: "int \<Rightarrow> mem_config \<Rightarrow> mem_config" where
  "memory_pattern val mc = mc\<lparr>mc_pattern := val AND 0xff\<rparr>"

definition memory_ce :: "int \<Rightarrow> mem_config \<Rightarrow> mem_config" where
  "memory_ce val mc = mc\<lparr>mc_ce := val\<rparr>"

definition memory_mc :: "int \<Rightarrow> mem_config \<Rightarrow> mem_config" where
  "memory_mc val mc = mc\<lparr>mc_mc := val\<rparr>"

definition memory_baseaddr :: "u32 \<Rightarrow> mem_config \<Rightarrow> mem_config" where
  "memory_baseaddr val mc = mc\<lparr>mc_baseaddr := val\<rparr>"

definition memory_size :: "int \<Rightarrow> mem_config \<Rightarrow> mem_config" where
  "memory_size val mc = mc\<lparr>mc_size := word_of_int val\<rparr>"

definition memory_delayr :: "int \<Rightarrow> mem_config \<Rightarrow> mem_config" where
  "memory_delayr val mc = mc\<lparr>mc_delayr := val\<rparr>"

definition memory_delayw :: "int \<Rightarrow> mem_config \<Rightarrow> mem_config" where
  "memory_delayw val mc = mc\<lparr>mc_delayw := val\<rparr>"

text \<open>\<open>memory_type\<close> on the names it recognises, given in lower case (\<open>strcasecmp\<close>).\<close>

definition memory_type :: "string \<Rightarrow> mem_config \<Rightarrow> mem_config" where
  "memory_type val mc =
     (if val = ''unknown'' then mc\<lparr>mc_type := MT_UNKNOWN\<rparr>
      else if val = ''random'' then mc\<lparr>mc_type := MT_RANDOM\<rparr>
      else if val = ''pattern'' then mc\<lparr>mc_type := MT_PATTERN\<rparr>
      else if val = ''zero'' then mc\<lparr>mc_type := MT_PATTERN, mc_pattern := 0\<rparr>
      else if val = ''exitnops'' then mc\<lparr>mc_type := MT_EXITNOPS, mc_pattern := 0\<rparr>
      else mc)"

definition memory_sec_start :: "mem_config \<Rightarrow> mem_config" where
  "memory_sec_start fresh =
     fresh\<lparr>mc_type := MT_UNKNOWN, mc_random_seed := -1, mc_pattern := 0, mc_baseaddr := 0,
           mc_size := 1024, mc_ce := -1, mc_mc := 0, mc_delayr := 1, mc_delayw := 1\<rparr>"

text \<open>The operations of a RAM with block \<open>p\<close>.\<close>

definition ram_ops :: "mem_config \<Rightarrow> nat \<Rightarrow> mem_ops" where
  "ram_ops mc p =
     (let rd = Some (if 0 < mc_delayr mc then Simmem_read else Simmem_read_zero);
          wr = Some (if 0 < mc_delayw mc then Simmem_write else Simmem_write_null)
      in \<lparr>readfunc32 = rd, readfunc16 = rd, readfunc8 = rd, read_dat8 = p, read_dat16 = p, read_dat32 = p,
          writefunc32 = wr, writefunc16 = wr, writefunc8 = wr, write_dat8 = p, write_dat16 = p,
          write_dat32 = p, writeprog32 = Some Simmem_write, writeprog8 = Some Simmem_write,
          writeprog32_dat = p, writeprog8_dat = p,
          delayr = word_of_int (mc_delayr mc), delayw = word_of_int (mc_delayw mc)\<rparr>)"

text \<open>
  \<open>memory_sec_end\<close>: \<open>p\<close> is the block \<open>malloc\<close> returns (\<open>None\<close> when it fails) and \<open>bytes\<close> what it
  contains. The registration with a memory controller (\<open>ce >= 0\<close>) is not modelled.
\<close>

definition memory_sec_end :: "dev_memarea \<Rightarrow> nat option \<Rightarrow> (nat \<Rightarrow> u8) \<Rightarrow> mem_config \<Rightarrow> memory
    \<Rightarrow> (mem_config \<times> memory) res" where
  "memory_sec_end fresh p bytes mc mm =
     (if mc_size mc = 0 then Inr (mc, mm)
      else
        let mc = (if mc_size mc AND 3 \<noteq> 0
                  then mc\<lparr>mc_size := (mc_size mc AND NOT 3) + 4\<rparr> else mc)
        in case p of
             None \<Rightarrow> Inl Exit_failure
           | Some p \<Rightarrow>
               let mc = mc\<lparr>mc_mem := p\<rparr>;
                   mm = mm\<lparr>rams := (rams mm)(p \<mapsto> \<lparr>ram_size = unat (mc_size mc), ram_bytes = bytes\<rparr>)\<rparr>
               in bind_res (reg_mem_area fresh (mc_baseaddr mc) (mc_size mc) False (ram_ops mc p) mm)
                    (\<lambda>(mema, mm). Inr (mc, set_mem_valid mema True mm)))"

end
