(* ===== verification/Mem_Props.thy ===== *)
theory Mem_Props
  imports Mem
begin

text \<open>
  What the memory map promises. The RAM is refined to a big endian byte memory (locale \<open>be_memory\<close>,
  interpreted on the little endian host blocks); the area list to a partition of the address space.
\<close>

section \<open>Byte order\<close>

definition be16 :: "u8 \<Rightarrow> u8 \<Rightarrow> u16" where
  "be16 b0 b1 = push_bit 8 (ucast b0) OR ucast b1"

definition be32 :: "u8 \<Rightarrow> u8 \<Rightarrow> u8 \<Rightarrow> u8 \<Rightarrow> u32" where
  "be32 b0 b1 b2 b3 = push_bit 24 (ucast b0) OR push_bit 16 (ucast b1) OR push_bit 8 (ucast b2) OR ucast b3"

text \<open>Byte \<open>k\<close> of a word, counted from the most significant one.\<close>

definition be_byte32 :: "u32 \<Rightarrow> nat \<Rightarrow> u8" where
  "be_byte32 v k = ucast (drop_bit (8 * (3 - k)) v)"

definition be_byte16 :: "u16 \<Rightarrow> nat \<Rightarrow> u8" where
  "be_byte16 v k = ucast (drop_bit (8 * (1 - k)) v)"

lemma be32_bytes: "be32 (be_byte32 v 0) (be_byte32 v 1) (be_byte32 v 2) (be_byte32 v 3) = v"
proof (rule bit_word_eqI)
  fix n assume "n < LENGTH(32)"
  then consider "n < 8" | "8 \<le> n" "n < 16" | "16 \<le> n" "n < 24" | "24 \<le> n" "n < 32" by fastforce
  then show "bit (be32 (be_byte32 v 0) (be_byte32 v 1) (be_byte32 v 2) (be_byte32 v 3)) n = bit v n"
    by cases (auto simp: be32_def be_byte32_def bit_simps)
qed

lemma be16_bytes: "be16 (be_byte16 v 0) (be_byte16 v 1) = v"
proof (rule bit_word_eqI)
  fix n assume "n < LENGTH(16)"
  then consider "n < 8" | "8 \<le> n" "n < 16" by fastforce
  then show "bit (be16 (be_byte16 v 0) (be_byte16 v 1)) n = bit v n"
    by cases (auto simp: be16_def be_byte16_def bit_simps)
qed

section \<open>A big endian memory\<close>

locale be_memory =
  fixes get :: "'s \<Rightarrow> u32 \<Rightarrow> u8"
    and rd32 :: "u32 \<Rightarrow> 's \<Rightarrow> u32" and rd16 :: "u32 \<Rightarrow> 's \<Rightarrow> u16" and rd8 :: "u32 \<Rightarrow> 's \<Rightarrow> u8"
    and wr32 :: "u32 \<Rightarrow> u32 \<Rightarrow> 's \<Rightarrow> 's" and wr16 :: "u32 \<Rightarrow> u16 \<Rightarrow> 's \<Rightarrow> 's" and wr8 :: "u32 \<Rightarrow> u8 \<Rightarrow> 's \<Rightarrow> 's"
  assumes rd32_law: "a AND 3 = 0 \<Longrightarrow> rd32 a s = be32 (get s a) (get s (a + 1)) (get s (a + 2)) (get s (a + 3))"
    and rd16_law: "a AND 1 = 0 \<Longrightarrow> rd16 a s = be16 (get s a) (get s (a + 1))"
    and rd8_law: "rd8 a s = get s a"
    and wr32_law: "a AND 3 = 0 \<Longrightarrow> get (wr32 a v s) =
          (get s)(a := be_byte32 v 0, a + 1 := be_byte32 v 1, a + 2 := be_byte32 v 2, a + 3 := be_byte32 v 3)"
    and wr16_law: "a AND 1 = 0 \<Longrightarrow> get (wr16 a w s) = (get s)(a := be_byte16 w 0, a + 1 := be_byte16 w 1)"
    and wr8_law: "get (wr8 a b s) = (get s)(a := b)"
begin

lemma rd32_wr32: "a AND 3 = 0 \<Longrightarrow> rd32 a (wr32 a v s) = v"
  by (simp add: rd32_law wr32_law be32_bytes[simplified])

lemma rd16_wr16: "a AND 1 = 0 \<Longrightarrow> rd16 a (wr16 a w s) = w"
  by (simp add: rd16_law wr16_law be16_bytes[simplified])

lemma rd8_wr8: "rd8 a (wr8 b v s) = (if a = b then v else rd8 a s)"
  by (simp add: rd8_law wr8_law)

lemma rd8_wr32:
  assumes "a AND 3 = 0"
  shows "rd8 a (wr32 a v s) = be_byte32 v 0" "rd8 (a + 1) (wr32 a v s) = be_byte32 v 1"
    "rd8 (a + 2) (wr32 a v s) = be_byte32 v 2" "rd8 (a + 3) (wr32 a v s) = be_byte32 v 3"
  using assms by (simp_all add: rd8_law wr32_law)

lemma rd32_wr8_other:
  assumes "a AND 3 = 0" and "b \<notin> {a, a + 1, a + 2, a + 3}"
  shows "rd32 a (wr8 b v s) = rd32 a s"
  using assms by (auto simp: rd32_law wr8_law)

end

section \<open>RAM blocks are big endian memories\<close>

lemma bit_3: "bit (3 :: int) n \<longleftrightarrow> n = 0 \<or> n = 1"
proof -
  have eq: "(3 :: int) = mask 2" by (simp add: mask_eq_exp_minus_1)
  show ?thesis unfolding eq by (auto simp: bit_simps)
qed

lemma byte_lane_xor: "byte_lane addr = unat (addr XOR 3)"
proof -
  have "(addr AND 3) AND (NOT addr AND 3) = 0"
    by (rule bit_word_eqI) (auto simp: bit_simps)
  then have "(addr AND 3) + (NOT addr AND 3) = (addr AND 3) OR (NOT addr AND 3)"
    by (rule disjunctive_add_eq_or)
  also have "\<dots> = 3" by (rule bit_word_eqI) (auto simp: bit_simps)
  finally have "3 - (addr AND 3) = NOT addr AND 3"
    using add_diff_cancel_left'[of "addr AND 3" "NOT addr AND 3"] by (simp only:)
  moreover have "(addr AND NOT 3) OR (NOT addr AND 3) = addr XOR 3"
    by (rule bit_word_eqI) (auto simp: bit_simps)
  ultimately show ?thesis by (simp add: byte_lane_def)
qed

text \<open>Byte \<open>a\<close> of the simulated memory lives at host offset \<open>a XOR 3\<close>.\<close>

definition guest_byte :: "(nat \<Rightarrow> u8) \<Rightarrow> u32 \<Rightarrow> u8" where
  "guest_byte f a = f (unat (a XOR 3))"

lemma add_disjoint:
  assumes disj: "a AND j = (0 :: u32)"
  shows "a + j = a OR j" and "unat (a + j) = unat a + unat j"
proof -
  show or: "a + j = a OR j" using disj by (rule disjunctive_add_eq_or)
  have "unat (a OR j) = unat a OR unat j" by (simp add: unsigned_or_eq)
  also have "\<dots> = unat a + unat j"
    by (rule disjunctive_add_eq_or[symmetric]) (simp add: disj flip: unsigned_and_eq)
  finally show "unat (a + j) = unat a + unat j" by (simp add: or)
qed

lemma aligned_or:
  assumes "a AND 3 = (0 :: u32)" and "j AND 3 = j"
  shows "a + j = a OR j" and "unat (a + j) = unat a + unat j"
proof -
  have "a AND j = 0" by (rule bit_word_eqI) (use assms in \<open>auto simp: bit_simps bit_eq_iff\<close>)
  then show "a + j = a OR j" and "unat (a + j) = unat a + unat j" by (rule add_disjoint)+
qed

lemma aligned_lanes:
  assumes "a AND 3 = (0 :: u32)"
  shows "unat (a XOR 3) = unat a + 3" and "unat ((a + 1) XOR 3) = unat a + 2"
    and "unat ((a + 2) XOR 3) = unat a + 1" and "unat ((a + 3) XOR 3) = unat a"
proof -
  have x: "(a OR j) XOR 3 = a OR (j XOR 3)" if "j AND 3 = j" for j
  proof (rule bit_word_eqI)
    fix n assume "n < LENGTH(32)"
    moreover have "bit a n \<Longrightarrow> \<not> bit (3 :: u32) n" using arg_cong[OF assms, of "\<lambda>w. bit w n"] by (auto simp: bit_simps)
    moreover have "bit j n \<Longrightarrow> bit (3 :: u32) n" using arg_cong[OF that, of "\<lambda>w. bit w n"] by (auto simp: bit_simps)
    ultimately show "bit ((a OR j) XOR 3) n = bit (a OR (j XOR 3)) n" by (auto simp: bit_simps)
  qed
  note o = aligned_or[OF assms]
  show "unat (a XOR 3) = unat a + 3" using x[of 0] o[of 3] by simp
  show "unat ((a + 1) XOR 3) = unat a + 2" using x[of 1] o[of 1] o[of 2] by simp
  show "unat ((a + 2) XOR 3) = unat a + 1" using x[of 2] o[of 2] o[of 1] by simp
  show "unat ((a + 3) XOR 3) = unat a" using x[of 3] o[of 3] by simp
qed

lemma guest_read32:
  "a AND 3 = 0 \<Longrightarrow> host_read32 f (unat a)
     = be32 (guest_byte f a) (guest_byte f (a + 1)) (guest_byte f (a + 2)) (guest_byte f (a + 3))"
  by (simp add: host_read32_def be32_def guest_byte_def aligned_lanes or.commute or.left_commute or.assoc)

lemma xor_3_inj: "(a :: u32) XOR 3 = b XOR 3 \<longleftrightarrow> a = b"
  by (metis xor.assoc xor_self_eq xor.right_neutral)

lemma guest_update: "guest_byte (f(unat (b XOR 3) := v)) = (guest_byte f)(b := v)"
  by (auto simp: guest_byte_def fun_eq_iff xor_3_inj word_unat_eq_iff[symmetric])

lemma guest_write32:
  assumes "a AND 3 = 0"
  shows "guest_byte (host_write32 (unat a) v f) = (guest_byte f)
     (a := be_byte32 v 0, a + 1 := be_byte32 v 1, a + 2 := be_byte32 v 2, a + 3 := be_byte32 v 3)"
proof -
  have eq: "host_write32 (unat a) v f = f(unat ((a + 3) XOR 3) := be_byte32 v 3, unat ((a + 2) XOR 3) := be_byte32 v 2,
      unat ((a + 1) XOR 3) := be_byte32 v 1, unat (a XOR 3) := be_byte32 v 0)"
    by (simp add: host_write32_def be_byte32_def aligned_lanes[OF assms])
  show ?thesis
    unfolding eq guest_update by (simp add: fun_eq_iff)
qed

lemma unat_xor_2:
  assumes "a AND 1 = (0 :: u32)"
  shows "unat ((a XOR 2) + 1) = unat (a XOR 2) + 1" and "unat (a XOR 3) = unat (a XOR 2) + 1"
    and "unat ((a + 1) XOR 3) = unat (a XOR 2)"
proof -
  have bit2: "bit (2 :: u32) n \<longleftrightarrow> n = 1" for n
  proof -
    have eq: "(2 :: u32) = push_bit 1 1" by simp
    show ?thesis unfolding eq by (auto simp: bit_simps)
  qed
  have a0: "\<not> bit a 0" using arg_cong[OF assms, of "\<lambda>w. bit w 0"] by (simp add: bit_and_iff)
  have disj: "(a XOR 2) AND 1 = 0" by (rule bit_word_eqI) (use a0 in \<open>auto simp: bit_simps bit2\<close>)
  have o: "(a XOR 2) + 1 = (a XOR 2) OR 1" and u: "unat ((a XOR 2) + 1) = unat (a XOR 2) + 1"
    using add_disjoint[OF disj] by simp_all
  show "unat ((a XOR 2) + 1) = unat (a XOR 2) + 1" by (rule u)
  have "a XOR 3 = (a XOR 2) OR 1"
    by (rule bit_word_eqI) (use a0 in \<open>auto simp: bit_simps bit2 bit_3 intro: gr0I\<close>)
  then show "unat (a XOR 3) = unat (a XOR 2) + 1" using o u by simp
  have "a + 1 = a OR 1" using assms by (rule add_disjoint(1))
  moreover have "(a OR 1) XOR 3 = a XOR 2"
    by (rule bit_word_eqI) (use a0 in \<open>auto simp: bit_simps bit2 bit_3 intro: gr0I\<close>)
  ultimately show "unat ((a + 1) XOR 3) = unat (a XOR 2)" by simp
qed

lemma guest_read16:
  "a AND 1 = 0 \<Longrightarrow> host_read16 f (unat (a XOR 2)) = be16 (guest_byte f a) (guest_byte f (a + 1))"
  by (simp add: host_read16_def be16_def guest_byte_def unat_xor_2 or.commute)

lemma guest_write16:
  assumes "a AND 1 = 0"
  shows "guest_byte (host_write16 (unat (a XOR 2)) v f) = (guest_byte f)(a := be_byte16 v 0, a + 1 := be_byte16 v 1)"
proof -
  have eq: "host_write16 (unat (a XOR 2)) v f
      = f(unat ((a + 1) XOR 3) := be_byte16 v 1, unat (a XOR 3) := be_byte16 v 0)"
    by (simp add: host_write16_def be_byte16_def unat_xor_2[OF assms])
  show ?thesis unfolding eq guest_update by (simp add: fun_eq_iff)
qed

lemma guest_write8: "guest_byte (f(byte_lane b := v)) = (guest_byte f)(b := v)"
  unfolding byte_lane_xor by (rule guest_update)

interpretation ram: be_memory guest_byte "\<lambda>a f. host_read32 f (unat a)" "\<lambda>a f. host_read16 f (unat (a XOR 2))"
    "\<lambda>a f. f (byte_lane a)" "\<lambda>a. host_write32 (unat a)" "\<lambda>a. host_write16 (unat (a XOR 2))"
    "\<lambda>a b f. f(byte_lane a := b)"
proof unfold_locales
  fix a :: u32 and f :: "nat \<Rightarrow> u8"
  show "f (byte_lane a) = guest_byte f a" by (simp add: guest_byte_def byte_lane_xor)
qed (simp_all only: guest_read32 guest_read16 guest_write32 guest_write16 guest_write8)

section \<open>Bit masks\<close>

text \<open>\<open>bit_mask\<close> rounds up: the least \<open>2 ^ k - 1\<close> that covers the offsets of \<open>data\<close> bytes.\<close>

lemma drop_bit_zero_iff: "drop_bit i (w :: 'a::len word) = 0 \<longleftrightarrow> (\<forall>j\<ge>i. \<not> bit w j)"
proof
  assume "drop_bit i w = 0"
  then have "\<not> bit (drop_bit i w) (j - i)" for j by simp
  then show "\<forall>j\<ge>i. \<not> bit w j" by (auto simp: bit_drop_bit_eq) (metis le_add_diff_inverse)
next
  assume "\<forall>j\<ge>i. \<not> bit w j"
  then show "drop_bit i w = 0" by (intro bit_word_eqI) (simp add: bit_drop_bit_eq)
qed

lemma bit_mask_loop_ok:
  assumes "\<forall>j\<ge>k. \<not> bit data j" and "k \<le> 31" and "i \<le> k" and "k = 0 \<or> bit data (k - 1)" and "\<forall>j<i. bit data j"
  shows "bit_mask_loop data i = Inr (mask k)"
  using assms
proof (induction data i rule: bit_mask_loop.induct)
  case (1 data i)
  show ?case
  proof (cases "i = k")
    case True
    have "data = mask k"
      by (rule bit_word_eqI) (use 1(2-6) True in \<open>auto simp: bit_simps not_le\<close>)
    moreover have "drop_bit i data = 0" using 1(2) True by (simp add: drop_bit_zero_iff)
    ultimately show ?thesis using 1(3) True by (subst bit_mask_loop.simps) simp
  next
    case False
    then have i: "i \<le> 30" "i < k" "\<not> 32 \<le> i" using 1(3,4) by simp_all
    have nz: "drop_bit i data \<noteq> 0"
      using 1(5) i(2) unfolding drop_bit_zero_iff by (auto intro!: exI[of _ "k - 1"])
    have bits: "bit (data OR 2 ^ i) j \<longleftrightarrow> bit data j \<or> j = i" for j
      using i by (auto simp: bit_simps)
    have "bit_mask_loop (data OR push_bit i 1) (Suc i) = Inr (mask k)"
      by (rule 1(1)) (use 1(2-6) i nz in \<open>auto simp: bits less_Suc_eq\<close>)
    then show ?thesis using i(3) nz by (subst bit_mask_loop.simps) simp
  qed
qed

text \<open>The number of address bits that \<open>sz\<close> bytes need.\<close>

fun addr_bits :: "nat \<Rightarrow> nat" where
  "addr_bits n = (if n = 0 then 0 else Suc (addr_bits (n div 2)))"

declare addr_bits.simps [simp del]

lemma addr_bits_bound: "n < 2 ^ addr_bits n" and addr_bits_tight: "n \<noteq> 0 \<Longrightarrow> 2 ^ (addr_bits n - 1) \<le> n"
proof (induction n rule: addr_bits.induct)
  case (1 n)
  {
    case 1
    then show ?case using "1.IH"(1) by (subst addr_bits.simps) auto
  next
    case 2
    then show ?case
    proof (cases "n div 2 = 0")
      case True
      then have "n = 1" using 2 by auto
      then show ?thesis by (simp add: addr_bits.simps[of "Suc 0"] addr_bits.simps[of 0])
    next
      case False
      then have "2 ^ (addr_bits (n div 2) - 1) \<le> n div 2" using 2 "1.IH"(2) by simp
      moreover have "addr_bits (n div 2) \<noteq> 0" using False by (subst addr_bits.simps) simp
      ultimately have "2 ^ addr_bits (n div 2) \<le> n"
        by (cases "addr_bits (n div 2)") auto
      with 2 show ?thesis by (subst addr_bits.simps) simp
    qed
  }
qed

lemma bit_mask_ok:
  assumes "0 < sz" and "unat sz \<le> 2 ^ 31"
  shows "bit_mask sz = Inr (mask (addr_bits (unat sz - 1)))" and "addr_bits (unat sz - 1) \<le> 31"
proof -
  let ?d = "unat (sz - 1)"
  let ?k = "addr_bits ?d"
  have d: "unat sz - 1 = ?d" using assms(1) by (simp add: unat_minus_one word_gt_0)
  have dlt: "?d < 2 ^ 31" using assms d by (simp add: word_gt_0 unat_gt_0)
  show k: "addr_bits (unat sz - 1) \<le> 31"
  proof (rule ccontr)
    assume "\<not> addr_bits (unat sz - 1) \<le> 31"
    then have k: "31 \<le> ?k - 1" and "?d \<noteq> 0"
      using d by (auto simp: addr_bits.simps[of 0] intro: gr0I)
    then have "2 ^ 31 \<le> (2::nat) ^ (?k - 1)" by (intro power_increasing) simp_all
    also have "\<dots> \<le> ?d" by (rule addr_bits_tight) fact
    finally show False using dlt by simp
  qed
  have bit: "bit (sz - 1) j \<longleftrightarrow> bit ?d j" for j by (simp add: bit_unsigned_iff)
  have "bit_mask_loop (sz - 1) 0 = Inr (mask ?k)"
  proof (rule bit_mask_loop_ok)
    show "\<forall>j\<ge>?k. \<not> bit (sz - 1) j"
    proof (intro allI impI)
      fix j assume "?k \<le> j"
      then have "?d < 2 ^ j" using addr_bits_bound[of ?d] by (meson less_le_trans one_le_numeral power_increasing)
      then show "\<not> bit (sz - 1) j" unfolding bit by (simp add: bit_iff_odd)
    qed
    show "?k = 0 \<or> bit (sz - 1) (?k - 1)"
    proof (cases "?d = 0")
      case True
      then show ?thesis by (simp add: addr_bits.simps)
    next
      case False
      then have "2 ^ (?k - 1) \<le> ?d" by (rule addr_bits_tight)
      moreover have "?d < 2 ^ (?k - 1) * 2"
        using addr_bits_bound[of ?d] power_minus_mult[of ?k "2::nat"] False by (simp add: addr_bits.simps[of ?d])
      ultimately have "?d div 2 ^ (?k - 1) = 1" by (simp add: div_nat_eqI)
      then show ?thesis unfolding bit by (simp add: bit_iff_odd)
    qed
  qed (use k d in simp_all)
  then show "bit_mask sz = Inr (mask (addr_bits (unat sz - 1)))"
    by (simp add: bit_mask_def d[simplified])
qed

section \<open>The address map\<close>

text \<open>
  An area registered through \<open>reg_mem_area\<close> covers \<open>2 ^ k\<close> aligned bytes. \<open>top_free\<close> keeps the last
  byte of the address space out of it: there the end of the area wraps to 0 and the overlap test of
  \<open>register_memoryarea_mask\<close> does not see it.
\<close>

definition area_wf :: "dev_memarea \<Rightarrow> bool" where
  "area_wf a \<longleftrightarrow> (\<exists>k\<le>31. addr_mask a = NOT (mask k) \<and> size_mask a = mask k \<and> area_size a = 2 ^ k
     \<and> addr_compare a AND mask k = 0)"

definition top_free :: "dev_memarea \<Rightarrow> bool" where
  "top_free a \<longleftrightarrow> unat (addr_compare a) + unat (area_size a) < 2 ^ 32"

lemma aligned_block:
  assumes "c AND mask k = (0 :: u32)"
  shows "addr AND NOT (mask k) = c \<longleftrightarrow> unat c \<le> unat addr \<and> unat addr < unat c + 2 ^ k"
proof -
  have high: "unat (w AND NOT (mask k)) = (unat w div 2 ^ k) * 2 ^ k" for w :: u32
  proof -
    have full: "take_bit 32 (unat w) = unat w"
      by (rule take_bit_nat_eq_self) (use unsigned_less[of w] in simp)
    have "w AND NOT (mask k) = push_bit k (drop_bit k w)"
      by (rule bit_word_eqI) (auto simp: bit_simps)
    also have "unat \<dots> = take_bit 32 (push_bit k (drop_bit k (unat w)))"
      by (simp add: unsigned_push_bit_eq unsigned_drop_bit_eq full)
    also have "push_bit k (drop_bit k (unat w)) = (unat w div 2 ^ k) * 2 ^ k"
      by (simp add: push_bit_eq_mult drop_bit_eq_div)
    also have "take_bit 32 ((unat w div 2 ^ k) * 2 ^ k) = (unat w div 2 ^ k) * 2 ^ k"
    proof (rule take_bit_nat_eq_self)
      have "(unat w div 2 ^ k) * 2 ^ k \<le> unat w" by (simp add: div_times_less_eq_dividend)
      also have "\<dots> < 2 ^ 32" using unsigned_less[of w] by simp
      finally show "(unat w div 2 ^ k) * 2 ^ k < 2 ^ 32" .
    qed
    finally show ?thesis .
  qed
  have "c AND NOT (mask k) = c"
    by (rule bit_word_eqI) (use assms in \<open>auto simp: bit_simps bit_eq_iff\<close>)
  then have c: "unat c = (unat c div 2 ^ k) * 2 ^ k" using high[of c] by simp
  have "addr AND NOT (mask k) = c \<longleftrightarrow> (unat addr div 2 ^ k) * 2 ^ k = unat c"
    unfolding high[symmetric] by (simp add: word_unat_eq_iff)
  also have "\<dots> \<longleftrightarrow> unat c \<le> unat addr \<and> unat addr < unat c + 2 ^ k"
  proof -
    obtain q where cq: "unat c = q * 2 ^ k" using c by blast
    have "(unat addr div 2 ^ k) * 2 ^ k = q * 2 ^ k \<longleftrightarrow> unat addr div 2 ^ k = q" by simp
    also have "\<dots> \<longleftrightarrow> q * 2 ^ k \<le> unat addr \<and> unat addr < q * 2 ^ k + 2 ^ k"
      using dividend_less_div_times[of "2 ^ k" "unat addr"] div_times_less_eq_dividend[of "unat addr" "2 ^ k"]
      by (auto simp: mult.commute add.commute intro!: div_nat_eqI)
    finally show ?thesis unfolding cq .
  qed
  finally show ?thesis .
qed

lemma unat_pow2:
  assumes "k \<le> 31"
  shows "unat (2 ^ k :: u32) = 2 ^ k"
proof -
  have "unat (push_bit k 1 :: u32) = take_bit 32 (push_bit k 1)"
    by (simp only: unsigned_push_bit_eq unsigned_1) simp
  moreover have "(2::nat) ^ k < 2 ^ 32" using assms by (intro power_strict_increasing) simp_all
  ultimately show ?thesis using assms by (simp add: take_bit_nat_eq_self)
qed

lemma area_matches_range:
  assumes "area_wf a"
  shows "area_matches addr a \<longleftrightarrow>
     unat (addr_compare a) \<le> unat addr \<and> unat addr < unat (addr_compare a) + unat (area_size a)"
proof -
  from assms obtain k where k: "k \<le> 31" "addr_mask a = NOT (mask k)" "area_size a = 2 ^ k"
    "addr_compare a AND mask k = 0" by (auto simp: area_wf_def)
  have "addr_compare a AND NOT (mask k) = addr_compare a"
    by (rule bit_word_eqI) (use k(4) in \<open>auto simp: bit_simps bit_eq_iff\<close>)
  moreover have "unat (2 ^ k :: u32) = 2 ^ k" using k(1) by (simp add: unat_pow2)
  ultimately show ?thesis
    using aligned_block[OF k(4), of addr] k by (simp add: area_matches_def)
qed

text \<open>The areas partition what they cover, and the cached pointers are areas of the list.\<close>

definition mem_wf :: "memory \<Rightarrow> bool" where
  "mem_wf mm \<longleftrightarrow> (\<forall>i < length (dev_list mm). area_wf (dev_list mm ! i) \<and> valid (dev_list mm ! i))
     \<and> (\<forall>i < length (dev_list mm). \<forall>j < length (dev_list mm). \<forall>addr.
          area_matches addr (dev_list mm ! i) \<longrightarrow> area_matches addr (dev_list mm ! j) \<longrightarrow> i = j)
     \<and> (\<forall>i. cur_area mm = Some i \<longrightarrow> i < length (dev_list mm))
     \<and> (\<forall>i. mc_area mm = Some i \<longrightarrow> i < length (dev_list mm))"

lemma find_area_Some:
  "find_area addr as n = Some i \<Longrightarrow> n \<le> i \<and> i < n + length as \<and> area_matches addr (as ! (i - n)) \<and> valid (as ! (i - n))"
proof (induction as arbitrary: n)
  case (Cons a as)
  show ?case
  proof (cases "area_matches addr a \<and> valid a")
    case True
    with Cons.prems show ?thesis by simp
  next
    case False
    with Cons.prems have "find_area addr as (Suc n) = Some i" by simp
    from Cons.IH[OF this] show ?thesis by (auto simp: nth_Cons' Suc_le_eq)
  qed
qed simp

lemma find_area_None: "find_area addr as n = None \<Longrightarrow> a \<in> set as \<Longrightarrow> area_matches addr a \<Longrightarrow> \<not> valid a"
  by (induction as arbitrary: n) (auto split: if_splits)

text \<open>The lookup finds the one area of an address, whatever the cached pointers are.\<close>

lemma verify_memoryarea_ok:
  assumes wf: "mem_wf mm" and i: "i < length (dev_list mm)" "area_matches addr (dev_list mm ! i)"
  shows "verify_memoryarea addr mm = (Some i, mm\<lparr>cur_area := Some i\<rparr>)"
proof -
  have unique: "j = i" if "j < length (dev_list mm)" "area_matches addr (dev_list mm ! j)" for j
    using wf i that unfolding mem_wf_def by blast
  have ptr: "points_to addr mm p \<Longrightarrow> p = Some i" if "\<forall>j. p = Some j \<longrightarrow> j < length (dev_list mm)" for p
    using that unique by (cases p) (auto simp: points_to_def)
  have "find_area addr (dev_list mm) 0 = Some i"
  proof (cases "find_area addr (dev_list mm) 0")
    case None
    then show ?thesis using find_area_None[OF None nth_mem[OF i(1)] i(2)] wf i(1) by (simp add: mem_wf_def)
  next
    case (Some j)
    then show ?thesis using find_area_Some[OF Some] unique by simp
  qed
  moreover have "points_to addr mm (mc_area mm) \<Longrightarrow> mc_area mm = Some i"
    and "points_to addr mm (cur_area mm) \<Longrightarrow> cur_area mm = Some i"
    using wf by (auto simp: mem_wf_def intro!: ptr)
  ultimately show ?thesis by (simp add: verify_memoryarea_def Let_def)
qed

lemma verify_memoryarea_none:
  assumes wf: "mem_wf mm" and none: "\<forall>i < length (dev_list mm). \<not> area_matches addr (dev_list mm ! i)"
  shows "verify_memoryarea addr mm = (None, mm\<lparr>cur_area := None\<rparr>)"
proof -
  have "\<not> points_to addr mm p" if "\<forall>j. p = Some j \<longrightarrow> j < length (dev_list mm)" for p
    using that none by (cases p) (auto simp: points_to_def)
  then have "\<not> points_to addr mm (mc_area mm)" and "\<not> points_to addr mm (cur_area mm)"
    using wf by (auto simp: mem_wf_def)
  moreover have "find_area addr (dev_list mm) 0 = None"
  proof (cases "find_area addr (dev_list mm) 0")
    case (Some j)
    then show ?thesis using find_area_Some[OF Some] none by auto
  qed
  ultimately show ?thesis by (simp add: verify_memoryarea_def Let_def)
qed

lemma verify_memoryarea_wf: "mem_wf mm \<Longrightarrow> mem_wf (snd (verify_memoryarea addr mm))"
proof -
  assume wf: "mem_wf mm"
  show ?thesis
  proof (cases "\<exists>i < length (dev_list mm). area_matches addr (dev_list mm ! i)")
    case True
    then obtain i where "i < length (dev_list mm)" "area_matches addr (dev_list mm ! i)" by blast
    with wf show ?thesis by (simp add: verify_memoryarea_ok) (simp add: mem_wf_def)
  next
    case False
    with wf show ?thesis by (simp add: verify_memoryarea_none) (simp add: mem_wf_def)
  qed
qed

section \<open>Registering an area\<close>

lemma addr_bits_pow2: "addr_bits (2 ^ k - 1) = k"
proof (induction k)
  case 0
  show ?case by (simp add: addr_bits.simps)
next
  case (Suc k)
  have "((2::nat) ^ Suc k - 1) div 2 = 2 ^ k - 1" by simp
  moreover have "(2::nat) ^ Suc k - 1 \<noteq> 0"
  proof -
    have "(1::nat) \<le> 2 ^ k" by simp
    then show ?thesis unfolding power_Suc by linarith
  qed
  ultimately show ?case using Suc by (subst addr_bits.simps) simp
qed

lemma mask_plus_1: "k \<le> 31 \<Longrightarrow> (mask k + 1 :: u32) = 2 ^ k" and bit_mask_pow2: "k \<le> 31 \<Longrightarrow> bit_mask (2 ^ k) = Inr (mask k)"
proof -
  show "(mask k + 1 :: u32) = 2 ^ k" by (simp add: mask_eq_exp_minus_1)
  assume k: "k \<le> 31"
  then have "(2::nat) ^ k \<le> 2 ^ 31" by (intro power_increasing) simp_all
  moreover have "(0 :: u32) < 2 ^ k" using unat_pow2[OF k] by (metis unsigned_0 word_gt_0 power_not_zero zero_neq_numeral)
  ultimately have "bit_mask (2 ^ k) = Inr (mask (addr_bits (unat (2 ^ k :: u32) - 1)))"
    using k by (intro bit_mask_ok(1)) (simp_all add: unat_pow2)
  then show "bit_mask (2 ^ k) = Inr (mask k)" by (simp only: unat_pow2[OF k] addr_bits_pow2)
qed

lemma unat_add_small: "unat (a :: u32) + unat b < 2 ^ 32 \<Longrightarrow> unat (a + b) = unat a + unat b"
  by (simp add: unat_word_ariths)

text \<open>Away from the top of the address space, the overlap test is exact.\<close>

lemma area_overlaps_iff:
  assumes "area_wf a" and "top_free a" and "unat c + unat sz < 2 ^ 32" and "0 < sz"
  shows "area_overlaps c sz a \<longleftrightarrow> (\<exists>x. area_matches x a \<and> unat c \<le> unat x \<and> unat x < unat c + unat sz)"
proof -
  have "0 < unat (area_size a)" and "0 < unat sz"
    using assms(1,4) by (auto simp: area_wf_def unat_pow2 word_gt_0 unat_gt_0)
  note pos = this
  have "area_overlaps c sz a \<longleftrightarrow> unat c < unat (addr_compare a) + unat (area_size a)
      \<and> unat (addr_compare a) < unat c + unat sz"
    using assms(2,3) pos
    by (auto simp: area_overlaps_def top_free_def word_less_nat_alt word_le_nat_alt unat_add_small)
  also have "\<dots> \<longleftrightarrow> (\<exists>x. area_matches x a \<and> unat c \<le> unat x \<and> unat x < unat c + unat sz)" (is "?L \<longleftrightarrow> ?R")
  proof
    assume ?L
    then show ?R
      using pos by (intro exI[of _ "if unat c \<le> unat (addr_compare a) then addr_compare a else c"])
        (auto simp: area_matches_range[OF assms(1)])
  next
    assume ?R
    then show ?L by (auto simp: area_matches_range[OF assms(1)])
  qed
  finally show ?thesis .
qed

lemma reg_mem_area_step:
  fixes addr sz :: u32 and fresh :: dev_memarea and mops :: mem_ops and mm :: memory
  assumes sz: "0 < sz" "unat sz \<le> 2 ^ 31"
  defines "k \<equiv> addr_bits (unat sz - 1)"
  defines "c \<equiv> addr AND NOT (mask k)"
  defines "new \<equiv> fresh\<lparr>addr_mask := NOT (mask k), addr_compare := c, area_size := 2 ^ k, size_mask := mask k,
       valid := True, ops := default_ops mops, direct_ops := default_direct_ops (length (dev_list mm)) mops\<rparr>"
  shows "reg_mem_area fresh addr sz mcd mops mm =
     (if list_ex (area_overlaps c (2 ^ k)) (dev_list mm) then Inl Exit_failure
      else Inr (length (dev_list mm), mm\<lparr>dev_list := dev_list mm @ [new], cur_area := Some (length (dev_list mm)),
             mc_area := if mcd then Some (length (dev_list mm)) else mc_area mm\<rparr>))"
proof -
  have k: "k \<le> 31" unfolding k_def using sz by (rule bit_mask_ok(2))
  have "addr AND NOT (mask k) AND NOT (mask k) = addr AND NOT (mask k)" by (simp add: and.assoc)
  moreover have "bit_mask sz = Inr (mask k)" using bit_mask_ok(1)[OF sz] by (simp only: k_def)
  ultimately show ?thesis
    using k
    by (simp add: reg_mem_area_def register_memoryarea_mask_def mask_plus_1 bit_mask_pow2 Let_def set_area_def
        c_def new_def nth_append list_update_append)
qed

lemma reg_mem_area_ok:
  fixes addr sz :: u32
  assumes wf: "mem_wf mm" and top: "\<forall>a\<in>set (dev_list mm). top_free a"
    and sz: "0 < sz" "unat sz \<le> 2 ^ 31"
  defines "k \<equiv> addr_bits (unat sz - 1)"
  assumes new_top: "unat (addr AND NOT (mask k)) + 2 ^ k < 2 ^ 32"
  shows "case reg_mem_area fresh addr sz mcd mops mm of
      Inl e \<Rightarrow> e = Exit_failure \<and> (\<exists>a\<in>set (dev_list mm). \<exists>x. area_matches x a \<and> x AND NOT (mask k) = addr AND NOT (mask k))
    | Inr (ptr, mm') \<Rightarrow> mem_wf mm' \<and> ptr = length (dev_list mm) \<and> take ptr (dev_list mm') = dev_list mm
        \<and> (\<forall>x. x AND NOT (mask k) = addr AND NOT (mask k) \<longrightarrow> fst (verify_memoryarea x mm') = Some ptr)"
proof -
  let ?c = "addr AND NOT (mask k)"
  have k: "k \<le> 31" unfolding k_def using sz by (rule bit_mask_ok(2))
  have aligned: "?c AND mask k = 0" by (rule bit_word_eqI) (auto simp: bit_simps)
  have pow: "unat (2 ^ k :: u32) = 2 ^ k" using k by (rule unat_pow2)
  have in_new: "x AND NOT (mask k) = ?c \<longleftrightarrow> unat ?c \<le> unat x \<and> unat x < unat ?c + 2 ^ k" for x
    by (rule aligned_block[OF aligned])
  have pos: "0 < (2 ^ k :: u32)" using pow by (metis unsigned_0 word_gt_0 power_not_zero zero_neq_numeral)
  have overlap: "area_overlaps ?c (2 ^ k) a \<longleftrightarrow> (\<exists>x. area_matches x a \<and> x AND NOT (mask k) = ?c)"
    if "a \<in> set (dev_list mm)" for a
  proof -
    have "area_wf a" using wf that by (auto simp: mem_wf_def in_set_conv_nth)
    with top that new_top pos show ?thesis by (subst area_overlaps_iff) (auto simp: pow in_new)
  qed
  note step = reg_mem_area_step[OF sz, where fresh = fresh and addr = addr and mcd = mcd and mops = mops and mm = mm,
      folded k_def]
  show ?thesis
  proof (cases "list_ex (area_overlaps ?c (2 ^ k)) (dev_list mm)")
    case True
    then show ?thesis using overlap by (auto simp: step list_ex_iff)
  next
    case False
    let ?new = "fresh\<lparr>addr_mask := NOT (mask k), addr_compare := ?c, area_size := 2 ^ k, size_mask := mask k,
       valid := True, ops := default_ops mops, direct_ops := default_direct_ops (length (dev_list mm)) mops\<rparr>"
    let ?n = "length (dev_list mm)"
    let ?mm = "mm\<lparr>dev_list := dev_list mm @ [?new], cur_area := Some ?n, mc_area := if mcd then Some ?n else mc_area mm\<rparr>"
    have new: "area_matches x ?new \<longleftrightarrow> x AND NOT (mask k) = ?c" for x
      by (simp add: area_matches_def and.assoc)
    have new_wf: "area_wf ?new" using k aligned by (auto simp: area_wf_def)
    have disjoint: "\<not> (area_matches x ?new \<and> area_matches x a)" if "a \<in> set (dev_list mm)" for a x
      using False overlap[OF that] that by (auto simp: new list_ex_iff)
    have "mem_wf ?mm"
      using wf new_wf disjoint by (auto simp: mem_wf_def nth_append less_Suc_eq)
    moreover have "fst (verify_memoryarea x ?mm) = Some ?n" if "x AND NOT (mask k) = ?c" for x
      using verify_memoryarea_ok[OF \<open>mem_wf ?mm\<close>, of ?n x] that by (simp add: new)
    ultimately show ?thesis using False by (simp add: step)
  qed
qed

lemma half_bytes: "ucast (ucast w :: u8) OR push_bit 8 (ucast (ucast (drop_bit 8 w) :: u8)) = (ucast (w :: u32) :: u16)"
proof (rule bit_word_eqI)
  fix n assume "n < LENGTH(16)"
  then consider "n < 8" | "8 \<le> n" "n < 16" by fastforce
  then show "bit (ucast (ucast w :: u8) OR push_bit 8 (ucast (ucast (drop_bit 8 w) :: u8)) :: u16) n = bit (ucast w :: u16) n"
    by cases (auto simp: bit_simps)
qed

section \<open>Properties\<close>

text \<open>Two RAM blocks of 64 and 16 bytes.\<close>

definition two_blocks :: memory where
  "two_blocks = zero_memory\<lparr>rams := [0 \<mapsto> \<lparr>ram_size = 64, ram_bytes = (\<lambda>_. 0)\<rparr>, 1 \<mapsto> \<lparr>ram_size = 16, ram_bytes = (\<lambda>_. 0)\<rparr>]\<rparr>"

text \<open>
  C13: RAM is a big endian byte memory on the little endian host, as its access functions show it. An aligned 32 bit write
  inside a block succeeds and is read back as a word, as two half words with the upper one first, and as four bytes, the
  most significant first at ascending addresses; every other byte of the block, every other block and the rest of the
  memory state stay as they are. Outside the block the write and the read have no defined result (the host access is
  out of bounds).
\<close>

theorem ram_is_big_endian:
  assumes "rams mm dat = Some r" and "a AND 3 = 0"
  shows "(unat a + 4 \<le> ram_size r \<longrightarrow> (\<exists>mm'. simmem_write32 a v dat mm = Inr mm'
        \<and> simmem_read32 a dat mm' = Inr v
        \<and> simmem_read16 a dat mm' = Inr (ucast (drop_bit 16 v)) \<and> simmem_read16 (a + 2) dat mm' = Inr (ucast v)
        \<and> (\<forall>k < 4. simmem_read8 (a + word_of_nat k) dat mm' = Inr (ucast (drop_bit (8 * (3 - k)) v)))
        \<and> (\<forall>b. b \<notin> {a, a + 1, a + 2, a + 3} \<longrightarrow> simmem_read8 b dat mm' = simmem_read8 b dat mm)
        \<and> (\<forall>b q. q \<noteq> dat \<longrightarrow> simmem_read8 b q mm' = simmem_read8 b q mm)
        \<and> mm'\<lparr>rams := rams mm\<rparr> = mm))
     \<and> (ram_size r < unat a + 4 \<longrightarrow> simmem_write32 a v dat mm = Inl Host_undef \<and> simmem_read32 a dat mm = Inl Host_undef)"
proof (intro conjI impI)
  assume n: "unat a + 4 \<le> ram_size r"
  define f where "f = ram_bytes r"
  define g where "g = host_write32 (unat a) v f"
  define mm' where "mm' = ram_update dat g mm"
  have acc: "ram_access dat (unat a) 4 mm = Inr f" using n assms(1) by (simp add: ram_access_def f_def)
  have w: "simmem_write32 a v dat mm = Inr mm'" by (simp add: simmem_write32_def acc mm'_def g_def)
  have acc': "ram_access dat x k mm' = (if x + k \<le> ram_size r then Inr g else Inl Host_undef)" for x k
    using assms(1) by (simp add: mm'_def ram_access_def ram_update_def)
  have bytes: "g (byte_lane b) = ((guest_byte f)(a := be_byte32 v 0, a + 1 := be_byte32 v 1, a + 2 := be_byte32 v 2, a + 3 := be_byte32 v 3)) b" for b
    using guest_write32[OF assms(2), of v f] by (simp add: g_def guest_byte_def byte_lane_xor fun_eq_iff)
  have rd8: "simmem_read8 b dat mm' = (if byte_lane b + 1 \<le> ram_size r then Inr (g (byte_lane b)) else Inl Host_undef)" for b
    by (simp add: simmem_read8_def acc')
  have rd8_old: "simmem_read8 b dat mm = (if byte_lane b + 1 \<le> ram_size r then Inr (f (byte_lane b)) else Inl Host_undef)" for b
    using assms(1) by (simp add: simmem_read8_def ram_access_def f_def)
  note lanes = aligned_lanes[OF assms(2)]
  have "simmem_read32 a dat mm' = Inr v"
    using n ram.rd32_wr32[OF assms(2), of v f] by (simp add: simmem_read32_def acc' g_def)
  moreover have "simmem_read8 (a + word_of_nat k) dat mm' = Inr (ucast (drop_bit (8 * (3 - k)) v))" if "k < 4" for k
  proof -
    have "k = 0 \<or> k = 1 \<or> k = 2 \<or> k = 3" using that by linarith
    then show ?thesis using n lanes by (elim disjE) (simp_all add: rd8 byte_lane_xor g_def host_write32_def)
  qed
  moreover have "simmem_read8 b dat mm' = simmem_read8 b dat mm" if "b \<notin> {a, a + 1, a + 2, a + 3}" for b
    using bytes[of b] that by (simp add: rd8 rd8_old guest_byte_def byte_lane_xor)
  moreover have "simmem_read8 b q mm' = simmem_read8 b q mm" if "q \<noteq> dat" for b q
    using that by (simp add: simmem_read8_def ram_access_def mm'_def ram_update_def)
  moreover have "mm'\<lparr>rams := rams mm\<rparr> = mm" by (simp add: mm'_def ram_update_def)
  moreover have "simmem_read16 a dat mm' = Inr (ucast (drop_bit 16 v))" "simmem_read16 (a + 2) dat mm' = Inr (ucast v)"
  proof -
    have two: "bit (2 :: u32) i \<longleftrightarrow> i = 1" for i
    proof -
      have eq: "(2 :: u32) = push_bit 1 1" by simp
      show ?thesis unfolding eq by (auto simp: bit_simps)
    qed
    have a1: "\<not> bit a 1" using arg_cong[OF assms(2), of "\<lambda>w. bit w 1"] by (simp add: bit_simps bit_3)
    have "a XOR 2 = a OR 2" "(a OR 2) XOR 2 = a" by (rule bit_word_eqI; use a1 in \<open>auto simp: bit_simps two\<close>)+
    then have x: "unat (a XOR 2) = unat a + 2" "unat ((a + 2) XOR 2) = unat a"
      using aligned_or[OF assms(2), of 2] by simp_all
    show "simmem_read16 a dat mm' = Inr (ucast (drop_bit 16 v))"
      using n half_bytes[of "drop_bit 16 v"] by (simp add: simmem_read16_def acc' x g_def host_read16_def host_write32_def)
    show "simmem_read16 (a + 2) dat mm' = Inr (ucast v)"
      using n half_bytes[of v] by (simp add: simmem_read16_def acc' x g_def host_read16_def host_write32_def)
  qed
  ultimately show "\<exists>mm'. simmem_write32 a v dat mm = Inr mm'
        \<and> simmem_read32 a dat mm' = Inr v
        \<and> simmem_read16 a dat mm' = Inr (ucast (drop_bit 16 v)) \<and> simmem_read16 (a + 2) dat mm' = Inr (ucast v)
        \<and> (\<forall>k < 4. simmem_read8 (a + word_of_nat k) dat mm' = Inr (ucast (drop_bit (8 * (3 - k)) v)))
        \<and> (\<forall>b. b \<notin> {a, a + 1, a + 2, a + 3} \<longrightarrow> simmem_read8 b dat mm' = simmem_read8 b dat mm)
        \<and> (\<forall>b q. q \<noteq> dat \<longrightarrow> simmem_read8 b q mm' = simmem_read8 b q mm)
        \<and> mm'\<lparr>rams := rams mm\<rparr> = mm"
    using w by blast
qed (use assms in \<open>simp_all add: simmem_write32_def simmem_read32_def ram_access_def\<close>)

lemma ram_is_big_endian_witness:
  "\<exists>mm'. simmem_write32 8 0xdeadbeef 1 two_blocks = Inr mm' \<and> simmem_read32 8 1 mm' = Inr 0xdeadbeef
     \<and> simmem_read8 9 1 mm' = Inr 0xad"
proof -
  have "rams two_blocks 1 = Some \<lparr>ram_size = 16, ram_bytes = (\<lambda>_. 0)\<rparr>" by (simp add: two_blocks_def)
  from ram_is_big_endian[OF this, of 8 "0xdeadbeef"] obtain mm' where
    "simmem_write32 8 0xdeadbeef 1 two_blocks = Inr mm'" "simmem_read32 8 1 mm' = Inr 0xdeadbeef"
    "\<forall>k < 4. simmem_read8 (8 + word_of_nat k) 1 mm' = Inr (ucast (drop_bit (8 * (3 - k)) (0xdeadbeef :: u32)))"
    by auto
  then show ?thesis by (intro exI[of _ mm']) (auto dest: spec[of _ 1])
qed

text \<open>
  C26: looking an address up finds the one registered area that contains it, whatever the cached
  pointers to the area of the last access and to the memory controller are, and reports none exactly
  when no area contains the address; the area map stays well formed.
\<close>

theorem lookup_finds_the_area:
  assumes "mem_wf mm"
  shows "(case fst (verify_memoryarea addr mm) of
       Some i \<Rightarrow> i < length (dev_list mm) \<and> area_matches addr (dev_list mm ! i)
     | None \<Rightarrow> \<not> (\<exists>a\<in>set (dev_list mm). area_matches addr a))
     \<and> cur_area (snd (verify_memoryarea addr mm)) = fst (verify_memoryarea addr mm)
     \<and> mem_wf (snd (verify_memoryarea addr mm))"
proof (cases "\<exists>i < length (dev_list mm). area_matches addr (dev_list mm ! i)")
  case True
  then obtain i where i: "i < length (dev_list mm)" "area_matches addr (dev_list mm ! i)" by blast
  from verify_memoryarea_ok[OF assms i] i verify_memoryarea_wf[OF assms, of addr] show ?thesis by simp
next
  case False
  then have none: "\<forall>i < length (dev_list mm). \<not> area_matches addr (dev_list mm ! i)" by blast
  from verify_memoryarea_none[OF assms none] none verify_memoryarea_wf[OF assms, of addr]
  show ?thesis by (auto simp: in_set_conv_nth)
qed

text \<open>A map of two RAMs: one megabyte at 0 and 64 kilobytes at \<open>0xf0000000\<close>.\<close>

definition sample_ops :: mem_ops where
  "sample_ops = ram_ops (memory_sec_start \<lparr>mc_ce = 0, mc_mc = 0, mc_baseaddr = 0, mc_size = 0, mc_delayr = 0,
     mc_delayw = 0, mc_mem = 0, mc_pattern = 0, mc_random_seed = 0, mc_type = MT_UNKNOWN\<rparr>) 0"

definition sample_area :: "u32 \<Rightarrow> u32 \<Rightarrow> dev_memarea" where
  "sample_area msk cmp = \<lparr>addr_mask = NOT msk, addr_compare = cmp, area_size = msk + 1, size_mask = msk, valid = True,
     ops = sample_ops, direct_ops = sample_ops\<rparr>"

definition sample_map :: memory where
  "sample_map = zero_memory\<lparr>dev_list := [sample_area 0xfffff 0, sample_area 0xffff 0xf0000000]\<rparr>"

lemma area_wf_sample [simp]: "area_wf (sample_area 0xfffff 0)" "area_wf (sample_area 0xffff 0xf0000000)"
proof -
  show "area_wf (sample_area 0xfffff 0)"
    unfolding area_wf_def sample_area_def by (intro exI[of _ 20]) (simp add: mask_eq_exp_minus_1)
  show "area_wf (sample_area 0xffff 0xf0000000)"
    unfolding area_wf_def sample_area_def by (intro exI[of _ 16]) (simp add: mask_eq_exp_minus_1)
qed

lemma sample_areas_apart: "\<not> (area_matches x (sample_area 0xfffff 0) \<and> area_matches x (sample_area 0xffff 0xf0000000))"
  by (simp add: area_matches_range[OF area_wf_sample(1)] area_matches_range[OF area_wf_sample(2)])
    (simp add: sample_area_def)

lemma sample_map_wf: "mem_wf sample_map"
  using sample_areas_apart area_wf_sample
  by (auto simp: mem_wf_def sample_map_def zero_memory_def less_Suc_eq nth_Cons')
    (simp_all add: sample_area_def)

lemma lookup_finds_the_area_witness:
  "mem_wf sample_map \<and> cur_area (snd (verify_memoryarea 0xf0000004 sample_map)) = fst (verify_memoryarea 0xf0000004 sample_map)"
  using lookup_finds_the_area[OF sample_map_wf, of "0xf0000004"] sample_map_wf by blast

text \<open>
  C27: registering an area of at most 2 GB on a well formed map, where neither the area nor one of the map reaches the top
  of the address space, either is refused because the area overlaps a registered one, or keeps the map well
  formed, leaves the registered areas alone and makes every address of the new area (its size rounded up to a power of
  two, its base rounded down to a multiple of that) resolve to it. It is refused also for the area of the memory
  controller (\<open>mcd\<close>), although the comment of \<open>reg_mem_area\<close> lets that one overlap others.
\<close>

theorem registration_partitions:
  fixes addr sz :: u32
  assumes "mem_wf mm" and "\<forall>a\<in>set (dev_list mm). top_free a" and "0 < sz" and "unat sz \<le> 2 ^ 31"
    and "unat (addr AND NOT (mask (addr_bits (unat sz - 1)))) + 2 ^ addr_bits (unat sz - 1) < 2 ^ 32"
  shows "let k = addr_bits (unat sz - 1); base = addr AND NOT (mask k)
    in case reg_mem_area fresh addr sz mcd mops mm of
      Inl e \<Rightarrow> e = Exit_failure \<and> (\<exists>a\<in>set (dev_list mm). \<exists>x. area_matches x a \<and> x AND NOT (mask k) = base)
    | Inr (ptr, mm') \<Rightarrow> mem_wf mm' \<and> ptr = length (dev_list mm) \<and> take ptr (dev_list mm') = dev_list mm
        \<and> (\<forall>x. x AND NOT (mask k) = base \<longrightarrow> fst (verify_memoryarea x mm') = Some ptr)"
  unfolding Let_def using assms by (rule reg_mem_area_ok)

lemma sample_map_top: "\<forall>a\<in>set (dev_list sample_map). top_free a"
  by (simp add: sample_map_def top_free_def sample_area_def)

lemma registration_partitions_witness:
  "case reg_mem_area (sample_area 0 0) 0x100004 0x1800 False sample_ops sample_map of
      Inl e \<Rightarrow> e = Exit_failure
    | Inr (ptr, mm') \<Rightarrow> mem_wf mm' \<and> ptr = 2 \<and> fst (verify_memoryarea 0x101ffc mm') = Some 2"
proof -
  have k: "addr_bits 6143 = 13" by (simp add: addr_bits.simps)
  have m: "(mask 13 :: u32) = 0x1fff" by (simp add: mask_eq_exp_minus_1)
  have "length (dev_list sample_map) = 2" by (simp add: sample_map_def)
  then show ?thesis
    using registration_partitions[OF sample_map_wf sample_map_top, of "0x1800" "0x100004" "sample_area 0 0" False sample_ops]
    by (simp add: k m Let_def split: sum.splits) auto
qed

text \<open>
  An area that ends at the top of the address space is never seen as overlapping, because its end
  wraps to 0: a second area can be registered over it, and the device that answers then depends on the
  pointer to the area of the last access.
\<close>

theorem top_area_shadowed:
  fixes addr sz :: u32
  assumes "area_wf a" and "valid a" and "unat (addr_compare a) + unat (area_size a) = 2 ^ 32"
    and "dev_list mm = [a]" and "mc_area mm = None" and "0 < sz" and "unat sz \<le> 2 ^ 31" and "area_matches addr a"
  shows "\<exists>mm'. reg_mem_area fresh addr sz False mops mm = Inr (1, mm')
     \<and> fst (verify_memoryarea addr mm') = Some 1
     \<and> fst (verify_memoryarea addr (mm'\<lparr>cur_area := None\<rparr>)) = Some 0"
proof -
  have "unat (addr_compare a + area_size a) = 0" using assms(3) by (simp add: unat_word_ariths)
  then have "addr_compare a + area_size a = 0" by (simp add: unat_eq_0)
  then have no: "\<not> area_overlaps c s a" for c s by (simp add: area_overlaps_def)
  show ?thesis
    using reg_mem_area_step[OF assms(6,7), of fresh addr False mops mm] no assms(2,4,5,8)
    by (simp add: verify_memoryarea_def points_to_def Let_def area_matches_def[of _ "_\<lparr>area_size := _\<rparr>"]
        area_matches_def[of _ "dev_memarea.valid_update _ _"] and.assoc) (simp add: area_matches_def and.assoc)
qed

lemma top_area_shadowed_witness:
  "\<exists>mm'. reg_mem_area (sample_area 0 0) 0xffff8000 0x100 False sample_ops
        (zero_memory\<lparr>dev_list := [sample_area 0xffff 0xffff0000]\<rparr>) = Inr (1, mm')
     \<and> fst (verify_memoryarea 0xffff8000 mm') = Some 1
     \<and> fst (verify_memoryarea 0xffff8000 (mm'\<lparr>cur_area := None\<rparr>)) = Some 0"
proof -
  have wf: "area_wf (sample_area 0xffff 0xffff0000)"
    unfolding area_wf_def sample_area_def by (intro exI[of _ 16]) (simp add: mask_eq_exp_minus_1)
  show ?thesis
    by (rule top_area_shadowed[OF wf]) (simp_all add: sample_area_def zero_memory_def area_matches_def)
qed

end
