(* ===== verification/Mmu.thy ===== *)
theory Mmu
  imports Units Mem_Props
begin

text \<open>
  The memory management units (\<open>mmu/immu.c\<close>, \<open>mmu/dmmu.c\<close>) and the two helpers of \<open>support/misc.c\<close>. A
  pointer into the TLB is the number of the special purpose register it points to; way \<open>w\<close> of the TLB
  lies \<open>256 * w\<close> registers after way 0. A \<open>NULL\<close> \<open>immu_state\<close> or \<open>dmmu_state\<close> (no such section in the
  configuration file) that translation follows is \<open>Inl Null_deref\<close>.
\<close>

section \<open>Powers of two\<close>

fun log2_int :: "nat \<Rightarrow> nat" where
  "log2_int x = (if x = 0 \<or> x = 1 then 0 else Suc (log2_int (x div 2)))"

declare log2_int.simps [simp del]

text \<open>The loop shifts a signed \<open>int\<close> right until its lowest bit is set.\<close>

function is_power2 :: "int \<Rightarrow> bool" where
  "is_power2 x = (if x = 0 then False else if even x then is_power2 (x div 2) else x = 1)"
  by pat_completeness auto
termination by (relation "measure (\<lambda>x. nat \<bar>x\<bar>)") auto

declare is_power2.simps [simp del]

section \<open>The translation lookaside buffers\<close>

text \<open>The search over the ways left, from register \<open>r\<close> on.\<close>

fun tlb_scan :: "nat \<Rightarrow> nat \<Rightarrow> u32 \<Rightarrow> u32 \<Rightarrow> u32 \<Rightarrow> machine \<Rightarrow> nat option" where
  "tlb_scan 0 r vmask vpn v m = None"
| "tlb_scan (Suc n) r vmask vpn v m =
     (if spr r m AND vmask = vpn \<and> has (spr r m) v then Some r else tlb_scan n (r + 128 * 2) vmask vpn v m)"

text \<open>The loop that decrements the usage counters of all ways.\<close>

fun tlb_age :: "nat \<Rightarrow> nat \<Rightarrow> u32 \<Rightarrow> machine \<Rightarrow> machine" where
  "tlb_age 0 r lru m = m"
| "tlb_age (Suc n) r lru m =
     tlb_age n (r + 128 * 2) lru
       (if has (spr r m) lru
        then set_spr r ((spr r m AND NOT lru) OR ((spr r m AND lru) - 0x40)) m else m)"

definition tlb_set :: "mmu \<Rightarrow> u32 \<Rightarrow> nat" where
  "tlb_set mmu virtaddr =
     unat (drop_bit (pagesize_log2 mmu) (virtaddr AND page_mask mmu) AND mmu.set_mask mmu)"

definition immu_find_tlbmr :: "u32 \<Rightarrow> mmu \<Rightarrow> machine \<Rightarrow> nat \<times> nat option" where
  "immu_find_tlbmr virtaddr immu m =
     (let vpn = virtaddr AND vpn_mask immu;
          itlbmr = SPR_ITLBMR_BASE 0 + tlb_set immu virtaddr
      in (itlbmr, tlb_scan (mmu_nways immu) itlbmr (vpn_mask immu) vpn SPR_ITLBMR_V m))"

definition dmmu_find_tlbmr :: "u32 \<Rightarrow> mmu \<Rightarrow> machine \<Rightarrow> nat \<times> nat option" where
  "dmmu_find_tlbmr virtaddr dmmu m =
     (let vpn = virtaddr AND vpn_mask dmmu;
          dtlbmr = SPR_DTLBMR_BASE 0 + tlb_set dmmu virtaddr
      in (dtlbmr, tlb_scan (mmu_nways dmmu) dtlbmr (vpn_mask dmmu) vpn SPR_DTLBMR_V m))"

section \<open>Instruction addresses\<close>

definition set_insn_ci :: "bool \<Rightarrow> machine \<Rightarrow> machine" where
  "set_insn_ci b m = m\<lparr>mem := (mem m)\<lparr>insn_ci := b\<rparr>\<rparr>"

definition set_data_ci :: "bool \<Rightarrow> machine \<Rightarrow> machine" where
  "set_data_ci b m = m\<lparr>mem := (mem m)\<lparr>data_ci := b\<rparr>\<rparr>"

definition immu_active :: "machine \<Rightarrow> bool" where
  "immu_active m \<longleftrightarrow> has (spr SPR_SR m) SPR_SR_IME \<and> has (spr SPR_UPR m) SPR_UPR_IMP"

definition dmmu_active :: "machine \<Rightarrow> bool" where
  "dmmu_active m \<longleftrightarrow> has (spr SPR_SR m) SPR_SR_DME \<and> has (spr SPR_UPR m) SPR_UPR_DMP"

text \<open>The page may not be executed in the current mode.\<close>

definition itlb_fault :: "u32 \<Rightarrow> machine \<Rightarrow> bool" where
  "itlb_fault itlbtr m \<longleftrightarrow>
     (if has (spr SPR_SR m) SPR_SR_SM then \<not> has itlbtr SPR_ITLBTR_SXE else \<not> has itlbtr SPR_ITLBTR_UXE)"

text \<open>The bookkeeping of a hit: statistics, usage counters, the cache inhibit bit, the delay.\<close>

definition itlb_hit :: "mmu \<Rightarrow> nat \<Rightarrow> nat \<Rightarrow> machine \<Rightarrow> machine" where
  "itlb_hit immu itlbmr_lru itlbmr m =
     (let m = m\<lparr>st := (st m)\<lparr>fetch_tlbhit := fetch_tlbhit (st m) + 1\<rparr>\<rparr>;
          itlbtr = itlbmr + 128;
          m = tlb_age (mmu_nways immu) itlbmr_lru SPR_ITLBMR_LRU m;
          m = spr_or itlbmr (lru_reload immu) m;
          m = set_insn_ci (has (spr itlbtr m) SPR_ITLBTR_CI) m
      in add_mem_cycles (mmu_hitdelay immu) m)"

definition immu_translate :: "u32 \<Rightarrow> machine \<Rightarrow> (u32 \<times> machine) res" where
  "immu_translate virtaddr m =
     (if \<not> immu_active m then Inr (virtaddr, set_insn_ci (0x80000000 \<le> virtaddr) m)
      else case immu_state m of
        None \<Rightarrow> Inl Null_deref
      | Some immu \<Rightarrow>
         (case immu_find_tlbmr virtaddr immu m of
            (itlbmr_lru, Some itlbmr) \<Rightarrow>
              let itlbtr = itlbmr + 128;
                  m = itlb_hit immu itlbmr_lru itlbmr m;
                  m = (if itlb_fault (spr itlbtr m) m then except_handle EXCEPT_IPF virtaddr m else m)
              in Inr ((spr itlbtr m AND SPR_ITLBTR_PPN) OR (virtaddr AND page_offset_mask immu), m)
          | (_, None) \<Rightarrow>
              let m = m\<lparr>st := (st m)\<lparr>fetch_tlbmiss := fetch_tlbmiss (st m) + 1\<rparr>\<rparr>;
                  m = add_mem_cycles (mmu_missdelay immu) m;
                  m = except_handle EXCEPT_ITLBMISS virtaddr m;
                  m = (if cfg_pcu_enabled (conf m) then pcu_count_event SPR_PCMR_ITLBM m else m)
              in Inr (0, m)))"

definition peek_into_itlb :: "u32 \<Rightarrow> machine \<Rightarrow> u32 res" where
  "peek_into_itlb virtaddr m =
     (if \<not> immu_active m then Inr virtaddr
      else case immu_state m of
        None \<Rightarrow> Inl Null_deref
      | Some immu \<Rightarrow>
         (case immu_find_tlbmr virtaddr immu m of
            (_, Some itlbmr) \<Rightarrow>
              let itlbtr = spr (itlbmr + 128) m
              in if itlb_fault itlbtr m then Inr 0
                 else Inr ((itlbtr AND SPR_ITLBTR_PPN) OR (virtaddr AND page_offset_mask immu))
          | (_, None) \<Rightarrow> Inr 0))"

section \<open>Data addresses\<close>

definition dtlb_fault :: "bool \<Rightarrow> u32 \<Rightarrow> machine \<Rightarrow> bool" where
  "dtlb_fault write_access dtlbtr m \<longleftrightarrow>
     (if has (spr SPR_SR m) SPR_SR_SM
      then (write_access \<and> \<not> has dtlbtr SPR_DTLBTR_SWE) \<or> (\<not> write_access \<and> \<not> has dtlbtr SPR_DTLBTR_SRE)
      else (write_access \<and> \<not> has dtlbtr SPR_DTLBTR_UWE) \<or> (\<not> write_access \<and> \<not> has dtlbtr SPR_DTLBTR_URE))"

text \<open>The bookkeeping of a hit: statistics, usage counters, the cache inhibit bit, the delay.\<close>

definition dtlb_hit :: "mmu \<Rightarrow> nat \<Rightarrow> nat \<Rightarrow> machine \<Rightarrow> machine" where
  "dtlb_hit dmmu dtlbmr_lru dtlbmr m =
     (let m = m\<lparr>st := (st m)\<lparr>loads_tlbhit := loads_tlbhit (st m) + 1\<rparr>\<rparr>;
          dtlbtr = dtlbmr + 128;
          m = tlb_age (mmu_nways dmmu) dtlbmr_lru SPR_DTLBMR_LRU m;
          m = spr_or dtlbmr (lru_reload dmmu) m;
          m = set_data_ci (has (spr dtlbtr m) SPR_DTLBTR_CI) m
      in add_mem_cycles (mmu_hitdelay dmmu) m)"

definition dmmu_translate :: "bool \<Rightarrow> u32 \<Rightarrow> machine \<Rightarrow> (u32 \<times> machine) res" where
  "dmmu_translate write_access virtaddr m =
     (if \<not> dmmu_active m then Inr (virtaddr, set_data_ci (0x80000000 \<le> virtaddr) m)
      else case dmmu_state m of
        None \<Rightarrow> Inl Null_deref
      | Some dmmu \<Rightarrow>
         (case dmmu_find_tlbmr virtaddr dmmu m of
            (dtlbmr_lru, Some dtlbmr) \<Rightarrow>
              let dtlbtr = dtlbmr + 128;
                  m = dtlb_hit dmmu dtlbmr_lru dtlbmr m;
                  m = (if dtlb_fault write_access (spr dtlbtr m) m then except_handle EXCEPT_DPF virtaddr m else m)
              in Inr ((spr dtlbtr m AND SPR_DTLBTR_PPN) OR (virtaddr AND page_offset_mask dmmu), m)
          | (_, None) \<Rightarrow>
              let m = m\<lparr>st := (st m)\<lparr>loads_tlbmiss := loads_tlbmiss (st m) + 1\<rparr>\<rparr>;
                  m = add_mem_cycles (mmu_missdelay dmmu) m;
                  m = except_handle EXCEPT_DTLBMISS virtaddr m;
                  m = (if cfg_pcu_enabled (conf m) then pcu_count_event SPR_PCMR_DTLBM m else m)
              in Inr (0, m)))"

definition peek_into_dtlb :: "u32 \<Rightarrow> bool \<Rightarrow> bool \<Rightarrow> machine \<Rightarrow> (u32 \<times> machine) res" where
  "peek_into_dtlb virtaddr write_access through_dc m =
     (if \<not> dmmu_active m
      then Inr (virtaddr, if through_dc then set_data_ci (0x80000000 \<le> virtaddr) m else m)
      else case dmmu_state m of
        None \<Rightarrow> Inl Null_deref
      | Some dmmu \<Rightarrow>
         (case dmmu_find_tlbmr virtaddr dmmu m of
            (_, Some dtlbmr) \<Rightarrow>
              let m = m\<lparr>st := (st m)\<lparr>loads_tlbhit := loads_tlbhit (st m) + 1\<rparr>\<rparr>;
                  dtlbtr = spr (dtlbmr + 128) m
              in if dtlb_fault write_access dtlbtr m then Inr (0, m)
                 else Inr ((dtlbtr AND SPR_DTLBTR_PPN) OR (virtaddr AND page_offset_mask dmmu),
                           if through_dc then set_data_ci (has dtlbtr SPR_DTLBTR_CI) m else m)
          | (_, None) \<Rightarrow> Inr (0, m)))"

section \<open>Configuration\<close>

text \<open>The configuration functions write through the pointer \<open>immu_start_sec\<close> stores in \<open>immu_state\<close>.\<close>

definition upd_immu :: "(mmu \<Rightarrow> mmu) \<Rightarrow> machine \<Rightarrow> machine" where
  "upd_immu f m = m\<lparr>immu_state := map_option f (immu_state m)\<rparr>"

definition upd_dmmu :: "(mmu \<Rightarrow> mmu) \<Rightarrow> machine \<Rightarrow> machine" where
  "upd_dmmu f m = m\<lparr>dmmu_state := map_option f (dmmu_state m)\<rparr>"

definition immu_enabled :: "int \<Rightarrow> machine \<Rightarrow> machine" where
  "immu_enabled val m =
     (let m = (if val \<noteq> 0 then spr_or SPR_UPR SPR_UPR_IMP m else spr_clear SPR_UPR SPR_UPR_IMP m)
      in upd_immu (\<lambda>i. i\<lparr>mmu_enabled := val \<noteq> 0\<rparr>) m)"

text \<open>The field \<open>f\<close> of a configuration register gets the number \<open>n\<close>.\<close>

definition set_cfgr :: "nat \<Rightarrow> u32 \<Rightarrow> nat \<Rightarrow> nat \<Rightarrow> machine \<Rightarrow> machine" where
  "set_cfgr r f off n m = spr_or r (push_bit off (of_nat n)) (spr_clear r f m)"

definition immu_nsets :: "int \<Rightarrow> machine \<Rightarrow> machine" where
  "immu_nsets val m =
     (if is_power2 val \<and> val \<le> 128
      then set_cfgr SPR_IMMUCFGR SPR_IMMUCFGR_NTS SPR_IMMUCFGR_NTS_OFF (log2_int (nat val))
             (upd_immu (\<lambda>i. i\<lparr>mmu_nsets := word_of_int val\<rparr>) m)
      else m)"

definition immu_nways :: "int \<Rightarrow> machine \<Rightarrow> machine" where
  "immu_nways val m =
     (if 1 \<le> val \<and> val \<le> 4
      then set_cfgr SPR_IMMUCFGR SPR_IMMUCFGR_NTW SPR_IMMUCFGR_NTW_OFF (nat (val - 1))
             (upd_immu (\<lambda>i. i\<lparr>mmu_nways := nat val\<rparr>) m)
      else m)"

definition immu_pagesize :: "int \<Rightarrow> machine \<Rightarrow> machine" where
  "immu_pagesize val m = (if is_power2 val then upd_immu (\<lambda>i. i\<lparr>pagesize := word_of_int val\<rparr>) m else m)"

definition immu_entrysize :: "int \<Rightarrow> machine \<Rightarrow> machine" where
  "immu_entrysize val m = (if is_power2 val then upd_immu (\<lambda>i. i\<lparr>entrysize := word_of_int val\<rparr>) m else m)"

definition immu_ustates :: "int \<Rightarrow> machine \<Rightarrow> machine" where
  "immu_ustates val m = (if 2 \<le> val \<and> val \<le> 4 then upd_immu (\<lambda>i. i\<lparr>mmu_ustates := nat val\<rparr>) m else m)"

definition immu_missdelay :: "int \<Rightarrow> machine \<Rightarrow> machine" where
  "immu_missdelay val = upd_immu (\<lambda>i. i\<lparr>mmu_missdelay := word_of_int val\<rparr>)"

definition immu_hitdelay :: "int \<Rightarrow> machine \<Rightarrow> machine" where
  "immu_hitdelay val = upd_immu (\<lambda>i. i\<lparr>mmu_hitdelay := word_of_int val\<rparr>)"

text \<open>\<open>fresh\<close> is the uninitialised block \<open>malloc\<close> returns.\<close>

definition immu_start_sec :: "mmu \<Rightarrow> machine \<Rightarrow> machine" where
  "immu_start_sec fresh m =
     (let immu = fresh\<lparr>mmu_enabled := False, mmu_nsets := 1, mmu_nways := 1, pagesize := 8192, entrysize := 1,
                       mmu_ustates := 2, mmu_hitdelay := 1, mmu_missdelay := 1\<rparr>;
          m = spr_clear SPR_UPR SPR_UPR_IMP m;
          m = set_cfgr SPR_IMMUCFGR SPR_IMMUCFGR_NTS SPR_IMMUCFGR_NTS_OFF (log2_int (unat (mmu_nsets immu))) m;
          m = set_cfgr SPR_IMMUCFGR SPR_IMMUCFGR_NTW SPR_IMMUCFGR_NTW_OFF (mmu_nways immu - 1) m
      in m\<lparr>immu_state := Some immu\<rparr>)"

text \<open>The masks used by the translation, the same computation in \<open>immu_end_sec\<close> and \<open>dmmu_end_sec\<close>.\<close>

definition mmu_masks :: "mmu \<Rightarrow> mmu" where
  "mmu_masks i =
     i\<lparr>pagesize_log2 := log2_int (unat (pagesize i)), page_offset_mask := pagesize i - 1,
       page_mask := NOT (pagesize i - 1), vpn_mask := NOT (pagesize i * mmu_nsets i - 1),
       mmu.set_mask := mmu_nsets i - 1, lru_reload := push_bit 6 (mmu_nsets i - 1) AND SPR_ITLBMR_LRU\<rparr>"

definition immu_end_sec :: "machine \<Rightarrow> machine" where
  "immu_end_sec = upd_immu mmu_masks"

definition dmmu_enabled :: "int \<Rightarrow> machine \<Rightarrow> machine" where
  "dmmu_enabled val m =
     (let m = (if val \<noteq> 0 then spr_or SPR_UPR SPR_UPR_DMP m else spr_clear SPR_UPR SPR_UPR_DMP m)
      in upd_dmmu (\<lambda>i. i\<lparr>mmu_enabled := val \<noteq> 0\<rparr>) m)"

definition dmmu_nsets :: "int \<Rightarrow> machine \<Rightarrow> machine" where
  "dmmu_nsets val m =
     (if is_power2 val \<and> val \<le> 128
      then set_cfgr SPR_DMMUCFGR SPR_DMMUCFGR_NTS SPR_DMMUCFGR_NTS_OFF (log2_int (nat val))
             (upd_dmmu (\<lambda>i. i\<lparr>mmu_nsets := word_of_int val\<rparr>) m)
      else m)"

definition dmmu_nways :: "int \<Rightarrow> machine \<Rightarrow> machine" where
  "dmmu_nways val m =
     (if 1 \<le> val \<and> val \<le> 4
      then set_cfgr SPR_DMMUCFGR SPR_DMMUCFGR_NTW SPR_DMMUCFGR_NTW_OFF (nat (val - 1))
             (upd_dmmu (\<lambda>i. i\<lparr>mmu_nways := nat val\<rparr>) m)
      else m)"

definition dmmu_pagesize :: "int \<Rightarrow> machine \<Rightarrow> machine" where
  "dmmu_pagesize val m = (if is_power2 val then upd_dmmu (\<lambda>i. i\<lparr>pagesize := word_of_int val\<rparr>) m else m)"

definition dmmu_entrysize :: "int \<Rightarrow> machine \<Rightarrow> machine" where
  "dmmu_entrysize val m = (if is_power2 val then upd_dmmu (\<lambda>i. i\<lparr>entrysize := word_of_int val\<rparr>) m else m)"

definition dmmu_ustates :: "int \<Rightarrow> machine \<Rightarrow> machine" where
  "dmmu_ustates val m = (if 2 \<le> val \<and> val \<le> 4 then upd_dmmu (\<lambda>i. i\<lparr>mmu_ustates := nat val\<rparr>) m else m)"

definition dmmu_missdelay :: "int \<Rightarrow> machine \<Rightarrow> machine" where
  "dmmu_missdelay val = upd_dmmu (\<lambda>i. i\<lparr>mmu_missdelay := word_of_int val\<rparr>)"

definition dmmu_hitdelay :: "int \<Rightarrow> machine \<Rightarrow> machine" where
  "dmmu_hitdelay val = upd_dmmu (\<lambda>i. i\<lparr>mmu_hitdelay := word_of_int val\<rparr>)"

definition dmmu_start_sec :: "mmu \<Rightarrow> machine \<Rightarrow> machine" where
  "dmmu_start_sec fresh m =
     (let dmmu = fresh\<lparr>mmu_enabled := False, mmu_nsets := 1, mmu_nways := 1, pagesize := 8192, entrysize := 1,
                       mmu_ustates := 2, mmu_hitdelay := 1, mmu_missdelay := 1\<rparr>;
          m = spr_clear SPR_UPR SPR_UPR_DMP m;
          m = set_cfgr SPR_DMMUCFGR SPR_DMMUCFGR_NTS SPR_DMMUCFGR_NTS_OFF (log2_int (unat (mmu_nsets dmmu))) m;
          m = set_cfgr SPR_DMMUCFGR SPR_DMMUCFGR_NTW SPR_DMMUCFGR_NTW_OFF (mmu_nways dmmu - 1) m
      in m\<lparr>dmmu_state := Some dmmu\<rparr>)"

definition dmmu_end_sec :: "machine \<Rightarrow> machine" where
  "dmmu_end_sec = upd_dmmu mmu_masks"

end
