(* ===== verification/Cache.thy ===== *)
theory Cache
  imports Mmu
begin

text \<open>
  The caches: \<open>cache/icache-model.c\<close> and \<open>cache/dcache-model.c\<close>. The instruction cache keeps its lines in one
  block of host memory, way after way of each set; the data cache in the array \<open>dc\<close> of sets of ways. The
  data cache writes through. A \<open>NULL\<close> \<open>ic_state\<close> that an access follows is \<open>Inl Null_deref\<close>.
\<close>

section \<open>Instruction cache\<close>

abbreviation (input) MAX_IC_SETS :: int where "MAX_IC_SETS \<equiv> 1024"
abbreviation (input) MAX_IC_WAYS :: int where "MAX_IC_WAYS \<equiv> 32"
abbreviation (input) MIN_IC_BLOCK_SIZE :: int where "MIN_IC_BLOCK_SIZE \<equiv> 16"
abbreviation (input) MAX_IC_BLOCK_SIZE :: int where "MAX_IC_BLOCK_SIZE \<equiv> 32"

text \<open>The indices \<open>for (way = set; way < ic->last_way; way += ic->nsets)\<close> runs through.\<close>

function ways_from :: "nat \<Rightarrow> nat \<Rightarrow> nat \<Rightarrow> nat list" where
  "ways_from way step last_way =
     (if way < last_way \<and> 0 < step then way # ways_from (way + step) step last_way else [])"
  by pat_completeness auto
termination by (relation "measure (\<lambda>(way, step, last_way). last_way - way)") auto

declare ways_from.simps [simp del]

definition ic_set :: "ic \<Rightarrow> u32 \<Rightarrow> nat" where
  "ic_set ic addr = unat (drop_bit (ic_blocksize_log2 ic) (addr AND ic_set_mask ic))"

definition ic_ways :: "ic \<Rightarrow> nat \<Rightarrow> nat list" where
  "ic_ways ic sidx = ways_from sidx (unat (ic_nsets ic)) (unat (ic_last_way ic))"

definition set_ic :: "ic \<Rightarrow> machine \<Rightarrow> machine" where
  "set_ic ic m = m\<lparr>ic_state := Some ic\<rparr>"

text \<open>The usage counters after a hit in \<open>way\<close>, and the way that is replaced on a miss.\<close>

definition ic_hit_lrus :: "nat \<Rightarrow> nat \<Rightarrow> ic \<Rightarrow> ic" where
  "ic_hit_lrus sidx way ic =
     (let ic = fold (\<lambda>lru_way ic. if ic_lrus ic way < ic_lrus ic lru_way
                                  then ic\<lparr>ic_lrus := (ic_lrus ic)(lru_way := ic_lrus ic lru_way - 1)\<rparr> else ic)
                 (ic_ways ic sidx) ic
      in ic\<lparr>ic_lrus := (ic_lrus ic)(way := ic_ustates_reload ic)\<rparr>)"

definition ic_victim :: "ic \<Rightarrow> nat \<Rightarrow> nat" where
  "ic_victim ic sidx =
     fst (fold (\<lambda>lru_way (way, minlru).
                  if ic_lrus ic lru_way < minlru then (lru_way, ic_lrus ic lru_way) else (way, minlru))
            (ic_ways ic sidx) (sidx, ic_ustates_reload ic))"

definition ic_replace :: "nat \<Rightarrow> nat \<Rightarrow> u32 \<Rightarrow> ic \<Rightarrow> ic" where
  "ic_replace sidx way tagaddr ic =
     (let ic = ic\<lparr>ic_tags := (ic_tags ic)(way := tagaddr)\<rparr>;
          ic = fold (\<lambda>lru_way ic. if ic_lrus ic lru_way \<noteq> 0
                                  then ic\<lparr>ic_lrus := (ic_lrus ic)(lru_way := ic_lrus ic lru_way - 1)\<rparr> else ic)
                 (ic_ways ic sidx) ic
      in ic\<lparr>ic_lrus := (ic_lrus ic)(way := ic_ustates_reload ic)\<rparr>)"

text \<open>
  The refill loop; its result tells whether the whole line was read. Offsets are below \<open>2 * blocksize\<close>, so
  the second condition, which keeps the counter from wrapping, always holds.
\<close>

function ic_refill :: "u32 \<Rightarrow> nat \<Rightarrow> u32 \<Rightarrow> u32 \<Rightarrow> ic \<Rightarrow> machine \<Rightarrow> (bool \<times> ic \<times> machine) res" where
  "ic_refill fetchaddr way reload_addr reload_end ic m =
     (if reload_addr < reload_end \<and> reload_addr \<le> 0xfffffffb
      then bind_res (evalsim_mem32 (fetchaddr OR (reload_addr AND ic_block_offset_mask ic)) 0 m) (\<lambda>(tmp, m).
             let at = way * 2 ^ ic_blocksize_log2 ic + unat (reload_addr AND ic_block_offset_mask ic);
                 ic = ic\<lparr>ic_mem := host_write32 at tmp (ic_mem ic)\<rparr>
             in if cur_area (mem m) = None
                then Inr (False, ic\<lparr>ic_tags := (ic_tags ic)(way := -1), ic_lrus := (ic_lrus ic)(way := 0)\<rparr>, m)
                else ic_refill fetchaddr way (reload_addr + 4) reload_end ic m)
      else Inr (True, ic, m))"
  by pat_completeness auto
termination
proof (relation "measure (\<lambda>(fetchaddr, way, reload_addr, reload_end, ic, m). 2 ^ 32 - unat reload_addr)")
  fix reload_addr reload_end :: u32
  assume "reload_addr < reload_end \<and> reload_addr \<le> 0xfffffffb"
  then have "unat reload_addr + 4 < 2 ^ 32" by (simp add: word_le_nat_alt)
  then have "unat (reload_addr + 4) = unat reload_addr + 4" using unat_add_small[of reload_addr 4] by simp
  with \<open>unat reload_addr + 4 < 2 ^ 32\<close>
  show "((f, w, reload_addr + 4, reload_end, i, n), f, w, reload_addr, reload_end, i', n')
      \<in> measure (\<lambda>(fetchaddr, way, reload_addr, reload_end, ic, m). 2 ^ 32 - unat reload_addr)" for f w i n i' n'
    by simp
qed simp

declare ic_refill.simps [simp del]

definition ic_read :: "ic \<Rightarrow> nat \<Rightarrow> u32 \<Rightarrow> u32" where
  "ic_read ic way addr =
     host_read32 (ic_mem ic) (way * 2 ^ ic_blocksize_log2 ic + unat (addr AND ic_block_offset_mask ic))"

definition ic_simulate_fetch :: "u32 \<Rightarrow> u32 \<Rightarrow> machine \<Rightarrow> (u32 \<times> machine) res" where
  "ic_simulate_fetch fetchaddr virt_addr m =
     (if \<not> has (spr SPR_UPR m) SPR_UPR_ICP \<or> \<not> has (spr SPR_SR m) SPR_SR_ICE \<or> insn_ci (mem m)
      then evalsim_mem32 fetchaddr virt_addr m
      else case ic_state m of
        None \<Rightarrow> Inl Null_deref
      | Some ic \<Rightarrow>
         (let sidx = ic_set ic fetchaddr;
              tagaddr = fetchaddr AND ic_tagaddr_mask ic
          in case find (\<lambda>way. ic_tags ic way = tagaddr) (ic_ways ic sidx) of
               Some way \<Rightarrow>
                 let m = m\<lparr>st := (st m)\<lparr>ic_readhit := ic_readhit (st m) + 1\<rparr>\<rparr>;
                     ic = ic_hit_lrus sidx way ic;
                     m = add_mem_cycles (ic_hitdelay ic) (set_ic ic m)
                 in Inr (ic_read ic way fetchaddr, m)
             | None \<Rightarrow>
                 let way = ic_victim ic sidx;
                     m = m\<lparr>st := (st m)\<lparr>ic_readmiss := ic_readmiss (st m) + 1\<rparr>\<rparr>;
                     ic = ic_replace sidx way tagaddr ic;
                     reload_addr = fetchaddr AND ic_block_offset_mask ic;
                     reload_end = reload_addr + ic_blocksize ic
                 in bind_res (ic_refill (fetchaddr AND ic_block_mask ic) way reload_addr reload_end ic m)
                      (\<lambda>(complete, ic, m).
                         if \<not> complete then Inr (0, set_ic ic m)
                         else let m = add_mem_cycles (ic_missdelay ic) (set_ic ic m);
                                  m = (if cfg_pcu_enabled (conf m) then pcu_count_event SPR_PCMR_ICM m else m)
                              in Inr (ic_read ic way fetchaddr, m))))"

definition ic_inv :: "u32 \<Rightarrow> machine \<Rightarrow> machine res" where
  "ic_inv dataaddr m =
     (if \<not> has (spr SPR_UPR m) SPR_UPR_ICP then Inr m
      else case ic_state m of
        None \<Rightarrow> Inl Null_deref
      | Some ic \<Rightarrow>
         (let sidx = ic_set ic dataaddr;
              tagaddr = dataaddr AND ic_tagaddr_mask ic;
              clear = (\<lambda>way ic. ic\<lparr>ic_tags := (ic_tags ic)(way := -1), ic_lrus := (ic_lrus ic)(way := 0)\<rparr>)
          in if \<not> has (spr SPR_SR m) SPR_SR_ICE
             then Inr (set_ic (fold clear (ic_ways ic sidx) ic) m)
             else Inr (set_ic (fold (\<lambda>way ic. if ic_tags ic way = tagaddr then clear way ic else ic)
                                 (ic_ways ic sidx) ic) m)))"

section \<open>Configuration of the instruction cache\<close>

definition upd_ic :: "(ic \<Rightarrow> ic) \<Rightarrow> machine \<Rightarrow> machine" where
  "upd_ic f m = m\<lparr>ic_state := map_option f (ic_state m)\<rparr>"

definition ic_cfg_enabled :: "int \<Rightarrow> machine \<Rightarrow> machine" where
  "ic_cfg_enabled val m =
     (let m = upd_ic (\<lambda>ic. ic\<lparr>ic_enabled := val \<noteq> 0\<rparr>) m
      in if val \<noteq> 0 then spr_or SPR_UPR SPR_UPR_ICP m else spr_clear SPR_UPR SPR_UPR_ICP m)"

definition ic_cfg_nsets :: "int \<Rightarrow> machine \<Rightarrow> machine" where
  "ic_cfg_nsets val m =
     (if is_power2 val \<and> val \<le> MAX_IC_SETS
      then set_cfgr SPR_ICCFGR SPR_ICCFGR_NCS SPR_ICCFGR_NCS_OFF (log2_int (nat val))
             (upd_ic (\<lambda>ic. ic\<lparr>ic_nsets := word_of_int val\<rparr>) m)
      else m)"

definition ic_cfg_nways :: "int \<Rightarrow> machine \<Rightarrow> machine" where
  "ic_cfg_nways val m =
     (if is_power2 val \<and> val \<le> MAX_IC_WAYS
      then set_cfgr SPR_ICCFGR SPR_ICCFGR_NCW SPR_ICCFGR_NCW_OFF (log2_int (nat val))
             (upd_ic (\<lambda>ic. ic\<lparr>ic_nways := word_of_int val\<rparr>) m)
      else m)"

definition ic_cfg_blocksize :: "int \<Rightarrow> machine \<Rightarrow> machine" where
  "ic_cfg_blocksize val m =
     (if val = MIN_IC_BLOCK_SIZE
      then spr_clear SPR_ICCFGR SPR_ICCFGR_CBS (upd_ic (\<lambda>ic. ic\<lparr>ic_blocksize := word_of_int val\<rparr>) m)
      else if val = MAX_IC_BLOCK_SIZE
      then spr_or SPR_ICCFGR SPR_ICCFGR_CBS (upd_ic (\<lambda>ic. ic\<lparr>ic_blocksize := word_of_int val\<rparr>) m)
      else m)"

definition ic_cfg_ustates :: "int \<Rightarrow> machine \<Rightarrow> machine" where
  "ic_cfg_ustates val m =
     (if 2 \<le> val \<and> val \<le> 4 then upd_ic (\<lambda>ic. ic\<lparr>ic_ustates := word_of_int val\<rparr>) m else m)"

definition ic_cfg_hitdelay :: "int \<Rightarrow> machine \<Rightarrow> machine" where
  "ic_cfg_hitdelay val = upd_ic (\<lambda>ic. ic\<lparr>ic_hitdelay := word_of_int val\<rparr>)"

definition ic_cfg_missdelay :: "int \<Rightarrow> machine \<Rightarrow> machine" where
  "ic_cfg_missdelay val = upd_ic (\<lambda>ic. ic\<lparr>ic_missdelay := word_of_int val\<rparr>)"

definition ic_start_sec :: "ic \<Rightarrow> machine \<Rightarrow> machine" where
  "ic_start_sec fresh m =
     (let ic = fresh\<lparr>ic_enabled := False, ic_nsets := 1, ic_nways := 1, ic_blocksize := 16, ic_ustates := 2,
                     ic_hitdelay := 1, ic_missdelay := 1\<rparr>;
          m = spr_clear SPR_UPR SPR_UPR_ICP m;
          m = set_cfgr SPR_ICCFGR SPR_ICCFGR_NCS SPR_ICCFGR_NCS_OFF (log2_int (unat (ic_nsets ic))) m;
          m = set_cfgr SPR_ICCFGR SPR_ICCFGR_NCW SPR_ICCFGR_NCW_OFF (log2_int (unat (ic_nways ic))) m;
          m = spr_clear SPR_ICCFGR SPR_ICCFGR_CBS m
      in set_ic ic m)"

definition ic_end_sec :: "machine \<Rightarrow> machine" where
  "ic_end_sec =
     upd_ic (\<lambda>ic.
       let ic = (if ic_nways ic * ic_nsets ic * ic_blocksize ic \<noteq> 0
                 then ic\<lparr>ic_mem := (\<lambda>_. 0), ic_lrus := (\<lambda>_. 0), ic_tags := (\<lambda>_. -1)\<rparr>
                 else ic\<lparr>ic_enabled := False\<rparr>);
           ic = ic\<lparr>ic_blocksize_log2 := log2_int (unat (ic_blocksize ic))\<rparr>
       in ic\<lparr>ic_set_mask := push_bit (ic_blocksize_log2 ic) (ic_nsets ic - 1),
             ic_tagaddr_mask := NOT (ic_nsets ic * ic_blocksize ic - 1),
             ic_last_way := ic_nsets ic * ic_nways ic,
             ic_block_offset_mask := ic_blocksize ic - 1,
             ic_block_mask := NOT (ic_blocksize ic - 1),
             ic_ustates_reload := ic_ustates ic - 1\<rparr>)"

section \<open>Data cache\<close>

abbreviation (input) MAX_DC_SETS :: int where "MAX_DC_SETS \<equiv> 1024"
abbreviation (input) MAX_DC_WAYS :: int where "MAX_DC_WAYS \<equiv> 32"
abbreviation (input) MIN_DC_BLOCK_SIZE :: int where "MIN_DC_BLOCK_SIZE \<equiv> 16"
abbreviation (input) MAX_DC_BLOCK_SIZE :: int where "MAX_DC_BLOCK_SIZE \<equiv> 32"

definition dcc :: "machine \<Rightarrow> dc_config" where
  "dcc m = cfg_dc (conf m)"

definition dc_set :: "u32 \<Rightarrow> machine \<Rightarrow> nat" where
  "dc_set dataaddr m = unat ((dataaddr div dc_blocksize (dcc m)) mod dc_nsets (dcc m))"

definition dc_tag :: "u32 \<Rightarrow> machine \<Rightarrow> u32" where
  "dc_tag dataaddr m = (dataaddr div dc_blocksize (dcc m)) div dc_nsets (dcc m)"

text \<open>The index of the word of an address in its line.\<close>

definition dc_index :: "u32 \<Rightarrow> machine \<Rightarrow> nat" where
  "dc_index dataaddr m = unat (drop_bit 2 (dataaddr AND (dc_blocksize (dcc m) - 1)))"

definition upd_dc :: "nat \<Rightarrow> nat \<Rightarrow> (dc_way \<Rightarrow> dc_way) \<Rightarrow> machine \<Rightarrow> machine" where
  "upd_dc i w f m = m\<lparr>dc := (dc m)(i := (dc m i)(w := f (dc m i w)))\<rparr>"

definition dc_ways :: "machine \<Rightarrow> nat list" where
  "dc_ways m = [0..<dc_nways (dcc m)]"

text \<open>The scan keeps the last matching way.\<close>

definition dc_find :: "nat \<Rightarrow> u32 \<Rightarrow> machine \<Rightarrow> nat option" where
  "dc_find i tagaddr m =
     fold (\<lambda>w way. if dc_tagaddr (dc m i w) = tagaddr then Some w else way) (dc_ways m) None"

definition dc_hit :: "nat \<Rightarrow> nat \<Rightarrow> machine \<Rightarrow> machine" where
  "dc_hit i way m =
     (let m = fold (\<lambda>w m. if dc_lru (dc m i way) < dc_lru (dc m i w)
                          then upd_dc i w (\<lambda>l. l\<lparr>dc_lru := dc_lru l - 1\<rparr>) m else m) (dc_ways m) m
      in upd_dc i way (\<lambda>l. l\<lparr>dc_lru := dc_ustates (dcc m) - 1\<rparr>) m)"

text \<open>The way a read miss replaces; a write miss does not update \<open>minlru\<close>.\<close>

definition dc_read_victim :: "nat \<Rightarrow> machine \<Rightarrow> nat" where
  "dc_read_victim i m =
     fst (fold (\<lambda>w (minway, minlru). if dc_lru (dc m i w) < minlru then (w, dc_lru (dc m i w)) else (minway, minlru))
            (dc_ways m) (0, dc_ustates (dcc m) - 1))"

definition dc_write_victim :: "nat \<Rightarrow> machine \<Rightarrow> nat" where
  "dc_write_victim i m =
     fold (\<lambda>w minway. if dc_lru (dc m i w) < dc_ustates (dcc m) - 1 then w else minway) (dc_ways m) 0"

text \<open>The loop that reads a line; its result tells whether the whole line was read.\<close>

fun dc_refill :: "u32 \<Rightarrow> nat \<Rightarrow> nat \<Rightarrow> u32 list \<Rightarrow> machine \<Rightarrow> (bool \<times> machine) res" where
  "dc_refill dataaddr i way [] m = Inr (True, m)"
| "dc_refill dataaddr i way (k # ks) m =
     (let bs = dc_blocksize (dcc m)
      in bind_res (evalsim_mem32 ((dataaddr AND NOT (bs - 1)) + (((dataaddr AND NOT 3) + k) AND (bs - 1))) 0 m)
           (\<lambda>(tmp, m).
              let m = upd_dc i way (\<lambda>l. l\<lparr>dc_line := (dc_line l)(dc_index (dataaddr + k) m := tmp)\<rparr>) m
              in if cur_area (mem m) = None
                 then Inr (False, upd_dc i way (\<lambda>l. l\<lparr>dc_tagaddr := -1, dc_lru := 0\<rparr>) m)
                 else dc_refill dataaddr i way ks m))"

text \<open>The offsets \<open>for (i = 0; i < blocksize; i += 4)\<close> runs through.\<close>

definition dc_offsets :: "machine \<Rightarrow> u32 list" where
  "dc_offsets m = map (\<lambda>k. of_nat (4 * k)) [0..<(unat (dc_blocksize (dcc m)) + 3) div 4]"

definition dc_replace :: "nat \<Rightarrow> nat \<Rightarrow> u32 \<Rightarrow> machine \<Rightarrow> machine" where
  "dc_replace i way tagaddr m =
     (let m = upd_dc i way (\<lambda>l. l\<lparr>dc_tagaddr := tagaddr\<rparr>) m;
          m = fold (\<lambda>w m. if dc_lru (dc m i w) \<noteq> 0
                          then upd_dc i w (\<lambda>l. l\<lparr>dc_lru := dc_lru l - 1\<rparr>) m else m) (dc_ways m) m
      in upd_dc i way (\<lambda>l. l\<lparr>dc_lru := dc_ustates (dcc m) - 1\<rparr>) m)"

text \<open>The bytes of a word that an access of \<open>width\<close> bytes takes; \<open>0\<close> for other widths.\<close>

definition dc_extract :: "u32 \<Rightarrow> nat \<Rightarrow> u32 \<Rightarrow> u32" where
  "dc_extract dataaddr width tmp =
     (if width = 4 then tmp
      else if width = 2 then drop_bit (if has dataaddr 2 then 0 else 16) tmp AND 0xffff
      else if width = 1 then drop_bit (unat (8 * (3 - (dataaddr AND 3)))) tmp AND 0xff
      else 0)"

definition dc_insert :: "u32 \<Rightarrow> nat \<Rightarrow> u32 \<Rightarrow> u32 \<Rightarrow> u32" where
  "dc_insert dataaddr width data tmp =
     (if width = 4 then data
      else if width = 2
      then (tmp AND push_bit (if has dataaddr 2 then 16 else 0) 0xffff)
           OR push_bit (if has dataaddr 2 then 0 else 16) (data AND 0xffff)
      else if width = 1
      then (tmp AND NOT (push_bit (unat (8 * (3 - (dataaddr AND 3)))) 0xff))
           OR push_bit (unat (8 * (3 - (dataaddr AND 3)))) (data AND 0xff)
      else tmp)"

definition dc_active :: "machine \<Rightarrow> bool" where
  "dc_active m \<longleftrightarrow> has (spr SPR_UPR m) SPR_UPR_DCP \<and> has (spr SPR_SR m) SPR_SR_DCE \<and> \<not> data_ci (mem m)"

text \<open>The accesses that bypass the cache.\<close>

definition read_width :: "u32 \<Rightarrow> u32 \<Rightarrow> nat \<Rightarrow> machine \<Rightarrow> (u32 \<times> machine) res" where
  "read_width dataaddr virt_addr width m =
     (if width = 4 then evalsim_mem32 dataaddr virt_addr m
      else if width = 2 then bind_res (evalsim_mem16 dataaddr virt_addr m) (\<lambda>(v, m). Inr (ucast v, m))
      else if width = 1 then bind_res (evalsim_mem8 dataaddr virt_addr m) (\<lambda>(v, m). Inr (ucast v, m))
      else Inr (0, m))"

definition write_width :: "u32 \<Rightarrow> u32 \<Rightarrow> u32 \<Rightarrow> nat \<Rightarrow> machine \<Rightarrow> machine res" where
  "write_width dataaddr virt_addr data width m =
     (if width = 4 then setsim_mem32 dataaddr virt_addr data m
      else if width = 2 then setsim_mem16 dataaddr virt_addr (ucast data) m
      else if width = 1 then setsim_mem8 dataaddr virt_addr (ucast data) m
      else Inr m)"

definition dc_simulate_read :: "u32 \<Rightarrow> u32 \<Rightarrow> nat \<Rightarrow> machine \<Rightarrow> (u32 \<times> machine) res" where
  "dc_simulate_read dataaddr virt_addr width m =
     (if \<not> dc_active m then read_width dataaddr virt_addr width m
      else
        let i = dc_set dataaddr m; tagaddr = dc_tag dataaddr m
        in case dc_find i tagaddr m of
             Some way \<Rightarrow>
               let m = m\<lparr>st := (st m)\<lparr>dc_readhit := dc_readhit (st m) + 1\<rparr>\<rparr>;
                   m = dc_hit i way m;
                   m = add_mem_cycles (dc_load_hitdelay (dcc m)) m
               in Inr (dc_extract dataaddr width (dc_line (dc m i way) (dc_index dataaddr m)), m)
           | None \<Rightarrow>
               let m = m\<lparr>st := (st m)\<lparr>dc_readmiss := dc_readmiss (st m) + 1\<rparr>\<rparr>;
                   minway = dc_read_victim i m
               in bind_res (dc_refill dataaddr i minway (dc_offsets m) m) (\<lambda>(complete, m).
                    if \<not> complete then Inr (0, m)
                    else let m = dc_replace i minway tagaddr m;
                             m = add_mem_cycles (dc_load_missdelay (dcc m)) m;
                             m = (if cfg_pcu_enabled (conf m) then pcu_count_event SPR_PCMR_DCM m else m)
                         in Inr (dc_extract dataaddr width (dc_line (dc m i minway) (dc_index dataaddr m)), m)))"

definition dc_simulate_write :: "u32 \<Rightarrow> u32 \<Rightarrow> u32 \<Rightarrow> nat \<Rightarrow> machine \<Rightarrow> machine res" where
  "dc_simulate_write dataaddr virt_addr data width m =
     bind_res (write_width dataaddr virt_addr data width m) (\<lambda>m.
       if \<not> dc_active m \<or> cur_area (mem m) = None then Inr m
       else
         let i = dc_set dataaddr m; tagaddr = dc_tag dataaddr m
         in case dc_find i tagaddr m of
              Some way \<Rightarrow>
                let m = m\<lparr>st := (st m)\<lparr>dc_writehit := dc_writehit (st m) + 1\<rparr>\<rparr>;
                    m = dc_hit i way m;
                    m = add_mem_cycles (dc_store_hitdelay (dcc m)) m;
                    tmp = dc_insert dataaddr width data (dc_line (dc m i way) (dc_index dataaddr m))
                in Inr (upd_dc i way (\<lambda>l. l\<lparr>dc_line := (dc_line l)(dc_index dataaddr m := tmp)\<rparr>) m)
            | None \<Rightarrow>
                let m = m\<lparr>st := (st m)\<lparr>dc_writemiss := dc_writemiss (st m) + 1\<rparr>\<rparr>;
                    minway = dc_write_victim i m
                in bind_res (dc_refill dataaddr i minway (dc_offsets m) m) (\<lambda>(complete, m).
                     if \<not> complete then Inr m
                     else let m = dc_replace i minway tagaddr m;
                              m = add_mem_cycles (dc_store_missdelay (dcc m)) m
                          in Inr (if cfg_pcu_enabled (conf m) then pcu_count_event SPR_PCMR_DCM m else m)))"

definition dc_inv :: "u32 \<Rightarrow> machine \<Rightarrow> machine" where
  "dc_inv dataaddr m =
     (let clear = (\<lambda>i w. upd_dc i w (\<lambda>l. l\<lparr>dc_tagaddr := -1, dc_lru := 0\<rparr>));
          i = dc_set dataaddr m; tagaddr = dc_tag dataaddr m
      in if \<not> has (spr SPR_UPR m) SPR_UPR_DCP then m
         else if \<not> has (spr SPR_SR m) SPR_SR_DCE then fold (clear i) (dc_ways m) m
         else case dc_find i tagaddr m of None \<Rightarrow> m | Some way \<Rightarrow> clear i way m)"

section \<open>Configuration of the data cache\<close>

definition upd_dcc :: "(dc_config \<Rightarrow> dc_config) \<Rightarrow> machine \<Rightarrow> machine" where
  "upd_dcc f m = m\<lparr>conf := (conf m)\<lparr>cfg_dc := f (dcc m)\<rparr>\<rparr>"

definition dc_cfg_enabled :: "int \<Rightarrow> machine \<Rightarrow> machine" where
  "dc_cfg_enabled val m =
     upd_dcc (\<lambda>d. d\<lparr>dc_enabled := val \<noteq> 0\<rparr>)
       (if val \<noteq> 0 then spr_or SPR_UPR SPR_UPR_DCP m else spr_clear SPR_UPR SPR_UPR_DCP m)"

definition dc_cfg_nsets :: "int \<Rightarrow> machine \<Rightarrow> machine" where
  "dc_cfg_nsets val m =
     (if is_power2 val \<and> val \<le> MAX_DC_SETS
      then set_cfgr SPR_DCCFGR SPR_DCCFGR_NCS SPR_DCCFGR_NCS_OFF (log2_int (nat val))
             (upd_dcc (\<lambda>d. d\<lparr>dc_nsets := word_of_int val\<rparr>) m)
      else m)"

definition dc_cfg_nways :: "int \<Rightarrow> machine \<Rightarrow> machine" where
  "dc_cfg_nways val m =
     (if is_power2 val \<and> val \<le> MAX_DC_WAYS
      then set_cfgr SPR_DCCFGR SPR_DCCFGR_NCW SPR_DCCFGR_NCW_OFF (log2_int (nat val))
             (upd_dcc (\<lambda>d. d\<lparr>dc_nways := nat val\<rparr>) m)
      else m)"

definition dc_cfg_blocksize :: "int \<Rightarrow> machine \<Rightarrow> machine" where
  "dc_cfg_blocksize val m =
     (if val = MIN_DC_BLOCK_SIZE
      then spr_clear SPR_DCCFGR SPR_DCCFGR_CBS (upd_dcc (\<lambda>d. d\<lparr>dc_blocksize := word_of_int val\<rparr>) m)
      else if val = MAX_DC_BLOCK_SIZE
      then spr_or SPR_DCCFGR SPR_DCCFGR_CBS (upd_dcc (\<lambda>d. d\<lparr>dc_blocksize := word_of_int val\<rparr>) m)
      else m)"

definition dc_cfg_ustates :: "int \<Rightarrow> machine \<Rightarrow> machine" where
  "dc_cfg_ustates val m =
     (if 2 \<le> val \<and> val \<le> 4 then upd_dcc (\<lambda>d. d\<lparr>dc_ustates := nat val\<rparr>) m else m)"

definition dc_cfg_load_hitdelay :: "int \<Rightarrow> machine \<Rightarrow> machine" where
  "dc_cfg_load_hitdelay val = upd_dcc (\<lambda>d. d\<lparr>dc_load_hitdelay := word_of_int val\<rparr>)"

definition dc_cfg_load_missdelay :: "int \<Rightarrow> machine \<Rightarrow> machine" where
  "dc_cfg_load_missdelay val = upd_dcc (\<lambda>d. d\<lparr>dc_load_missdelay := word_of_int val\<rparr>)"

definition dc_cfg_store_hitdelay :: "int \<Rightarrow> machine \<Rightarrow> machine" where
  "dc_cfg_store_hitdelay val = upd_dcc (\<lambda>d. d\<lparr>dc_store_hitdelay := word_of_int val\<rparr>)"

definition dc_cfg_store_missdelay :: "int \<Rightarrow> machine \<Rightarrow> machine" where
  "dc_cfg_store_missdelay val = upd_dcc (\<lambda>d. d\<lparr>dc_store_missdelay := word_of_int val\<rparr>)"

end
