(* ===== verification/Phys.thy ===== *)
theory Phys
  imports Cache
begin

text \<open>
  The physical address space as a byte memory. Locale \<open>data_memory\<close> is the contract of a memory the CPU can
  load from and store to; this theory shows that the accesses of \<open>abstract.c\<close> keep it where RAM is mapped,
  the theory \<open>Cache_Props\<close> that the data cache does.
\<close>

section \<open>Loads and stores\<close>

definition be_load :: "(u32 \<Rightarrow> u8) \<Rightarrow> u32 \<Rightarrow> nat \<Rightarrow> u32" where
  "be_load f a width =
     (if width = 4 then be32 (f a) (f (a + 1)) (f (a + 2)) (f (a + 3))
      else if width = 2 then ucast (be16 (f a) (f (a + 1)))
      else if width = 1 then ucast (f a) else 0)"

definition be_store :: "(u32 \<Rightarrow> u8) \<Rightarrow> u32 \<Rightarrow> nat \<Rightarrow> u32 \<Rightarrow> u32 \<Rightarrow> u8" where
  "be_store f a width v =
     (if width = 4 then f(a := be_byte32 v 0, a + 1 := be_byte32 v 1, a + 2 := be_byte32 v 2, a + 3 := be_byte32 v 3)
      else if width = 2 then f(a := be_byte16 (ucast v) 0, a + 1 := be_byte16 (ucast v) 1)
      else if width = 1 then f(a := ucast v) else f)"

definition aligned :: "u32 \<Rightarrow> nat \<Rightarrow> bool" where
  "aligned a width \<longleftrightarrow> (width = 4 \<and> a AND 3 = 0) \<or> (width = 2 \<and> a AND 1 = 0) \<or> width = 1"

datatype access = Load u32 nat | Store u32 nat u32

fun access_ok :: "(u32 \<Rightarrow> bool) \<Rightarrow> access \<Rightarrow> bool" where
  "access_ok ram (Load a width) \<longleftrightarrow> aligned a width \<and> ram a"
| "access_ok ram (Store a width v) \<longleftrightarrow> aligned a width \<and> ram a"

text \<open>A sequence of accesses on a byte memory, and through given access functions.\<close>

fun spec_accesses :: "access list \<Rightarrow> (u32 \<Rightarrow> u8) \<Rightarrow> u32 list \<times> (u32 \<Rightarrow> u8)" where
  "spec_accesses [] f = ([], f)"
| "spec_accesses (Load a width # as) f = (let (vs, g) = spec_accesses as f in (be_load f a width # vs, g))"
| "spec_accesses (Store a width v # as) f = spec_accesses as (be_store f a width v)"

fun run_accesses :: "(u32 \<Rightarrow> u32 \<Rightarrow> nat \<Rightarrow> machine \<Rightarrow> (u32 \<times> machine) res)
    \<Rightarrow> (u32 \<Rightarrow> u32 \<Rightarrow> u32 \<Rightarrow> nat \<Rightarrow> machine \<Rightarrow> machine res) \<Rightarrow> access list \<Rightarrow> machine \<Rightarrow> (u32 list \<times> machine) res" where
  "run_accesses rd wr [] m = Inr ([], m)"
| "run_accesses rd wr (Load a width # as) m =
     bind_res (rd a a width m) (\<lambda>(v, m). bind_res (run_accesses rd wr as m) (\<lambda>(vs, m). Inr (v # vs, m)))"
| "run_accesses rd wr (Store a width v # as) m =
     bind_res (wr a a v width m) (\<lambda>m. run_accesses rd wr as m)"

locale data_memory =
  fixes ok :: "machine \<Rightarrow> bool"
    and ram :: "machine \<Rightarrow> u32 \<Rightarrow> bool"
    and byte :: "machine \<Rightarrow> u32 \<Rightarrow> u8"
    and rd :: "u32 \<Rightarrow> u32 \<Rightarrow> nat \<Rightarrow> machine \<Rightarrow> (u32 \<times> machine) res"
    and wr :: "u32 \<Rightarrow> u32 \<Rightarrow> u32 \<Rightarrow> nat \<Rightarrow> machine \<Rightarrow> machine res"
  assumes rd_law: "ok m \<Longrightarrow> aligned a width \<Longrightarrow> ram m a \<Longrightarrow>
      \<exists>m'. rd a va width m = Inr (be_load (byte m) a width, m') \<and> ok m' \<and> byte m' = byte m \<and> ram m' = ram m"
    and wr_law: "ok m \<Longrightarrow> aligned a width \<Longrightarrow> ram m a \<Longrightarrow>
      \<exists>m'. wr a va v width m = Inr m' \<and> ok m' \<and> byte m' = be_store (byte m) a width v \<and> ram m' = ram m"
begin

text \<open>Every client that only loads and stores sees a byte memory.\<close>

lemma run_spec:
  assumes "ok m" and "\<forall>x\<in>set as. access_ok (ram m) x"
  shows "\<exists>m'. run_accesses rd wr as m = Inr (fst (spec_accesses as (byte m)), m')
     \<and> byte m' = snd (spec_accesses as (byte m)) \<and> ok m' \<and> ram m' = ram m"
  using assms
proof (induction as arbitrary: m)
  case (Cons x as)
  show ?case
  proof (cases x)
    case (Load a width)
    then obtain m1 where m1: "rd a a width m = Inr (be_load (byte m) a width, m1)" "ok m1" "byte m1 = byte m"
        "ram m1 = ram m"
      using rd_law[of m a width a] Cons.prems by auto
    then obtain m2 where "run_accesses rd wr as m1 = Inr (fst (spec_accesses as (byte m1)), m2)
        \<and> byte m2 = snd (spec_accesses as (byte m1)) \<and> ok m2 \<and> ram m2 = ram m1"
      using Cons.IH[of m1] Cons.prems by auto
    with m1 Load show ?thesis by (auto simp: case_prod_beta)
  next
    case (Store a width v)
    then obtain m1 where m1: "wr a a v width m = Inr m1" "ok m1" "byte m1 = be_store (byte m) a width v"
        "ram m1 = ram m"
      using wr_law[of m a width a v] Cons.prems by auto
    then obtain m2 where "run_accesses rd wr as m1 = Inr (fst (spec_accesses as (byte m1)), m2)
        \<and> byte m2 = snd (spec_accesses as (byte m1)) \<and> ok m2 \<and> ram m2 = ram m1"
      using Cons.IH[of m1] Cons.prems by auto
    with m1 Store show ?thesis by auto
  qed
qed simp

end

section \<open>Addresses backed by RAM\<close>

definition is_ram_ops :: "nat \<Rightarrow> mem_ops \<Rightarrow> bool" where
  "is_ram_ops p os \<longleftrightarrow>
     readfunc32 os = Some Simmem_read \<and> readfunc16 os = Some Simmem_read \<and> readfunc8 os = Some Simmem_read
     \<and> writefunc32 os = Some Simmem_write \<and> writefunc16 os = Some Simmem_write \<and> writefunc8 os = Some Simmem_write
     \<and> read_dat32 os = p \<and> read_dat16 os = p \<and> read_dat8 os = p
     \<and> write_dat32 os = p \<and> write_dat16 os = p \<and> write_dat8 os = p"

definition ram_block :: "memory \<Rightarrow> dev_memarea \<Rightarrow> nat option" where
  "ram_block mm ar =
     (let p = read_dat8 (ops ar) in if is_ram_ops p (ops ar) \<and> rams mm p \<noteq> None then Some p else None)"

text \<open>Block and offset of the RAM byte at a physical address.\<close>

definition ram_at :: "memory \<Rightarrow> u32 \<Rightarrow> (nat \<times> u32) option" where
  "ram_at mm a =
     (case find_area a (dev_list mm) 0 of
        None \<Rightarrow> None
      | Some i \<Rightarrow>
         (case ram_block mm (dev_list mm ! i) of
            None \<Rightarrow> None
          | Some p \<Rightarrow>
              let off = a AND size_mask (dev_list mm ! i)
              in if unat off < ram_size (the (rams mm p)) then Some (p, off) else None))"

definition phys_byte :: "memory \<Rightarrow> u32 \<Rightarrow> u8" where
  "phys_byte mm a =
     (case ram_at mm a of None \<Rightarrow> 0 | Some (p, off) \<Rightarrow> guest_byte (ram_bytes (the (rams mm p))) off)"

text \<open>RAM areas are made of words and no two of them share a block.\<close>

definition phys_wf :: "memory \<Rightarrow> bool" where
  "phys_wf mm \<longleftrightarrow> mem_wf mm \<and>
     (\<forall>i < length (dev_list mm). \<forall>p. ram_block mm (dev_list mm ! i) = Some p \<longrightarrow>
        3 AND size_mask (dev_list mm ! i) = 3 \<and> ram_size (the (rams mm p)) mod 4 = 0
        \<and> (\<forall>j < length (dev_list mm). ram_block mm (dev_list mm ! j) = Some p \<longrightarrow> i = j))"

lemma find_area_iff:
  assumes "mem_wf mm"
  shows "find_area a (dev_list mm) 0 = Some i \<longleftrightarrow> i < length (dev_list mm) \<and> area_matches a (dev_list mm ! i)"
proof
  assume "find_area a (dev_list mm) 0 = Some i"
  from find_area_Some[OF this] show "i < length (dev_list mm) \<and> area_matches a (dev_list mm ! i)" by simp
next
  assume i: "i < length (dev_list mm) \<and> area_matches a (dev_list mm ! i)"
  show "find_area a (dev_list mm) 0 = Some i"
  proof (cases "find_area a (dev_list mm) 0")
    case None
    then show ?thesis using find_area_None[OF None nth_mem] i assms by (auto simp: mem_wf_def)
  next
    case (Some j)
    from find_area_Some[OF this] i assms show ?thesis unfolding Some mem_wf_def by auto
  qed
qed

lemma ram_at_Some:
  assumes "phys_wf mm" and "ram_at mm a = Some (p, off)"
  obtains i where "i < length (dev_list mm)" and "area_matches a (dev_list mm ! i)"
    and "verify_memoryarea a mm = (Some i, mm\<lparr>cur_area := Some i\<rparr>)"
    and "ram_block mm (dev_list mm ! i) = Some p" and "off = a AND size_mask (dev_list mm ! i)"
    and "unat off < ram_size (the (rams mm p))" and "3 AND size_mask (dev_list mm ! i) = 3"
    and "ram_size (the (rams mm p)) mod 4 = 0" and "rams mm p \<noteq> None"
proof -
  from assms(2) obtain i where i: "find_area a (dev_list mm) 0 = Some i" "ram_block mm (dev_list mm ! i) = Some p"
      "off = a AND size_mask (dev_list mm ! i)" "unat off < ram_size (the (rams mm p))"
    by (auto simp: ram_at_def Let_def split: option.splits if_splits)
  have wf: "mem_wf mm" using assms(1) by (simp add: phys_wf_def)
  have j: "i < length (dev_list mm)" "area_matches a (dev_list mm ! i)" using i(1) find_area_iff[OF wf] by auto
  have "rams mm p \<noteq> None" using i(2) by (auto simp: ram_block_def Let_def split: if_splits)
  with that[OF j verify_memoryarea_ok[OF wf j] i(2-4)] assms(1) j(1) i(2) show ?thesis by (auto simp: phys_wf_def)
qed

lemma ram_at_area:
  assumes "mem_wf mm" and "i < length (dev_list mm)" and "area_matches a (dev_list mm ! i)"
    and "ram_block mm (dev_list mm ! i) = Some p" and "unat (a AND size_mask (dev_list mm ! i)) < ram_size (the (rams mm p))"
  shows "ram_at mm a = Some (p, a AND size_mask (dev_list mm ! i))"
  using assms find_area_iff[OF assms(1), of a i] by (simp add: ram_at_def)

text \<open>No two addresses share a RAM byte.\<close>

lemma ram_at_inj:
  assumes wf: "phys_wf mm" and a: "ram_at mm a = Some x" and b: "ram_at mm b = Some x"
  shows "a = b"
proof -
  obtain p off where x: "x = (p, off)" by force
  obtain i where i: "i < length (dev_list mm)" "area_matches a (dev_list mm ! i)"
      "ram_block mm (dev_list mm ! i) = Some p" "off = a AND size_mask (dev_list mm ! i)"
    using ram_at_Some[OF wf a[unfolded x]] by metis
  obtain j where j: "j < length (dev_list mm)" "area_matches b (dev_list mm ! j)"
      "ram_block mm (dev_list mm ! j) = Some p" "off = b AND size_mask (dev_list mm ! j)"
    using ram_at_Some[OF wf b[unfolded x]] by metis
  have "i = j" using wf i(1,3) j(1,3) unfolding phys_wf_def by blast
  obtain k where k: "addr_mask (dev_list mm ! i) = NOT (mask k)" "size_mask (dev_list mm ! i) = mask k"
    using wf i(1) by (auto simp: phys_wf_def mem_wf_def area_wf_def)
  have "a AND NOT (mask k) = b AND NOT (mask k)" and "a AND mask k = b AND mask k"
    using i(2,4) j(2,4) \<open>i = j\<close> k by (simp_all add: area_matches_def)
  then have "(a AND NOT (mask k)) OR (a AND mask k) = (b AND NOT (mask k)) OR (b AND mask k)" by simp
  then show "a = b" by (simp flip: bit.conj_disj_distrib)
qed

text \<open>RAM comes in words.\<close>

lemma div4_less:
  fixes x y n :: nat
  shows "x div 4 = y div 4 \<Longrightarrow> y < n \<Longrightarrow> n mod 4 = 0 \<Longrightarrow> x < n"
    and "y mod 4 = 0 \<Longrightarrow> y < n \<Longrightarrow> n mod 4 = 0 \<Longrightarrow> y + 4 \<le> n"
proof -
  assume n: "n mod 4 = 0"
  then obtain k where k: "n = k * 4" by (auto elim: dvdE simp: mod_eq_0_iff_dvd mult.commute)
  show "x div 4 = y div 4 \<Longrightarrow> y < n \<Longrightarrow> x < n" by (simp add: k flip: div_less_iff_less_mult)
  assume "y mod 4 = 0" "y < n"
  moreover obtain l where "y = l * 4" using \<open>y mod 4 = 0\<close> by (auto elim: dvdE simp: mod_eq_0_iff_dvd mult.commute)
  ultimately show "y + 4 \<le> n" by (simp add: k)
qed

lemma low_or_split:
  assumes "j AND 3 = j" and "3 AND m = 3"
  shows "(x OR j) AND m = (x AND m) OR (j :: u32)" and "j AND m = j"
proof -
  have "j AND m = (j AND 3) AND m" using assms(1) by simp
  also have "\<dots> = j AND (3 AND m)" by (simp only: and.assoc)
  also have "\<dots> = j" using assms by simp
  finally show "j AND m = j" .
  then show "(x OR j) AND m = (x AND m) OR j" by (simp add: bit.conj_disj_distrib2)
qed

lemma ram_at_neighbour:
  assumes wf: "phys_wf mm" and at: "ram_at mm a = Some (p, off)" and j: "j AND 3 = j" and a: "a AND j = 0"
  shows "ram_at mm (a + j) = Some (p, off + j)" and "off AND j = 0"
proof -
  obtain i where i: "i < length (dev_list mm)" "area_matches a (dev_list mm ! i)"
      "ram_block mm (dev_list mm ! i) = Some p" "off = a AND size_mask (dev_list mm ! i)"
      "unat off < ram_size (the (rams mm p))" "3 AND size_mask (dev_list mm ! i) = 3" "ram_size (the (rams mm p)) mod 4 = 0"
    using ram_at_Some[OF wf at] by metis
  note split = low_or_split[OF j i(6)]
  have "off AND j = a AND (j AND size_mask (dev_list mm ! i))"
    unfolding i(4) by (simp only: and.assoc and.commute and.left_commute)
  then show off: "off AND j = 0" using split(2) a by simp
  have eq: "a + j = a OR j" "off + j = off OR j" using add_disjoint(1)[OF a] add_disjoint(1)[OF off] by simp_all
  have "drop_bit 2 j = 0" unfolding drop_bit_zero_iff
  proof (intro allI impI)
    fix n :: nat assume "2 \<le> n"
    have "bit j n \<Longrightarrow> bit (j AND 3) n" using j by simp
    then show "\<not> bit j n" using \<open>2 \<le> n\<close> by (auto simp: bit_simps bit_3)
  qed
  then have "drop_bit 2 (off OR j) = drop_bit 2 off" by (simp add: drop_bit_or)
  then have "unat (off OR j) div 4 = unat off div 4"
    using unat_drop_bit_eq[of 2 "off OR j"] unat_drop_bit_eq[of 2 off] by (simp add: drop_bit_eq_div)
  then have bound: "unat (off + j) < ram_size (the (rams mm p))" unfolding eq using i(5,7) by (rule div4_less(1))
  have wfm: "mem_wf mm" using wf by (simp add: phys_wf_def)
  obtain k where k: "addr_mask (dev_list mm ! i) = NOT (mask k)" "size_mask (dev_list mm ! i) = mask k"
    using wfm i(1) by (auto simp: mem_wf_def area_wf_def)
  have "j AND NOT (mask k) = (j AND mask k) AND NOT (mask k)" using split(2) k(2) by simp
  then have "j AND NOT (mask k) = 0" by (simp add: and.assoc)
  then have "(a OR j) AND NOT (mask k) = a AND NOT (mask k)" by (simp add: bit.conj_disj_distrib2)
  then have m: "area_matches (a + j) (dev_list mm ! i)" using i(2) k(1) by (simp add: area_matches_def eq)
  have "(a + j) AND size_mask (dev_list mm ! i) = off + j"
    unfolding eq using split(1) by (simp only: i(4))
  with ram_at_area[OF wfm i(1) m i(3)] bound show "ram_at mm (a + j) = Some (p, off + j)" by simp
qed

lemma ram_word:
  assumes wf: "phys_wf mm" and at: "ram_at mm a = Some (p, off)" and a: "a AND 3 = 0"
  shows "off AND 3 = 0" and "unat off + 4 \<le> ram_size (the (rams mm p))"
proof -
  show off3: "off AND 3 = 0" using ram_at_neighbour(2)[OF wf at _ a] by simp
  have "take_bit 2 off = 0" using off3 by (simp add: take_bit_eq_mask mask_eq_exp_minus_1)
  moreover have "unat (take_bit 2 off) = take_bit 2 (unat off)" by (rule unsigned_take_bit_eq)
  ultimately have "take_bit 2 (unat off) = 0" by simp
  then have m: "unat off mod 4 = 0" by (simp add: take_bit_eq_mod)
  obtain i where "unat off < ram_size (the (rams mm p))" "ram_size (the (rams mm p)) mod 4 = 0"
    using ram_at_Some[OF wf at] by metis
  with m show "unat off + 4 \<le> ram_size (the (rams mm p))" by (rule div4_less(2))
qed

lemma ram_lane:
  assumes wf: "phys_wf mm" and at: "ram_at mm a = Some (p, off)"
  shows "unat (off XOR 3) < ram_size (the (rams mm p))"
proof -
  obtain i where i: "unat off < ram_size (the (rams mm p))" "ram_size (the (rams mm p)) mod 4 = 0"
    using ram_at_Some[OF wf at] by metis
  have three: "unat (off XOR 3) = unat off XOR unat (3 :: u32)" by (simp add: unsigned_xor_eq)
  have "unat (off XOR 3) div 4 = drop_bit 2 (unat off XOR 3)" by (simp add: three drop_bit_eq_div)
  also have "\<dots> = drop_bit 2 (unat off) XOR drop_bit 2 3" by (rule drop_bit_xor)
  also have "\<dots> = unat off div 4" by (simp add: drop_bit_eq_div)
  finally have "unat (off XOR 3) div 4 = unat off div 4" .
  then show ?thesis using i by (rule div4_less(1))
qed

section \<open>Changing RAM\<close>

lemma ram_block_update [simp]:
  "ram_block (ram_update p f mm) ar = ram_block mm ar"
  "ram_block (mm\<lparr>cur_area := c\<rparr>) ar = ram_block mm ar" "ram_block (mm\<lparr>cur_vadd := v\<rparr>) ar = ram_block mm ar"
  by (simp_all add: ram_block_def ram_update_def Let_def)

lemma ram_update_simps [simp]:
  "dev_list (ram_update p f mm) = dev_list mm" "cur_area (ram_update p f mm) = cur_area mm"
  "mc_area (ram_update p f mm) = mc_area mm" "data_ci (ram_update p f mm) = data_ci mm"
  "insn_ci (ram_update p f mm) = insn_ci mm" "cur_vadd (ram_update p f mm) = cur_vadd mm"
  by (simp_all add: ram_update_def)

lemma ram_size_update [simp]:
  "rams mm q \<noteq> None \<Longrightarrow> ram_size (the (rams (ram_update p f mm) q)) = ram_size (the (rams mm q))"
  by (auto simp: ram_update_def)

lemma ram_bytes_update [simp]:
  "rams mm q \<noteq> None \<Longrightarrow> ram_bytes (the (rams (ram_update p f mm) q)) = (if q = p then f else ram_bytes (the (rams mm q)))"
  by (auto simp: ram_update_def)

lemma ram_block_present: "ram_block mm ar = Some p \<Longrightarrow> rams mm p \<noteq> None"
  by (auto simp: ram_block_def Let_def split: if_splits)

lemma ram_at_update [simp]:
  "ram_at (ram_update p f mm) a = ram_at mm a"
  "ram_at (mm\<lparr>cur_area := c\<rparr>) a = ram_at mm a" "ram_at (mm\<lparr>cur_vadd := v\<rparr>) a = ram_at mm a"
  by (auto simp: ram_at_def Let_def dest: ram_block_present split: option.split)

lemma phys_byte_frame [simp]:
  "phys_byte (mm\<lparr>cur_area := c\<rparr>) = phys_byte mm" "phys_byte (mm\<lparr>cur_vadd := v\<rparr>) = phys_byte mm"
  by (auto simp: phys_byte_def split: option.split)

lemma phys_wf_update [intro, inv_intros]:
  "phys_wf mm \<Longrightarrow> phys_wf (ram_update p f mm)"
  "phys_wf mm \<Longrightarrow> phys_wf (mm\<lparr>cur_vadd := v\<rparr>)"
  "phys_wf mm \<Longrightarrow> i < length (dev_list mm) \<Longrightarrow> phys_wf (mm\<lparr>cur_area := Some i\<rparr>)"
proof -
  assume "phys_wf mm"
  then show "phys_wf (ram_update p f mm)"
    using ram_block_present[THEN ram_size_update, of mm _ _ p f] by (auto simp: phys_wf_def mem_wf_def)
qed (auto simp: phys_wf_def mem_wf_def)

lemma ram_at_present: "ram_at mm a = Some (p, off) \<Longrightarrow> rams mm p \<noteq> None"
  by (auto simp: ram_at_def Let_def dest: ram_block_present split: option.splits if_splits)

lemma phys_byte_update:
  "phys_byte (ram_update p f mm) b =
     (case ram_at mm b of Some (q, off) \<Rightarrow> if q = p then guest_byte f off else phys_byte mm b | None \<Rightarrow> 0)"
  by (auto simp: phys_byte_def dest: ram_at_present split: option.split)

lemma phys_byte_at: "ram_at mm a = Some (p, off) \<Longrightarrow> phys_byte mm a = guest_byte (ram_bytes (the (rams mm p))) off"
  by (simp add: phys_byte_def)

text \<open>Writing bytes at offsets of a block writes the bytes at the corresponding addresses.\<close>

fun put_all :: "(u32 \<times> u8) list \<Rightarrow> (u32 \<Rightarrow> u8) \<Rightarrow> u32 \<Rightarrow> u8" where
  "put_all [] g = g"
| "put_all ((a, v) # avs) g = put_all avs (g(a := v))"

lemma put_all_at:
  assumes wf: "phys_wf mm" and b: "ram_at mm b = Some (p, off)" and "h b = k off"
    and "list_all2 (\<lambda>(a, v) (q, w). ram_at mm a = Some (p, q) \<and> v = w) avs ovs"
  shows "put_all avs h b = put_all ovs k off"
  using assms(4,3)
proof (induction avs ovs arbitrary: h k rule: list_all2_induct)
  case (Cons av avs ov ovs)
  obtain a v q where av: "av = (a, v)" "ov = (q, v)" "ram_at mm a = Some (p, q)" using Cons.hyps(1) by (cases av; cases ov) auto
  then have "b = a \<longleftrightarrow> off = q" using ram_at_inj[OF wf, of a "(p, q)" b] b by auto
  then have "(h(a := v)) b = (k(q := v)) off" using Cons.prems by simp
  then have "put_all avs (h(a := v)) b = put_all ovs (k(q := v)) off" by (rule Cons.IH)
  then show ?case by (simp only: av put_all.simps)
qed simp

lemma put_all_other:
  assumes "\<And>off. ram_at mm b \<noteq> Some (p, off)"
    and "list_all2 (\<lambda>(a, v) (q, w). ram_at mm a = Some (p, q) \<and> v = w) avs ovs"
  shows "put_all avs h b = h b"
  using assms(2)
proof (induction avs ovs arbitrary: h rule: list_all2_induct)
  case (Cons av avs ov ovs)
  then have "b \<noteq> fst av" using assms(1) by (cases av; cases ov) auto
  then show ?case using Cons.IH by (cases av) simp
qed simp

lemma phys_byte_store:
  assumes wf: "phys_wf mm" and f: "guest_byte f = put_all ovs (guest_byte (ram_bytes (the (rams mm p))))"
    and at: "list_all2 (\<lambda>(a, v) (q, w). ram_at mm a = Some (p, q) \<and> v = w) avs ovs"
  shows "phys_byte (ram_update p f mm) = put_all avs (phys_byte mm)"
proof
  fix b
  show "phys_byte (ram_update p f mm) b = put_all avs (phys_byte mm) b"
  proof (cases "\<exists>off. ram_at mm b = Some (p, off)")
    case True
    then obtain off where off: "ram_at mm b = Some (p, off)" by blast
    have "phys_byte mm b = guest_byte (ram_bytes (the (rams mm p))) off" using off by (rule phys_byte_at)
    from put_all_at[of mm b p off "phys_byte mm" "guest_byte (ram_bytes (the (rams mm p)))" avs ovs, OF wf off this at] off show ?thesis
      by (simp add: phys_byte_update f)
  next
    case False
    then have "put_all avs (phys_byte mm) b = phys_byte mm b" using put_all_other[OF _ at] by blast
    moreover have "phys_byte (ram_update p f mm) b = phys_byte mm b"
      using False by (auto simp: phys_byte_update phys_byte_def[of mm b] split: option.split)
    ultimately show ?thesis by simp
  qed
qed

section \<open>The CPU's physical accesses\<close>

lemma mem_set_mem [simp]: "mem (set_mem mm m) = mm"
  by (simp add: set_mem_def)

text \<open>What an access to RAM leaves behind: the area of the last access and a delay.\<close>

definition touched :: "nat \<Rightarrow> u32 \<Rightarrow> machine \<Rightarrow> machine" where
  "touched i d m = add_mem_cycles d (set_mem ((mem m)\<lparr>cur_area := Some i\<rparr>) m)"

lemma ram_access_ok:
  "rams mm p \<noteq> None \<Longrightarrow> n + k \<le> ram_size (the (rams mm p)) \<Longrightarrow> ram_access p n k mm = Inr (ram_bytes (the (rams mm p)))"
  by (auto simp: ram_access_def)

lemma aligned_disjoint:
  "a AND 3 = (0 :: u32) \<Longrightarrow> a AND 1 = 0" "a AND 3 = (0 :: u32) \<Longrightarrow> a AND 2 = 0"
proof -
  assume a: "a AND 3 = 0"
  have "a AND 1 = (a AND 3) AND 1" "a AND 2 = (a AND 3) AND 2" by (simp_all add: and.assoc)
  then show "a AND 1 = 0" "a AND 2 = 0" unfolding a by simp_all
qed

lemma ram_read:
  assumes wf: "phys_wf (mem m)" and al: "aligned a width" and ram: "ram_at (mem m) a \<noteq> None"
  shows "\<exists>i d. i < length (dev_list (mem m)) \<and>
     read_width a va width m = Inr (be_load (phys_byte (mem m)) a width, touched i d m)"
proof -
  obtain p off where at: "ram_at (mem m) a = Some (p, off)" using ram by auto
  obtain i where i: "i < length (dev_list (mem m))"
      "verify_memoryarea a (mem m) = (Some i, (mem m)\<lparr>cur_area := Some i\<rparr>)"
      "ram_block (mem m) (dev_list (mem m) ! i) = Some p" "off = a AND size_mask (dev_list (mem m) ! i)"
      "rams (mem m) p \<noteq> None"
    using ram_at_Some[OF wf at] by metis
  let ?os = "ops (dev_list (mem m) ! i)"
  let ?f = "ram_bytes (the (rams (mem m) p))"
  have os: "is_ram_ops p ?os" using i(3) by (auto simp: ram_block_def Let_def split: if_splits)
  note b0 = phys_byte_at[OF at]
  have lane: "unat (off XOR 3) + 1 \<le> ram_size (the (rams (mem m) p))" using ram_lane[OF wf at] by simp
  consider "width = 4" "a AND 3 = 0" | "width = 2" "a AND 1 = 0" | "width = 1" using al by (auto simp: aligned_def)
  then have "read_width a va width m = Inr (be_load (phys_byte (mem m)) a width, touched i (delayr ?os) m)"
  proof cases
    case 1
    have w: "off AND 3 = 0" "unat off + 4 \<le> ram_size (the (rams (mem m) p))" using ram_word[OF wf at 1(2)] .
    have b: "phys_byte (mem m) (a + 1) = guest_byte ?f (off + 1)" "phys_byte (mem m) (a + 2) = guest_byte ?f (off + 2)"
        "phys_byte (mem m) (a + 3) = guest_byte ?f (off + 3)"
      using aligned_disjoint[OF 1(2)] 1(2) by (intro phys_byte_at ram_at_neighbour(1)[OF wf at]; simp)+
    show ?thesis
      using i os w b b0 1 guest_read32[OF w(1)]
      by (simp add: read_width_def evalsim_mem32_def touched_def call_read_def simmem_read32_def ram_access_ok
          is_ram_ops_def be_load_def Let_def)
  next
    case 2
    have w: "off AND 1 = 0" using ram_at_neighbour(2)[OF wf at _ 2(2)] by simp
    have b: "phys_byte (mem m) (a + 1) = guest_byte ?f (off + 1)"
      using 2(2) by (intro phys_byte_at ram_at_neighbour(1)[OF wf at]) simp_all
    have "unat (off XOR 2) + 2 \<le> ram_size (the (rams (mem m) p))" using lane unat_xor_2(2)[OF w] by simp
    then show ?thesis
      using i os w b b0 2 guest_read16[OF w]
      by (simp add: read_width_def evalsim_mem16_def touched_def call_read_def simmem_read16_def ram_access_ok
          is_ram_ops_def be_load_def Let_def)
  next
    case 3
    have "byte_lane off = unat (off XOR 3)" by (rule byte_lane_xor)
    then show ?thesis
      using i os b0 3 lane
      by (simp add: read_width_def evalsim_mem8_def touched_def call_read_def simmem_read8_def ram_access_ok
          is_ram_ops_def be_load_def guest_byte_def Let_def)
  qed
  with i(1) show ?thesis by blast
qed

lemma put_all_store:
  "be_store f a 4 v = put_all [(a, be_byte32 v 0), (a + 1, be_byte32 v 1), (a + 2, be_byte32 v 2), (a + 3, be_byte32 v 3)] f"
  "be_store f a 2 v = put_all [(a, be_byte16 (ucast v) 0), (a + 1, be_byte16 (ucast v) 1)] f"
  "be_store f a 1 v = put_all [(a, ucast v)] f"
  by (simp_all add: be_store_def)

lemma ram_write:
  assumes wf: "phys_wf (mem m)" and al: "aligned a width" and ram: "ram_at (mem m) a \<noteq> None"
  shows "\<exists>i p f d. i < length (dev_list (mem m)) \<and>
     write_width a va v width m =
       Inr (set_mem (ram_update p f ((mem m)\<lparr>cur_area := Some i, cur_vadd := va\<rparr>)) (touched i d m))
     \<and> phys_byte (ram_update p f (mem m)) = be_store (phys_byte (mem m)) a width v"
proof -
  obtain p off where at: "ram_at (mem m) a = Some (p, off)" using ram by auto
  obtain i where i: "i < length (dev_list (mem m))"
      "verify_memoryarea a (mem m) = (Some i, (mem m)\<lparr>cur_area := Some i\<rparr>)"
      "ram_block (mem m) (dev_list (mem m) ! i) = Some p" "off = a AND size_mask (dev_list (mem m) ! i)"
      "rams (mem m) p \<noteq> None"
    using ram_at_Some[OF wf at] by metis
  let ?os = "ops (dev_list (mem m) ! i)"
  let ?f = "ram_bytes (the (rams (mem m) p))"
  let ?mm = "\<lambda>f. ram_update p f ((mem m)\<lparr>cur_area := Some i, cur_vadd := va\<rparr>)"
  have os: "is_ram_ops p ?os" using i(3) by (auto simp: ram_block_def Let_def split: if_splits)
  have lane: "unat (off XOR 3) + 1 \<le> ram_size (the (rams (mem m) p))" using ram_lane[OF wf at] by simp
  have eq: "set_mem x (touched i d m) = add_mem_cycles d (set_mem x m)" for x d
    by (simp add: touched_def set_mem_def add_mem_cycles_def)
  note store = phys_byte_store[OF wf]
  consider "width = 4" "a AND 3 = 0" | "width = 2" "a AND 1 = 0" | "width = 1" using al by (auto simp: aligned_def)
  then have "\<exists>f. write_width a va v width m = Inr (set_mem (?mm f) (touched i (delayw ?os) m))
      \<and> phys_byte (ram_update p f (mem m)) = be_store (phys_byte (mem m)) a width v"
  proof cases
    case 1
    have w: "off AND 3 = 0" "unat off + 4 \<le> ram_size (the (rams (mem m) p))" using ram_word[OF wf at 1(2)] .
    have n: "ram_at (mem m) (a + 1) = Some (p, off + 1)" "ram_at (mem m) (a + 2) = Some (p, off + 2)"
        "ram_at (mem m) (a + 3) = Some (p, off + 3)"
      using aligned_disjoint[OF 1(2)] 1(2) by (intro ram_at_neighbour(1)[OF wf at]; simp)+
    have "phys_byte (ram_update p (host_write32 (unat off) v ?f) (mem m)) = be_store (phys_byte (mem m)) a width v"
      unfolding 1(1) put_all_store
      by (rule store[where ovs = "[(off, be_byte32 v 0), (off + 1, be_byte32 v 1), (off + 2, be_byte32 v 2), (off + 3, be_byte32 v 3)]"])
        (simp_all add: guest_write32[OF w(1)] at n)
    then show ?thesis
      using i os w 1
      by (intro exI[of _ "host_write32 (unat off) v ?f"])
        (simp add: write_width_def setsim_mem32_def eq call_write_def simmem_write32_def ram_access_ok is_ram_ops_def Let_def,
         simp add: set_mem_def add_mem_cycles_def)
  next
    case 2
    have w: "off AND 1 = 0" using ram_at_neighbour(2)[OF wf at _ 2(2)] by simp
    have n: "ram_at (mem m) (a + 1) = Some (p, off + 1)"
      using 2(2) by (intro ram_at_neighbour(1)[OF wf at]) simp_all
    have sz: "unat (off XOR 2) + 2 \<le> ram_size (the (rams (mem m) p))" using lane unat_xor_2(2)[OF w] by simp
    have "phys_byte (ram_update p (host_write16 (unat (off XOR 2)) (ucast v) ?f) (mem m)) = be_store (phys_byte (mem m)) a width v"
      unfolding 2(1) put_all_store
      by (rule store[where ovs = "[(off, be_byte16 (ucast v) 0), (off + 1, be_byte16 (ucast v) 1)]"])
        (simp_all add: guest_write16[OF w] at n)
    then show ?thesis
      using i os w 2 sz
      by (intro exI[of _ "host_write16 (unat (off XOR 2)) (ucast v) ?f"])
        (simp add: write_width_def setsim_mem16_def eq call_write_def simmem_write16_def ram_access_ok is_ram_ops_def Let_def,
         simp add: set_mem_def add_mem_cycles_def)
  next
    case 3
    have "phys_byte (ram_update p (?f(byte_lane off := ucast v)) (mem m)) = be_store (phys_byte (mem m)) a width v"
      unfolding 3 put_all_store
      by (rule store[where ovs = "[(off, ucast v)]"]) (simp_all only: guest_write8 put_all.simps, simp add: at)
    then show ?thesis
      using i os 3 lane byte_lane_xor[of off]
      by (intro exI[of _ "?f(byte_lane off := ucast v)"])
        (simp add: write_width_def setsim_mem8_def eq call_write_def simmem_write8_def ram_access_ok is_ram_ops_def Let_def,
         simp add: set_mem_def add_mem_cycles_def)
  qed
  with i(1) show ?thesis by blast
qed

lemma ram_update_pointers:
  "ram_update p f (mm\<lparr>cur_area := c\<rparr>) = (ram_update p f mm)\<lparr>cur_area := c\<rparr>"
  "ram_update p f (mm\<lparr>cur_vadd := v\<rparr>) = (ram_update p f mm)\<lparr>cur_vadd := v\<rparr>"
  by (simp_all add: ram_update_def)

lemma mem_touched [simp]: "mem (touched i d m) = (mem m)\<lparr>cur_area := Some i\<rparr>"
  by (simp add: touched_def)

lemma dev_list_cur [simp]: "length (dev_list (mm\<lparr>cur_vadd := v\<rparr>)) = length (dev_list mm)"
  by simp

definition bare_ok :: "machine \<Rightarrow> bool" where
  "bare_ok m \<longleftrightarrow> phys_wf (mem m)"

definition ram_backed :: "machine \<Rightarrow> u32 \<Rightarrow> bool" where
  "ram_backed m a \<longleftrightarrow> ram_at (mem m) a \<noteq> None"

definition guest_mem :: "machine \<Rightarrow> u32 \<Rightarrow> u8" where
  "guest_mem m = phys_byte (mem m)"

interpretation bare: data_memory bare_ok ram_backed guest_mem read_width write_width
proof unfold_locales
  fix m a width va v
  assume wf: "bare_ok m" and al: "aligned a width" and ram: "ram_backed m a"
  from ram_read[of m a width va] wf al ram
  show "\<exists>m'. read_width a va width m = Inr (be_load (guest_mem m) a width, m') \<and> bare_ok m' \<and> guest_mem m' = guest_mem m
      \<and> ram_backed m' = ram_backed m"
    by (auto simp: bare_ok_def ram_backed_def guest_mem_def fun_eq_iff)
  from ram_write[of m a width va v] wf al ram
  show "\<exists>m'. write_width a va v width m = Inr m' \<and> bare_ok m' \<and> guest_mem m' = be_store (guest_mem m) a width v
      \<and> ram_backed m' = ram_backed m"
    by (auto simp: bare_ok_def ram_backed_def guest_mem_def fun_eq_iff ram_update_pointers intro!: phys_wf_update)
qed

end
