(* ===== verification/Cache_Props.thy ===== *)
theory Cache_Props
  imports Phys
begin

text \<open>
  How an address is cut into set, tag and word of a line, what the caches make of the bytes of a word, and
  what the usage counters leave alone. The theory \<open>Cache_Coherence\<close> rests on these facts.
\<close>

section \<open>Words of a line\<close>

text \<open>Set, tag and index cut an address into three numbers.\<close>

definition dc_geometry :: "machine \<Rightarrow> bool" where
  "dc_geometry m \<longleftrightarrow> (dc_blocksize (dcc m) = 16 \<or> dc_blocksize (dcc m) = 32) \<and> dc_nsets (dcc m) \<noteq> 0"

definition block :: "machine \<Rightarrow> nat" where
  "block m = unat (dc_blocksize (dcc m))"

lemma block_cases: "dc_geometry m \<Longrightarrow> block m = 16 \<or> block m = 32"
  by (auto simp: dc_geometry_def block_def)

lemma mask_low: "a AND (0xf :: u32) = take_bit 4 a" "a AND (0x1f :: u32) = take_bit 5 a"
  by (simp_all add: take_bit_eq_mask mask_eq_exp_minus_1)

lemma unat_low:
  assumes "dc_geometry m"
  shows "unat (a AND (dc_blocksize (dcc m) - 1)) = unat a mod block m"
proof -
  have "unat (take_bit n a) = unat a mod 2 ^ n" for n
    using unsigned_take_bit_eq[of n a] by (simp only: take_bit_eq_mod)
  from this[of 4] this[of 5] show ?thesis using assms by (auto simp: dc_geometry_def block_def mask_low)
qed

lemma dc_index_nat: "dc_geometry m \<Longrightarrow> dc_index a m = (unat a mod block m) div 4"
  by (simp add: dc_index_def drop_bit_eq_div unat_div unat_low)

lemma dc_set_nat: "dc_set a m = (unat a div block m) mod unat (dc_nsets (dcc m))"
  by (simp add: dc_set_def block_def unat_mod unat_div)

lemma dc_tag_nat: "unat (dc_tag a m) = (unat a div block m) div unat (dc_nsets (dcc m))"
  by (simp add: dc_tag_def block_def unat_div)

lemma same_line_iff:
  assumes "dc_geometry m"
  shows "dc_set a m = dc_set b m \<and> dc_tag a m = dc_tag b m \<longleftrightarrow> unat a div block m = unat b div block m"
proof
  assume "dc_set a m = dc_set b m \<and> dc_tag a m = dc_tag b m"
  then have "(unat a div block m) mod unat (dc_nsets (dcc m)) = (unat b div block m) mod unat (dc_nsets (dcc m))"
    and "(unat a div block m) div unat (dc_nsets (dcc m)) = (unat b div block m) div unat (dc_nsets (dcc m))"
    unfolding dc_set_nat dc_tag_nat[symmetric] by auto
  then show "unat a div block m = unat b div block m" by (metis div_mult_mod_eq)
next
  assume eq: "unat a div block m = unat b div block m"
  have "dc_tag a m = dc_tag b m" by (rule word_unat_eq_iff[THEN iffD2]) (simp add: dc_tag_nat eq)
  then show "dc_set a m = dc_set b m \<and> dc_tag a m = dc_tag b m" by (simp add: dc_set_nat eq)
qed

text \<open>A tag in use is never the mark \<open>-1\<close> of an invalid line.\<close>

lemma dc_tag_valid: "dc_geometry m \<Longrightarrow> dc_tag a m \<noteq> -1"
proof
  assume g: "dc_geometry m" and "dc_tag a m = -1"
  moreover have "(-1 :: u32) = 0xffffffff" by simp
  ultimately have "unat (dc_tag a m) = 4294967295" by (simp only:) simp
  moreover have "unat (dc_tag a m) \<le> unat a div block m" unfolding dc_tag_nat by (rule div_le_dividend)
  moreover have "unat a div block m \<le> unat a div 16"
    using block_cases[OF g] by (auto intro: div_le_mono2)
  moreover have "unat a < 4294967296" using unsigned_less[of a] by simp
  ultimately show False by simp
qed

section \<open>Parts of a word\<close>

definition word_at :: "machine \<Rightarrow> u32 \<Rightarrow> u32" where
  "word_at m a = be_load (guest_mem m) (a AND NOT 3) 4"

lemma low_bits_cases: "(a :: u32) AND 3 \<in> {0, 1, 2, 3}"
proof -
  have bit: "a AND push_bit k 1 = (if bit a k then push_bit k 1 else 0)" if "k < 32" for k
    by (rule bit_word_eqI) (use that in \<open>auto simp: bit_simps\<close>)
  have "a AND 3 = (a AND push_bit 0 1) OR (a AND push_bit 1 1)"
    by (simp flip: bit.conj_disj_distrib)
  then show ?thesis by (simp only: bit) auto
qed

lemma base_and_offset:
  fixes a :: u32
  shows "a = (a AND NOT 3) + (a AND 3)" and "(a AND NOT 3) AND 3 = 0"
proof -
  show z: "(a AND NOT 3) AND 3 = 0" by (simp add: and.assoc)
  have "(a AND NOT 3) + (a AND 3) = (a AND NOT 3) OR (a AND 3)"
    by (rule disjunctive_add_eq_or) (simp add: and.assoc and.left_commute)
  then show "a = (a AND NOT 3) + (a AND 3)" by (simp flip: bit.conj_disj_distrib)
qed

lemma be32_parts:
  "drop_bit 16 (be32 b0 b1 b2 b3) AND 0xffff = ucast (be16 b0 b1)" "be32 b0 b1 b2 b3 AND 0xffff = ucast (be16 b2 b3)"
  "drop_bit 24 (be32 b0 b1 b2 b3) AND 0xff = ucast b0" "drop_bit 16 (be32 b0 b1 b2 b3) AND 0xff = ucast b1"
  "drop_bit 8 (be32 b0 b1 b2 b3) AND 0xff = ucast b2" "be32 b0 b1 b2 b3 AND 0xff = ucast b3"
proof -
  have m: "(0xffff :: u32) = mask 16" "(0xff :: u32) = mask 8" by (simp_all add: mask_eq_exp_minus_1)
  show "drop_bit 16 (be32 b0 b1 b2 b3) AND 0xffff = ucast (be16 b0 b1)" "be32 b0 b1 b2 b3 AND 0xffff = ucast (be16 b2 b3)"
    "drop_bit 24 (be32 b0 b1 b2 b3) AND 0xff = ucast b0" "drop_bit 16 (be32 b0 b1 b2 b3) AND 0xff = ucast b1"
    "drop_bit 8 (be32 b0 b1 b2 b3) AND 0xff = ucast b2" "be32 b0 b1 b2 b3 AND 0xff = ucast b3"
    unfolding m by (rule bit_word_eqI; auto simp: be32_def be16_def bit_simps dest: bit_imp_le_length)+
qed

lemma extract_load:
  assumes "aligned a width"
  shows "dc_extract a width (be_load f (a AND NOT 3) 4) = be_load f a width"
proof -
  define b where "b = a AND NOT 3"
  consider "a AND 3 = 0" "a = b" | "a AND 3 = 1" "a = b + 1" | "a AND 3 = 2" "a = b + 2" | "a AND 3 = 3" "a = b + 3"
    using low_bits_cases[of a] base_and_offset(1)[of a] unfolding b_def by fastforce
  note cases = this
  have two: "a AND 2 = (a AND 3) AND 2" "a AND 1 = (a AND 3) AND 1" by (simp_all add: and.assoc)
  from cases show ?thesis
    using assms two unfolding b_def[symmetric]
    by cases (auto simp: dc_extract_def be_load_def aligned_def has_def be32_parts add.assoc)
qed

lemma be32_insert:
  "(be32 b0 b1 b2 b3 AND 0xffff) OR push_bit 16 (w AND 0xffff) = be32 (be_byte16 (ucast w) 0) (be_byte16 (ucast w) 1) b2 b3"
  "(be32 b0 b1 b2 b3 AND push_bit 16 0xffff) OR (w AND 0xffff) = be32 b0 b1 (be_byte16 (ucast w) 0) (be_byte16 (ucast w) 1)"
  "(be32 b0 b1 b2 b3 AND NOT (push_bit 24 0xff)) OR push_bit 24 (w AND 0xff) = be32 (ucast w) b1 b2 b3"
  "(be32 b0 b1 b2 b3 AND NOT (push_bit 16 0xff)) OR push_bit 16 (w AND 0xff) = be32 b0 (ucast w) b2 b3"
  "(be32 b0 b1 b2 b3 AND NOT (push_bit 8 0xff)) OR push_bit 8 (w AND 0xff) = be32 b0 b1 (ucast w) b3"
  "(be32 b0 b1 b2 b3 AND NOT 0xff) OR (w AND 0xff) = be32 b0 b1 b2 (ucast w)"
proof -
  have m: "(0xffff :: u32) = mask 16" "(0xff :: u32) = mask 8" by (simp_all add: mask_eq_exp_minus_1)
  have byte: "n < 8 \<or> 8 \<le> n \<and> n < 16 \<or> 16 \<le> n \<and> n < 24 \<or> 24 \<le> n" for n :: nat by linarith
  show "(be32 b0 b1 b2 b3 AND 0xffff) OR push_bit 16 (w AND 0xffff) = be32 (be_byte16 (ucast w) 0) (be_byte16 (ucast w) 1) b2 b3"
    "(be32 b0 b1 b2 b3 AND push_bit 16 0xffff) OR (w AND 0xffff) = be32 b0 b1 (be_byte16 (ucast w) 0) (be_byte16 (ucast w) 1)"
    "(be32 b0 b1 b2 b3 AND NOT (push_bit 24 0xff)) OR push_bit 24 (w AND 0xff) = be32 (ucast w) b1 b2 b3"
    "(be32 b0 b1 b2 b3 AND NOT (push_bit 16 0xff)) OR push_bit 16 (w AND 0xff) = be32 b0 (ucast w) b2 b3"
    "(be32 b0 b1 b2 b3 AND NOT (push_bit 8 0xff)) OR push_bit 8 (w AND 0xff) = be32 b0 b1 (ucast w) b3"
    "(be32 b0 b1 b2 b3 AND NOT 0xff) OR (w AND 0xff) = be32 b0 b1 b2 (ucast w)"
    unfolding m
    by (rule bit_word_eqI; use byte in \<open>fastforce simp: be32_def be_byte16_def bit_simps dest: bit_imp_le_length\<close>)+
qed

lemma insert_store:
  assumes "aligned a width"
  shows "dc_insert a width v (be_load f (a AND NOT 3) 4) = be_load (be_store f a width v) (a AND NOT 3) 4"
proof -
  define b where "b = a AND NOT 3"
  consider "a AND 3 = 0" "a = b" | "a AND 3 = 1" "a = b + 1" | "a AND 3 = 2" "a = b + 2" | "a AND 3 = 3" "a = b + 3"
    using low_bits_cases[of a] base_and_offset(1)[of a] unfolding b_def by fastforce
  note cases = this
  have two: "a AND 2 = (a AND 3) AND 2" "a AND 1 = (a AND 3) AND 1" by (simp_all add: and.assoc)
  from cases show ?thesis
    using assms two unfolding b_def[symmetric]
    by cases (auto simp: dc_insert_def be_load_def be_store_def aligned_def has_def be32_insert[simplified] be32_insert add.assoc
        be32_bytes[simplified])
qed

lemma base_add:
  assumes "c AND 3 = (0 :: u32)" and "j AND 3 = j"
  shows "(c + j) AND NOT 3 = c"
proof -
  have eq: "c + j = c OR j" using aligned_or[OF assms] by simp
  have "c AND NOT 3 = c" using base_and_offset(1)[of c] assms(1) by simp
  moreover have "j AND NOT 3 = (j AND 3) AND NOT 3" using assms(2) by simp
  then have "j AND NOT 3 = 0" by (simp add: and.assoc)
  ultimately show ?thesis unfolding eq by (simp add: bit.conj_disj_distrib2)
qed

lemma store_other_byte:
  assumes "aligned a width" and other: "x AND NOT 3 \<noteq> a AND NOT 3"
  shows "be_store f a width v x = f x"
proof -
  define c where "c = a AND NOT 3"
  have "c AND 3 = 0" using base_and_offset(2) by (simp add: c_def)
  from base_add[OF this] have ne: "x \<noteq> c + j" if "j AND 3 = j" for j
    using other that unfolding c_def[symmetric] by auto
  consider "a AND 3 = 0" "a = c" | "a AND 3 = 1" "a = c + 1" | "a AND 3 = 2" "a = c + 2" | "a AND 3 = 3" "a = c + 3"
    using low_bits_cases[of a] base_and_offset(1)[of a] unfolding c_def by fastforce
  note cases = this
  have two: "a AND 1 = (a AND 3) AND 1" by (simp add: and.assoc)
  from cases show ?thesis
    using assms(1) two ne[of 0] ne[of 1] ne[of 2] ne[of 3]
    by cases (auto simp: be_store_def aligned_def add.assoc)
qed

lemma store_other_word:
  assumes "aligned a width" and other: "b AND NOT 3 \<noteq> a AND NOT 3"
  shows "be_load (be_store f a width v) (b AND NOT 3) 4 = be_load f (b AND NOT 3) 4"
proof -
  define d where "d = b AND NOT 3"
  have d: "d AND 3 = 0" using base_and_offset(2) by (simp add: d_def)
  have "be_store f a width v (d + j) = f (d + j)" if "j AND 3 = j" for j
    by (rule store_other_byte[OF assms(1)]) (use base_add[OF d that] other in \<open>simp add: d_def\<close>)
  from this[of 0] this[of 1] this[of 2] this[of 3] show ?thesis
    unfolding d_def[symmetric] by (simp add: be_load_def)
qed

section \<open>Usage counters\<close>

text \<open>What no access to RAM changes.\<close>

definition core :: "machine \<Rightarrow> config \<times> bool \<times> (nat \<Rightarrow> u32) \<times> u32 \<times> u32 \<times> bool" where
  "core m = (conf m, except_pending m, reg (cpu m), spr SPR_UPR m, spr SPR_SR m, data_ci (mem m))"

lemma core_simps [simp]:
  "core (add_mem_cycles d m) = core m" "core (m\<lparr>st := s\<rparr>) = core m" "core (m\<lparr>dc := d'\<rparr>) = core m"
  by (simp_all add: core_def add_mem_cycles_def spr_def del: sprs_cpu)

text \<open>The machines agree but for usage counters and statistics.\<close>

definition lru_only :: "machine \<Rightarrow> machine \<Rightarrow> bool" where
  "lru_only m m' \<longleftrightarrow> (\<forall>i w. dc_line (dc m' i w) = dc_line (dc m i w) \<and> dc_tagaddr (dc m' i w) = dc_tagaddr (dc m i w))
     \<and> mem m' = mem m \<and> conf m' = conf m \<and> core m' = core m \<and> spr SPR_UPR m' = spr SPR_UPR m \<and> spr SPR_SR m' = spr SPR_SR m"

lemma lru_only_refl: "lru_only m m"
  by (simp add: lru_only_def)

lemma lru_only_trans: "lru_only m1 m2 \<Longrightarrow> lru_only m2 m3 \<Longrightarrow> lru_only m1 m3"
  by (simp add: lru_only_def)

lemma lru_only_fold: "(\<And>x m. lru_only m (f x m)) \<Longrightarrow> lru_only m (fold f xs m)"
  by (induction xs arbitrary: m) (auto simp: lru_only_refl intro: lru_only_trans)

lemma lru_only_upd: "lru_only m (upd_dc i w (\<lambda>l. l\<lparr>dc_lru := g l\<rparr>) m)"
  by (simp add: lru_only_def upd_dc_def core_def spr_def del: sprs_cpu)

lemma lru_only_hit: "lru_only m (dc_hit i way m)"
proof -
  let ?m = "fold (\<lambda>w m. if dc_lru (dc m i way) < dc_lru (dc m i w)
                          then upd_dc i w (\<lambda>l. l\<lparr>dc_lru := dc_lru l - 1\<rparr>) m else m) (dc_ways m) m"
  have "lru_only m ?m" by (rule lru_only_fold) (auto simp: lru_only_refl lru_only_upd)
  then show ?thesis unfolding dc_hit_def Let_def by (rule lru_only_trans) (rule lru_only_upd)
qed

text \<open>Replacing a way sets its tag.\<close>

lemma replace_tag:
  "lru_only (upd_dc i way (\<lambda>l. l\<lparr>dc_tagaddr := t\<rparr>) m) (dc_replace i way t m)"
proof -
  let ?n = "upd_dc i way (\<lambda>l. l\<lparr>dc_tagaddr := t\<rparr>) m"
  let ?m = "fold (\<lambda>w m. if dc_lru (dc m i w) \<noteq> 0
                          then upd_dc i w (\<lambda>l. l\<lparr>dc_lru := dc_lru l - 1\<rparr>) m else m) (dc_ways ?n) ?n"
  have "lru_only ?n ?m" by (rule lru_only_fold) (auto simp: lru_only_refl lru_only_upd)
  moreover have "lru_only ?m (dc_replace i way t m)" unfolding dc_replace_def Let_def by (rule lru_only_upd)
  ultimately show ?thesis by (rule lru_only_trans)
qed

lemma lru_only_extras:
  "lru_only m m' \<Longrightarrow> lru_only m (add_mem_cycles d m')"
  "lru_only m m' \<Longrightarrow> lru_only m (m'\<lparr>st := s\<rparr>)"
  "lru_only m m' \<Longrightarrow> lru_only m (pcu_count_event e m')"
proof -
  obtain f where f: "pcu_count_event e m' = m'\<lparr>cpu := (cpu m')\<lparr>sprs := f\<rparr>\<rparr>"
      "\<And>r. f r = (if \<exists>i<8. r = SPR_PCCR i \<and> pcu_counts e m' i then spr r m' + 1 else spr r m')"
    using pcu_count_event_upto[of 8 e m'] by (auto simp: pcu_count_event_def)
  then have "f SPR_UPR = spr SPR_UPR m'" "f SPR_SR = spr SPR_SR m'" by simp_all
  with f(1) show "lru_only m m' \<Longrightarrow> lru_only m (pcu_count_event e m')" by (simp add: lru_only_def core_def)
qed (simp_all add: lru_only_def)

section \<open>Reading a line\<close>

text \<open>\<open>dc_find\<close> finds a way with the tag if there is one.\<close>

lemma dc_find_Some: "dc_find i t m = Some w \<Longrightarrow> w < dc_nways (dcc m) \<and> dc_tagaddr (dc m i w) = t"
  and dc_find_None: "dc_find i t m = None \<Longrightarrow> w < dc_nways (dcc m) \<Longrightarrow> dc_tagaddr (dc m i w) \<noteq> t"
proof -
  have "fold (\<lambda>w way. if dc_tagaddr (dc m i w) = t then Some w else way) [0..<n] None = Some w
      \<Longrightarrow> w < n \<and> dc_tagaddr (dc m i w) = t" for n
    by (induction n) (auto split: if_splits)
  then show "dc_find i t m = Some w \<Longrightarrow> w < dc_nways (dcc m) \<and> dc_tagaddr (dc m i w) = t"
    unfolding dc_find_def dc_ways_def by blast
  have "fold (\<lambda>w way. if dc_tagaddr (dc m i w) = t then Some w else way) [0..<n] None = None
      \<Longrightarrow> w < n \<Longrightarrow> dc_tagaddr (dc m i w) \<noteq> t" for n
    by (induction n) (auto simp: less_Suc_eq split: if_splits)
  then show "dc_find i t m = None \<Longrightarrow> w < dc_nways (dcc m) \<Longrightarrow> dc_tagaddr (dc m i w) \<noteq> t"
    unfolding dc_find_def dc_ways_def by blast
qed

end
