(* ===== verification/Cache_Coherence.thy ===== *)
theory Cache_Coherence
  imports Cache_Props
begin

text \<open>
  The data cache is transparent: as long as every valid line holds what memory holds, loads and stores
  through \<open>dc_simulate_read\<close> and \<open>dc_simulate_write\<close> keep the contract \<open>data_memory\<close>.
\<close>

section \<open>Refilling a line\<close>

lemma unat_and_not:
  fixes a c :: u32
  shows "unat (a AND NOT c) = unat a - unat (a AND c)"
proof -
  have "(a AND NOT c) + (a AND c) = (a AND NOT c) OR (a AND c)"
    by (rule disjunctive_add_eq_or) (simp add: and.assoc and.left_commute)
  also have "\<dots> = a" by (simp flip: bit.conj_disj_distrib)
  finally have "a AND NOT c = a - (a AND c)" by (simp add: eq_diff_eq)
  moreover have "a AND c \<le> a" by (rule word_and_le2)
  ultimately show ?thesis by (simp add: unat_sub)
qed

lemma unat_line_base:
  assumes "dc_geometry m"
  shows "unat (a AND NOT (dc_blocksize (dcc m) - 1)) = unat a - unat a mod block m"
  by (simp add: unat_and_not unat_low[OF assms])

lemma unat_word_base: "unat (a AND NOT 3 :: u32) = unat a - unat a mod 4"
proof -
  have "a AND 3 = take_bit 2 a" by (simp add: take_bit_eq_mask mask_eq_exp_minus_1)
  moreover have "unat (take_bit 2 a) = unat a mod 4"
    using unsigned_take_bit_eq[of 2 a] by (simp add: take_bit_eq_mod)
  ultimately show ?thesis unfolding unat_and_not by (simp only:)
qed

text \<open>The address the refill of \<open>a\<close>'s line reads at offset \<open>k\<close>, and the address of word \<open>idx\<close> of the line.\<close>

definition refill_addr :: "machine \<Rightarrow> u32 \<Rightarrow> u32 \<Rightarrow> u32" where
  "refill_addr m a k =
     (a AND NOT (dc_blocksize (dcc m) - 1)) + (((a AND NOT 3) + k) AND (dc_blocksize (dcc m) - 1))"

definition line_word :: "machine \<Rightarrow> u32 \<Rightarrow> nat \<Rightarrow> u32" where
  "line_word m a idx = (a AND NOT (dc_blocksize (dcc m) - 1)) + of_nat (4 * idx)"

text \<open>The rotation of the words of a line of \<open>n\<close> words, over the natural numbers.\<close>

lemma rotated_index:
  fixes u k :: nat
  assumes "B = 16 \<or> B = 32"
  shows "((u + 4 * k) mod B) div 4 = (u div 4 + k) mod (B div 4)"
    and "(u - u mod 4 + 4 * k) mod B = 4 * (((u + 4 * k) mod B) div 4)"
proof -
  obtain n where n: "B = 4 * n" "n = 4 \<or> n = 8" using assms by fastforce
  define q r where "q = u div 4" and "r = u mod 4"
  then have u: "u = 4 * q + r" "r < 4" by simp_all
  have split: "u + 4 * k = 4 * (q + k) + r" using u by simp
  have m: "(4 * (q + k) + r) mod (4 * n) = 4 * ((q + k) mod n) + r"
  proof -
    have "(4 * (q + k) + r) div 4 = q + k" "(4 * (q + k) + r) mod 4 = r" using u(2) by presburger+
    then show ?thesis unfolding mod_mult2_eq[of _ 4 n] by (simp only:)
  qed
  show "((u + 4 * k) mod B) div 4 = (u div 4 + k) mod (B div 4)"
    unfolding split n(1) m using u(2) by (simp add: q_def)
  have "u - u mod 4 = 4 * q" using u by (simp add: r_def[symmetric])
  then have "(u - u mod 4 + 4 * k) mod B = (4 * (q + k)) mod (4 * n)" by (simp add: n(1))
  also have "\<dots> = 4 * ((q + k) mod n)" by (rule mult_mod_right[symmetric])
  also have "\<dots> = 4 * (((u + 4 * k) mod B) div 4)" unfolding split n(1) m using u(2) by simp
  finally show "(u - u mod 4 + 4 * k) mod B = 4 * (((u + 4 * k) mod B) div 4)" .
qed

lemma mod_block_wrap:
  assumes "dc_geometry m"
  shows "unat (a + b :: u32) mod block m = (unat a + unat b) mod block m"
proof -
  have "block m dvd 2 ^ 32" using block_cases[OF assms] by auto
  then show ?thesis by (simp add: unat_word_ariths mod_mod_cancel)
qed


lemma unat_small: "i < 8 \<Longrightarrow> unat (of_nat (4 * i) :: u32) = 4 * i"
  by (subst unat_of_nat) (simp add: take_bit_nat_eq_self)

lemma dc_index_bound: "dc_geometry m \<Longrightarrow> dc_index a m < block m div 4"
  using block_cases[of m] by (auto simp: dc_index_nat)

lemma line_word_nat:
  assumes "dc_geometry m" and "i < block m div 4"
  shows "unat (line_word m a i) = unat a - unat a mod block m + 4 * i"
proof -
  obtain n where n: "block m = 4 * n" "n = 4 \<or> n = 8" using block_cases[OF assms(1)] by fastforce
  have i: "i < 8" and small: "4 * i < block m" using assms(2) n by auto
  have "block m dvd 2 ^ 32" using n by auto
  then obtain c where c: "2 ^ 32 = block m * c" by (rule dvdE)
  define q where "q = unat a div block m"
  have base: "unat a - unat a mod block m = block m * q" by (simp add: q_def minus_mod_eq_mult_div)
  have "unat a < block m * c" using unsigned_less[of a] c by simp
  then have "q < c" unfolding q_def using block_cases[OF assms(1)] by (simp add: less_mult_imp_div_less mult.commute)
  then have "block m * (q + 1) \<le> block m * c" by (intro mult_le_mono2) simp
  then have "block m * q + 4 * i < 2 ^ 32" using small unfolding c by simp
  then show ?thesis
    unfolding line_word_def using unat_line_base[OF assms(1), of a] unat_small[OF i] base
    by (subst unat_add_small) simp_all
qed

text \<open>The word a refill reads is the one it stores, and the words of a line are read once each.\<close>

lemma refill_addr_word:
  assumes "dc_geometry m" and "k < block m div 4"
  shows "refill_addr m a (of_nat (4 * k)) = line_word m a (dc_index (a + of_nat (4 * k)) m)"
    and "dc_index (a + of_nat (4 * k)) m = (unat a div 4 + k) mod (block m div 4)"
proof -
  have k: "k < 8" using block_cases[OF assms(1)] assms(2) by auto
  have idx: "dc_index (a + of_nat (4 * k)) m = ((unat a + 4 * k) mod block m) div 4"
    by (simp only: dc_index_nat[OF assms(1)] mod_block_wrap[OF assms(1)] unat_small[OF k])
  then show "dc_index (a + of_nat (4 * k)) m = (unat a div 4 + k) mod (block m div 4)"
    using rotated_index(1)[OF block_cases[OF assms(1)]] by simp
  have "unat (((a AND NOT 3) + of_nat (4 * k)) AND (dc_blocksize (dcc m) - 1)) = (unat a - unat a mod 4 + 4 * k) mod block m"
    by (simp only: unat_low[OF assms(1)] mod_block_wrap[OF assms(1)] unat_word_base unat_small[OF k])
  also have "\<dots> = 4 * dc_index (a + of_nat (4 * k)) m"
    unfolding idx by (rule rotated_index(2)[OF block_cases[OF assms(1)]])
  finally have off: "unat (((a AND NOT 3) + of_nat (4 * k)) AND (dc_blocksize (dcc m) - 1)) = 4 * dc_index (a + of_nat (4 * k)) m" .
  have "dc_index (a + of_nat (4 * k)) m < 8"
    using dc_index_bound[OF assms(1), of "a + of_nat (4 * k)"] block_cases[OF assms(1)] by auto
  then have "((a AND NOT 3) + of_nat (4 * k)) AND (dc_blocksize (dcc m) - 1) = of_nat (4 * dc_index (a + of_nat (4 * k)) m)"
    by (intro word_unat_eq_iff[THEN iffD2]) (simp only: off unat_small)
  then show "refill_addr m a (of_nat (4 * k)) = line_word m a (dc_index (a + of_nat (4 * k)) m)"
    by (simp only: refill_addr_def line_word_def)
qed

lemma line_word_props:
  assumes "dc_geometry m" and "i < block m div 4"
  shows "unat (line_word m a i) div block m = unat a div block m"
    and "line_word m a i AND 3 = 0"
    and "unat b div block m = unat a div block m \<Longrightarrow> line_word m a (dc_index b m) = b AND NOT 3"
proof -
  obtain n where n: "block m = 4 * n" "n = 4 \<or> n = 8" using block_cases[OF assms(1)] by fastforce
  have lw: "unat (line_word m a i) = block m * (unat a div block m) + 4 * i"
    if "i < block m div 4" for i
    using line_word_nat[OF assms(1) that, of a] by (simp add: minus_mod_eq_mult_div)
  show "unat (line_word m a i) div block m = unat a div block m"
    using lw[OF assms(2)] assms(2) n by auto
  have "unat (line_word m a i) mod 4 = 0" using lw[OF assms(2)] n by auto
  then have "line_word m a i = line_word m a i AND NOT 3"
    by (intro word_unat_eq_iff[THEN iffD2]) (simp only: unat_word_base)
  then show "line_word m a i AND 3 = 0" using base_and_offset(2)[of "line_word m a i"] by simp
  assume eq: "unat b div block m = unat a div block m"
  have "unat (line_word m a (dc_index b m)) = block m * (unat b div block m) + 4 * ((unat b mod block m) div 4)"
    using lw[OF dc_index_bound[OF assms(1)]] eq dc_index_nat[OF assms(1)] by simp
  also have "\<dots> = 4 * (unat b div 4)"
  proof -
    have "(unat b mod (4 * n)) div 4 = unat b div 4 mod n" using n(2) by (simp add: mod_mult2_eq)
    moreover have "unat b div (4 * n) = unat b div 4 div n" by (rule div_mult2_eq)
    ultimately have "block m * (unat b div block m) + 4 * ((unat b mod block m) div 4) = 4 * (n * (unat b div 4 div n) + unat b div 4 mod n)"
      unfolding n(1) by (simp only: distrib_left mult.assoc)
    then show ?thesis by (simp only: mult_div_mod_eq)
  qed
  also have "\<dots> = unat (b AND NOT 3)" by (simp only: unat_word_base) (simp add: minus_mod_eq_mult_div)
  finally show "line_word m a (dc_index b m) = b AND NOT 3" by (rule word_unat_eq_iff[THEN iffD2])
qed

text \<open>A line all of whose bytes are RAM.\<close>

definition line_backed :: "machine \<Rightarrow> u32 \<Rightarrow> bool" where
  "line_backed m a \<longleftrightarrow> (\<forall>b. unat b div block m = unat a div block m \<longrightarrow> ram_backed m b)"

text \<open>The machines agree but for the words of one way and the area of the last access.\<close>

definition refilled :: "nat \<Rightarrow> nat \<Rightarrow> (nat \<Rightarrow> u32) \<Rightarrow> machine \<Rightarrow> machine \<Rightarrow> bool" where
  "refilled i way g m m' \<longleftrightarrow> (\<exists>c. mem m' = (mem m)\<lparr>cur_area := c\<rparr>) \<and> conf m' = conf m \<and> cpu m' = cpu m
     \<and> dc m' = (dc m)(i := (dc m i)(way := (dc m i way)\<lparr>dc_line := g\<rparr>)) \<and> bare_ok m' \<and> except_pending m' = except_pending m"

lemma refilled_guest: "refilled i way g m m' \<Longrightarrow> guest_mem m' = guest_mem m \<and> ram_backed m' = ram_backed m"
proof -
  assume "refilled i way g m m'"
  then show ?thesis by (auto simp: refilled_def guest_mem_def ram_backed_def fun_eq_iff)
qed

lemma refilled_trans: "refilled i way g m m2 \<Longrightarrow> refilled i way h m2 m' \<Longrightarrow> refilled i way h m m'"
  by (auto simp: refilled_def)

lemma refill_step:
  assumes ok: "bare_ok m" and al: "aligned x 4" and ram: "ram_backed m x"
  shows "\<exists>m'. evalsim_mem32 x va m = Inr (be_load (guest_mem m) x 4, m') \<and> refilled i way (dc_line (dc m i way)) m m'
     \<and> cur_area (mem m') \<noteq> None"
proof -
  have wf: "phys_wf (mem m)" and r: "ram_at (mem m) x \<noteq> None" using ok ram by (simp_all add: bare_ok_def ram_backed_def)
  from ram_read[OF wf al r, of va] obtain j d where j: "j < length (dev_list (mem m))"
      "read_width x va 4 m = Inr (be_load (phys_byte (mem m)) x 4, touched j d m)" by blast
  have "refilled i way (dc_line (dc m i way)) m (touched j d m)"
    using j(1) wf by (auto simp: refilled_def bare_ok_def touched_def set_mem_def add_mem_cycles_def intro: phys_wf_update)
  then show ?thesis using j(2) by (auto simp: read_width_def guest_mem_def)
qed

lemma refill_loop:
  assumes "bare_ok m" and "\<forall>k\<in>set ks. aligned (refill_addr m a k) 4 \<and> ram_backed m (refill_addr m a k)"
  shows "\<exists>m'. dc_refill a i way ks m = Inr (True, m') \<and> refilled i way
      (fold (\<lambda>k g. g(dc_index (a + k) m := be_load (guest_mem m) (refill_addr m a k) 4)) ks (dc_line (dc m i way))) m m'"
  using assms
proof (induction ks arbitrary: m)
  case Nil
  then show ?case by (auto simp: refilled_def intro: exI[of _ "cur_area (mem m)"])
next
  case (Cons k ks)
  have "aligned (refill_addr m a k) 4" "ram_backed m (refill_addr m a k)" using Cons.prems(2) by simp_all
  from refill_step[OF Cons.prems(1) this] obtain m1 where m1:
      "evalsim_mem32 (refill_addr m a k) 0 m = Inr (be_load (guest_mem m) (refill_addr m a k) 4, m1)"
      "refilled i way (dc_line (dc m i way)) m m1" "cur_area (mem m1) \<noteq> None" by blast
  define m2 where "m2 = upd_dc i way (\<lambda>l. l\<lparr>dc_line := (dc_line l)(dc_index (a + k) m1 := be_load (guest_mem m) (refill_addr m a k) 4)\<rparr>) m1"
  have frame: "dc_index b m1 = dc_index b m" "dc_index b m2 = dc_index b m" "refill_addr m2 a c = refill_addr m a c" for b c
    using m1(2) by (simp_all add: m2_def refilled_def upd_dc_def dc_index_def refill_addr_def dcc_def)
  have m2: "refilled i way ((dc_line (dc m i way))(dc_index (a + k) m := be_load (guest_mem m) (refill_addr m a k) 4)) m m2"
    using m1(2) by (auto simp: m2_def refilled_def upd_dc_def frame(1) bare_ok_def)
  have step: "dc_refill a i way (k # ks) m = dc_refill a i way ks m2"
    using m1(1,3) by (auto simp add: refill_addr_def m2_def Let_def upd_dc_def)
  have "bare_ok m2" using m2 by (simp add: refilled_def)
  have "\<exists>m'. dc_refill a i way ks m2 = Inr (True, m') \<and> refilled i way
      (fold (\<lambda>k g. g(dc_index (a + k) m := be_load (guest_mem m) (refill_addr m a k) 4)) ks (dc_line (dc m2 i way))) m2 m'"
    using Cons.IH[OF \<open>bare_ok m2\<close>] Cons.prems(2) by (simp add: frame refilled_guest[OF m2] fun_upd_def)
  then obtain m' where m': "dc_refill a i way ks m2 = Inr (True, m')"
    "refilled i way (fold (\<lambda>k g. g(dc_index (a + k) m := be_load (guest_mem m) (refill_addr m a k) 4)) ks (dc_line (dc m2 i way))) m2 m'"
    by blast
  have "dc_line (dc m2 i way) = (dc_line (dc m i way))(dc_index (a + k) m := be_load (guest_mem m) (refill_addr m a k) 4)"
    using m2 by (simp add: refilled_def)
  with refilled_trans[OF m2 m'(2)] m'(1) step show ?case by (auto simp: fun_upd_def simp del: dc_refill.simps)
qed

lemma fold_upd: "fold (\<lambda>k g. g(p k := v (p k))) ks f x = (if x \<in> p ` set ks then v x else f x)"
  by (induction ks arbitrary: f) auto

lemma refill_ok:
  assumes ok: "bare_ok m" and geo: "dc_geometry m" and backed: "line_backed m a"
  shows "\<exists>m' g. dc_refill a i way (dc_offsets m) m = Inr (True, m') \<and> refilled i way g m m'
     \<and> (\<forall>b. unat b div block m = unat a div block m \<longrightarrow> g (dc_index b m) = word_at m b)"
proof -
  define n where "n = block m div 4"
  have n: "n = (unat (dc_blocksize (dcc m)) + 3) div 4" "0 < n"
    using block_cases[OF geo] by (auto simp: n_def block_def)
  have ks: "dc_offsets m = map (\<lambda>k. of_nat (4 * k)) [0..<n]" by (simp add: dc_offsets_def n(1))
  define p where "p k = dc_index (a + k) m" for k
  have p: "refill_addr m a k = line_word m a (p k)" "p k < block m div 4" if "k \<in> set (dc_offsets m)" for k
    using that refill_addr_word(1)[OF geo] dc_index_bound[OF geo] by (auto simp: ks n_def p_def)
  have "\<forall>k\<in>set (dc_offsets m). aligned (refill_addr m a k) 4 \<and> ram_backed m (refill_addr m a k)"
    using backed line_word_props(1,2)[OF geo p(2)] by (auto simp: p(1) aligned_def line_backed_def)
  from refill_loop[OF ok this] obtain m' where m': "dc_refill a i way (dc_offsets m) m = Inr (True, m')"
    "refilled i way (fold (\<lambda>k g. g(dc_index (a + k) m := be_load (guest_mem m) (refill_addr m a k) 4)) (dc_offsets m) (dc_line (dc m i way))) m m'"
    by blast
  define g where "g = fold (\<lambda>k g. g(p k := be_load (guest_mem m) (line_word m a (p k)) 4)) (dc_offsets m) (dc_line (dc m i way))"
  have "fold (\<lambda>k g. g(dc_index (a + k) m := be_load (guest_mem m) (refill_addr m a k) 4)) (dc_offsets m) (dc_line (dc m i way)) = g"
    unfolding g_def by (rule fold_cong) (simp_all add: p(1) p_def)
  with m' have r: "refilled i way g m m'" by simp
  have "g (dc_index b m) = word_at m b" if b: "unat b div block m = unat a div block m" for b
  proof -
    have lt: "dc_index b m < n" using dc_index_bound[OF geo] by (simp add: n_def)
    define k where "k = (dc_index b m + n - unat a div 4 mod n) mod n"
    have "unat a div 4 mod n < n" using n(2) by simp
    then have "(unat a div 4 + k) mod n = (unat a div 4 mod n + (dc_index b m + n - unat a div 4 mod n)) mod n"
      unfolding k_def by (simp only: mod_add_left_eq mod_add_right_eq)
    also have "unat a div 4 mod n + (dc_index b m + n - unat a div 4 mod n) = dc_index b m + n"
      by (rule le_add_diff_inverse) (use \<open>unat a div 4 mod n < n\<close> in linarith)
    also have "(dc_index b m + n) mod n = dc_index b m" using lt by simp
    finally have "p (of_nat (4 * k)) = dc_index b m"
      using refill_addr_word(2)[OF geo, of k a] n(2) by (simp add: p_def n_def[symmetric] k_def)
    moreover have "of_nat (4 * k) \<in> set (dc_offsets m)" using n(2) by (auto simp: ks k_def)
    ultimately have "dc_index b m \<in> p ` set (dc_offsets m)" by (metis imageI)
    then show ?thesis
      using line_word_props(3)[OF geo dc_index_bound[OF geo] b]       unfolding g_def fold_upd[of p "\<lambda>x. be_load (guest_mem m) (line_word m a x) 4"] by (simp add: word_at_def)
  qed
  with m'(1) r show ?thesis by blast
qed

section \<open>Coherence\<close>

text \<open>
  A way whose tag is that of an address holds the word memory has there, and a set has no tag twice.
\<close>

definition coherent :: "machine \<Rightarrow> bool" where
  "coherent m \<longleftrightarrow>
     (\<forall>a w. line_backed m a \<and> w < dc_nways (dcc m) \<and> dc_tagaddr (dc m (dc_set a m) w) = dc_tag a m
        \<longrightarrow> dc_line (dc m (dc_set a m) w) (dc_index a m) = word_at m a)
     \<and> (\<forall>i w w'. i < unat (dc_nsets (dcc m)) \<and> w < dc_nways (dcc m) \<and> w' < dc_nways (dcc m)
        \<and> dc_tagaddr (dc m i w) = dc_tagaddr (dc m i w') \<and> dc_tagaddr (dc m i w) \<noteq> -1 \<longrightarrow> w = w')"

lemma dc_set_bound: "dc_geometry m \<Longrightarrow> dc_set a m < unat (dc_nsets (dcc m))"
  by (simp add: dc_set_nat dc_geometry_def unat_gt_0)

definition cached_ok :: "machine \<Rightarrow> bool" where
  "cached_ok m \<longleftrightarrow> bare_ok m \<and> dc_geometry m \<and> dc_active m \<and> coherent m"

text \<open>What the cache functions look at besides the ways: none of it changes.\<close>

definition same_frame :: "machine \<Rightarrow> machine \<Rightarrow> bool" where
  "same_frame m m' \<longleftrightarrow> dcc m' = dcc m \<and> dc_active m' = dc_active m \<and> ram_backed m' = ram_backed m \<and> bare_ok m' = bare_ok m
     \<and> core m' = core m"

lemma same_frameD:
  assumes "same_frame m m'"
  shows "dc_set a m' = dc_set a m" "dc_tag a m' = dc_tag a m" "dc_index a m' = dc_index a m" "block m' = block m"
    "dc_geometry m' = dc_geometry m" "line_backed m' a = line_backed m a" "dc_offsets m' = dc_offsets m"
    "dcc m' = dcc m" "bare_ok m' = bare_ok m" "dc_active m' = dc_active m" "ram_backed m' = ram_backed m" "core m' = core m"
  using assms by (simp_all add: same_frame_def dc_set_def dc_tag_def dc_index_def block_def dc_geometry_def line_backed_def dc_offsets_def)

lemma same_frame_trans: "same_frame m m1 \<Longrightarrow> same_frame m1 m2 \<Longrightarrow> same_frame m m2"
  by (simp add: same_frame_def)

lemma lru_only_frame: "lru_only m m' \<Longrightarrow> same_frame m m' \<and> guest_mem m' = guest_mem m"
  by (auto simp: same_frame_def lru_only_def dcc_def dc_active_def ram_backed_def bare_ok_def guest_mem_def fun_eq_iff)

lemma refilled_frame: "refilled i way g m m' \<Longrightarrow> bare_ok m \<Longrightarrow> same_frame m m'"
  using refilled_guest[of i way g m m']
  by (auto simp: same_frame_def refilled_def dcc_def dc_active_def core_def spr_def simp del: sprs_cpu)

lemma lru_only_coherent: "lru_only m m' \<Longrightarrow> coherent m \<Longrightarrow> coherent m'"
  using lru_only_frame[of m m'] same_frameD[of m m']
  by (simp add: coherent_def word_at_def lru_only_def) blast

text \<open>A line that holds what memory holds takes the place of a way.\<close>

definition filled :: "u32 \<Rightarrow> nat \<Rightarrow> machine \<Rightarrow> machine \<Rightarrow> bool" where
  "filled a way m m' \<longleftrightarrow> same_frame m m' \<and> guest_mem m' = guest_mem m
     \<and> (\<forall>i w. (i, w) \<noteq> (dc_set a m, way) \<longrightarrow> dc_line (dc m' i w) = dc_line (dc m i w) \<and> dc_tagaddr (dc m' i w) = dc_tagaddr (dc m i w))
     \<and> dc_tagaddr (dc m' (dc_set a m) way) = dc_tag a m
     \<and> (\<forall>b. unat b div block m = unat a div block m \<longrightarrow> dc_line (dc m' (dc_set a m) way) (dc_index b m) = word_at m b)"

lemma filled_lru: "filled a way m m1 \<Longrightarrow> lru_only m1 m' \<Longrightarrow> filled a way m m'"
  using lru_only_frame[of m1 m'] same_frame_trans[of m m1 m'] by (auto simp: filled_def lru_only_def)

lemma filled_coherent:
  assumes fill: "filled a way m m'" and geo: "dc_geometry m" and coh: "coherent m"
    and new: "\<forall>w < dc_nways (dcc m). dc_tagaddr (dc m (dc_set a m) w) \<noteq> dc_tag a m"
  shows "coherent m'"
proof -
  note frame = same_frameD[of m m']
  have same: "same_frame m m'" and g: "guest_mem m' = guest_mem m" using fill by (simp_all add: filled_def)
  show ?thesis unfolding coherent_def
  proof (intro conjI allI impI)
    fix b w
    assume b: "line_backed m' b \<and> w < dc_nways (dcc m') \<and> dc_tagaddr (dc m' (dc_set b m') w) = dc_tag b m'"
    have wa: "word_at m' b = word_at m b" by (simp add: word_at_def g)
    show "dc_line (dc m' (dc_set b m') w) (dc_index b m') = word_at m' b"
    proof (cases "(dc_set b m, w) = (dc_set a m, way)")
      case True
      then have "dc_tag b m = dc_tag a m" using b fill frame[OF same] by (simp add: filled_def)
      then have "unat b div block m = unat a div block m" using True same_line_iff[OF geo] by auto
      then show ?thesis using fill True frame[OF same] wa by (simp add: filled_def)
    next
      case False
      then show ?thesis using fill b coh frame[OF same] wa by (auto simp: filled_def coherent_def)
    qed
  next
    fix i w w'
    assume w: "i < unat (dc_nsets (dcc m')) \<and> w < dc_nways (dcc m') \<and> w' < dc_nways (dcc m') \<and> dc_tagaddr (dc m' i w) = dc_tagaddr (dc m' i w')
        \<and> dc_tagaddr (dc m' i w) \<noteq> -1"
    then show "w = w'"
      using fill coh new frame(8)[OF same] unfolding filled_def coherent_def
      by (cases "(i, w) = (dc_set a m, way)"; cases "(i, w') = (dc_set a m, way)") (metis Pair_inject)+
  qed
qed

lemma cached_ok_keep:
  "cached_ok m \<Longrightarrow> same_frame m m' \<Longrightarrow> coherent m' \<Longrightarrow> cached_ok m' \<and> line_backed m' = line_backed m"
  using same_frameD[of m m'] by (auto simp: cached_ok_def fun_eq_iff)

lemma miss_fills:
  assumes "bare_ok m" and "dc_geometry m" and "line_backed m a"
  shows "\<exists>m1. dc_refill a (dc_set a m) way (dc_offsets m) m = Inr (True, m1)
     \<and> filled a way m (dc_replace (dc_set a m) way (dc_tag a m) m1)"
proof -
  let ?i = "dc_set a m"
  obtain m1 g where m1: "dc_refill a ?i way (dc_offsets m) m = Inr (True, m1)" "refilled ?i way g m m1"
      "\<forall>b. unat b div block m = unat a div block m \<longrightarrow> g (dc_index b m) = word_at m b"
    using refill_ok[OF assms] by blast
  let ?n = "upd_dc ?i way (\<lambda>l. l\<lparr>dc_tagaddr := dc_tag a m\<rparr>) m1"
  have "same_frame m1 ?n" "guest_mem ?n = guest_mem m1"
    by (simp_all add: same_frame_def upd_dc_def dcc_def dc_active_def ram_backed_def bare_ok_def guest_mem_def core_def fun_eq_iff spr_def del: sprs_cpu)
  then have "filled a way m ?n"
    using m1(2,3) refilled_frame[OF m1(2) assms(1)] refilled_guest[OF m1(2)] same_frame_trans[of m m1 ?n]
    by (auto simp: filled_def refilled_def upd_dc_def)
  from filled_lru[OF this replace_tag] m1(1) show ?thesis by blast
qed

lemma refill_same_frame:
  assumes "dc_active m" shows "dc_active (m\<lparr>st := s\<rparr>)" "dcc (m\<lparr>st := s\<rparr>) = dcc m"
  using assms by (simp_all add: dc_active_def dcc_def)

lemma st_frame: "lru_only m (m\<lparr>st := s\<rparr>)"
  by (simp add: lru_only_extras lru_only_refl)

lemma filled_word: "filled a way m m' \<Longrightarrow> dc_line (dc m' (dc_set a m) way) (dc_index a m) = word_at m a"
  by (simp add: filled_def)

section \<open>Reads\<close>

lemma dc_read_hit:
  assumes ok: "cached_ok m" and al: "aligned a width" and backed: "line_backed m a"
    and hit: "dc_find (dc_set a m) (dc_tag a m) m = Some way"
  shows "\<exists>m'. dc_simulate_read a va width m = Inr (be_load (guest_mem m) a width, m') \<and> lru_only m m'"
proof -
  define m1 where "m1 = dc_hit (dc_set a m) way (m\<lparr>st := (st m)\<lparr>dc_readhit := Suc (dc_readhit (st m))\<rparr>\<rparr>)"
  define m2 where "m2 = add_mem_cycles (dc_load_hitdelay (dcc m1)) m1"
  have l1: "lru_only m m1" unfolding m1_def by (rule lru_only_trans[OF st_frame lru_only_hit])
  then have l: "lru_only m m2" unfolding m2_def by (rule lru_only_extras(1))
  have "dc_index a m2 = dc_index a m" using lru_only_frame[OF l] same_frameD by simp
  moreover have "dc_line (dc m1 (dc_set a m) way) (dc_index a m) = word_at m a"
    using dc_find_Some[OF hit] ok backed l1 by (simp add: cached_ok_def coherent_def lru_only_def)
  moreover have "dc_active m" using ok by (simp add: cached_ok_def)
  ultimately have "dc_simulate_read a va width m = Inr (dc_extract a width (word_at m a), m2)"
    using hit by (simp add: dc_simulate_read_def Let_def m1_def[symmetric] m2_def[symmetric])
  then show ?thesis using l extract_load[OF al] by (auto simp: word_at_def)
qed

lemma dc_read_miss:
  assumes ok: "cached_ok m" and al: "aligned a width" and backed: "line_backed m a"
    and miss: "dc_find (dc_set a m) (dc_tag a m) m = None"
  shows "\<exists>m'. dc_simulate_read a va width m = Inr (be_load (guest_mem m) a width, m')
     \<and> same_frame m m' \<and> guest_mem m' = guest_mem m \<and> coherent m'"
proof -
  define m0 where "m0 = m\<lparr>st := (st m)\<lparr>dc_readmiss := Suc (dc_readmiss (st m))\<rparr>\<rparr>"
  define way where "way = dc_read_victim (dc_set a m) m0"
  have l0: "lru_only m m0" unfolding m0_def by (rule st_frame)
  have f0: "same_frame m m0" "guest_mem m0 = guest_mem m" using lru_only_frame[OF l0] by simp_all
  note same0 = same_frameD[OF f0(1)]
  have ok0: "bare_ok m0" "dc_geometry m0" "line_backed m0 a" "coherent m0" using ok backed lru_only_coherent[OF l0]
    by (simp_all add: same0 cached_ok_def)
  obtain m1 where m1: "dc_refill a (dc_set a m) way (dc_offsets m0) m0 = Inr (True, m1)"
      "filled a way m0 (dc_replace (dc_set a m) way (dc_tag a m) m1)"
    using miss_fills[OF ok0(1-3), of way] by (auto simp: same0)
  define m2 where "m2 = add_mem_cycles (dc_load_missdelay (dcc (dc_replace (dc_set a m) way (dc_tag a m) m1)))
      (dc_replace (dc_set a m) way (dc_tag a m) m1)"
  define m3 where "m3 = (if cfg_pcu_enabled (conf m2) then pcu_count_event SPR_PCMR_DCM m2 else m2)"
  have "lru_only (dc_replace (dc_set a m) way (dc_tag a m) m1) m3"
    by (simp add: m3_def m2_def lru_only_extras lru_only_refl)
  with m1(2) have fill: "filled a way m0 m3" by (rule filled_lru)
  have "\<forall>w < dc_nways (dcc m0). dc_tagaddr (dc m0 (dc_set a m0) w) \<noteq> dc_tag a m0"
    using dc_find_None[OF miss] l0 by (simp add: same0 lru_only_def)
  from filled_coherent[OF fill ok0(2,4) this] have coh: "coherent m3" .
  have f3: "same_frame m m3" "guest_mem m3 = guest_mem m" using fill f0 same_frame_trans by (auto simp: filled_def)
  have idx: "dc_index a m3 = dc_index a m" using same_frameD(3)[OF f3(1)] .
  have "dc_line (dc m3 (dc_set a m) way) (dc_index a m) = word_at m a"
    using filled_word[OF fill] by (simp add: same0 word_at_def f0)
  then have "dc_simulate_read a va width m = Inr (dc_extract a width (word_at m a), m3)"
    using ok miss m1(1) idx unfolding dc_simulate_read_def cached_ok_def
    by (simp add: Let_def m0_def[symmetric] way_def[symmetric] m2_def[symmetric] m3_def[symmetric]
        del: add_mem_cycles_frame split del: if_split cong: if_cong)
  then show ?thesis using f3 coh extract_load[OF al] by (auto simp: word_at_def)
qed

lemma dc_read_ok:
  assumes ok: "cached_ok m" and al: "aligned a width" and backed: "line_backed m a"
  shows "\<exists>m'. dc_simulate_read a va width m = Inr (be_load (guest_mem m) a width, m') \<and> cached_ok m'
     \<and> guest_mem m' = guest_mem m \<and> line_backed m' = line_backed m \<and> core m' = core m"
proof (cases "dc_find (dc_set a m) (dc_tag a m) m")
  case None
  from dc_read_miss[OF assms None] obtain m' where m': "same_frame m m'" "coherent m'" "guest_mem m' = guest_mem m"
      "dc_simulate_read a va width m = Inr (be_load (guest_mem m) a width, m')" by blast
  have "cached_ok m' \<and> line_backed m' = line_backed m" using cached_ok_keep[OF ok m'(1,2)] .
  with same_frameD(12)[OF m'(1)] m'(3,4) show ?thesis by (intro exI[of _ m']) simp
next
  case (Some way)
  from dc_read_hit[OF assms Some] obtain m' where m': "lru_only m m'"
      "dc_simulate_read a va width m = Inr (be_load (guest_mem m) a width, m')" by blast
  have sf: "same_frame m m'" "guest_mem m' = guest_mem m" using lru_only_frame[OF m'(1)] by simp_all
  have "coherent m'" using lru_only_coherent[OF m'(1)] ok by (simp add: cached_ok_def)
  then have "cached_ok m' \<and> line_backed m' = line_backed m" by (rule cached_ok_keep[OF ok sf(1)])
  with same_frameD(12)[OF sf(1)] sf(2) m'(2) show ?thesis by (intro exI[of _ m']) simp
qed

section \<open>Writes\<close>

lemma same_word:
  assumes "dc_geometry m" and "b AND NOT 3 = a AND (NOT 3 :: u32)"
  shows "unat b div block m = unat a div block m" and "dc_index b m = dc_index a m"
proof -
  obtain n where n: "block m = 4 * n" "n = 4 \<or> n = 8" using block_cases[OF assms(1)] by fastforce
  have "unat b - unat b mod 4 = unat a - unat a mod 4" using assms(2) unat_word_base by metis
  then have q: "unat b div 4 = unat a div 4" by (simp add: minus_mod_eq_mult_div)
  have "unat x div (4 * n) = unat x div 4 div n" for x :: u32 by (rule div_mult2_eq)
  then show "unat b div block m = unat a div block m" by (simp only: n(1) q)
  have "(unat x mod (4 * n)) div 4 = unat x div 4 mod n" for x :: u32 using n(2) by (simp add: mod_mult2_eq)
  then show "dc_index b m = dc_index a m" by (simp only: dc_index_nat[OF assms(1)] n(1) q)
qed

text \<open>After the write to memory: the word of the address is the only one that differs.\<close>

definition written :: "u32 \<Rightarrow> nat \<Rightarrow> u32 \<Rightarrow> machine \<Rightarrow> machine \<Rightarrow> bool" where
  "written a width v m m' \<longleftrightarrow> same_frame m m' \<and> guest_mem m' = be_store (guest_mem m) a width v \<and> dc m' = dc m"

lemma written_word:
  "written a width v m m' \<Longrightarrow> aligned a width \<Longrightarrow> b AND NOT 3 \<noteq> a AND NOT 3 \<Longrightarrow> word_at m' b = word_at m b"
  unfolding word_at_def written_def by (metis store_other_word)

lemma write_width_ok:
  assumes ok: "cached_ok m" and al: "aligned a width" and ram: "ram_backed m a"
  shows "\<exists>m'. write_width a va v width m = Inr m' \<and> written a width v m m' \<and> cur_area (mem m') \<noteq> None"
proof -
  have wf: "phys_wf (mem m)" and r: "ram_at (mem m) a \<noteq> None"
    using ok ram by (simp_all add: cached_ok_def bare_ok_def ram_backed_def)
  from ram_write[OF wf al r, of va v] obtain i p f d where w: "i < length (dev_list (mem m))"
      "write_width a va v width m = Inr (set_mem (ram_update p f ((mem m)\<lparr>cur_area := Some i, cur_vadd := va\<rparr>)) (touched i d m))"
      "phys_byte (ram_update p f (mem m)) = be_store (phys_byte (mem m)) a width v" by blast
  define m' where "m' = set_mem (ram_update p f ((mem m)\<lparr>cur_area := Some i, cur_vadd := va\<rparr>)) (touched i d m)"
  have "phys_wf (mem m')"
    unfolding m'_def mem_set_mem by (intro phys_wf_update) (use wf w(1) in \<open>auto intro: phys_wf_update\<close>)
  then have "bare_ok m' = bare_ok m" using wf by (simp add: bare_ok_def)
  moreover have "data_ci (mem m') = data_ci (mem m)" by (simp add: m'_def ram_update_def)
  moreover have "conf m' = conf m" "cpu m' = cpu m" "dc m' = dc m" "except_pending m' = except_pending m"
    by (simp_all add: m'_def set_mem_def touched_def add_mem_cycles_def)
  moreover have "ram_backed m' = ram_backed m" "guest_mem m' = be_store (guest_mem m) a width v" "cur_area (mem m') \<noteq> None"
    using w(3) by (simp_all add: m'_def ram_backed_def guest_mem_def fun_eq_iff ram_update_pointers)
  ultimately show ?thesis
    using w(2) unfolding m'_def[symmetric]
    by (intro exI[of _ m']) (simp add: written_def same_frame_def dcc_def dc_active_def core_def spr_def del: sprs_cpu)
qed

text \<open>On a hit the word of the line is overwritten as memory was.\<close>

lemma write_hit_coherent:
  assumes ok: "cached_ok m" and al: "aligned a width" and way: "way < dc_nways (dcc m)"
    and tag: "dc_tagaddr (dc m (dc_set a m) way) = dc_tag a m"
    and wr: "same_frame m m'" "guest_mem m' = be_store (guest_mem m) a width v"
    and ways: "\<And>i w. dc_tagaddr (dc m' i w) = dc_tagaddr (dc m i w)"
      "\<And>i w. dc_line (dc m' i w) = (if (i, w) = (dc_set a m, way) then (dc_line (dc m i w))(dc_index a m := word_at m' a) else dc_line (dc m i w))"
  shows "coherent m'"
proof -
  note frame = same_frameD[OF wr(1)]
  have geo: "dc_geometry m" and coh: "coherent m" using ok by (simp_all add: cached_ok_def)
  show ?thesis unfolding coherent_def frame ways(1)
  proof (intro conjI allI impI)
    fix b w
    assume b: "line_backed m b \<and> w < dc_nways (dcc m) \<and> dc_tagaddr (dc m (dc_set b m) w) = dc_tag b m"
    then have old: "dc_line (dc m (dc_set b m) w) (dc_index b m) = word_at m b" using coh by (simp add: coherent_def)
    show "dc_line (dc m' (dc_set b m) w) (dc_index b m) = word_at m' b"
    proof (cases "b AND NOT 3 = a AND NOT 3")
      case True
      then have line: "dc_set b m = dc_set a m \<and> dc_tag b m = dc_tag a m" and "dc_index b m = dc_index a m"
        using same_line_iff[OF geo] same_word[OF geo True] by auto
      have "dc_tagaddr (dc m (dc_set a m) w) = dc_tagaddr (dc m (dc_set a m) way)"
        "dc_tagaddr (dc m (dc_set a m) w) \<noteq> -1" using b line tag dc_tag_valid[OF geo, of a] by simp_all
      moreover have "dc_set a m < unat (dc_nsets (dcc m))" by (rule dc_set_bound[OF geo])
      ultimately have "w = way" using coh b way unfolding coherent_def by blast
      with line \<open>dc_index b m = dc_index a m\<close> show ?thesis by (simp only: ways(2) word_at_def True) simp
    next
      case False
      then have same: "word_at m' b = word_at m b" unfolding word_at_def wr(2) by (rule store_other_word[OF al])
      have "dc_index b m \<noteq> dc_index a m" if "(dc_set b m, w) = (dc_set a m, way)"
      proof
        assume idx: "dc_index b m = dc_index a m"
        have "unat b div block m = unat a div block m" using that b tag same_line_iff[OF geo, of b a] by auto
        from line_word_props(3)[OF geo dc_index_bound[OF geo] this] line_word_props(3)[OF geo dc_index_bound[OF geo] refl, of a]
        show False using False idx by simp
      qed
      then show ?thesis using old same by (auto simp: ways(2))
    qed
  next
    fix i w w'
    assume "i < unat (dc_nsets (dcc m)) \<and> w < dc_nways (dcc m) \<and> w' < dc_nways (dcc m) \<and> dc_tagaddr (dc m i w) = dc_tagaddr (dc m i w')
        \<and> dc_tagaddr (dc m i w) \<noteq> -1"
    then show "w = w'" using coh unfolding coherent_def by blast
  qed
qed

text \<open>On a miss no way holds the word that was written.\<close>

lemma write_miss_coherent:
  assumes ok: "cached_ok m" and al: "aligned a width" and wr: "written a width v m m'"
    and none: "\<forall>w < dc_nways (dcc m). dc_tagaddr (dc m (dc_set a m) w) \<noteq> dc_tag a m"
  shows "coherent m'"
proof -
  have same: "same_frame m m'" and d: "dc m' = dc m" using wr by (simp_all add: written_def)
  note frame = same_frameD[OF same]
  have geo: "dc_geometry m" and coh: "coherent m" using ok by (simp_all add: cached_ok_def)
  have "word_at m' b = word_at m b" if "w < dc_nways (dcc m)" "dc_tagaddr (dc m (dc_set b m) w) = dc_tag b m" for b w
  proof (rule written_word[OF wr al])
    show "b AND NOT 3 \<noteq> a AND NOT 3"
      using that none same_line_iff[OF geo, of b a] same_word(1)[OF geo, of b a] by auto
  qed
  with coh show ?thesis unfolding coherent_def frame d by metis
qed

lemma same_frame_upd_line: "same_frame m (upd_dc i w (\<lambda>l. l\<lparr>dc_line := g l\<rparr>) m)" "guest_mem (upd_dc i w f m) = guest_mem m"
  by (simp_all add: same_frame_def upd_dc_def dcc_def dc_active_def ram_backed_def bare_ok_def guest_mem_def core_def fun_eq_iff
      spr_def del: sprs_cpu)

lemma dc_write_hit:
  assumes ok: "cached_ok m" and al: "aligned a width" and backed: "line_backed m a"
    and wr: "write_width a va v width m = Inr m0" "written a width v m m0" "cur_area (mem m0) \<noteq> None"
    and hit: "dc_find (dc_set a m) (dc_tag a m) m = Some way"
  shows "\<exists>m'. dc_simulate_write a va v width m = Inr m' \<and> same_frame m m' \<and> coherent m'
     \<and> guest_mem m' = be_store (guest_mem m) a width v"
proof -
  have sf: "same_frame m m0" and dcm: "dc m0 = dc m" and g0: "guest_mem m0 = be_store (guest_mem m) a width v"
    using wr(2) by (simp_all add: written_def)
  note frame0 = same_frameD[OF sf]
  define m1 where "m1 = dc_hit (dc_set a m) way (m0\<lparr>st := (st m0)\<lparr>dc_writehit := Suc (dc_writehit (st m0))\<rparr>\<rparr>)"
  define m2 where "m2 = add_mem_cycles (dc_store_hitdelay (dcc m1)) m1"
  define m3 where "m3 = upd_dc (dc_set a m) way (\<lambda>l. l\<lparr>dc_line := (dc_line l)(dc_index a m :=
      dc_insert a width v (dc_line (dc m2 (dc_set a m) way) (dc_index a m)))\<rparr>) m2"
  have "lru_only m0 m1" unfolding m1_def by (rule lru_only_trans[OF st_frame lru_only_hit])
  then have l: "lru_only m0 m2" unfolding m2_def by (rule lru_only_extras(1))
  have f2: "same_frame m m2" "guest_mem m2 = guest_mem m0" using lru_only_frame[OF l] same_frame_trans[OF sf] by auto
  have f3: "same_frame m m3" "guest_mem m3 = guest_mem m0"
    using same_frame_trans[OF f2(1) same_frame_upd_line(1)] f2(2) by (simp_all add: m3_def same_frame_upd_line(2))
  have way: "way < dc_nways (dcc m)" "dc_tagaddr (dc m (dc_set a m) way) = dc_tag a m" using dc_find_Some[OF hit] by simp_all
  then have "dc_line (dc m (dc_set a m) way) (dc_index a m) = word_at m a"
    using ok backed by (simp add: cached_ok_def coherent_def)
  then have word: "dc_insert a width v (dc_line (dc m2 (dc_set a m) way) (dc_index a m)) = word_at m3 a"
    using insert_store[OF al, of v "guest_mem m"] l dcm f3(2) g0 by (simp add: lru_only_def word_at_def)
  have "coherent m3"
  proof (rule write_hit_coherent[OF ok al way f3(1)])
    show "guest_mem m3 = be_store (guest_mem m) a width v" using f3(2) g0 by simp
    show "dc_tagaddr (dc m3 i w) = dc_tagaddr (dc m i w)" for i w
      using l dcm by (simp add: m3_def upd_dc_def lru_only_def)
    show "dc_line (dc m3 i w) = (if (i, w) = (dc_set a m, way) then (dc_line (dc m i w))(dc_index a m := word_at m3 a)
        else dc_line (dc m i w))" for i w
      unfolding word[symmetric] using l dcm by (auto simp add: m3_def upd_dc_def lru_only_def)
  qed
  moreover have "dc_simulate_write a va v width m = Inr m3"
  proof -
    have "dc_find (dc_set a m) (dc_tag a m) m0 = Some way" using hit frame0 dcm by (simp add: dc_find_def dc_ways_def)
    moreover have "dc_active m0" using ok frame0 by (simp add: cached_ok_def)
    moreover have "dc_index a m2 = dc_index a m" using same_frameD(3)[OF f2(1)] .
    moreover have "dc m2 = dc m1" by (simp add: m2_def)
    moreover obtain ar where "cur_area (mem m0) = Some ar" using wr(3) by blast
    ultimately show ?thesis using wr(1)
      by (simp add: dc_simulate_write_def Let_def frame0 m1_def[symmetric] m2_def[symmetric] m3_def)
  qed
  ultimately show ?thesis using f3 g0 by auto
qed

lemma dc_write_miss:
  assumes ok: "cached_ok m" and al: "aligned a width" and backed: "line_backed m a"
    and wr: "write_width a va v width m = Inr m0" "written a width v m m0" "cur_area (mem m0) \<noteq> None"
    and miss: "dc_find (dc_set a m) (dc_tag a m) m = None"
  shows "\<exists>m'. dc_simulate_write a va v width m = Inr m' \<and> same_frame m m' \<and> coherent m'
     \<and> guest_mem m' = be_store (guest_mem m) a width v"
proof -
  have sf: "same_frame m m0" and dcm: "dc m0 = dc m" and g0: "guest_mem m0 = be_store (guest_mem m) a width v"
    using wr(2) by (simp_all add: written_def)
  note frame0 = same_frameD[OF sf]
  have none: "\<forall>w < dc_nways (dcc m). dc_tagaddr (dc m (dc_set a m) w) \<noteq> dc_tag a m" using dc_find_None[OF miss] by simp
  define m1 where "m1 = m0\<lparr>st := (st m0)\<lparr>dc_writemiss := Suc (dc_writemiss (st m0))\<rparr>\<rparr>"
  define way where "way = dc_write_victim (dc_set a m) m1"
  have l1: "lru_only m0 m1" unfolding m1_def by (rule st_frame)
  have f1: "same_frame m m1" "guest_mem m1 = guest_mem m0" using lru_only_frame[OF l1] same_frame_trans[OF sf] by auto
  note frame1 = same_frameD[OF f1(1)]
  have ok1: "bare_ok m1" "dc_geometry m1" "line_backed m1 a" "coherent m1"
    using ok backed lru_only_coherent[OF l1 write_miss_coherent[OF ok al wr(2) none]] by (simp_all add: frame1 cached_ok_def)
  obtain m2 where m2: "dc_refill a (dc_set a m) way (dc_offsets m) m1 = Inr (True, m2)"
      "filled a way m1 (dc_replace (dc_set a m) way (dc_tag a m) m2)"
    using miss_fills[OF ok1(1-3), of way] by (auto simp: frame1)
  define m3 where "m3 = add_mem_cycles (dc_store_missdelay (dcc (dc_replace (dc_set a m) way (dc_tag a m) m2)))
      (dc_replace (dc_set a m) way (dc_tag a m) m2)"
  define m4 where "m4 = (if cfg_pcu_enabled (conf m3) then pcu_count_event SPR_PCMR_DCM m3 else m3)"
  have "lru_only (dc_replace (dc_set a m) way (dc_tag a m) m2) m4"
    by (simp add: m4_def m3_def lru_only_extras lru_only_refl)
  with m2(2) have fill: "filled a way m1 m4" by (rule filled_lru)
  have "\<forall>w < dc_nways (dcc m1). dc_tagaddr (dc m1 (dc_set a m1) w) \<noteq> dc_tag a m1"
    using none l1 dcm by (simp add: frame1 lru_only_def)
  from filled_coherent[OF fill ok1(2,4) this] have coh: "coherent m4" .
  have f4: "same_frame m m4" "guest_mem m4 = guest_mem m0" using fill f1 same_frame_trans by (auto simp: filled_def)
  have "dc_simulate_write a va v width m = Inr m4"
  proof -
    have "dc_find (dc_set a m) (dc_tag a m) m0 = None" using miss frame0 dcm by (simp add: dc_find_def dc_ways_def)
    moreover have "dc_active m0" using ok frame0 by (simp add: cached_ok_def)
    moreover obtain ar where "cur_area (mem m0) = Some ar" using wr(3) by blast
    ultimately show ?thesis using wr(1) m2(1) frame1(7) unfolding dc_simulate_write_def
      by (simp add: Let_def frame0 m1_def[symmetric] way_def[symmetric] m3_def[symmetric] m4_def[symmetric]
          del: add_mem_cycles_frame split del: if_split cong: if_cong)
  qed
  with f4 g0 coh show ?thesis by auto
qed

lemma line_backed_ram: "line_backed m a \<Longrightarrow> ram_backed m a"
  by (simp add: line_backed_def)

lemma dc_write_ok:
  assumes ok: "cached_ok m" and al: "aligned a width" and backed: "line_backed m a"
  shows "\<exists>m'. dc_simulate_write a va v width m = Inr m' \<and> cached_ok m'
     \<and> guest_mem m' = be_store (guest_mem m) a width v \<and> line_backed m' = line_backed m \<and> core m' = core m"
proof -
  from write_width_ok[OF ok al line_backed_ram[OF backed]] obtain m0 where
    m0: "write_width a va v width m = Inr m0" "written a width v m m0" "cur_area (mem m0) \<noteq> None" by blast
  have "\<exists>m'. dc_simulate_write a va v width m = Inr m' \<and> same_frame m m' \<and> coherent m'
     \<and> guest_mem m' = be_store (guest_mem m) a width v"
  proof (cases "dc_find (dc_set a m) (dc_tag a m) m")
    case None
    from dc_write_miss[OF ok al backed m0 None] show ?thesis .
  next
    case (Some way)
    from dc_write_hit[OF ok al backed m0 Some] show ?thesis .
  qed
  then obtain m' where m': "dc_simulate_write a va v width m = Inr m'" "same_frame m m'" "coherent m'"
      "guest_mem m' = be_store (guest_mem m) a width v" by blast
  have "cached_ok m' \<and> line_backed m' = line_backed m" using cached_ok_keep[OF ok m'(2,3)] .
  with same_frameD(12)[OF m'(2)] m'(1,4) show ?thesis by (intro exI[of _ m']) simp
qed

text \<open>The data cache keeps the contract of a memory.\<close>

interpretation cached: data_memory cached_ok line_backed guest_mem dc_simulate_read dc_simulate_write
proof unfold_locales
  fix m a width va v
  assume "cached_ok m" and "aligned a width" and "line_backed m a"
  from dc_read_ok[OF this, of va] dc_write_ok[OF this, of va v]
  show "\<exists>m'. dc_simulate_read a va width m = Inr (be_load (guest_mem m) a width, m') \<and> cached_ok m' \<and> guest_mem m' = guest_mem m
      \<and> line_backed m' = line_backed m"
    and "\<exists>m'. dc_simulate_write a va v width m = Inr m' \<and> cached_ok m' \<and> guest_mem m' = be_store (guest_mem m) a width v
      \<and> line_backed m' = line_backed m"
    by blast+
qed

section \<open>Bringing the cache up\<close>

text \<open>With the cache off \<open>dc_inv\<close> invalidates every way of the set of the address.\<close>

lemma fold_clear:
  "dc (fold (\<lambda>w. upd_dc i w (\<lambda>l. l\<lparr>dc_tagaddr := -1, dc_lru := 0\<rparr>)) ws m) j w =
     (if j = i \<and> w \<in> set ws then (dc m j w)\<lparr>dc_tagaddr := -1, dc_lru := 0\<rparr> else dc m j w)"
  by (induction ws arbitrary: m) (auto simp: upd_dc_def)

lemma fold_clear_frame:
  "same_frame m (fold (\<lambda>w. upd_dc i w (\<lambda>l. l\<lparr>dc_tagaddr := -1, dc_lru := 0\<rparr>)) ws m)"
  "spr r (fold (\<lambda>w. upd_dc i w (\<lambda>l. l\<lparr>dc_tagaddr := -1, dc_lru := 0\<rparr>)) ws m) = spr r m"
  by (induction ws arbitrary: m)
    (simp_all add: same_frame_def upd_dc_def dcc_def dc_active_def ram_backed_def bare_ok_def core_def fun_eq_iff spr_def del: sprs_cpu)

lemma dc_inv_off:
  assumes "has (spr SPR_UPR m) SPR_UPR_DCP" and "\<not> has (spr SPR_SR m) SPR_SR_DCE"
  shows "dc (dc_inv a m) j w =
      (if j = dc_set a m \<and> w < dc_nways (dcc m) then (dc m j w)\<lparr>dc_tagaddr := -1, dc_lru := 0\<rparr> else dc m j w)"
    and "same_frame m (dc_inv a m)" and "spr r (dc_inv a m) = spr r m"
  using assms by (simp_all add: dc_inv_def Let_def fold_clear fold_clear_frame dc_ways_def)

lemma dc_inv_mem: "mem (dc_inv a m) = mem m"
proof -
  have "mem (fold (\<lambda>w. upd_dc i w (\<lambda>l. l\<lparr>dc_tagaddr := -1, dc_lru := 0\<rparr>)) ws m) = mem m" for i ws
    by (induction ws arbitrary: m) (simp_all add: upd_dc_def)
  then show ?thesis by (simp add: dc_inv_def Let_def upd_dc_def split: option.split)
qed

lemma dc_inv_all:
  assumes "has (spr SPR_UPR m) SPR_UPR_DCP" and "\<not> has (spr SPR_SR m) SPR_SR_DCE"
  shows "same_frame m (fold dc_inv as m) \<and> spr r (fold dc_inv as m) = spr r m
     \<and> (w < dc_nways (dcc m) \<and> i \<in> (\<lambda>a. dc_set a m) ` set as \<longrightarrow> dc_tagaddr (dc (fold dc_inv as m) i w) = -1)
     \<and> (w < dc_nways (dcc m) \<and> dc_tagaddr (dc m i w) = -1 \<longrightarrow> dc_tagaddr (dc (fold dc_inv as m) i w) = -1)"
  using assms
proof (induction as arbitrary: m)
  case Nil
  then show ?case by (simp add: same_frame_def)
next
  case (Cons a as)
  note inv = dc_inv_off[OF Cons.prems, where a = a]
  note frame = same_frameD[OF inv(2)]
  from Cons.IH[of "dc_inv a m"] Cons.prems same_frame_trans[OF inv(2)] show ?case
    by (auto simp: inv(1,3) frame)
qed

lemma no_valid_way_coherent:
  assumes "dc_geometry m" and "\<forall>i w. i < unat (dc_nsets (dcc m)) \<and> w < dc_nways (dcc m) \<longrightarrow> dc_tagaddr (dc m i w) = -1"
  shows "coherent m"
proof -
  have "dc_tagaddr (dc m (dc_set a m) w) \<noteq> dc_tag a m" if "w < dc_nways (dcc m)" for a w
    using that assms dc_set_bound[OF assms(1), of a] dc_tag_valid[OF assms(1), of a] by auto
  then show ?thesis using assms(2) by (auto simp: coherent_def)
qed

lemma enable_frame:
  assumes "dc_geometry m" "bare_ok m" "coherent m" and "has (spr SPR_UPR m) SPR_UPR_DCP" and "\<not> data_ci (mem m)"
  shows "cached_ok (spr_or SPR_SR SPR_SR_DCE m)"
  using assms
  by (simp add: cached_ok_def bare_ok_def dc_geometry_def coherent_def dc_active_def line_backed_def ram_backed_def
      block_def dc_set_def dc_tag_def dc_index_def word_at_def guest_mem_def dcc_def) blast

section \<open>Properties\<close>

text \<open>A machine with a cache of 4 sets of 2 ways in front of 1 MB of RAM, the cache switched off.\<close>

definition cache_machine :: machine where
  "cache_machine = spr_or SPR_UPR SPR_UPR_DCP ((zero_machine 4)
     \<lparr>conf := zero_config\<lparr>cfg_dc := (cfg_dc zero_config)\<lparr>dc_nsets := 4, dc_nways := 2\<rparr>\<rparr>,
      mem := zero_memory\<lparr>dev_list := [sample_area 0xfffff 0], rams := [0 \<mapsto> \<lparr>ram_size = 0x100000, ram_bytes = \<lambda>_. 0\<rparr>]\<rparr>\<rparr>)"

lemma cache_machine_simps:
  "dcc cache_machine = (cfg_dc zero_config)\<lparr>dc_nsets := 4, dc_nways := 2\<rparr>"
  "mem cache_machine = zero_memory\<lparr>dev_list := [sample_area 0xfffff 0], rams := [0 \<mapsto> \<lparr>ram_size = 0x100000, ram_bytes = \<lambda>_. 0\<rparr>]\<rparr>"
  "spr SPR_UPR cache_machine = SPR_UPR_DCP" "spr SPR_SR cache_machine = 0"
  by (simp_all add: cache_machine_def dcc_def)

lemma cache_machine_geometry: "dc_geometry cache_machine"
  by (simp add: dc_geometry_def cache_machine_simps zero_config_def)

lemma cache_machine_ram:
  shows "bare_ok cache_machine" and "unat a < 0x100000 \<Longrightarrow> ram_backed cache_machine a"
proof -
  have ram: "is_ram_ops 0 sample_ops" "read_dat8 sample_ops = 0"
    by (simp_all add: is_ram_ops_def sample_ops_def ram_ops_def memory_sec_start_def Let_def)
  have blk: "ram_block (mem cache_machine) (sample_area 0xfffff 0) = Some 0"
    using ram by (simp add: ram_block_def cache_machine_simps sample_area_def zero_memory_def)
  have len: "dev_list (mem cache_machine) = [sample_area 0xfffff 0]"
    and ram_sz: "ram_size (the (rams (mem cache_machine) 0)) = 0x100000"
    and sizes: "3 AND size_mask (sample_area 0xfffff 0) = 3" "ram_size (the (rams (mem cache_machine) 0)) mod 4 = 0"
    by (simp_all add: cache_machine_simps zero_memory_def) (simp add: sample_area_def)
  have wf: "mem_wf (mem cache_machine)"
    using area_wf_sample(1) by (auto simp: mem_wf_def cache_machine_simps zero_memory_def) (simp add: sample_area_def)
  then show "bare_ok cache_machine"
    using blk len sizes by (auto simp: bare_ok_def phys_wf_def)
  assume a: "unat a < 0x100000"
  have "area_matches a (sample_area 0xfffff 0)"
    using a by (simp add: area_matches_range[OF area_wf_sample(1)]) (simp add: sample_area_def word_less_nat_alt)
  moreover have "unat (a AND 0xfffff) < 0x100000"
  proof -
    have "unat (a AND 0xfffff) \<le> unat (0xfffff :: u32)" by (rule word_and_le1[THEN word_le_nat_alt[THEN iffD1]])
    then show ?thesis by simp
  qed
  ultimately have "ram_at (mem cache_machine) a = Some (0, a AND size_mask (sample_area 0xfffff 0))"
    using ram_at_area[OF wf, of 0 a 0] len blk ram_sz by (simp add: sample_area_def)
  then show "ram_backed cache_machine a" by (simp add: ram_backed_def)
qed

lemma cache_machine_lines: "unat a < 0x100000 \<Longrightarrow> line_backed cache_machine a"
proof -
  have near: "x div 16 = y div 16 \<Longrightarrow> y < 1048576 \<Longrightarrow> x < 1048576" for x y :: nat
    using div_less_iff_less_mult[of 16 x 65536] div_less_iff_less_mult[of 16 y 65536] by simp
  assume "unat a < 0x100000"
  moreover have "block cache_machine = 16" by (simp add: block_def cache_machine_simps zero_config_def)
  ultimately show ?thesis
    using near by (auto simp: line_backed_def intro!: cache_machine_ram(2))
qed

text \<open>
  C2: the data cache is transparent. In a state where the cache is on and coherent, any sequence of aligned
  loads and stores to lines of RAM returns the same values through \<open>dc_simulate_read\<close> and
  \<open>dc_simulate_write\<close> as through the physical accesses, leaves the same bytes in memory, and leaves the cache
  coherent; both agree with a plain byte memory.
\<close>

theorem dcache_transparent:
  assumes "cached_ok m" and "\<forall>x\<in>set xs. access_ok (line_backed m) x"
  shows "\<exists>vs m1 m2. run_accesses dc_simulate_read dc_simulate_write xs m = Inr (vs, m1)
     \<and> run_accesses read_width write_width xs m = Inr (vs, m2)
     \<and> guest_mem m1 = guest_mem m2 \<and> cached_ok m1
     \<and> (vs, guest_mem m1) = spec_accesses xs (guest_mem m)"
proof -
  have "\<forall>x\<in>set xs. access_ok (ram_backed m) x"
    using assms(2) line_backed_ram by (metis access_ok.simps access.exhaust)
  from bare.run_spec[OF _ this] cached.run_spec[OF assms] assms(1) show ?thesis
    by (force simp: cached_ok_def)
qed

text \<open>The same machine with every way invalid and the cache switched on.\<close>

definition cached_machine :: machine where
  "cached_machine = spr_or SPR_SR SPR_SR_DCE (cache_machine\<lparr>dc := \<lambda>_ _. \<lparr>dc_line = \<lambda>_. 0, dc_tagaddr = -1, dc_lru = 0\<rparr>\<rparr>)"

lemma cached_machine_ok: "cached_ok cached_machine"
  unfolding cached_machine_def
proof (rule enable_frame)
  show "dc_geometry (cache_machine\<lparr>dc := \<lambda>_ _. \<lparr>dc_line = \<lambda>_. 0, dc_tagaddr = -1, dc_lru = 0\<rparr>\<rparr>)"
    using cache_machine_geometry by (simp add: dc_geometry_def dcc_def)
  then show "coherent (cache_machine\<lparr>dc := \<lambda>_ _. \<lparr>dc_line = \<lambda>_. 0, dc_tagaddr = -1, dc_lru = 0\<rparr>\<rparr>)"
    by (rule no_valid_way_coherent) simp
qed (use cache_machine_ram(1) in \<open>simp_all add: bare_ok_def cache_machine_simps has_def zero_memory_def del: One_nat_def\<close>)

lemma cached_machine_lines: "unat a < 0x100000 \<Longrightarrow> line_backed cached_machine a"
  using cache_machine_lines[of a]
  by (simp add: line_backed_def ram_backed_def block_def dcc_def cached_machine_def)

lemma dcache_transparent_witness:
  "\<exists>vs m1 m2. run_accesses dc_simulate_read dc_simulate_write [Store 0x100 4 0x11223344, Load 0x102 1] cached_machine = Inr (vs, m1)
     \<and> run_accesses read_width write_width [Store 0x100 4 0x11223344, Load 0x102 1] cached_machine = Inr (vs, m2) \<and> vs = [0x33]"
  using dcache_transparent[OF cached_machine_ok, of "[Store 0x100 4 0x11223344, Load 0x102 1]"] cached_machine_lines
  by (fastforce simp: aligned_def be_load_def be_store_def be_byte32_def)

text \<open>
  C29: the boot sequence makes the cache coherent. Whatever the ways hold, \<open>dc_inv\<close> on an address of every set
  while \<open>SR[DCE]\<close> is clear, and then setting \<open>SR[DCE]\<close>, ends in a coherent cache. It rests on the branch of \<open>dc_inv\<close>
  for a cache that is off, which invalidates every way of the set, whether the address is cached or not.
\<close>

theorem dcache_invalidation_coherent:
  assumes "bare_ok m" and "dc_geometry m" and "has (spr SPR_UPR m) SPR_UPR_DCP"
    and "\<not> has (spr SPR_SR m) SPR_SR_DCE" and "\<not> data_ci (mem m)"
    and "\<forall>i < unat (dc_nsets (dcc m)). \<exists>a\<in>set xs. dc_set a m = i"
  shows "cached_ok (spr_or SPR_SR SPR_SR_DCE (fold dc_inv xs m))"
proof -
  note inv = dc_inv_all[OF assms(3,4), of xs]
  have same: "same_frame m (fold dc_inv xs m)" using inv by blast
  note frame = same_frameD[OF same]
  have "dc_tagaddr (dc (fold dc_inv xs m) i w) = -1" if "i < unat (dc_nsets (dcc m))" "w < dc_nways (dcc m)" for i w
    using inv[of SPR_SR w i] that assms(6) by blast
  then have "coherent (fold dc_inv xs m)" using assms(2) by (intro no_valid_way_coherent) (simp_all add: frame)
  moreover have "data_ci (mem (fold dc_inv xs m)) = data_ci (mem m)"
    by (induction xs arbitrary: m) (simp_all add: dc_inv_mem)
  ultimately show ?thesis using assms(1-5) inv[of SPR_UPR] by (intro enable_frame) (simp_all add: frame)
qed

lemma dcache_invalidation_coherent_witness:
  "cached_ok (spr_or SPR_SR SPR_SR_DCE (fold dc_inv [0, 16, 32, 48] cache_machine))"
proof (rule dcache_invalidation_coherent)
  show "\<forall>i < unat (dc_nsets (dcc cache_machine)). \<exists>a\<in>set [0, 16, 32, 48]. dc_set a cache_machine = i"
    by (simp add: dc_set_def cache_machine_simps zero_config_def) presburger
qed (simp_all add: cache_machine_ram cache_machine_geometry cache_machine_simps has_def zero_memory_def del: One_nat_def)

end
