(* ===== verification/Access.thy ===== *)
theory Access
  imports Debug Cache_Coherence
begin

text \<open>
  The accesses of the CPU at virtual addresses (\<open>eval_mem*\<close>, \<open>eval_insn\<close>, \<open>set_mem*\<close> of
  \<open>cpu/common/abstract.c\<close>): alignment check, translation, event counting, watchpoints, cache or memory; and the
  accesses of the simulator itself (\<open>eval_direct*\<close>, \<open>set_direct*\<close>, \<open>set_program*\<close>). Every caller passes the
  address of the global \<open>breakpoint\<close>, so it is the one that is written. The memory profiler is left out.
\<close>

section \<open>Accesses of the CPU\<close>

definition count_event :: "u32 \<Rightarrow> machine \<Rightarrow> machine" where
  "count_event e m = (if cfg_pcu_enabled (conf m) then pcu_count_event e m else m)"

text \<open>\<open>if (config.debug.enabled) *breakpoint += check_debug_unit (action, udata)\<close>.\<close>

definition watch :: "debug_unit_action \<Rightarrow> u64 \<Rightarrow> machine \<Rightarrow> machine" where
  "watch action udata m =
     (if cfg_debug_enabled (conf m)
      then case check_debug_unit action udata m of (hit, m) \<Rightarrow> m\<lparr>breakpoint := breakpoint m \<or> hit\<rparr>
      else m)"

definition eval_mem32 :: "u32 \<Rightarrow> machine \<Rightarrow> (u32 \<times> machine) res" where
  "eval_mem32 memaddr m =
     (if has memaddr 3 then Inr (0, except_handle EXCEPT_ALIGN memaddr m)
      else bind_res (dmmu_translate False memaddr m) (\<lambda>(phys_memaddr, m).
         if except_pending m then Inr (0, m)
         else
           let m = count_event SPR_PCMR_LA m;
               m = watch DebugLoadAddress (ucast memaddr) m
           in bind_res (if dc_enabled (dcc m) then dc_simulate_read phys_memaddr memaddr 4 m
                        else evalsim_mem32 phys_memaddr memaddr m)
                (\<lambda>(temp, m). Inr (temp, watch DebugLoadData (ucast temp) m))))"

definition eval_mem16 :: "u32 \<Rightarrow> machine \<Rightarrow> (u16 \<times> machine) res" where
  "eval_mem16 memaddr m =
     (if has memaddr 1 then Inr (0, except_handle EXCEPT_ALIGN memaddr m)
      else bind_res (dmmu_translate False memaddr m) (\<lambda>(phys_memaddr, m).
         if except_pending m then Inr (0, m)
         else
           let m = count_event SPR_PCMR_LA m;
               m = watch DebugLoadAddress (ucast memaddr) m
           in bind_res (if dc_enabled (dcc m) then bind_res (dc_simulate_read phys_memaddr memaddr 2 m) (\<lambda>(temp, m). Inr (ucast temp, m))
                        else evalsim_mem16 phys_memaddr memaddr m)
                (\<lambda>(temp, m). Inr (temp, watch DebugLoadData (ucast temp) m))))"

definition eval_mem8 :: "u32 \<Rightarrow> machine \<Rightarrow> (u8 \<times> machine) res" where
  "eval_mem8 memaddr m =
     bind_res (dmmu_translate False memaddr m) (\<lambda>(phys_memaddr, m).
         if except_pending m then Inr (0, m)
         else
           let m = count_event SPR_PCMR_LA m;
               m = watch DebugLoadAddress (ucast memaddr) m
           in bind_res (if dc_enabled (dcc m) then bind_res (dc_simulate_read phys_memaddr memaddr 1 m) (\<lambda>(temp, m). Inr (ucast temp, m))
                        else evalsim_mem8 phys_memaddr memaddr m)
                (\<lambda>(temp, m). Inr (temp, watch DebugLoadData (ucast temp) m)))"

definition eval_insn :: "u32 \<Rightarrow> machine \<Rightarrow> (u32 \<times> machine) res" where
  "eval_insn memaddr m =
     bind_res (immu_translate memaddr m) (\<lambda>(phys_memaddr, m).
       if except_pending m then Inr (0, m)
       else
         let m = watch DebugInstructionFetch (ucast memaddr) m;
             m = count_event SPR_PCMR_IF m
         in bind_res (if case ic_state m of None \<Rightarrow> False | Some ic \<Rightarrow> ic_enabled ic
                      then ic_simulate_fetch phys_memaddr memaddr m
                      else evalsim_mem32 phys_memaddr memaddr m)
              (\<lambda>(temp, m). Inr (temp, watch DebugLoadData (ucast temp) m)))"

definition set_mem32 :: "u32 \<Rightarrow> u32 \<Rightarrow> machine \<Rightarrow> machine res" where
  "set_mem32 memaddr v m =
     (if has memaddr 3 then Inr (except_handle EXCEPT_ALIGN memaddr m)
      else bind_res (dmmu_translate True memaddr m) (\<lambda>(phys_memaddr, m).
         if except_pending m then Inr m
         else
           let m = count_event SPR_PCMR_SA m;
               m = watch DebugStoreAddress (ucast memaddr) m;
               m = watch DebugStoreData (ucast v) m
           in if dc_enabled (dcc m) then dc_simulate_write phys_memaddr memaddr v 4 m
              else setsim_mem32 phys_memaddr memaddr v m))"

definition set_mem16 :: "u32 \<Rightarrow> u16 \<Rightarrow> machine \<Rightarrow> machine res" where
  "set_mem16 memaddr v m =
     (if has memaddr 1 then Inr (except_handle EXCEPT_ALIGN memaddr m)
      else bind_res (dmmu_translate True memaddr m) (\<lambda>(phys_memaddr, m).
         if except_pending m then Inr m
         else
           let m = count_event SPR_PCMR_SA m;
               m = watch DebugStoreAddress (ucast memaddr) m;
               m = watch DebugStoreData (ucast v) m
           in if dc_enabled (dcc m) then dc_simulate_write phys_memaddr memaddr (ucast v) 2 m
              else setsim_mem16 phys_memaddr memaddr v m))"

definition set_mem8 :: "u32 \<Rightarrow> u8 \<Rightarrow> machine \<Rightarrow> machine res" where
  "set_mem8 memaddr v m =
     bind_res (dmmu_translate True memaddr m) (\<lambda>(phys_memaddr, m).
         if except_pending m then Inr m
         else
           let m = count_event SPR_PCMR_SA m;
               m = watch DebugStoreAddress (ucast memaddr) m;
               m = watch DebugStoreData (ucast v) m
           in if dc_enabled (dcc m) then dc_simulate_write phys_memaddr memaddr (ucast v) 1 m
              else setsim_mem8 phys_memaddr memaddr v m)"

section \<open>Accesses of the simulator\<close>

text \<open>\<open>if (through_mmu) phys_memaddr = peek_into_dtlb (memaddr, write_access, through_dc)\<close>.\<close>

definition direct_phys :: "u32 \<Rightarrow> bool \<Rightarrow> bool \<Rightarrow> bool \<Rightarrow> machine \<Rightarrow> (u32 \<times> machine) res" where
  "direct_phys memaddr write_access through_mmu through_dc m =
     (if through_mmu then peek_into_dtlb memaddr write_access through_dc m else Inr (memaddr, m))"

definition eval_direct32 :: "u32 \<Rightarrow> bool \<Rightarrow> bool \<Rightarrow> machine \<Rightarrow> (u32 \<times> machine) res" where
  "eval_direct32 memaddr through_mmu through_dc m =
     (if has memaddr 3 then Inr (0, m)
      else bind_res (direct_phys memaddr False through_mmu through_dc m) (\<lambda>(phys_memaddr, m).
         if through_dc then dc_simulate_read phys_memaddr memaddr 4 m
         else case verify_memoryarea phys_memaddr (mem m) of
           (Some i, mm) \<Rightarrow>
             let a = dev_list mm ! i
             in call_read simmem_read32 (readfunc32 (direct_ops a)) (phys_memaddr AND size_mask a)
                  (read_dat32 (direct_ops a)) (set_mem mm m)
         | (None, mm) \<Rightarrow> Inr (0, set_mem mm m)))"

definition eval_direct16 :: "u32 \<Rightarrow> bool \<Rightarrow> bool \<Rightarrow> machine \<Rightarrow> (u16 \<times> machine) res" where
  "eval_direct16 memaddr through_mmu through_dc m =
     (if has memaddr 1 then Inr (0, m)
      else bind_res (direct_phys memaddr False through_mmu through_dc m) (\<lambda>(phys_memaddr, m).
         if through_dc then bind_res (dc_simulate_read phys_memaddr memaddr 2 m) (\<lambda>(v, m). Inr (ucast v, m))
         else case verify_memoryarea phys_memaddr (mem m) of
           (Some i, mm) \<Rightarrow>
             let a = dev_list mm ! i
             in call_read simmem_read16 (readfunc16 (direct_ops a)) (phys_memaddr AND size_mask a)
                  (read_dat16 (direct_ops a)) (set_mem mm m)
         | (None, mm) \<Rightarrow> Inr (0, set_mem mm m)))"

definition eval_direct8 :: "u32 \<Rightarrow> bool \<Rightarrow> bool \<Rightarrow> machine \<Rightarrow> (u8 \<times> machine) res" where
  "eval_direct8 memaddr through_mmu through_dc m =
     bind_res (direct_phys memaddr False through_mmu through_dc m) (\<lambda>(phys_memaddr, m).
         if through_dc then bind_res (dc_simulate_read phys_memaddr memaddr 1 m) (\<lambda>(v, m). Inr (ucast v, m))
         else case verify_memoryarea phys_memaddr (mem m) of
           (Some i, mm) \<Rightarrow>
             let a = dev_list mm ! i
             in call_read simmem_read8 (readfunc8 (direct_ops a)) (phys_memaddr AND size_mask a)
                  (read_dat8 (direct_ops a)) (set_mem mm m)
         | (None, mm) \<Rightarrow> Inr (0, set_mem mm m))"

text \<open>The 32 and 16 bit writes through the cache use the virtual address.\<close>

definition set_direct32 :: "u32 \<Rightarrow> u32 \<Rightarrow> bool \<Rightarrow> bool \<Rightarrow> machine \<Rightarrow> machine res" where
  "set_direct32 memaddr v through_mmu through_dc m =
     (if has memaddr 3 then Inr m
      else bind_res (direct_phys memaddr True through_mmu through_dc m) (\<lambda>(phys_memaddr, m).
         if through_dc then dc_simulate_write memaddr memaddr v 4 m
         else case verify_memoryarea phys_memaddr (mem m) of
           (Some i, mm) \<Rightarrow>
             let a = dev_list mm ! i
             in call_write simmem_write32 (writefunc32 (direct_ops a)) (phys_memaddr AND size_mask a) v
                  (write_dat32 (direct_ops a)) (set_mem mm m)
         | (None, mm) \<Rightarrow> Inr (set_mem mm m)))"

definition set_direct16 :: "u32 \<Rightarrow> u16 \<Rightarrow> bool \<Rightarrow> bool \<Rightarrow> machine \<Rightarrow> machine res" where
  "set_direct16 memaddr v through_mmu through_dc m =
     (if has memaddr 1 then Inr m
      else bind_res (direct_phys memaddr False through_mmu through_dc m) (\<lambda>(phys_memaddr, m).
         if through_dc then dc_simulate_write memaddr memaddr (ucast v) 2 m
         else case verify_memoryarea phys_memaddr (mem m) of
           (Some i, mm) \<Rightarrow>
             let a = dev_list mm ! i
             in call_write simmem_write16 (writefunc16 (direct_ops a)) (phys_memaddr AND size_mask a) v
                  (write_dat16 (direct_ops a)) (set_mem mm m)
         | (None, mm) \<Rightarrow> Inr (set_mem mm m)))"

definition set_direct8 :: "u32 \<Rightarrow> u8 \<Rightarrow> bool \<Rightarrow> bool \<Rightarrow> machine \<Rightarrow> machine res" where
  "set_direct8 memaddr v through_mmu through_dc m =
     bind_res (direct_phys memaddr False through_mmu through_dc m) (\<lambda>(phys_memaddr, m).
         if through_dc then dc_simulate_write phys_memaddr memaddr (ucast v) 1 m
         else case verify_memoryarea phys_memaddr (mem m) of
           (Some i, mm) \<Rightarrow>
             let a = dev_list mm ! i
             in call_write simmem_write8 (writefunc8 (direct_ops a)) (phys_memaddr AND size_mask a) v
                  (write_dat8 (direct_ops a)) (set_mem mm m)
         | (None, mm) \<Rightarrow> Inr (set_mem mm m))"

definition set_program32 :: "u32 \<Rightarrow> u32 \<Rightarrow> machine \<Rightarrow> machine res" where
  "set_program32 memaddr v m =
     (if has memaddr 3 then Inr m
      else case verify_memoryarea memaddr (mem m) of
           (Some i, mm) \<Rightarrow>
             let a = dev_list mm ! i
             in call_write simmem_write32 (writeprog32 (ops a)) (memaddr AND size_mask a) v
                  (writeprog32_dat (ops a)) (set_mem mm m)
         | (None, mm) \<Rightarrow> Inr (set_mem mm m))"

definition set_program8 :: "u32 \<Rightarrow> u8 \<Rightarrow> machine \<Rightarrow> machine res" where
  "set_program8 memaddr v m =
     (case verify_memoryarea memaddr (mem m) of
           (Some i, mm) \<Rightarrow>
             let a = dev_list mm ! i
             in call_write simmem_write8 (writeprog8 (ops a)) (memaddr AND size_mask a) v
                  (writeprog8_dat (ops a)) (set_mem mm m)
         | (None, mm) \<Rightarrow> Inr (set_mem mm m))"

section \<open>Accesses to RAM\<close>

lemma count_event_lru: "lru_only m (count_event e m)"
  by (simp add: count_event_def lru_only_refl lru_only_extras)

lemma cached_lru: "cached_ok m \<Longrightarrow> lru_only m m' \<Longrightarrow> cached_ok m'"
  using cached_ok_keep lru_only_frame lru_only_coherent unfolding cached_ok_def by blast

lemma core_touched [simp]: "core (touched i d m) = core m"
  by (simp add: core_def touched_def set_mem_def add_mem_cycles_def spr_def del: sprs_cpu)

lemma core_ram_write: "core (set_mem (ram_update p f ((mem m)\<lparr>cur_area := i, cur_vadd := va\<rparr>)) (touched j d m)) = core m"
  by (simp add: core_def touched_def set_mem_def add_mem_cycles_def spr_def ram_update_def del: sprs_cpu)

text \<open>The accesses below the translation, through the cache or around it.\<close>

definition dc_on :: "machine \<Rightarrow> bool" where
  "dc_on m \<longleftrightarrow> dc_enabled (dcc m) \<and> has (spr SPR_UPR m) SPR_UPR_DCP \<and> has (spr SPR_SR m) SPR_SR_DCE"

definition data_ok :: "machine \<Rightarrow> bool" where
  "data_ok m \<longleftrightarrow> bare_ok m \<and> \<not> data_ci (mem m) \<and> (dc_on m \<longrightarrow> cached_ok m)"

definition data_ram :: "machine \<Rightarrow> u32 \<Rightarrow> bool" where
  "data_ram m a \<longleftrightarrow> (if dc_on m then line_backed m a else ram_backed m a)"

definition data_read :: "u32 \<Rightarrow> nat \<Rightarrow> machine \<Rightarrow> (u32 \<times> machine) res" where
  "data_read a width m = (if dc_enabled (dcc m) then dc_simulate_read a a width m else read_width a a width m)"

definition data_write :: "u32 \<Rightarrow> u32 \<Rightarrow> nat \<Rightarrow> machine \<Rightarrow> machine res" where
  "data_write a v width m = (if dc_enabled (dcc m) then dc_simulate_write a a v width m else write_width a a v width m)"

lemma core_dc_on: "core m' = core m \<Longrightarrow> dc_on m' = dc_on m"
  by (simp add: core_def dc_on_def dcc_def)

lemma data_read_ok:
  assumes ok: "data_ok m" and al: "aligned a width" and ram: "data_ram m a"
  shows "\<exists>m'. data_read a width m = Inr (be_load (guest_mem m) a width, m') \<and> data_ok m'
     \<and> guest_mem m' = guest_mem m \<and> data_ram m' = data_ram m \<and> core m' = core m"
proof (cases "dc_on m")
  case True
  then obtain m' where "dc_simulate_read a a width m = Inr (be_load (guest_mem m) a width, m') \<and> cached_ok m'
     \<and> guest_mem m' = guest_mem m \<and> line_backed m' = line_backed m \<and> core m' = core m"
    using dc_read_ok[of m a width a] ok al ram unfolding data_ok_def data_ram_def by metis
  with True core_dc_on[of m' m] show ?thesis
    by (intro exI[of _ m']) (auto simp: data_read_def dc_on_def[of m] data_ok_def data_ram_def cached_ok_def dc_active_def fun_eq_iff)
next
  case False
  then have "data_read a width m = read_width a a width m"
    by (auto simp: data_read_def dc_on_def dc_simulate_read_def dc_active_def)
  moreover obtain i d where i: "i < length (dev_list (mem m))"
      "read_width a a width m = Inr (be_load (guest_mem m) a width, touched i d m)"
    using ram_read[of m a width a] ok al ram False by (auto simp: data_ok_def data_ram_def bare_ok_def ram_backed_def guest_mem_def)
  moreover have "bare_ok (touched i d m)"
    using ok i(1) by (auto simp: data_ok_def bare_ok_def touched_def set_mem_def add_mem_cycles_def intro: phys_wf_update)
  moreover have "guest_mem (touched i d m) = guest_mem m" "ram_backed (touched i d m) = ram_backed m" "\<not> data_ci (mem (touched i d m))"
    using ok by (auto simp: guest_mem_def ram_backed_def fun_eq_iff data_ok_def)
  ultimately show ?thesis
    using False core_dc_on[OF core_touched[of i d m]]
    by (intro exI[of _ "touched i d m"]) (auto simp: data_ok_def data_ram_def fun_eq_iff)
qed

lemma data_write_ok:
  assumes ok: "data_ok m" and al: "aligned a width" and ram: "data_ram m a"
  shows "\<exists>m'. data_write a v width m = Inr m' \<and> data_ok m'
     \<and> guest_mem m' = be_store (guest_mem m) a width v \<and> data_ram m' = data_ram m \<and> core m' = core m"
proof (cases "dc_on m")
  case True
  then obtain m' where "dc_simulate_write a a v width m = Inr m' \<and> cached_ok m'
     \<and> guest_mem m' = be_store (guest_mem m) a width v \<and> line_backed m' = line_backed m \<and> core m' = core m"
    using dc_write_ok[of m a width a v] ok al ram unfolding data_ok_def data_ram_def by metis
  with True core_dc_on[of m' m] show ?thesis
    by (intro exI[of _ m']) (auto simp: data_write_def dc_on_def[of m] data_ok_def data_ram_def cached_ok_def dc_active_def fun_eq_iff)
next
  case False
  obtain i p f d where w: "i < length (dev_list (mem m))"
      "write_width a a v width m = Inr (set_mem (ram_update p f ((mem m)\<lparr>cur_area := Some i, cur_vadd := a\<rparr>)) (touched i d m))"
      "phys_byte (ram_update p f (mem m)) = be_store (phys_byte (mem m)) a width v"
    using ram_write[of m a width a v] ok al ram False by (auto simp: data_ok_def data_ram_def bare_ok_def ram_backed_def)
  define m' where "m' = set_mem (ram_update p f ((mem m)\<lparr>cur_area := Some i, cur_vadd := a\<rparr>)) (touched i d m)"
  have core: "core m' = core m" unfolding m'_def by (rule core_ram_write)
  have "dc_enabled (dcc m) \<Longrightarrow> \<not> dc_active m'"
    using False core by (auto simp: core_def dc_on_def dc_active_def)
  then have "data_write a v width m = Inr m'"
    by (simp add: data_write_def dc_simulate_write_def w(2)[folded m'_def])
  moreover have "phys_wf (mem m')"
    unfolding m'_def mem_set_mem by (intro phys_wf_update) (use ok w(1) in \<open>auto simp: data_ok_def bare_ok_def intro: phys_wf_update\<close>)
  moreover have "ram_backed m' = ram_backed m" "guest_mem m' = be_store (guest_mem m) a width v" 
    using w(3) by (simp_all add: m'_def ram_backed_def guest_mem_def fun_eq_iff ram_update_pointers)
  moreover have "\<not> data_ci (mem m')" using core ok by (simp add: core_def data_ok_def)
  ultimately show ?thesis
    using False core_dc_on[OF core] core
    by (intro exI[of _ m']) (auto simp: data_ok_def data_ram_def bare_ok_def fun_eq_iff)
qed


section \<open>The CPU sees a byte memory\<close>

definition cpu_read :: "u32 \<Rightarrow> u32 \<Rightarrow> nat \<Rightarrow> machine \<Rightarrow> (u32 \<times> machine) res" where
  "cpu_read a va width m =
     (if width = 4 then eval_mem32 a m
      else if width = 2 then bind_res (eval_mem16 a m) (\<lambda>(v, m). Inr (ucast v, m))
      else bind_res (eval_mem8 a m) (\<lambda>(v, m). Inr (ucast v, m)))"

definition cpu_write :: "u32 \<Rightarrow> u32 \<Rightarrow> u32 \<Rightarrow> nat \<Rightarrow> machine \<Rightarrow> machine res" where
  "cpu_write a va v width m =
     (if width = 4 then set_mem32 a v m else if width = 2 then set_mem16 a (ucast v) m else set_mem8 a (ucast v) m)"

text \<open>No translation, no debug unit, no exception waiting; caches and counters in any configuration.\<close>

definition cpu_ok :: "machine \<Rightarrow> bool" where
  "cpu_ok m \<longleftrightarrow> \<not> except_pending m \<and> \<not> cfg_debug_enabled (conf m) \<and> \<not> dmmu_active m \<and> data_ok (set_data_ci False m)"

definition cpu_ram :: "machine \<Rightarrow> u32 \<Rightarrow> bool" where
  "cpu_ram m a \<longleftrightarrow> a < 0x80000000 \<and> data_ram m a"

lemma access_translate:
  assumes "cpu_ok m" and "cpu_ram m a"
  shows "dmmu_translate wr a m = Inr (a, set_data_ci False m)" and "\<not> except_pending (set_data_ci False m)"
  using assms by (auto simp: dmmu_translate_def cpu_ok_def cpu_ram_def set_data_ci_def)

lemma set_data_ci_pointers [simp]:
  "ram_block (mm\<lparr>data_ci := b\<rparr>) ar = ram_block mm ar"
  "ram_at (mm\<lparr>data_ci := b\<rparr>) a = ram_at mm a" "phys_byte (mm\<lparr>data_ci := b\<rparr>) a = phys_byte mm a"
proof -
  show blk: "ram_block (mm\<lparr>data_ci := b\<rparr>) ar = ram_block mm ar" for ar by (simp add: ram_block_def Let_def)
  show at: "ram_at (mm\<lparr>data_ci := b\<rparr>) a = ram_at mm a"
    by (simp add: ram_at_def Let_def blk split: option.split)
  show "phys_byte (mm\<lparr>data_ci := b\<rparr>) a = phys_byte mm a" by (simp add: phys_byte_def at split: option.split)
qed

lemma access_state:
  fixes e :: u32
  assumes ok: "cpu_ok m" and ram: "cpu_ram m a"
  defines "m1 \<equiv> count_event e (set_data_ci False m)"
  shows "data_ok m1" and "data_ram m1 = data_ram m"
    and "guest_mem m1 = guest_mem m" and "\<not> cfg_debug_enabled (conf m1)"
    and "core m1 = core (set_data_ci False m)"
proof -
  have l: "lru_only (set_data_ci False m) m1" unfolding m1_def by (rule count_event_lru)
  note f = lru_only_frame[OF l]
  show core: "core m1 = core (set_data_ci False m)" using same_frameD(12)[of "set_data_ci False m" m1] f by simp
  then show "\<not> cfg_debug_enabled (conf m1)" using ok by (auto simp: core_def cpu_ok_def set_data_ci_def)
  have on: "dc_on m1 = dc_on (set_data_ci False m)" by (rule core_dc_on[OF core])
  have g: "guest_mem (set_data_ci False m) = guest_mem m" "ram_backed (set_data_ci False m) = ram_backed m"
      "dc_on (set_data_ci False m) = dc_on m" "block (set_data_ci False m) = block m"
    by (simp_all add: guest_mem_def ram_backed_def set_data_ci_def fun_eq_iff dc_on_def dcc_def block_def)
  then show "guest_mem m1 = guest_mem m" using f by simp
  have "line_backed m1 b = line_backed m b" "ram_backed m1 b = ram_backed m b" for b
    using f same_frameD[of "set_data_ci False m" m1] g by (simp_all add: line_backed_def)
  then show "data_ram m1 = data_ram m" using on g(3) by (simp add: data_ram_def fun_eq_iff)
  show "data_ok m1"
    using ok cached_lru[OF _ l] on f same_frameD(9)[of "set_data_ci False m" m1] l
    by (auto simp: cpu_ok_def data_ok_def lru_only_def)
qed

lemma cpu_ok_after:
  assumes "cpu_ok m" and "data_ok m'" and "data_ram m' = data_ram m1" and "data_ram m1 = data_ram m"
    and "core m' = core m1" and "core m1 = core (set_data_ci False m)"
  shows "cpu_ok m' \<and> cpu_ram m' = cpu_ram m"
proof -
  have c: "core m' = core (set_data_ci False m)" using assms(5,6) by simp
  then have "data_ci (mem m') = False" by (simp add: core_def set_data_ci_def)
  then have "set_data_ci False m' = m'" by (simp add: set_data_ci_def)
  moreover have "cpu_ram m' = cpu_ram m" using assms(3,4) by (simp add: cpu_ram_def fun_eq_iff)
  moreover have "\<not> except_pending m'" "\<not> cfg_debug_enabled (conf m')" "\<not> dmmu_active m'"
    using assms(1) c by (auto simp: cpu_ok_def core_def dmmu_active_def set_data_ci_def)
  ultimately show ?thesis using assms(2) by (simp add: cpu_ok_def)
qed

lemma watch_off [simp]: "\<not> cfg_debug_enabled (conf m) \<Longrightarrow> watch action x m = m"
  by (simp add: watch_def)

lemma be_load_16: "(ucast (ucast (be_load f a 2) :: u16) :: u32) = be_load f a 2"
  by (simp add: be_load_def ucast_ucast_id)

lemma be_load_8: "(ucast (ucast (be_load f a (Suc 0)) :: u8) :: u32) = be_load f a (Suc 0)"
  by (simp add: be_load_def ucast_ucast_id)


lemma cpu_read_eq:
  assumes ok: "cpu_ok m" and al: "aligned a width" and ram: "cpu_ram m a"
  shows "cpu_read a va width m = data_read a width (count_event SPR_PCMR_LA (set_data_ci False m))"
proof -
  let ?m1 = "count_event SPR_PCMR_LA (set_data_ci False m)"
  note s = access_state[OF ok ram, where e = SPR_PCMR_LA]
  obtain m' where d: "data_read a width ?m1 = Inr (be_load (guest_mem ?m1) a width, m')" "core m' = core ?m1"
    using data_read_ok[OF s(1) al] ram s(2) by (auto simp: cpu_ram_def)
  then have off: "\<not> cfg_debug_enabled (conf m')" using s(4) by (auto simp: core_def)
  consider "width = 4" "\<not> has a 3" | "width = 2" "\<not> has a 1" | "width = 1" using al by (auto simp: aligned_def has_def)
  then show ?thesis
  proof cases
    case 1
    then show ?thesis
      using d off s(4) access_translate[OF ok ram] by (auto simp: cpu_read_def eval_mem32_def data_read_def read_width_def split: if_splits)
  next
    case 2
    then show ?thesis
      using d off s(4) access_translate[OF ok ram]
      by (auto simp: cpu_read_def eval_mem16_def data_read_def read_width_def be_load_16 bind_res_assoc split: if_splits
          elim!: bind_res_InrE)
  next
    case 3
    then show ?thesis
      using d off s(4) access_translate[OF ok ram]
      by (auto simp: cpu_read_def eval_mem8_def data_read_def read_width_def be_load_8 bind_res_assoc split: if_splits
          elim!: bind_res_InrE)
  qed
qed

lemma cpu_write_eq:
  assumes ok: "cpu_ok m" and al: "aligned a width" and ram: "cpu_ram m a"
  shows "\<exists>v'. cpu_write a va v width m = data_write a v' width (count_event SPR_PCMR_SA (set_data_ci False m))
     \<and> be_store f a width v' = be_store f a width v"
proof -
  note s = access_state[OF ok ram, where e = SPR_PCMR_SA]
  consider "width = 4" "\<not> has a 3" | "width = 2" "\<not> has a 1" | "width = 1" using al by (auto simp: aligned_def has_def)
  then show ?thesis
  proof cases
    case 1
    then show ?thesis
      using s(4) access_translate[OF ok ram] by (intro exI[of _ v]) (simp add: cpu_write_def set_mem32_def data_write_def write_width_def)
  next
    case 2
    then show ?thesis
      using s(4) access_translate[OF ok ram] by (intro exI[of _ "ucast (ucast v :: u16)"])
        (simp add: cpu_write_def set_mem16_def data_write_def write_width_def be_store_def ucast_ucast_id)
  next
    case 3
    then show ?thesis
      using s(4) access_translate[OF ok ram] by (intro exI[of _ "ucast (ucast v :: u8)"])
        (simp add: cpu_write_def set_mem8_def data_write_def write_width_def be_store_def ucast_ucast_id)
  qed
qed

interpretation cpu_access: data_memory cpu_ok cpu_ram guest_mem cpu_read cpu_write
proof unfold_locales
  fix m a width va v
  assume ok: "cpu_ok m" and al: "aligned a width" and ram: "cpu_ram m a"
  note la = access_state[OF ok ram, where e = SPR_PCMR_LA]
  note sa = access_state[OF ok ram, where e = SPR_PCMR_SA]
  have r: "data_ram m a" using ram by (simp add: cpu_ram_def)
  from data_read_ok[OF la(1) al] la(2) r
  obtain m' where m': "data_read a width (count_event SPR_PCMR_LA (set_data_ci False m)) = Inr (be_load (guest_mem m) a width, m')"
      "data_ok m'" "guest_mem m' = guest_mem m" "data_ram m' = data_ram (count_event SPR_PCMR_LA (set_data_ci False m))"
      "core m' = core (count_event SPR_PCMR_LA (set_data_ci False m))"
    by (auto simp: la(3))
  with cpu_ok_after[OF ok m'(2,4) la(2) m'(5) la(5)]
  show "\<exists>m'. cpu_read a va width m = Inr (be_load (guest_mem m) a width, m') \<and> cpu_ok m' \<and> guest_mem m' = guest_mem m \<and> cpu_ram m' = cpu_ram m"
    by (simp add: cpu_read_eq[OF ok al ram])
  obtain v' where v': "cpu_write a va v width m = data_write a v' width (count_event SPR_PCMR_SA (set_data_ci False m))"
      "be_store (guest_mem m) a width v' = be_store (guest_mem m) a width v"
    using cpu_write_eq[OF ok al ram] by blast
  from data_write_ok[OF sa(1) al, of v'] sa(2) r
  obtain m' where m': "data_write a v' width (count_event SPR_PCMR_SA (set_data_ci False m)) = Inr m'"
      "data_ok m'" "guest_mem m' = be_store (guest_mem m) a width v" "data_ram m' = data_ram (count_event SPR_PCMR_SA (set_data_ci False m))"
      "core m' = core (count_event SPR_PCMR_SA (set_data_ci False m))"
    by (auto simp: sa(3) v'(2))
  with cpu_ok_after[OF ok m'(2,4) sa(2) m'(5) sa(5)]
  show "\<exists>m'. cpu_write a va v width m = Inr m' \<and> cpu_ok m' \<and> guest_mem m' = be_store (guest_mem m) a width v \<and> cpu_ram m' = cpu_ram m"
    by (simp add: v'(1))
qed

section \<open>Properties\<close>

text \<open> C1: To the program, memory is an array of bytes. With translation and the debug unit off, any sequence of
  aligned loads and stores of 1, 2 and 4 bytes at RAM addresses below 0x80000000 returns, through \<open>eval_mem*\<close>
  and \<open>set_mem*\<close>, what a big-endian byte memory returns and leaves the bytes such a memory holds, raising no
  exception, when the data cache is absent, off, or on and coherent. (A cache that is switched on without having been
  invalidated need not be coherent, and then the loads can return zeros instead.)\<close>

theorem cpu_accesses_are_byte_memory:
  assumes "cpu_ok m" and "\<forall>x\<in>set xs. access_ok (cpu_ram m) x"
  shows "\<exists>m'. run_accesses cpu_read cpu_write xs m = Inr (fst (spec_accesses xs (guest_mem m)), m')
     \<and> guest_mem m' = snd (spec_accesses xs (guest_mem m)) \<and> \<not> except_pending m' \<and> cpu_ok m'"
  using cpu_access.run_spec[OF assms] by (auto simp: cpu_ok_def)

lemma cached_machine_cpu:
  shows "cpu_ok cached_machine" and "unat a < 0x100000 \<Longrightarrow> cpu_ram cached_machine a"
proof -
  have s: "mem cached_machine = mem cache_machine" "conf cached_machine = conf cache_machine" "\<not> except_pending cached_machine"
    by (simp_all add: cached_machine_def cache_machine_def)
  have "\<not> cfg_debug_enabled (conf cache_machine)" by (simp add: cache_machine_def zero_config_def)
  with s have dbg: "\<not> cfg_debug_enabled (conf cached_machine)" by simp
  have ci: "\<not> data_ci (mem cached_machine)" using cached_machine_ok by (simp add: cached_ok_def dc_active_def)
  then have same: "set_data_ci False cached_machine = cached_machine" by (simp add: set_data_ci_def)
  have "\<not> dmmu_active cached_machine"
    by (simp add: dmmu_active_def cached_machine_def cache_machine_simps has_def)
  then show "cpu_ok cached_machine"
    using cached_machine_ok ci s(3) dbg by (simp add: cpu_ok_def same data_ok_def cached_ok_def)
  assume a: "unat a < 0x100000"
  then have "a < 0x80000000" by (simp add: word_less_nat_alt)
  with cached_machine_lines[OF a] line_backed_ram show "cpu_ram cached_machine a"
    by (auto simp: cpu_ram_def data_ram_def)
qed

theorem cpu_accesses_are_byte_memory_witness:
  "\<exists>m'. run_accesses cpu_read cpu_write [Store 0x100 4 0x11223344, Store 0x102 1 0xab, Load 0x102 2] cached_machine
      = Inr ([0xab44], m')"
  using cpu_accesses_are_byte_memory[OF cached_machine_cpu(1), of "[Store 0x100 4 0x11223344, Store 0x102 1 0xab, Load 0x102 2]"]
    cached_machine_cpu(2)
  by (fastforce simp: aligned_def be_load_def be_store_def be_byte32_def be16_def)

end
