(* ===== verification/Tick.thy ===== *)
theory Tick
  imports Jobs Except
begin

text \<open>
  The tick timer of \<open>tick/tick.c\<close>: the count register is not incremented but computed from the cycle
  at which it started; the timer's effects are jobs of the scheduler.
\<close>

section \<open>Operations\<close>

definition tick_reset :: "machine \<Rightarrow> machine" where
  "tick_reset m =
     (let m = set_spr SPR_TTCR 0 m;
          m = set_spr SPR_TTMR 0 m
      in m\<lparr>tick_counting := 0\<rparr>)"

definition spr_read_ttcr :: "machine \<Rightarrow> u32" where
  "spr_read_ttcr m =
     (if tick_counting m = 0 then spr SPR_TTCR m
      else ucast (cycles (rt m) - cycle_count_at_tick_start m))"

definition tick_raise_except :: "machine \<Rightarrow> machine res" where
  "tick_raise_except m =
     bind_res (SCHED_NEXT_INSN Tick_raise_except (spr_or SPR_TTMR SPR_TTMR_IP m)) (\<lambda>m.
       Inr (if has (spr SPR_SR m) SPR_SR_TEE
            then except_handle EXCEPT_TICK (spr SPR_EEAR_BASE m) m else m))"

definition tick_restart :: "machine \<Rightarrow> machine res" where
  "tick_restart m =
     (let m = set_spr SPR_TTCR 0 m;
          m = m\<lparr>cycle_count_at_tick_start := cycles (rt m)\<rparr>
      in SCHED_ADD Tick_restart (sint (spr SPR_TTMR m AND SPR_TTMR_TP)) m)"

definition tick_one_shot :: "machine \<Rightarrow> machine" where
  "tick_one_shot m =
     (let m = set_spr SPR_TTCR (spr SPR_TTMR m AND SPR_TTMR_TP) m
      in m\<lparr>tick_counting := 0\<rparr>)"

text \<open>The two branches that compute \<open>cycles_until_except\<close>.\<close>

definition cycles_until_except :: "u32 \<Rightarrow> u32 \<Rightarrow> u32" where
  "cycles_until_except match_ttmr match_ttcr =
     (if match_ttcr \<le> match_ttmr then match_ttmr - match_ttcr
      else match_ttmr + (0x0fffffff - match_ttcr) + 1)"

definition sched_timer_job :: "u32 \<Rightarrow> machine \<Rightarrow> machine res" where
  "sched_timer_job prev_ttmr m =
     (let ttmr = spr SPR_TTMR m;
          match_ttmr = ttmr AND SPR_TTMR_TP;
          match_ttcr = spr_read_ttcr m AND SPR_TTMR_TP;
          m = (if has prev_ttmr SPR_TTMR_IE \<and> \<not> has ttmr SPR_TTMR_IP
               then SCHED_FIND_REMOVE Tick_raise_except m else m);
          mode = prev_ttmr AND SPR_TTMR_M;
          m = (if mode = SPR_TTMR_RT then SCHED_FIND_REMOVE Tick_restart m
               else if mode = SPR_TTMR_SR then SCHED_FIND_REMOVE Tick_one_shot m else m);
          t = cycles_until_except match_ttmr match_ttcr;
          raise = has ttmr SPR_TTMR_IE \<and> \<not> has ttmr SPR_TTMR_IP;
          mode = ttmr AND SPR_TTMR_M
      in if mode = 0
         then (if t = 0 \<and> raise then SCHED_ADD Tick_raise_except 0 m else Inr m)
         else if mode = SPR_TTMR_RT
         then bind_res (SCHED_ADD Tick_restart (sint t) m) (\<lambda>m.
                if raise then SCHED_ADD Tick_raise_except (sint t) m else Inr m)
         else if mode = SPR_TTMR_SR
         then (if tick_counting m \<noteq> 0
               then bind_res (SCHED_ADD Tick_one_shot (sint t) m) (\<lambda>m.
                      if raise then SCHED_ADD Tick_raise_except (sint t) m else Inr m)
               else Inr m)
         else (if raise then SCHED_ADD Tick_raise_except (sint t) m else Inr m))"

definition spr_write_ttcr :: "u32 \<Rightarrow> machine \<Rightarrow> machine res" where
  "spr_write_ttcr v m =
     (let m = m\<lparr>cycle_count_at_tick_start := cycles (rt m) - ucast v\<rparr>
      in sched_timer_job (spr SPR_TTMR m) m)"

text \<open>The part of \<open>spr_write_ttmr\<close> before it schedules: stop or restart the count.\<close>

definition ttmr_written :: "machine \<Rightarrow> machine" where
  "ttmr_written m =
     (let v = spr SPR_TTMR m;
          m = spr_clear SPR_TTMR SPR_TTMR_IP m;
          m = (if tick_counting m \<noteq> 0
               then set_spr SPR_TTCR (ucast (cycles (rt m) - cycle_count_at_tick_start m)) m else m);
          m = m\<lparr>cycle_count_at_tick_start := cycles (rt m) - ucast (spr SPR_TTCR m)\<rparr>;
          m = m\<lparr>tick_counting := v AND SPR_TTMR_M\<rparr>
      in if tick_counting m = SPR_TTMR_CR \<and> spr SPR_TTCR m = v AND SPR_TTMR_TP
         then m\<lparr>tick_counting := 0\<rparr> else m)"

definition spr_write_ttmr :: "u32 \<Rightarrow> machine \<Rightarrow> machine res" where
  "spr_write_ttmr prev_val m = sched_timer_job prev_val (ttmr_written m)"

section \<open>The next match\<close>

lemma uint_tp_less: "uint (x AND SPR_TTMR_TP :: u32) < 0x10000000"
proof -
  have eq: "(0x0fffffff :: u32) = mask 28" by (simp add: mask_eq_exp_minus_1)
  have "uint (x AND SPR_TTMR_TP) = take_bit 28 (uint x)"
    unfolding eq take_bit_eq_mask[symmetric] by (simp add: unsigned_take_bit_eq)
  also have "\<dots> < 2 ^ 28" by (rule take_bit_int_less_exp)
  finally show ?thesis by simp
qed

text \<open>The wait is the distance to the period, modulo the 28 bits that are compared.\<close>

lemma cycles_until_except_mod:
  assumes "uint match_ttmr < 0x10000000" and "uint match_ttcr < 0x10000000"
  shows "uint (cycles_until_except match_ttmr match_ttcr) = (uint match_ttmr - uint match_ttcr) mod 0x10000000"
proof (cases "match_ttcr \<le> match_ttmr")
  case True
  then have "uint match_ttcr \<le> uint match_ttmr" by (simp add: word_le_def)
  moreover have "uint (match_ttmr - match_ttcr) = uint match_ttmr - uint match_ttcr"
    using True by (simp add: uint_minus_simple_alt)
  moreover have "(uint match_ttmr - uint match_ttcr) mod 0x10000000 = uint match_ttmr - uint match_ttcr"
    by (rule mod_pos_pos_trivial)
      (use assms uint_ge_0[of match_ttcr] \<open>uint match_ttcr \<le> uint match_ttmr\<close> in linarith)+
  ultimately show ?thesis
    using True by (simp add: cycles_until_except_def)
next
  case False
  then have less: "uint match_ttmr < uint match_ttcr" by (simp add: word_le_def)
  have "uint (match_ttmr + (0x0fffffff - match_ttcr) + 1)
      = (uint match_ttmr + (0x0fffffff - uint match_ttcr) + 1) mod 0x100000000"
    by (simp add: uint_word_arith_bintrs take_bit_eq_mod mod_simps)
  also have "\<dots> = uint match_ttmr - uint match_ttcr + 0x10000000"
    by (subst mod_pos_pos_trivial) (use assms less uint_ge_0[of match_ttmr] in linarith)+
  also have "\<dots> = (uint match_ttmr - uint match_ttcr + 0x10000000) mod 0x10000000"
    by (subst mod_pos_pos_trivial) (use assms less uint_ge_0[of match_ttmr] in linarith)+
  finally show ?thesis using False by (simp add: cycles_until_except_def)
qed

section \<open>What the timer has scheduled\<close>

text \<open>The jobs a call of \<open>sched_timer_job\<close> leaves behind, as an operation on the pending jobs.\<close>

definition timer_wait :: "machine \<Rightarrow> int" where
  "timer_wait m = (uint (spr SPR_TTMR m AND SPR_TTMR_TP) - uint (spr_read_ttcr m AND SPR_TTMR_TP)) mod 0x10000000"

definition timer_raises :: "machine \<Rightarrow> bool" where
  "timer_raises m \<longleftrightarrow> has (spr SPR_TTMR m) SPR_TTMR_IE \<and> \<not> has (spr SPR_TTMR m) SPR_TTMR_IP"

definition timer_cancel :: "u32 \<Rightarrow> machine \<Rightarrow> (int \<times> job) list \<Rightarrow> (int \<times> job) list" where
  "timer_cancel prev m q =
     (let q = (if has prev SPR_TTMR_IE \<and> \<not> has (spr SPR_TTMR m) SPR_TTMR_IP
               then tq_remove Tick_raise_except q else q)
      in if prev AND SPR_TTMR_M = SPR_TTMR_RT then tq_remove Tick_restart q
         else if prev AND SPR_TTMR_M = SPR_TTMR_SR then tq_remove Tick_one_shot q else q)"

definition timer_arm :: "machine \<Rightarrow> (int \<times> job) list \<Rightarrow> (int \<times> job) list" where
  "timer_arm m q =
     (let t = timer_wait m;
          exc = (\<lambda>q. if timer_raises m then tq_insert t Tick_raise_except q else q);
          mode = spr SPR_TTMR m AND SPR_TTMR_M
      in if mode = 0 then (if t = 0 then exc q else q)
         else if mode = SPR_TTMR_RT then exc (tq_insert t Tick_restart q)
         else if mode = SPR_TTMR_SR
         then (if tick_counting m \<noteq> 0 then exc (tq_insert t Tick_one_shot q) else q)
         else exc q)"

lemma sint_small: "uint (w :: u32) < 0x80000000 \<Longrightarrow> sint w = uint w"
proof -
  assume "uint w < 0x80000000"
  moreover have "- (0x80000000) \<le> uint w" using uint_ge_0[of w] by linarith
  ultimately have "signed_take_bit 31 (uint w) = uint w" by (intro signed_take_bit_int_eq_self) simp_all
  then show ?thesis by (simp add: sint_uint)
qed

lemma timer_wait_range: "0 \<le> timer_wait m" "timer_wait m < 0x10000000"
  by (simp_all add: timer_wait_def)

lemma timer_wait_cycles:
  "uint (cycles_until_except (spr SPR_TTMR m AND SPR_TTMR_TP) (spr_read_ttcr m AND SPR_TTMR_TP)) = timer_wait m"
  "sint (cycles_until_except (spr SPR_TTMR m AND SPR_TTMR_TP) (spr_read_ttcr m AND SPR_TTMR_TP)) = timer_wait m"
proof -
  show u: "uint (cycles_until_except (spr SPR_TTMR m AND SPR_TTMR_TP) (spr_read_ttcr m AND SPR_TTMR_TP)) = timer_wait m"
    by (simp only: cycles_until_except_mod uint_tp_less timer_wait_def)
  show "sint (cycles_until_except (spr SPR_TTMR m AND SPR_TTMR_TP) (spr_read_ttcr m AND SPR_TTMR_TP)) = timer_wait m"
    using timer_wait_range[of m] by (subst sint_small) (simp_all add: u del: sint_uint)
qed

text \<open>The jobs removed first: a state that differs from \<open>m\<close> in the scheduler only.\<close>

definition timer_cancelled :: "u32 \<Rightarrow> machine \<Rightarrow> machine" where
  "timer_cancelled prev_ttmr m =
     (let m = (if has prev_ttmr SPR_TTMR_IE \<and> \<not> has (spr SPR_TTMR m) SPR_TTMR_IP
               then SCHED_FIND_REMOVE Tick_raise_except m else m);
          mode = prev_ttmr AND SPR_TTMR_M
      in if mode = SPR_TTMR_RT then SCHED_FIND_REMOVE Tick_restart m
         else if mode = SPR_TTMR_SR then SCHED_FIND_REMOVE Tick_one_shot m else m)"

lemma timer_cancelled_ok:
  assumes "jobs_ok n m"
  obtains s where "timer_cancelled prev m = m\<lparr>scheduler := s\<rparr>" and "jobs_ok n (m\<lparr>scheduler := s\<rparr>)"
    and "pending (m\<lparr>scheduler := s\<rparr>) = timer_cancel prev m (pending m)"
proof -
  let ?m = "if has prev SPR_TTMR_IE \<and> \<not> has (spr SPR_TTMR m) SPR_TTMR_IP
            then SCHED_FIND_REMOVE Tick_raise_except m else m"
  have 1: "jobs_ok n ?m" "pending ?m = (if has prev SPR_TTMR_IE \<and> \<not> has (spr SPR_TTMR m) SPR_TTMR_IP
            then tq_remove Tick_raise_except (pending m) else pending m)"
    using SCHED_FIND_REMOVE_ok[OF assms, of Tick_raise_except] assms by simp_all
  have "jobs_ok n (timer_cancelled prev m)"
    and "pending (timer_cancelled prev m) = timer_cancel prev m (pending m)"
    using SCHED_FIND_REMOVE_ok[OF 1(1)] 1 by (simp_all add: timer_cancelled_def timer_cancel_def Let_def)
  moreover have "\<exists>s. timer_cancelled prev m = m\<lparr>scheduler := s\<rparr>"
  proof -
    have "timer_cancelled prev m = m\<lparr>scheduler := scheduler (timer_cancelled prev m)\<rparr>"
      by (simp add: timer_cancelled_def Let_def SCHED_FIND_REMOVE_def)
    then show ?thesis by blast
  qed
  ultimately show ?thesis using that by auto
qed

lemma add_then_raise:
  assumes "jobs_ok (Suc (Suc n)) m" and "0 \<le> t" and "t \<le> 0x40000000"
  shows "\<exists>s. bind_res (SCHED_ADD f t m) (\<lambda>m. if r then SCHED_ADD g t m else Inr m) = Inr (m\<lparr>scheduler := s\<rparr>)
     \<and> jobs_ok n (m\<lparr>scheduler := s\<rparr>)
     \<and> pending (m\<lparr>scheduler := s\<rparr>)
         = (if r then tq_insert t g (tq_insert t f (pending m)) else tq_insert t f (pending m))"
proof -
  from SCHED_ADD_ok[OF assms, of f] obtain s1 where
    s1: "SCHED_ADD f t m = Inr (m\<lparr>scheduler := s1\<rparr>)" "jobs_ok (Suc n) (m\<lparr>scheduler := s1\<rparr>)"
      "pending (m\<lparr>scheduler := s1\<rparr>) = tq_insert t f (pending m)" by blast
  from SCHED_ADD_ok[OF s1(2) assms(2,3), of g] obtain s2 where
    "SCHED_ADD g t (m\<lparr>scheduler := s1\<rparr>) = Inr (m\<lparr>scheduler := s2\<rparr>)" "jobs_ok n (m\<lparr>scheduler := s2\<rparr>)"
      "pending (m\<lparr>scheduler := s2\<rparr>) = tq_insert t g (tq_insert t f (pending m))"
    unfolding s1(3) by auto
  moreover have "jobs_ok n (m\<lparr>scheduler := s1\<rparr>)" using s1(2) by (rule jobs_ok_mono) simp
  ultimately show ?thesis using s1 by (cases r) auto
qed

lemma raise_maybe:
  assumes "jobs_ok (Suc n) m" and "0 \<le> t" and "t \<le> 0x40000000"
  shows "\<exists>s. (if r then SCHED_ADD g t m else Inr m) = Inr (m\<lparr>scheduler := s\<rparr>)
     \<and> jobs_ok n (m\<lparr>scheduler := s\<rparr>)
     \<and> pending (m\<lparr>scheduler := s\<rparr>) = (if r then tq_insert t g (pending m) else pending m)"
proof (cases r)
  case True
  with SCHED_ADD_ok[OF assms, of g] show ?thesis by simp
next
  case False
  have "jobs_ok n m" using assms(1) by (rule jobs_ok_mono) simp
  with False show ?thesis by (intro exI[of _ "scheduler m"]) simp
qed

lemma sched_timer_job_refines:
  assumes "jobs_ok (Suc (Suc n)) m"
  shows "\<exists>s. sched_timer_job prev m = Inr (m\<lparr>scheduler := s\<rparr>) \<and> jobs_ok n (m\<lparr>scheduler := s\<rparr>)
     \<and> pending (m\<lparr>scheduler := s\<rparr>) = timer_arm m (timer_cancel prev m (pending m))"
proof -
  obtain s0 where s0: "timer_cancelled prev m = m\<lparr>scheduler := s0\<rparr>" "jobs_ok (Suc (Suc n)) (m\<lparr>scheduler := s0\<rparr>)"
    "pending (m\<lparr>scheduler := s0\<rparr>) = timer_cancel prev m (pending m)"
    using timer_cancelled_ok[OF assms] by blast
  let ?m = "m\<lparr>scheduler := s0\<rparr>"
  let ?t = "timer_wait m"
  have t: "0 \<le> ?t" "?t \<le> 0x40000000" using timer_wait_range[of m] by simp_all
  have t0: "cycles_until_except (spr SPR_TTMR m AND SPR_TTMR_TP) (spr_read_ttcr m AND SPR_TTMR_TP) = 0
      \<longleftrightarrow> ?t = 0"
    using timer_wait_cycles(1)[of m] by (metis uint_0_iff)
  let ?mode = "spr SPR_TTMR m AND SPR_TTMR_M"
  have run: "sched_timer_job prev m =
      (if ?mode = 0 then (if ?t = 0 \<and> timer_raises m then SCHED_ADD Tick_raise_except 0 ?m else Inr ?m)
       else if ?mode = SPR_TTMR_RT
       then bind_res (SCHED_ADD Tick_restart ?t ?m) (\<lambda>m'. if timer_raises m then SCHED_ADD Tick_raise_except ?t m' else Inr m')
       else if ?mode = SPR_TTMR_SR
       then (if tick_counting m \<noteq> 0
             then bind_res (SCHED_ADD Tick_one_shot ?t ?m) (\<lambda>m'. if timer_raises m then SCHED_ADD Tick_raise_except ?t m' else Inr m')
             else Inr ?m)
       else (if timer_raises m then SCHED_ADD Tick_raise_except ?t ?m else Inr ?m))"
    unfolding s0(1)[symmetric]
    by (simp add: sched_timer_job_def timer_cancelled_def Let_def timer_wait_cycles[simplified] t0[simplified] timer_raises_def)
  have ok1: "jobs_ok (Suc n) ?m" and ok0: "jobs_ok n ?m" using s0(2) by (rule jobs_ok_mono, simp)+
  note two = add_then_raise[OF s0(2) t] and one = raise_maybe[OF ok1 t, of "timer_raises m" Tick_raise_except]
  have none: "\<exists>s. Inr ?m = (Inr (?m\<lparr>scheduler := s\<rparr>) :: machine res) \<and> jobs_ok n (?m\<lparr>scheduler := s\<rparr>)
      \<and> pending (?m\<lparr>scheduler := s\<rparr>) = pending ?m"
    using ok0 by (intro exI[of _ s0]) simp
  have zero: "\<exists>s. (if timer_raises m then SCHED_ADD Tick_raise_except 0 ?m else Inr ?m) = Inr (?m\<lparr>scheduler := s\<rparr>)
      \<and> jobs_ok n (?m\<lparr>scheduler := s\<rparr>)
      \<and> pending (?m\<lparr>scheduler := s\<rparr>) = (if timer_raises m then tq_insert 0 Tick_raise_except (pending ?m) else pending ?m)"
    by (rule raise_maybe[OF ok1]) simp_all
  consider (off) "?mode = 0" "?t = 0" | (wait) "?mode = 0" "?t \<noteq> 0" | (restart) "?mode = SPR_TTMR_RT"
    | (single) "?mode = SPR_TTMR_SR" "tick_counting m \<noteq> 0" | (stopped) "?mode = SPR_TTMR_SR" "tick_counting m = 0"
    | (continuous) "?mode \<noteq> 0" "?mode \<noteq> SPR_TTMR_RT" "?mode \<noteq> SPR_TTMR_SR" by blast
  then show ?thesis
  proof cases
    case off
    with zero show ?thesis unfolding run timer_arm_def Let_def s0(3)[symmetric]
      by (cases "timer_raises m") simp_all
  next
    case wait
    with none show ?thesis unfolding run timer_arm_def Let_def s0(3)[symmetric] by simp
  next
    case restart
    with two[of Tick_restart "timer_raises m" Tick_raise_except]
    show ?thesis unfolding run timer_arm_def Let_def s0(3)[symmetric] by simp
  next
    case single
    with two[of Tick_one_shot "timer_raises m" Tick_raise_except]
    show ?thesis unfolding run timer_arm_def Let_def s0(3)[symmetric] by simp
  next
    case stopped
    with none show ?thesis unfolding run timer_arm_def Let_def s0(3)[symmetric] by simp
  next
    case continuous
    with one show ?thesis unfolding run timer_arm_def Let_def s0(3)[symmetric] by simp
  qed
qed

section \<open>The timer's jobs are never doubled\<close>

text \<open>
  Each timer job is queued at most once, and only while TTMR is in the mode that wants it. This is
  what lets \<open>sched_timer_job\<close> remove at most one job of each kind.
\<close>

definition timer_jobs_ok :: "u32 \<Rightarrow> (int \<times> job) list \<Rightarrow> bool" where
  "timer_jobs_ok ttmr q \<longleftrightarrow>
     queued Tick_raise_except q \<le> (if has ttmr SPR_TTMR_IE then 1 else 0)
     \<and> queued Tick_restart q \<le> (if ttmr AND SPR_TTMR_M = SPR_TTMR_RT then 1 else 0)
     \<and> queued Tick_one_shot q \<le> (if ttmr AND SPR_TTMR_M = SPR_TTMR_SR then 1 else 0)"

lemma timer_cancel_queued:
  assumes "timer_jobs_ok prev q" and "\<not> has (spr SPR_TTMR m) SPR_TTMR_IP"
  shows "queued Tick_raise_except (timer_cancel prev m q) = 0" and "queued Tick_restart (timer_cancel prev m q) = 0"
    and "queued Tick_one_shot (timer_cancel prev m q) = 0"
  using assms by (auto simp: timer_jobs_ok_def timer_cancel_def Let_def split: if_splits)

lemma timer_arm_queued:
  assumes "queued Tick_raise_except q = 0" and "queued Tick_restart q = 0" and "queued Tick_one_shot q = 0"
  shows "timer_jobs_ok (spr SPR_TTMR m) (timer_arm m q)"
  using assms by (simp add: timer_jobs_ok_def timer_arm_def Let_def timer_raises_def)

lemma ttmr_written_state:
  "scheduler (ttmr_written m) = scheduler m" "spr SPR_TTMR (ttmr_written m) = spr SPR_TTMR m AND NOT SPR_TTMR_IP"
  by (simp_all add: ttmr_written_def Let_def)

lemma spr_write_ttmr_jobs:
  assumes ok: "jobs_ok (Suc (Suc n)) m" and tick: "timer_jobs_ok prev (pending m)"
  shows "\<exists>m'. spr_write_ttmr prev m = Inr m' \<and> jobs_ok n m' \<and> timer_jobs_ok (spr SPR_TTMR m') (pending m')"
proof -
  define m1 where "m1 = ttmr_written m"
  then have m1: "spr_write_ttmr prev m = sched_timer_job prev m1" "scheduler m1 = scheduler m"
    "spr SPR_TTMR m1 = spr SPR_TTMR m AND NOT SPR_TTMR_IP"
    using ttmr_written_state by (simp_all only: spr_write_ttmr_def)
  from ok m1(2) have ok1: "jobs_ok (Suc (Suc n)) m1" and pend: "pending m1 = pending m"
    by (simp_all add: jobs_ok_def pending_def)
  from sched_timer_job_refines[OF ok1, of prev] obtain s where
    s: "sched_timer_job prev m1 = Inr (m1\<lparr>scheduler := s\<rparr>)" "jobs_ok n (m1\<lparr>scheduler := s\<rparr>)"
      "pending (m1\<lparr>scheduler := s\<rparr>) = timer_arm m1 (timer_cancel prev m1 (pending m))"
    unfolding pend by blast
  have "\<not> has (spr SPR_TTMR m1) SPR_TTMR_IP" unfolding m1(3) by (rule has_clear_flag_same)
  with tick have "timer_jobs_ok (spr SPR_TTMR m1) (pending (m1\<lparr>scheduler := s\<rparr>))"
    unfolding s(3) by (intro timer_arm_queued timer_cancel_queued)
  with s(1,2) m1(1) show ?thesis by simp
qed

lemma spr_write_ttcr_jobs:
  assumes ok: "jobs_ok (Suc (Suc n)) m" and tick: "timer_jobs_ok (spr SPR_TTMR m) (pending m)"
    and idle: "\<not> has (spr SPR_TTMR m) SPR_TTMR_IP"
  shows "\<exists>m'. spr_write_ttcr v m = Inr m' \<and> jobs_ok n m' \<and> spr SPR_TTMR m' = spr SPR_TTMR m
     \<and> timer_jobs_ok (spr SPR_TTMR m') (pending m')"
proof -
  let ?m = "m\<lparr>cycle_count_at_tick_start := cycles (rt m) - ucast v\<rparr>"
  have ok1: "jobs_ok (Suc (Suc n)) ?m" and pend: "pending ?m = pending m"
    using ok by (simp_all add: jobs_ok_def pending_def)
  from sched_timer_job_refines[OF ok1, of "spr SPR_TTMR m"] obtain s where
    s: "spr_write_ttcr v m = Inr (?m\<lparr>scheduler := s\<rparr>)" "jobs_ok n (?m\<lparr>scheduler := s\<rparr>)"
      "pending (?m\<lparr>scheduler := s\<rparr>) = timer_arm ?m (timer_cancel (spr SPR_TTMR m) ?m (pending m))"
    unfolding pend by (auto simp: spr_write_ttcr_def Let_def)
  have "timer_jobs_ok (spr SPR_TTMR ?m) (pending (?m\<lparr>scheduler := s\<rparr>))"
    unfolding s(3) by (rule timer_arm_queued; rule timer_cancel_queued) (use tick idle in simp_all)
  with s(1,2) show ?thesis by simp
qed

section \<open>The count register reads back\<close>

text \<open>After a write of TTCR the register reads as the value written plus the cycles passed since.\<close>

lemma ttcr_counts:
  assumes "tick_counting m \<noteq> 0" and "cycle_count_at_tick_start m = cycles (rt m0) - ucast v"
  shows "spr_read_ttcr m = v + ucast (cycles (rt m) - cycles (rt m0))"
proof -
  have "cycles (rt m) - cycle_count_at_tick_start m = ucast v + (cycles (rt m) - cycles (rt m0))"
    unfolding assms(2) by (simp add: algebra_simps)
  then have "spr_read_ttcr m = ucast (ucast v + (cycles (rt m) - cycles (rt m0)))"
    using assms(1) by (simp only: spr_read_ttcr_def if_False)
  then show ?thesis by (simp add: ucast_down_add ucast_ucast_id)
qed

section \<open>What a write of TTMR promises\<close>

text \<open>
  What a write of TTMR promises, without the steps of the code: the timer jobs a value \<open>v\<close> of TTMR asks for when
  the counter is \<open>w\<close> cycles away from the match, in the order in which they run. A disabled timer raises the exception only
  when the counter is at the match already.
\<close>

definition timer_job :: "int \<times> job \<Rightarrow> bool" where
  "timer_job e \<longleftrightarrow> snd e = Tick_raise_except \<or> snd e = Tick_restart \<or> snd e = Tick_one_shot"



lemma timer_job_simps [simp]: "timer_job (t, Tick_raise_except)" "timer_job (t, Tick_restart)" "timer_job (t, Tick_one_shot)"
  by (simp_all add: timer_job_def)















section \<open>Properties\<close>

text \<open>A machine with the guard queued and free entries, TTMR set.\<close>

definition timer_machine :: "u32 \<Rightarrow> machine" where
  "timer_machine ttmr = with_sprs [(SPR_TTMR, ttmr)] (zero_machine 5)"

lemma timer_machine_ok:
  "jobs_ok 5 (timer_machine ttmr)" "pending (timer_machine ttmr) = [(SCHED_TIME_MAX, Guard)]"
  by (simp_all add: timer_machine_def jobs_ok_def pending_def sched_wf_def sched_jobs_def tq_wf_def
      in_int32_def sched_room_def free_entry_def)



text \<open>
  The timer never piles up jobs: if each of the three timer jobs is queued at most once, and only
  in the mode that needs it, the same holds after software writes TTMR, and the write succeeds.
\<close>

theorem timer_write_keeps_jobs_single:
  assumes "jobs_ok (Suc (Suc n)) m" and "timer_jobs_ok prev (pending m)"
  shows "\<exists>m'. spr_write_ttmr prev m = Inr m' \<and> jobs_ok n m' \<and> timer_jobs_ok (spr SPR_TTMR m') (pending m')"
  using assms by (rule spr_write_ttmr_jobs)

lemma timer_write_keeps_jobs_single_witness:
  "\<exists>m'. spr_write_ttmr 0 (timer_machine SPR_TTMR_RT) = Inr m' \<and> queued Tick_restart (pending m') \<le> 1"
proof -
  let ?m = "timer_machine SPR_TTMR_RT"
  have "jobs_ok (Suc (Suc 3)) ?m" using timer_machine_ok(1) by (simp add: numeral_eq_Suc)
  moreover have "timer_jobs_ok 0 (pending ?m)" by (simp add: timer_machine_ok(2) timer_jobs_ok_def queued_def)
  ultimately show ?thesis
    using timer_write_keeps_jobs_single[of 3 ?m 0] by (fastforce simp: timer_jobs_ok_def split: if_splits)
qed

text \<open>
  C25: while the timer counts, TTCR reads as the value last written to it plus the cycles simulated
  since, modulo \<open>2 ^ 32\<close>, although no instruction ever increments it.
\<close>

theorem ttcr_reads_elapsed:
  assumes "spr_write_ttcr v m0 = Inr m1" and "tick_counting m \<noteq> 0"
    and "cycle_count_at_tick_start m = cycle_count_at_tick_start m1"
  shows "spr_read_ttcr m = v + ucast (cycles (rt m) - cycles (rt m0))"
proof -
  have "cycle_count_at_tick_start m1 = cycles (rt m0) - ucast v"
    using assms(1)
    by (auto simp: spr_write_ttcr_def Let_def sched_timer_job_def SCHED_ADD_def bind_res_eq_Inr SCHED_FIND_REMOVE_def
        split: if_splits)
  with assms(2,3) show ?thesis by (intro ttcr_counts) simp_all
qed

lemma ttcr_reads_elapsed_witness:
  "spr_read_ttcr ((timer_machine 0)\<lparr>tick_counting := 1, cycle_count_at_tick_start := 0 - 7,
     rt := zero_runtime\<lparr>cycles := 35\<rparr>\<rparr>) = 42"
proof -
  let ?m0 = "timer_machine 1"
  have run: "spr_write_ttcr 7 ?m0 = Inr (?m0\<lparr>cycle_count_at_tick_start := 0 - 7\<rparr>)"
    by (simp add: spr_write_ttcr_def sched_timer_job_def Let_def timer_machine_def zero_runtime_def has_def
        cycles_until_except_def spr_read_ttcr_def)
  show ?thesis
    using ttcr_reads_elapsed[OF run, of "(timer_machine 0)\<lparr>tick_counting := 1, cycle_count_at_tick_start := 0 - 7,
        rt := zero_runtime\<lparr>cycles := 35\<rparr>\<rparr>"]
    by (simp add: timer_machine_def zero_runtime_def)
qed

end
