(* ===== verification/Sprs.thy ===== *)
theory Sprs
  imports Access Tick Units
begin

text \<open>
  Special purpose registers: the writes and reads with their side effects (\<open>cpu/or1k/sprs.c\<close>), and the
  \<open>cpu\<close> section of the configuration (\<open>cpu-config.c\<close>). Register numbers are \<open>nat\<close>s below \<open>2 ^ 16\<close>.
\<close>

section \<open>mtspr\<close>

text \<open>The fields of a TLB register that are kept; \<open>DADDR_PAGE\<close> and \<open>IADDR_PAGE\<close> follow the MMU pointers.\<close>

definition dtlb_written :: "nat \<Rightarrow> u32 \<Rightarrow> machine \<Rightarrow> machine res" where
  "dtlb_written regno v m =
     (if SPR_DTLBMR_BASE 0 \<le> regno \<and> regno < SPR_DTLBTR_LAST 3
      then case dmmu_state m of
        None \<Rightarrow> Inl Null_deref
      | Some dmmu \<Rightarrow>
          Inr (set_spr regno
            (if regno mod 256 < 128
             then (v AND page_mask dmmu) OR (v AND (SPR_DTLBMR_V OR SPR_DTLBMR_PL1 OR SPR_DTLBMR_CID OR SPR_DTLBMR_LRU))
             else (v AND page_mask dmmu) OR (v AND (SPR_DTLBTR_CC OR SPR_DTLBTR_CI OR SPR_DTLBTR_WBC OR SPR_DTLBTR_WOM
                    OR SPR_DTLBTR_A OR SPR_DTLBTR_D OR SPR_DTLBTR_URE OR SPR_DTLBTR_UWE OR SPR_DTLBTR_SRE
                    OR SPR_DTLBTR_SWE))) m)
      else Inr m)"

definition itlb_written :: "nat \<Rightarrow> u32 \<Rightarrow> machine \<Rightarrow> machine res" where
  "itlb_written regno v m =
     (if SPR_ITLBMR_BASE 0 \<le> regno \<and> regno < SPR_ITLBTR_LAST 3
      then case immu_state m of
        None \<Rightarrow> Inl Null_deref
      | Some immu \<Rightarrow>
          Inr (set_spr regno
            (if regno mod 256 < 128
             then (v AND page_mask immu) OR (v AND (SPR_ITLBMR_V OR SPR_ITLBMR_PL1 OR SPR_ITLBMR_CID OR SPR_ITLBMR_LRU))
             else (v AND page_mask immu) OR (v AND (SPR_ITLBTR_CC OR SPR_ITLBTR_CI OR SPR_ITLBTR_WBC OR SPR_ITLBTR_WOM
                    OR SPR_ITLBTR_A OR SPR_ITLBTR_D OR SPR_ITLBTR_SXE OR SPR_ITLBTR_UXE))) m)
      else Inr m)"

definition gpr_written :: "nat \<Rightarrow> u32 \<Rightarrow> machine \<Rightarrow> machine" where
  "gpr_written regno v m =
     (if 0x400 \<le> regno \<and> regno < 0x420
      then m\<lparr>cpu := (cpu m)\<lparr>reg := (reg (cpu m))(regno - 0x400 := v)\<rparr>\<rparr> else m)"

definition npc_written :: "u32 \<Rightarrow> machine \<Rightarrow> machine" where
  "npc_written v m =
     (if v \<noteq> pc (cpu m)
      then let m = m\<lparr>cpu := (cpu m)\<lparr>pc := v, delay_insn := False\<rparr>, pcnext := v + 4\<rparr>
           in if stalled (rt m) then m\<lparr>cpu := (cpu m)\<lparr>npc_not_valid := True\<rparr>\<rparr> else m
      else m)"

definition mtspr :: "nat \<Rightarrow> u32 \<Rightarrow> machine \<Rightarrow> machine res" where
  "mtspr regno v m =
     (let prev_val = spr regno m;
          m = set_spr regno v m
      in if regno = SPR_TTCR then spr_write_ttcr v m
         else if regno = SPR_TTMR then spr_write_ttmr prev_val m
         else if regno = SPR_DCBPR
         then bind_res (peek_into_dtlb v False True m) (\<lambda>(a, m).
                bind_res (dc_simulate_read a v 4 m) (\<lambda>(_, m). Inr (set_spr SPR_DCBPR 0 m)))
         else if regno = SPR_DCBFR then Inr (set_spr SPR_DCBFR (-1) (dc_inv v m))
         else if regno = SPR_DCBIR then Inr (set_spr SPR_DCBIR 0 (dc_inv v m))
         else if regno = SPR_DCBWR then Inr (set_spr SPR_DCBWR 0 m)
         else if regno = SPR_DCBLR then Inr (set_spr SPR_DCBLR 0 m)
         else if regno = SPR_ICBPR
         then bind_res (peek_into_itlb v m) (\<lambda>a.
                bind_res (ic_simulate_fetch a v m) (\<lambda>(_, m). Inr (set_spr SPR_ICBPR 0 m)))
         else if regno = SPR_ICBIR then bind_res (ic_inv v m) (\<lambda>m. Inr (set_spr SPR_ICBIR 0 m))
         else if regno = SPR_ICBLR then Inr (set_spr SPR_ICBLR 0 m)
         else if regno = SPR_SR
         then let m = spr_or SPR_SR SPR_SR_FO m
              in if has v SPR_SR_IEE \<and> \<not> has prev_val SPR_SR_IEE then pic_ints_en m else Inr m
         else if regno = SPR_NPC then Inr (npc_written v m)
         else if regno = SPR_PICSR
         then Inr (if \<not> cfg_pic_edge_trigger (conf m) then set_spr SPR_PICSR prev_val m else m)
         else if regno = SPR_PICMR
         then let m = (if cfg_pic_use_nmi (conf m) then spr_or SPR_PICMR 3 m else m)
              in if has (spr SPR_SR m) SPR_SR_IEE then pic_ints_en m else Inr m
         else if regno = SPR_PMR
         then if cfg_pm_enabled (conf m) \<noteq> 0 \<and> has v SPR_PMR_SUME then Inl Sim_done else Inr m
         else bind_res (dtlb_written regno v m) (\<lambda>m.
              bind_res (itlb_written regno v m) (\<lambda>m. Inr (gpr_written regno v m))))"

section \<open>mfspr\<close>

definition mfspr :: "nat \<Rightarrow> machine \<Rightarrow> u32" where
  "mfspr regno m =
     (if regno = SPR_NPC then if cfg_strict_npc (conf m) \<and> npc_not_valid (cpu m) then 0 else pc (cpu m)
      else if regno = SPR_TTCR then spr_read_ttcr m
      else if regno = SPR_FPCSR then if \<not> cfg_hardfloat (conf m) then 0 else spr regno m
      else if 0x400 \<le> regno \<and> regno < 0x420 then reg (cpu m) (regno - 0x400)
      else spr regno m)"

section \<open>The cpu section\<close>

text \<open>\<open>cpu_rev\<close> clears the bits of \<open>SPR_VR_REV_OFF\<close>, not those of \<open>SPR_VR_REV\<close>.\<close>

definition cpu_ver :: "int \<Rightarrow> machine \<Rightarrow> machine" where
  "cpu_ver val m = spr_or SPR_VR (push_bit SPR_VR_VER_OFF (word_of_int val AND 0xff)) (spr_clear SPR_VR SPR_VR_VER m)"

definition cpu_cfg :: "int \<Rightarrow> machine \<Rightarrow> machine" where
  "cpu_cfg val m = spr_or SPR_VR (push_bit SPR_VR_CFG_OFF (word_of_int val AND 0xff)) (spr_clear SPR_VR SPR_VR_CFG m)"

definition cpu_rev :: "int \<Rightarrow> machine \<Rightarrow> machine" where
  "cpu_rev val m =
     spr_or SPR_VR (push_bit SPR_VR_REV_OFF (word_of_int val AND 0x3f)) (spr_clear SPR_VR (of_nat SPR_VR_REV_OFF) m)"

definition cpu_upr :: "int \<Rightarrow> machine \<Rightarrow> machine" where
  "cpu_upr val = set_spr SPR_UPR (word_of_int val)"

definition cpu_cfgr :: "int \<Rightarrow> machine \<Rightarrow> machine" where
  "cpu_cfgr val = set_spr SPR_CPUCFGR (word_of_int val)"

definition cpu_sr :: "int \<Rightarrow> machine \<Rightarrow> machine" where
  "cpu_sr val = set_spr SPR_SR (word_of_int val)"

definition cpu_superscalar :: "int \<Rightarrow> machine \<Rightarrow> machine" where
  "cpu_superscalar val m = m\<lparr>conf := (conf m)\<lparr>cfg_superscalar := val \<noteq> 0\<rparr>\<rparr>"

definition cpu_dependstats :: "int \<Rightarrow> machine \<Rightarrow> machine" where
  "cpu_dependstats val m = m\<lparr>conf := (conf m)\<lparr>cfg_dependstats := val \<noteq> 0\<rparr>\<rparr>"

definition cpu_sbuf_len :: "int \<Rightarrow> machine \<Rightarrow> machine" where
  "cpu_sbuf_len val m =
     m\<lparr>conf := (conf m)\<lparr>cfg_sbuf_len := if 256 \<le> val then 255 else if val < 0 then 0 else val\<rparr>\<rparr>"

definition cpu_hardfloat :: "int \<Rightarrow> machine \<Rightarrow> machine" where
  "cpu_hardfloat val m = m\<lparr>conf := (conf m)\<lparr>cfg_hardfloat := val \<noteq> 0\<rparr>\<rparr>"

section \<open>What is read back\<close>

text \<open>The fields of a TLB register besides the page number.\<close>

definition dtlb_fields :: "nat \<Rightarrow> u32" where
  "dtlb_fields regno =
     (if regno mod 256 < 128 then SPR_DTLBMR_V OR SPR_DTLBMR_PL1 OR SPR_DTLBMR_CID OR SPR_DTLBMR_LRU
      else SPR_DTLBTR_CC OR SPR_DTLBTR_CI OR SPR_DTLBTR_WBC OR SPR_DTLBTR_WOM OR SPR_DTLBTR_A OR SPR_DTLBTR_D
        OR SPR_DTLBTR_URE OR SPR_DTLBTR_UWE OR SPR_DTLBTR_SRE OR SPR_DTLBTR_SWE)"

definition itlb_fields :: "nat \<Rightarrow> u32" where
  "itlb_fields regno =
     (if regno mod 256 < 128 then SPR_ITLBMR_V OR SPR_ITLBMR_PL1 OR SPR_ITLBMR_CID OR SPR_ITLBMR_LRU
      else SPR_ITLBTR_CC OR SPR_ITLBTR_CI OR SPR_ITLBTR_WBC OR SPR_ITLBTR_WOM OR SPR_ITLBTR_A OR SPR_ITLBTR_D
        OR SPR_ITLBTR_SXE OR SPR_ITLBTR_UXE)"

definition in_dtlb :: "nat \<Rightarrow> bool" where
  "in_dtlb regno \<longleftrightarrow> 2560 \<le> regno \<and> regno < 3583"

definition in_itlb :: "nat \<Rightarrow> bool" where
  "in_itlb regno \<longleftrightarrow> 4608 \<le> regno \<and> regno < 5631"

text \<open>Registers whose write starts an operation of the timer or of a cache.\<close>

definition spr_command :: "nat \<Rightarrow> bool" where
  "spr_command regno \<longleftrightarrow> regno \<in> {SPR_TTCR, SPR_TTMR, SPR_DCBPR, SPR_DCBFR, SPR_DCBIR, SPR_ICBPR, SPR_ICBIR}"

text \<open>The value a register has after \<open>v\<close> is written over \<open>prev\<close>.\<close>

definition spr_kept :: "nat \<Rightarrow> u32 \<Rightarrow> machine \<Rightarrow> u32" where
  "spr_kept regno v m =
     (if regno = SPR_DCBWR \<or> regno = SPR_DCBLR \<or> regno = SPR_ICBLR then 0
      else if regno = SPR_SR then v OR SPR_SR_FO
      else if regno = SPR_NPC
      then if cfg_strict_npc (conf m) \<and> (npc_not_valid (cpu m) \<or> v \<noteq> pc (cpu m) \<and> stalled (rt m)) then 0 else v
      else if regno = SPR_PICSR then if cfg_pic_edge_trigger (conf m) then v else spr SPR_PICSR m
      else if regno = SPR_PICMR then if cfg_pic_use_nmi (conf m) then v OR 3 else v
      else if regno = SPR_FPCSR then if cfg_hardfloat (conf m) then v else 0
      else if in_dtlb regno then v AND (page_mask (the (dmmu_state m)) OR dtlb_fields regno)
      else if in_itlb regno then v AND (page_mask (the (immu_state m)) OR itlb_fields regno)
      else v)"

lemma SCHED_ADD_scheduler: "SCHED_ADD f t m = Inr m' \<Longrightarrow> \<exists>s. m' = m\<lparr>scheduler := s\<rparr>"
  by (auto simp: SCHED_ADD_def elim!: bind_res_InrE)

lemma pic_ints_en_scheduler: "pic_ints_en m = Inr m' \<Longrightarrow> \<exists>s. m' = m\<lparr>scheduler := s\<rparr>"
proof (cases "spr SPR_PICMR m AND spr SPR_PICSR m = 0")
  case True
  moreover assume "pic_ints_en m = Inr m'"
  ultimately have "m' = m\<lparr>scheduler := scheduler m\<rparr>" by (simp add: pic_ints_en_def)
  then show ?thesis by blast
qed (auto simp: pic_ints_en_def dest: SCHED_ADD_scheduler)

lemma mfspr_scheduler [simp]: "mfspr r (m\<lparr>scheduler := s\<rparr>) = mfspr r m"
  by (simp add: mfspr_def spr_read_ttcr_def)

lemma mask_fields: "(v AND p) OR (v AND f) = v AND (p OR f :: 'a::len word)"
  by (simp add: bit.conj_disj_distrib)

lemma dtlb_written_eq:
  "dtlb_written regno v m = (if in_dtlb regno
     then case dmmu_state m of None \<Rightarrow> Inl Null_deref
          | Some d \<Rightarrow> Inr (set_spr regno (v AND (page_mask d OR dtlb_fields regno)) m)
     else Inr m)"
  by (simp add: dtlb_written_def in_dtlb_def dtlb_fields_def mask_fields split: option.split)

lemma itlb_written_eq:
  "itlb_written regno v m = (if in_itlb regno
     then case immu_state m of None \<Rightarrow> Inl Null_deref
          | Some d \<Rightarrow> Inr (set_spr regno (v AND (page_mask d OR itlb_fields regno)) m)
     else Inr m)"
  by (simp add: itlb_written_def in_itlb_def itlb_fields_def mask_fields split: option.split)

lemma gpr_written_simps [simp]:
  "spr r (gpr_written k v m) = spr r m"
  by (simp add: gpr_written_def spr_def del: sprs_cpu)

lemma mfspr_set_spr_other: "r \<noteq> k \<Longrightarrow> mfspr r (set_spr k v m) = mfspr r m"
  by (simp add: mfspr_def spr_read_ttcr_def)

lemma mfspr_set_spr_same:
  "mfspr k (set_spr k v m) =
     (if k = SPR_NPC then if cfg_strict_npc (conf m) \<and> npc_not_valid (cpu m) then 0 else pc (cpu m)
      else if k = SPR_TTCR then if tick_counting m = 0 then v else spr_read_ttcr m
      else if k = SPR_FPCSR then if cfg_hardfloat (conf m) then v else 0
      else if 0x400 \<le> k \<and> k < 0x420 then reg (cpu m) (k - 0x400) else v)"
  by (simp add: mfspr_def spr_read_ttcr_def)

lemma mfspr_set_spr_twice: "mfspr r (set_spr k w (set_spr k v m)) = mfspr r (set_spr k w m)"
  by (cases "r = k") (simp_all add: mfspr_set_spr_other mfspr_set_spr_same spr_read_ttcr_def)

lemma mfspr_spr_or: "mfspr r (spr_or k f m) = mfspr r (set_spr k (spr k m OR f) m)"
  by (simp add: mfspr_def spr_read_ttcr_def)

lemma mfspr_gpr_written:
  "0x400 \<le> k \<Longrightarrow> k < 0x420 \<Longrightarrow> mfspr r (gpr_written k v m) = (if r = k then v else mfspr r m)"
  by (auto simp: gpr_written_def mfspr_def spr_read_ttcr_def)

lemma gpr_written_other: "\<not> (0x400 \<le> k \<and> k < 0x420) \<Longrightarrow> gpr_written k v m = m"
  by (auto simp: gpr_written_def)

lemmas mfspr_write = mfspr_set_spr_same mfspr_set_spr_other mfspr_set_spr_twice mfspr_spr_or

lemma mtspr_cache_command:
  assumes "regno = SPR_DCBWR \<or> regno = SPR_DCBLR \<or> regno = SPR_ICBLR"
  shows "mtspr regno v m = Inr (set_spr regno 0 (set_spr regno v m))" and "spr_kept regno v m = 0"
  using assms by (auto simp: mtspr_def spr_kept_def Let_def)

lemma mtspr_npc:
  "mtspr SPR_NPC v m = Inr (npc_written v (set_spr SPR_NPC v m))"
  by (simp add: mtspr_def Let_def)

lemma mfspr_npc_written:
  "mfspr r (npc_written v m) =
     (if r = SPR_NPC then if cfg_strict_npc (conf m) \<and> (npc_not_valid (cpu m) \<or> v \<noteq> pc (cpu m) \<and> stalled (rt m)) then 0 else v
      else mfspr r m)"
  by (simp add: npc_written_def mfspr_def spr_read_ttcr_def Let_def)

lemma pic_ints_en_if:
  "(if b then pic_ints_en m else Inr m) = Inr m' \<Longrightarrow> \<exists>s. m' = m\<lparr>scheduler := s\<rparr>"
  using pic_ints_en_scheduler[of m m'] exI[of "\<lambda>s. m = m\<lparr>scheduler := s\<rparr>" "scheduler m"] by (auto split: if_splits)

lemma mtspr_special:
  assumes "mtspr regno v m = Inr m'"
    and "regno \<in> {SPR_DCBWR, SPR_DCBLR, SPR_ICBLR, SPR_SR, SPR_NPC, SPR_PICSR, SPR_PICMR, SPR_PMR}"
  shows "mfspr r m' = (if r = regno then spr_kept regno v m else mfspr r m)"
proof -
  consider "regno = SPR_DCBWR \<or> regno = SPR_DCBLR \<or> regno = SPR_ICBLR" | "regno = SPR_NPC" | "regno = SPR_SR"
    | "regno = SPR_PICSR" | "regno = SPR_PICMR" | "regno = SPR_PMR"
    using assms(2) by blast
  then show ?thesis
  proof cases
    case 1
    with assms(1) show ?thesis by (auto simp: mtspr_cache_command mfspr_write)
  next
    case 2
    with assms(1) show ?thesis by (auto simp: mtspr_npc spr_kept_def mfspr_npc_written mfspr_write)
  next
    case 3
    with assms(1) have "\<exists>s. m' = (spr_or SPR_SR SPR_SR_FO (set_spr SPR_SR v m))\<lparr>scheduler := s\<rparr>"
      by (simp add: mtspr_def Let_def) (erule pic_ints_en_if)
    with 3 show ?thesis by (auto simp: spr_kept_def mfspr_write)
  next
    case 4
    with assms(1) show ?thesis
      by (cases "cfg_pic_edge_trigger (conf m)") (auto simp: mtspr_def spr_kept_def Let_def mfspr_write)
  next
    case 5
    note w = assms(1)[unfolded 5 mtspr_def Let_def, simplified]
    have "\<exists>s. m' = (if cfg_pic_use_nmi (conf m) then spr_or SPR_PICMR 3 (set_spr SPR_PICMR v m)
        else set_spr SPR_PICMR v m)\<lparr>scheduler := s\<rparr>"
      using pic_ints_en_if[OF w] by simp
    with 5 show ?thesis by (auto simp: spr_kept_def mfspr_write)
  next
    case 6
    with assms(1) have "m' = set_spr SPR_PMR v m" by (simp add: mtspr_def Let_def split: if_splits)
    with 6 show ?thesis by (auto simp: spr_kept_def in_dtlb_def in_itlb_def mfspr_write)
  qed
qed

lemma mtspr_default:
  assumes "\<not> spr_command regno"
    and "regno \<notin> {SPR_DCBWR, SPR_DCBLR, SPR_ICBLR, SPR_SR, SPR_NPC, SPR_PICSR, SPR_PICMR, SPR_PMR}"
  shows "mtspr regno v m = bind_res (dtlb_written regno v (set_spr regno v m)) (\<lambda>m.
              bind_res (itlb_written regno v m) (\<lambda>m. Inr (gpr_written regno v m)))"
  using assms by (simp add: mtspr_def Let_def spr_command_def)

lemma mtspr_plain:
  assumes "mtspr regno v m = Inr m'" and "\<not> spr_command regno"
    and "regno \<notin> {SPR_DCBWR, SPR_DCBLR, SPR_ICBLR, SPR_SR, SPR_NPC, SPR_PICSR, SPR_PICMR, SPR_PMR}"
  shows "mfspr r m' = (if r = regno then spr_kept regno v m else mfspr r m)"
proof -
  note m' = assms(1)[unfolded mtspr_default[OF assms(2,3)]]
  have k: "spr_kept regno v m =
     (if regno = SPR_FPCSR then if cfg_hardfloat (conf m) then v else 0
      else if in_dtlb regno then v AND (page_mask (the (dmmu_state m)) OR dtlb_fields regno)
      else if in_itlb regno then v AND (page_mask (the (immu_state m)) OR itlb_fields regno)
      else v)" and ne: "regno \<noteq> SPR_NPC" "regno \<noteq> SPR_TTCR"
    using assms(2,3) by (simp_all add: spr_kept_def spr_command_def)
  consider "in_dtlb regno" | "in_itlb regno" | "0x400 \<le> regno \<and> regno < 0x420"
    | "\<not> in_dtlb regno" "\<not> in_itlb regno" "\<not> (0x400 \<le> regno \<and> regno < 0x420)" by blast
  then show ?thesis
  proof cases
    case 1
    then have "regno \<noteq> SPR_FPCSR" "\<not> in_itlb regno" "\<not> (0x400 \<le> regno \<and> regno < 0x420)"
      by (auto simp: in_dtlb_def in_itlb_def)
    with 1 m' ne show ?thesis
      by (cases "dmmu_state m") (auto simp: dtlb_written_eq itlb_written_eq k gpr_written_other mfspr_write)
  next
    case 2
    then have "regno \<noteq> SPR_FPCSR" "\<not> in_dtlb regno" "\<not> (0x400 \<le> regno \<and> regno < 0x420)"
      by (auto simp: in_dtlb_def in_itlb_def)
    with 2 m' ne show ?thesis
      by (cases "immu_state m") (auto simp: dtlb_written_eq itlb_written_eq k gpr_written_other mfspr_write)
  next
    case 3
    then have "regno \<noteq> SPR_FPCSR" "\<not> in_dtlb regno" "\<not> in_itlb regno"
      by (auto simp: in_dtlb_def in_itlb_def)
    with 3 m' ne show ?thesis
      by (auto simp: dtlb_written_eq itlb_written_eq k mfspr_gpr_written mfspr_set_spr_other)
  next
    case 4
    with m' ne show ?thesis
      by (auto simp: dtlb_written_eq itlb_written_eq k gpr_written_other mfspr_write)
  qed
qed

definition sprs_machine :: machine where
  "sprs_machine = (zero_machine 8)\<lparr>dmmu_state := Some (zero_mmu\<lparr>page_mask := 0xffffe000\<rparr>)\<rparr>"

section \<open>Properties\<close>

text \<open> C17: Writing a special purpose register and reading it back gives the value written, with exactly the bits
  the register keeps (the page number and the fields of a TLB register, SR[FO] always set, the interrupts
  pending when they are level triggered, the non-maskable interrupts always unmasked), and no other register
  reads differently; the registers of the group 0x400 are the general purpose registers.\<close>

theorem spr_write_then_read:
  assumes "mtspr regno v m = Inr m'" and "\<not> spr_command regno"
  shows "mfspr r m' = (if r = regno then spr_kept regno v m else mfspr r m)"
  using mtspr_special[OF assms(1), of r] mtspr_plain[OF assms, of r] by blast

theorem spr_write_then_read_witness:
  "\<exists>m'. mtspr (SPR_DTLBMR_BASE 0) 0x12345fff sprs_machine = Inr m' \<and> mfspr (SPR_DTLBMR_BASE 0) m' = 0x123440ff
      \<and> mfspr 0x403 m' = 0"
proof -
  have "\<exists>m'. mtspr (SPR_DTLBMR_BASE 0) 0x12345fff sprs_machine = Inr m'"
    by (subst mtspr_default) (simp_all add: spr_command_def dtlb_written_eq itlb_written_eq in_dtlb_def in_itlb_def
        gpr_written_other sprs_machine_def)
  then obtain m' where m': "mtspr (SPR_DTLBMR_BASE 0) 0x12345fff sprs_machine = Inr m'" ..
  have "\<not> spr_command (SPR_DTLBMR_BASE 0)" by (simp add: spr_command_def)
  note w = spr_write_then_read[OF m' this]
  have "mfspr (SPR_DTLBMR_BASE 0) m' = 0x123440ff"
    by (simp add: w spr_kept_def in_dtlb_def dtlb_fields_def sprs_machine_def zero_mmu_def)
  moreover have "mfspr 0x403 m' = 0"
    by (subst w) (simp add: mfspr_def sprs_machine_def zero_cpu_def)
  ultimately show ?thesis using m' by blast
qed

text \<open> The last translation registers of both TLBs miss the masking of reserved bits: the bound
  \<open>regno < SPR_DTLBTR_LAST (3)\<close> excludes the register it names, so any value is stored in it, even on a
  simulator without an MMU, where every other TLB register follows a null pointer.\<close>

theorem last_tlb_registers_unmasked:
  "mtspr (SPR_DTLBTR_LAST 3) v m = Inr (set_spr (SPR_DTLBTR_LAST 3) v m)
   \<and> mtspr (SPR_ITLBTR_LAST 3) v m = Inr (set_spr (SPR_ITLBTR_LAST 3) v m)
   \<and> mtspr (SPR_DTLBTR_LAST 3 - 1) v (zero_machine n) = Inl Null_deref"
  by (simp add: mtspr_default spr_command_def dtlb_written_eq itlb_written_eq in_dtlb_def in_itlb_def gpr_written_other)

end
