(* ===== verification/Predict.thy ===== *)
theory Predict
  imports Machine
begin

text \<open>
  Branch prediction (\<open>bpb/branch-predict.c\<close>): the branch prediction buffer \<open>bpb\<close> and the branch target
  instruction cache \<open>btic\<close>, statistics of the simulator that do not change the program.
\<close>

section \<open>Branch prediction buffer\<close>

abbreviation (input) BPB_LEN :: u32 where "BPB_LEN \<equiv> 64"
abbreviation (input) BPB_WAYS :: nat where "BPB_WAYS \<equiv> 1"
abbreviation (input) BPB_PSTATES :: nat where "BPB_PSTATES \<equiv> 2"
abbreviation (input) BPB_USTATES :: nat where "BPB_USTATES \<equiv> 2"

definition upd_bpb :: "nat \<Rightarrow> nat \<Rightarrow> (bpb_way \<Rightarrow> bpb_way) \<Rightarrow> machine \<Rightarrow> machine" where
  "upd_bpb e w f m = m\<lparr>bpb := (bpb m)(e := (bpb m e)(w := f (bpb m e w)))\<rparr>"

definition bpb_entry :: "u32 \<Rightarrow> nat" where
  "bpb_entry addr = unat (addr mod BPB_LEN)"

text \<open>The scan keeps the last matching way.\<close>

definition bpb_find :: "u32 \<Rightarrow> machine \<Rightarrow> nat option" where
  "bpb_find addr m =
     fold (\<lambda>i way. if bpb_addr (bpb m (bpb_entry addr) i) = addr then Some i else way) [0..<BPB_WAYS] None"

text \<open>The usage counters of an entry step down, that of \<open>way\<close> is reloaded.\<close>

definition bpb_use :: "nat \<Rightarrow> nat \<Rightarrow> machine \<Rightarrow> machine" where
  "bpb_use e way m =
     (let m = fold (\<lambda>i m. if bpb_lru (bpb m e i) \<noteq> 0 then upd_bpb e i (\<lambda>l. l\<lparr>bpb_lru := bpb_lru l - 1\<rparr>) m else m)
                [0..<BPB_WAYS] m
      in upd_bpb e way (\<lambda>l. l\<lparr>bpb_lru := BPB_USTATES - 1\<rparr>) m)"

definition bpb_update :: "u32 \<Rightarrow> bool \<Rightarrow> machine \<Rightarrow> machine" where
  "bpb_update addr taken m =
     (if \<not> bpb_enabled (cfg_bpb (conf m)) then m
      else
        let e = bpb_entry addr
        in case bpb_find addr m of
             Some way \<Rightarrow>
               let m = m\<lparr>st := (st m)\<lparr>bpb_hit := bpb_hit (st m) + 1\<rparr>\<rparr>;
                   m = bpb_use e way m;
                   t = bpb_taken (bpb m e way);
                   m = (if t div (BPB_PSTATES div 2) = of_bool taken
                        then m\<lparr>st := (st m)\<lparr>bpb_correct := bpb_correct (st m) + 1\<rparr>\<rparr>
                        else m\<lparr>st := (st m)\<lparr>bpb_incorrect := bpb_incorrect (st m) + 1\<rparr>\<rparr>)
               in if taken \<and> t < BPB_PSTATES - 1 then upd_bpb e way (\<lambda>l. l\<lparr>bpb_taken := t + 1\<rparr>) m
                  else if \<not> taken \<and> t \<noteq> 0 then upd_bpb e way (\<lambda>l. l\<lparr>bpb_taken := t - 1\<rparr>) m
                  else m
           | None \<Rightarrow>
               let m = m\<lparr>st := (st m)\<lparr>bpb_miss := bpb_miss (st m) + 1\<rparr>\<rparr>;
                   minway = fold (\<lambda>i w. if bpb_lru (bpb m e i) < BPB_USTATES - 1 then i else w) [0..<BPB_WAYS] 0;
                   m = upd_bpb e minway
                         (\<lambda>l. l\<lparr>bpb_addr := addr, bpb_taken := (BPB_PSTATES div 2 - 1) + of_bool taken\<rparr>) m
               in bpb_use e minway m)"

section \<open>Branch target instruction cache\<close>

abbreviation (input) BTIC_LEN :: u32 where "BTIC_LEN \<equiv> 128"
abbreviation (input) BTIC_WAYS :: nat where "BTIC_WAYS \<equiv> 2"
abbreviation (input) BTIC_USTATES :: nat where "BTIC_USTATES \<equiv> 2"

definition upd_btic :: "nat \<Rightarrow> nat \<Rightarrow> (btic_way \<Rightarrow> btic_way) \<Rightarrow> machine \<Rightarrow> machine" where
  "upd_btic e w f m = m\<lparr>btic := (btic m)(e := (btic m e)(w := f (btic m e w)))\<rparr>"

definition btic_entry :: "u32 \<Rightarrow> nat" where
  "btic_entry addr = unat (addr mod BTIC_LEN)"

definition btic_find :: "u32 \<Rightarrow> machine \<Rightarrow> nat option" where
  "btic_find addr m =
     fold (\<lambda>i way. if btic_addr (btic m (btic_entry addr) i) = addr then Some i else way) [0..<BTIC_WAYS] None"

definition btic_use :: "nat \<Rightarrow> nat \<Rightarrow> machine \<Rightarrow> machine" where
  "btic_use e way m =
     (let m = fold (\<lambda>i m. if btic_lru (btic m e i) \<noteq> 0 then upd_btic e i (\<lambda>l. l\<lparr>btic_lru := btic_lru l - 1\<rparr>) m else m)
                [0..<BTIC_WAYS] m
      in upd_btic e way (\<lambda>l. l\<lparr>btic_lru := BTIC_USTATES - 1\<rparr>) m)"

definition btic_update :: "u32 \<Rightarrow> machine \<Rightarrow> machine" where
  "btic_update targetaddr m =
     (if \<not> bpb_btic (cfg_bpb (conf m)) then m
      else
        let e = btic_entry targetaddr
        in case btic_find targetaddr m of
             Some way \<Rightarrow> btic_use e way (m\<lparr>st := (st m)\<lparr>btic_hit := btic_hit (st m) + 1\<rparr>\<rparr>)
           | None \<Rightarrow>
               let m = m\<lparr>st := (st m)\<lparr>btic_miss := btic_miss (st m) + 1\<rparr>\<rparr>;
                   minway = fold (\<lambda>i w. if btic_lru (btic m e i) < BTIC_USTATES - 1 then i else w) [0..<BTIC_WAYS] 0;
                   m = upd_btic e minway (\<lambda>l. l\<lparr>btic_addr := targetaddr\<rparr>) m
               in btic_use e minway m)"

section \<open>Configuration\<close>

definition upd_bpbc :: "(bpb_config \<Rightarrow> bpb_config) \<Rightarrow> machine \<Rightarrow> machine" where
  "upd_bpbc f m = m\<lparr>conf := (conf m)\<lparr>cfg_bpb := f (cfg_bpb (conf m))\<rparr>\<rparr>"

definition bpb_cfg_enabled :: "int \<Rightarrow> machine \<Rightarrow> machine" where
  "bpb_cfg_enabled val = upd_bpbc (\<lambda>c. c\<lparr>bpb_enabled := val \<noteq> 0\<rparr>)"

definition bpb_cfg_btic :: "int \<Rightarrow> machine \<Rightarrow> machine" where
  "bpb_cfg_btic val = upd_bpbc (\<lambda>c. c\<lparr>bpb_btic := val \<noteq> 0\<rparr>)"

definition bpb_cfg_sbp_bnf_fwd :: "int \<Rightarrow> machine \<Rightarrow> machine" where
  "bpb_cfg_sbp_bnf_fwd val = upd_bpbc (\<lambda>c. c\<lparr>sbp_bnf_fwd := val \<noteq> 0\<rparr>)"

definition bpb_cfg_sbp_bf_fwd :: "int \<Rightarrow> machine \<Rightarrow> machine" where
  "bpb_cfg_sbp_bf_fwd val = upd_bpbc (\<lambda>c. c\<lparr>sbp_bf_fwd := val \<noteq> 0\<rparr>)"

definition bpb_cfg_missdelay :: "int \<Rightarrow> machine \<Rightarrow> machine" where
  "bpb_cfg_missdelay val = upd_bpbc (\<lambda>c. c\<lparr>bpb_missdelay := val\<rparr>)"

definition bpb_cfg_hitdelay :: "int \<Rightarrow> machine \<Rightarrow> machine" where
  "bpb_cfg_hitdelay val = upd_bpbc (\<lambda>c. c\<lparr>bpb_hitdelay := val\<rparr>)"

section \<open>What the buffers hold\<close>

named_theorems predict_simps "updates of the prediction buffers"

lemma upto_two: "[0..<2] = [0, 1 :: nat]"
  by (simp add: upt_rec)

lemma upd_bpb_simps [predict_simps]:
  "bpb (upd_bpb e w f m) = (bpb m)(e := (bpb m e)(w := f (bpb m e w)))"
  "st (upd_bpb e w f m) = st m" "conf (upd_bpb e w f m) = conf m"
  by (simp_all add: upd_bpb_def)

lemma upd_btic_simps [predict_simps]:
  "btic (upd_btic e w f m) = (btic m)(e := (btic m e)(w := f (btic m e w)))"
  "st (upd_btic e w f m) = st m" "conf (upd_btic e w f m) = conf m"
  by (simp_all add: upd_btic_def)

text \<open>A one bit predictor: an entry holds the address and the outcome of the last branch that used it.\<close>

definition bpb_ok :: "machine \<Rightarrow> bool" where
  "bpb_ok m \<longleftrightarrow> bpb_enabled (cfg_bpb (conf m)) \<and> (\<forall>e. bpb_taken (bpb m e 0) \<le> 1)"

definition bpb_holds :: "machine \<Rightarrow> nat \<Rightarrow> u32 \<times> bool" where
  "bpb_holds m e = (bpb_addr (bpb m e 0), bpb_taken (bpb m e 0) = 1)"

lemma bpb_update_simps:
  assumes "bpb_ok m"
  shows "bpb_ok (bpb_update a t m)"
    and "bpb_holds (bpb_update a t m) = (bpb_holds m)(bpb_entry a := (a, t))"
    and "bpb_hit (st (bpb_update a t m)) = bpb_hit (st m) + of_bool (fst (bpb_holds m (bpb_entry a)) = a)"
    and "bpb_miss (st (bpb_update a t m)) = bpb_miss (st m) + of_bool (fst (bpb_holds m (bpb_entry a)) \<noteq> a)"
    and "bpb_correct (st (bpb_update a t m)) = bpb_correct (st m) + of_bool (bpb_holds m (bpb_entry a) = (a, t))"
    and "bpb_incorrect (st (bpb_update a t m)) = bpb_incorrect (st m) + of_bool (bpb_holds m (bpb_entry a) = (a, \<not> t))"
proof -
  let ?e = "bpb_entry a"
  have "bpb_taken (bpb m ?e 0) = 0 \<or> bpb_taken (bpb m ?e 0) = 1"
    using assms by (auto simp: bpb_ok_def le_Suc_eq)
  then show "bpb_ok (bpb_update a t m)"
    and "bpb_holds (bpb_update a t m) = (bpb_holds m)(?e := (a, t))"
    and "bpb_hit (st (bpb_update a t m)) = bpb_hit (st m) + of_bool (fst (bpb_holds m ?e) = a)"
    and "bpb_miss (st (bpb_update a t m)) = bpb_miss (st m) + of_bool (fst (bpb_holds m ?e) \<noteq> a)"
    and "bpb_correct (st (bpb_update a t m)) = bpb_correct (st m) + of_bool (bpb_holds m ?e = (a, t))"
    and "bpb_incorrect (st (bpb_update a t m)) = bpb_incorrect (st m) + of_bool (bpb_holds m ?e = (a, \<not> t))"
    using assms
    by (auto simp: bpb_ok_def bpb_update_def Let_def bpb_find_def bpb_use_def bpb_holds_def predict_simps fun_eq_iff)
qed

text \<open>The targets of a set of the BTIC, the most recently used first.\<close>

definition btic_ok :: "machine \<Rightarrow> bool" where
  "btic_ok m \<longleftrightarrow> bpb_btic (cfg_bpb (conf m))
     \<and> (\<forall>e. btic_lru (btic m e 0) + btic_lru (btic m e 1) \<le> 1)"

definition btic_targets :: "machine \<Rightarrow> nat \<Rightarrow> u32 list" where
  "btic_targets m e = (if btic_lru (btic m e 1) = 1 then [btic_addr (btic m e 1), btic_addr (btic m e 0)]
                       else [btic_addr (btic m e 0), btic_addr (btic m e 1)])"

definition lru_use :: "'a \<Rightarrow> 'a list \<Rightarrow> 'a list" where
  "lru_use x xs = x # (if x \<in> set xs then remove1 x xs else butlast xs)"

lemma btic_update_simps:
  assumes "btic_ok m"
  shows "btic_ok (btic_update a m)"
    and "btic_targets (btic_update a m) = (btic_targets m)(btic_entry a := lru_use a (btic_targets m (btic_entry a)))"
    and "btic_hit (st (btic_update a m)) = btic_hit (st m) + of_bool (a \<in> set (btic_targets m (btic_entry a)))"
    and "btic_miss (st (btic_update a m)) = btic_miss (st m) + of_bool (a \<notin> set (btic_targets m (btic_entry a)))"
proof -
  let ?e = "btic_entry a"
  have "btic_lru (btic m ?e 0) + btic_lru (btic m ?e 1) \<le> 1" using assms unfolding btic_ok_def by blast
  then consider "btic_lru (btic m ?e 0) = 0" "btic_lru (btic m ?e 1) = 0"
    | "btic_lru (btic m ?e 0) = 1" "btic_lru (btic m ?e 1) = 0"
    | "btic_lru (btic m ?e 0) = 0" "btic_lru (btic m ?e 1) = 1"
    by linarith
  then have "btic_ok (btic_update a m) \<and>
      btic_targets (btic_update a m) = (btic_targets m)(?e := lru_use a (btic_targets m ?e)) \<and>
      btic_hit (st (btic_update a m)) = btic_hit (st m) + of_bool (a \<in> set (btic_targets m ?e)) \<and>
      btic_miss (st (btic_update a m)) = btic_miss (st m) + of_bool (a \<notin> set (btic_targets m ?e))"
    using assms
    by cases (auto simp: btic_ok_def btic_update_def Let_def btic_find_def btic_use_def btic_targets_def lru_use_def
        upto_two predict_simps fun_eq_iff)
  then show "btic_ok (btic_update a m)"
    and "btic_targets (btic_update a m) = (btic_targets m)(?e := lru_use a (btic_targets m ?e))"
    and "btic_hit (st (btic_update a m)) = btic_hit (st m) + of_bool (a \<in> set (btic_targets m ?e))"
    and "btic_miss (st (btic_update a m)) = btic_miss (st m) + of_bool (a \<notin> set (btic_targets m ?e))"
    by blast+
qed

section \<open>Buffers as reference tables\<close>

text \<open>
  A buffer that follows a reference table: each update moves the table by \<open>next\<close> and counts whether it
  \<open>scores\<close> (a hit, or a right prediction).
\<close>

fun score_run :: "('i \<Rightarrow> 'c \<Rightarrow> 'c) \<Rightarrow> ('i \<Rightarrow> 'c \<Rightarrow> bool) \<Rightarrow> 'i list \<Rightarrow> 'c \<Rightarrow> nat \<times> 'c" where
  "score_run nxt scores [] c = (0, c)"
| "score_run nxt scores (i # is) c =
     (case score_run nxt scores is (nxt i c) of (n, c') \<Rightarrow> (of_bool (scores i c) + n, c'))"

lemma snd_score_run: "snd (score_run nxt scores is c) = fold nxt is c"
  by (induction nxt scores "is" c rule: score_run.induct) (auto split: prod.splits)

locale table_buffer =
  fixes ok :: "'m \<Rightarrow> bool" and table :: "'m \<Rightarrow> 'c" and step :: "'i \<Rightarrow> 'm \<Rightarrow> 'm"
    and nxt :: "'i \<Rightarrow> 'c \<Rightarrow> 'c" and scores :: "'i \<Rightarrow> 'c \<Rightarrow> bool" and good bad :: "'m \<Rightarrow> nat"
  assumes ok_step: "ok m \<Longrightarrow> ok (step i m)"
    and table_step: "ok m \<Longrightarrow> table (step i m) = nxt i (table m)"
    and good_step: "ok m \<Longrightarrow> good (step i m) = good m + of_bool (scores i (table m))"
    and bad_step: "ok m \<Longrightarrow> bad (step i m) = bad m + of_bool (\<not> scores i (table m))"
begin

lemma run:
  "ok m \<Longrightarrow> ok (fold step is m)
     \<and> (good (fold step is m) - good m, table (fold step is m)) = score_run nxt scores is (table m)
     \<and> good m \<le> good (fold step is m)
     \<and> good (fold step is m) + bad (fold step is m) = good m + bad m + length is"
proof (induction "is" arbitrary: m)
  case (Cons i "is")
  from Cons.IH[OF ok_step[OF Cons.prems, of i]] Cons.prems show ?case
    by (cases "score_run nxt scores is (nxt i (table m))") (auto simp: table_step good_step bad_step)
qed simp

end

interpretation bpb: table_buffer bpb_ok bpb_holds "\<lambda>(a, t). bpb_update a t"
    "\<lambda>(a, t) c. c(bpb_entry a := (a, t))" "\<lambda>(a, t) c. fst (c (bpb_entry a)) = a"
    "\<lambda>m. bpb_hit (st m)" "\<lambda>m. bpb_miss (st m)"
  by unfold_locales (auto simp: bpb_update_simps)

interpretation btic: table_buffer btic_ok btic_targets btic_update
    "\<lambda>a c. c(btic_entry a := lru_use a (c (btic_entry a)))" "\<lambda>a c. a \<in> set (c (btic_entry a))"
    "\<lambda>m. btic_hit (st m)" "\<lambda>m. btic_miss (st m)"
  by unfold_locales (auto simp: btic_update_simps)

definition predict_machine :: machine where
  "predict_machine = (zero_machine 8)\<lparr>conf := zero_config\<lparr>cfg_bpb := (cfg_bpb zero_config)\<lparr>bpb_enabled := True, bpb_btic := True\<rparr>\<rparr>\<rparr>"

lemma predict_machine_ok: "bpb_ok predict_machine" "btic_ok predict_machine"
  by (simp_all add: predict_machine_def bpb_ok_def btic_ok_def zero_machine_def)

section \<open>Properties\<close>

text \<open> A trained entry of the branch prediction buffer is a one bit predictor: whatever branches of other
  entries run in between, the next execution of the same branch is a hit, and it counts as predicted right
  exactly when it goes the way it went the last time.\<close>

theorem bpb_predicts_last_outcome:
  fixes taken taken' :: bool
  assumes "bpb_ok m" and "\<forall>(b, _) \<in> set others. bpb_entry b \<noteq> bpb_entry a"
  defines "m1 \<equiv> fold (\<lambda>(b, t). bpb_update b t) others (bpb_update a taken m)"
  shows "bpb_hit (st (bpb_update a taken' m1)) = bpb_hit (st m1) + 1
    \<and> bpb_correct (st (bpb_update a taken' m1)) = bpb_correct (st m1) + of_bool (taken' = taken)
    \<and> bpb_incorrect (st (bpb_update a taken' m1)) = bpb_incorrect (st m1) + of_bool (taken' \<noteq> taken)"
proof -
  have keep: "fold (\<lambda>(a, t) c. c(bpb_entry a := (a, t))) os c (bpb_entry a) = c (bpb_entry a)"
    if "\<forall>(b, _) \<in> set os. bpb_entry b \<noteq> bpb_entry a" for os :: "(u32 \<times> bool) list" and c
    using that by (induction os arbitrary: c) auto
  note ok = bpb_update_simps(1)[OF assms(1), of a taken]
  have "bpb_ok m1" and "bpb_holds m1 = fold (\<lambda>(a, t) c. c(bpb_entry a := (a, t))) others (bpb_holds (bpb_update a taken m))"
    using bpb.run[OF ok, of others] by (auto simp: m1_def snd_score_run dest!: arg_cong[of _ _ snd])
  then have "bpb_ok m1" and "bpb_holds m1 (bpb_entry a) = (a, taken)"
    using keep[OF assms(2)] bpb_update_simps(2)[OF assms(1)] by simp_all
  then show ?thesis
    using assms(1) by (auto simp: bpb_update_simps)
qed

theorem bpb_predicts_last_outcome_witness:
  "let m1 = bpb_update 0x104 False (bpb_update 0x100 True predict_machine)
   in bpb_correct (st (bpb_update 0x100 True m1)) = bpb_correct (st m1) + 1"
  using bpb_predicts_last_outcome[OF predict_machine_ok(1), of "[(0x104, False)]" "0x100" True True]
  by (simp add: bpb_entry_def)

text \<open> C16: The branch target instruction cache is a cache of two ways with exact least-recently-used replacement:
  its contents and its hits are those of the reference cache that keeps, per set, the last two targets in the
  order of their use, and every target is counted as a hit or a miss.\<close>

theorem btic_is_lru_cache:
  assumes "btic_ok m"
  shows "(btic_hit (st (fold btic_update ts m)) - btic_hit (st m), btic_targets (fold btic_update ts m))
      = score_run (\<lambda>a c. c(btic_entry a := lru_use a (c (btic_entry a)))) (\<lambda>a c. a \<in> set (c (btic_entry a))) ts (btic_targets m)
    \<and> btic_hit (st (fold btic_update ts m)) + btic_miss (st (fold btic_update ts m))
      = btic_hit (st m) + btic_miss (st m) + length ts"
  using btic.run[OF assms, of ts] by simp

theorem btic_is_lru_cache_witness:
  "btic_hit (st (fold btic_update [0x100, 0x300, 0x100, 0x500, 0x300, 0x100] predict_machine)) = 1"
proof -
  have e: "btic_entry 0x100 = 0" "btic_entry 0x300 = 0" "btic_entry 0x500 = 0" by (simp_all add: btic_entry_def)
  have "btic_targets predict_machine 0 = [0, 0]" "btic_hit (st predict_machine) = 0"
    by (simp_all add: predict_machine_def btic_targets_def zero_machine_def zero_stats_def)
  then show ?thesis
    using btic_is_lru_cache[OF predict_machine_ok(2), of "[0x100, 0x300, 0x100, 0x500, 0x300, 0x100]"]
    by (simp add: e lru_use_def)
qed

end
