(* ===== verification/Sbuf.thy ===== *)
theory Sbuf
  imports Machine
begin

text \<open>
  The store buffer (\<open>sbuf_store\<close> and \<open>sbuf_load\<close> of \<open>cpu/or32/execute.c\<close>): a ring of the durations of the
  stores in flight, which drains while the simulated time passes. \<open>int\<close> variables wrap by \<open>i32\<close>.
\<close>

abbreviation (input) MAX_SBUF_LEN :: nat where "MAX_SBUF_LEN \<equiv> 256"

text \<open>
  The loop that takes out the stores that ended meanwhile. The count is never negative (\<open>sbuf_ok\<close> below), so
  \<open>sbuf_count\<close> as a truth value is \<open>0 < sbuf_count\<close>.
\<close>

function sbuf_drain :: "int \<Rightarrow> sbuf \<Rightarrow> int \<times> sbuf" where
  "sbuf_drain delta s =
     (if 0 < sbuf_count s \<and> sbuf_buf s (sbuf_tail s) \<le> delta
      then sbuf_drain (i32 (delta - sbuf_buf s (sbuf_tail s)))
             (s\<lparr>sbuf_tail := (sbuf_tail s + 1) mod MAX_SBUF_LEN, sbuf_count := sbuf_count s - 1\<rparr>)
      else (delta, s))"
  by pat_completeness auto
termination by (relation "measure (\<lambda>(delta, s). nat (sbuf_count s))") auto

declare sbuf_drain.simps [simp del]

definition sbuf_elapse :: "int \<Rightarrow> sbuf \<Rightarrow> sbuf" where
  "sbuf_elapse delta s =
     (case sbuf_drain delta s of (delta, s) \<Rightarrow>
        if sbuf_count s \<noteq> 0
        then s\<lparr>sbuf_buf := (sbuf_buf s)(sbuf_tail s := i32 (sbuf_buf s (sbuf_tail s) - delta))\<rparr>
        else s)"

text \<open>\<open>int delta = runtime.sim.cycles - sbuf_prev_cycles\<close>, and the new \<open>sbuf_prev_cycles\<close>.\<close>

definition sbuf_delta :: "machine \<Rightarrow> int" where
  "sbuf_delta m = i32 (sint (cycles (rt m)) - sbuf_prev_cycles (sb m))"

text \<open>Wait for the oldest store: returns the cycles it takes.\<close>

definition sbuf_wait :: "machine \<Rightarrow> machine" where
  "sbuf_wait m =
     (let s = sb m; c = sbuf_buf s (sbuf_tail s)
      in add_mem_cycles (word_of_int c)
           (m\<lparr>sb := s\<lparr>sbuf_wait_cyc := i32 (sbuf_wait_cyc s + c), sbuf_prev_cycles := i32 (sbuf_prev_cycles s + c),
                      sbuf_tail := (sbuf_tail s + 1) mod MAX_SBUF_LEN, sbuf_count := sbuf_count s - 1\<rparr>\<rparr>))"

definition sbuf_put :: "int \<Rightarrow> sbuf \<Rightarrow> sbuf" where
  "sbuf_put cyc s =
     s\<lparr>sbuf_buf := (sbuf_buf s)(sbuf_head s := cyc), sbuf_head := (sbuf_head s + 1) mod MAX_SBUF_LEN,
       sbuf_count := sbuf_count s + 1\<rparr>"

definition sbuf_store :: "int \<Rightarrow> machine \<Rightarrow> machine" where
  "sbuf_store cyc m =
     (let delta = sbuf_delta m;
          s = (sb m)\<lparr>sbuf_total_cyc := i32 (sbuf_total_cyc (sb m) + cyc), sbuf_prev_cycles := i32 (sint (cycles (rt m)))\<rparr>;
          m = m\<lparr>sb := sbuf_elapse delta s\<rparr>;
          m = (if cfg_sbuf_len (conf m) \<le> sbuf_count (sb m) then sbuf_wait m else m)
      in m\<lparr>sb := sbuf_put cyc (sb m)\<rparr>)"

function sbuf_wait_all :: "machine \<Rightarrow> machine" where
  "sbuf_wait_all m = (if 0 < sbuf_count (sb m) then sbuf_wait_all (sbuf_wait m) else m)"
  by pat_completeness auto
termination
  by (relation "measure (\<lambda>m. nat (sbuf_count (sb m)))") (auto simp: sbuf_wait_def Let_def add_mem_cycles_def)

declare sbuf_wait_all.simps [simp del]

definition sbuf_load :: "machine \<Rightarrow> machine" where
  "sbuf_load m =
     (let delta = sbuf_delta m;
          s = (sb m)\<lparr>sbuf_prev_cycles := i32 (sint (cycles (rt m)))\<rparr>
      in sbuf_wait_all (m\<lparr>sb := sbuf_elapse delta s\<rparr>))"

section \<open>The ring is a queue\<close>

text \<open>The durations in the buffer, the oldest first.\<close>

definition sbuf_items :: "sbuf \<Rightarrow> int list" where
  "sbuf_items s = map (\<lambda>k. sbuf_buf s ((sbuf_tail s + k) mod MAX_SBUF_LEN)) [0..<nat (sbuf_count s)]"

definition sbuf_ok :: "sbuf \<Rightarrow> bool" where
  "sbuf_ok s \<longleftrightarrow> sbuf_tail s < MAX_SBUF_LEN \<and> 0 \<le> sbuf_count s \<and> sbuf_count s < int MAX_SBUF_LEN
     \<and> sbuf_head s = (sbuf_tail s + nat (sbuf_count s)) mod MAX_SBUF_LEN"

text \<open>The two updates of the ring the code is made of.\<close>

definition sbuf_pop :: "sbuf \<Rightarrow> sbuf" where
  "sbuf_pop s = s\<lparr>sbuf_tail := (sbuf_tail s + 1) mod MAX_SBUF_LEN, sbuf_count := sbuf_count s - 1\<rparr>"

definition sbuf_set_oldest :: "int \<Rightarrow> sbuf \<Rightarrow> sbuf" where
  "sbuf_set_oldest x s = s\<lparr>sbuf_buf := (sbuf_buf s)(sbuf_tail s := x)\<rparr>"

lemma length_sbuf_items [simp]: "length (sbuf_items s) = nat (sbuf_count s)"
  by (simp add: sbuf_items_def)

lemma nth_sbuf_items: "k < nat (sbuf_count s) \<Longrightarrow> sbuf_items s ! k = sbuf_buf s ((sbuf_tail s + k) mod MAX_SBUF_LEN)"
  by (simp add: sbuf_items_def)

text \<open>The contract of a queue with an adjustable oldest element, and what its clients get from it.\<close>

locale fifo =
  fixes ok :: "'s \<Rightarrow> bool" and items :: "'s \<Rightarrow> 'a list"
    and pop :: "'s \<Rightarrow> 's" and put :: "'a \<Rightarrow> 's \<Rightarrow> 's" and set_oldest :: "'a \<Rightarrow> 's \<Rightarrow> 's" and room :: nat
  assumes pop: "ok s \<Longrightarrow> items s = x # xs \<Longrightarrow> ok (pop s) \<and> items (pop s) = xs"
    and put: "ok s \<Longrightarrow> length (items s) < room \<Longrightarrow> ok (put x s) \<and> items (put x s) = items s @ [x]"
    and oldest: "ok s \<Longrightarrow> items s = x # xs \<Longrightarrow> ok (set_oldest y s) \<and> items (set_oldest y s) = y # xs"
begin

lemma pop_all:
  "ok s \<Longrightarrow> length (items s) = n \<Longrightarrow> ok ((pop ^^ n) s) \<and> items ((pop ^^ n) s) = []"
proof (induction n arbitrary: s)
  case (Suc n)
  then obtain x xs where "items s = x # xs" by (cases "items s") auto
  with Suc pop[of s x xs] show ?case by (simp add: funpow_swap1)
qed simp

lemma put_pop:
  assumes "ok s" and "items s = x # xs" and "length xs < room"
  shows "ok (put y (pop s)) \<and> items (put y (pop s)) = xs @ [y]"
  using assms put[of "pop s" y] pop[of s x xs] by simp

end

lemma sbuf_itemsD: "sbuf_items s = x # xs \<Longrightarrow> 0 < sbuf_count s \<and> length xs = nat (sbuf_count s) - 1"
  using length_sbuf_items[of s] by (cases "nat (sbuf_count s)") auto

lemma sbuf_items_cons:
  assumes "sbuf_ok s" and "0 < sbuf_count s"
  shows "sbuf_items s = sbuf_buf s (sbuf_tail s) # sbuf_items (sbuf_pop s)"
proof -
  have n: "nat (sbuf_count s) = Suc (nat (sbuf_count s - 1))" using assms by simp
  have "sbuf_tail s mod 256 = sbuf_tail s" using assms by (simp add: sbuf_ok_def)
  moreover have "(Suc (sbuf_tail s) mod 256 + k) mod 256 = (sbuf_tail s + Suc k) mod 256" for k
    by (simp add: mod_add_left_eq)
  ultimately show ?thesis
    by (simp add: sbuf_items_def n sbuf_pop_def map_upt_Suc del: upt_Suc)
qed

interpretation ring: fifo sbuf_ok sbuf_items sbuf_pop sbuf_put sbuf_set_oldest 255
proof unfold_locales
  fix s x xs
  assume ok: "sbuf_ok s" and i: "sbuf_items s = x # xs"
  from i have c: "0 < sbuf_count s" using sbuf_itemsD by blast
  then have n: "nat (sbuf_count s) = Suc (nat (sbuf_count s - 1))" by simp
  have "(Suc (sbuf_tail s) mod 256 + nat (sbuf_count s - 1)) mod 256 = (sbuf_tail s + nat (sbuf_count s)) mod 256"
    by (simp add: n mod_add_left_eq)
  then have "sbuf_ok (sbuf_pop s)"
    using ok c by (simp add: sbuf_ok_def sbuf_pop_def)
  then show "sbuf_ok (sbuf_pop s) \<and> sbuf_items (sbuf_pop s) = xs"
    using i sbuf_items_cons[OF ok c] by simp
next
  fix s x
  assume ok: "sbuf_ok s" and l: "length (sbuf_items s) < 255"
  have n: "nat (sbuf_count s + 1) = Suc (nat (sbuf_count s))" using ok by (auto simp: sbuf_ok_def)
  have h: "sbuf_head s = (sbuf_tail s + nat (sbuf_count s)) mod 256" using ok by (simp add: sbuf_ok_def)
  have "sbuf_ok (sbuf_put x s)"
    using ok l by (simp add: sbuf_ok_def sbuf_put_def n mod_Suc_eq)
  moreover have "sbuf_items (sbuf_put x s) = sbuf_items s @ [x]"
  proof (rule nth_equalityI)
    show "length (sbuf_items (sbuf_put x s)) = length (sbuf_items s @ [x])"
      using n by (simp add: sbuf_put_def)
    fix k assume "k < length (sbuf_items (sbuf_put x s))"
    then have k: "k \<le> nat (sbuf_count s)" using n by (simp add: sbuf_put_def)
    have "(sbuf_tail s + k) mod 256 \<noteq> sbuf_head s" if "k < nat (sbuf_count s)"
    proof
      assume "(sbuf_tail s + k) mod 256 = sbuf_head s"
      then have "(sbuf_tail s + k) mod 256 = (sbuf_tail s + nat (sbuf_count s)) mod 256" using h by simp
      then have "k mod 256 = nat (sbuf_count s) mod 256" by (simp add: nat_mod_eq_iff)
      then show False using that l by simp
    qed
    then show "sbuf_items (sbuf_put x s) ! k = (sbuf_items s @ [x]) ! k"
      using k h n
      by (cases "k = nat (sbuf_count s)")
         (auto simp: sbuf_put_def nth_append nth_sbuf_items sbuf_items_def simp del: upt_Suc)
  qed
  ultimately show "sbuf_ok (sbuf_put x s) \<and> sbuf_items (sbuf_put x s) = sbuf_items s @ [x]" by simp
next
  fix s x y xs
  assume ok: "sbuf_ok s" and i: "sbuf_items s = x # xs"
  from i have c: "0 < sbuf_count s" using sbuf_itemsD by blast
  have t: "sbuf_tail s < 256" and m: "sbuf_count s < 256" using ok by (simp_all add: sbuf_ok_def)
  have ok': "sbuf_ok (sbuf_set_oldest y s)" using ok by (simp add: sbuf_ok_def sbuf_set_oldest_def)
  have "sbuf_items (sbuf_pop (sbuf_set_oldest y s)) = sbuf_items (sbuf_pop s)"
  proof -
    have "(Suc (sbuf_tail s) mod 256 + k) mod 256 \<noteq> sbuf_tail s" if "k < nat (sbuf_count s - 1)" for k
    proof -
      have "k < 255" using that m by linarith
      moreover have "(Suc (sbuf_tail s) mod 256 + k) mod 256 = (sbuf_tail s + Suc k) mod 256"
        by (simp add: mod_add_left_eq)
      moreover have "(sbuf_tail s + Suc k) mod 256 \<noteq> sbuf_tail s" if "k < 255"
        using t that by (cases "sbuf_tail s + Suc k < 256") (simp_all add: le_mod_geq)
      ultimately show ?thesis by simp
    qed
    then show ?thesis by (auto simp: sbuf_items_def sbuf_pop_def sbuf_set_oldest_def)
  qed
  then show "sbuf_ok (sbuf_set_oldest y s) \<and> sbuf_items (sbuf_set_oldest y s) = y # xs"
    using ok' c i sbuf_items_cons[OF ok c] sbuf_items_cons[OF ok'] by (simp add: sbuf_set_oldest_def)
qed

section \<open>Stores and loads\<close>

text \<open>What \<open>d\<close> cycles leave of a queue of durations.\<close>

fun settle :: "int \<Rightarrow> int list \<Rightarrow> int list" where
  "settle d [] = []"
| "settle d (x # xs) = (if x \<le> d then settle (d - x) xs else (x - d) # xs)"

definition durations :: "int list \<Rightarrow> bool" where
  "durations xs \<longleftrightarrow> (\<forall>x \<in> set xs. 0 \<le> x \<and> x < 2 ^ 30)"

lemma length_settle: "length (settle d xs) \<le> length xs"
  by (induction d xs rule: settle.induct) auto

lemma sbuf_pop_frame [simp]:
  "sbuf_prev_cycles (sbuf_pop s) = sbuf_prev_cycles s" "sbuf_wait_cyc (sbuf_pop s) = sbuf_wait_cyc s"
  "sbuf_total_cyc (sbuf_pop s) = sbuf_total_cyc s" "sbuf_count (sbuf_pop s) = sbuf_count s - 1"
  by (simp_all add: sbuf_pop_def)

lemma sbuf_drain_pop:
  "sbuf_drain delta s = (if 0 < sbuf_count s \<and> sbuf_buf s (sbuf_tail s) \<le> delta
      then sbuf_drain (i32 (delta - sbuf_buf s (sbuf_tail s))) (sbuf_pop s) else (delta, s))"
  by (subst sbuf_drain.simps) (simp add: sbuf_pop_def)

lemma sbuf_ok_items_Nil: "sbuf_ok s \<Longrightarrow> sbuf_items s = [] \<longleftrightarrow> sbuf_count s = 0"
  by (auto simp: sbuf_ok_def sbuf_items_def)

lemma sbuf_elapse_ok:
  assumes "sbuf_ok s"
  shows "sbuf_ok (sbuf_elapse delta s) \<and> sbuf_count (sbuf_elapse delta s) \<le> sbuf_count s"
  using assms
proof (induction delta s rule: sbuf_drain.induct)
  case (1 delta s)
  show ?case
  proof (cases "0 < sbuf_count s \<and> sbuf_buf s (sbuf_tail s) \<le> delta")
    case True
    with 1(2) have "sbuf_ok (sbuf_pop s)" using ring.pop sbuf_items_cons by blast
    with True 1 show ?thesis
      by (subst (1 2) sbuf_elapse_def, subst (1 2) sbuf_drain_pop) (force simp: sbuf_elapse_def sbuf_pop_def)
  next
    case False
    with 1(2) show ?thesis
      by (simp add: sbuf_elapse_def sbuf_drain_pop[of delta s] sbuf_ok_def)
  qed
qed

lemma sbuf_elapse_settle:
  assumes "sbuf_ok s" and "durations (sbuf_items s)" and "- (2 ^ 30) \<le> delta" and "delta < 2 ^ 31"
  shows "sbuf_items (sbuf_elapse delta s) = settle delta (sbuf_items s)"
  using assms
proof (induction delta s rule: sbuf_drain.induct)
  case (1 delta s)
  show ?case
  proof (cases "0 < sbuf_count s")
    case pos: True
    note c = sbuf_items_cons[OF 1(2) pos]
    have b: "0 \<le> sbuf_buf s (sbuf_tail s)" "sbuf_buf s (sbuf_tail s) < 2 ^ 30"
      using 1(3) c by (auto simp: durations_def)
    show ?thesis
    proof (cases "sbuf_buf s (sbuf_tail s) \<le> delta")
      case True
      with b 1(5) have i: "i32 (delta - sbuf_buf s (sbuf_tail s)) = delta - sbuf_buf s (sbuf_tail s)" by simp
      have "sbuf_ok (sbuf_pop s)" using ring.pop[OF 1(2) c] by simp
      moreover have "durations (sbuf_items (sbuf_pop s))" using 1(3) c by (auto simp: durations_def)
      ultimately have "sbuf_items (sbuf_elapse (delta - sbuf_buf s (sbuf_tail s)) (sbuf_pop s))
          = settle (delta - sbuf_buf s (sbuf_tail s)) (sbuf_items (sbuf_pop s))"
        using 1(1) pos True b 1(5) i by (simp add: sbuf_pop_def)
      then show ?thesis
        using True pos c i by (simp add: sbuf_elapse_def sbuf_drain_pop[of delta s])
    next
      case False
      with b 1(4) have i: "i32 (sbuf_buf s (sbuf_tail s) - delta) = sbuf_buf s (sbuf_tail s) - delta" by simp
      show ?thesis
        using False pos i c ring.oldest[OF 1(2) c, of "sbuf_buf s (sbuf_tail s) - delta"]
        by (simp add: sbuf_elapse_def sbuf_drain_pop[of delta s] sbuf_set_oldest_def)
    qed
  next
    case False
    with 1(2) have "sbuf_items s = []" by (simp add: sbuf_items_def)
    with False 1(2) show ?thesis
      by (simp add: sbuf_elapse_def sbuf_drain_pop[of delta s] sbuf_ok_def)
  qed
qed

lemma sbuf_drain_frame:
  "sbuf_prev_cycles (snd (sbuf_drain delta s)) = sbuf_prev_cycles s \<and>
   sbuf_wait_cyc (snd (sbuf_drain delta s)) = sbuf_wait_cyc s"
proof (induction delta s rule: sbuf_drain.induct)
  case (1 delta s)
  then show ?case by (subst (1 2) sbuf_drain.simps) auto
qed

lemma sbuf_elapse_frame:
  "sbuf_prev_cycles (sbuf_elapse delta s) = sbuf_prev_cycles s"
  "sbuf_wait_cyc (sbuf_elapse delta s) = sbuf_wait_cyc s"
  using sbuf_drain_frame[of delta s] by (auto simp: sbuf_elapse_def split: prod.splits)

lemma sbuf_drain_stat:
  "sbuf_drain delta (s\<lparr>sbuf_total_cyc := a\<rparr>) = map_prod id (sbuf_total_cyc_update (\<lambda>_. a)) (sbuf_drain delta s)"
  "sbuf_drain delta (s\<lparr>sbuf_prev_cycles := a\<rparr>) = map_prod id (sbuf_prev_cycles_update (\<lambda>_. a)) (sbuf_drain delta s)"
proof (induction delta s rule: sbuf_drain.induct)
  case (1 delta s)
  note ih = this
  {
    case 1
    show ?case using ih(1) by (subst (1 2) sbuf_drain.simps) (cases s, auto simp: id_def)
  next
    case 2
    show ?case using ih(2) by (subst (1 2) sbuf_drain.simps) (cases s, auto simp: id_def)
  }
qed

lemma sbuf_elapse_stat [simp]:
  "sbuf_items (sbuf_elapse delta (s\<lparr>sbuf_total_cyc := a\<rparr>)) = sbuf_items (sbuf_elapse delta s)"
  "sbuf_items (sbuf_elapse delta (s\<lparr>sbuf_prev_cycles := a\<rparr>)) = sbuf_items (sbuf_elapse delta s)"
  by (cases "sbuf_drain delta s"; simp add: sbuf_elapse_def sbuf_drain_stat sbuf_items_def)+

section \<open>The steps on the machine\<close>

lemma sbuf_wait_sb:
  "sb (sbuf_wait m) = (let c = sbuf_buf (sb m) (sbuf_tail (sb m)) in
     (sbuf_pop (sb m))\<lparr>sbuf_wait_cyc := i32 (sbuf_wait_cyc (sb m) + c),
                       sbuf_prev_cycles := i32 (sbuf_prev_cycles (sb m) + c)\<rparr>)"
  by (simp add: sbuf_wait_def Let_def sbuf_pop_def)

lemma mem_cycles_add [simp]: "mem_cycles (rt (add_mem_cycles d m)) = mem_cycles (rt m) + d"
  by (simp add: add_mem_cycles_def)

lemma sbuf_wait_conf [simp]: "conf (sbuf_wait m) = conf m"
  by (simp add: sbuf_wait_def Let_def)

lemma sbuf_stat_update [simp]:
  "sbuf_items (s\<lparr>sbuf_wait_cyc := a\<rparr>) = sbuf_items s" "sbuf_ok (s\<lparr>sbuf_wait_cyc := a\<rparr>) = sbuf_ok s"
  "sbuf_items (s\<lparr>sbuf_prev_cycles := a\<rparr>) = sbuf_items s" "sbuf_ok (s\<lparr>sbuf_prev_cycles := a\<rparr>) = sbuf_ok s"
  "sbuf_items (s\<lparr>sbuf_total_cyc := a\<rparr>) = sbuf_items s" "sbuf_ok (s\<lparr>sbuf_total_cyc := a\<rparr>) = sbuf_ok s"
  by (simp_all add: sbuf_items_def sbuf_ok_def)

lemma sbuf_wait_items:
  assumes "sbuf_ok (sb m)" and "sbuf_items (sb m) = x # xs"
  shows "sbuf_ok (sb (sbuf_wait m)) \<and> sbuf_items (sb (sbuf_wait m)) = xs
    \<and> mem_cycles (rt (sbuf_wait m)) = mem_cycles (rt m) + word_of_int x"
proof -
  have "0 < sbuf_count (sb m)" using assms sbuf_itemsD by blast
  with assms have "x = sbuf_buf (sb m) (sbuf_tail (sb m))" by (simp add: sbuf_items_cons)
  then show ?thesis
    using ring.pop[OF assms] by (simp add: sbuf_wait_sb Let_def) (simp add: sbuf_wait_def Let_def)
qed

lemma sbuf_wait_all_items:
  assumes "sbuf_ok (sb m)"
  shows "sbuf_ok (sb (sbuf_wait_all m)) \<and> sbuf_items (sb (sbuf_wait_all m)) = []
    \<and> mem_cycles (rt (sbuf_wait_all m)) = mem_cycles (rt m) + word_of_int (sum_list (sbuf_items (sb m)))
    \<and> conf (sbuf_wait_all m) = conf m"
  using assms
proof (induction m rule: sbuf_wait_all.induct)
  case (1 m)
  show ?case
  proof (cases "sbuf_items (sb m)")
    case Nil
    with 1(2) have "sbuf_count (sb m) = 0" by (simp add: sbuf_ok_items_Nil)
    with Nil 1(2) show ?thesis by (subst (1 2 3 4) sbuf_wait_all.simps) simp
  next
    case (Cons x xs)
    then have "0 < sbuf_count (sb m)" using sbuf_itemsD by blast
    with 1 Cons sbuf_wait_items[OF 1(2) Cons] show ?thesis
      by (subst (1 2 3 4) sbuf_wait_all.simps) simp
  qed
qed

definition sbuf_inv :: "machine \<Rightarrow> bool" where
  "sbuf_inv m \<longleftrightarrow> sbuf_ok (sb m) \<and> sbuf_count (sb m) \<le> cfg_sbuf_len (conf m)
     \<and> 0 < cfg_sbuf_len (conf m) \<and> cfg_sbuf_len (conf m) < int MAX_SBUF_LEN"

lemma sbuf_store_ring:
  assumes "sbuf_inv m"
  defines "q \<equiv> sbuf_items (sbuf_elapse (sbuf_delta m) (sb m))"
  shows "sbuf_inv (sbuf_store cyc m) \<and> conf (sbuf_store cyc m) = conf m
    \<and> sbuf_items (sb (sbuf_store cyc m)) =
        (if cfg_sbuf_len (conf m) \<le> int (length q) then tl q else q) @ [cyc]
    \<and> mem_cycles (rt (sbuf_store cyc m)) =
        mem_cycles (rt m) + (if cfg_sbuf_len (conf m) \<le> int (length q) then word_of_int (hd q) else 0)"
proof -
  let ?s = "(sb m)\<lparr>sbuf_total_cyc := i32 (sbuf_total_cyc (sb m) + cyc), sbuf_prev_cycles := i32 (sint (cycles (rt m)))\<rparr>"
  let ?e = "sbuf_elapse (sbuf_delta m) ?s"
  let ?m = "m\<lparr>sb := ?e\<rparr>"
  have len: "0 < cfg_sbuf_len (conf m)" "cfg_sbuf_len (conf m) < 256" using assms by (simp_all add: sbuf_inv_def)
  have e: "sbuf_ok ?e" "sbuf_count ?e \<le> cfg_sbuf_len (conf m)"
    using sbuf_elapse_ok[of ?s "sbuf_delta m"] assms by (auto simp: sbuf_inv_def)
  have q: "sbuf_items ?e = q" by (simp add: q_def)
  have n: "int (length q) = sbuf_count ?e" using e q length_sbuf_items[of ?e] by (simp add: sbuf_ok_def)
  show ?thesis
  proof (cases "cfg_sbuf_len (conf m) \<le> sbuf_count ?e")
    case True
    with len n obtain x xs where x: "q = x # xs" by (cases q) auto
    have w: "sbuf_ok (sb (sbuf_wait ?m))" "sbuf_items (sb (sbuf_wait ?m)) = xs"
      "mem_cycles (rt (sbuf_wait ?m)) = mem_cycles (rt m) + word_of_int x"
      using sbuf_wait_items[of ?m x xs] e(1) q x by simp_all
    have st: "sbuf_store cyc m = (sbuf_wait ?m)\<lparr>sb := sbuf_put cyc (sb (sbuf_wait ?m))\<rparr>"
      using True by (simp add: sbuf_store_def Let_def)
    have "length xs < 255" using n x e(2) len by simp
    with w ring.put[of "sb (sbuf_wait ?m)" cyc]
    have p: "sbuf_ok (sb (sbuf_store cyc m))" "sbuf_items (sb (sbuf_store cyc m)) = xs @ [cyc]"
      by (simp_all add: st)
    then have "sbuf_count (sb (sbuf_store cyc m)) = int (length xs) + 1"
      using length_sbuf_items[of "sb (sbuf_store cyc m)"] by (simp add: sbuf_ok_def)
    with p w(3) show ?thesis
      using True len n e(2) x by (simp add: sbuf_inv_def) (simp add: st)
  next
    case False
    have st: "sbuf_store cyc m = ?m\<lparr>sb := sbuf_put cyc ?e\<rparr>"
      using False by (simp add: sbuf_store_def Let_def)
    have "length q < 255" using n False len by simp
    with e(1) q ring.put[of ?e cyc]
    have p: "sbuf_ok (sb (sbuf_store cyc m))" "sbuf_items (sb (sbuf_store cyc m)) = q @ [cyc]"
      by (simp_all add: st)
    then have "sbuf_count (sb (sbuf_store cyc m)) = int (length q) + 1"
      using length_sbuf_items[of "sb (sbuf_store cyc m)"] by (simp add: sbuf_ok_def)
    with p show ?thesis
      using False len n by (simp add: sbuf_inv_def) (simp add: st)
  qed
qed

lemma sbuf_load_ring:
  assumes "sbuf_inv m"
  shows "sbuf_inv (sbuf_load m) \<and> conf (sbuf_load m) = conf m \<and> sbuf_items (sb (sbuf_load m)) = []
    \<and> mem_cycles (rt (sbuf_load m)) =
        mem_cycles (rt m) + word_of_int (sum_list (sbuf_items (sbuf_elapse (sbuf_delta m) (sb m))))"
proof -
  let ?s = "(sb m)\<lparr>sbuf_prev_cycles := i32 (sint (cycles (rt m)))\<rparr>"
  have "sbuf_ok (sbuf_elapse (sbuf_delta m) ?s)"
    using sbuf_elapse_ok[of ?s] assms by (simp add: sbuf_inv_def)
  from sbuf_wait_all_items[of "m\<lparr>sb := sbuf_elapse (sbuf_delta m) ?s\<rparr>"] this
  have "sbuf_ok (sb (sbuf_load m)) \<and> conf (sbuf_load m) = conf m \<and> sbuf_items (sb (sbuf_load m)) = []
    \<and> mem_cycles (rt (sbuf_load m)) =
        mem_cycles (rt m) + word_of_int (sum_list (sbuf_items (sbuf_elapse (sbuf_delta m) (sb m))))"
    by (simp add: sbuf_load_def Let_def)
  moreover from this have "sbuf_count (sb (sbuf_load m)) = 0" using sbuf_ok_items_Nil by blast
  ultimately show ?thesis using assms by (simp add: sbuf_inv_def)
qed

section \<open>Properties\<close>

text \<open>A load or a store executed at a given cycle.\<close>

datatype sbuf_op = Load u64 | Store u64 int

fun sbuf_step :: "sbuf_op \<Rightarrow> machine \<Rightarrow> machine" where
  "sbuf_step (Load c) m = sbuf_load (m\<lparr>rt := (rt m)\<lparr>cycles := c\<rparr>\<rparr>)"
| "sbuf_step (Store c d) m = sbuf_store d (m\<lparr>rt := (rt m)\<lparr>cycles := c\<rparr>\<rparr>)"

lemma sbuf_step_inv:
  assumes "sbuf_inv m"
  shows "sbuf_inv (sbuf_step a m) \<and> conf (sbuf_step a m) = conf m"
proof -
  have "sbuf_inv (m\<lparr>rt := (rt m)\<lparr>cycles := c\<rparr>\<rparr>)" for c using assms by (simp add: sbuf_inv_def)
  from sbuf_load_ring[OF this] sbuf_store_ring[OF this] show ?thesis by (cases a) simp_all
qed

lemma sbuf_steps_inv: "sbuf_inv m \<Longrightarrow> sbuf_inv (fold sbuf_step os m) \<and> conf (fold sbuf_step os m) = conf m"
  by (induction os arbitrary: m) (auto simp: sbuf_step_inv)

definition sbuf_machine :: machine where
  "sbuf_machine = (zero_machine 8)\<lparr>conf := zero_config\<lparr>cfg_sbuf_len := 2\<rparr>, rt := zero_runtime\<lparr>cycles := 5\<rparr>,
     sb := \<lparr>sbuf_head = 1, sbuf_tail = 255, sbuf_count = 2, sbuf_buf = (\<lambda>_. 0)(255 := 10, 0 := 4),
            sbuf_prev_cycles = 3, sbuf_wait_cyc = 0, sbuf_total_cyc = 14\<rparr>\<rparr>"

lemma sbuf_machine_inv: "sbuf_inv sbuf_machine"
  by (simp add: sbuf_inv_def sbuf_ok_def sbuf_machine_def zero_machine_def)

text \<open> Whatever loads and stores run at whatever cycles, with whatever durations, the indices of the store
  buffer stay inside its array of 256 entries and it never holds more stores than \<open>sbuf_len\<close>.\<close>

theorem sbuf_stays_in_bounds:
  assumes "sbuf_inv m"
  shows "let s = sb (fold sbuf_step os m) in
           sbuf_head s < 256 \<and> sbuf_tail s < 256 \<and> 0 \<le> sbuf_count s \<and> sbuf_count s \<le> cfg_sbuf_len (conf m)"
  using sbuf_steps_inv[OF assms, of os] by (auto simp: sbuf_inv_def sbuf_ok_def Let_def)

theorem sbuf_stays_in_bounds_witness:
  "let s = sb (fold sbuf_step [Store 5 10, Store 6 10, Store 7 10, Load 8] sbuf_machine)
   in sbuf_head s < 256 \<and> sbuf_tail s < 256 \<and> 0 \<le> sbuf_count s \<and> sbuf_count s \<le> 2"
  using sbuf_stays_in_bounds[OF sbuf_machine_inv, of "[Store 5 10, Store 6 10, Store 7 10, Load 8]"]
  by (simp add: sbuf_machine_def)

text \<open> C15: The ring of the store buffer implements a queue of durations: a store first takes out what the
  elapsed cycles completed, waits for the oldest store when the buffer is full, and queues its own duration;
  a load ends with the buffer empty after waiting for the sum of what is left.\<close>

theorem sbuf_implements_queue:
  assumes "sbuf_inv m" and "durations (sbuf_items (sb m))" and "- (2 ^ 30) \<le> sbuf_delta m"
  defines "q \<equiv> settle (sbuf_delta m) (sbuf_items (sb m))"
  shows "sbuf_items (sb (sbuf_store cyc m)) = (if cfg_sbuf_len (conf m) \<le> int (length q) then tl q else q) @ [cyc]
    \<and> mem_cycles (rt (sbuf_store cyc m)) =
        mem_cycles (rt m) + (if cfg_sbuf_len (conf m) \<le> int (length q) then word_of_int (hd q) else 0)
    \<and> sbuf_items (sb (sbuf_load m)) = []
    \<and> mem_cycles (rt (sbuf_load m)) = mem_cycles (rt m) + word_of_int (sum_list q)"
proof -
  have "sbuf_delta m < 2 ^ 31" using i32_range by (simp add: sbuf_delta_def order_le_less_trans[OF conjunct2[OF i32_range]])
  then have "sbuf_items (sbuf_elapse (sbuf_delta m) (sb m)) = q"
    using assms sbuf_elapse_settle[of "sb m" "sbuf_delta m"] by (simp add: sbuf_inv_def)
  then show ?thesis using sbuf_store_ring[OF assms(1), of cyc] sbuf_load_ring[OF assms(1)] by simp
qed

theorem sbuf_implements_queue_witness:
  "sbuf_items (sb (sbuf_store 9 sbuf_machine)) = [4, 9] \<and> mem_cycles (rt (sbuf_store 9 sbuf_machine)) = 8
   \<and> sbuf_items (sb (sbuf_load sbuf_machine)) = [] \<and> mem_cycles (rt (sbuf_load sbuf_machine)) = 12"
proof -
  have "sbuf_items (sb sbuf_machine) = [10, 4]" by (simp add: sbuf_items_def sbuf_machine_def upt_rec)
  moreover have "sbuf_delta sbuf_machine = 2" by (simp add: sbuf_delta_def sbuf_machine_def)
  moreover have "mem_cycles (rt sbuf_machine) = 0" "cfg_sbuf_len (conf sbuf_machine) = 2"
    by (simp_all add: sbuf_machine_def zero_runtime_def)
  ultimately show ?thesis
    using sbuf_implements_queue[OF sbuf_machine_inv, of 9] by (simp add: durations_def)
qed

end
