(* ===== verification/Insn.thy ===== *)
theory Insn
  imports Sprs Predict Sbuf "HOL-Library.Signed_Division"
begin

text \<open>
  The instructions (\<open>cpu/or32/insnset.c\<close>), one definition per \<open>INSTRUCTION\<close>. \<open>PARAM0\<close> to \<open>PARAM2\<close> and
  \<open>SET_PARAM0\<close> are the macros \<open>cpu/or32/generate.c\<close> writes around each body: a parameter is a register or
  a value. Sums and products of \<open>int\<close>s wrap; a shift by 32 or more and a division that traps are
  \<open>Host_undef\<close>. Output (\<open>printf\<close>, the profiler, the memory dump of \<open>l_j\<close>) is left out, as is the statistics
  counter \<open>byteadd\<close>. The floating point functions of the SoftFloat library and \<open>random ()\<close> are parameters.
\<close>

section \<open>Parameters\<close>

record operand =
  op_value :: u32
  op_is_reg :: bool

definition param :: "nat \<Rightarrow> operand list \<Rightarrow> machine \<Rightarrow> u32" where
  "param k ps m = (if op_is_reg (ps ! k) then reg (cpu m) (unat (op_value (ps ! k))) else op_value (ps ! k))"

definition reg_param0 :: "operand list \<Rightarrow> u32" where
  "reg_param0 ps = op_value (ps ! 0)"

definition set_reg :: "nat \<Rightarrow> u32 \<Rightarrow> machine \<Rightarrow> machine" where
  "set_reg r v m = m\<lparr>cpu := (cpu m)\<lparr>reg := (reg (cpu m))(r := v)\<rparr>\<rparr>"

definition set_param0 :: "u32 \<Rightarrow> operand list \<Rightarrow> machine \<Rightarrow> machine" where
  "set_param0 v ps = set_reg (unat (reg_param0 ps)) v"

definition spr_flag :: "u32 \<Rightarrow> bool \<Rightarrow> machine \<Rightarrow> machine" where
  "spr_flag f b m = (if b then spr_or SPR_SR f m else spr_clear SPR_SR f m)"

text \<open>A range exception when SR[OVE] is set and the flag is.\<close>

definition range_exception :: "u32 \<Rightarrow> machine \<Rightarrow> machine" where
  "range_exception f m =
     (if has (spr SPR_SR m) SPR_SR_OVE \<and> has (spr SPR_SR m) f then except_handle EXCEPT_RANGE (pc (cpu m)) m else m)"

abbreviation (input) neg :: "u32 \<Rightarrow> bool" where "neg x \<equiv> sint x < 0"
abbreviation (input) LINK_REGNO :: u32 where "LINK_REGNO \<equiv> 9"

section \<open>Arithmetic\<close>

definition l_add :: "operand list \<Rightarrow> machine \<Rightarrow> machine" where
  "l_add ps m =
     (let temp2 = param 2 ps m; temp3 = param 1 ps m; temp1 = temp2 + temp3;
          m = set_param0 temp1 ps m;
          m = spr_flag SPR_SR_OV (neg temp2 \<and> neg temp3 \<and> \<not> neg temp1 \<or> \<not> neg temp2 \<and> \<not> neg temp3 \<and> neg temp1) m;
          m = spr_flag SPR_SR_CY (temp1 < temp2) m
      in range_exception SPR_SR_OV m)"

definition l_addc :: "operand list \<Rightarrow> machine \<Rightarrow> machine" where
  "l_addc ps m =
     (let carry_in = has (spr SPR_SR m) SPR_SR_CY;
          temp2 = param 2 ps m; temp3 = param 1 ps m; temp1 = temp2 + temp3;
          temp1 = (if carry_in then temp1 + 1 else temp1);
          m = set_param0 temp1 ps m;
          m = spr_flag SPR_SR_OV (neg temp2 \<and> neg temp3 \<and> \<not> neg temp1 \<or> \<not> neg temp2 \<and> \<not> neg temp3 \<and> neg temp1) m;
          m = spr_flag SPR_SR_CY (carry_in \<and> temp1 \<le> temp2 \<or> temp1 < temp2) m
      in range_exception SPR_SR_OV m)"

definition l_sub :: "operand list \<Rightarrow> machine \<Rightarrow> machine" where
  "l_sub ps m =
     (let temp3 = param 2 ps m; temp2 = param 1 ps m; temp1 = temp2 - temp3;
          m = set_param0 temp1 ps m;
          m = spr_flag SPR_SR_OV (neg temp2 \<and> \<not> neg temp3 \<and> \<not> neg temp1 \<or> \<not> neg temp2 \<and> neg temp3 \<and> neg temp1) m;
          m = spr_flag SPR_SR_CY (temp2 < temp3) m
      in range_exception SPR_SR_OV m)"

definition l_mul :: "operand list \<Rightarrow> machine \<Rightarrow> machine" where
  "l_mul ps m =
     (let temp2 = param 2 ps m; temp1 = param 1 ps m; ltemp0 = sint temp1 * sint temp2;
          m = set_param0 (word_of_int ltemp0) ps m;
          m = spr_flag SPR_SR_OV (ltemp0 < INT32_MIN \<or> INT32_MAX < ltemp0) m;
          m = spr_flag SPR_SR_CY (0xffffffff < uint temp1 * uint temp2) m
      in range_exception SPR_SR_OV m)"

definition l_mulu :: "operand list \<Rightarrow> machine \<Rightarrow> machine" where
  "l_mulu ps m =
     (let temp2 = param 2 ps m; temp1 = param 1 ps m; ultemp0 = uint temp1 * uint temp2;
          m = set_param0 (word_of_int ultemp0) ps m;
          m = spr_flag SPR_SR_OV False m
      in spr_flag SPR_SR_CY (0xffffffff < ultemp0) m)"

text \<open>\<open>INT_MIN / -1\<close> traps.\<close>

definition l_div :: "operand list \<Rightarrow> machine \<Rightarrow> machine res" where
  "l_div ps m =
     (let temp3 = param 2 ps m; temp2 = param 1 ps m
      in if temp2 = 0x80000000 \<and> temp3 = -1 then Inl Host_undef
         else
           let m = (if temp3 = 0 then spr_flag SPR_SR_CY True m
                    else spr_flag SPR_SR_CY False (set_param0 (word_of_int (sint temp2 sdiv sint temp3)) ps m));
               m = spr_flag SPR_SR_OV False m
           in Inr (range_exception SPR_SR_CY m))"

definition l_divu :: "operand list \<Rightarrow> machine \<Rightarrow> machine" where
  "l_divu ps m =
     (let temp3 = param 2 ps m; temp2 = param 1 ps m;
          m = (if temp3 = 0 then spr_flag SPR_SR_CY True m
               else spr_flag SPR_SR_CY False (set_param0 (temp2 div temp3) ps m));
          m = spr_flag SPR_SR_OV False m
      in range_exception SPR_SR_CY m)"

section \<open>Loads and stores\<close>

text \<open>A store with the store buffer: its duration goes into the buffer.\<close>

definition buffered_store :: "(machine \<Rightarrow> machine res) \<Rightarrow> machine \<Rightarrow> machine res" where
  "buffered_store f m =
     (if cfg_sbuf_len (conf m) \<noteq> 0
      then let old_cyc = i32 (uint (mem_cycles (rt m)))
           in bind_res (f m) (\<lambda>m.
                let t = i32 (uint (mem_cycles (rt m)));
                    m = m\<lparr>rt := (rt m)\<lparr>mem_cycles := word_of_int old_cyc\<rparr>\<rparr>
                in Inr (sbuf_store (i32 (t - old_cyc)) m))
      else f m)"

definition l_sw :: "operand list \<Rightarrow> machine \<Rightarrow> machine res" where
  "l_sw ps = buffered_store (\<lambda>m. set_mem32 (param 0 ps m) (param 1 ps m) m)"

definition l_sb :: "operand list \<Rightarrow> machine \<Rightarrow> machine res" where
  "l_sb ps = buffered_store (\<lambda>m. set_mem8 (param 0 ps m) (ucast (param 1 ps m)) m)"

definition l_sh :: "operand list \<Rightarrow> machine \<Rightarrow> machine res" where
  "l_sh ps = buffered_store (\<lambda>m. set_mem16 (param 0 ps m) (ucast (param 1 ps m)) m)"

text \<open>A load first drains the store buffer; its register is set unless it was interrupted.\<close>

definition drained :: "machine \<Rightarrow> machine" where
  "drained m = (if cfg_sbuf_len (conf m) \<noteq> 0 then sbuf_load m else m)"

definition loaded :: "u32 \<Rightarrow> operand list \<Rightarrow> machine \<Rightarrow> machine" where
  "loaded v ps m = (if \<not> (except_pending m \<or> breakpoint m) then set_param0 v ps m else m)"

definition l_lws :: "operand list \<Rightarrow> machine \<Rightarrow> machine res" where
  "l_lws ps m = (let m = drained m in bind_res (eval_mem32 (param 1 ps m) m) (\<lambda>(v, m). Inr (loaded v ps m)))"

definition l_lwz :: "operand list \<Rightarrow> machine \<Rightarrow> machine res" where
  "l_lwz ps m = (let m = drained m in bind_res (eval_mem32 (param 1 ps m) m) (\<lambda>(v, m). Inr (loaded v ps m)))"

definition l_lbs :: "operand list \<Rightarrow> machine \<Rightarrow> machine res" where
  "l_lbs ps m = (let m = drained m in bind_res (eval_mem8 (param 1 ps m) m) (\<lambda>(v, m). Inr (loaded (scast v) ps m)))"

definition l_lbz :: "operand list \<Rightarrow> machine \<Rightarrow> machine res" where
  "l_lbz ps m = (let m = drained m in bind_res (eval_mem8 (param 1 ps m) m) (\<lambda>(v, m). Inr (loaded (ucast v) ps m)))"

definition l_lhs :: "operand list \<Rightarrow> machine \<Rightarrow> machine res" where
  "l_lhs ps m = (let m = drained m in bind_res (eval_mem16 (param 1 ps m) m) (\<lambda>(v, m). Inr (loaded (scast v) ps m)))"

definition l_lhz :: "operand list \<Rightarrow> machine \<Rightarrow> machine res" where
  "l_lhz ps m = (let m = drained m in bind_res (eval_mem16 (param 1 ps m) m) (\<lambda>(v, m). Inr (loaded (ucast v) ps m)))"

section \<open>Moves, logic and shifts\<close>

definition l_movhi :: "operand list \<Rightarrow> machine \<Rightarrow> machine" where
  "l_movhi ps m = set_param0 (push_bit 16 (param 1 ps m)) ps m"

definition l_and :: "operand list \<Rightarrow> machine \<Rightarrow> machine" where
  "l_and ps m = set_param0 (param 1 ps m AND param 2 ps m) ps m"

definition l_or :: "operand list \<Rightarrow> machine \<Rightarrow> machine" where
  "l_or ps m = set_param0 (param 1 ps m OR param 2 ps m) ps m"

definition l_xor :: "operand list \<Rightarrow> machine \<Rightarrow> machine" where
  "l_xor ps m = set_param0 (param 1 ps m XOR param 2 ps m) ps m"

definition l_sll :: "operand list \<Rightarrow> machine \<Rightarrow> machine res" where
  "l_sll ps m = 
     (if 32 \<le> param 2 ps m then Inl Host_undef else Inr (set_param0 (push_bit (unat (param 2 ps m)) (param 1 ps m)) ps m))"

definition l_sra :: "operand list \<Rightarrow> machine \<Rightarrow> machine res" where
  "l_sra ps m = 
     (if 32 \<le> param 2 ps m then Inl Host_undef else Inr (set_param0 (word_of_int (sint (param 1 ps m) div 2 ^ unat (param 2 ps m))) ps m))"

definition l_srl :: "operand list \<Rightarrow> machine \<Rightarrow> machine res" where
  "l_srl ps m = 
     (if 32 \<le> param 2 ps m then Inl Host_undef else Inr (set_param0 (drop_bit (unat (param 2 ps m)) (param 1 ps m)) ps m))"

text \<open>A rotation by 0 shifts left by 32.\<close>

definition l_ror :: "operand list \<Rightarrow> machine \<Rightarrow> machine res" where
  "l_ror ps m = 
     (let n = unat (param 2 ps m AND 0x1f)
      in if n = 0 then Inl Host_undef
         else Inr (set_param0 (drop_bit n (param 1 ps m) OR push_bit (32 - n) (param 1 ps m)) ps m))"

definition l_extbs :: "operand list \<Rightarrow> machine \<Rightarrow> machine" where
  "l_extbs ps m = set_param0 (scast (ucast (param 1 ps m) :: u8)) ps m"

definition l_extbz :: "operand list \<Rightarrow> machine \<Rightarrow> machine" where
  "l_extbz ps m = set_param0 (ucast (ucast (param 1 ps m) :: u8)) ps m"

definition l_exths :: "operand list \<Rightarrow> machine \<Rightarrow> machine" where
  "l_exths ps m = set_param0 (scast (ucast (param 1 ps m) :: u16)) ps m"

definition l_exthz :: "operand list \<Rightarrow> machine \<Rightarrow> machine" where
  "l_exthz ps m = set_param0 (ucast (ucast (param 1 ps m) :: u16)) ps m"

definition l_extws :: "operand list \<Rightarrow> machine \<Rightarrow> machine" where
  "l_extws ps m = set_param0 (scast (ucast (param 1 ps m) :: u32)) ps m"

definition l_extwz :: "operand list \<Rightarrow> machine \<Rightarrow> machine" where
  "l_extwz ps m = set_param0 (ucast (ucast (param 1 ps m) :: u32)) ps m"

definition l_cmov :: "operand list \<Rightarrow> machine \<Rightarrow> machine" where
  "l_cmov ps m = set_param0 (if has (spr SPR_SR m) SPR_SR_F then param 1 ps m else param 2 ps m) ps m"

text \<open>The C library's \<open>ffs\<close>: one more than the number of the lowest bit that is set, 0 for 0.\<close>

definition ffs :: "u32 \<Rightarrow> u32" where
  "ffs w = (case filter (bit w) [0..<32] of [] \<Rightarrow> 0 | i # _ \<Rightarrow> of_nat i + 1)"

definition l_ff1 :: "operand list \<Rightarrow> machine \<Rightarrow> machine" where
  "l_ff1 ps m = set_param0 (ffs (param 1 ps m)) ps m"

text \<open>\<open>t\<close> is signed: its last shift right keeps the sign.\<close>

definition reversed :: "u32 \<Rightarrow> u32" where
  "reversed t =
     (let t = drop_bit 1 (t AND 0xaaaaaaaa) OR push_bit 1 (t AND 0x55555555);
          t = drop_bit 2 (t AND 0xcccccccc) OR push_bit 2 (t AND 0x33333333);
          t = drop_bit 4 (t AND 0xf0f0f0f0) OR push_bit 4 (t AND 0x0f0f0f0f);
          t = drop_bit 8 (t AND 0xff00ff00) OR push_bit 8 (t AND 0x00ff00ff)
      in signed_drop_bit 16 t OR push_bit 16 t)"

definition l_fl1 :: "operand list \<Rightarrow> machine \<Rightarrow> machine" where
  "l_fl1 ps m = (let t = ffs (reversed (param 1 ps m)) in set_param0 (if t = 0 then t else 33 - t) ps m)"

section \<open>Comparisons\<close>

definition l_sfeq :: "operand list \<Rightarrow> machine \<Rightarrow> machine" where
  "l_sfeq ps m = spr_flag SPR_SR_F (param 0 ps m = param 1 ps m) m"

definition l_sfne :: "operand list \<Rightarrow> machine \<Rightarrow> machine" where
  "l_sfne ps m = spr_flag SPR_SR_F (param 0 ps m \<noteq> param 1 ps m) m"

definition l_sfgts :: "operand list \<Rightarrow> machine \<Rightarrow> machine" where
  "l_sfgts ps m = spr_flag SPR_SR_F (sint (param 1 ps m) < sint (param 0 ps m)) m"

definition l_sfges :: "operand list \<Rightarrow> machine \<Rightarrow> machine" where
  "l_sfges ps m = spr_flag SPR_SR_F (sint (param 1 ps m) \<le> sint (param 0 ps m)) m"

definition l_sflts :: "operand list \<Rightarrow> machine \<Rightarrow> machine" where
  "l_sflts ps m = spr_flag SPR_SR_F (sint (param 0 ps m) < sint (param 1 ps m)) m"

definition l_sfles :: "operand list \<Rightarrow> machine \<Rightarrow> machine" where
  "l_sfles ps m = spr_flag SPR_SR_F (sint (param 0 ps m) \<le> sint (param 1 ps m)) m"

definition l_sfgtu :: "operand list \<Rightarrow> machine \<Rightarrow> machine" where
  "l_sfgtu ps m = spr_flag SPR_SR_F (param 1 ps m < param 0 ps m) m"

definition l_sfgeu :: "operand list \<Rightarrow> machine \<Rightarrow> machine" where
  "l_sfgeu ps m = spr_flag SPR_SR_F (param 1 ps m \<le> param 0 ps m) m"

definition l_sfltu :: "operand list \<Rightarrow> machine \<Rightarrow> machine" where
  "l_sfltu ps m = spr_flag SPR_SR_F (param 0 ps m < param 1 ps m) m"

definition l_sfleu :: "operand list \<Rightarrow> machine \<Rightarrow> machine" where
  "l_sfleu ps m = spr_flag SPR_SR_F (param 0 ps m \<le> param 1 ps m) m"

section \<open>Branches and exceptions\<close>

text \<open>The predictors are told; \<open>fwd\<close> compares the offset with the program counter.\<close>

definition predict_branch :: "bool \<Rightarrow> bool \<Rightarrow> operand list \<Rightarrow> machine \<Rightarrow> machine" where
  "predict_branch bf taken ps m =
     (if bpb_enabled (cfg_bpb (conf m))
      then let fwd = (pc (cpu m) \<le> param 0 ps m);
               s = st m;
               s = (if bf then s\<lparr>st_bf := (st_bf s)(taken := (st_bf s taken)(fwd := st_bf s taken fwd + 1))\<rparr>
                    else s\<lparr>st_bnf := (st_bnf s)(taken := (st_bnf s taken)(fwd := st_bnf s taken fwd + 1))\<rparr>)
           in bpb_update (insn_addr (iqueue (cpu m))) taken (m\<lparr>st := s\<rparr>)
      else m)"

definition branch_if :: "bool \<Rightarrow> operand list \<Rightarrow> machine \<Rightarrow> machine" where
  "branch_if taken ps m =
     (if taken
      then let m = m\<lparr>cpu := (cpu m)\<lparr>pc_delay := pc (cpu m) + param 0 ps m * 4\<rparr>\<rparr>
           in (btic_update (pcnext m) m)\<lparr>next_delay_insn := True\<rparr>
      else btic_update (pc (cpu m)) m)"

definition l_bf :: "operand list \<Rightarrow> machine \<Rightarrow> machine" where
  "l_bf ps m =
     (let m = predict_branch True (has (spr SPR_SR m) SPR_SR_F) ps m in branch_if (has (spr SPR_SR m) SPR_SR_F) ps m)"

definition l_bnf :: "operand list \<Rightarrow> machine \<Rightarrow> machine" where
  "l_bnf ps m =
     (let m = predict_branch False (\<not> has (spr SPR_SR m) SPR_SR_F) ps m
      in branch_if (\<not> has (spr SPR_SR m) SPR_SR_F) ps m)"

text \<open>A jump to itself dumps the memory and ends the simulation.\<close>

definition l_j :: "operand list \<Rightarrow> machine \<Rightarrow> machine res" where
  "l_j ps m =
     (if op_value (ps ! 0) \<noteq> 0
      then Inr (m\<lparr>cpu := (cpu m)\<lparr>pc_delay := pc (cpu m) + param 0 ps m * 4\<rparr>, next_delay_insn := True\<rparr>)
      else Inl Sim_done)"

definition l_jal :: "operand list \<Rightarrow> machine \<Rightarrow> machine res" where
  "l_jal ps m =
     (let m = m\<lparr>cpu := (cpu m)\<lparr>pc_delay := pc (cpu m) + param 0 ps m * 4\<rparr>\<rparr>
      in bind_res (setsim_reg LINK_REGNO (pc (cpu m) + 8) m) (\<lambda>m. Inr (m\<lparr>next_delay_insn := True\<rparr>)))"

definition l_jalr :: "operand list \<Rightarrow> machine \<Rightarrow> machine res" where
  "l_jalr ps m =
     (let temp1 = param 0 ps m
      in if reg_param0 ps = LINK_REGNO then Inr (except_handle EXCEPT_ILLEGAL (pc (cpu m)) m)
         else if has temp1 3 then Inr (except_handle EXCEPT_ALIGN (pc (cpu m)) m)
         else
           let m = m\<lparr>cpu := (cpu m)\<lparr>pc_delay := temp1\<rparr>\<rparr>
           in bind_res (setsim_reg LINK_REGNO (pc (cpu m) + 8) m) (\<lambda>m. Inr (m\<lparr>next_delay_insn := True\<rparr>)))"

definition l_jr :: "operand list \<Rightarrow> machine \<Rightarrow> machine" where
  "l_jr ps m =
     (let temp1 = param 0 ps m
      in if has temp1 3 then except_handle EXCEPT_ALIGN (pc (cpu m)) m
         else m\<lparr>cpu := (cpu m)\<lparr>pc_delay := temp1\<rparr>, next_delay_insn := True\<rparr>)"

definition l_rfe :: "operand list \<Rightarrow> machine \<Rightarrow> machine res" where
  "l_rfe ps m =
     (let m = m\<lparr>pcnext := spr SPR_EPCR_BASE m\<rparr> in mtspr SPR_SR (spr SPR_ESR_BASE m) m)"

definition l_sys :: "operand list \<Rightarrow> machine \<Rightarrow> machine" where
  "l_sys ps m = except_handle EXCEPT_SYSCALL (spr SPR_EEAR_BASE m) m"

definition l_trap :: "operand list \<Rightarrow> machine \<Rightarrow> machine" where
  "l_trap ps m = except_handle EXCEPT_TRAP (spr SPR_EEAR_BASE m) m"

definition l_invalid :: "machine \<Rightarrow> machine" where
  "l_invalid m = except_handle EXCEPT_ILLEGAL (insn_addr (iqueue (cpu m))) m"

section \<open>Special registers, MAC unit, simulator calls\<close>

definition l_mtspr :: "operand list \<Rightarrow> machine \<Rightarrow> machine res" where
  "l_mtspr ps m =
     (let regno = unat (ucast (param 0 ps m OR param 2 ps m) :: u16); v = param 1 ps m
      in if has (spr SPR_SR m) SPR_SR_SM then mtspr regno v m else Inl Sim_done)"

definition l_mfspr :: "operand list \<Rightarrow> machine \<Rightarrow> machine res" where
  "l_mfspr ps m =
     (let regno = unat (ucast (param 1 ps m OR param 2 ps m) :: u16); v = mfspr regno m
      in if has (spr SPR_SR m) SPR_SR_SM \<or> has (spr SPR_SR m) SPR_SR_SUMRA then Inr (set_param0 v ps m)
         else Inl Sim_done)"

definition mac_acc :: "machine \<Rightarrow> u64" where
  "mac_acc m = ucast (spr SPR_MACLO m) OR push_bit 32 (ucast (spr SPR_MACHI m))"

definition set_mac :: "u64 \<Rightarrow> machine \<Rightarrow> machine" where
  "set_mac l m = set_spr SPR_MACHI (ucast (signed_drop_bit 32 l)) (set_spr SPR_MACLO (ucast l) m)"

definition l_mac :: "operand list \<Rightarrow> machine \<Rightarrow> machine" where
  "l_mac ps m = set_mac (mac_acc m + scast (param 0 ps m * param 1 ps m)) m"

definition l_msb :: "operand list \<Rightarrow> machine \<Rightarrow> machine" where
  "l_msb ps m = set_mac (mac_acc m - scast (param 0 ps m * param 1 ps m)) m"

definition l_macrc :: "operand list \<Rightarrow> machine \<Rightarrow> machine" where
  "l_macrc ps m = set_spr SPR_MACHI 0 (set_spr SPR_MACLO 0 (set_param0 (spr SPR_MACLO m) ps m))"

abbreviation (input) NOP_EXIT :: u32 where "NOP_EXIT \<equiv> 1"
abbreviation (input) NOP_CNT_RESET :: u32 where "NOP_CNT_RESET \<equiv> 5"
abbreviation (input) NOP_GET_TICKS :: u32 where "NOP_GET_TICKS \<equiv> 6"
abbreviation (input) NOP_GET_PS :: u32 where "NOP_GET_PS \<equiv> 7"
abbreviation (input) NOP_TRACE_ON :: u32 where "NOP_TRACE_ON \<equiv> 8"
abbreviation (input) NOP_TRACE_OFF :: u32 where "NOP_TRACE_OFF \<equiv> 9"
abbreviation (input) NOP_RANDOM :: u32 where "NOP_RANDOM \<equiv> 10"
abbreviation (input) NOP_OR1KSIM :: u32 where "NOP_OR1KSIM \<equiv> 11"

text \<open>\<open>rnd\<close> is the result of \<open>random ()\<close>. Reports and characters are only printed.\<close>

definition l_nop :: "u32 \<Rightarrow> operand list \<Rightarrow> machine \<Rightarrow> machine res" where
  "l_nop rnd ps m =
     (let k = param 0 ps m; cyc = cycles (rt m)
      in if k = NOP_EXIT
         then if cfg_is_library (conf m) then Inr (set_stall_state True (m\<lparr>rt := (rt m)\<lparr>halted := True\<rparr>\<rparr>)) else Inl Sim_done
         else if k = NOP_CNT_RESET
         then Inr (m\<lparr>rt := (rt m)\<lparr>reset_cycles := cyc, reset_instructions := instructions (rt m)\<rparr>\<rparr>)
         else if k = NOP_GET_TICKS then Inr (set_reg 12 (ucast (drop_bit 32 cyc)) (set_reg 11 (ucast cyc) m))
         else if k = NOP_GET_PS then Inr (set_reg 11 (ucast (cfg_clkcycle_ps (conf m))) m)
         else if k = NOP_TRACE_ON then Inr (m\<lparr>rt := (rt m)\<lparr>hush := False\<rparr>\<rparr>)
         else if k = NOP_TRACE_OFF then Inr (m\<lparr>rt := (rt m)\<lparr>hush := True\<rparr>\<rparr>)
         else if k = NOP_RANDOM then Inr (set_reg 11 rnd m)
         else if k = NOP_OR1KSIM then Inr (set_reg 11 1 m)
         else Inr m)"

section \<open>Floating point\<close>

text \<open>
  The SoftFloat functions take the rounding mode (\<open>float_rounding_mode\<close>) and the flags raised so far
  (\<open>float_exception_flags\<close>), and return the result and the flags.
\<close>

record softfloat =
  float32_add :: "u32 \<Rightarrow> u32 \<Rightarrow> u32 \<Rightarrow> u32 \<Rightarrow> u32 \<times> u32"
  float32_sub :: "u32 \<Rightarrow> u32 \<Rightarrow> u32 \<Rightarrow> u32 \<Rightarrow> u32 \<times> u32"
  float32_mul :: "u32 \<Rightarrow> u32 \<Rightarrow> u32 \<Rightarrow> u32 \<Rightarrow> u32 \<times> u32"
  float32_div :: "u32 \<Rightarrow> u32 \<Rightarrow> u32 \<Rightarrow> u32 \<Rightarrow> u32 \<times> u32"
  float32_rem :: "u32 \<Rightarrow> u32 \<Rightarrow> u32 \<Rightarrow> u32 \<Rightarrow> u32 \<times> u32"
  float32_to_int32 :: "u32 \<Rightarrow> u32 \<Rightarrow> u32 \<Rightarrow> u32 \<times> u32"
  int32_to_float32 :: "u32 \<Rightarrow> u32 \<Rightarrow> u32 \<Rightarrow> u32 \<times> u32"
  float32_eq :: "u32 \<Rightarrow> u32 \<Rightarrow> u32 \<Rightarrow> bool \<times> u32"
  float32_lt :: "u32 \<Rightarrow> u32 \<Rightarrow> u32 \<Rightarrow> bool \<times> u32"
  float32_le :: "u32 \<Rightarrow> u32 \<Rightarrow> u32 \<Rightarrow> bool \<times> u32"
  float32_is_nan :: "u32 \<Rightarrow> bool"

text \<open>\<open>float_set_rm\<close>: round to nearest even 0, down 1, up 2, to zero 3.\<close>

definition float_set_rm :: "machine \<Rightarrow> u32" where
  "float_set_rm m =
     (let rm = spr SPR_FPCSR m AND SPR_FPCSR_RM
      in if rm = FPCSR_RM_RN then 0 else if rm = FPCSR_RM_RZ then 3 else if rm = FPCSR_RM_RIP then 2 else 1)"

definition float_set_flags :: "u32 \<Rightarrow> machine \<Rightarrow> machine" where
  "float_set_flags fl m =
     (let m = spr_clear SPR_FPCSR SPR_FPCSR_ALLF m;
          m = (if has fl 1 then spr_or SPR_FPCSR SPR_FPCSR_IVF m else m);
          m = (if has fl 4 then spr_or SPR_FPCSR SPR_FPCSR_DZF m else m);
          m = (if has fl 8 then spr_or SPR_FPCSR SPR_FPCSR_OVF m else m);
          m = (if has fl 16 then spr_or SPR_FPCSR SPR_FPCSR_UNF m else m)
      in if has fl 32 then spr_or SPR_FPCSR SPR_FPCSR_IXF m else m)"

text \<open>The frame of the instructions: \<open>float_exception_flags\<close> is 0 at their start.\<close>

definition float_op :: "(u32 \<Rightarrow> u32 \<times> u32) \<Rightarrow> operand list \<Rightarrow> machine \<Rightarrow> machine" where
  "float_op f ps m =
     (if cfg_hardfloat (conf m)
      then case f (float_set_rm m) of (v, fl) \<Rightarrow> float_set_flags fl (set_param0 v ps m)
      else l_invalid m)"

definition float_compare :: "bool \<times> u32 \<Rightarrow> machine \<Rightarrow> machine" where
  "float_compare r m =
     (if cfg_hardfloat (conf m) then case r of (b, fl) \<Rightarrow> float_set_flags fl (spr_flag SPR_SR_F b m) else l_invalid m)"

definition lf_add_s :: "softfloat \<Rightarrow> operand list \<Rightarrow> machine \<Rightarrow> machine" where
  "lf_add_s sf ps m = float_op (\<lambda>rm. float32_add sf rm 0 (param 1 ps m) (param 2 ps m)) ps m"

definition lf_sub_s :: "softfloat \<Rightarrow> operand list \<Rightarrow> machine \<Rightarrow> machine" where
  "lf_sub_s sf ps m = float_op (\<lambda>rm. float32_sub sf rm 0 (param 1 ps m) (param 2 ps m)) ps m"

definition lf_mul_s :: "softfloat \<Rightarrow> operand list \<Rightarrow> machine \<Rightarrow> machine" where
  "lf_mul_s sf ps m = float_op (\<lambda>rm. float32_mul sf rm 0 (param 1 ps m) (param 2 ps m)) ps m"

definition lf_div_s :: "softfloat \<Rightarrow> operand list \<Rightarrow> machine \<Rightarrow> machine" where
  "lf_div_s sf ps m = float_op (\<lambda>rm. float32_div sf rm 0 (param 1 ps m) (param 2 ps m)) ps m"

definition lf_rem_s :: "softfloat \<Rightarrow> operand list \<Rightarrow> machine \<Rightarrow> machine" where
  "lf_rem_s sf ps m = float_op (\<lambda>rm. float32_rem sf rm 0 (param 1 ps m) (param 2 ps m)) ps m"

definition lf_ftoi_s :: "softfloat \<Rightarrow> operand list \<Rightarrow> machine \<Rightarrow> machine" where
  "lf_ftoi_s sf ps m = float_op (\<lambda>rm. float32_to_int32 sf rm 0 (param 1 ps m)) ps m"

definition lf_itof_s :: "softfloat \<Rightarrow> operand list \<Rightarrow> machine \<Rightarrow> machine" where
  "lf_itof_s sf ps m = float_op (\<lambda>rm. int32_to_float32 sf rm 0 (param 1 ps m)) ps m"

definition lf_madd_s :: "softfloat \<Rightarrow> operand list \<Rightarrow> machine \<Rightarrow> machine" where
  "lf_madd_s sf ps m = float_op (\<lambda>rm. case float32_mul sf rm 0 (param 1 ps m) (param 2 ps m) of (v, fl) \<Rightarrow> float32_add sf rm fl (param 0 ps m) v) ps m"

text \<open>Both operands are numbers.\<close>

definition numbers :: "softfloat \<Rightarrow> operand list \<Rightarrow> machine \<Rightarrow> bool" where
  "numbers sf ps m \<longleftrightarrow> \<not> float32_is_nan sf (param 0 ps m) \<and> \<not> float32_is_nan sf (param 1 ps m)"

definition lf_sfeq_s :: "softfloat \<Rightarrow> operand list \<Rightarrow> machine \<Rightarrow> machine" where
  "lf_sfeq_s sf ps m = float_compare (float32_eq sf 0 (param 0 ps m) (param 1 ps m)) m"

definition lf_sfne_s :: "softfloat \<Rightarrow> operand list \<Rightarrow> machine \<Rightarrow> machine" where
  "lf_sfne_s sf ps m = float_compare (case float32_eq sf 0 (param 0 ps m) (param 1 ps m) of (b, fl) \<Rightarrow> (\<not> b, fl)) m"

definition lf_sfge_s :: "softfloat \<Rightarrow> operand list \<Rightarrow> machine \<Rightarrow> machine" where
  "lf_sfge_s sf ps m = 
     float_compare (case float32_lt sf 0 (param 0 ps m) (param 1 ps m) of (b, fl) \<Rightarrow> (\<not> b \<and> numbers sf ps m, fl)) m"

definition lf_sfgt_s :: "softfloat \<Rightarrow> operand list \<Rightarrow> machine \<Rightarrow> machine" where
  "lf_sfgt_s sf ps m = 
     float_compare (case float32_le sf 0 (param 0 ps m) (param 1 ps m) of (b, fl) \<Rightarrow> (\<not> b \<and> numbers sf ps m, fl)) m"

definition lf_sfle_s :: "softfloat \<Rightarrow> operand list \<Rightarrow> machine \<Rightarrow> machine" where
  "lf_sfle_s sf ps m = 
     float_compare (case float32_le sf 0 (param 0 ps m) (param 1 ps m) of (b, fl) \<Rightarrow> (b \<and> numbers sf ps m, fl)) m"

definition lf_sflt_s :: "softfloat \<Rightarrow> operand list \<Rightarrow> machine \<Rightarrow> machine" where
  "lf_sflt_s sf ps m = 
     float_compare (case float32_lt sf 0 (param 0 ps m) (param 1 ps m) of (b, fl) \<Rightarrow> (b \<and> numbers sf ps m, fl)) m"

section \<open>The table of functions\<close>

text \<open>
  The bodies \<open>output_function\<close> of \<open>cpu/or32/generate.c\<close> finds in \<open>insnset.c\<close>, by name; the custom instructions
  have empty bodies. At the end of the file it returns before it writes a call, so for other names, \<open>l_none\<close>
  and \<open>l_invalid\<close>, the generated decoder has no code.
\<close>

definition insn_table :: "softfloat \<Rightarrow> u32 \<Rightarrow> (string \<times> (operand list \<Rightarrow> machine \<Rightarrow> machine res)) list" where
  "insn_table sf rnd =
    [(''l_add'', \<lambda>ps m. Inr (l_add ps m)),
     (''l_addc'', \<lambda>ps m. Inr (l_addc ps m)),
     (''l_sub'', \<lambda>ps m. Inr (l_sub ps m)),
     (''l_mul'', \<lambda>ps m. Inr (l_mul ps m)),
     (''l_mulu'', \<lambda>ps m. Inr (l_mulu ps m)),
     (''l_divu'', \<lambda>ps m. Inr (l_divu ps m)),
     (''l_movhi'', \<lambda>ps m. Inr (l_movhi ps m)),
     (''l_and'', \<lambda>ps m. Inr (l_and ps m)),
     (''l_or'', \<lambda>ps m. Inr (l_or ps m)),
     (''l_xor'', \<lambda>ps m. Inr (l_xor ps m)),
     (''l_extbs'', \<lambda>ps m. Inr (l_extbs ps m)),
     (''l_extbz'', \<lambda>ps m. Inr (l_extbz ps m)),
     (''l_exths'', \<lambda>ps m. Inr (l_exths ps m)),
     (''l_exthz'', \<lambda>ps m. Inr (l_exthz ps m)),
     (''l_extws'', \<lambda>ps m. Inr (l_extws ps m)),
     (''l_extwz'', \<lambda>ps m. Inr (l_extwz ps m)),
     (''l_cmov'', \<lambda>ps m. Inr (l_cmov ps m)),
     (''l_ff1'', \<lambda>ps m. Inr (l_ff1 ps m)),
     (''l_fl1'', \<lambda>ps m. Inr (l_fl1 ps m)),
     (''l_sfeq'', \<lambda>ps m. Inr (l_sfeq ps m)),
     (''l_sfne'', \<lambda>ps m. Inr (l_sfne ps m)),
     (''l_sfgts'', \<lambda>ps m. Inr (l_sfgts ps m)),
     (''l_sfges'', \<lambda>ps m. Inr (l_sfges ps m)),
     (''l_sflts'', \<lambda>ps m. Inr (l_sflts ps m)),
     (''l_sfles'', \<lambda>ps m. Inr (l_sfles ps m)),
     (''l_sfgtu'', \<lambda>ps m. Inr (l_sfgtu ps m)),
     (''l_sfgeu'', \<lambda>ps m. Inr (l_sfgeu ps m)),
     (''l_sfltu'', \<lambda>ps m. Inr (l_sfltu ps m)),
     (''l_sfleu'', \<lambda>ps m. Inr (l_sfleu ps m)),
     (''l_bf'', \<lambda>ps m. Inr (l_bf ps m)),
     (''l_bnf'', \<lambda>ps m. Inr (l_bnf ps m)),
     (''l_jr'', \<lambda>ps m. Inr (l_jr ps m)),
     (''l_sys'', \<lambda>ps m. Inr (l_sys ps m)),
     (''l_trap'', \<lambda>ps m. Inr (l_trap ps m)),
     (''l_mac'', \<lambda>ps m. Inr (l_mac ps m)),
     (''l_msb'', \<lambda>ps m. Inr (l_msb ps m)),
     (''l_macrc'', \<lambda>ps m. Inr (l_macrc ps m)),
     (''l_div'', l_div),
     (''l_sw'', l_sw),
     (''l_sb'', l_sb),
     (''l_sh'', l_sh),
     (''l_lws'', l_lws),
     (''l_lwz'', l_lwz),
     (''l_lbs'', l_lbs),
     (''l_lbz'', l_lbz),
     (''l_lhs'', l_lhs),
     (''l_lhz'', l_lhz),
     (''l_sll'', l_sll),
     (''l_sra'', l_sra),
     (''l_srl'', l_srl),
     (''l_ror'', l_ror),
     (''l_j'', l_j),
     (''l_jal'', l_jal),
     (''l_jalr'', l_jalr),
     (''l_rfe'', l_rfe),
     (''l_mtspr'', l_mtspr),
     (''l_mfspr'', l_mfspr),
     (''l_nop'', l_nop rnd),
     (''lf_add_s'', \<lambda>ps m. Inr (lf_add_s sf ps m)),
     (''lf_sub_s'', \<lambda>ps m. Inr (lf_sub_s sf ps m)),
     (''lf_mul_s'', \<lambda>ps m. Inr (lf_mul_s sf ps m)),
     (''lf_div_s'', \<lambda>ps m. Inr (lf_div_s sf ps m)),
     (''lf_rem_s'', \<lambda>ps m. Inr (lf_rem_s sf ps m)),
     (''lf_ftoi_s'', \<lambda>ps m. Inr (lf_ftoi_s sf ps m)),
     (''lf_itof_s'', \<lambda>ps m. Inr (lf_itof_s sf ps m)),
     (''lf_madd_s'', \<lambda>ps m. Inr (lf_madd_s sf ps m)),
     (''lf_sfeq_s'', \<lambda>ps m. Inr (lf_sfeq_s sf ps m)),
     (''lf_sfne_s'', \<lambda>ps m. Inr (lf_sfne_s sf ps m)),
     (''lf_sfge_s'', \<lambda>ps m. Inr (lf_sfge_s sf ps m)),
     (''lf_sfgt_s'', \<lambda>ps m. Inr (lf_sfgt_s sf ps m)),
     (''lf_sfle_s'', \<lambda>ps m. Inr (lf_sfle_s sf ps m)),
     (''lf_sflt_s'', \<lambda>ps m. Inr (lf_sflt_s sf ps m)),
     (''l_cust1'', \<lambda>ps m. Inr m),
     (''l_cust2'', \<lambda>ps m. Inr m),
     (''l_cust3'', \<lambda>ps m. Inr m),
     (''l_cust4'', \<lambda>ps m. Inr m)]"

definition output_function :: "softfloat \<Rightarrow> u32 \<Rightarrow> string \<Rightarrow> operand list \<Rightarrow> machine \<Rightarrow> machine res" where
  "output_function sf rnd name ps m = (case map_of (insn_table sf rnd) name of Some f \<Rightarrow> f ps m | None \<Rightarrow> Inr m)"

end
