(* ===== verification/Decode.thy ===== *)
theory Decode
  imports Opcodes
begin

text \<open>
  Instruction decoding (\<open>cpu/or32/or32.c\<close>): bit patterns of the encodings, the decision automaton with its
  builder and its interpreter, the operand descriptors, and the extraction of operands. \<open>unsigned long\<close> is
  \<open>'a word\<close>: its width depends on the host, and the code depends on it. The automaton is the array the code
  builds, as a list; the numbers \<open>in_pass\<close> that mark the instructions of a pass are the list of their indices.
\<close>

section \<open>Characters\<close>

definition char_code :: "char \<Rightarrow> nat" where
  "char_code c = of_char c"

definition isalpha :: "char \<Rightarrow> bool" where
  "isalpha c = (let n = char_code c in 65 \<le> n \<and> n \<le> 90 \<or> 97 \<le> n \<and> n \<le> 122)"

definition islower :: "char \<Rightarrow> bool" where
  "islower c = (let n = char_code c in 97 \<le> n \<and> n \<le> 122)"

definition hex_digit :: "char \<Rightarrow> nat option" where
  "hex_digit c =
     (let n = char_code c
      in if 48 \<le> n \<and> n \<le> 57 then Some (n - 48)
         else if 65 \<le> n \<and> n \<le> 70 then Some (n - 55)
         else if 97 \<le> n \<and> n \<le> 102 then Some (n - 87) else None)"

text \<open>\<open>strtol (s, NULL, 16)\<close> of a string of digits.\<close>

fun strtol16 :: "nat \<Rightarrow> string \<Rightarrow> nat" where
  "strtol16 v [] = v"
| "strtol16 v (c # cs) = (case hex_digit c of Some d \<Rightarrow> strtol16 (16 * v + d) cs | None \<Rightarrow> v)"

abbreviation (input) starts_hex :: "char \<Rightarrow> string \<Rightarrow> bool" where
  "starts_hex c cs \<equiv> c = CHR ''0'' \<and> take 1 cs = ''x''"

section \<open>Letters\<close>

definition letter_signed :: "char \<Rightarrow> bool" where
  "letter_signed l = (case map_of or32_letters l of Some sign \<Rightarrow> sign | None \<Rightarrow> False)"

text \<open>The positions a letter takes in an encoding.\<close>

fun letter_count :: "char \<Rightarrow> string \<Rightarrow> nat" where
  "letter_count l [] = 0"
| "letter_count l (c # cs) =
     (if starts_hex c cs then letter_count l (drop 2 cs) else of_bool (c = l) + letter_count l cs)"

text \<open>The first instruction that uses the letter tells its width; \<open>range_cache\<close> only keeps the result.\<close>

definition letter_range :: "char \<Rightarrow> nat res" where
  "letter_range l =
     (case find (\<lambda>pinsn. l \<in> set (encoding pinsn)) or32_opcodes of
        Some pinsn \<Rightarrow> Inr (letter_count l (encoding pinsn))
      | None \<Rightarrow> Inl Exit_failure)"

section \<open>Bit patterns\<close>

text \<open>\<open>1 << pos\<close> is an \<open>int\<close>, converted to \<open>unsigned long\<close>: bit 31 is the sign.\<close>

definition int_bit :: "nat \<Rightarrow> 'a::len word" where
  "int_bit pos = scast (push_bit pos 1 :: u32)"

function insn_extract_from :: "char \<Rightarrow> string \<Rightarrow> nat \<Rightarrow> 'a::len word \<Rightarrow> 'a word" where
  "insn_extract_from p [] opc_pos ret = ret"
| "insn_extract_from p (c # cs) opc_pos ret =
     (if starts_hex c cs
      then let tmp = strtol16 0 (drop 1 cs)
           in insn_extract_from p (drop 2 cs) (opc_pos - 4)
                (if p = CHR ''0'' then ret OR push_bit (opc_pos - 4) (of_nat (15 - tmp))
                 else if p = CHR ''1'' then ret OR push_bit (opc_pos - 4) (of_nat tmp)
                 else ret)
      else if c = CHR ''0'' \<or> c = CHR ''1'' \<or> c = CHR ''-'' \<or> isalpha c
      then insn_extract_from p cs (opc_pos - 1) (if p = c then ret OR int_bit (opc_pos - 1) else ret)
      else insn_extract_from p cs opc_pos ret)"
  by pat_completeness auto
termination by (relation "measure (\<lambda>(_, cs, _, _). length cs)") auto

definition insn_extract :: "char \<Rightarrow> string \<Rightarrow> 'a::len word" where
  "insn_extract p enc = insn_extract_from p enc 32 0"

section \<open>The automaton\<close>

abbreviation (input) LEAF_FLAG :: "'a::len word" where "LEAF_FLAG \<equiv> 0x80000000"
abbreviation (input) MAX_AUTOMATA_SIZE :: nat where "MAX_AUTOMATA_SIZE \<equiv> 1200"
abbreviation (input) MAX_OP_TABLE_SIZE :: nat where "MAX_OP_TABLE_SIZE \<equiv> 1200"
abbreviation (input) MAX_LEN :: nat where "MAX_LEN \<equiv> 8"

record (overloaded) 'a temp_insn =
  ti_insn :: "('a::len) word"
  ti_mask :: "'a word"

text \<open>\<open>(1 << len) - 1\<close>.\<close>

abbreviation (input) low_ones :: "nat \<Rightarrow> 'a::len word" where
  "low_ones len \<equiv> 2 ^ len - 1"

text \<open>The inner loop over the lengths at bit \<open>i\<close>: it stops at the first that does not fit.\<close>

fun longer_match :: "'a::len word \<Rightarrow> nat \<Rightarrow> nat list \<Rightarrow> nat \<times> nat \<Rightarrow> nat \<times> nat" where
  "longer_match cur_mask i [] best = best"
| "longer_match cur_mask i (len # lens) best =
     (if low_ones len AND drop_bit i cur_mask = low_ones len then longer_match cur_mask i lens (i, len) else best)"

text \<open>The longest run of bits all instructions of the pass fix: \<open>best_first\<close> and \<open>best_len\<close>.\<close>

definition best_match :: "'a::len word \<Rightarrow> nat \<times> nat" where
  "best_match cur_mask =
     fold (\<lambda>i best. longer_match cur_mask i [snd best + 1..<min MAX_LEN (33 - i)] best) [0..<32] (0, 0)"

text \<open>Instructions of the pass with value \<open>i\<close> in the bits \<open>first ..< first + len\<close>.\<close>

definition goes_to :: "'a::len temp_insn list \<Rightarrow> nat \<Rightarrow> nat \<Rightarrow> nat \<Rightarrow> nat \<Rightarrow> bool" where
  "goes_to ti first len i j \<longleftrightarrow>
     drop_bit first (ti_insn (ti ! j)) AND low_ones len = of_nat i
     \<and> drop_bit first (ti_mask (ti ! j)) AND low_ones len = low_ones len"

definition pass_mask :: "'a::len temp_insn list \<Rightarrow> u32 \<Rightarrow> nat list \<Rightarrow> 'a word" where
  "pass_mask ti msk pass = fold (\<lambda>j cur_mask. cur_mask AND ti_mask (ti ! j)) pass (ucast msk)"

definition sub_mask :: "u32 \<Rightarrow> nat \<Rightarrow> nat \<Rightarrow> u32" where
  "sub_mask msk first len = msk AND NOT (push_bit first (low_ones len))"

definition popcount :: "u32 \<Rightarrow> nat" where
  "popcount w = card {i. i < 32 \<and> bit w i}"

text \<open>
  \<open>cover_insn\<close> returns the segment of the array it fills from index \<open>base\<close> on; it is empty where the code
  returns a null pointer. Its loop over the values of the chosen bits returns the pointers and the segments
  behind them; the instructions moved to a child leave the pass.
\<close>

lemma low_ones_bit: "bit (low_ones n :: 'a::len word) k \<longleftrightarrow> k < n \<and> k < LENGTH('a)"
  using bit_mask_iff[of n k, where 'a = "'a word"] by (auto simp: mask_eq_decr_exp)

lemma popcount_sub_mask:
  assumes "bit msk i" and "first \<le> i" and "i < first + len"
  shows "popcount (sub_mask msk first len) < popcount msk"
proof -
  have i: "i < 32" using assms(1) bit_imp_le_length by fastforce
  have "\<not> bit (sub_mask msk first len) i"
    using assms i by (auto simp: sub_mask_def bit_simps low_ones_bit)
  then have "{k. k < 32 \<and> bit (sub_mask msk first len) k} \<subset> {k. k < 32 \<and> bit msk k}"
    using assms(1) i by (auto simp: sub_mask_def bit_simps)
  then show ?thesis unfolding popcount_def by (rule psubset_card_mono[rotated]) simp
qed

definition fits :: "'a::len word \<Rightarrow> nat \<times> nat \<Rightarrow> bool" where
  "fits c best \<longleftrightarrow> snd best < MAX_LEN \<and> fst best + snd best \<le> 32 \<and> low_ones (snd best) AND drop_bit (fst best) c = low_ones (snd best)"

lemma longer_match_fits:
  "fits c best \<Longrightarrow> \<forall>len \<in> set lens. len < MAX_LEN \<and> i + len \<le> 32 \<Longrightarrow> fits c (longer_match c i lens best)"
  by (induction lens arbitrary: best) (auto simp: fits_def)

lemma best_match_fits: "fits c (best_match c)"
proof -
  have "fits c (fold (\<lambda>i best. longer_match c i [snd best + 1..<min 8 (33 - i)] best) is (0, 0))" for "is"
    by (induction "is" rule: rev_induct) (auto simp: fits_def[of c "(0, 0)"] intro!: longer_match_fits)
  then show ?thesis by (simp add: best_match_def)
qed

lemma pass_mask_bit:
  "bit (pass_mask ti msk pass) i \<longleftrightarrow> bit (ucast msk :: 'a::len word) i \<and> (\<forall>j \<in> set pass. bit (ti_mask (ti ! j) :: 'a word) i)"
proof -
  have "bit (fold (\<lambda>j c. c AND ti_mask (ti ! j)) pass c) i \<longleftrightarrow> bit c i \<and> (\<forall>j \<in> set pass. bit (ti_mask (ti ! j)) i)"
    for c :: "'a word" by (induction pass arbitrary: c) (auto simp: bit_and_iff)
  then show ?thesis by (simp add: pass_mask_def)
qed

lemma best_match_bits:
  assumes "best_match (pass_mask ti msk pass :: 'a::len word) = (first, len)" and "32 \<le> LENGTH('a)"
    and "first \<le> i" and "i < first + len"
  shows "bit msk i" and "j \<in> set pass \<Longrightarrow> bit (ti_mask (ti ! j)) i"
proof -
  let ?c = "pass_mask ti msk pass :: 'a word"
  have f: "fits ?c (first, len)" using best_match_fits[of ?c] assms(1) by simp
  then have "bit (low_ones len AND drop_bit first ?c) (i - first) = bit (low_ones len :: 'a word) (i - first)"
    by (simp add: fits_def)
  then have "bit ?c i" using assms f by (auto simp: bit_simps low_ones_bit fits_def)
  then show "bit msk i" "j \<in> set pass \<Longrightarrow> bit (ti_mask (ti ! j)) i"
    by (auto simp: pass_mask_bit bit_simps)
qed

lemma best_match_first:
  assumes "best_match (pass_mask ti msk pass :: 'a::len word) = (first, len)" and "len \<noteq> 0"
  shows "bit msk first"
proof -
  let ?c = "pass_mask ti msk pass :: 'a word"
  have f: "fits ?c (first, len)" using best_match_fits[of ?c] assms(1) by simp
  then have "bit (low_ones len AND drop_bit first ?c) 0 = bit (low_ones len :: 'a word) 0"
    by (simp add: fits_def)
  then have "bit ?c first" using assms(2) by (simp add: bit_and_iff low_ones_bit bit_drop_bit_eq)
  then show ?thesis by (simp add: pass_mask_bit bit_simps)
qed

function cover_insn :: "'a::len temp_insn list \<Rightarrow> nat \<Rightarrow> u32 \<Rightarrow> nat list \<Rightarrow> 'a word list res"
  and cover_children :: "'a temp_insn list \<Rightarrow> nat \<Rightarrow> u32 \<Rightarrow> nat \<Rightarrow> nat \<Rightarrow> nat list \<Rightarrow> nat list \<Rightarrow> ('a word list \<times> 'a word list) res"
where
  "cover_insn ti base msk [] = Inr []"
| "cover_insn ti base msk [j] = Inr [LEAF_FLAG OR of_nat j]"
| "cover_insn ti base msk (j # j' # js) =
     (let pass = j # j' # js;
          (first, len) = best_match (pass_mask ti msk pass)
      in if len = 0 then Inl Exit_failure
         else bind_res (cover_children ti (base + 2 + 2 ^ len) (sub_mask msk first len) first len pass [0..<2 ^ len])
                (\<lambda>(nexts, segments). Inr ([of_nat first, low_ones len] @ nexts @ segments)))"
| "cover_children ti base msk first len pass [] = Inr ([], [])"
| "cover_children ti base msk first len pass (i # is) =
     bind_res (cover_insn ti base msk (filter (goes_to ti first len i) pass)) (\<lambda>segment.
       bind_res (cover_children ti (base + length segment) msk first len (filter (\<lambda>j. \<not> goes_to ti first len i j) pass) is)
         (\<lambda>(nexts, segments). Inr ((if segment = [] then 0 else of_nat base) # nexts, segment @ segments)))"
  by pat_completeness auto
termination
proof (relation "measures [\<lambda>x. case x of Inl (_, _, m, _) \<Rightarrow> popcount m | Inr (_, _, m, _) \<Rightarrow> popcount m,
    \<lambda>x. case x of Inl _ \<Rightarrow> 0 | Inr (_, _, _, _, _, _, is) \<Rightarrow> Suc (length is)]", goal_cases)
  case (2 ti base msk j j' js x y first len)
  then have "bit msk first" by (intro best_match_first[of ti msk x first len]) simp_all
  then have "popcount (sub_mask msk first len) < popcount msk"
    using 2(4) popcount_sub_mask[of msk first first len] by simp
  then show ?case by simp
qed simp_all

declare cover_insn.simps(3) [simp del]

text \<open>Until all are covered: the table of patterns and the automaton of a list of opcodes.\<close>

definition temp_insn :: "or32_opcode \<Rightarrow> 'a::len temp_insn" where
  "temp_insn oc =
     (let ones = insn_extract CHR ''1'' (encoding oc); zeros = insn_extract CHR ''0'' (encoding oc)
      in \<lparr>ti_insn = ones, ti_mask = ones OR zeros\<rparr>)"

text \<open>The size is checked when the array has already been written beyond its end.\<close>

definition build_automata :: "or32_opcode list \<Rightarrow> ('a::len temp_insn list \<times> 'a word list) res" where
  "build_automata opcodes =
     (let ti = map temp_insn opcodes
      in bind_res (cover_insn ti 0 (-1) [0..<length opcodes]) (\<lambda>automata.
           if MAX_AUTOMATA_SIZE < length automata then Inl Host_undef else Inr (ti, automata)))"

text \<open>
  The walk to a leaf: \<open>Some None\<close> where the pointer is null. That it ends is a property of the automaton.
\<close>

partial_function (option) find_leaf :: "'a::len word list \<Rightarrow> u32 \<Rightarrow> nat \<Rightarrow> 'a word option option" where
  "find_leaf a insn pos =
     (if a ! pos AND LEAF_FLAG \<noteq> 0 then Some (Some (a ! pos))
      else
        let first = unat (a ! pos); i = unat (ucast (drop_bit first insn) AND a ! (pos + 1));
            nxt = a ! (pos + 2 + i)
        in if nxt = 0 then Some None else find_leaf a insn (unat nxt))"

definition insn_matches :: "'a::len temp_insn list \<Rightarrow> nat \<Rightarrow> u32 \<Rightarrow> bool" where
  "insn_matches ti j insn \<longleftrightarrow> ti_mask (ti ! j) AND ucast insn = ti_insn (ti ! j)"

definition insn_decode :: "'a::len temp_insn list \<Rightarrow> 'a word list \<Rightarrow> u32 \<Rightarrow> int option" where
  "insn_decode ti automata insn =
     (case find_leaf automata insn 0 of
        None \<Rightarrow> None
      | Some None \<Rightarrow> Some (-1)
      | Some (Some a) \<Rightarrow>
          let i = unat (a AND NOT LEAF_FLAG) in Some (if insn_matches ti i insn then int i else -1))"

section \<open>The generated decoder\<close>

text \<open>
  \<open>cpu/or32/generate.c\<close> writes the automaton as nested \<open>switch\<close> statements. The walk of \<open>generate_body\<close> on
  the path a word takes, with the bits compared on the way; at a leaf a comparison is written only if the
  instruction fixes other bits. The constants are printed with \<open>%x\<close>, their low 32 bits.
\<close>

partial_function (option) body_leaf :: "'a::len word list \<Rightarrow> u32 \<Rightarrow> nat \<Rightarrow> 'a word \<Rightarrow> ('a word \<times> 'a word) option option" where
  "body_leaf a insn pos cur_mask =
     (if a ! pos AND LEAF_FLAG \<noteq> 0 then Some (Some (a ! pos, cur_mask))
      else
        let shift = unat (a ! pos); msk = a ! (pos + 1); i = unat (ucast (drop_bit shift insn) AND msk);
            nxt = a ! (pos + 2 + i)
        in if nxt = 0 then Some None else body_leaf a insn (unat nxt) (cur_mask OR push_bit shift msk))"

definition insn_matches32 :: "'a::len temp_insn list \<Rightarrow> nat \<Rightarrow> u32 \<Rightarrow> bool" where
  "insn_matches32 ti j insn \<longleftrightarrow> ucast (ti_mask (ti ! j)) AND insn = (ucast (ti_insn (ti ! j)) :: u32)"

text \<open>The code a word reaches: a \<open>case\<close> without instruction, the \<open>else\<close> of a comparison, an instruction.\<close>

datatype generated = Case_invalid | Check_invalid nat | Insn_case nat

definition generated_decode :: "'a::len temp_insn list \<Rightarrow> 'a word list \<Rightarrow> u32 \<Rightarrow> generated option" where
  "generated_decode ti automata insn =
     (case body_leaf automata insn 0 0 of
        None \<Rightarrow> None
      | Some None \<Rightarrow> Some Case_invalid
      | Some (Some (a, cur_mask)) \<Rightarrow>
          let i = unat (a AND NOT LEAF_FLAG)
          in Some (if ti_mask (ti ! i) = cur_mask \<or> insn_matches32 ti i insn then Insn_case i else Check_invalid i))"

section \<open>The automaton decodes\<close>

text \<open>The generated code goes the way of the decoder.\<close>

lemma body_leaf_find:
  "body_leaf a w pos c = Some r \<Longrightarrow> find_leaf a w pos = Some (map_option fst r)"
proof (induct a w pos c r rule: body_leaf.raw_induct[rotated, consumes 1])
  case (1 body a w pos c r)
  show ?case
    using 1(2) by (subst find_leaf.simps) (auto simp: Let_def split: if_splits intro: 1(1))
qed

lemma matches32_bit:
  fixes ti :: "'a::len temp_insn list"
  assumes "insn_matches32 ti j w" and "k < 32" and "32 \<le> LENGTH('a)"
  shows "bit (ti_insn (ti ! j)) k \<longleftrightarrow> bit (ti_mask (ti ! j)) k \<and> bit w k"
proof -
  have "bit (ucast (ti_mask (ti ! j)) AND w) k = bit (ucast (ti_insn (ti ! j)) :: u32) k"
    using assms(1) by (simp add: insn_matches32_def)
  then show ?thesis using assms(2,3) by (auto simp: bit_simps)
qed

lemma matches_matches32:
  fixes ti :: "'a::len temp_insn list"
  assumes "insn_matches ti j w" and "32 \<le> LENGTH('a)"
  shows "insn_matches32 ti j w"
  unfolding insn_matches32_def assms(1)[unfolded insn_matches_def, symmetric]
  by (rule bit_word_eqI) (use assms(2) in \<open>auto simp: bit_simps\<close>)

lemma matches32_matches:
  fixes ti :: "'a::len temp_insn list"
  assumes "insn_matches32 ti j w" and "LENGTH('a) = 32"
  shows "insn_matches ti j w"
  unfolding insn_matches_def
proof (rule bit_word_eqI)
  fix n assume "n < LENGTH('a)"
  then have n: "n < 32" using assms(2) by simp
  show "bit (ti_mask (ti ! j) AND ucast w) n = bit (ti_insn (ti ! j)) n"
    using matches32_bit[OF assms(1) n] n assms(2) by (simp add: bit_simps)
qed

text \<open>The bits compared on the way are fixed by the instruction, as the word has them.\<close>

definition agrees :: "'a::len temp_insn list \<Rightarrow> u32 \<Rightarrow> nat \<Rightarrow> 'a word \<Rightarrow> bool" where
  "agrees ti w j c \<longleftrightarrow>
     (\<forall>k. bit c k \<longrightarrow> k < 32 \<and> bit (ti_mask (ti ! j)) k \<and> (bit (ti_insn (ti ! j)) k \<longleftrightarrow> bit w k))"

definition placed :: "'a list \<Rightarrow> nat \<Rightarrow> 'a list \<Rightarrow> bool" where
  "placed a base xs \<longleftrightarrow> (\<forall>k < length xs. base + k < length a \<and> a ! (base + k) = xs ! k)"

lemma placed_appendD:
  assumes "placed a base (xs @ ys)"
  shows "placed a base xs" and "placed a (base + length xs) ys"
proof -
  from assms show "placed a base xs" by (simp add: placed_def nth_append)
  show "placed a (base + length xs) ys"
    unfolding placed_def
  proof (intro allI impI)
    fix k assume "k < length ys"
    with assms have "base + (length xs + k) < length a \<and> a ! (base + (length xs + k)) = (xs @ ys) ! (length xs + k)"
      unfolding placed_def by (metis add_less_cancel_left length_append)
    then show "base + length xs + k < length a \<and> a ! (base + length xs + k) = ys ! k"
      by (simp add: nth_append add.assoc)
  qed
qed

lemma placed_ConsD:
  assumes "placed a base (x # xs)"
  shows "base < length a" and "a ! base = x" and "placed a (Suc base) xs"
  using placed_appendD[of a base "[x]" xs] assms by (auto simp: placed_def)

text \<open>The walk from \<open>pos\<close> ends, at the leaf of the instruction that matches if one does.\<close>

definition leads_to :: "'a::len temp_insn list \<Rightarrow> u32 \<Rightarrow> nat list \<Rightarrow> ('a word \<times> 'a word) option \<Rightarrow> bool" where
  "leads_to ti w pass r \<longleftrightarrow>
     (\<forall>j \<in> set pass. insn_matches32 ti j w \<longrightarrow> map_option fst r = Some (LEAF_FLAG OR of_nat j))
     \<and> (\<forall>v c. r = Some (v, c) \<longrightarrow> (\<exists>j \<in> set pass. v = LEAF_FLAG OR of_nat j \<and> agrees ti w j c))"

definition leads :: "'a::len temp_insn list \<Rightarrow> 'a word list \<Rightarrow> u32 \<Rightarrow> nat list \<Rightarrow> nat \<Rightarrow> bool" where
  "leads ti a w pass pos \<longleftrightarrow>
     (\<forall>c. (\<forall>j \<in> set pass. agrees ti w j c) \<longrightarrow> (\<exists>r. body_leaf a w pos c = Some r \<and> leads_to ti w pass r))"

lemma of_nat_word_inject:
  assumes "(of_nat i :: 'a::len word) = of_nat k" and "32 \<le> LENGTH('a)" and "i < 2 ^ 32" and "k < 2 ^ 32"
  shows "i = k"
proof -
  have "(2::nat) ^ 32 \<le> 2 ^ LENGTH('a)" using assms(2) by (rule power_increasing) simp
  then have "i < 2 ^ LENGTH('a)" "k < 2 ^ LENGTH('a)" using assms(3,4) by linarith+
  then show ?thesis using arg_cong[OF assms(1), of unat] by (simp add: unat_of_nat)
qed

lemma unat_of_nat_32:
  "32 \<le> LENGTH('a) \<Longrightarrow> i < 2 ^ 32 \<Longrightarrow> unat (of_nat i :: 'a::len word) = i"
  using power_increasing[of 32 "LENGTH('a)" "2::nat"] by (simp add: unat_of_nat)

lemma leaf_flag_small:
  assumes "32 \<le> LENGTH('a)" and "n < 2 ^ 31"
  shows "(of_nat n :: 'a::len word) AND LEAF_FLAG = 0"
    and "(LEAF_FLAG OR of_nat n :: 'a word) AND LEAF_FLAG \<noteq> 0"
    and "(LEAF_FLAG OR of_nat n :: 'a word) AND NOT LEAF_FLAG = of_nat n"
proof -
  have f: "bit (LEAF_FLAG :: 'a word) k \<longleftrightarrow> k = 31" for k
  proof -
    have "(LEAF_FLAG :: 'a word) = 2 ^ 31" by simp
    then show ?thesis using assms(1) by (simp only: bit_exp_iff possible_bit_word) auto
  qed
  have n: "\<not> bit (of_nat n :: 'a word) k" if "31 \<le> k" for k
  proof -
    have "n < 2 ^ k" using assms(2) power_increasing[OF that, of "2::nat"] by linarith
    then have "\<not> bit n k" by (simp add: bit_iff_odd)
    then show ?thesis by (simp add: bit_of_nat_iff_bit bit_of_nat_iff)
  qed
  show "(of_nat n :: 'a word) AND LEAF_FLAG = 0"
    by (rule bit_word_eqI) (unfold bit_and_iff f, use n in auto)
  have "bit ((LEAF_FLAG OR of_nat n :: 'a word) AND LEAF_FLAG) 31" by (simp only: bit_and_iff bit_or_iff f) simp
  then show "(LEAF_FLAG OR of_nat n :: 'a word) AND LEAF_FLAG \<noteq> 0" by (metis bit_0_eq bot_apply bot_bool_def)
  show "(LEAF_FLAG OR of_nat n :: 'a word) AND NOT LEAF_FLAG = of_nat n"
    by (rule bit_word_eqI) (unfold bit_and_iff bit_or_iff bit_not_iff f, use n in auto)
qed

text \<open>An instruction that matches goes where the automaton goes.\<close>

lemma matches_goes_to:
  assumes best: "best_match (pass_mask ti msk pass :: 'a::len word) = (first, len)" and l: "32 \<le> LENGTH('a)"
    and j: "j \<in> set pass" and m: "insn_matches32 ti j w"
  shows "goes_to ti first len (unat (ucast (drop_bit first w) AND low_ones len :: 'a word)) j"
proof -
  have f: "first + len \<le> 32" using best_match_fits[of "pass_mask ti msk pass"] best by (simp add: fits_def)
  note b = best_match_bits(2)[OF best l _ _ j]
  have "drop_bit first (ti_insn (ti ! j)) AND low_ones len = ucast (drop_bit first w) AND low_ones len"
    by (rule bit_word_eqI) (use f l b matches32_bit[OF m _ l] in \<open>auto simp: bit_simps low_ones_bit\<close>)
  moreover have "drop_bit first (ti_mask (ti ! j)) AND low_ones len = low_ones len"
    by (rule bit_word_eqI) (use f l b in \<open>auto simp: bit_simps low_ones_bit\<close>)
  ultimately show ?thesis by (simp add: goes_to_def)
qed

lemma goes_to_agrees:
  fixes ti :: "'a::len temp_insn list"
  assumes g: "goes_to ti first len (unat (ucast (drop_bit first w) AND low_ones len :: 'a word)) j"
    and f: "first + len \<le> 32" and l: "32 \<le> LENGTH('a)" and c: "agrees ti w j c"
  shows "agrees ti w j (c OR push_bit first (low_ones len))"
proof -
  have i: "drop_bit first (ti_insn (ti ! j)) AND low_ones len = ucast (drop_bit first w) AND low_ones len"
    and m: "drop_bit first (ti_mask (ti ! j)) AND low_ones len = low_ones len"
    using g by (simp_all add: goes_to_def)
  have "bit (ti_mask (ti ! j)) k \<and> (bit (ti_insn (ti ! j)) k \<longleftrightarrow> bit w k)" if "first \<le> k" "k < first + len" for k
    using arg_cong[OF i, of "\<lambda>x. bit x (k - first)"] arg_cong[OF m, of "\<lambda>x. bit x (k - first)"] that f l
    by (simp add: bit_simps low_ones_bit less_diff_conv2)
  then show ?thesis using c f by (auto simp: agrees_def bit_simps low_ones_bit less_diff_conv2)
qed

lemma low_ones_unat: "unat (x AND low_ones len :: 'a::len word) < 2 ^ len"
proof -
  have "x AND low_ones len = take_bit len x"
    by (rule bit_word_eqI) (auto simp: bit_simps low_ones_bit)
  then show ?thesis by (simp add: unsigned_take_bit_eq take_bit_nat_less_exp)
qed

lemma find_leaf_leaf: "a ! pos AND LEAF_FLAG \<noteq> 0 \<Longrightarrow> find_leaf a w pos = Some (Some (a ! pos))"
  by (subst find_leaf.simps) simp

lemma body_leaf_leaf: "a ! pos AND LEAF_FLAG \<noteq> 0 \<Longrightarrow> body_leaf a w pos c = Some (Some (a ! pos, c))"
  by (subst body_leaf.simps) simp

lemma body_leaf_node:
  fixes a :: "'a::len word list"
  assumes "a ! pos = of_nat first" and "(of_nat first :: 'a::len word) AND LEAF_FLAG = 0" and "unat (of_nat first :: 'a word) = first"
    and "a ! Suc pos = low_ones len" and "i = unat (ucast (drop_bit first w) AND low_ones len :: 'a word)"
  shows "body_leaf a w pos c = (if a ! (pos + 2 + i) = 0 then Some None
     else body_leaf a w (unat (a ! (pos + 2 + i))) (c OR push_bit first (low_ones len)))"
  using assms by (subst body_leaf.simps) (simp add: Let_def)

text \<open>What the pointers of a node lead to.\<close>

definition child_ok :: "'a::len temp_insn list \<Rightarrow> 'a word list \<Rightarrow> u32 \<Rightarrow> nat list \<Rightarrow> 'a word \<Rightarrow> bool" where
  "child_ok ti a w pass nxt \<longleftrightarrow> (if pass = [] then nxt = 0 else nxt \<noteq> 0 \<and> leads ti a w pass (unat nxt))"

lemma leads_node:
  assumes child: "child_ok ti a w (filter g pass) nxt" and go: "\<And>j. j \<in> set pass \<Longrightarrow> insn_matches32 ti j w \<Longrightarrow> g j"
    and agree: "\<And>j c. g j \<Longrightarrow> agrees ti w j c \<Longrightarrow> agrees ti w j (f c)"
    and node: "\<And>c. body_leaf a w pos c = (if nxt = 0 then Some None else body_leaf a w (unat nxt) (f c))"
  shows "leads ti a w pass pos"
proof (cases "filter g pass = []")
  case True
  then have "\<forall>j \<in> set pass. \<not> insn_matches32 ti j w" using go by (auto simp: filter_empty_conv)
  then show ?thesis using True child node by (simp add: leads_def leads_to_def child_ok_def)
next
  case False
  then have n: "nxt \<noteq> 0" "leads ti a w (filter g pass) (unat nxt)" using child by (simp_all add: child_ok_def)
  show ?thesis
    unfolding leads_def
  proof (intro allI impI)
    fix c assume "\<forall>j \<in> set pass. agrees ti w j c"
    then have "\<forall>j \<in> set (filter g pass). agrees ti w j (f c)" using agree by auto
    with n(2) obtain r where r: "body_leaf a w (unat nxt) (f c) = Some r" "leads_to ti w (filter g pass) r"
      unfolding leads_def by blast
    from r(2) go have "leads_to ti w pass r" unfolding leads_to_def by auto
    then show "\<exists>r. body_leaf a w pos c = Some r \<and> leads_to ti w pass r" using r(1) n(1) node by simp
  qed
qed

lemma cover_insn_nonempty: "cover_insn ti base msk pass = Inr seg \<Longrightarrow> seg = [] \<longleftrightarrow> pass = []"
  by (cases "(ti, base, msk, pass)" rule: cover_insn.cases)
     (auto simp: cover_insn.simps Let_def split: prod.splits if_splits elim!: bind_res_InrE)

lemma cover_children_length:
  "cover_children ti base msk first len pass is = Inr (nexts, segs) \<Longrightarrow> length nexts = length is"
  by (induction "is" arbitrary: base pass nexts segs) (auto elim!: bind_res_InrE)

lemma filter_goes_to:
  fixes ti :: "'a::len temp_insn list"
  assumes "32 \<le> LENGTH('a)" and "i < 2 ^ 32" and "v < 2 ^ 32" and "v \<noteq> i"
  shows "filter (goes_to ti first len v) (filter (\<lambda>j. \<not> goes_to ti first len i j) pass) = filter (goes_to ti first len v) pass"
proof -
  have "\<not> goes_to ti first len i j" if "goes_to ti first len v j" for j
    using that of_nat_word_inject[OF _ assms(1,3,2)] assms(4) by (auto simp: goes_to_def)
  then show ?thesis by (auto intro: filter_cong)
qed

lemma cover_leads:
  fixes a :: "'a::len word list"
  assumes l: "32 \<le> LENGTH('a)" and len_a: "length a < 2 ^ 31"
  shows "cover_insn ti base msk pass = Inr seg \<Longrightarrow> placed a base seg \<Longrightarrow> pass \<noteq> [] \<Longrightarrow> \<forall>j \<in> set pass. j < 2 ^ 31
      \<Longrightarrow> leads ti a w pass base"
    and "cover_children ti base msk first len pass is = Inr (nexts, segs) \<Longrightarrow> placed a base segs \<Longrightarrow> 0 < base
      \<Longrightarrow> \<forall>j \<in> set pass. j < 2 ^ 31 \<Longrightarrow> distinct is \<Longrightarrow> \<forall>i \<in> set is. i < 2 ^ 32
      \<Longrightarrow> length nexts = length is \<and> (\<forall>k < length is. child_ok ti a w (filter (goes_to ti first len (is ! k)) pass) (nexts ! k))"
proof (induction ti base msk pass and ti base msk first len pass "is" arbitrary: seg and nexts segs
    rule: cover_insn_cover_children.induct)
  case (1 ti base msk)
  then show ?case by simp
next
  case (2 ti base msk j)
  then have "a ! base = LEAF_FLAG OR of_nat j" by (auto dest: placed_ConsD)
  with leaf_flag_small(2)[OF l, of j] 2 have "body_leaf a w base c = Some (Some (LEAF_FLAG OR of_nat j, c))" for c
    by (simp add: body_leaf_leaf)
  then show ?case by (simp add: leads_def leads_to_def)
next
  case (3 ti base msk j j' js)
  let ?pass = "j # j' # js"
  obtain first len where best: "best_match (pass_mask ti msk ?pass) = (first, len)" by fastforce
  from 3(2) best obtain nexts segs where c: "len \<noteq> 0"
      "cover_children ti (base + 2 + 2 ^ len) (sub_mask msk first len) first len ?pass [0..<2 ^ len] = Inr (nexts, segs)"
      "seg = [of_nat first, low_ones len] @ nexts @ segs"
    by (auto simp: cover_insn.simps Let_def split: if_splits elim!: bind_res_InrE)
  have f: "first + len \<le> 32" "len < 8" using best_match_fits[of "pass_mask ti msk ?pass"] best by (simp_all add: fits_def)
  have small: "(2::nat) ^ len \<le> 2 ^ 32" using f by (intro power_increasing) simp_all
  have n: "length nexts = 2 ^ len" using cover_children_length[OF c(2)] by simp
  have p: "placed a base (of_nat first # low_ones len # nexts @ segs)" using 3(3) unfolding c(3) by simp
  note p1 = placed_ConsD[OF p] and p2 = placed_ConsD[OF placed_ConsD(3)[OF p]]
  have pl: "a ! base = of_nat first" "a ! Suc base = low_ones len" "placed a (base + 2) nexts" "placed a (base + 2 + 2 ^ len) segs"
    using p1(2) p2(2) placed_appendD[OF p2(3)] n by simp_all
  define i where "i = unat (ucast (drop_bit first w) AND low_ones len :: 'a word)"
  have i: "i < 2 ^ len" unfolding i_def by (rule low_ones_unat)
  have "child_ok ti a w (filter (goes_to ti first len i) ?pass) (nexts ! i)"
    using 3(1)[OF refl best[symmetric] refl c(1,2) pl(4)] 3(5) small i by (simp add: nth_upt)
  moreover have "a ! (base + 2 + i) = nexts ! i" using pl(3) i n by (simp add: placed_def)
  moreover have "body_leaf a w base c = (if a ! (base + 2 + i) = 0 then Some None
      else body_leaf a w (unat (a ! (base + 2 + i))) (c OR push_bit first (low_ones len)))" for c
    using f leaf_flag_small(1)[OF l, of first] unat_of_nat_32[OF l, of first] pl(1,2)
    by (intro body_leaf_node[of a base first len i w]) (simp_all add: i_def)
  moreover have "goes_to ti first len i j" if "j \<in> set ?pass" "insn_matches32 ti j w" for j
    unfolding i_def by (rule matches_goes_to[OF best l that])
  moreover have "agrees ti w j (c OR push_bit first (low_ones len))" if "goes_to ti first len i j" "agrees ti w j c" for j c
    using goes_to_agrees[OF _ f(1) l that(2)] that(1) by (simp add: i_def)
  ultimately show ?case
    using leads_node[of ti a w "goes_to ti first len i" ?pass "nexts ! i" "\<lambda>c. c OR push_bit first (low_ones len)" base]
    by simp
next
  case (4 ti base msk first len pass)
  then show ?case by simp
next
  case (5 ti base msk first len pass i "is")
  let ?moved = "filter (goes_to ti first len i) pass"
  let ?rest = "filter (\<lambda>j. \<not> goes_to ti first len i j) pass"
  from 5(3) obtain seg nexts' segs' where c: "cover_insn ti base msk ?moved = Inr seg"
      "cover_children ti (base + length seg) msk first len ?rest is = Inr (nexts', segs')"
      "nexts = (if seg = [] then 0 else of_nat base) # nexts'" "segs = seg @ segs'"
    by (auto elim!: bind_res_InrE)
  have pl: "placed a base seg" "placed a (base + length seg) segs'" using 5(4) placed_appendD unfolding c(4) by blast+
  have empty: "seg = [] \<longleftrightarrow> ?moved = []" by (rule cover_insn_nonempty[OF c(1)])
  have "child_ok ti a w ?moved (if seg = [] then 0 else of_nat base)"
  proof (cases "?moved = []")
    case True
    then show ?thesis using empty by (simp add: child_ok_def)
  next
    case False
    then have "base < length a" using pl(1) empty by (cases seg) (auto dest: placed_ConsD)
    then have b: "unat (of_nat base :: 'a word) = base" using len_a unat_of_nat_32[OF l, of base] by simp
    have "leads ti a w ?moved base" using 5(1)[OF c(1) pl(1) False] 5(6) by simp
    moreover have "(of_nat base :: 'a word) \<noteq> 0" using b 5(5) by auto
    ultimately show ?thesis using False empty b by (simp add: child_ok_def)
  qed
  moreover have "length nexts' = length is \<and> (\<forall>k < length is. child_ok ti a w (filter (goes_to ti first len (is ! k)) ?rest) (nexts' ! k))"
    using 5(2)[OF c(2) pl(2)] 5(5-8) by simp
  moreover have "filter (goes_to ti first len (is ! k)) ?rest = filter (goes_to ti first len (is ! k)) pass" if "k < length is" for k
    using 5(7,8) that by (intro filter_goes_to[OF l]) auto
  ultimately show ?case by (auto simp: c(3) nth_Cons split: nat.split)
qed

text \<open>Every outcome of the decoder.\<close>

definition decodes_to :: "'a::len temp_insn list \<Rightarrow> u32 \<Rightarrow> int \<Rightarrow> bool" where
  "decodes_to ti w r \<longleftrightarrow>
     (if r = -1 then \<forall>j < length ti. \<not> insn_matches ti j w
      else \<exists>j < length ti. r = int j \<and> insn_matches ti j w \<and> (\<forall>k < length ti. insn_matches ti k w \<longrightarrow> k = j))"

lemma decode_leads:
  fixes a :: "'a::len word list"
  assumes l: "32 \<le> LENGTH('a)" and n: "length ti < 2 ^ 31" and lead: "leads ti a w [0..<length ti] 0"
  shows "\<exists>r. insn_decode ti a w = Some r \<and> decodes_to ti w r"
proof -
  obtain q where q: "body_leaf a w 0 0 = Some q" "leads_to ti w [0..<length ti] q"
  proof -
    have "\<forall>j \<in> set [0..<length ti]. agrees ti w j 0" by (simp add: agrees_def)
    with lead show thesis unfolding leads_def using that by blast
  qed
  define r where "r = map_option fst q"
  have r: "find_leaf a w 0 = Some r" "\<And>j. j < length ti \<Longrightarrow> insn_matches ti j w \<Longrightarrow> r = Some (LEAF_FLAG OR of_nat j)"
      "\<And>v. r = Some v \<Longrightarrow> \<exists>j < length ti. v = LEAF_FLAG OR of_nat j"
  proof -
    show "find_leaf a w 0 = Some r" using body_leaf_find[OF q(1)] by (simp add: r_def)
    show "r = Some (LEAF_FLAG OR of_nat j)" if "j < length ti" "insn_matches ti j w" for j
      using q(2) that matches_matches32[OF _ l] by (auto simp: r_def leads_to_def)
    show "\<exists>j < length ti. v = LEAF_FLAG OR of_nat j" if "r = Some v" for v
      using q(2) that unfolding leads_to_def r_def by fastforce
  qed
  have leaf: "unat ((LEAF_FLAG OR of_nat j :: 'a word) AND NOT LEAF_FLAG) = j" if "j < length ti" for j
    using that n leaf_flag_small(3)[OF l, of j] unat_of_nat_32[OF l, of j] by simp
  show ?thesis
  proof (cases r)
    case None
    then show ?thesis using r by (auto simp: insn_decode_def decodes_to_def)
  next
    case (Some v)
    then obtain j where j: "j < length ti" "v = LEAF_FLAG OR of_nat j" using r(3) by blast
    have only: "k = j" if "k < length ti" "insn_matches ti k w" for k
    proof -
      have "v = LEAF_FLAG OR of_nat k" using r(2) that Some by blast
      then show ?thesis using leaf[OF that(1)] leaf[OF j(1)] j(2) by metis
    qed
    have dec: "insn_decode ti a w = Some (if insn_matches ti j w then int j else -1)"
      by (simp only: insn_decode_def r(1) Some j(2) option.case Let_def leaf[OF j(1)])
    show ?thesis
    proof (cases "insn_matches ti j w")
      case True
      with j(1) only have "\<exists>i < length ti. int j = int i \<and> insn_matches ti i w \<and> (\<forall>k < length ti. insn_matches ti k w \<longrightarrow> k = i)"
        by blast
      then have "decodes_to ti w (int j)" by (simp only: decodes_to_def) simp
      then show ?thesis using dec True by simp
    next
      case False
      have "\<not> insn_matches ti k w" if "k < length ti" for k using only[OF that] False by blast
      then have "decodes_to ti w (-1)" by (simp add: decodes_to_def)
      then show ?thesis using dec False by simp
    qed
  qed
qed

lemma generated_decode_leads:
  fixes ti :: "'a::len temp_insn list"
  assumes l: "32 \<le> LENGTH('a)" and n: "length ti < 2 ^ 31" and lead: "leads ti a w [0..<length ti] 0"
    and sub: "\<And>j k. j < length ti \<Longrightarrow> bit (ti_insn (ti ! j)) k \<Longrightarrow> bit (ti_mask (ti ! j)) k"
  shows "\<exists>g. generated_decode ti a w = Some g \<and> (\<forall>j. g = Insn_case j \<longleftrightarrow> j < length ti \<and> insn_matches32 ti j w)"
proof -
  have "\<forall>j \<in> set [0..<length ti]. agrees ti w j 0" by (simp add: agrees_def)
  with lead obtain q where q: "body_leaf a w 0 0 = Some q" "leads_to ti w [0..<length ti] q"
    unfolding leads_def by blast
  show ?thesis
  proof (cases q)
    case None
    then show ?thesis using q by (intro exI[of _ Case_invalid]) (auto simp: generated_decode_def leads_to_def)
  next
    case (Some p)
    obtain v c where p: "p = (v, c)" by fastforce
    then obtain j where j: "j < length ti" "v = LEAF_FLAG OR of_nat j" "agrees ti w j c"
      using q(2) Some unfolding leads_to_def by fastforce
    have leaf: "unat ((LEAF_FLAG OR of_nat k :: 'a word) AND NOT LEAF_FLAG) = k" if "k < length ti" for k
      using that n leaf_flag_small(3)[OF l, of k] unat_of_nat_32[OF l, of k] by simp
    have only: "k = j" if "k < length ti" "insn_matches32 ti k w" for k
    proof -
      have "v = LEAF_FLAG OR of_nat k" using q(2) that Some p by (auto simp: leads_to_def)
      then show ?thesis using leaf[OF that(1)] leaf[OF j(1)] j(2) by metis
    qed
    have no_check: "insn_matches32 ti j w" if "ti_mask (ti ! j) = c"
      unfolding insn_matches32_def
      by (rule bit_word_eqI) (use that j(3) sub[OF j(1)] l in \<open>auto simp: bit_simps agrees_def\<close>)
    have "generated_decode ti a w = Some (if insn_matches32 ti j w then Insn_case j else Check_invalid j)"
      using no_check
      by (simp only: generated_decode_def q(1) Some p j(2) option.case prod.case Let_def leaf[OF j(1)]) auto
    moreover have "(k < length ti \<and> insn_matches32 ti k w) \<longleftrightarrow> (k = j \<and> insn_matches32 ti j w)" for k
      using only j(1) by blast
    ultimately show ?thesis by auto
  qed
qed

lemma build_leads:
  fixes a :: "'a::len word list"
  assumes l: "32 \<le> LENGTH('a)" and built: "build_automata table = Inr (ti, a)" and n: "table \<noteq> []" "length table < 2 ^ 31"
  shows "ti = map temp_insn table" and "leads ti a w [0..<length ti] 0"
proof -
  have b: "ti = map temp_insn table" "cover_insn ti 0 (-1) [0..<length table] = Inr a" "length a \<le> 1200"
    using built by (auto simp: build_automata_def Let_def split: if_splits elim!: bind_res_InrE)
  show "ti = map temp_insn table" by (rule b(1))
  have "placed a 0 a" by (simp add: placed_def)
  then show "leads ti a w [0..<length ti] 0"
    using cover_leads(1)[OF l _ b(2)] b(1,3) n by simp
qed

lemma build_decodes:
  fixes a :: "'a::len word list"
  assumes "32 \<le> LENGTH('a)" and "build_automata table = Inr (ti, a)" and "table \<noteq> []" "length table < 2 ^ 31"
  shows "ti = map temp_insn table \<and> (\<exists>r. insn_decode ti a w = Some r \<and> decodes_to ti w r)"
  using build_leads(1)[OF assms] build_leads(2)[OF assms, of w] decode_leads[OF assms(1)] assms(4) by simp

lemma temp_insn_fixed: "bit (ti_insn (temp_insn oc) :: 'a::len word) k \<Longrightarrow> bit (ti_mask (temp_insn oc) :: 'a word) k"
  by (simp add: temp_insn_def Let_def bit_or_iff)

section \<open>Operand descriptors\<close>

abbreviation (input) OPTYPE_LAST :: "'a::len word" where "OPTYPE_LAST \<equiv> 0x80000000"
abbreviation (input) OPTYPE_OP :: "'a::len word" where "OPTYPE_OP \<equiv> 0x40000000"
abbreviation (input) OPTYPE_REG :: "'a::len word" where "OPTYPE_REG \<equiv> 0x20000000"
abbreviation (input) OPTYPE_SIG :: "'a::len word" where "OPTYPE_SIG \<equiv> 0x10000000"
abbreviation (input) OPTYPE_DIS :: "'a::len word" where "OPTYPE_DIS \<equiv> 0x08000000"
abbreviation (input) OPTYPE_DST :: "'a::len word" where "OPTYPE_DST \<equiv> 0x04000000"
abbreviation (input) OPTYPE_SBIT :: "'a::len word" where "OPTYPE_SBIT \<equiv> 0x00001f00"
abbreviation (input) OPTYPE_SHR :: "'a::len word" where "OPTYPE_SHR \<equiv> 0x0000001f"
abbreviation (input) OPTYPE_SBIT_SHR :: nat where "OPTYPE_SBIT_SHR \<equiv> 8"

record (overloaded) 'a insn_op =
  op_type :: "('a::len) word"
  op_data :: "'a word"

function num_ones :: "'a::len word \<Rightarrow> nat" where
  "num_ones v = (if v = 0 then 0 else of_bool (bit v 0) + num_ones (drop_bit 1 v))"
  by pat_completeness auto
termination
proof (relation "measure unat")
  fix v :: "'a word" assume "v \<noteq> 0"
  then have "unat v div 2 < unat v" by (simp add: unat_gt_0)
  then show "(drop_bit 1 v, v) \<in> measure unat" by (simp add: unat_div drop_bit_Suc)
qed simp

declare num_ones.simps [simp del]

text \<open>The runs of ones of a mask, the lowest first, as shift and length: \<open>shr\<close> counts zeros, \<open>mask\<close> ones.\<close>

definition ones_above :: "'a::len word \<Rightarrow> nat" where
  "ones_above w = length (takeWhile (bit w) [0..<LENGTH('a)])"

definition mask_runs :: "'a::len word \<Rightarrow> (nat \<times> nat) list" where
  "mask_runs arg =
     [(i, ones_above (drop_bit i arg)). i \<leftarrow> [0..<LENGTH('a)], bit arg i \<and> (i = 0 \<or> \<not> bit arg (i - 1))]"

text \<open>
  The parser of the operand string: the descriptors so far (the last first), the type flags of the operand
  under way and the number of its descriptors. A flag set on a descriptor that does not exist would reach
  into the previous instruction.
\<close>

definition flag_last :: "('a::len word \<Rightarrow> 'a word) \<Rightarrow> 'a insn_op list \<Rightarrow> 'a insn_op list res" where
  "flag_last f ds = (case ds of [] \<Rightarrow> Inl Host_undef | d # ds \<Rightarrow> Inr (d\<lparr>op_type := f (op_type d)\<rparr> # ds))"

fun parse_args :: "string \<Rightarrow> string \<Rightarrow> 'a::len word \<Rightarrow> nat \<Rightarrow> 'a insn_op list \<Rightarrow> 'a insn_op list res" where
  "parse_args enc [] ty n ds = flag_last (\<lambda>t. ty OR t OR OPTYPE_OP OR OPTYPE_LAST) ds"
| "parse_args enc (c # cs) ty n ds =
     (if c = CHR ''r''
      then parse_args enc cs (ty OR OPTYPE_REG OR (if take 1 cs = ''D'' then OPTYPE_DST else 0)) n ds
      else if isalpha c
      then let arg = insn_extract c enc :: 'a word;
               ty = (if letter_signed c
                     then ty OR OPTYPE_SIG OR (push_bit OPTYPE_SBIT_SHR (word_of_int (int (num_ones arg) - 1)) AND OPTYPE_SBIT)
                     else ty);
               runs = mask_runs arg
           in parse_args enc cs ty (length runs)
                (rev (map (\<lambda>(shr, len). \<lparr>op_type = ty OR of_nat shr, op_data = of_nat len\<rparr>) runs) @ ds)
      else if c = CHR ''(''
      then bind_res (flag_last (\<lambda>t. t OR OPTYPE_OP)
                      (map (\<lambda>d. d\<lparr>op_type := op_type d OR ty OR OPTYPE_DIS\<rparr>) (take n ds) @ drop n ds))
             (parse_args enc cs 0 0)
      else if c = CHR '',''
      then bind_res (flag_last (\<lambda>t. ty OR t OR OPTYPE_OP) ds) (parse_args enc cs 0 n)
      else if c = CHR ''0'' then parse_args enc cs 0 n (\<lparr>op_type = ty, op_data = 0\<rparr> # ds)
      else if c = CHR '')'' then parse_args enc cs ty n ds
      else Inl Exit_failure)"

definition parse_params :: "or32_opcode \<Rightarrow> 'a::len insn_op list res" where
  "parse_params oc =
     (if op_args oc = [] then Inr [\<lparr>op_type = OPTYPE_REG OR OPTYPE_OP OR OPTYPE_LAST, op_data = 0\<rparr>]
      else bind_res (parse_args (encoding oc) (op_args oc) 0 0 []) (\<lambda>ds. Inr (rev ds)))"

section \<open>Operands of an instruction word\<close>

definition extend_imm :: "'a::len word \<Rightarrow> char \<Rightarrow> 'a word res" where
  "extend_imm imm l =
     bind_res (letter_range l) (\<lambda>letter_bits.
       let msk = scast (push_bit letter_bits 1 - 1 :: u32); imm = imm AND msk
       in Inr (if letter_signed l \<and> drop_bit (letter_bits - 1) imm \<noteq> 0 then imm OR NOT msk else imm))"

text \<open>
  \<open>or1ksim_or32_extract\<close>: the bits of a letter, gathered. The first loop counts them.
\<close>

definition extract_width :: "char \<Rightarrow> string \<Rightarrow> nat" where
  "extract_width p enc =
     length (filter (\<lambda>k. enc ! k = p \<and> \<not> (2 \<le> k \<and> enc ! (k - 2) = CHR ''0'' \<and> enc ! (k - 1) = CHR ''x'')) [0..<length enc])"

function extract_from :: "char \<Rightarrow> string \<Rightarrow> 'a::len word \<Rightarrow> nat \<Rightarrow> nat \<Rightarrow> 'a word \<Rightarrow> 'a word" where
  "extract_from p [] insn opc_pos param_pos ret = ret"
| "extract_from p (c # cs) insn opc_pos param_pos ret =
     (if starts_hex c cs
      then let tmp = strtol16 0 (drop 1 cs)
           in extract_from p (drop 2 cs) insn (opc_pos - 4) param_pos
                (if p = CHR ''0'' then ret OR push_bit (opc_pos - 4) (of_nat (15 - tmp))
                 else if p = CHR ''1'' then ret OR push_bit (opc_pos - 4) (of_nat tmp)
                 else ret)
      else if c = CHR ''0'' \<or> c = CHR ''1''
      then extract_from p cs insn (opc_pos - 1) param_pos (if p = c then ret OR int_bit (opc_pos - 1) else ret)
      else if c = p
      then let b = push_bit (param_pos - 1) (of_bool (bit insn (opc_pos - 1)))
           in extract_from p cs insn (opc_pos - 1) (param_pos - 1) (if islower p then ret - b else ret + b)
      else if isalpha c \<or> c = CHR ''-'' then extract_from p cs insn (opc_pos - 1) param_pos ret
      else extract_from p cs insn opc_pos param_pos ret)"
  by pat_completeness auto
termination by (relation "measure (\<lambda>(_, cs, _, _, _, _). length cs)") auto

definition or32_extract :: "char \<Rightarrow> string \<Rightarrow> 'a::len word \<Rightarrow> 'a word" where
  "or32_extract p enc insn = extract_from p enc insn 32 (extract_width p enc) 0"

definition insn_len :: "int \<Rightarrow> int" where
  "insn_len insn_index = 4"

definition insn_name :: "int \<Rightarrow> string" where
  "insn_name index =
     (if 0 \<le> index \<and> index < int (length or32_opcodes) then op_name (or32_opcodes ! nat index) else ''???'')"

section \<open>Properties\<close>

text \<open> C3: The decoder is exact. Whatever the opcode table, if the builder of the automaton accepts it, then on
  every word the walk through the automaton ends inside the array, and the decoder returns the index of the
  only entry whose fixed bits the word has, or -1 when there is none; so no two entries match one word.\<close>

theorem decoder_exact:
  fixes automata :: "'a::len word list"
  assumes "32 \<le> LENGTH('a)" and "build_automata table = Inr (ti, automata)"
    and "table \<noteq> []" and "length table < 2 ^ 31"
  shows "\<exists>r. insn_decode ti automata w = Some r \<and>
     (if r = -1 then \<forall>j < length table. \<not> insn_matches (map temp_insn table :: 'a temp_insn list) j w
      else \<exists>j < length table. r = int j \<and> insn_matches (map temp_insn table :: 'a temp_insn list) j w
        \<and> (\<forall>k < length table. insn_matches (map temp_insn table :: 'a temp_insn list) k w \<longrightarrow> k = j))"
proof -
  obtain r where r: "ti = map temp_insn table" "insn_decode ti automata w = Some r" "decodes_to ti w r"
    using build_decodes[OF assms, of w] by blast
  from r(3) show ?thesis using r(2) unfolding decodes_to_def r(1) length_map by blast
qed

definition sample_opcodes :: "or32_opcode list" where
  "sample_opcodes =
    [opcode ''l.movhi'' ''rD,K'' ''00 0x6  DDDDD ----0 KKKK KKKK KKKK KKKK'' ''l_movhi'' 0 it_movimm,
     opcode ''l.macrc'' ''rD'' ''00 0x6  DDDDD ----1 0000 0000 0000 0000'' ''l_macrc'' 0 it_mac,
     opcode ''l.lwz'' ''rD,I(rA)'' ''10 0x1  DDDDD AAAAA IIII IIII IIII IIII'' ''l_lwz'' 0 it_load]"

lemma sample_insns:
  "map temp_insn sample_opcodes = [\<lparr>ti_insn = 0x18000000, ti_mask = 0xfc010000\<rparr>,
     \<lparr>ti_insn = 0x18010000, ti_mask = 0xfc01ffff\<rparr>, \<lparr>ti_insn = 0x84000000, ti_mask = 0xfc000000 :: u32\<rparr>]"
  by code_simp

lemma sample_automaton:
  "\<exists>a. build_automata sample_opcodes = Inr (map temp_insn sample_opcodes :: 32 temp_insn list, a)"
proof -
  have "case (build_automata sample_opcodes :: (32 temp_insn list \<times> u32 list) res) of Inr _ \<Rightarrow> True | Inl _ \<Rightarrow> False"
    by code_simp
  then show ?thesis by (auto simp: build_automata_def Let_def split: sum.splits if_splits elim!: bind_res_InrE)
qed

theorem decoder_exact_witness:
  "\<exists>a. build_automata sample_opcodes = Inr (map temp_insn sample_opcodes :: 32 temp_insn list, a)
     \<and> insn_decode (map temp_insn sample_opcodes) a 0x84430010 = Some 2"
proof -
  obtain a where a: "build_automata sample_opcodes = Inr (map temp_insn sample_opcodes :: 32 temp_insn list, a)"
    using sample_automaton ..
  have n: "length sample_opcodes = 3" by (simp add: sample_opcodes_def)
  have m: "insn_matches (map temp_insn sample_opcodes :: 32 temp_insn list) 2 0x84430010"
    by (simp add: sample_insns insn_matches_def)
  have "sample_opcodes \<noteq> []" using n by auto
  from decoder_exact[OF _ a this, of "0x84430010"] n m
  have "insn_decode (map temp_insn sample_opcodes) a 0x84430010 = Some 2" by (auto split: if_splits)
  with a show ?thesis by blast
qed

text \<open> C4: The decoder of the simulator proper is generated as nested switch statements, which leave out the final
  comparison where the switches have already compared every fixed bit. For every accepted opcode table, on hosts of
  any word width from 32 bits on, the generated code runs the code of an instruction exactly when the word has the
  fixed bits of its 32 bit encoding. So whenever the interpreting decoder finds an instruction, the generated code runs
  that one, and where words have 32 bits it runs none when the interpreting decoder finds none. (With 64 bit words the
  interpreting decoder misses instructions that the generated code runs.)\<close>

theorem generated_decoder_agrees:
  fixes automata :: "'a::len word list"
  assumes "32 \<le> LENGTH('a)" and "build_automata table = Inr (ti, automata)"
    and "table \<noteq> []" and "length table < 2 ^ 31"
  shows "\<exists>g r. generated_decode ti automata w = Some g \<and> insn_decode ti automata w = Some r
     \<and> (\<forall>j. g = Insn_case j \<longleftrightarrow> j < length table \<and> insn_matches32 (map temp_insn table :: 'a temp_insn list) j w)
     \<and> (r \<noteq> -1 \<longrightarrow> g = Insn_case (nat r))
     \<and> (r = -1 \<and> LENGTH('a) = 32 \<longrightarrow> (\<forall>j. g \<noteq> Insn_case j))"
proof -
  have ti: "ti = map temp_insn table" by (rule build_leads(1)[OF assms])
  then have n: "length ti = length table" "length ti < 2 ^ 31" using assms(4) by simp_all
  have "bit (ti_insn (ti ! j)) k \<Longrightarrow> bit (ti_mask (ti ! j)) k" if "j < length ti" for j k
    using that by (simp add: ti temp_insn_fixed)
  with generated_decode_leads[OF assms(1) n(2) build_leads(2)[OF assms, of w]]
  obtain g where g: "generated_decode ti automata w = Some g"
      "\<forall>j. g = Insn_case j \<longleftrightarrow> j < length ti \<and> insn_matches32 ti j w" by blast
  obtain r where r: "insn_decode ti automata w = Some r" "decodes_to ti w r"
    using build_decodes[OF assms, of w] by blast
  have none: "g \<noteq> Insn_case j" if "r = -1" "LENGTH('a) = 32" for j
    using that r(2) g(2) matches32_matches[OF _ that(2), of ti j w] by (auto simp: decodes_to_def)
  have "r = -1 \<or> g = Insn_case (nat r)"
  proof (cases "r = -1")
    case False
    with r(2) obtain j where j: "j < length ti" "r = int j" "insn_matches ti j w" by (auto simp: decodes_to_def)
    then have "g = Insn_case j" using g(2) matches_matches32[OF _ assms(1)] by blast
    then show ?thesis using j(2) by simp
  qed simp
  with g r(1) none show ?thesis unfolding n(1) ti[symmetric] by blast
qed

theorem generated_decoder_agrees_witness:
  "\<exists>a. build_automata sample_opcodes = Inr (map temp_insn sample_opcodes :: 64 temp_insn list, a)
     \<and> generated_decode (map temp_insn sample_opcodes) a 0x84430010 = Some (Insn_case 2)"
proof -
  have "case (build_automata sample_opcodes :: (64 temp_insn list \<times> u64 list) res) of Inr _ \<Rightarrow> True | Inl _ \<Rightarrow> False"
    by code_simp
  then obtain a where a: "build_automata sample_opcodes = Inr (map temp_insn sample_opcodes :: 64 temp_insn list, a)"
    by (auto simp: build_automata_def Let_def split: sum.splits if_splits elim!: bind_res_InrE)
  have n: "length sample_opcodes = 3" by (simp add: sample_opcodes_def)
  have "map temp_insn sample_opcodes = [\<lparr>ti_insn = 0x18000000, ti_mask = 0xfffffffffc010000\<rparr>,
     \<lparr>ti_insn = 0x18010000, ti_mask = 0xfffffffffc01ffff\<rparr>, \<lparr>ti_insn = 0xffffffff84000000, ti_mask = 0xfffffffffc000000 :: u64\<rparr>]"
    by code_simp
  then have m: "insn_matches32 (map temp_insn sample_opcodes :: 64 temp_insn list) 2 0x84430010"
    by (simp add: insn_matches32_def)
  have "sample_opcodes \<noteq> []" "length sample_opcodes < 2 ^ 31" using n by auto
  from generated_decoder_agrees[OF _ a this, of "0x84430010"]
  obtain g where g: "generated_decode (map temp_insn sample_opcodes) a 0x84430010 = Some g"
    "\<forall>j. g = Insn_case j \<longleftrightarrow> j < length sample_opcodes \<and> insn_matches32 (map temp_insn sample_opcodes :: 64 temp_insn list) j 0x84430010"
    by auto
  from spec[OF g(2), of 2] m n have "g = Insn_case 2" by simp
  with g(1) have "generated_decode (map temp_insn sample_opcodes) a 0x84430010 = Some (Insn_case 2)" by simp
  with a show ?thesis by blast
qed

text \<open>Patterns only gain bits.\<close>

lemma insn_extract_from_keeps: "bit ret n \<Longrightarrow> bit (insn_extract_from p cs opc_pos ret) n"
proof (induction p cs opc_pos ret rule: insn_extract_from.induct)
  case (2 p c cs opc_pos ret)
  then show ?case by (auto simp: Let_def bit_or_iff)
qed simp

lemma int_bit_31: "bit (int_bit 31 :: 64 word) 63"
  by (simp add: int_bit_def bit_signed_iff)

lemma leading_one_insn:
  assumes "encoding oc = CHR ''1'' # cs" and "take 1 cs \<noteq> ''x''"
  shows "bit (ti_insn (temp_insn oc :: 64 temp_insn)) 63"
proof -
  have "(insn_extract CHR ''1'' (CHR ''1'' # cs) :: 64 word) = insn_extract_from CHR ''1'' cs 31 (int_bit 31)"
    by (simp add: insn_extract_def)
  with insn_extract_from_keeps[OF int_bit_31] show ?thesis using assms by (simp add: temp_insn_def Let_def)
qed

text \<open> On a host with 64 bit \<open>unsigned long\<close> the decoder rejects every instruction whose encoding starts with
  a one: \<open>1 << 31\<close> is a negative \<open>int\<close>, so the pattern has its upper 32 bits set, which a 32 bit instruction
  word never has. All loads, stores and arithmetic instructions start with a one.\<close>

theorem lp64_rejects_half_of_the_instructions:
  fixes automata :: "64 word list"
  assumes "build_automata table = Inr (ti, automata)" and "table \<noteq> []" and "length table < 2 ^ 31"
    and "insn_decode ti automata w = Some r" and "r \<noteq> -1"
  shows "\<exists>j < length table. r = int j \<and> (\<forall>cs. encoding (table ! j) = CHR ''1'' # cs \<longrightarrow> take 1 cs = ''x'')"
proof -
  have ti: "ti = map temp_insn table" and "decodes_to ti w r"
    using build_decodes[OF _ assms(1-3), of w] assms(4) by auto
  then obtain j where j: "j < length table" "r = int j" "insn_matches ti j w"
    using assms(5) by (auto simp: decodes_to_def)
  have "\<not> bit (ti_insn (ti ! j)) 63"
    unfolding j(3)[unfolded insn_matches_def, symmetric] by (auto simp: bit_and_iff bit_unsigned_iff dest: bit_imp_le_length)
  then show ?thesis using j(1,2) ti leading_one_insn[of "table ! j"] by (intro exI[of _ j]) auto
qed

theorem lp64_rejects_half_of_the_instructions_witness:
  "\<exists>j < 1. (0 :: int) = int j \<and> (\<forall>cs. encoding ([hd sample_opcodes] ! j) = CHR ''1'' # cs \<longrightarrow> take 1 cs = ''x'')"
proof -
  let ?ti = "map temp_insn [hd sample_opcodes] :: 64 temp_insn list"
  have t: "?ti = [\<lparr>ti_insn = 0x18000000, ti_mask = 0xfffffffffc010000\<rparr>]" by code_simp
  have b: "build_automata [hd sample_opcodes] = Inr (?ti, [LEAF_FLAG OR of_nat 0])"
    by (simp add: build_automata_def Let_def)
  have "insn_decode ?ti [LEAF_FLAG OR of_nat 0] 0x18000000 = Some 0"
    unfolding t insn_decode_def by (subst find_leaf_leaf) (simp_all add: insn_matches_def)
  from lp64_rejects_half_of_the_instructions[OF b _ _ this] show ?thesis by simp
qed

end
