(* ===== verification/Exec.thy ===== *)
theory Exec
  imports Insn Decode
begin

text \<open>
  The execution of an instruction word: \<open>decode_execute\<close>, which \<open>cpu/or32/generate.c\<close> writes. The operands are
  evaluated as \<open>gen_eval_operands\<close> prescribes from the descriptors \<open>or1ksim_build_automata\<close> left, then comes the
  body of the instruction, the statistics, and the repair of register 0. What \<open>analysis\<close> only counts for the
  printed statistics is left out.
\<close>

section \<open>The tables of the simulator\<close>

record (overloaded) 'a sim_code =
  code_opcodes :: "or32_opcode list"
  code_ti :: "('a::len) temp_insn list"
  code_automata :: "'a word list"
  code_op_start :: "'a insn_op list list"

fun parse_all :: "or32_opcode list \<Rightarrow> 'a::len insn_op list list res" where
  "parse_all [] = Inr []"
| "parse_all (oc # ocs) = bind_res (parse_params oc) (\<lambda>ds. bind_res (parse_all ocs) (\<lambda>dss. Inr (ds # dss)))"

text \<open>Like that of the automaton, the size of the operand table is checked after it is written.\<close>

definition build_code :: "or32_opcode list \<Rightarrow> 'a::len sim_code res" where
  "build_code opcodes =
     bind_res (build_automata opcodes) (\<lambda>(ti, automata).
     bind_res (parse_all opcodes) (\<lambda>op_start.
       if MAX_OP_TABLE_SIZE < sum_list (map length op_start) then Inl Host_undef
       else Inr \<lparr>code_opcodes = opcodes, code_ti = ti, code_automata = automata, code_op_start = op_start\<rparr>))"

section \<open>Operands\<close>

text \<open>The variables \<open>a\<close>, \<open>b\<close>, ... with their \<open>PARAM\<close> macros, the operand with a displacement, \<open>write_to_reg\<close>.\<close>

record gen_ops =
  gen_params :: "operand list"
  gen_dis_op :: "nat option"
  gen_write_reg :: bool

definition operand_bits :: "'a::len insn_op \<Rightarrow> u32 \<Rightarrow> u32" where
  "operand_bits d w = drop_bit (unat (op_type d AND OPTYPE_SHR)) w AND (push_bit (unat (op_data d)) 1 - 1)"

definition sign_extended :: "'a::len insn_op \<Rightarrow> u32 \<Rightarrow> u32" where
  "sign_extended d v =
     (let sbit = unat (drop_bit OPTYPE_SBIT_SHR (op_type d AND OPTYPE_SBIT))
      in if has (op_type d) OPTYPE_SIG \<and> has v (push_bit sbit 1) then v OR push_bit sbit 0xffffffff else v)"

text \<open>The end of an operand, if the descriptor ends one: bits so far, value so far, operands.\<close>

definition operand_end :: "'a::len insn_op \<Rightarrow> bool \<Rightarrow> nat \<times> u32 \<times> gen_ops \<Rightarrow> nat \<times> u32 \<times> gen_ops" where
  "operand_end d dis acc =
     (case acc of (nbits, v, g) \<Rightarrow>
        if has (op_type d) OPTYPE_OP
        then let v = sign_extended d v; is_reg = has (op_type d) OPTYPE_REG \<and> \<not> dis
             in (0, v, g\<lparr>gen_params := gen_params g @ [\<lparr>op_value = v, op_is_reg = is_reg\<rparr>],
                        gen_write_reg := gen_write_reg g \<or> is_reg \<and> has (op_type d) OPTYPE_DST\<rparr>)
        else acc)"

text \<open>The loop over the descriptors; it stops at the one marked as last.\<close>

fun gen_eval_operands :: "'a::len insn_op list \<Rightarrow> u32 \<Rightarrow> (nat \<Rightarrow> u32) \<Rightarrow> nat \<times> u32 \<times> gen_ops \<Rightarrow> gen_ops res" where
  "gen_eval_operands [] w regs acc = Inl Host_undef"
| "gen_eval_operands (d # ds) w regs (nbits, v, g) =
     (let v = (if nbits = 0 then operand_bits d w else v OR push_bit nbits (operand_bits d w));
          nbits = nbits + unat (op_data d)
      in if has (op_type d) OPTYPE_DIS \<and> has (op_type d) OPTYPE_OP
         then (case ds of
                 [] \<Rightarrow> Inl Host_undef
               | b # ds \<Rightarrow>
                   let v = sign_extended d v + regs (unat (operand_bits b w));
                       g = g\<lparr>gen_dis_op := Some (length (gen_params g))\<rparr>;
                       acc = operand_end b True (nbits, v, g)
                   in if has (op_type b) OPTYPE_LAST then Inr (snd (snd acc)) else gen_eval_operands ds w regs acc)
         else
           let acc = operand_end d False (nbits, v, g)
           in if has (op_type d) OPTYPE_LAST then Inr (snd (snd acc)) else gen_eval_operands ds w regs acc)"

definition eval_operands :: "'a::len insn_op list \<Rightarrow> u32 \<Rightarrow> (nat \<Rightarrow> u32) \<Rightarrow> gen_ops res" where
  "eval_operands ds w regs =
     gen_eval_operands ds w regs (0, 0, \<lparr>gen_params = [], gen_dis_op = None, gen_write_reg = False\<rparr>)"

section \<open>Statistics\<close>

text \<open>An index of -1, that of an invalid instruction, is used on the opcode table.\<close>

definition analysis :: "or32_opcode list \<Rightarrow> machine \<Rightarrow> machine res" where
  "analysis opcodes m =
     (let index = insn_index (iqueue (cpu m))
      in if (cfg_dependstats (conf m) \<or> cfg_superscalar (conf m)) \<and> index < 0 then Inl Host_undef
         else
           let unit = func_unit (opcodes ! nat index);
               m = (if cfg_superscalar (conf m) \<and> unit = it_store
                    then m\<lparr>rt := (rt m)\<lparr>storecycles := storecycles (rt m) + 1\<rparr>\<rparr> else m);
               m = (if cfg_superscalar (conf m) \<and> unit = it_load
                    then m\<lparr>rt := (rt m)\<lparr>loadcycles := loadcycles (rt m) + 1\<rparr>\<rparr> else m)
           in Inr (if cfg_dependstats (conf m) then m\<lparr>cpu := (cpu m)\<lparr>icomplet := iqueue (cpu m)\<rparr>\<rparr> else m))"

definition set_insn_index :: "int \<Rightarrow> machine \<Rightarrow> machine" where
  "set_insn_index j m = m\<lparr>cpu := (cpu m)\<lparr>iqueue := (iqueue (cpu m))\<lparr>insn_index := j\<rparr>\<rparr>\<rparr>"

section \<open>Decode and execute\<close>

text \<open>
  \<open>output_call\<close>: operands, body (none for index -1), statistics if \<open>do_stats\<close> is set, repair of register 0.
  The variable \<open>write_to_reg\<close> of the generator keeps its value from the instruction written before.
\<close>

definition finish_insn :: "'a::len sim_code \<Rightarrow> bool \<Rightarrow> int \<Rightarrow> gen_ops \<Rightarrow> machine \<Rightarrow> machine res" where
  "finish_insn code do_stats index g m =
     bind_res
       (if do_stats
        then let m = (case gen_dis_op g of
                        Some k \<Rightarrow> if 0 \<le> index then m\<lparr>cpu := (cpu m)\<lparr>insn_ea := op_value (gen_params g ! k)\<rparr>\<rparr> else m
                      | None \<Rightarrow> m)
             in analysis (code_opcodes code) (set_insn_index index m)
        else Inr m)
       (\<lambda>m. Inr (if gen_write_reg g then set_reg 0 0 m else m))"

definition output_call :: "softfloat \<Rightarrow> 'a::len sim_code \<Rightarrow> bool \<Rightarrow> u32 \<Rightarrow> nat \<Rightarrow> u32 \<Rightarrow> machine \<Rightarrow> machine res" where
  "output_call sf code do_stats rnd j w m =
     bind_res (eval_operands (code_op_start code ! j) w (reg (cpu m))) (\<lambda>g.
     bind_res (output_function sf rnd (function_name (code_opcodes code ! j)) (gen_params g) m) (\<lambda>m.
       finish_insn code do_stats (int j) g m))"

definition output_invalid :: "'a::len sim_code \<Rightarrow> bool \<Rightarrow> nat \<Rightarrow> u32 \<Rightarrow> machine \<Rightarrow> machine res" where
  "output_invalid code do_stats j w m =
     bind_res (eval_operands (code_op_start code ! j) w (reg (cpu m))) (\<lambda>g. finish_insn code do_stats (-1) g m)"

text \<open>The result is \<open>None\<close> if the walk through the automaton does not end.\<close>

definition decode_execute :: "softfloat \<Rightarrow> 'a::len sim_code \<Rightarrow> bool \<Rightarrow> u32 \<Rightarrow> machine \<Rightarrow> machine res option" where
  "decode_execute sf code do_stats rnd m =
     (let w = insn (iqueue (cpu m))
      in case generated_decode (code_ti code) (code_automata code) w of
           None \<Rightarrow> None
         | Some Case_invalid \<Rightarrow> Some (Inr (except_handle EXCEPT_ILLEGAL (pc (cpu m)) m))
         | Some (Check_invalid j) \<Rightarrow> Some (output_invalid code do_stats j w m)
         | Some (Insn_case j) \<Rightarrow> Some (output_call sf code do_stats rnd j w m))"

end
