(* ===== verification/Cpu.thy ===== *)
theory Cpu
  imports Exec Access Tick
begin

text \<open>
  The processor cycle and the main loop (\<open>cpu/or32/execute.c\<close>), the loop of the scheduler, the resets
  (\<open>toplevel-support.c\<close>), the breakpoint list (\<open>cpu/common/labels.c\<close>) and the scan chains of the debug
  interface (\<open>debug/debug-unit.c\<close>). The command line and the remote debugger are parameters, the functions
  \<open>handle_sim_command\<close> and \<open>handle_rsp\<close>; no interrupt from the keyboard is pending. A result \<open>None\<close> is a loop
  that does not end.
\<close>

section \<open>Breakpoints\<close>

definition init_breakpoints :: "machine \<Rightarrow> machine" where
  "init_breakpoints m = m\<lparr>breakpoints := []\<rparr>"

definition add_breakpoint :: "u32 \<Rightarrow> machine \<Rightarrow> machine" where
  "add_breakpoint addr m = m\<lparr>breakpoints := addr # breakpoints m\<rparr>"

definition remove_breakpoint :: "u32 \<Rightarrow> machine \<Rightarrow> machine" where
  "remove_breakpoint addr m = m\<lparr>breakpoints := filter (\<lambda>a. a \<noteq> addr) (breakpoints m)\<rparr>"

definition has_breakpoint :: "u32 \<Rightarrow> machine \<Rightarrow> bool" where
  "has_breakpoint addr m = List.member (breakpoints m) addr"

section \<open>One clock cycle\<close>

text \<open>\<open>fetch\<close> returns true at a breakpoint; the next fetch passes it.\<close>

definition fetch_insn :: "machine \<Rightarrow> machine res" where
  "fetch_insn m =
     (let addr = pc (cpu m);
          m = m\<lparr>breakpoint := False, cpu := (cpu m)\<lparr>iqueue := (iqueue (cpu m))\<lparr>insn_addr := addr\<rparr>\<rparr>\<rparr>
      in bind_res (eval_insn addr m) (\<lambda>(w, m).
           let m = m\<lparr>cpu := (cpu m)\<lparr>iqueue := (iqueue (cpu m))\<lparr>insn := w\<rparr>\<rparr>\<rparr>
           in Inr (if \<not> except_pending m then m\<lparr>rt := (rt m)\<lparr>instructions := instructions (rt m) + 1\<rparr>\<rparr> else m)))"

definition fetch :: "machine \<Rightarrow> (bool \<times> machine) res" where
  "fetch m =
     (if breakpoints m \<noteq> []
      then bind_res (peek_into_itlb (pc (cpu m)) m) (\<lambda>addr.
             if has_breakpoint addr m \<and> \<not> break_just_hit m then Inr (True, m\<lparr>break_just_hit := True\<rparr>)
             else bind_res (fetch_insn (m\<lparr>break_just_hit := False\<rparr>)) (\<lambda>m. Inr (False, m)))
      else bind_res (fetch_insn m) (\<lambda>m. Inr (False, m)))"

definition decode_execute_wrapper :: "softfloat \<Rightarrow> 'a::len sim_code \<Rightarrow> bool \<Rightarrow> u32 \<Rightarrow> machine \<Rightarrow> machine res option" where
  "decode_execute_wrapper sf code do_stats rnd m =
     bind_run (decode_execute sf code do_stats rnd (m\<lparr>breakpoint := False\<rparr>)) (\<lambda>m.
       Some (Inr (if breakpoint m then except_handle EXCEPT_TRAP (spr SPR_EEAR_BASE m) m else m)))"

text \<open>\<open>cpu_clock\<close> returns true at a breakpoint.\<close>

definition cpu_clock :: "softfloat \<Rightarrow> 'a::len sim_code \<Rightarrow> bool \<Rightarrow> u32 \<Rightarrow> machine \<Rightarrow> (bool \<times> machine) res option" where
  "cpu_clock sf code do_stats rnd m =
     bind_run (Some (fetch (m\<lparr>except_pending := False, next_delay_insn := False\<rparr>))) (\<lambda>(hit, m).
       if hit then Some (Inr (True, m))
       else if except_pending m then Some (Inr (False, (update_pc m)\<lparr>except_pending := False\<rparr>))
       else if breakpoint m
       then Some (Inr (False, (update_pc (except_handle EXCEPT_TRAP (spr SPR_EEAR_BASE m) m))\<lparr>except_pending := False\<rparr>))
       else bind_run (decode_execute_wrapper sf code do_stats rnd m) (\<lambda>m. Some (Inr (False, update_pc m))))"

section \<open>The loop of the scheduler\<close>

abbreviation (input) CHECK_INT_TIME :: int where "CHECK_INT_TIME \<equiv> 100000"

definition check_int :: "machine \<Rightarrow> machine res" where
  "check_int m = SCHED_ADD Check_int CHECK_INT_TIME m"

text \<open>\<open>tmp->func (tmp->param)\<close>.\<close>

definition run_job :: "job \<Rightarrow> machine \<Rightarrow> machine res" where
  "run_job f m =
     (case f of
        Guard \<Rightarrow> bind_res (sched_guard Guard 0 (scheduler m)) (\<lambda>s. Inr (m\<lparr>scheduler := s\<rparr>))
      | Tick_raise_except \<Rightarrow> tick_raise_except m
      | Tick_restart \<Rightarrow> tick_restart m
      | Tick_one_shot \<Rightarrow> Inr (tick_one_shot m)
      | Pic_rep_int \<Rightarrow> Inr (pic_rep_int m)
      | Check_int \<Rightarrow> check_int m)"

definition scheduler_round :: "machine \<Rightarrow> machine res" where
  "scheduler_round m = bind_res (sched_pop (scheduler m)) (\<lambda>(f, p, s). run_job f (m\<lparr>scheduler := s\<rparr>))"

text \<open>The next job is due; the queue is dereferenced without a check.\<close>

definition job_due :: "machine \<Rightarrow> bool res" where
  "job_due m = (case job_queue (scheduler m) of [] \<Rightarrow> Inl Null_deref | e # _ \<Rightarrow> Inr (time e \<le> 0))"

partial_function (option) do_scheduler :: "machine \<Rightarrow> machine res option" where
  "do_scheduler m =
     (case bind_res (scheduler_round m) (\<lambda>m. bind_res (job_due m) (\<lambda>due. Inr (due, m))) of
        Inl e \<Rightarrow> Some (Inl e)
      | Inr (due, m) \<Rightarrow> if due then do_scheduler m else Some (Inr m))"

section \<open>The main loop\<close>

text \<open>Processor stalled: requests of the remote debugger, or the command line and the end.\<close>

partial_function (option) while_stalled :: "(machine \<Rightarrow> machine res) \<Rightarrow> machine \<Rightarrow> machine res option" where
  "while_stalled handle_rsp m =
     (if \<not> stalled (rt m) then Some (Inr m)
      else if \<not> cfg_rsp_enabled (conf m) then Some (Inl Sim_done)
      else case handle_rsp m of Inl e \<Rightarrow> Some (Inl e) | Inr m \<Rightarrow> while_stalled handle_rsp m)"

text \<open>The processor is clocked unless power management stops it; \<open>enabled\<close> is 0 or 1, the bits of PMR are others.\<close>

definition pm_stops :: "machine \<Rightarrow> bool" where
  "pm_stops m \<longleftrightarrow> cfg_pm_enabled (conf m) \<noteq> 0 \<and> has (cfg_pm_enabled (conf m)) (spr SPR_PMR m AND (SPR_PMR_DME OR SPR_PMR_SME))"

text \<open>The end of a round: the cycles of the memory accesses pass, and the jobs that become due run.\<close>

definition pass_time :: "u64 \<Rightarrow> machine \<Rightarrow> machine res option" where
  "pass_time time_start m =
     (let m = m\<lparr>rt := (rt m)\<lparr>cycles := cycles (rt m) + scast (mem_cycles (rt m))\<rparr>\<rparr>
      in case job_queue (scheduler m) of
           [] \<Rightarrow> Some (Inl Null_deref)
         | e # q \<Rightarrow>
             let t = i32 (time e - sint (cycles (rt m) - time_start));
                 m = m\<lparr>scheduler := (scheduler m)\<lparr>job_queue := e\<lparr>time := t\<rparr> # q\<rparr>\<rparr>
             in if t \<le> 0 then do_scheduler m else Some (Inr m))"

definition exec_main_round :: "softfloat \<Rightarrow> 'a::len sim_code \<Rightarrow> bool \<Rightarrow> u32
    \<Rightarrow> (machine \<Rightarrow> machine res) \<Rightarrow> (machine \<Rightarrow> machine res) \<Rightarrow> machine \<Rightarrow> machine res option" where
  "exec_main_round sf code do_stats rnd handle_sim_command handle_rsp m =
     (let time_start = cycles (rt m)
      in bind_run (if cfg_debug_enabled (conf m) then while_stalled handle_rsp m else Some (Inr m)) (\<lambda>m.
         let m = m\<lparr>rt := (rt m)\<lparr>mem_cycles := 0\<rparr>\<rparr>
         in bind_run (if pm_stops m then Some (Inr (False, m)) else cpu_clock sf code do_stats rnd m) (\<lambda>(hit, m).
            bind_run (if hit then Some (handle_sim_command m) else Some (Inr m)) (\<lambda>m.
              let m = (if cfg_debug_enabled (conf m) \<and> has (spr SPR_DMR1 m) SPR_DMR1_ST then set_stall_state True m else m)
              in pass_time time_start m))))"

section \<open>Reset\<close>

definition cpu_reset :: "machine \<Rightarrow> machine" where
  "cpu_reset m =
     (let m = m\<lparr>rt := (rt m)\<lparr>cycles := 0, loadcycles := 0, storecycles := 0, instructions := 0\<rparr>\<rparr>;
          m = m\<lparr>cpu := (cpu m)\<lparr>reg := \<lambda>i. if i < MAX_GPRS then 0 else reg (cpu m) i,
                iqueue := \<lparr>insn_index = 0, insn = 0, insn_addr = 0\<rparr>,
                icomplet := \<lparr>insn_index = 0, insn = 0, insn_addr = 0\<rparr>\<rparr>\<rparr>;
          m = m\<lparr>sb := (sb m)\<lparr>sbuf_head := 0, sbuf_tail := 0, sbuf_count := 0, sbuf_prev_cycles := 0\<rparr>\<rparr>;
          m = m\<lparr>pcnext := if has (spr SPR_SR m) SPR_SR_EPH then 0xf0000000 else 0\<rparr>;
          m = m\<lparr>cpu := (cpu m)\<lparr>pc := pcnext m\<rparr>\<rparr>;
          m = m\<lparr>pcnext := pcnext m + 4\<rparr>;
          m = update_pc (except_handle EXCEPT_RESET 0 m);
          m = m\<lparr>except_pending := False\<rparr>
      in m\<lparr>cpu := (cpu m)\<lparr>pc := if has (spr SPR_SR m) SPR_SR_EPH then 0xf0000000 + EXCEPT_RESET else EXCEPT_RESET\<rparr>\<rparr>)"

fun run_hooks :: "(machine \<Rightarrow> machine res) list \<Rightarrow> machine \<Rightarrow> machine res" where
  "run_hooks [] m = Inr m"
| "run_hooks (h # hs) m = bind_res (h m) (run_hooks hs)"

text \<open>\<open>hooks\<close> is the list \<open>sim_reset_hooks\<close> of the peripherals.\<close>

definition sim_reset :: "(machine \<Rightarrow> machine res) list \<Rightarrow> machine \<Rightarrow> machine res" where
  "sim_reset hooks m =
     bind_res (sched_reset Guard (scheduler m)) (\<lambda>s.
     bind_res (run_hooks hooks (m\<lparr>scheduler := s\<rparr>)) (\<lambda>m.
     bind_res (SCHED_ADD Check_int 1 (du_reset (pic_reset (pm_reset (tick_reset m))))) (\<lambda>m.
       Inr (cpu_reset (m\<lparr>rt := (rt m)\<lparr>mem_cycles := 0\<rparr>\<rparr>)))))"

section \<open>The scan chains\<close>

definition set_devint_reg :: "(machine \<Rightarrow> machine res) list \<Rightarrow> u32 \<Rightarrow> u64 \<Rightarrow> machine \<Rightarrow> (proxy_error option \<times> machine) res" where
  "set_devint_reg hooks address data m =
     (if unat address = DEVELOPINT_RISCOP
      then
        let old_value = has (development m DEVELOPINT_RISCOP) RISCOP_RESET;
            m = m\<lparr>development := (development m)(DEVELOPINT_RISCOP := data), in_reset := has data RISCOP_RESET\<rparr>
        in bind_res (if old_value \<and> \<not> in_reset m then sim_reset hooks m else Inr m) (\<lambda>m.
             Inr (None, set_stall_state (has (development m DEVELOPINT_RISCOP) RISCOP_STALL) m))
      else if unat address \<le> DEVELOPINT_MAX
      then Inr (None, m\<lparr>development := (development m)(unat address := data)\<rparr>)
      else Inr (Some INVALID_ADDRESS, m))"

definition debug_get_mem :: "u32 \<Rightarrow> machine \<Rightarrow> ((proxy_error + u32) \<times> machine) res" where
  "debug_get_mem address m =
     (case verify_memoryarea address (mem m) of
        (None, mm) \<Rightarrow> Inr (Inl INVALID_ADDRESS, m\<lparr>mem := mm\<rparr>)
      | (Some _, mm) \<Rightarrow> bind_res (eval_direct32 address False False (m\<lparr>mem := mm\<rparr>)) (\<lambda>(v, m). Inr (Inr v, m)))"

definition debug_set_mem :: "u32 \<Rightarrow> u32 \<Rightarrow> machine \<Rightarrow> (proxy_error option \<times> machine) res" where
  "debug_set_mem address data m =
     (case verify_memoryarea address (mem m) of
        (None, mm) \<Rightarrow> Inr (Some INVALID_ADDRESS, m\<lparr>mem := mm\<rparr>)
      | (Some _, mm) \<Rightarrow> bind_res (set_program32 address data (m\<lparr>mem := mm\<rparr>)) (\<lambda>m. Inr (None, m)))"

text \<open>A register of the development interface is written through a pointer to a 64 bit integer.\<close>

definition debug_get_register :: "u32 \<Rightarrow> machine \<Rightarrow> ((proxy_error + u64) \<times> machine) res" where
  "debug_get_register address m =
     (if current_scan_chain m = JTAG_CHAIN_DEBUG_UNIT then Inr (Inr (ucast (mfspr (unat (ucast address :: u16)) m)), m)
      else if current_scan_chain m = JTAG_CHAIN_DEVELOPMENT then Inr (get_devint_reg address m, m)
      else if current_scan_chain m = JTAG_CHAIN_WISHBONE
      then bind_res (debug_get_mem address m) (\<lambda>(r, m). Inr (map_sum id ucast r, m))
      else Inr (Inl INVALID_CHAIN, m))"

definition debug_set_register :: "(machine \<Rightarrow> machine res) list \<Rightarrow> u32 \<Rightarrow> u32 \<Rightarrow> machine \<Rightarrow> (proxy_error option \<times> machine) res" where
  "debug_set_register hooks address data m =
     (if current_scan_chain m = JTAG_CHAIN_DEBUG_UNIT
      then bind_res (mtspr (unat (ucast address :: u16)) data m) (\<lambda>m. Inr (None, m))
      else if current_scan_chain m = JTAG_CHAIN_TRACE then Inr (Some ACCESS_EXCEPTION, m)
      else if current_scan_chain m = JTAG_CHAIN_DEVELOPMENT then set_devint_reg hooks address (ucast data) m
      else if current_scan_chain m = JTAG_CHAIN_WISHBONE then debug_set_mem address data m
      else Inr (Some INVALID_CHAIN, m))"

end
