(* ===== verification/Loop.thy ===== *)
theory Loop
  imports Cpu
begin

text \<open>
  The loop of the scheduler ends: every job that is due runs, and whatever the jobs queue is due later. The
  one exception, a periodic timer of period 0, keeps the simulator in the loop for ever.
\<close>

section \<open>One round\<close>

text \<open>The due time with which a job queues itself again.\<close>

definition requeued :: "job \<Rightarrow> machine \<Rightarrow> (int \<times> job) list \<Rightarrow> int option" where
  "requeued f m q =
     (case f of
        Tick_raise_except \<Rightarrow> Some (1 + max 0 (- fst (hd q)))
      | Tick_restart \<Rightarrow> Some (uint (spr SPR_TTMR m AND SPR_TTMR_TP))
      | Check_int \<Rightarrow> Some CHECK_INT_TIME
      | _ \<Rightarrow> None)"

definition after_round :: "job \<Rightarrow> machine \<Rightarrow> (int \<times> job) list \<Rightarrow> (int \<times> job) list" where
  "after_round f m q = (case requeued f m q of None \<Rightarrow> q | Some t \<Rightarrow> tq_insert t f q)"

lemma pending_scheduler: "scheduler m' = scheduler m \<Longrightarrow> pending m' = pending m \<and> jobs_ok n m' = jobs_ok n m"
  by (simp add: pending_def jobs_ok_def)

lemma sint_period: "sint (x AND SPR_TTMR_TP :: u32) = uint (x AND SPR_TTMR_TP)"
proof -
  have "uint (x AND SPR_TTMR_TP) < 2 ^ 31" using uint_tp_less[of x] by simp
  moreover have "- (2 ^ 31) \<le> uint (x AND SPR_TTMR_TP)" by (rule order_trans[OF _ uint_ge_0]) simp
  ultimately show ?thesis by (simp add: sint_uint signed_take_bit_int_eq_self_iff)
qed

lemma pop_pending:
  assumes ok: "jobs_ok n m" and p: "pending m = (t, f) # q" and f: "f \<noteq> Guard"
  shows "\<exists>s. sched_pop (scheduler m) = Inr (f, 0, s) \<and> jobs_ok (Suc n) (m\<lparr>scheduler := s\<rparr>)
     \<and> pending (m\<lparr>scheduler := s\<rparr>) = q"
proof -
  from p obtain p0 js where js: "sched_jobs (scheduler m) = (t, f, p0) # js" "map (\<lambda>(t, f, p). (t, f)) js = q"
    by (auto simp: pending_def)
  have g: "Guard \<in> snd ` set q" using ok p f by (simp add: jobs_ok_def)
  then have "js \<noteq> []" using js(2) by auto
  then have "2 \<le> length (sched_jobs (scheduler m))" using js(1) by (cases js) simp_all
  from sched_pop_refines[OF _ this] ok obtain t' f' p' s where s:
      "sched_pop (scheduler m) = Inr (f', p', s)" "sched_jobs (scheduler m) = (t', f', p') # sched_jobs s"
      "sched_wf s" "sched_room s = Suc (sched_room (scheduler m))" by (auto simp: jobs_ok_def)
  from s(2) js(1) ok have eq: "f' = f" "p' = 0" "sched_jobs s = js" by (auto simp: jobs_ok_def)
  have "pending (m\<lparr>scheduler := s\<rparr>) = q" by (simp add: pending_def eq js(2))
  with s g ok js(1) eq show ?thesis by (intro exI[of _ s]) (auto simp: jobs_ok_def)
qed

lemma tick_restart_ok:
  assumes "jobs_ok (Suc n) m"
  shows "\<exists>m'. tick_restart m = Inr m' \<and> jobs_ok n m'
     \<and> pending m' = tq_insert (uint (spr SPR_TTMR m AND SPR_TTMR_TP)) Tick_restart (pending m) \<and> spr SPR_TTMR m' = spr SPR_TTMR m"
proof -
  let ?m = "(set_spr SPR_TTCR 0 m)\<lparr>cycle_count_at_tick_start := cycles (rt m)\<rparr>"
  have "jobs_ok (Suc n) ?m" "pending ?m = pending m" using assms by simp_all
  moreover have "uint (spr SPR_TTMR m AND SPR_TTMR_TP) \<le> 0x40000000" using uint_tp_less[of "spr SPR_TTMR m"] by linarith
  ultimately obtain s where "SCHED_ADD Tick_restart (uint (spr SPR_TTMR m AND SPR_TTMR_TP)) ?m = Inr (?m\<lparr>scheduler := s\<rparr>)"
      "jobs_ok n (?m\<lparr>scheduler := s\<rparr>)"
      "pending (?m\<lparr>scheduler := s\<rparr>) = tq_insert (uint (spr SPR_TTMR m AND SPR_TTMR_TP)) Tick_restart (pending m)"
    using SCHED_ADD_ok[of n ?m "uint (spr SPR_TTMR m AND SPR_TTMR_TP)" Tick_restart] by auto
  then show ?thesis by (simp add: tick_restart_def Let_def sint_period)
qed

lemma tick_raise_except_ok:
  assumes "jobs_ok (Suc n) m"
  shows "\<exists>m'. tick_raise_except m = Inr m' \<and> jobs_ok n m'
     \<and> pending m' = tq_insert (1 + max 0 (- fst (hd (pending m)))) Tick_raise_except (pending m)
     \<and> spr SPR_TTMR m' = spr SPR_TTMR m OR SPR_TTMR_IP"
proof -
  let ?m = "spr_or SPR_TTMR SPR_TTMR_IP m"
  from SCHED_NEXT_INSN_ok[of n ?m Tick_raise_except] assms obtain s where s:
      "SCHED_NEXT_INSN Tick_raise_except ?m = Inr (?m\<lparr>scheduler := s\<rparr>)" "jobs_ok n (?m\<lparr>scheduler := s\<rparr>)"
      "pending (?m\<lparr>scheduler := s\<rparr>) = tq_insert (1 + max 0 (- fst (hd (pending m)))) Tick_raise_except (pending m)"
    by auto
  let ?m' = "if has (spr SPR_SR m) SPR_SR_TEE then except_handle EXCEPT_TICK (spr SPR_EEAR_BASE m) (?m\<lparr>scheduler := s\<rparr>)
             else ?m\<lparr>scheduler := s\<rparr>"
  have "scheduler ?m' = scheduler (?m\<lparr>scheduler := s\<rparr>)" by simp
  from pending_scheduler[OF this] have "pending ?m' = pending (?m\<lparr>scheduler := s\<rparr>)" "jobs_ok n ?m' = jobs_ok n (?m\<lparr>scheduler := s\<rparr>)"
    by blast+
  moreover have "spr SPR_TTMR ?m' = spr SPR_TTMR m OR SPR_TTMR_IP"
    by (cases "exception_ignored EXCEPT_TICK (?m\<lparr>scheduler := s\<rparr>)")
       (simp_all add: except_handle_ignored debug_ignore_sprs except_handle_sprs)
  ultimately show ?thesis using s by (intro exI[of _ ?m']) (simp add: tick_raise_except_def)
qed

lemma same_period: "(x OR SPR_TTMR_IP) AND SPR_TTMR_TP = (x AND SPR_TTMR_TP :: u32)"
  by (simp add: bit.conj_disj_distrib2)

text \<open>What the jobs do to TTMR: the job of the tick exception sets the pending bit, the others leave it.\<close>

definition ttmr_after :: "job list \<Rightarrow> u32 \<Rightarrow> u32" where
  "ttmr_after fs x = (if Tick_raise_except \<in> set fs then x OR SPR_TTMR_IP else x)"

lemma ttmr_after_period: "ttmr_after fs x AND SPR_TTMR_TP = x AND SPR_TTMR_TP"
  by (simp add: ttmr_after_def same_period)

lemma ttmr_after_Nil [simp]: "ttmr_after [] x = x"
  by (simp add: ttmr_after_def)

lemma ttmr_after_Cons: "ttmr_after fs (ttmr_after [f] x) = ttmr_after (f # fs) x"
  by (simp add: ttmr_after_def or.assoc)

lemma scheduler_round_ok:
  assumes ok: "jobs_ok n m" and p: "pending m = (t, f) # q" and f: "f \<noteq> Guard"
  shows "\<exists>m'. scheduler_round m = Inr m' \<and> jobs_ok n m' \<and> pending m' = after_round f m q
     \<and> (\<exists>s. pending (m\<lparr>scheduler := s\<rparr>) = q \<and> run_job f (m\<lparr>scheduler := s\<rparr>) = Inr m')
     \<and> spr SPR_TTMR m' = ttmr_after [f] (spr SPR_TTMR m)"
proof -
  from pop_pending[OF assms] obtain s where s: "sched_pop (scheduler m) = Inr (f, 0, s)"
      "jobs_ok (Suc n) (m\<lparr>scheduler := s\<rparr>)" "pending (m\<lparr>scheduler := s\<rparr>) = q" by blast
  let ?m = "m\<lparr>scheduler := s\<rparr>"
  have round: "scheduler_round m = run_job f ?m" by (simp add: scheduler_round_def s(1))
  have ran: "\<exists>s. pending (m\<lparr>scheduler := s\<rparr>) = q \<and> run_job f (m\<lparr>scheduler := s\<rparr>) = Inr m'" if "run_job f ?m = Inr m'" for m'
    using that s(3) by blast
  have keeps: ?thesis if "run_job f ?m = Inr m'" "scheduler m' = scheduler ?m" "spr SPR_TTMR m' = spr SPR_TTMR m" "requeued f m q = None"
      "f \<noteq> Tick_raise_except" for m'
    using that s(2,3) pending_scheduler[OF that(2)] jobs_ok_mono[of "Suc n" ?m n] ran[OF that(1)]
    by (intro exI[of _ m']) (simp add: round after_round_def ttmr_after_def)
  show ?thesis
  proof (cases f)
    case Guard
    then show ?thesis using f by simp
  next
    case Tick_raise_except
    then have eq: "run_job f ?m = tick_raise_except ?m" by (simp add: run_job_def)
    from tick_raise_except_ok[OF s(2)] obtain m' where m': "tick_raise_except ?m = Inr m'" "jobs_ok n m'"
        "pending m' = tq_insert (1 + max 0 (- fst (hd q))) Tick_raise_except q" "spr SPR_TTMR m' = spr SPR_TTMR m OR SPR_TTMR_IP"
      using s(3) by auto
    then show ?thesis using Tick_raise_except ran[of m'] eq
      by (intro exI[of _ m']) (simp add: round after_round_def requeued_def ttmr_after_def)
  next
    case Tick_restart
    then have eq: "run_job f ?m = tick_restart ?m" by (simp add: run_job_def)
    from tick_restart_ok[OF s(2)] obtain m' where m': "tick_restart ?m = Inr m'" "jobs_ok n m'"
        "pending m' = tq_insert (uint (spr SPR_TTMR m AND SPR_TTMR_TP)) Tick_restart q" "spr SPR_TTMR m' = spr SPR_TTMR m"
      using s(3) by auto
    then show ?thesis using Tick_restart ran[of m'] eq
      by (intro exI[of _ m']) (simp add: round after_round_def requeued_def ttmr_after_def)
  next
    case Tick_one_shot
    then show ?thesis by (intro keeps[of "tick_one_shot ?m"]) (simp_all add: run_job_def tick_one_shot_def Let_def requeued_def)
  next
    case Pic_rep_int
    have "spr SPR_TTMR (pic_rep_int ?m) = spr SPR_TTMR m"
      by (cases "exception_ignored EXCEPT_INT ?m")
         (simp_all add: pic_rep_int_def except_handle_ignored debug_ignore_sprs except_handle_sprs)
    with Pic_rep_int show ?thesis
      by (intro keeps[of "pic_rep_int ?m"]) (simp_all add: run_job_def pic_rep_int_def requeued_def)
  next
    case Check_int
    then have eq: "run_job f ?m = SCHED_ADD Check_int CHECK_INT_TIME ?m" by (simp add: run_job_def check_int_def)
    from SCHED_ADD_ok[OF s(2), of CHECK_INT_TIME Check_int] obtain t where "run_job f ?m = Inr (?m\<lparr>scheduler := t\<rparr>)"
        "jobs_ok n (?m\<lparr>scheduler := t\<rparr>)" "pending (?m\<lparr>scheduler := t\<rparr>) = tq_insert CHECK_INT_TIME Check_int q"
      using s(3) eq by auto
    then show ?thesis using Check_int ran[of "?m\<lparr>scheduler := t\<rparr>"]
      by (intro exI[of _ "?m\<lparr>scheduler := t\<rparr>"]) (simp add: round after_round_def requeued_def ttmr_after_def)
  qed
qed

section \<open>The end of the loop\<close>

text \<open>The guard is in the future, and a periodic timer has a period.\<close>

definition jobs_end :: "machine \<Rightarrow> bool" where
  "jobs_end m \<longleftrightarrow> (\<forall>t. (t, Guard) \<in> set (pending m) \<longrightarrow> 0 < t)
     \<and> (spr SPR_TTMR m AND SPR_TTMR_TP \<noteq> 0 \<or> Tick_restart \<notin> snd ` set (pending m))"

definition due_jobs :: "(int \<times> job) list \<Rightarrow> nat" where
  "due_jobs q = length (filter (\<lambda>(t, f). t \<le> 0) q)"

lemma due_jobs_insert: "due_jobs (tq_insert t f q) = (if t \<le> 0 then Suc (due_jobs q) else due_jobs q)"
  by (induction q) (auto simp: due_jobs_def)

lemma requeued_later:
  assumes "requeued f m q = Some t" and "f = Tick_restart \<Longrightarrow> spr SPR_TTMR m AND SPR_TTMR_TP \<noteq> 0"
  shows "0 < t"
proof (cases "f = Tick_restart")
  case True
  then have "uint (spr SPR_TTMR m AND SPR_TTMR_TP) \<noteq> 0" using assms(2) by (simp add: unsigned_eq_0_iff)
  then show ?thesis using True assms(1) by (auto simp: requeued_def order.strict_iff_order)
qed (use assms(1) in \<open>auto simp: requeued_def split: job.splits\<close>)

lemma set_after_round: "set (after_round f m q) \<subseteq> insert (the (requeued f m q), f) (set q)"
  by (auto simp: after_round_def set_tq_insert split: option.splits)

lemma after_round_end:
  assumes e: "jobs_end m" and p: "pending m = (t, f) # q" and f: "f \<noteq> Guard"
    and m': "pending m' = after_round f m q" "spr SPR_TTMR m' AND SPR_TTMR_TP = spr SPR_TTMR m AND SPR_TTMR_TP"
  shows "jobs_end m'"
  using e f set_after_round[of f m q] unfolding jobs_end_def m' p by fastforce

lemma due_after_round:
  assumes "f = Tick_restart \<Longrightarrow> spr SPR_TTMR m AND SPR_TTMR_TP \<noteq> 0"
  shows "due_jobs (after_round f m q) = due_jobs q"
  using requeued_later[of f m q] assms by (fastforce simp: after_round_def due_jobs_insert split: option.splits)

text \<open>
  What it means that jobs run: \<open>runs fs m m'\<close> holds when the jobs \<open>fs\<close>, one after the other, are each taken from
  the head of the queue, where they are due, and their function is called, and \<open>m'\<close> is the machine after the last.
\<close>

inductive runs :: "job list \<Rightarrow> machine \<Rightarrow> machine \<Rightarrow> bool" where
  runs_none: "runs [] m m"
| runs_job: "pending m = (t, f) # q \<Longrightarrow> t \<le> 0 \<Longrightarrow> pending (m\<lparr>scheduler := s\<rparr>) = q
    \<Longrightarrow> run_job f (m\<lparr>scheduler := s\<rparr>) = Inr m1 \<Longrightarrow> runs fs m1 m' \<Longrightarrow> runs (f # fs) m m'"

inductive_cases runs_jobE: "runs (f # fs) m m'"

text \<open>The jobs of a queue that are due, in its order, when \<open>d\<close> cycles have passed.\<close>

definition due_in :: "int \<Rightarrow> (int \<times> job) list \<Rightarrow> job list" where
  "due_in d q = map snd (filter (\<lambda>(t, f). t \<le> d) q)"

lemma due_in_Cons: "due_in d ((t, f) # q) = (if t \<le> d then f # due_in d q else due_in d q)"
  by (simp add: due_in_def)

lemma due_in_insert: "0 < t \<Longrightarrow> due_in 0 (tq_insert t f q) = due_in 0 q"
  by (induction q) (auto simp: due_in_def)

lemma due_in_after_round:
  assumes "f = Tick_restart \<Longrightarrow> spr SPR_TTMR m AND SPR_TTMR_TP \<noteq> 0"
  shows "due_in 0 (after_round f m q) = due_in 0 q"
  using requeued_later[of f m q] assms by (auto simp: after_round_def due_in_insert split: option.splits)

lemma due_in_none: "\<forall>(t, f) \<in> set q. 0 < t \<Longrightarrow> due_in 0 q = []"
  by (auto simp: due_in_def filter_empty_conv)

lemma due_in_shift: "due_in 0 (map (\<lambda>(t, f). (t - d, f)) q) = due_in d q"
  by (induction q) (auto simp: due_in_def)

lemma due_in_list: "due_in d q = [f. (t, f) \<leftarrow> q, t \<le> d]"
  by (induction q) (auto simp: due_in_def)

lemma after_round_keeps: "set q \<subseteq> set (after_round f m q)"
  by (auto simp: after_round_def set_tq_insert split: option.splits)

lemma pending_sorted: "jobs_ok n m \<Longrightarrow> sorted (map fst (pending m))"
  by (auto simp: jobs_ok_def sched_wf_def tq_wf_def pending_def comp_def case_prod_beta)

lemma job_due_pending: "jobs_ok n m \<Longrightarrow> job_due m = Inr (fst (hd (pending m)) \<le> 0)"
  using pending_hd[of n m] by (auto simp: job_due_def split: list.splits)

lemma none_due:
  assumes "jobs_ok n m" and "0 < fst (hd (pending m))"
  shows "\<forall>(t, f) \<in> set (pending m). 0 < t"
  using pending_sorted[OF assms(1)] assms(2) by (cases "pending m") auto

lemma do_scheduler_ends:
  assumes "jobs_ok n m" and "jobs_end m" and "fst (hd (pending m)) \<le> 0"
  shows "\<exists>m'. do_scheduler m = Some (Inr m') \<and> jobs_ok n m' \<and> runs (due_in 0 (pending m)) m m'
     \<and> (\<forall>(t, f) \<in> set (pending m'). 0 < t) \<and> {(t, f) \<in> set (pending m). 0 < t} \<subseteq> set (pending m')
     \<and> spr SPR_TTMR m' = ttmr_after (due_in 0 (pending m)) (spr SPR_TTMR m)"
  using assms
proof (induction "due_jobs (pending m)" arbitrary: m rule: less_induct)
  case less
  obtain t f q where p: "pending m = (t, f) # q" using pending_hd(4)[OF less.prems(1)] by (metis list.exhaust prod.exhaust)
  with less.prems have t: "t \<le> 0" and f: "f \<noteq> Guard" by (auto simp: jobs_end_def)
  from scheduler_round_ok[OF less.prems(1) p f] obtain m1 s where m1: "scheduler_round m = Inr m1" "jobs_ok n m1"
      "pending m1 = after_round f m q" "spr SPR_TTMR m1 = ttmr_after [f] (spr SPR_TTMR m)"
      "pending (m\<lparr>scheduler := s\<rparr>) = q" "run_job f (m\<lparr>scheduler := s\<rparr>) = Inr m1" by blast
  have e: "jobs_end m1" by (rule after_round_end[OF less.prems(2) p f m1(3)]) (simp add: m1(4) ttmr_after_period)
  have z: "f = Tick_restart \<Longrightarrow> spr SPR_TTMR m AND SPR_TTMR_TP \<noteq> 0"
    using less.prems(2) p by (simp add: jobs_end_def)
  from due_after_round[OF z, where q = q] t have less': "due_jobs (pending m1) < due_jobs (pending m)"
    by (simp add: m1(3) p due_jobs_def)
  have due: "due_in 0 (pending m) = f # due_in 0 (pending m1)"
    using due_in_after_round[OF z, where q = q] t by (simp add: p m1(3) due_in_Cons)
  have run: "runs (due_in 0 (pending m)) m m'" if "runs (due_in 0 (pending m1)) m1 m'" for m'
    unfolding due by (rule runs_job[OF p t m1(5,6) that])
  have keep: "{(t, f) \<in> set (pending m). 0 < t} \<subseteq> {(t, f) \<in> set (pending m1). 0 < t}"
    using t after_round_keeps[of q f m] by (auto simp: p m1(3))
  have reg: "ttmr_after (due_in 0 (pending m1)) (spr SPR_TTMR m1) = ttmr_after (due_in 0 (pending m)) (spr SPR_TTMR m)"
    unfolding due m1(4) by (rule ttmr_after_Cons)
  have step: "do_scheduler m = (if fst (hd (pending m1)) \<le> 0 then do_scheduler m1 else Some (Inr m1))"
    by (subst do_scheduler.simps) (simp add: m1(1) job_due_pending[OF m1(2)])
  show ?case
  proof (cases "fst (hd (pending m1)) \<le> 0")
    case True
    from less.hyps[OF less' m1(2) e True] obtain m' where "do_scheduler m1 = Some (Inr m')" "jobs_ok n m'"
        "runs (due_in 0 (pending m1)) m1 m'" "\<forall>(t, f) \<in> set (pending m'). 0 < t"
        "{(t, f) \<in> set (pending m1). 0 < t} \<subseteq> set (pending m')"
        "spr SPR_TTMR m' = ttmr_after (due_in 0 (pending m1)) (spr SPR_TTMR m1)" by blast
    then show ?thesis using step True run keep reg by (intro exI[of _ m']) auto
  next
    case False
    then have "\<forall>(t, f) \<in> set (pending m1). 0 < t" using none_due[OF m1(2)] by simp
    then have "due_in 0 (pending m1) = []" by (rule due_in_none)
    then show ?thesis using step False run[of m1] reg keep m1(2) \<open>\<forall>(t, f) \<in> set (pending m1). 0 < t\<close>
      by (intro exI[of _ m1]) (auto intro: runs_none)
  qed
qed

section \<open>A period of 0\<close>

definition stuck :: "machine \<Rightarrow> bool" where
  "stuck m \<longleftrightarrow> jobs_ok 0 m \<and> (\<forall>t. (t, Guard) \<in> set (pending m) \<longrightarrow> 0 < t)
     \<and> spr SPR_TTMR m AND SPR_TTMR_TP = 0 \<and> (\<exists>t \<le> 0. (t, Tick_restart) \<in> set (pending m))"

lemma stuck_head:
  assumes "stuck m"
  shows "fst (hd (pending m)) \<le> 0"
proof -
  obtain t where t: "t \<le> 0" "(t, Tick_restart) \<in> set (pending m)" using assms by (auto simp: stuck_def)
  moreover have "sorted (map fst (pending m))" using assms pending_sorted by (auto simp: stuck_def)
  ultimately show ?thesis by (cases "pending m") force+
qed

lemma stuck_round:
  assumes s: "stuck m"
  shows "\<exists>m'. scheduler_round m = Inr m' \<and> stuck m'"
proof -
  have ok: "jobs_ok 0 m" using s by (simp add: stuck_def)
  obtain t f q where p: "pending m = (t, f) # q" using pending_hd(4)[OF ok] by (metis list.exhaust prod.exhaust)
  have f: "f \<noteq> Guard" using stuck_head[OF s] s p by (auto simp: stuck_def)
  from scheduler_round_ok[OF ok p f] obtain m1 where m1: "scheduler_round m = Inr m1" "jobs_ok 0 m1"
      "pending m1 = after_round f m q" "spr SPR_TTMR m1 = ttmr_after [f] (spr SPR_TTMR m)" by blast
  have "\<exists>t \<le> 0. (t, Tick_restart) \<in> set (after_round f m q)"
  proof (cases "f = Tick_restart")
    case True
    then show ?thesis using s by (auto simp: stuck_def after_round_def requeued_def set_tq_insert)
  next
    case False
    then show ?thesis using s p by (auto simp: stuck_def after_round_def set_tq_insert split: option.splits)
  qed
  moreover have "\<forall>t. (t, Guard) \<in> set (after_round f m q) \<longrightarrow> 0 < t"
    using s f p set_after_round[of f m q] by (fastforce simp: stuck_def)
  ultimately show ?thesis using m1 s by (auto simp: stuck_def ttmr_after_period)
qed

lemma stuck_forever:
  assumes "stuck m"
  shows "do_scheduler m = None"
proof (rule ccontr)
  assume "do_scheduler m \<noteq> None"
  then obtain r where "do_scheduler m = Some r" by blast
  then have "\<not> stuck m"
  proof (induct m r rule: do_scheduler.raw_induct[rotated, consumes 1])
    case (1 loop m r)
    show ?case
    proof
      assume "stuck m"
      from stuck_round[OF this] obtain m1 where m1: "scheduler_round m = Inr m1" "stuck m1" by blast
      have "jobs_ok 0 m1" using m1(2) by (simp add: stuck_def)
      from job_due_pending[OF this] stuck_head[OF m1(2)] have "job_due m1 = Inr True" by simp
      then have "loop m1 = Some r" using 1(2) m1(1) by simp
      then show False using 1(1) m1(2) by blast
    qed
  qed
  with assms show False by simp
qed

section \<open>The passage of time\<close>

lemma pass_time_pending:
  fixes m :: machine
  assumes ok: "jobs_ok n m" and d: "0 \<le> d" "d \<le> MAX_LATE" and late: "\<forall>(t, f) \<in> set (pending m). 0 < t"
  defines "q \<equiv> job_queue (scheduler m)"
  defines "m' \<equiv> m\<lparr>scheduler := (scheduler m)\<lparr>job_queue := (hd q)\<lparr>time := i32 (time (hd q) - d)\<rparr> # tl q\<rparr>\<rparr>"
  shows "jobs_ok n m'" and "pending m' = map (\<lambda>(t, f). (t - d, f)) (pending m)"
proof -
  obtain e r where q: "q = e # r" using pending_hd(2)[OF ok] by (cases q) (simp_all add: q_def)
  have jobs: "sched_jobs (scheduler m) = (time e, func e, sched_entry.param e) # sched_abs (time e) r"
    using q by (simp add: q_def sched_jobs_def)
  have wf: "tq_wf (sched_jobs (scheduler m))" using ok by (simp add: jobs_ok_def sched_wf_def)
  have e: "0 < time e" "in_int32 (time e)"
    using late wf jobs by (auto simp: pending_def tq_wf_def)
  then have i: "i32 (time e - d) = time e - d" using d by (intro i32_id) (auto simp: in_int32_def)
  have shift: "sched_abs (now - d) xs = map (\<lambda>(t, x). (t - d, x)) (sched_abs now xs)" for now and xs :: "job sched_entry list"
  proof (induction xs arbitrary: now)
    case (Cons a xs)
    show ?case using Cons[of "now + time a"] by (simp add: algebra_simps)
  qed simp
  have jobs': "sched_jobs (scheduler m') = map (\<lambda>(t, x). (t - d, x)) (sched_jobs (scheduler m))"
    unfolding jobs by (simp add: m'_def q sched_jobs_def i shift)
  show pend: "pending m' = map (\<lambda>(t, f). (t - d, f)) (pending m)"
    by (simp add: pending_def jobs' case_prod_beta)
  have low: "0 < fst y" if "y \<in> set (sched_jobs (scheduler m))" for y
    using late that by (auto simp: pending_def case_prod_beta)
  have "sorted (map fst (sched_jobs (scheduler m')))"
    using wf by (auto simp: jobs' tq_wf_def case_prod_beta sorted_wrt_map)
  moreover have "\<forall>y \<in> set (sched_jobs (scheduler m')). in_int32 (fst y) \<and> fst y - fst (hd (sched_jobs (scheduler m'))) \<le> INT32_MAX"
  proof
    fix y assume "y \<in> set (sched_jobs (scheduler m'))"
    then obtain z where z: "z \<in> set (sched_jobs (scheduler m))" "fst y = fst z - d" by (auto simp: jobs')
    then have "in_int32 (fst z) \<and> fst z - time e \<le> INT32_MAX" using wf by (auto simp: tq_wf_def list_all_iff jobs)
    moreover have "fst (hd (sched_jobs (scheduler m'))) = time e - d" by (simp add: jobs' jobs)
    ultimately show "in_int32 (fst y) \<and> fst y - fst (hd (sched_jobs (scheduler m'))) \<le> INT32_MAX"
      using low[OF z(1)] d z(2) by (simp add: in_int32_def)
  qed
  ultimately have "sched_wf (scheduler m')" by (simp add: sched_wf_def tq_wf_def list_all_iff)
  then show "jobs_ok n m'"
    unfolding jobs_ok_def
  proof (intro conjI)
    show "n \<le> sched_room (scheduler m')" using ok by (simp add: jobs_ok_def m'_def sched_room_def)
    show "Guard \<in> snd ` set (pending m')" using ok by (simp add: jobs_ok_def pend image_image case_prod_beta)
    show "list_all (\<lambda>(t, f, p). p = 0 \<and> - MAX_LATE \<le> t) (sched_jobs (scheduler m'))"
      using ok low d by (force simp: jobs_ok_def jobs' list_all_iff)
  qed
qed

section \<open>Properties\<close>

text \<open> C6: The passage of time. If no job is due and the round of the main loop took \<open>d\<close> cycles (with the memory
  cycles, which are added to the count), the scheduler takes the jobs that become due within these \<open>d\<close> cycles from
  the queue, in the order of the queue, and calls the function of each (\<open>runs\<close>); it comes back without an error,
  no job is due again, and every later job is still queued, \<open>d\<close> cycles nearer. In TTMR the pending bit is set exactly when
  the tick exception was among the jobs. Conditions: the time is no more than the lateness the scheduler allows, the guard is
  further away, and a periodic timer has a period.\<close>

theorem every_due_job_runs:
  assumes "jobs_ok n m" and "\<forall>(t, f) \<in> set (pending m). 0 < t"
    and "d = sint (cycles (rt m) + scast (mem_cycles (rt m)) - time_start)" and "0 \<le> d" and "d \<le> MAX_LATE"
    and "\<forall>t. (t, Guard) \<in> set (pending m) \<longrightarrow> d < t"
    and "spr SPR_TTMR m AND SPR_TTMR_TP \<noteq> 0 \<or> Tick_restart \<notin> snd ` set (pending m)"
  shows "\<exists>m' s. pass_time time_start m = Some (Inr m') \<and> jobs_ok n m'
     \<and> runs [f. (t, f) \<leftarrow> pending m, t \<le> d]
         (m\<lparr>rt := (rt m)\<lparr>cycles := cycles (rt m) + scast (mem_cycles (rt m))\<rparr>, scheduler := s\<rparr>) m'
     \<and> pending (m\<lparr>scheduler := s\<rparr>) = [(t - d, f). (t, f) \<leftarrow> pending m]
     \<and> (\<forall>(t, f) \<in> set (pending m'). 0 < t)
     \<and> (\<forall>(t, f) \<in> set (pending m). d < t \<longrightarrow> (t - d, f) \<in> set (pending m'))
     \<and> spr SPR_TTMR m' = (if \<exists>t \<le> d. (t, Tick_raise_except) \<in> set (pending m) then spr SPR_TTMR m OR SPR_TTMR_IP else spr SPR_TTMR m)"
proof -
  define m1 where "m1 = m\<lparr>rt := (rt m)\<lparr>cycles := cycles (rt m) + scast (mem_cycles (rt m))\<rparr>\<rparr>"
  define q where "q = job_queue (scheduler m)"
  define s where "s = (scheduler m1)\<lparr>job_queue := (hd q)\<lparr>time := i32 (time (hd q) - d)\<rparr> # tl q\<rparr>"
  define m2 where "m2 = m1\<lparr>scheduler := s\<rparr>"
  have same: "scheduler m1 = scheduler m" "spr SPR_TTMR m1 = spr SPR_TTMR m" by (simp_all add: m1_def)
  note p1 = pending_scheduler[OF same(1)]
  have m2: "jobs_ok n m2" "pending m2 = map (\<lambda>(t, f). (t - d, f)) (pending m)"
    using pass_time_pending[of n m1 d] assms(1,2,4,5) p1 same(1) by (simp_all add: m2_def s_def q_def)
  have t: "spr SPR_TTMR m2 = spr SPR_TTMR m" by (simp add: m2_def same(2))
  have e: "jobs_end m2" unfolding jobs_end_def t
  proof (intro conjI allI impI)
    fix t assume "(t, Guard) \<in> set (pending m2)"
    then have "(t + d, Guard) \<in> set (pending m)" by (auto simp: m2(2))
    then show "0 < t" using assms(6) by force
  next
    show "spr SPR_TTMR m AND SPR_TTMR_TP \<noteq> 0 \<or> Tick_restart \<notin> snd ` set (pending m2)"
      using assms(7) by (simp add: m2(2) image_image case_prod_beta)
  qed
  obtain en r where q: "q = en # r" using pending_hd(2)[OF assms(1)] by (cases q) (simp_all add: q_def)
  then have run: "pass_time time_start m = (if i32 (time en - d) \<le> 0 then do_scheduler m2 else Some (Inr m2))"
    using assms(3) by (simp add: pass_time_def q_def m2_def m1_def s_def)
  have head: "fst (hd (pending m2)) = i32 (time en - d)" using pending_hd(1)[OF m2(1)] by (simp add: m2_def s_def q)
  obtain m' where m': "pass_time time_start m = Some (Inr m')" "jobs_ok n m'" "runs (due_in 0 (pending m2)) m2 m'"
      "\<forall>(t, f) \<in> set (pending m'). 0 < t" "{(t, f) \<in> set (pending m2). 0 < t} \<subseteq> set (pending m')"
      "spr SPR_TTMR m' = ttmr_after (due_in 0 (pending m2)) (spr SPR_TTMR m2)"
  proof (cases "i32 (time en - d) \<le> 0")
    case True
    then show ?thesis using that do_scheduler_ends[OF m2(1) e] head run by auto
  next
    case False
    then have later: "\<forall>(t, f) \<in> set (pending m2). 0 < t" using none_due[OF m2(1)] head by simp
    then show ?thesis using that[of m2] m2(1) run False runs_none[of m2] by (auto simp: due_in_none[OF later])
  qed
  have due: "due_in 0 (pending m2) = [f. (t, f) \<leftarrow> pending m, t \<le> d]"
    unfolding m2(2) due_in_shift by (rule due_in_list)
  have tick: "ttmr_after (due_in 0 (pending m2)) (spr SPR_TTMR m2)
      = (if \<exists>t \<le> d. (t, Tick_raise_except) \<in> set (pending m) then spr SPR_TTMR m OR SPR_TTMR_IP else spr SPR_TTMR m)"
    unfolding m2(2) due_in_shift t ttmr_after_def by (force simp: due_in_def)
  have pend: "pending (m\<lparr>scheduler := s\<rparr>) = [(t - d, f). (t, f) \<leftarrow> pending m]"
    using m2(2) pending_scheduler[of "m\<lparr>scheduler := s\<rparr>" m2] by (simp add: m2_def map_concat)
  have keep: "\<forall>(t, f) \<in> set (pending m). d < t \<longrightarrow> (t - d, f) \<in> set (pending m')"
    using m'(5) by (force simp: m2(2))
  have m2_eq: "m2 = m\<lparr>rt := (rt m)\<lparr>cycles := cycles (rt m) + scast (mem_cycles (rt m))\<rparr>, scheduler := s\<rparr>"
    by (simp add: m2_def m1_def)
  have run: "runs [f. (t, f) \<leftarrow> pending m, t \<le> d]
      (m\<lparr>rt := (rt m)\<lparr>cycles := cycles (rt m) + scast (mem_cycles (rt m))\<rparr>, scheduler := s\<rparr>) m'"
    unfolding due[symmetric] m2_eq[symmetric] by (rule m'(3))
  show ?thesis
    using m'(1,2,4) run keep pend trans[OF m'(6) tick] by (intro exI[of _ m'] exI[of _ s]) (simp only: HOL.simp_thms)
qed

definition ticking_machine :: "u32 \<Rightarrow> int \<Rightarrow> machine" where
  "ticking_machine ttmr t = (timer_machine ttmr)
     \<lparr>scheduler := \<lparr>free_job_queue = replicate 4 free_entry,
        job_queue = [free_entry\<lparr>time := t, func := Tick_restart\<rparr>, free_entry\<lparr>time := SCHED_TIME_MAX - 100\<rparr>]\<rparr>,
      rt := zero_runtime\<lparr>mem_cycles := 5\<rparr>\<rparr>"

lemma ticking_machine_ok:
  "0 \<le> t \<Longrightarrow> t \<le> 3 \<Longrightarrow> jobs_ok 4 (ticking_machine ttmr t)"
  "pending (ticking_machine ttmr t) = [(t, Tick_restart), (t + (SCHED_TIME_MAX - 100), Guard)]"
  by (simp_all add: ticking_machine_def jobs_ok_def pending_def sched_wf_def sched_jobs_def tq_wf_def in_int32_def
      sched_room_def free_entry_def)

theorem every_due_job_runs_witness:
  "\<exists>m' s. pass_time 0 (ticking_machine 0x40000002 3) = Some (Inr m') \<and> (\<forall>(t, f) \<in> set (pending m'). 0 < t)
     \<and> runs [Tick_restart] ((ticking_machine 0x40000002 3)\<lparr>rt := zero_runtime\<lparr>cycles := 5, mem_cycles := 5\<rparr>, scheduler := s\<rparr>) m'"
proof -
  let ?m = "ticking_machine 0x40000002 3"
  have r: "rt ?m = zero_runtime\<lparr>mem_cycles := 5\<rparr>" "spr SPR_TTMR ?m = 0x40000002"
    by (simp_all add: ticking_machine_def timer_machine_def)
  have "5 = sint (cycles (rt ?m) + scast (mem_cycles (rt ?m)) - 0)" by (simp add: r zero_runtime_def)
  from every_due_job_runs[OF ticking_machine_ok(1)[of 3 "0x40000002"] _ this]
  show ?thesis by (auto simp: ticking_machine_ok(2) r zero_runtime_def)
qed

text \<open> C14: A periodic timer of period 0 stops the simulator. If the job that restarts the timer is due, the period in
  TTMR is 0 and the guard job is in the future, the loop of the scheduler never ends: whatever else is queued, the job
  queues itself again for the same cycle.\<close>

theorem zero_period_never_returns:
  assumes "jobs_ok 0 m" and "\<forall>t. (t, Guard) \<in> set (pending m) \<longrightarrow> 0 < t"
    and "spr SPR_TTMR m AND SPR_TTMR_TP = 0" and "(t, Tick_restart) \<in> set (pending m)" and "t \<le> 0"
  shows "do_scheduler m = None"
  by (rule stuck_forever) (use assms in \<open>auto simp: stuck_def\<close>)

theorem zero_period_never_returns_witness: "do_scheduler (ticking_machine SPR_TTMR_RT 0) = None"
proof (rule zero_period_never_returns[of _ 0])
  show "jobs_ok 0 (ticking_machine SPR_TTMR_RT 0)"
    using ticking_machine_ok(1)[of 0 SPR_TTMR_RT] by (simp add: jobs_ok_mono)
  show "spr SPR_TTMR (ticking_machine SPR_TTMR_RT 0) AND SPR_TTMR_TP = 0"
    by (simp add: ticking_machine_def timer_machine_def)
qed (simp_all add: ticking_machine_ok(2))

end
