(* ===== verification/Insn_Props.thy ===== *)
theory Insn_Props
  imports Cpu
begin

text \<open>
  Arithmetic instructions against integer arithmetic, the way into an exception handler and back, and what
  the processor does with words it has no code for.
\<close>

section \<open>Flags and results\<close>

lemma spr_flag_frame [simp, frame_simps]:
  "reg (cpu (spr_flag f b m)) = reg (cpu m)" "pc (cpu (spr_flag f b m)) = pc (cpu m)"
  "conf (spr_flag f b m) = conf m" "rt (spr_flag f b m) = rt m" "mem (spr_flag f b m) = mem m"
  by (simp_all add: spr_flag_def)

lemma set_param0_frame [simp, frame_simps]:
  "spr r (set_param0 v ps m) = spr r m" "reg (cpu (set_param0 v ps m)) = (reg (cpu m))(unat (reg_param0 ps) := v)"
  "pc (cpu (set_param0 v ps m)) = pc (cpu m)" "conf (set_param0 v ps m) = conf m"
  by (simp_all add: set_param0_def set_reg_def)

lemma spr_flag_sr: "spr SPR_SR (spr_flag f b m) = (if b then spr SPR_SR m OR f else spr SPR_SR m AND NOT f)"
  by (simp add: spr_flag_def)

lemma has_spr_flag:
  "f \<noteq> 0 \<Longrightarrow> has (spr SPR_SR (spr_flag f b m)) f = b"
  "f AND g = 0 \<Longrightarrow> has (spr SPR_SR (spr_flag f b m)) g = has (spr SPR_SR m) g"
  by (simp_all add: spr_flag_sr has_set_flag_other has_clear_flag_other)

lemma range_exception_frame [simp]: "reg (cpu (range_exception f m)) = reg (cpu m)"
  by (simp add: range_exception_def)

text \<open>The handler still sees the arithmetic flags.\<close>

lemma has_range_exception:
  assumes "g AND (SPR_SR_SM OR SPR_SR_OVE OR SPR_SR_IEE OR SPR_SR_TEE OR SPR_SR_DME OR SPR_SR_IME) = 0"
  shows "has (spr SPR_SR (range_exception f m)) g = has (spr SPR_SR m) g"
proof -
  let ?m = "except_handle EXCEPT_RANGE (pc (cpu m)) m"
  have "has (spr SPR_SR ?m) g = has (spr SPR_SR m) g"
  proof (cases "exception_ignored EXCEPT_RANGE m")
    case True
    then show ?thesis by (simp add: except_handle_ignored debug_ignore_sprs)
  next
    case False
    then show ?thesis using handler_sr_keeps[OF assms] by (simp add: except_handle_sprs has_def)
  qed
  then show ?thesis by (simp add: range_exception_def)
qed

lemmas arith_flags = has_range_exception has_spr_flag set_param0_frame

section \<open>Integer arithmetic\<close>

lemma uint32: "0 \<le> uint (x :: u32)" "uint (x :: u32) < 0x100000000"
  using uint_lt2p[of x] by simp_all

lemma uint32_cases:
  obtains x where "uint (a :: u32) = x" and "0 \<le> x" and "x < 0x100000000"
  by (rule that[OF refl uint32])

lemma sint_uint32: "sint (x :: u32) = (if uint x < 0x80000000 then uint x else uint x - 0x100000000)"
proof -
  have s: "sint x = (uint x + 0x80000000) mod 0x100000000 - 0x80000000"
    using int_word_sint[of "uint x", where 'a = 32] by simp
  show ?thesis
  proof (cases "uint x < 0x80000000")
    case True
    then show ?thesis using uint32[of x] s by (simp add: mod_pos_pos_trivial)
  next
    case False
    have "uint x + 0x80000000 = (uint x - 0x80000000) + 0x100000000" by simp
    then have "(uint x + 0x80000000) mod 0x100000000 = (uint x - 0x80000000) mod 0x100000000"
      by (simp only: mod_add_self2)
    also have "\<dots> = uint x - 0x80000000"
      by (subst mod_pos_pos_trivial) (use uint32[of x] False in linarith)+
    finally show ?thesis using False s by simp
  qed
qed

lemma uint_add32: "uint (a + b :: u32) = (if uint a + uint b < 0x100000000 then uint a + uint b else uint a + uint b - 0x100000000)"
  by (simp add: uint_plus_if')

lemma uint_sub32: "uint (a - b :: u32) = (if uint b \<le> uint a then uint a - uint b else uint a - uint b + 0x100000000)"
  by (simp add: uint_sub_if')

lemma uint_adc32: "uint (a + b + of_bool c :: u32)
    = (if uint a + uint b + of_bool c < 0x100000000 then uint a + uint b + of_bool c else uint a + uint b + of_bool c - 0x100000000)"
proof -
  obtain x y where "uint a = x" "0 \<le> x" "x < 0x100000000" "uint b = y" "0 \<le> y" "y < 0x100000000"
    using uint32_cases by metis
  then show ?thesis unfolding uint_add32[of "a + b"] uint_add32[of a b] by (cases c) auto
qed

text \<open>The carry is the bit that does not fit, the overflow flag the sign that is wrong.\<close>

lemma carry_out:
  fixes a b :: u32 and c :: bool
  defines "r \<equiv> a + b + of_bool c"
  shows "(c \<and> r \<le> a \<or> r < a) \<longleftrightarrow> 0x100000000 \<le> uint a + uint b + of_bool c"
proof -
  obtain x y where "uint a = x" "0 \<le> x" "x < 0x100000000" "uint b = y" "0 \<le> y" "y < 0x100000000"
    using uint32_cases by metis
  then show ?thesis unfolding word_less_def word_le_def r_def uint_adc32 by (cases c) auto
qed

lemma overflow_out:
  fixes a b :: u32 and c :: bool
  defines "r \<equiv> a + b + of_bool c"
  shows "(sint a < 0 \<and> sint b < 0 \<and> \<not> sint r < 0 \<or> \<not> sint a < 0 \<and> \<not> sint b < 0 \<and> sint r < 0)
      \<longleftrightarrow> sint a + sint b + of_bool c \<notin> {INT32_MIN..INT32_MAX}"
proof -
  obtain x y where "uint a = x" "0 \<le> x" "x < 0x100000000" "uint b = y" "0 \<le> y" "y < 0x100000000"
    using uint32_cases by metis
  then show ?thesis unfolding sint_uint32 r_def uint_adc32 by (cases c) auto
qed

lemma borrow_out:
  fixes a b :: u32
  shows "a < b \<longleftrightarrow> uint a - uint b < 0"
    and "(sint a < 0 \<and> \<not> sint b < 0 \<and> \<not> sint (a - b) < 0 \<or> \<not> sint a < 0 \<and> sint b < 0 \<and> sint (a - b) < 0)
      \<longleftrightarrow> sint a - sint b \<notin> {INT32_MIN..INT32_MAX}"
proof -
  obtain x y where "uint a = x" "0 \<le> x" "x < 0x100000000" "uint b = y" "0 \<le> y" "y < 0x100000000"
    using uint32_cases by metis
  then show "a < b \<longleftrightarrow> uint a - uint b < 0"
    and "(sint a < 0 \<and> \<not> sint b < 0 \<and> \<not> sint (a - b) < 0 \<or> \<not> sint a < 0 \<and> sint b < 0 \<and> sint (a - b) < 0)
      \<longleftrightarrow> sint a - sint b \<notin> {INT32_MIN..INT32_MAX}"
    unfolding word_less_def sint_uint32 uint_sub32 by auto
qed

lemma adder_exact:
  fixes ps m
  defines "a \<equiv> param 2 ps m" and "b \<equiv> param 1 ps m" and "rd \<equiv> unat (reg_param0 ps)"
    and "c \<equiv> has (spr SPR_SR m) SPR_SR_CY"
  shows "reg (cpu (l_add ps m)) rd = word_of_int (uint a + uint b)"
    and "reg (cpu (l_addc ps m)) rd = word_of_int (uint a + uint b + of_bool c)"
    and "reg (cpu (l_sub ps m)) rd = word_of_int (uint b - uint a)"
    and "has (spr SPR_SR (l_add ps m)) SPR_SR_CY \<longleftrightarrow> 0x100000000 \<le> uint a + uint b"
    and "has (spr SPR_SR (l_addc ps m)) SPR_SR_CY \<longleftrightarrow> 0x100000000 \<le> uint a + uint b + of_bool c"
    and "has (spr SPR_SR (l_sub ps m)) SPR_SR_CY \<longleftrightarrow> uint b - uint a < 0"
    and "has (spr SPR_SR (l_add ps m)) SPR_SR_OV \<longleftrightarrow> sint a + sint b \<notin> {INT32_MIN..INT32_MAX}"
    and "has (spr SPR_SR (l_addc ps m)) SPR_SR_OV \<longleftrightarrow> sint a + sint b + of_bool c \<notin> {INT32_MIN..INT32_MAX}"
    and "has (spr SPR_SR (l_sub ps m)) SPR_SR_OV \<longleftrightarrow> sint b - sint a \<notin> {INT32_MIN..INT32_MAX}"
proof -
  have adc: "a + b + of_bool c = (if c then a + b + 1 else a + b)" by simp
  show "reg (cpu (l_add ps m)) rd = word_of_int (uint a + uint b)"
    by (simp add: l_add_def Let_def a_def b_def rd_def)
  show "reg (cpu (l_addc ps m)) rd = word_of_int (uint a + uint b + of_bool c)"
    by (simp add: l_addc_def Let_def a_def b_def rd_def c_def)
  show "reg (cpu (l_sub ps m)) rd = word_of_int (uint b - uint a)"
    by (simp add: l_sub_def Let_def a_def b_def rd_def)
  show "has (spr SPR_SR (l_add ps m)) SPR_SR_CY \<longleftrightarrow> 0x100000000 \<le> uint a + uint b"
    using carry_out[of False a b] by (simp add: l_add_def Let_def a_def b_def arith_flags)
  show "has (spr SPR_SR (l_addc ps m)) SPR_SR_CY \<longleftrightarrow> 0x100000000 \<le> uint a + uint b + of_bool c"
    using carry_out[of c a b] unfolding adc
    by (simp only: l_addc_def Let_def a_def b_def c_def) (simp add: arith_flags cong: if_cong)
  show "has (spr SPR_SR (l_sub ps m)) SPR_SR_CY \<longleftrightarrow> uint b - uint a < 0"
    using borrow_out(1)[of b a] by (simp add: l_sub_def Let_def a_def b_def arith_flags)
  show "has (spr SPR_SR (l_add ps m)) SPR_SR_OV \<longleftrightarrow> sint a + sint b \<notin> {INT32_MIN..INT32_MAX}"
    using overflow_out[of a b False] by (simp add: l_add_def Let_def a_def b_def arith_flags)
  show "has (spr SPR_SR (l_addc ps m)) SPR_SR_OV \<longleftrightarrow> sint a + sint b + of_bool c \<notin> {INT32_MIN..INT32_MAX}"
    using overflow_out[of a b c] unfolding adc
    by (simp only: l_addc_def Let_def a_def b_def c_def) (simp add: arith_flags cong: if_cong)
  show "has (spr SPR_SR (l_sub ps m)) SPR_SR_OV \<longleftrightarrow> sint b - sint a \<notin> {INT32_MIN..INT32_MAX}"
    using borrow_out(2)[of b a] by (simp add: l_sub_def Let_def a_def b_def arith_flags)
qed


section \<open>Into a handler and back\<close>

lemma pic_ints_en_ok:
  assumes "jobs_ok 1 m"
  shows "\<exists>s. pic_ints_en m = Inr (m\<lparr>scheduler := s\<rparr>)"
  using SCHED_ADD_ok[of 0 m 0 Pic_rep_int] assms by (cases m) (auto simp: pic_ints_en_def)

lemma rfe_restores:
  assumes "jobs_ok 1 h"
  shows "\<exists>m. l_rfe ps h = Inr m \<and> pcnext m = spr SPR_EPCR_BASE h \<and> spr SPR_SR m = spr SPR_ESR_BASE h OR SPR_SR_FO
     \<and> reg (cpu m) = reg (cpu h) \<and> next_delay_insn m = next_delay_insn h"
proof -
  let ?h = "spr_or SPR_SR SPR_SR_FO (set_spr SPR_SR (spr SPR_ESR_BASE h) (h\<lparr>pcnext := spr SPR_EPCR_BASE h\<rparr>))"
  have "jobs_ok 1 ?h" using assms by (simp add: jobs_ok_def pending_def)
  from pic_ints_en_ok[OF this] obtain s where s: "pic_ints_en ?h = Inr (?h\<lparr>scheduler := s\<rparr>)" ..
  have "l_rfe ps h = Inr ?h \<or> l_rfe ps h = Inr (?h\<lparr>scheduler := s\<rparr>)"
    using s by (simp add: l_rfe_def mtspr_def Let_def)
  then show ?thesis by auto
qed

text \<open>\<open>m\<close> is at the instruction that follows the one \<open>b\<close> has executed; if that was a jump or a branch, it is its delay
  slot, the next word, and \<open>pcnext\<close> is already where the branch leads.\<close>

definition at_next_insn :: "machine \<Rightarrow> machine \<Rightarrow> bool" where
  "at_next_insn b m \<longleftrightarrow> pc (cpu m) = pc (cpu (update_pc b)) \<and> pcnext m = pcnext (update_pc b)
     \<and> delay_insn (cpu m) = delay_insn (cpu (update_pc b)) \<and> (next_delay_insn b \<longrightarrow> pcnext b = pc (cpu b) + 4)"

lemma at_next_insn_slot: "at_next_insn b m \<Longrightarrow> delay_insn (cpu m) = next_delay_insn b"
  by (simp add: at_next_insn_def update_pc_def Let_def)

lemma at_next_insn_branch: "at_next_insn b m \<Longrightarrow> next_delay_insn b \<Longrightarrow> pc (cpu m) = pc (cpu b) + 4 \<and> pcnext m = pc_delay (cpu b)"
  by (simp add: at_next_insn_def update_pc_def Let_def)

lemma at_next_insn_plain: "at_next_insn b m \<Longrightarrow> \<not> next_delay_insn b \<Longrightarrow> pcnext m = pc (cpu m) + 4"
  by (simp add: at_next_insn_def update_pc_def Let_def)

lemma update_pc_resume:
  "\<not> next_delay_insn m \<Longrightarrow> \<not> delay_insn (cpu (update_pc m)) \<and> pc (cpu (update_pc m)) = pcnext m
     \<and> pcnext (update_pc m) = pcnext m + 4 \<and> spr SPR_SR (update_pc m) = spr SPR_SR m \<and> reg (cpu (update_pc m)) = reg (cpu m)"
  by (simp add: update_pc_def Let_def)

section \<open>Words without code\<close>

lemma output_function_invalid: "output_function sf rnd ''l_invalid'' ps m = Inr m"
  by (simp add: output_function_def insn_table_def)

section \<open>Properties\<close>

text \<open> C10: The adder is exact. Whatever the operands, the carry flag and the mode, l.add, l.addc and l.sub leave in
  the destination register the integer sum or difference modulo \<open>2 ^ 32\<close>, in the carry flag whether the unsigned
  result does not fit (a borrow for l.sub), and in the overflow flag whether the signed result does not fit, also when
  they end in a range exception.\<close>

theorem adder_is_exact:
  "let a = param 2 ps m; b = param 1 ps m; rd = unat (reg_param0 ps); c = has (spr SPR_SR m) SPR_SR_CY
   in reg (cpu (l_add ps m)) rd = word_of_int (uint a + uint b)
     \<and> reg (cpu (l_addc ps m)) rd = word_of_int (uint a + uint b + of_bool c)
     \<and> reg (cpu (l_sub ps m)) rd = word_of_int (uint b - uint a)
     \<and> (has (spr SPR_SR (l_add ps m)) SPR_SR_CY \<longleftrightarrow> 0x100000000 \<le> uint a + uint b)
     \<and> (has (spr SPR_SR (l_addc ps m)) SPR_SR_CY \<longleftrightarrow> 0x100000000 \<le> uint a + uint b + of_bool c)
     \<and> (has (spr SPR_SR (l_sub ps m)) SPR_SR_CY \<longleftrightarrow> uint b - uint a < 0)
     \<and> (has (spr SPR_SR (l_add ps m)) SPR_SR_OV \<longleftrightarrow> sint a + sint b \<notin> {INT32_MIN..INT32_MAX})
     \<and> (has (spr SPR_SR (l_addc ps m)) SPR_SR_OV \<longleftrightarrow> sint a + sint b + of_bool c \<notin> {INT32_MIN..INT32_MAX})
     \<and> (has (spr SPR_SR (l_sub ps m)) SPR_SR_OV \<longleftrightarrow> sint b - sint a \<notin> {INT32_MIN..INT32_MAX})"
  unfolding Let_def by (intro conjI adder_exact)

text \<open> C7: An exception and the return from it. The machine \<open>m\<close> is at the instruction that follows \<open>b\<close> when an
  exception is raised that is not for the debugger (a fetch that fails has the program counter as its address). If the
  handler leaves EPCR and ESR as they are, l.rfe puts the saved status back, keeps the registers of the handler, and
  execution goes on, outside a delay slot, as follows. After every exception but a system call: at the instruction
  that was interrupted, and if that one is in a delay slot, at its branch, so both are executed again. After a
  system call outside a delay slot: at the next instruction not yet executed. After a system call in a delay slot it goes
  on at the l.sys itself, not at the next instruction not yet executed, which is the target of the branch: the l.sys is
  executed a second time and the branch is lost.\<close>

theorem exception_round_trip:
  assumes "\<not> exception_ignored e m"
    and "e \<in> {EXCEPT_BUSERR, EXCEPT_DPF, EXCEPT_IPF, EXCEPT_TICK, EXCEPT_ALIGN, EXCEPT_ILLEGAL, EXCEPT_INT, EXCEPT_DTLBMISS,
              EXCEPT_ITLBMISS, EXCEPT_RANGE, EXCEPT_SYSCALL, EXCEPT_TRAP}"
    and "at_next_insn b m" and "e = EXCEPT_ITLBMISS \<or> e = EXCEPT_IPF \<Longrightarrow> ea = pc (cpu m)"
    and "spr SPR_EPCR_BASE h = spr SPR_EPCR_BASE (except_handle e ea m)"
    and "spr SPR_ESR_BASE h = spr SPR_ESR_BASE (except_handle e ea m)" and "jobs_ok 1 h" and "\<not> next_delay_insn h"
  shows "\<exists>m'. l_rfe ps h = Inr m' \<and> \<not> delay_insn (cpu (update_pc m'))
     \<and> pcnext (update_pc m') = pc (cpu (update_pc m')) + 4
     \<and> spr SPR_SR (update_pc m') = spr SPR_SR m OR SPR_SR_FO \<and> reg (cpu (update_pc m')) = reg (cpu h)
     \<and> (if e \<noteq> EXCEPT_SYSCALL
        then pc (cpu (update_pc m')) = (if next_delay_insn b then pc (cpu b) else pc (cpu m))
        else if \<not> next_delay_insn b then pc (cpu (update_pc m')) = pcnext m
        else pc (cpu (update_pc m')) = pc (cpu m) \<and> pcnext m = pc_delay (cpu b))"
proof -
  from rfe_restores[OF assms(7)] obtain m' where m': "l_rfe ps h = Inr m'" "pcnext m' = spr SPR_EPCR_BASE h"
      "spr SPR_SR m' = spr SPR_ESR_BASE h OR SPR_SR_FO" "reg (cpu m') = reg (cpu h)" "\<not> next_delay_insn m'"
    using assms(8) by blast
  note r = update_pc_resume[OF m'(5)]
  note slot = at_next_insn_slot[OF assms(3)]
  have sys: "spr SPR_EPCR_BASE (except_handle e ea m) = pc (cpu m) + 4 - (if next_delay_insn b then 4 else 0)" if "e = EXCEPT_SYSCALL"
    using except_handle_sync(4)[OF assms(1)] that slot by simp
  have other: "spr SPR_EPCR_BASE (except_handle e ea m) = pc (cpu m) - (if next_delay_insn b then 4 else 0)" if "e \<noteq> EXCEPT_SYSCALL"
    using except_handle_async(3)[OF assms(1)] except_handle_sync(3,5)[OF assms(1)] assms(2,4) that slot by auto
  have "if e \<noteq> EXCEPT_SYSCALL then pcnext m' = (if next_delay_insn b then pc (cpu b) else pc (cpu m))
        else if \<not> next_delay_insn b then pcnext m' = pcnext m else pcnext m' = pc (cpu m) \<and> pcnext m = pc_delay (cpu b)"
    using sys other at_next_insn_branch[OF assms(3)] at_next_insn_plain[OF assms(3)] by (simp add: m'(2) assms(5))
  moreover have "spr SPR_SR m' = spr SPR_SR m OR SPR_SR_FO"
    using m'(3) assms(6) except_handle_sprs(1)[OF assms(1)] by simp
  ultimately show ?thesis
    using r m'(1,4) by (intro exI[of _ m']) (cases "e = EXCEPT_SYSCALL"; cases "next_delay_insn b"; simp)
qed

text \<open>A branch at 0 to 0x100 with an access that is not aligned in its delay slot: the branch is executed again.\<close>

definition slot_branch :: machine where
  "slot_branch = (timer_machine 0)\<lparr>cpu := zero_cpu\<lparr>pc_delay := 0x100\<rparr>, pcnext := 4, next_delay_insn := True\<rparr>"

theorem exception_round_trip_witness:
  "\<exists>m'. l_rfe [] ((except_handle EXCEPT_ALIGN 3 (update_pc slot_branch))\<lparr>next_delay_insn := False\<rparr>) = Inr m'
     \<and> pc (cpu (update_pc m')) = 0 \<and> pcnext (update_pc m') = 4"
proof -
  let ?m = "update_pc slot_branch"
  let ?h = "(except_handle EXCEPT_ALIGN 3 ?m)\<lparr>next_delay_insn := False\<rparr>"
  have i: "\<not> exception_ignored EXCEPT_ALIGN ?m"
    by (simp add: exception_ignored_def timer_machine_def has_def slot_branch_def update_pc_def zero_cpu_def Let_def)
  have n: "at_next_insn slot_branch ?m" by (simp add: at_next_insn_def slot_branch_def zero_cpu_def)
  have "scheduler ?h = scheduler (timer_machine 0)" by (simp add: slot_branch_def update_pc_def Let_def)
  then have "jobs_ok 1 ?h" using timer_machine_ok(1)[of 0] by (simp add: jobs_ok_def pending_def)
  from exception_round_trip[OF i _ n _ _ _ this, of 3 "[]"]
  show ?thesis by (auto simp: slot_branch_def zero_cpu_def)
qed

text \<open> Words that are no instruction are not trapped. The generator finds no body named l_invalid, and writes none:
  when the comparison at a leaf fails, or the word is one of the instructions the table marks as not implemented, the
  generated code evaluates the operands and does nothing else. No exception is raised; at most register 0 is cleared.\<close>

theorem unknown_instructions_ignored:
  assumes "generated_decode (code_ti code) (code_automata code) (insn (iqueue (cpu m))) = Some g"
    and "g = Check_invalid j \<or> g = Insn_case j \<and> function_name (code_opcodes code ! j) = ''l_invalid''"
    and "eval_operands (code_op_start code ! j) (insn (iqueue (cpu m))) (reg (cpu m)) = Inr operands"
  shows "decode_execute sf code False rnd m = Some (Inr (if gen_write_reg operands then set_reg 0 0 m else m))"
  using assms
  by (auto simp: decode_execute_def Let_def output_call_def output_invalid_def finish_insn_def output_function_invalid)

definition vector_opcode :: or32_opcode where
  "vector_opcode = opcode ''lv.add.b'' ''rD,rA,rB'' ''00 0xA  DDDDD AAAAA BBBB B--- 0x3 0x0'' ''l_invalid'' 0 it_unknown"

definition vector_code :: "32 sim_code" where
  "vector_code = (case build_code [vector_opcode] of Inr code \<Rightarrow> code
     | Inl _ \<Rightarrow> \<lparr>code_opcodes = [], code_ti = [], code_automata = [], code_op_start = []\<rparr>)"

lemma vector_code_parts:
  "code_opcodes vector_code = [vector_opcode]" "code_automata vector_code = [0x80000000]"
  "code_ti vector_code = [\<lparr>ti_insn = 0x28000030, ti_mask = 0xfc0000ff\<rparr>]"
  by code_simp+

theorem unknown_instructions_ignored_witness:
  "\<forall>sf. \<exists>g. decode_execute sf vector_code False 0 ((zero_machine 1)\<lparr>cpu := zero_cpu\<lparr>iqueue := \<lparr>insn_index = 0, insn = 0x28000030, insn_addr = 0\<rparr>\<rparr>\<rparr>)
     = Some (Inr g) \<and> \<not> except_pending g"
proof
  fix sf
  let ?m = "(zero_machine 1)\<lparr>cpu := zero_cpu\<lparr>iqueue := \<lparr>insn_index = 0, insn = 0x28000030, insn_addr = 0\<rparr>\<rparr>\<rparr>"
  have "body_leaf [0x80000000 :: u32] w 0 0 = Some (Some (0x80000000, 0))" for w
    by (subst body_leaf_leaf) simp_all
  then have d: "generated_decode (code_ti vector_code) (code_automata vector_code) (insn (iqueue (cpu ?m))) = Some (Insn_case 0)"
    by (simp add: vector_code_parts generated_decode_def insn_matches32_def)
  have "case eval_operands (code_op_start vector_code ! 0) 0x28000030 (\<lambda>_. 0) of Inr _ \<Rightarrow> True | Inl _ \<Rightarrow> False"
    by code_simp
  then obtain g where "eval_operands (code_op_start vector_code ! 0) (insn (iqueue (cpu ?m))) (reg (cpu ?m)) = Inr g"
    by (auto simp: zero_cpu_def split: sum.splits)
  from unknown_instructions_ignored[OF d _ this, of sf 0]
  show "\<exists>g. decode_execute sf vector_code False 0 ?m = Some (Inr g) \<and> \<not> except_pending g"
    by (simp add: vector_code_parts vector_opcode_def opcode_def set_reg_def)
qed

end
