(* ===== verification/Mmu_Props.thy ===== *)
theory Mmu_Props
  imports Mmu
begin

text \<open>
  What the rest of the simulator relies on when it translates addresses, as the locale \<open>translation\<close>,
  interpreted on the instruction MMU and on the data MMU for reads and for writes.
\<close>

section \<open>The interface\<close>

text \<open>
  \<open>look a m\<close> is the translation the tables define, \<open>None\<close> when the access misses or is not permitted;
  \<open>cause a m\<close> is the exception such an access raises.
\<close>

locale translation =
  fixes xlate :: "u32 \<Rightarrow> machine \<Rightarrow> (u32 \<times> machine) res"
    and look :: "u32 \<Rightarrow> machine \<Rightarrow> u32 option"
    and cause :: "u32 \<Rightarrow> machine \<Rightarrow> u32"
    and ok :: "machine \<Rightarrow> bool"
  assumes hit: "ok m \<Longrightarrow> look a m = Some p \<Longrightarrow>
      \<exists>m'. xlate a m = Inr (p, m') \<and> ok m' \<and> (\<forall>b. look b m' = look b m) \<and> except_pending m' = except_pending m"
    and fail: "ok m \<Longrightarrow> look a m = None \<Longrightarrow> \<not> exception_ignored (cause a m) m \<Longrightarrow>
      \<exists>p m'. xlate a m = Inr (p, m') \<and> except_pending m' \<and> spr SPR_EEAR_BASE m' = a
        \<and> pcnext m' = exception_vector (cause a m) m"
begin

text \<open>A sequence of translations, stopped by the first exception as the execution of an instruction is.\<close>

fun xlates :: "u32 list \<Rightarrow> machine \<Rightarrow> (u32 list \<times> machine) res" where
  "xlates [] m = Inr ([], m)"
| "xlates (a # as) m =
     bind_res (xlate a m) (\<lambda>(p, m).
       if except_pending m then Inr ([p], m) else bind_res (xlates as m) (\<lambda>(ps, m). Inr (p # ps, m)))"

text \<open>The bookkeeping of one translation does not change the result of another.\<close>

lemma xlates_ok:
  assumes "ok m" and "\<not> except_pending m" and "\<forall>a\<in>set as. look a m = Some (f a)"
  shows "\<exists>m'. xlates as m = Inr (map f as, m') \<and> ok m' \<and> \<not> except_pending m' \<and> (\<forall>b. look b m' = look b m)"
  using assms
proof (induction as arbitrary: m)
  case (Cons a as)
  then obtain m1 where m1: "xlate a m = Inr (f a, m1)" "ok m1" "\<forall>b. look b m1 = look b m" "\<not> except_pending m1"
    using hit[of m a "f a"] by auto
  then obtain m2 where "xlates as m1 = Inr (map f as, m2) \<and> ok m2 \<and> \<not> except_pending m2 \<and> (\<forall>b. look b m2 = look b m1)"
    using Cons.IH[of m1] Cons.prems by auto
  with m1 show ?case by auto
qed simp

lemma xlates_fault:
  assumes "ok m" and "\<not> except_pending m" and "\<forall>a\<in>set as. look a m = Some (f a)"
    and "look b m = None" and "\<And>m'. ok m' \<Longrightarrow> look b m' = None \<Longrightarrow> \<not> exception_ignored (cause b m') m'"
  shows "\<exists>ps m'. xlates (as @ b # bs) m = Inr (map f as @ ps, m') \<and> length ps = 1 \<and> except_pending m'
      \<and> spr SPR_EEAR_BASE m' = b"
  using assms
proof (induction as arbitrary: m)
  case Nil
  then have "\<not> exception_ignored (cause b m) m" by blast
  from fail[OF Nil.prems(1,4) this] show ?case by auto
next
  case (Cons a as)
  then obtain m1 where m1: "xlate a m = Inr (f a, m1)" "ok m1" "\<forall>b. look b m1 = look b m" "\<not> except_pending m1"
    using hit[of m a "f a"] by auto
  then obtain ps m2 where "xlates (as @ b # bs) m1 = Inr (map f as @ ps, m2) \<and> length ps = 1 \<and> except_pending m2
      \<and> spr SPR_EEAR_BASE m2 = b"
    using Cons.IH[of m1] Cons.prems by auto
  with m1 show ?case by auto
qed

end

section \<open>Usage counters\<close>

text \<open>The two usage bits of a match register.\<close>

definition aged :: "u32 \<Rightarrow> u32" where
  "aged v = (if has v 0xc0 then (v AND NOT 0xc0) OR ((v AND 0xc0) - 0x40) else v)"

lemma usage_cases: "(v :: u32) AND 0xc0 \<in> {0, 0x40, 0x80, 0xc0}"
proof -
  have bit: "v AND push_bit k 1 = (if bit v k then push_bit k 1 else 0)" if "k < 32" for k
    by (rule bit_word_eqI) (use that in \<open>auto simp: bit_simps\<close>)
  have "v AND 0xc0 = (v AND push_bit 6 1) OR (v AND push_bit 7 1)"
    by (simp flip: bit.conj_disj_distrib)
  then show ?thesis by (simp only: bit) auto
qed

lemma aged_other: "aged v AND NOT 0xc0 = v AND NOT 0xc0"
proof -
  have "((v AND 0xc0) - 0x40) AND NOT 0xc0 = 0" if "v AND 0xc0 \<noteq> 0"
    using usage_cases[of v] that by auto
  then show ?thesis by (simp add: aged_def has_def bit.conj_disj_distrib2 and.assoc)
qed

lemma tlb_age_eq:
  "tlb_age n r 0xc0 m
     = m\<lparr>cpu := (cpu m)\<lparr>sprs := \<lambda>q. if \<exists>i<n. q = r + 256 * i then aged (spr q m) else spr q m\<rparr>\<rparr>"
proof (induction n arbitrary: r m)
  case 0
  have "m = m\<lparr>cpu := (cpu m)\<lparr>sprs := \<lambda>q. spr q m\<rparr>\<rparr>" by (simp add: spr_def del: sprs_cpu)
  then show ?case by simp
next
  case (Suc n)
  define m1 where "m1 = m\<lparr>cpu := (cpu m)\<lparr>sprs := (\<lambda>q. if q = r then aged (spr r m) else spr q m)\<rparr>\<rparr>"
  have step: "(if has (spr r m) 0xc0 then set_spr r ((spr r m AND NOT 0xc0) OR ((spr r m AND 0xc0) - 0x40)) m else m) = m1"
    by (auto simp: m1_def aged_def set_spr_def spr_def fun_eq_iff intro!: arg_cong[where f = "\<lambda>c. m\<lparr>cpu := c\<rparr>"] simp del: sprs_cpu
        cong: if_cong)
  have ex: "(\<exists>i<Suc n. q = r + 256 * i) \<longleftrightarrow> q = r \<or> (\<exists>i<n. q = r + 256 + 256 * i)" for q
    by (auto simp: less_Suc_eq_0_disj)
  have "tlb_age (Suc n) r 0xc0 m = tlb_age n (r + 256) 0xc0 m1" using step by simp
  also have "\<dots> = m\<lparr>cpu := (cpu m)\<lparr>sprs := \<lambda>q. if \<exists>i<Suc n. q = r + 256 * i then aged (spr q m) else spr q m\<rparr>\<rparr>"
    unfolding Suc ex by (auto simp: m1_def fun_eq_iff intro!: arg_cong[where f = "\<lambda>f. m\<lparr>cpu := (cpu m)\<lparr>sprs := f\<rparr>\<rparr>"])
  finally show ?case .
qed

section \<open>Translations only touch usage counters\<close>

definition match_reg :: "nat \<Rightarrow> nat \<Rightarrow> bool" where
  "match_reg base q \<longleftrightarrow> (\<exists>s<128. \<exists>i<4. q = base + s + 256 * i)"

definition only_usage :: "nat \<Rightarrow> machine \<Rightarrow> machine \<Rightarrow> bool" where
  "only_usage base m m' \<longleftrightarrow> (\<forall>q. spr q m' AND NOT 0xc0 = spr q m AND NOT 0xc0)
     \<and> (\<forall>q. \<not> match_reg base q \<longrightarrow> spr q m' = spr q m)
     \<and> immu_state m' = immu_state m \<and> dmmu_state m' = dmmu_state m"

definition mmu_ok :: "mmu \<Rightarrow> bool" where
  "mmu_ok i \<longleftrightarrow> vpn_mask i AND 0xc0 = 0 \<and> lru_reload i AND NOT 0xc0 = 0 \<and> unat (mmu.set_mask i) < 128
     \<and> mmu_nways i \<le> 4"

lemma tlb_set_bound: "mmu_ok i \<Longrightarrow> tlb_set i a < 128"
proof -
  assume "mmu_ok i"
  then have "unat (mmu.set_mask i) < 128" by (simp add: mmu_ok_def)
  moreover have "drop_bit (pagesize_log2 i) (a AND page_mask i) AND mmu.set_mask i \<le> mmu.set_mask i"
    by (simp add: word_and_le1)
  ultimately show ?thesis by (simp add: tlb_set_def word_le_nat_alt)
qed

lemma usage_mask:
  assumes "x AND NOT 0xc0 = y AND NOT (0xc0 :: u32)" and "v AND 0xc0 = 0"
  shows "x AND v = y AND v"
proof -
  have "v = NOT 0xc0 AND v"
    by (rule bit_word_eqI) (use assms(2) in \<open>auto simp: bit_simps bit_eq_iff\<close>)
  then show ?thesis using assms(1) by (metis and.assoc)
qed

lemma tlb_scan_usage:
  assumes "\<And>q. spr q m' AND NOT 0xc0 = spr q m AND NOT 0xc0" and "vmask AND 0xc0 = 0" and "v AND 0xc0 = 0"
  shows "tlb_scan n r vmask vpn v m' = tlb_scan n r vmask vpn v m"
proof (induction n arbitrary: r)
  case (Suc n)
  have "spr r m' AND vmask = spr r m AND vmask" and "spr r m' AND v = spr r m AND v"
    by (rule usage_mask[OF assms(1)]; fact)+
  then show ?case using Suc by (simp add: has_def)
qed simp

lemma tlb_scan_Some: "tlb_scan n r vmask vpn v m = Some q \<Longrightarrow> \<exists>i<n. q = r + 256 * i"
proof (induction n arbitrary: r)
  case (Suc n)
  show ?case
  proof (cases "spr r m AND vmask = vpn \<and> has (spr r m) v")
    case True
    with Suc.prems show ?thesis by (auto intro!: exI[of _ 0])
  next
    case False
    then have "tlb_scan n (r + 256) vmask vpn v m = Some q" using Suc.prems by (simp split: if_splits)
    from Suc.IH[OF this] obtain i where "i < n" "q = r + 256 + 256 * i" by auto
    then show ?thesis by (auto intro!: exI[of _ "Suc i"])
  qed
qed simp

lemma touch_only_usage:
  assumes "s < 128" and "q = base + s + 256 * j" and "j < n" and "n \<le> 4" and "reload AND NOT 0xc0 = 0"
  shows "only_usage base m (spr_or q reload (tlb_age n (base + s) 0xc0 m))"
proof -
  have "spr p (spr_or q reload (tlb_age n (base + s) 0xc0 m)) AND NOT 0xc0 = spr p m AND NOT 0xc0" for p
    by (simp add: tlb_age_eq aged_other[simplified] bit.conj_disj_distrib2 assms(5)[simplified])
  moreover have "spr p (spr_or q reload (tlb_age n (base + s) 0xc0 m)) = spr p m" if "\<not> match_reg base p" for p
  proof -
    have no: "p \<noteq> base + s + 256 * i" if "i < n" for i
      using \<open>\<not> match_reg base p\<close> assms(1,4) that unfolding match_reg_def by (metis less_le_trans)
    then have "\<not> (\<exists>i<n. p = base + s + 256 * i)" by blast
    with no[OF assms(3)] assms(2) show ?thesis by (auto simp: tlb_age_eq)
  qed
  ultimately show ?thesis by (simp add: only_usage_def tlb_age_eq)
qed

text \<open>The registers that steer translations are not match registers, nor are the translate registers.\<close>

lemma match_reg_not:
  "2560 \<le> base \<Longrightarrow> base \<le> 4608 \<Longrightarrow> r < 2560 \<or> 5632 \<le> r \<Longrightarrow> \<not> match_reg base r"
  "match_reg base q \<Longrightarrow> \<not> match_reg base (q + 128)"
proof -
  show "2560 \<le> base \<Longrightarrow> base \<le> 4608 \<Longrightarrow> r < 2560 \<or> 5632 \<le> r \<Longrightarrow> \<not> match_reg base r" by (auto simp: match_reg_def)
  assume "match_reg base q"
  then obtain s i where q: "s < 128" "q = base + s + 256 * i" by (auto simp: match_reg_def)
  show "\<not> match_reg base (q + 128)"
  proof
    assume "match_reg base (q + 128)"
    then obtain s' i' where s': "s' < 128" "q + 128 = base + s' + 256 * i'" unfolding match_reg_def by blast
    then have "s + 256 * i + 128 = s' + 256 * i'" using q(2) by simp
    with q(1) s'(1) show False by (cases "i' \<le> i") linarith+
  qed
qed

lemma set_ci_frame [simp, frame_simps]:
  "spr r (set_insn_ci b m) = spr r m" "spr r (set_data_ci b m) = spr r m"
  "immu_state (set_insn_ci b m) = immu_state m" "dmmu_state (set_insn_ci b m) = dmmu_state m"
  "immu_state (set_data_ci b m) = immu_state m" "dmmu_state (set_data_ci b m) = dmmu_state m"
  "pcnext (set_insn_ci b m) = pcnext m" "pcnext (set_data_ci b m) = pcnext m"
  "except_pending (set_insn_ci b m) = except_pending m" "except_pending (set_data_ci b m) = except_pending m"
  by (simp_all add: set_insn_ci_def set_data_ci_def)

lemma only_usage_cong:
  assumes "only_usage base m1 m2" and "\<And>q. spr q m1 = spr q m" and "\<And>q. spr q m' = spr q m2"
    and "immu_state m1 = immu_state m" "dmmu_state m1 = dmmu_state m"
    and "immu_state m' = immu_state m2" "dmmu_state m' = dmmu_state m2"
  shows "only_usage base m m'"
  using assms by (simp add: only_usage_def)

lemma only_usage_refl: "only_usage base m m"
  by (simp add: only_usage_def)

lemma tlb_age_frame [simp, frame_simps]:
  "pcnext (tlb_age n r 0xc0 m) = pcnext m" "except_pending (tlb_age n r 0xc0 m) = except_pending m"
  "immu_state (tlb_age n r 0xc0 m) = immu_state m" "dmmu_state (tlb_age n r 0xc0 m) = dmmu_state m"
  by (simp_all add: tlb_age_eq)

lemma pcu_count_event_sr_cpu:
  "except_pending (pcu_count_event e m) = except_pending m" "pcnext (pcu_count_event e m) = pcnext m"
  "r < 14336 \<Longrightarrow> spr r (pcu_count_event e m) = spr r m"
proof -
  obtain f where f: "pcu_count_event e m = m\<lparr>cpu := (cpu m)\<lparr>sprs := f\<rparr>\<rparr>"
      "\<And>r. f r = (if \<exists>i<8. r = SPR_PCCR i \<and> pcu_counts e m i then spr r m + 1 else spr r m)"
    using pcu_count_event_upto[of 8 e m] by (auto simp: pcu_count_event_def)
  then show "except_pending (pcu_count_event e m) = except_pending m" "pcnext (pcu_count_event e m) = pcnext m"
    "r < 14336 \<Longrightarrow> spr r (pcu_count_event e m) = spr r m" by auto
qed

section \<open>The instruction MMU\<close>

definition immu_lookup :: "u32 \<Rightarrow> machine \<Rightarrow> u32 option" where
  "immu_lookup a m =
     (if \<not> immu_active m then Some a
      else case immu_state m of
        None \<Rightarrow> None
      | Some i \<Rightarrow>
         (case snd (immu_find_tlbmr a i m) of
            None \<Rightarrow> None
          | Some r \<Rightarrow> if itlb_fault (spr (r + 128) m) m then None
                      else Some ((spr (r + 128) m AND SPR_ITLBTR_PPN) OR (a AND page_offset_mask i))))"

definition immu_cause :: "u32 \<Rightarrow> machine \<Rightarrow> u32" where
  "immu_cause a m =
     (case immu_state m of
        None \<Rightarrow> 0
      | Some i \<Rightarrow> if snd (immu_find_tlbmr a i m) = None then EXCEPT_ITLBMISS else EXCEPT_IPF)"

definition immu_ready :: "machine \<Rightarrow> bool" where
  "immu_ready m \<longleftrightarrow> (\<exists>i. immu_state m = Some i \<and> mmu_ok i)"

lemma immu_find_eq:
  "immu_find_tlbmr a i m = (4608 + tlb_set i a, snd (immu_find_tlbmr a i m))"
  by (simp add: immu_find_tlbmr_def Let_def)

lemma immu_find_Some:
  assumes "snd (immu_find_tlbmr a i m) = Some r"
  obtains j where "r = 4608 + tlb_set i a + 256 * j" and "j < mmu_nways i"
  using assms tlb_scan_Some by (force simp: immu_find_tlbmr_def Let_def)

lemma immu_found_match_reg:
  "mmu_ok i \<Longrightarrow> snd (immu_find_tlbmr a i m) = Some r \<Longrightarrow> match_reg 4608 r"
  using tlb_set_bound[of i a] unfolding match_reg_def mmu_ok_def by (metis immu_find_Some less_le_trans)

lemma immu_only_usage:
  assumes "only_usage 4608 m m'" and "immu_ready m"
  shows "immu_active m' = immu_active m" and "immu_lookup a m' = immu_lookup a m" and "immu_ready m'"
proof -
  obtain i where i: "immu_state m = Some i" "mmu_ok i" using assms(2) by (auto simp: immu_ready_def)
  have sprs: "\<And>q. spr q m' AND NOT 0xc0 = spr q m AND NOT 0xc0" "\<And>q. \<not> match_reg 4608 q \<Longrightarrow> spr q m' = spr q m"
    and st: "immu_state m' = immu_state m"
    using assms(1) by (auto simp: only_usage_def)
  have low: "spr r m' = spr r m" if "r < 2560" for r using that by (intro sprs(2) match_reg_not(1)) simp_all
  show act: "immu_active m' = immu_active m" by (simp add: immu_active_def low)
  have "tlb_scan n r (vpn_mask i) vpn SPR_ITLBMR_V m' = tlb_scan n r (vpn_mask i) vpn SPR_ITLBMR_V m" for n r vpn
    by (rule tlb_scan_usage[OF sprs(1)]) (use i(2) in \<open>simp_all add: mmu_ok_def\<close>)
  then have find: "snd (immu_find_tlbmr b i m') = snd (immu_find_tlbmr b i m)" for b
    by (simp only: immu_find_tlbmr_def Let_def snd_conv)
  show "immu_ready m'" using assms(2) st by (simp add: immu_ready_def)
  have tr: "spr (r + 128) m' = spr (r + 128) m" if "snd (immu_find_tlbmr a i m) = Some r" for r
    using immu_found_match_reg[OF i(2) that] by (intro sprs(2) match_reg_not(2))
  have "itlb_fault t m' = itlb_fault t m" for t by (simp add: itlb_fault_def low)
  with tr show "immu_lookup a m' = immu_lookup a m"
    by (simp add: immu_lookup_def act st i find split: option.split)
qed

text \<open>The state after the bookkeeping of a hit agrees with the state before but for usage counters.\<close>

lemma itlb_hit_usage:
  assumes "mmu_ok i" and "snd (immu_find_tlbmr a i m) = Some r"
  defines "m2 \<equiv> itlb_hit i (4608 + tlb_set i a) r m"
  shows "only_usage 4608 m m2" and "except_pending m2 = except_pending m" and "pcnext m2 = pcnext m"
    and "spr (r + 128) m2 = spr (r + 128) m" and "q < 2560 \<or> 5632 \<le> q \<Longrightarrow> spr q m2 = spr q m"
proof -
  let ?m0 = "m\<lparr>st := (st m)\<lparr>fetch_tlbhit := fetch_tlbhit (st m) + 1\<rparr>\<rparr>"
  obtain j where j: "r = 4608 + tlb_set i a + 256 * j" "j < mmu_nways i" using immu_find_Some[OF assms(2)] .
  have "only_usage 4608 ?m0 (spr_or r (lru_reload i) (tlb_age (mmu_nways i) (4608 + tlb_set i a) 0xc0 ?m0))"
    using tlb_set_bound[OF assms(1)] j assms(1)
    by (intro touch_only_usage[of _ _ _ j]) (simp_all add: mmu_ok_def)
  then show u: "only_usage 4608 m m2"
    by (rule only_usage_cong) (simp_all add: m2_def itlb_hit_def Let_def)
  show "except_pending m2 = except_pending m" and "pcnext m2 = pcnext m"
    by (simp_all add: m2_def itlb_hit_def Let_def)
  show "spr (r + 128) m2 = spr (r + 128) m"
    using u match_reg_not(2)[OF immu_found_match_reg[OF assms(1,2)]] by (simp add: only_usage_def)
  show "q < 2560 \<or> 5632 \<le> q \<Longrightarrow> spr q m2 = spr q m"
    using u match_reg_not(1)[of 4608 q] by (auto simp: only_usage_def)
qed

lemma immu_hit:
  assumes "immu_ready m" and "immu_lookup a m = Some p"
  shows "\<exists>m'. immu_translate a m = Inr (p, m') \<and> only_usage 4608 m m' \<and> except_pending m' = except_pending m"
proof (cases "immu_active m")
  case False
  then have "immu_translate a m = Inr (p, set_insn_ci (0x80000000 \<le> a) m)"
    using assms(2) by (simp add: immu_translate_def immu_lookup_def)
  moreover have "only_usage 4608 m (set_insn_ci (0x80000000 \<le> a) m)"
    by (rule only_usage_cong[OF only_usage_refl]) simp_all
  ultimately show ?thesis by simp
next
  case True
  obtain i where i: "immu_state m = Some i" "mmu_ok i" using assms(1) by (auto simp: immu_ready_def)
  obtain r where r: "snd (immu_find_tlbmr a i m) = Some r" and nofault: "\<not> itlb_fault (spr (r + 128) m) m"
    and p: "p = (spr (r + 128) m AND SPR_ITLBTR_PPN) OR (a AND page_offset_mask i)"
    using assms(2) True i(1) by (auto simp: immu_lookup_def split: option.splits if_splits)
  note h = itlb_hit_usage[OF i(2) r]
  have "\<not> itlb_fault (spr (r + 128) m) (itlb_hit i (4608 + tlb_set i a) r m)"
    using nofault h(5)[of SPR_SR] by (simp add: itlb_fault_def)
  then have "immu_translate a m = Inr (p, itlb_hit i (4608 + tlb_set i a) r m)"
    using True i(1) immu_find_eq[of a i m] r h(4) by (simp add: immu_translate_def Let_def p)
  with h(1,2) show ?thesis by blast
qed

lemma immu_fail:
  assumes "immu_ready m" and "immu_lookup a m = None" and "\<not> exception_ignored (immu_cause a m) m"
  shows "\<exists>p m'. immu_translate a m = Inr (p, m') \<and> except_pending m' \<and> spr SPR_EEAR_BASE m' = a
     \<and> pcnext m' = exception_vector (immu_cause a m) m"
proof -
  obtain i where i: "immu_state m = Some i" "mmu_ok i" using assms(1) by (auto simp: immu_ready_def)
  have act: "immu_active m" using assms(2) by (simp add: immu_lookup_def split: if_splits)
  show ?thesis
  proof (cases "snd (immu_find_tlbmr a i m)")
    case None
    define m1 where "m1 = add_mem_cycles (mmu_missdelay i)
      (m\<lparr>st := (st m)\<lparr>fetch_tlbmiss := Suc (fetch_tlbmiss (st m))\<rparr>\<rparr>)"
    have cause: "immu_cause a m = EXCEPT_ITLBMISS" using None i(1) by (simp add: immu_cause_def)
    have same: "spr q m1 = spr q m" for q by (simp add: m1_def)
    then have ign: "\<not> exception_ignored EXCEPT_ITLBMISS m1" and vec: "exception_vector EXCEPT_ITLBMISS m1 = exception_vector EXCEPT_ITLBMISS m"
      using assms(3) by (simp_all add: cause exception_ignored_def exception_vector_def)
    show ?thesis
      using act i(1) immu_find_eq[of a i m] None vec except_handle_flags(1)[OF ign] except_handle_sprs(2)[OF ign]
        except_handle_sync(2)[OF ign]
      by (simp add: immu_translate_def Let_def cause m1_def[symmetric] pcu_count_event_sr_cpu)
  next
    case (Some r)
    note h = itlb_hit_usage[OF i(2) Some]
    let ?m2 = "itlb_hit i (4608 + tlb_set i a) r m"
    have cause: "immu_cause a m = EXCEPT_IPF" using Some i(1) by (simp add: immu_cause_def)
    have "itlb_fault (spr (r + 128) m) m"
      using assms(2) act i(1) Some by (auto simp: immu_lookup_def split: if_splits)
    then have fault: "itlb_fault (spr (r + 128) ?m2) ?m2" using h(4) h(5)[of SPR_SR] by (simp add: itlb_fault_def)
    have ign: "\<not> exception_ignored EXCEPT_IPF ?m2" and vec: "exception_vector EXCEPT_IPF ?m2 = exception_vector EXCEPT_IPF m"
      using assms(3) h(5)[of SPR_DSR] h(5)[of SPR_SR] by (simp_all add: cause exception_ignored_def exception_vector_def)
    show ?thesis
      using act i(1) immu_find_eq[of a i m] Some fault vec except_handle_flags(1)[OF ign] except_handle_sprs(2)[OF ign]
        except_handle_sync(2)[OF ign]
      by (simp add: immu_translate_def Let_def cause)
  qed
qed

section \<open>The data MMU\<close>

definition dmmu_lookup :: "bool \<Rightarrow> u32 \<Rightarrow> machine \<Rightarrow> u32 option" where
  "dmmu_lookup w a m =
     (if \<not> dmmu_active m then Some a
      else case dmmu_state m of
        None \<Rightarrow> None
      | Some i \<Rightarrow>
         (case snd (dmmu_find_tlbmr a i m) of
            None \<Rightarrow> None
          | Some r \<Rightarrow> if dtlb_fault w (spr (r + 128) m) m then None
                      else Some ((spr (r + 128) m AND SPR_DTLBTR_PPN) OR (a AND page_offset_mask i))))"

definition dmmu_cause :: "u32 \<Rightarrow> machine \<Rightarrow> u32" where
  "dmmu_cause a m =
     (case dmmu_state m of
        None \<Rightarrow> 0
      | Some i \<Rightarrow> if snd (dmmu_find_tlbmr a i m) = None then EXCEPT_DTLBMISS else EXCEPT_DPF)"

definition dmmu_ready :: "machine \<Rightarrow> bool" where
  "dmmu_ready m \<longleftrightarrow> (\<exists>i. dmmu_state m = Some i \<and> mmu_ok i)"

lemma dmmu_find_eq:
  "dmmu_find_tlbmr a i m = (2560 + tlb_set i a, snd (dmmu_find_tlbmr a i m))"
  by (simp add: dmmu_find_tlbmr_def Let_def)

lemma dmmu_find_Some:
  assumes "snd (dmmu_find_tlbmr a i m) = Some r"
  obtains j where "r = 2560 + tlb_set i a + 256 * j" and "j < mmu_nways i"
  using assms tlb_scan_Some by (force simp: dmmu_find_tlbmr_def Let_def)

lemma dmmu_found_match_reg:
  "mmu_ok i \<Longrightarrow> snd (dmmu_find_tlbmr a i m) = Some r \<Longrightarrow> match_reg 2560 r"
  using tlb_set_bound[of i a] unfolding match_reg_def mmu_ok_def by (metis dmmu_find_Some less_le_trans)

lemma dmmu_only_usage:
  assumes "only_usage 2560 m m'" and "dmmu_ready m"
  shows "dmmu_active m' = dmmu_active m" and "dmmu_lookup w a m' = dmmu_lookup w a m" and "dmmu_ready m'"
proof -
  obtain i where i: "dmmu_state m = Some i" "mmu_ok i" using assms(2) by (auto simp: dmmu_ready_def)
  have sprs: "\<And>q. spr q m' AND NOT 0xc0 = spr q m AND NOT 0xc0" "\<And>q. \<not> match_reg 2560 q \<Longrightarrow> spr q m' = spr q m"
    and st: "dmmu_state m' = dmmu_state m"
    using assms(1) by (auto simp: only_usage_def)
  have low: "spr r m' = spr r m" if "r < 2560" for r using that by (intro sprs(2) match_reg_not(1)) simp_all
  show act: "dmmu_active m' = dmmu_active m" by (simp add: dmmu_active_def low)
  have "tlb_scan n r (vpn_mask i) vpn SPR_DTLBMR_V m' = tlb_scan n r (vpn_mask i) vpn SPR_DTLBMR_V m" for n r vpn
    by (rule tlb_scan_usage[OF sprs(1)]) (use i(2) in \<open>simp_all add: mmu_ok_def\<close>)
  then have find: "snd (dmmu_find_tlbmr b i m') = snd (dmmu_find_tlbmr b i m)" for b
    by (simp only: dmmu_find_tlbmr_def Let_def snd_conv)
  show "dmmu_ready m'" using assms(2) st by (simp add: dmmu_ready_def)
  have tr: "spr (r + 128) m' = spr (r + 128) m" if "snd (dmmu_find_tlbmr a i m) = Some r" for r
    using dmmu_found_match_reg[OF i(2) that] by (intro sprs(2) match_reg_not(2))
  have "dtlb_fault w t m' = dtlb_fault w t m" for t by (simp add: dtlb_fault_def low)
  with tr show "dmmu_lookup w a m' = dmmu_lookup w a m"
    by (simp add: dmmu_lookup_def act st i find split: option.split)
qed

text \<open>The state after the bookkeeping of a hit agrees with the state before but for usage counters.\<close>

lemma dtlb_hit_usage:
  assumes "mmu_ok i" and "snd (dmmu_find_tlbmr a i m) = Some r"
  defines "m2 \<equiv> dtlb_hit i (2560 + tlb_set i a) r m"
  shows "only_usage 2560 m m2" and "except_pending m2 = except_pending m" and "pcnext m2 = pcnext m"
    and "spr (r + 128) m2 = spr (r + 128) m" and "q < 2560 \<or> 5632 \<le> q \<Longrightarrow> spr q m2 = spr q m"
proof -
  let ?m0 = "m\<lparr>st := (st m)\<lparr>loads_tlbhit := loads_tlbhit (st m) + 1\<rparr>\<rparr>"
  obtain j where j: "r = 2560 + tlb_set i a + 256 * j" "j < mmu_nways i" using dmmu_find_Some[OF assms(2)] .
  have "only_usage 2560 ?m0 (spr_or r (lru_reload i) (tlb_age (mmu_nways i) (2560 + tlb_set i a) 0xc0 ?m0))"
    using tlb_set_bound[OF assms(1)] j assms(1)
    by (intro touch_only_usage[of _ _ _ j]) (simp_all add: mmu_ok_def)
  then show u: "only_usage 2560 m m2"
    by (rule only_usage_cong) (simp_all add: m2_def dtlb_hit_def Let_def)
  show "except_pending m2 = except_pending m" and "pcnext m2 = pcnext m"
    by (simp_all add: m2_def dtlb_hit_def Let_def)
  show "spr (r + 128) m2 = spr (r + 128) m"
    using u match_reg_not(2)[OF dmmu_found_match_reg[OF assms(1,2)]] by (simp add: only_usage_def)
  show "q < 2560 \<or> 5632 \<le> q \<Longrightarrow> spr q m2 = spr q m"
    using u match_reg_not(1)[of 2560 q] by (auto simp: only_usage_def)
qed

lemma dmmu_hit:
  assumes "dmmu_ready m" and "dmmu_lookup w a m = Some p"
  shows "\<exists>m'. dmmu_translate w a m = Inr (p, m') \<and> only_usage 2560 m m' \<and> except_pending m' = except_pending m"
proof (cases "dmmu_active m")
  case False
  then have "dmmu_translate w a m = Inr (p, set_data_ci (0x80000000 \<le> a) m)"
    using assms(2) by (simp add: dmmu_translate_def dmmu_lookup_def)
  moreover have "only_usage 2560 m (set_data_ci (0x80000000 \<le> a) m)"
    by (rule only_usage_cong[OF only_usage_refl]) simp_all
  ultimately show ?thesis by simp
next
  case True
  obtain i where i: "dmmu_state m = Some i" "mmu_ok i" using assms(1) by (auto simp: dmmu_ready_def)
  obtain r where r: "snd (dmmu_find_tlbmr a i m) = Some r" and nofault: "\<not> dtlb_fault w (spr (r + 128) m) m"
    and p: "p = (spr (r + 128) m AND SPR_DTLBTR_PPN) OR (a AND page_offset_mask i)"
    using assms(2) True i(1) by (auto simp: dmmu_lookup_def split: option.splits if_splits)
  note h = dtlb_hit_usage[OF i(2) r]
  have "\<not> dtlb_fault w (spr (r + 128) m) (dtlb_hit i (2560 + tlb_set i a) r m)"
    using nofault h(5)[of SPR_SR] by (simp add: dtlb_fault_def)
  then have "dmmu_translate w a m = Inr (p, dtlb_hit i (2560 + tlb_set i a) r m)"
    using True i(1) dmmu_find_eq[of a i m] r h(4) by (simp add: dmmu_translate_def Let_def p)
  with h(1,2) show ?thesis by blast
qed

lemma dmmu_fail:
  assumes "dmmu_ready m" and "dmmu_lookup w a m = None" and "\<not> exception_ignored (dmmu_cause a m) m"
  shows "\<exists>p m'. dmmu_translate w a m = Inr (p, m') \<and> except_pending m' \<and> spr SPR_EEAR_BASE m' = a
     \<and> pcnext m' = exception_vector (dmmu_cause a m) m"
proof -
  obtain i where i: "dmmu_state m = Some i" "mmu_ok i" using assms(1) by (auto simp: dmmu_ready_def)
  have act: "dmmu_active m" using assms(2) by (simp add: dmmu_lookup_def split: if_splits)
  show ?thesis
  proof (cases "snd (dmmu_find_tlbmr a i m)")
    case None
    define m1 where "m1 = add_mem_cycles (mmu_missdelay i)
      (m\<lparr>st := (st m)\<lparr>loads_tlbmiss := Suc (loads_tlbmiss (st m))\<rparr>\<rparr>)"
    have cause: "dmmu_cause a m = EXCEPT_DTLBMISS" using None i(1) by (simp add: dmmu_cause_def)
    have same: "spr q m1 = spr q m" for q by (simp add: m1_def)
    then have ign: "\<not> exception_ignored EXCEPT_DTLBMISS m1" and vec: "exception_vector EXCEPT_DTLBMISS m1 = exception_vector EXCEPT_DTLBMISS m"
      using assms(3) by (simp_all add: cause exception_ignored_def exception_vector_def)
    show ?thesis
      using act i(1) dmmu_find_eq[of a i m] None vec except_handle_flags(1)[OF ign] except_handle_sprs(2)[OF ign]
        except_handle_sync(2)[OF ign]
      by (simp add: dmmu_translate_def Let_def cause m1_def[symmetric] pcu_count_event_sr_cpu)
  next
    case (Some r)
    note h = dtlb_hit_usage[OF i(2) Some]
    let ?m2 = "dtlb_hit i (2560 + tlb_set i a) r m"
    have cause: "dmmu_cause a m = EXCEPT_DPF" using Some i(1) by (simp add: dmmu_cause_def)
    have "dtlb_fault w (spr (r + 128) m) m"
      using assms(2) act i(1) Some by (auto simp: dmmu_lookup_def split: if_splits)
    then have fault: "dtlb_fault w (spr (r + 128) ?m2) ?m2" using h(4) h(5)[of SPR_SR] by (simp add: dtlb_fault_def)
    have ign: "\<not> exception_ignored EXCEPT_DPF ?m2" and vec: "exception_vector EXCEPT_DPF ?m2 = exception_vector EXCEPT_DPF m"
      using assms(3) h(5)[of SPR_DSR] h(5)[of SPR_SR] by (simp_all add: cause exception_ignored_def exception_vector_def)
    show ?thesis
      using act i(1) dmmu_find_eq[of a i m] Some fault vec except_handle_flags(1)[OF ign] except_handle_sprs(2)[OF ign]
        except_handle_sync(2)[OF ign]
      by (simp add: dmmu_translate_def Let_def cause)
  qed
qed

section \<open>Both implement the interface\<close>

interpretation immu: translation immu_translate immu_lookup immu_cause immu_ready
proof unfold_locales
  show "\<exists>m'. immu_translate a m = Inr (p, m') \<and> immu_ready m' \<and> (\<forall>b. immu_lookup b m' = immu_lookup b m)
      \<and> except_pending m' = except_pending m" if "immu_ready m" and "immu_lookup a m = Some p" for m a p
    using immu_hit[OF that] immu_only_usage(2,3) that(1) by blast
qed (rule immu_fail)

interpretation dmmu: translation "dmmu_translate w" "dmmu_lookup w" dmmu_cause dmmu_ready for w
proof unfold_locales
  show "\<exists>m'. dmmu_translate w a m = Inr (p, m') \<and> dmmu_ready m' \<and> (\<forall>b. dmmu_lookup w b m' = dmmu_lookup w b m)
      \<and> except_pending m' = except_pending m" if "dmmu_ready m" and "dmmu_lookup w a m = Some p" for m a p
    using dmmu_hit[OF that] dmmu_only_usage(2,3) that(1) by blast
qed (rule dmmu_fail)

section \<open>Configuration\<close>

datatype mmu_setting = Enabled int | Nsets int | Nways int | Pagesize int | Entrysize int | Ustates int
  | Missdelay int | Hitdelay int

fun immu_setting :: "mmu_setting \<Rightarrow> machine \<Rightarrow> machine" where
  "immu_setting (Enabled v) = immu_enabled v"
| "immu_setting (Nsets v) = immu_nsets v"
| "immu_setting (Nways v) = immu_nways v"
| "immu_setting (Pagesize v) = immu_pagesize v"
| "immu_setting (Entrysize v) = immu_entrysize v"
| "immu_setting (Ustates v) = immu_ustates v"
| "immu_setting (Missdelay v) = immu_missdelay v"
| "immu_setting (Hitdelay v) = immu_hitdelay v"

text \<open>A configuration section: its start, its settings, its end.\<close>

definition immu_section :: "mmu \<Rightarrow> mmu_setting list \<Rightarrow> machine \<Rightarrow> machine" where
  "immu_section fresh ss m = immu_end_sec (fold immu_setting ss (immu_start_sec fresh m))"

lemma is_power2_pow: "is_power2 x \<Longrightarrow> \<exists>k. x = 2 ^ k"
proof (induction x rule: is_power2.induct)
  case (1 x)
  show ?case
  proof (cases "x \<noteq> 0 \<and> even x")
    case True
    then obtain k where "x div 2 = 2 ^ k" using 1 by (auto simp: is_power2.simps[of x])
    then have "x = 2 ^ Suc k" using True by auto
    then show ?thesis by blast
  next
    case False
    then have "x = 2 ^ 0" using "1.prems" by (auto simp: is_power2.simps[of x] split: if_splits)
    then show ?thesis by blast
  qed
qed

lemma log2_int_pow: "log2_int (2 ^ k) = k"
proof (induction k)
  case (Suc k)
  have "(2::nat) ^ Suc k \<noteq> 0" "(2::nat) ^ Suc k \<noteq> 1" "(2::nat) ^ Suc k div 2 = 2 ^ k"
    by simp_all
  then show ?case using Suc by (subst log2_int.simps) (simp only: if_False if_True simp_thms)
qed (simp add: log2_int.simps)

definition field_eq :: "u32 \<Rightarrow> nat \<Rightarrow> nat \<Rightarrow> bool" where
  "field_eq cfgr j w \<longleftrightarrow> cfgr AND 0x1c = push_bit 2 (of_nat j) \<and> cfgr AND 3 = of_nat w"

text \<open>What holds between the start and the end of a section.\<close>

definition immu_cfg_inv :: "machine \<Rightarrow> bool" where
  "immu_cfg_inv m \<longleftrightarrow> (\<exists>i j k w. immu_state m = Some i \<and> k \<le> 7 \<and> mmu_nsets i = 2 ^ k \<and> j \<le> 30 \<and> pagesize i = 2 ^ j
     \<and> w < 4 \<and> mmu_nways i = Suc w \<and> field_eq (spr SPR_IMMUCFGR m) k w)"

lemma immu_cfg_invI:
  "immu_state m = Some i \<Longrightarrow> k \<le> 7 \<Longrightarrow> mmu_nsets i = 2 ^ k \<Longrightarrow> j \<le> 30 \<Longrightarrow> pagesize i = 2 ^ j \<Longrightarrow> w < 4
    \<Longrightarrow> mmu_nways i = Suc w \<Longrightarrow> field_eq (spr SPR_IMMUCFGR m) k w \<Longrightarrow> immu_cfg_inv m"
  unfolding immu_cfg_inv_def by blast

lemma small_field:
  "k \<le> 7 \<Longrightarrow> push_bit 2 (of_nat k) AND (0x1c :: u32) = push_bit 2 (of_nat k) \<and> push_bit 2 (of_nat k) AND (3 :: u32) = 0"
  "w < 4 \<Longrightarrow> of_nat w AND (3 :: u32) = of_nat w \<and> of_nat w AND (0x1c :: u32) = 0"
proof -
  assume "k \<le> 7"
  then consider "k = 0" | "k = 1" | "k = 2" | "k = 3" | "k = 4" | "k = 5" | "k = 6" | "k = 7" by linarith
  then show "push_bit 2 (of_nat k) AND (0x1c :: u32) = push_bit 2 (of_nat k) \<and> push_bit 2 (of_nat k) AND (3 :: u32) = 0"
    by cases simp_all
next
  assume "w < 4"
  then consider "w = 0" | "w = 1" | "w = 2" | "w = 3" by linarith
  then show "of_nat w AND (3 :: u32) = of_nat w \<and> of_nat w AND (0x1c :: u32) = 0" by cases simp_all
qed

lemma field_eq_set:
  "k \<le> 7 \<Longrightarrow> field_eq c k' w \<Longrightarrow> field_eq ((c AND NOT 0x1c) OR push_bit 2 (of_nat k)) k w"
  "w < 4 \<Longrightarrow> field_eq c k w' \<Longrightarrow> field_eq ((c AND NOT 3) OR of_nat w) k w"
  using small_field(1)[of k] small_field(2)[of w] by (simp_all add: field_eq_def bit.conj_disj_distrib2 and.assoc)

lemma immu_start_inv: "immu_cfg_inv (immu_start_sec fresh m)"
proof (rule immu_cfg_invI[where k = 0 and j = 13 and w = 0])
  show "immu_state (immu_start_sec fresh m) = Some (fresh\<lparr>mmu_enabled := False, mmu_nsets := 1, mmu_nways := 1,
      pagesize := 8192, entrysize := 1, mmu_ustates := 2, mmu_hitdelay := 1, mmu_missdelay := 1\<rparr>)"
    by (simp add: immu_start_sec_def Let_def)
  show "field_eq (spr SPR_IMMUCFGR (immu_start_sec fresh m)) 0 0"
    by (simp add: immu_start_sec_def Let_def set_cfgr_def field_eq_def log2_int.simps and.assoc)
qed simp_all

lemma of_int_pow: "word_of_int (2 ^ k) = (2 ^ k :: u32)"
  by (simp add: of_int_power)

fun setting_value :: "mmu_setting \<Rightarrow> int" where
  "setting_value (Enabled v) = v" | "setting_value (Nsets v) = v" | "setting_value (Nways v) = v"
| "setting_value (Pagesize v) = v" | "setting_value (Entrysize v) = v" | "setting_value (Ustates v) = v"
| "setting_value (Missdelay v) = v" | "setting_value (Hitdelay v) = v"

lemma pow_bound:
  assumes "(2::int) ^ k \<le> 2 ^ n"
  shows "k \<le> n"
  using assms by simp

lemma immu_setting_inv:
  assumes "immu_cfg_inv m" and "setting_value s \<le> INT32_MAX"
  shows "immu_cfg_inv (immu_setting s m)"
proof -
  obtain i j k w where inv: "immu_state m = Some i" "k \<le> 7" "mmu_nsets i = 2 ^ k" "j \<le> 30" "pagesize i = 2 ^ j"
      "w < 4" "mmu_nways i = Suc w" "field_eq (spr SPR_IMMUCFGR m) k w"
    using assms(1) unfolding immu_cfg_inv_def by blast
  show ?thesis
  proof (cases s)
    case (Enabled v)
    then show ?thesis using inv
      by (intro immu_cfg_invI[of _ "i\<lparr>mmu_enabled := v \<noteq> 0\<rparr>" k j w]) (simp_all add: immu_enabled_def upd_immu_def Let_def)
  next
    case (Nsets v)
    show ?thesis
    proof (cases "is_power2 v \<and> v \<le> 128")
      case True
      then obtain n where n: "v = 2 ^ n" using is_power2_pow by blast
      then have "n \<le> 7" using True pow_bound[of n 7] by simp
      then show ?thesis using Nsets True inv n field_eq_set(1)[of n "spr SPR_IMMUCFGR m" k w]
        by (intro immu_cfg_invI[of _ "i\<lparr>mmu_nsets := word_of_int v\<rparr>" n j w])
          (simp_all add: immu_nsets_def set_cfgr_def upd_immu_def of_int_pow nat_power_eq log2_int_pow)
    qed (use Nsets assms(1) in \<open>auto simp: immu_nsets_def\<close>)
  next
    case (Nways v)
    show ?thesis
    proof (cases "1 \<le> v \<and> v \<le> 4")
      case True
      then have "nat (v - 1) < 4" "nat v = Suc (nat (v - 1))" by linarith+
      then show ?thesis using Nways True inv field_eq_set(2)[of "nat (v - 1)" "spr SPR_IMMUCFGR m" k w]
        by (intro immu_cfg_invI[of _ "i\<lparr>mmu_nways := nat v\<rparr>" k j "nat (v - 1)"])
          (simp_all add: immu_nways_def set_cfgr_def upd_immu_def del: nat_diff_distrib' of_nat_nat)
    qed (use Nways assms(1) in \<open>auto simp: immu_nways_def\<close>)
  next
    case (Pagesize v)
    show ?thesis
    proof (cases "is_power2 v")
      case True
      then obtain n where n: "v = 2 ^ n" using is_power2_pow by blast
      have "(2::int) ^ n < 2 ^ 31" using n assms(2) Pagesize by simp
      then have "n < 31" by (rule power_less_imp_less_exp[rotated]) simp
      then have "n \<le> 30" by simp
      then show ?thesis using Pagesize True inv n
        by (intro immu_cfg_invI[of _ "i\<lparr>pagesize := word_of_int v\<rparr>" k n w])
          (simp_all add: immu_pagesize_def upd_immu_def of_int_pow)
    qed (use Pagesize assms(1) in \<open>auto simp: immu_pagesize_def\<close>)
  next
    case (Entrysize v)
    then show ?thesis using inv
      by (cases "is_power2 v") (auto simp: immu_entrysize_def upd_immu_def intro!: immu_cfg_invI)
  next
    case (Ustates v)
    then show ?thesis using inv
      by (cases "2 \<le> v \<and> v \<le> 4") (auto simp: immu_ustates_def upd_immu_def intro!: immu_cfg_invI)
  qed (use inv in \<open>auto simp: immu_missdelay_def immu_hitdelay_def upd_immu_def intro!: immu_cfg_invI\<close>)
qed

lemma immu_settings_inv:
  "immu_cfg_inv m \<Longrightarrow> \<forall>s\<in>set ss. setting_value s \<le> INT32_MAX \<Longrightarrow> immu_cfg_inv (fold immu_setting ss m)"
  by (induction ss arbitrary: m) (simp_all add: immu_setting_inv)

lemma vpn_mask_usage: "8 \<le> n \<Longrightarrow> NOT ((2 ^ n :: u32) - 1) AND 0xc0 = 0"
proof -
  assume n: "8 \<le> n"
  have "(0xc0 :: u32) = 0xc0 AND mask 8" by (simp add: mask_eq_exp_minus_1)
  then have "NOT (mask n) AND (0xc0 :: u32) = 0xc0 AND (mask 8 AND NOT (mask n))" by (metis and.assoc and.commute)
  also have "mask 8 AND NOT (mask n) = (0 :: u32)" by (rule bit_word_eqI) (use n in \<open>auto simp: bit_simps\<close>)
  finally show ?thesis by (simp add: mask_eq_exp_minus_1)
qed

lemma mmu_masks_ok:
  assumes "k \<le> 7" and "mmu_nsets i = 2 ^ k" and "j \<le> 30" and "pagesize i = 2 ^ j" and "mmu_nways i \<le> 4"
  shows "pagesize_log2 (mmu_masks i) = j" and "page_offset_mask (mmu_masks i) = mask j"
    and "page_mask (mmu_masks i) = NOT (mask j)" and "mmu.set_mask (mmu_masks i) = mask k"
    and "vpn_mask (mmu_masks i) = NOT (mask (j + k))" and "8 \<le> j + k \<Longrightarrow> mmu_ok (mmu_masks i)"
proof -
  have "unat (2 ^ j :: u32) = 2 ^ j" using assms(3) by (simp add: unat_pow2)
  then show "pagesize_log2 (mmu_masks i) = j" by (simp add: mmu_masks_def assms log2_int_pow)
  show "page_offset_mask (mmu_masks i) = mask j" and "page_mask (mmu_masks i) = NOT (mask j)"
    and sm: "mmu.set_mask (mmu_masks i) = mask k" and "vpn_mask (mmu_masks i) = NOT (mask (j + k))"
    by (simp_all add: mmu_masks_def assms mask_eq_exp_minus_1 power_add)
  have "unat (2 ^ k :: u32) = 2 ^ k" using assms(1) by (simp add: unat_pow2)
  moreover have "(2::nat) ^ k \<le> 2 ^ 7" using assms(1) by (intro power_increasing) simp_all
  moreover have "0 < (2::nat) ^ k" by simp
  moreover have "mask k = (2 ^ k :: u32) - 1" by (simp add: mask_eq_exp_minus_1)
  ultimately have "unat (mask k :: u32) < 128" using unat_minus_one[of "2 ^ k :: u32"] by (cases "(2 ^ k :: u32) = 0") auto
  moreover assume "8 \<le> j + k"
  ultimately show "mmu_ok (mmu_masks i)"
    using vpn_mask_usage[of "j + k"] assms sm by (simp add: mmu_ok_def mmu_masks_def power_add and.assoc)
qed

section \<open>Properties\<close>

text \<open>A machine with MMUs of one way and one set, the only entries being for page 0.\<close>

text \<open>
  What the architecture manual calls a matching DTLB entry, in arithmetic: with pages of \<open>2 ^ j\<close> bytes and \<open>2 ^ k\<close>
  sets, the entry of way \<open>v\<close> for the address \<open>a\<close> is in the registers \<open>0xa00 + 256 * v + s\<close> (match) and
  \<open>0xa80 + 256 * v + s\<close> (translate), where \<open>s\<close> is the set of \<open>a\<close>. It is valid with bit 0 of the match register, and
  matches when the numbers of the blocks of \<open>2 ^ (j + k)\<close> bytes agree.
\<close>

definition page_set :: "nat \<Rightarrow> nat \<Rightarrow> u32 \<Rightarrow> nat" where
  "page_set j k a = unat a div 2 ^ j mod 2 ^ k"

definition dtlb_matches :: "nat \<Rightarrow> nat \<Rightarrow> u32 \<Rightarrow> machine \<Rightarrow> nat \<Rightarrow> bool" where
  "dtlb_matches j k a m v \<longleftrightarrow>
     (let match_word = spr (0xa00 + 256 * v + page_set j k a) m
      in bit match_word 0 \<and> unat match_word div 2 ^ (j + k) = unat a div 2 ^ (j + k))"

text \<open>The bits of the translate register: 6 and 7 let the user read and write, 8 and 9 the supervisor.\<close>

definition dtlb_permits :: "bool \<Rightarrow> u32 \<Rightarrow> machine \<Rightarrow> bool" where
  "dtlb_permits w translate_word m =
     bit translate_word (if bit (spr SPR_SR m) 0 then if w then 9 else 8 else if w then 7 else 6)"

definition mmu_geometry :: "nat \<Rightarrow> nat \<Rightarrow> mmu \<Rightarrow> bool" where
  "mmu_geometry j k i \<longleftrightarrow> pagesize_log2 i = j \<and> page_offset_mask i = mask j \<and> page_mask i = NOT (mask j)
     \<and> mmu.set_mask i = mask k \<and> vpn_mask i = NOT (mask (j + k)) \<and> k \<le> 7 \<and> 8 \<le> j + k \<and> mmu_nways i \<le> 4
     \<and> lru_reload i AND NOT 0xc0 = 0"

lemma block_number_eq: "x AND NOT (mask n) = y AND NOT (mask n) \<longleftrightarrow> unat x div 2 ^ n = unat y div 2 ^ n" for x y :: u32
proof -
  have "x AND NOT (mask n) = y AND NOT (mask n) \<longleftrightarrow> drop_bit n x = drop_bit n y"
  proof
    assume "x AND NOT (mask n) = y AND NOT (mask n)"
    then have "drop_bit n (x AND NOT (mask n)) = drop_bit n (y AND NOT (mask n))" by simp
    moreover have "drop_bit n (z AND NOT (mask n)) = drop_bit n z" for z :: u32
      by (rule bit_word_eqI) (auto simp: bit_simps dest: bit_imp_le_length)
    ultimately show "drop_bit n x = drop_bit n y" by simp
  next
    have "z AND NOT (mask n) = push_bit n (drop_bit n z)" for z :: u32
      by (rule bit_word_eqI) (auto simp: bit_simps)
    then show "drop_bit n x = drop_bit n y \<Longrightarrow> x AND NOT (mask n) = y AND NOT (mask n)" by simp
  qed
  also have "\<dots> \<longleftrightarrow> unat (drop_bit n x) = unat (drop_bit n y)" by (rule word_unat_eq_iff)
  also have "\<dots> \<longleftrightarrow> unat x div 2 ^ n = unat y div 2 ^ n" by (simp only: unat_drop_bit_eq) (simp only: drop_bit_eq_div)
  finally show ?thesis .
qed

lemma tlb_set_page_set: "mmu_geometry j k i \<Longrightarrow> tlb_set i a = page_set j k a"
proof -
  assume g: "mmu_geometry j k i"
  have s: "drop_bit j (a AND NOT (mask j)) AND mask k = take_bit k (drop_bit j a)"
    by (rule bit_word_eqI) (auto simp: bit_simps dest: bit_imp_le_length)
  have "unat (take_bit k (drop_bit j a)) = unat a div 2 ^ j mod 2 ^ k"
    by (simp only: unsigned_take_bit_eq unat_drop_bit_eq) (simp only: drop_bit_eq_div take_bit_eq_mod)
  with s show ?thesis using g by (simp only: tlb_set_def mmu_geometry_def page_set_def)
qed

lemma tlb_scan_find:
  "tlb_scan n r vmask vpn v m
     = map_option (\<lambda>w. r + 256 * w) (find (\<lambda>w. spr (r + 256 * w) m AND vmask = vpn \<and> has (spr (r + 256 * w) m) v) [0..<n])"
proof (induction n arbitrary: r)
  case (Suc n)
  define P where "P w \<longleftrightarrow> spr (r + 256 * w) m AND vmask = vpn \<and> has (spr (r + 256 * w) m) v" for w
  have "find P (map Suc xs) = map_option Suc (find (\<lambda>w. P (Suc w)) xs)" for xs by (induction xs) auto
  then have "find P [0..<Suc n] = (if P 0 then Some 0 else map_option Suc (find (\<lambda>w. P (Suc w)) [0..<n]))"
    by (simp add: upt_conv_Cons map_Suc_upt[symmetric] del: upt_Suc)
  then show ?case
    unfolding P_def by (auto simp: Suc.IH option.map_comp o_def ac_simps simp del: upt_Suc)
qed simp

lemma has_0: "has (x :: u32) 1 = bit x 0"
  by (simp add: has_def and_one_eq even_iff_mod_2_eq_zero[symmetric] bit_0 odd_iff_mod_2_eq_one)

lemma has_bit: "n < 32 \<Longrightarrow> has (x :: u32) (push_bit n 1) \<longleftrightarrow> bit x n"
  unfolding has_def bit_eq_iff by (auto simp: bit_simps)

lemma dmmu_find_matches:
  assumes g: "mmu_geometry j k i"
  shows "snd (dmmu_find_tlbmr a i m) = map_option (\<lambda>v. 0xa00 + page_set j k a + 256 * v)
    (find (dtlb_matches j k a m) [0..<mmu_nways i])"
proof -
  have "spr r m AND vpn_mask i = a AND vpn_mask i \<longleftrightarrow> unat (spr r m) div 2 ^ (j + k) = unat a div 2 ^ (j + k)" for r
    using g block_number_eq by (simp add: mmu_geometry_def)
  moreover have "2560 + page_set j k a + 256 * v = 0xa00 + 256 * v + page_set j k a" for v by simp
  ultimately have "(\<lambda>v. spr (2560 + page_set j k a + 256 * v) m AND vpn_mask i = a AND vpn_mask i
      \<and> has (spr (2560 + page_set j k a + 256 * v) m) 1) = dtlb_matches j k a m"
    unfolding dtlb_matches_def Let_def has_0 by (intro ext) (simp add: conj_commute add.commute add.left_commute)
  then show ?thesis by (simp add: dmmu_find_tlbmr_def Let_def tlb_scan_find tlb_set_page_set[OF g])
qed

lemma dtlb_fault_permits: "dtlb_fault w t m \<longleftrightarrow> \<not> dtlb_permits w t m"
  using has_bit[of 6 t] has_bit[of 7 t] has_bit[of 8 t] has_bit[of 9 t]
  by (simp add: dtlb_fault_def dtlb_permits_def has_0)

lemma mmu_geometry_ok: "mmu_geometry j k i \<Longrightarrow> mmu_ok i"
proof -
  assume g: "mmu_geometry j k i"
  have "unat (mask k :: u32) < 128"
  proof -
    have "k \<in> {0, 1, 2, 3, 4, 5, 6, 7}" using g by (auto simp: mmu_geometry_def)
    then show ?thesis by (elim insertE emptyE) (simp_all add: mask_eq_exp_minus_1)
  qed
  moreover have "NOT (mask (j + k) :: u32) AND 0xc0 = 0"
    using g vpn_mask_usage[of "j + k"] by (simp add: mmu_geometry_def mask_eq_exp_minus_1)
  ultimately show ?thesis using g by (simp add: mmu_geometry_def mmu_ok_def)
qed

text \<open>The outcome, and what a successful translation leaves alone.\<close>

definition dtlb_on :: "machine \<Rightarrow> bool" where
  "dtlb_on m \<longleftrightarrow> bit (spr SPR_SR m) 5 \<and> bit (spr SPR_UPR m) 3"

lemma dmmu_active_on: "dmmu_active m = dtlb_on m"
  using has_bit[of 5 "spr SPR_SR m"] has_bit[of 3 "spr SPR_UPR m"] by (simp add: dmmu_active_def dtlb_on_def)

definition enters_handler :: "u32 \<Rightarrow> u32 \<Rightarrow> machine \<Rightarrow> machine \<Rightarrow> bool" where
  "enters_handler e a m m' \<longleftrightarrow> except_pending m' \<and> spr SPR_EEAR_BASE m' = a \<and> pcnext m' = exception_vector e m"

definition sample_mmu :: mmu where
  "sample_mmu = zero_mmu\<lparr>mmu_nways := 1, mmu_nsets := 1, pagesize := 8192, pagesize_log2 := 13,
     page_offset_mask := 0x1fff, page_mask := 0xffffe000, vpn_mask := 0xffffe000\<rparr>"

definition mmu_machine :: "u32 \<Rightarrow> machine" where
  "mmu_machine itlbtr = with_sprs [(SPR_SR, SPR_SR_IME OR SPR_SR_DME), (SPR_UPR, SPR_UPR_IMP OR SPR_UPR_DMP),
      (SPR_ITLBMR_BASE 0, SPR_ITLBMR_V), (SPR_ITLBTR_BASE 0, itlbtr),
      (SPR_DTLBMR_BASE 0, SPR_DTLBMR_V), (SPR_DTLBTR_BASE 0, itlbtr)]
    ((zero_machine 4)\<lparr>immu_state := Some sample_mmu, dmmu_state := Some sample_mmu\<rparr>)"

lemma sample_mmu_simps:
  "mmu_nways sample_mmu = 1" "mmu.set_mask sample_mmu = 0" "pagesize_log2 sample_mmu = 13"
  "page_offset_mask sample_mmu = 0x1fff" "page_mask sample_mmu = 0xffffe000" "vpn_mask sample_mmu = 0xffffe000"
  "lru_reload sample_mmu = 0"
  by (simp_all add: sample_mmu_def zero_mmu_def)

lemma mmu_machine_simps:
  "spr r (mmu_machine t) = (if r = SPR_DTLBTR_BASE 0 \<or> r = SPR_ITLBTR_BASE 0 then t else if r = SPR_DTLBMR_BASE 0 \<or> r = SPR_ITLBMR_BASE 0 then 1
     else if r = SPR_UPR then SPR_UPR_IMP OR SPR_UPR_DMP else if r = SPR_SR then SPR_SR_IME OR SPR_SR_DME else 0)"
  "immu_state (mmu_machine t) = Some sample_mmu" "dmmu_state (mmu_machine t) = Some sample_mmu"
  "\<not> except_pending (mmu_machine t)" "conf (mmu_machine t) = zero_config"
  by (simp_all add: mmu_machine_def)

lemma mmu_machine_ready: "immu_ready (mmu_machine t)" "dmmu_ready (mmu_machine t)"
  by (simp_all add: immu_ready_def dmmu_ready_def mmu_machine_simps sample_mmu_simps mmu_ok_def)

lemma mmu_machine_lookup:
  "a AND 0xffffe000 = 0 \<Longrightarrow> has t SPR_ITLBTR_UXE \<Longrightarrow>
     immu_lookup a (mmu_machine t) = Some ((t AND 0xffffe000) OR (a AND 0x1fff))"
  by (simp add: immu_lookup_def immu_active_def mmu_machine_simps sample_mmu_simps immu_find_tlbmr_def tlb_set_def
      itlb_fault_def has_def)

text \<open>
  C22: translations are independent of their history: when the ITLB permits each address of a sequence,
  translating the sequence gives each its own translation, raises no exception and leaves the translation
  of every address as it was, although each hit rewrites the usage counters in the match registers.
\<close>

theorem fetch_translations_stable:
  assumes "immu_ready m" and "\<not> except_pending m" and "\<forall>a\<in>set as. immu_lookup a m = Some (f a)"
  shows "\<exists>m'. immu.xlates as m = Inr (map f as, m') \<and> \<not> except_pending m' \<and> (\<forall>b. immu_lookup b m' = immu_lookup b m)
     \<and> (\<forall>b. peek_into_itlb b m' = Inr (case immu_lookup b m of None \<Rightarrow> 0 | Some p \<Rightarrow> p))"
proof -
  obtain m' where m': "immu.xlates as m = Inr (map f as, m')" "immu_ready m'" "\<not> except_pending m'"
      "\<forall>b. immu_lookup b m' = immu_lookup b m"
    using immu.xlates_ok[OF assms] by blast
  have "peek_into_itlb b m' = Inr (case immu_lookup b m' of None \<Rightarrow> 0 | Some p \<Rightarrow> p)" for b
    using m'(2) by (auto simp: peek_into_itlb_def immu_lookup_def immu_ready_def Let_def case_prod_beta split: option.split)
  with m' show ?thesis by auto
qed

lemma fetch_translations_stable_witness:
  "\<exists>m'. immu.xlates [4, 8, 4] (mmu_machine 0x40c0) = Inr ([0x4004, 0x4008, 0x4004], m')"
  using fetch_translations_stable[OF mmu_machine_ready(1), of "0x40c0" "[4, 8, 4]" "\<lambda>a. 0x4000 OR a"]
  by (auto simp: mmu_machine_simps mmu_machine_lookup has_def)

lemma sample_mmu_geometry: "mmu_geometry 13 0 sample_mmu"
  by (simp add: mmu_geometry_def sample_mmu_simps mask_eq_exp_minus_1)

text \<open>
  C11: a data access through the DTLB, against the tables themselves. With translation off the address stays. With
  translation on and pages of \<open>2 ^ j\<close> bytes in \<open>2 ^ k\<close> sets, the first way whose match register is valid and holds the block
  number of the address decides. If its translate register permits this kind of access in the current mode, the
  result is the physical page with the offset of the address, no exception is raised, and no special purpose
  register changes but the usage counters in the match registers. If it does not permit it, a data page fault is
  raised, and if no way matches, a DTLB miss: EEAR holds the address, and execution continues at the vector (the
  exceptions being not for the debugger).
\<close>

theorem data_translation_outcome:
  assumes "dmmu_state m = Some i" and "mmu_geometry j k i"
    and "\<not> exception_ignored EXCEPT_DTLBMISS m" and "\<not> exception_ignored EXCEPT_DPF m"
  shows "\<exists>p m'. dmmu_translate w a m = Inr (p, m') \<and>
     (if \<not> dtlb_on m then p = a \<and> only_usage 2560 m m' \<and> except_pending m' = except_pending m
      else case find (dtlb_matches j k a m) [0..<mmu_nways i] of
        None \<Rightarrow> enters_handler EXCEPT_DTLBMISS a m m'
      | Some v \<Rightarrow>
          (let translate_word = spr (0xa80 + 256 * v + page_set j k a) m
           in if dtlb_permits w translate_word m
              then p = (translate_word AND 0xffffe000) OR take_bit j a
                 \<and> only_usage 2560 m m' \<and> except_pending m' = except_pending m
              else enters_handler EXCEPT_DPF a m m'))"
proof -
  have ready: "dmmu_ready m" using assms(1) mmu_geometry_ok[OF assms(2)] by (simp add: dmmu_ready_def)
  note find = dmmu_find_matches[OF assms(2), of a m]
  have off: "page_offset_mask i = mask j" using assms(2) by (simp add: mmu_geometry_def)
  have low: "(t AND SPR_DTLBTR_PPN) OR (a AND page_offset_mask i) = (t AND 0xffffe000) OR take_bit j a" for t :: u32
    by (simp add: off take_bit_eq_mask)
  have lookup: "dmmu_lookup w a m = (if \<not> dtlb_on m then Some a
      else case find (dtlb_matches j k a m) [0..<mmu_nways i] of None \<Rightarrow> None
      | Some v \<Rightarrow> (let t = spr (0xa80 + 256 * v + page_set j k a) m
          in if dtlb_permits w t m then Some ((t AND 0xffffe000) OR take_bit j a) else None))"
    using assms(1) by (simp add: dmmu_lookup_def dmmu_active_on find dtlb_fault_permits low Let_def add.commute
        add.left_commute split: option.split)
  have cause: "dmmu_cause a m = (if find (dtlb_matches j k a m) [0..<mmu_nways i] = None then EXCEPT_DTLBMISS else EXCEPT_DPF)"
    using assms(1) by (simp add: dmmu_cause_def find)
  then have "\<not> exception_ignored (dmmu_cause a m) m" using assms(3,4) by simp
  note fail = dmmu_fail[OF ready _ this, of w] and hit = dmmu_hit[OF ready, of w a]
  show ?thesis
  proof (cases "dmmu_lookup w a m")
    case None
    from fail[OF None] obtain p m' where "dmmu_translate w a m = Inr (p, m')" "enters_handler (dmmu_cause a m) a m m'"
      unfolding enters_handler_def by blast
    then show ?thesis using None unfolding lookup cause
      by (intro exI[of _ p] exI[of _ m']) (auto simp: Let_def split: if_splits option.splits)
  next
    case (Some q)
    from hit[OF Some] obtain m' where "dmmu_translate w a m = Inr (q, m')" "only_usage 2560 m m'"
        "except_pending m' = except_pending m" by blast
    then show ?thesis using Some unfolding lookup
      by (intro exI[of _ q] exI[of _ m']) (auto simp: Let_def split: if_splits option.splits)
  qed
qed

lemma data_translation_outcome_witness:
  "\<exists>p m'. dmmu_translate True 4 (mmu_machine 0x4040) = Inr (p, m') \<and> enters_handler EXCEPT_DPF 4 (mmu_machine 0x4040) m'"
proof -
  let ?m = "mmu_machine 0x4040"
  have i: "\<not> exception_ignored EXCEPT_DTLBMISS ?m" "\<not> exception_ignored EXCEPT_DPF ?m"
    by (simp_all add: exception_ignored_def mmu_machine_simps has_def)
  have bits: "bit (0x28 :: u32) 5" "bit (0x18 :: u32) 3" by simp_all
  have on: "dtlb_on ?m" by (simp add: dtlb_on_def mmu_machine_simps)
  have "dtlb_matches 13 0 4 ?m 0" by (simp add: dtlb_matches_def page_set_def mmu_machine_simps)
  then have "find (dtlb_matches 13 0 4 ?m) [0..<mmu_nways sample_mmu] = Some 0" by (simp add: sample_mmu_simps)
  moreover have "\<not> dtlb_permits True 0x4040 ?m" by (simp add: dtlb_permits_def mmu_machine_simps)
  ultimately show ?thesis
    using data_translation_outcome[OF mmu_machine_simps(3) sample_mmu_geometry i, of True 4] on
    by (simp add: page_set_def mmu_machine_simps)
qed

text \<open>
  C28: whatever settings an \<open>immu\<close> section of the configuration file holds, illegal ones included,
  translation ends up with masks that cut an address into page offset, set and page number, at least one way and at most
  four, at most 128 sets (the comment of \<open>immu_nsets\<close> says 256, which the code refuses), a configuration register
  that shows the geometry, and, from 256 bytes per way on, usage counters that cannot disturb the match.
\<close>

theorem immu_configuration_sound:
  assumes "\<forall>s\<in>set ss. setting_value s \<le> INT32_MAX"
  shows "\<exists>i j k w. immu_state (immu_section fresh ss m) = Some i
     \<and> pagesize_log2 i = j \<and> page_offset_mask i = mask j \<and> page_mask i = NOT (mask j)
     \<and> mmu.set_mask i = mask k \<and> k \<le> 7 \<and> vpn_mask i = NOT (mask (j + k))
     \<and> mmu_nways i = Suc w \<and> w < 4
     \<and> field_eq (spr SPR_IMMUCFGR (immu_section fresh ss m)) k w
     \<and> (8 \<le> j + k \<longrightarrow> mmu_ok i)"
proof -
  have "immu_cfg_inv (fold immu_setting ss (immu_start_sec fresh m))"
    using immu_settings_inv[OF immu_start_inv assms] .
  then obtain i j k w where inv: "immu_state (fold immu_setting ss (immu_start_sec fresh m)) = Some i" "k \<le> 7"
      "mmu_nsets i = 2 ^ k" "j \<le> 30" "pagesize i = 2 ^ j" "w < 4" "mmu_nways i = Suc w"
      "field_eq (spr SPR_IMMUCFGR (fold immu_setting ss (immu_start_sec fresh m))) k w"
    unfolding immu_cfg_inv_def by blast
  have "mmu_nways i \<le> 4" using inv by simp
  from mmu_masks_ok[OF inv(2-5) this] inv show ?thesis
    unfolding immu_section_def immu_end_sec_def upd_immu_def
    by (intro exI[of _ "mmu_masks i"] exI[of _ j] exI[of _ k] exI[of _ w]) (simp add: mmu_masks_def)
qed

lemma immu_configuration_sound_witness:
  "\<exists>i j k w. immu_state (immu_section zero_mmu [Nsets 64, Nways 9, Pagesize 8192] (zero_machine 0)) = Some i
     \<and> page_offset_mask i = mask j \<and> mmu.set_mask i = mask k \<and> mmu_nways i = Suc w"
  using immu_configuration_sound[of "[Nsets 64, Nways 9, Pagesize 8192]" zero_mmu "zero_machine 0"] by fastforce

text \<open>
  an instruction fetch in user mode that misses in the ITLB is counted by the performance counters
  that count in supervisor mode, not by those that count in user mode: \<open>immu_translate\<close> enters the
  exception handler, which switches to supervisor mode, before it counts the event.
\<close>

theorem user_miss_counted_as_supervisor:
  assumes "immu_active m" and "immu_state m = Some i" and "snd (immu_find_tlbmr a i m) = None"
    and "cfg_pcu_enabled (conf m)" and "\<not> exception_ignored EXCEPT_ITLBMISS m" and "\<not> has (spr SPR_SR m) SPR_SR_SM" and "k < 8"
  shows "\<exists>m'. immu_translate a m = Inr (0, m') \<and> spr (SPR_PCCR k) m' = spr (SPR_PCCR k) m
     + (if SPR_PCMR_ITLBM AND spr (SPR_PCMR k) m \<noteq> 0 \<and> has (spr (SPR_PCMR k) m) SPR_PCMR_CISM then 1 else 0)"
proof -
  define m1 where "m1 = add_mem_cycles (mmu_missdelay i)
      (m\<lparr>st := (st m)\<lparr>fetch_tlbmiss := Suc (fetch_tlbmiss (st m))\<rparr>\<rparr>)"
  let ?m2 = "except_handle EXCEPT_ITLBMISS a m1"
  have ign: "\<not> exception_ignored EXCEPT_ITLBMISS m1" using assms(5) by (simp add: m1_def exception_ignored_def)
  note sprs = except_handle_sprs[OF ign]
  have mr: "spr (SPR_PCMR k) ?m2 = spr (SPR_PCMR k) m" and cr: "spr (SPR_PCCR k) ?m2 = spr (SPR_PCCR k) m"
    by (subst sprs(4); simp add: m1_def)+
  have sm: "has (spr SPR_SR ?m2) SPR_SR_SM" unfolding sprs(3) by (rule handler_sr_flags(1))
  have "immu_translate a m = Inr (0, pcu_count_event SPR_PCMR_ITLBM ?m2)"
    using assms(1-4) immu_find_eq[of a i m] by (simp add: immu_translate_def Let_def m1_def)
  moreover have "pcu_counts SPR_PCMR_ITLBM ?m2 k \<longleftrightarrow> SPR_PCMR_ITLBM AND spr (SPR_PCMR k) m \<noteq> 0
      \<and> has (spr (SPR_PCMR k) m) SPR_PCMR_CISM"
    using sm by (simp add: pcu_counts_def mr)
  moreover note cr
  moreover obtain f where "pcu_count_event SPR_PCMR_ITLBM ?m2 = ?m2\<lparr>cpu := (cpu ?m2)\<lparr>sprs := f\<rparr>\<rparr>"
      "f (SPR_PCCR k) = (if pcu_counts SPR_PCMR_ITLBM ?m2 k then spr (SPR_PCCR k) ?m2 + 1 else spr (SPR_PCCR k) ?m2)"
    using pcu_count_event_upto[of 8 SPR_PCMR_ITLBM ?m2] assms(7) by (force simp: pcu_count_event_def)
  ultimately show ?thesis by auto
qed

lemma user_miss_counted_as_supervisor_witness:
  "\<exists>m'. immu_translate 0x2000 (set_spr (SPR_PCMR 0) (SPR_PCMR_ITLBM OR SPR_PCMR_CISM)
        ((mmu_machine 0)\<lparr>conf := zero_config\<lparr>cfg_pcu_enabled := True\<rparr>\<rparr>)) = Inr (0, m')
     \<and> spr (SPR_PCCR 0) m' = 1" (is "\<exists>m'. immu_translate _ ?m = _ \<and> _")
proof -
  have "immu_active ?m" "immu_state ?m = Some sample_mmu" "snd (immu_find_tlbmr 0x2000 sample_mmu ?m) = None"
    "cfg_pcu_enabled (conf ?m)" "\<not> exception_ignored EXCEPT_ITLBMISS ?m" "\<not> has (spr SPR_SR ?m) SPR_SR_SM"
    by (simp_all add: immu_active_def mmu_machine_simps sample_mmu_simps immu_find_tlbmr_def tlb_set_def has_def
        exception_ignored_def)
  from user_miss_counted_as_supervisor[OF this, of 0] show ?thesis
    by (simp add: mmu_machine_simps has_def)
qed

end
