(* ===== verification/Mcontrol.thy ===== *)
theory Mcontrol
  imports Mem_Props
begin

text \<open>
  The memory controller (\<open>peripheral/mc.c\<close>): chip selects that decide where the RAMs appear in the address space. The
  RAMs register with a list of \<open>struct mc_area\<close>; at reset a controller takes the nodes with its index over into a list of
  its own. The nodes live in a heap, as both lists change their \<open>next\<close> fields in place; a pointer to a freed node is
  undefined behaviour, a loop over a cyclic list does not end (\<open>None\<close>). Pointers to memory areas are indices into
  \<open>dev_list\<close>. The list \<open>mcs\<close> of all controllers is never read and left out, and so is \<open>mc_sec_end\<close>, which registers the
  controller's own registers as a memory area.
\<close>

section \<open>State\<close>

record mc_area_node =
  nd_mem :: nat
  nd_cs :: u32
  nd_mc :: int
  nd_next :: "nat option"

record mctl =
  mctl_csr :: u32
  mctl_poc :: u32
  mctl_ba_mask :: u32
  mctl_csc :: "nat \<Rightarrow> u32"
  mctl_tms :: "nat \<Rightarrow> u32"
  mctl_baseaddr :: u32
  mctl_enabled :: bool
  mctl_index :: int
  mctl_areas :: "nat option"

text \<open>One controller, the heap of nodes, the global list \<open>mc_areas\<close>, the memory map.\<close>

record mc_world =
  mw_mc :: mctl
  mw_nodes :: "nat \<Rightarrow> mc_area_node option"
  mw_areas :: "nat option"
  mw_mem :: memory

definition upd_mc :: "(mctl \<Rightarrow> mctl) \<Rightarrow> mc_world \<Rightarrow> mc_world" where
  "upd_mc f w = w\<lparr>mw_mc := f (mw_mc w)\<rparr>"

definition upd_node :: "nat \<Rightarrow> (mc_area_node \<Rightarrow> mc_area_node) \<Rightarrow> mc_world \<Rightarrow> mc_world" where
  "upd_node p f w = w\<lparr>mw_nodes := (mw_nodes w)(p := map_option f (mw_nodes w p))\<rparr>"

section \<open>Registers\<close>

abbreviation (input) N_CE :: nat where "N_CE \<equiv> 8"
abbreviation (input) MC_CSR :: u32 where "MC_CSR \<equiv> 0"
abbreviation (input) MC_POC :: u32 where "MC_POC \<equiv> 4"
abbreviation (input) MC_BA_MASK :: u32 where "MC_BA_MASK \<equiv> 8"
abbreviation (input) MC_CSC :: "u32 \<Rightarrow> u32" where "MC_CSC i \<equiv> 0x10 + i * 8"
abbreviation (input) MC_TMS :: "u32 \<Rightarrow> u32" where "MC_TMS i \<equiv> 0x14 + i * 8"
abbreviation (input) MC_CSC_EN_OFFSET :: nat where "MC_CSC_EN_OFFSET \<equiv> 0"
abbreviation (input) MC_CSC_MEMTYPE_OFFSET :: nat where "MC_CSC_MEMTYPE_OFFSET \<equiv> 1"
abbreviation (input) MC_CSC_BW_OFFSET :: nat where "MC_CSC_BW_OFFSET \<equiv> 4"
abbreviation (input) MC_CSC_SEL_OFFSET :: nat where "MC_CSC_SEL_OFFSET \<equiv> 16"
abbreviation (input) MC_CSC_MEMTYPE_SDRAM :: u32 where "MC_CSC_MEMTYPE_SDRAM \<equiv> 0"
abbreviation (input) MC_CSC_MEMTYPE_SSRAM :: u32 where "MC_CSC_MEMTYPE_SSRAM \<equiv> 1"
abbreviation (input) MC_CSC_MEMTYPE_ASYNC :: u32 where "MC_CSC_MEMTYPE_ASYNC \<equiv> 2"
abbreviation (input) MC_CSC_MEMTYPE_SYNC :: u32 where "MC_CSC_MEMTYPE_SYNC \<equiv> 3"
abbreviation (input) MC_CE_VALID :: int where "MC_CE_VALID \<equiv> 7"
abbreviation (input) MC_POC_VALID :: u32 where "MC_POC_VALID \<equiv> 0xf"
abbreviation (input) MC_BA_MASK_VALID :: u32 where "MC_BA_MASK_VALID \<equiv> 0x3ff"
abbreviation (input) MC_TMS_SDRAM_VALID :: u32 where "MC_TMS_SDRAM_VALID \<equiv> 0x0FFF83FF"
abbreviation (input) MC_TMS_SSRAM_VALID :: u32 where "MC_TMS_SSRAM_VALID \<equiv> 0"
abbreviation (input) MC_TMS_ASYNC_VALID :: u32 where "MC_TMS_ASYNC_VALID \<equiv> 0x03FFFFFF"
abbreviation (input) MC_TMS_SYNC_VALID :: u32 where "MC_TMS_SYNC_VALID \<equiv> 0x01FFFFFF"

text \<open>The test the code makes of the memory type: \<open>(csc >> MC_CSC_MEMTYPE_OFFSET) && 0x07 == type\<close>.\<close>

definition csc_memtype_is :: "u32 \<Rightarrow> u32 \<Rightarrow> bool" where
  "csc_memtype_is csc memtype \<longleftrightarrow> drop_bit MC_CSC_MEMTYPE_OFFSET csc \<noteq> 0 \<and> (0x07 :: u32) = memtype"

section \<open>Chip selects\<close>

text \<open>What \<open>set_csc_tms\<close> does to the area it finds.\<close>

definition program_area :: "u32 \<Rightarrow> u32 \<Rightarrow> u32 \<Rightarrow> nat \<Rightarrow> memory \<Rightarrow> memory" where
  "program_area ba_mask csc tms p mm =
     (let mm = set_area p (\<lambda>a. a\<lparr>addr_mask := push_bit 22 ba_mask, addr_compare := push_bit 22 (drop_bit MC_CSC_SEL_OFFSET csc)\<rparr>) mm;
          mm = set_mem_valid p (drop_bit MC_CSC_EN_OFFSET csc AND 1 \<noteq> 0) mm
      in if csc_memtype_is csc MC_CSC_MEMTYPE_ASYNC
         then adjust_rw_delay p ((tms AND 0xff) + (drop_bit 8 tms AND 0x0f))
                ((drop_bit 12 tms AND 0x0f) + (drop_bit 16 tms AND 0x0f) + (drop_bit 20 tms AND 0x3f)) mm
         else if csc_memtype_is csc MC_CSC_MEMTYPE_SDRAM
         then adjust_rw_delay p (3 + (drop_bit 4 tms AND 0x03)) (3 + (drop_bit 4 tms AND 0x03)) mm
         else if csc_memtype_is csc MC_CSC_MEMTYPE_SSRAM then adjust_rw_delay p 2 2 mm
         else if csc_memtype_is csc MC_CSC_MEMTYPE_SYNC then adjust_rw_delay p 2 2 mm
         else mm)"

partial_function (option) find_cs :: "(nat \<Rightarrow> mc_area_node option) \<Rightarrow> u32 \<Rightarrow> nat option \<Rightarrow> nat option res option" where
  "find_cs nodes cs cur =
     (case cur of
        None \<Rightarrow> Some (Inr None)
      | Some p \<Rightarrow>
          (case nodes p of
             None \<Rightarrow> Some (Inl Host_undef)
           | Some n \<Rightarrow> if nd_cs n = cs then Some (Inr (Some (nd_mem n))) else find_cs nodes cs (nd_next n)))"

definition set_csc_tms :: "u32 \<Rightarrow> u32 \<Rightarrow> u32 \<Rightarrow> mc_world \<Rightarrow> mc_world res option" where
  "set_csc_tms cs csc tms w =
     bind_run (find_cs (mw_nodes w) cs (mctl_areas (mw_mc w))) (\<lambda>r.
       case r of
         None \<Rightarrow> Some (Inr w)
       | Some a \<Rightarrow> Some (Inr (w\<lparr>mw_mem := program_area (mctl_ba_mask (mw_mc w)) csc tms a (mw_mem w)\<rparr>)))"

text \<open>The chip select whose registers are at an address: \<open>addr >> 3\<close> after the base is subtracted.\<close>

definition csc_tms_index :: "u32 \<Rightarrow> u32" where
  "csc_tms_index addr = drop_bit 3 (addr - MC_CSC 0)"

definition is_csc_tms :: "u32 \<Rightarrow> bool" where
  "is_csc_tms addr \<longleftrightarrow> MC_CSC 0 \<le> addr \<and> addr \<le> MC_TMS 7"

definition is_tms :: "u32 \<Rightarrow> bool" where
  "is_tms addr \<longleftrightarrow> drop_bit 2 (addr - MC_CSC 0) AND 1 \<noteq> 0"

definition set_all_csc_tms :: "mc_world \<Rightarrow> mc_world res option" where
  "set_all_csc_tms w =
     fold (\<lambda>i r. bind_run r (\<lambda>w. set_csc_tms (of_nat i) (mctl_csc (mw_mc w) i) (mctl_tms (mw_mc w) i) w)) [0..<N_CE] (Some (Inr w))"

definition mc_write_word :: "u32 \<Rightarrow> u32 \<Rightarrow> mc_world \<Rightarrow> mc_world res option" where
  "mc_write_word addr v w =
     (if addr = MC_CSR then Some (Inr (upd_mc (\<lambda>c. c\<lparr>mctl_csr := v\<rparr>) w))
      else if addr = MC_POC then Some (Inr w)
      else if addr = MC_BA_MASK then set_all_csc_tms (upd_mc (\<lambda>c. c\<lparr>mctl_ba_mask := v AND MC_BA_MASK_VALID\<rparr>) w)
      else if is_csc_tms addr
      then let i = csc_tms_index addr; k = unat i;
               w = upd_mc (\<lambda>c. if is_tms addr then c\<lparr>mctl_tms := (mctl_tms c)(k := v)\<rparr> else c\<lparr>mctl_csc := (mctl_csc c)(k := v)\<rparr>) w
           in set_csc_tms i (mctl_csc (mw_mc w) k) (mctl_tms (mw_mc w) k) w
      else Some (Inr w))"

definition mc_read_word :: "u32 \<Rightarrow> mctl \<Rightarrow> u32" where
  "mc_read_word addr c =
     (if addr = MC_CSR then mctl_csr c
      else if addr = MC_POC then mctl_poc c
      else if addr = MC_BA_MASK then mctl_ba_mask c
      else if is_csc_tms addr
      then if is_tms addr then mctl_tms c (unat (csc_tms_index addr)) else mctl_csc c (unat (csc_tms_index addr))
      else 0)"

section \<open>Reset\<close>

text \<open>The loop that moves the nodes of this controller from the global list to its own; \<open>prev\<close> is set to the node moved.\<close>

partial_function (option) grab_areas :: "nat option \<Rightarrow> nat option \<Rightarrow> mc_world \<Rightarrow> mc_world res option" where
  "grab_areas cur prev w =
     (case cur of
        None \<Rightarrow> Some (Inr w)
      | Some p \<Rightarrow>
          (case mw_nodes w p of
             None \<Rightarrow> Some (Inl Host_undef)
           | Some n \<Rightarrow>
               if nd_mc n = mctl_index (mw_mc w)
               then let w = (case prev of
                               Some q \<Rightarrow> upd_node q (\<lambda>m. m\<lparr>nd_next := nd_next n\<rparr>) w
                             | None \<Rightarrow> w\<lparr>mw_areas := nd_next n\<rparr>);
                        w = upd_node p (\<lambda>m. m\<lparr>nd_next := mctl_areas (mw_mc w)\<rparr>) w
                    in grab_areas (nd_next n) (Some p) (upd_mc (\<lambda>c. c\<lparr>mctl_areas := Some p\<rparr>) w)
               else grab_areas (nd_next n) (Some p) w))"

partial_function (option) invalidate_areas :: "nat option \<Rightarrow> mc_world \<Rightarrow> mc_world res option" where
  "invalidate_areas cur w =
     (case cur of
        None \<Rightarrow> Some (Inr w)
      | Some p \<Rightarrow>
          (case mw_nodes w p of
             None \<Rightarrow> Some (Inl Host_undef)
           | Some n \<Rightarrow> invalidate_areas (nd_next n) (w\<lparr>mw_mem := set_mem_valid (nd_mem n) False (mw_mem w)\<rparr>)))"

text \<open>The registers after a reset; chip select 0 takes its type and width from the power on configuration.\<close>

definition reset_csc0 :: "u32 \<Rightarrow> u32" where
  "reset_csc0 poc =
     push_bit MC_CSC_MEMTYPE_OFFSET (drop_bit 2 (poc AND 0x0c)) OR push_bit MC_CSC_BW_OFFSET (poc AND 0x03) OR 1"

definition reset_registers :: "mctl \<Rightarrow> mctl" where
  "reset_registers c =
     (let csc0 = reset_csc0 (mctl_poc c);
          tms0 = (if csc_memtype_is csc0 MC_CSC_MEMTYPE_ASYNC then MC_TMS_ASYNC_VALID
                  else if csc_memtype_is csc0 MC_CSC_MEMTYPE_SDRAM then MC_TMS_SDRAM_VALID
                  else if csc_memtype_is csc0 MC_CSC_MEMTYPE_SSRAM then MC_TMS_SSRAM_VALID
                  else if csc_memtype_is csc0 MC_CSC_MEMTYPE_SYNC then MC_TMS_SYNC_VALID
                  else 0)
      in c\<lparr>mctl_csc := (\<lambda>_. 0)(0 := csc0), mctl_tms := (\<lambda>_. 0)(0 := tms0), mctl_csr := 0, mctl_ba_mask := 0\<rparr>)"

definition mc_reset :: "mc_world \<Rightarrow> mc_world res option" where
  "mc_reset w =
     (let w = upd_mc reset_registers w
      in bind_run (grab_areas (mw_areas w) None w) (\<lambda>w.
         bind_run (invalidate_areas (mctl_areas (mw_mc w)) w) (\<lambda>w.
           set_csc_tms 0 (mctl_csc (mw_mc w) 0) (mctl_tms (mw_mc w) 0) w)))"

text \<open>The end of the simulation frees the global list.\<close>

partial_function (option) mc_done :: "mc_world \<Rightarrow> mc_world res option" where
  "mc_done w =
     (case mw_areas w of
        None \<Rightarrow> Some (Inr w)
      | Some p \<Rightarrow>
          (case mw_nodes w p of
             None \<Rightarrow> Some (Inl Host_undef)
           | Some n \<Rightarrow> mc_done (w\<lparr>mw_nodes := (mw_nodes w)(p := None), mw_areas := nd_next n\<rparr>)))"

declare find_cs.simps [code] grab_areas.simps [code] invalidate_areas.simps [code] mc_done.simps [code]

section \<open>Registration and configuration\<close>

text \<open>\<open>p\<close> is what \<open>malloc\<close> returns.\<close>

definition mc_reg_mem_area :: "nat option \<Rightarrow> nat \<Rightarrow> u32 \<Rightarrow> int \<Rightarrow> mc_world \<Rightarrow> mc_world res" where
  "mc_reg_mem_area p mema cs mc w =
     (case p of
        None \<Rightarrow> Inl Exit_failure
      | Some p \<Rightarrow>
          Inr (w\<lparr>mw_nodes := (mw_nodes w)(p \<mapsto> \<lparr>nd_mem = mema, nd_cs = cs, nd_mc = mc, nd_next = mw_areas w\<rparr>), mw_areas := Some p\<rparr>))"

definition mc_enabled :: "int \<Rightarrow> mctl \<Rightarrow> mctl" where
  "mc_enabled val c = c\<lparr>mctl_enabled := val \<noteq> 0\<rparr>"

definition mc_sec_baseaddr :: "u32 \<Rightarrow> mctl \<Rightarrow> mctl" where
  "mc_sec_baseaddr val c = c\<lparr>mctl_baseaddr := val\<rparr>"

definition mc_poc :: "int \<Rightarrow> mctl \<Rightarrow> mctl" where
  "mc_poc val c = c\<lparr>mctl_poc := word_of_int val AND MC_POC_VALID\<rparr>"

definition mc_index :: "int \<Rightarrow> mctl \<Rightarrow> mctl" where
  "mc_index val c = c\<lparr>mctl_index := val AND MC_CE_VALID\<rparr>"

text \<open>\<open>fresh\<close> is what \<open>malloc\<close> leaves in the fields that are not set.\<close>

definition mc_sec_start :: "mctl \<Rightarrow> mctl" where
  "mc_sec_start fresh = fresh\<lparr>mctl_enabled := True, mctl_baseaddr := 0, mctl_poc := 0, mctl_index := 0, mctl_areas := None\<rparr>"

section \<open>Lists in the heap\<close>

fun chain :: "(nat \<Rightarrow> mc_area_node option) \<Rightarrow> nat option \<Rightarrow> nat list \<Rightarrow> bool" where
  "chain h p [] = (p = None)"
| "chain h p (x # xs) = (p = Some x \<and> (case h x of None \<Rightarrow> False | Some n \<Rightarrow> chain h (nd_next n) xs))"

lemma chain_other: "x \<notin> set xs \<Longrightarrow> chain (h(x := v)) p xs = chain h p xs"
  by (induction xs arbitrary: p) (auto split: option.split)

lemma chain_alive: "chain h p xs \<Longrightarrow> x \<in> set xs \<Longrightarrow> \<exists>n. h x = Some n"
  by (induction xs arbitrary: p) (auto split: option.splits)

lemma chain_unlink:
  "chain h p (ys @ q # x # xs) \<Longrightarrow> distinct (ys @ q # x # xs) \<Longrightarrow> h q = Some m \<Longrightarrow> h x = Some n \<Longrightarrow>
   chain (h(q \<mapsto> m\<lparr>nd_next := nd_next n\<rparr>)) p (ys @ q # xs)"
proof (induction ys arbitrary: p)
  case Nil
  then show ?case by (simp add: chain_other fun_upd_same del: fun_upd_apply)
next
  case (Cons y ys)
  then show ?case by (auto split: option.splits)
qed

text \<open>The data of the nodes, without the links.\<close>

definition node_data :: "mc_world \<Rightarrow> nat \<Rightarrow> mc_area_node option" where
  "node_data w x = map_option (\<lambda>n. n\<lparr>nd_next := None\<rparr>) (mw_nodes w x)"

definition owned :: "mc_world \<Rightarrow> nat \<Rightarrow> bool" where
  "owned w x \<longleftrightarrow> (case node_data w x of None \<Rightarrow> False | Some n \<Rightarrow> nd_mc n = mctl_index (mw_mc w))"

lemma find_cs_chain:
  "chain h p xs \<Longrightarrow> find_cs h cs p = Some (Inr (map_option (\<lambda>x. nd_mem (the (h x))) (find (\<lambda>x. nd_cs (the (h x)) = cs) xs)))"
proof (induction xs arbitrary: p)
  case Nil
  then show ?case by (subst find_cs.simps) simp
next
  case (Cons x xs)
  then show ?case by (subst find_cs.simps) (auto split: option.splits)
qed

lemma invalidate_chain:
  "chain (mw_nodes w) p xs \<Longrightarrow>
   invalidate_areas p w = Some (Inr (w\<lparr>mw_mem := fold (\<lambda>x. set_mem_valid (nd_mem (the (mw_nodes w x))) False) xs (mw_mem w)\<rparr>))"
proof (induction xs arbitrary: p w)
  case Nil
  then show ?case by (subst invalidate_areas.simps) simp
next
  case (Cons x xs)
  then obtain n where n: "p = Some x" "mw_nodes w x = Some n" "chain (mw_nodes w) (nd_next n) xs" by (auto split: option.splits)
  then show ?case using Cons.IH[of "w\<lparr>mw_mem := set_mem_valid (nd_mem n) False (mw_mem w)\<rparr>" "nd_next n"]
    by (subst invalidate_areas.simps) simp
qed

text \<open>What programming a chip select amounts to: none of the tests of the memory type is ever true.\<close>

lemma set_area_again: "set_area p f (set_area p g mm) = set_area p (\<lambda>a. f (g a)) mm"
  by (cases "p < length (dev_list mm)") (simp_all add: set_area_def list_update_beyond)

lemma program_area_eq:
  "program_area ba_mask csc tms p mm =
     set_area p (\<lambda>a. a\<lparr>addr_mask := push_bit 22 ba_mask, addr_compare := push_bit 22 (drop_bit 16 csc), valid := has csc 1\<rparr>) mm"
  by (simp add: program_area_def csc_memtype_is_def set_mem_valid_def set_area_again has_def)

lemma area_set_area:
  "p < length (dev_list mm) \<Longrightarrow> dev_list (set_area p f mm) ! q = (if q = p then f (dev_list mm ! p) else dev_list mm ! q)"
  by (simp add: set_area_def)

lemma length_set_area [simp]: "length (dev_list (set_area p f mm)) = length (dev_list mm)"
  by (simp add: set_area_def)

lemma fold_invalid:
  "length (dev_list (fold (\<lambda>x. set_mem_valid (f x) False) xs mm)) = length (dev_list mm)"
  "a < length (dev_list mm) \<Longrightarrow> valid (dev_list (fold (\<lambda>x. set_mem_valid (f x) False) xs mm) ! a) = (a \<notin> f ` set xs \<and> valid (dev_list mm ! a))"
proof (induction xs arbitrary: mm)
  case (Cons x xs)
  case 1
  show ?case using Cons(1) by (simp add: set_mem_valid_def)
  case 2
  then have "valid (dev_list (set_mem_valid (f x) False mm) ! a) = (a \<noteq> f x \<and> valid (dev_list mm ! a))"
    by (cases "a = f x") (simp_all add: set_mem_valid_def set_area_def)
  then show ?case using Cons(2)[of "set_mem_valid (f x) False mm"] 2 by (auto simp: set_mem_valid_def)
qed simp_all

section \<open>Taking the areas over\<close>

lemma chain_next:
  "chain h p (ys @ x # xs) \<Longrightarrow> \<exists>n. h x = Some n \<and> nd_next n = (case xs of [] \<Rightarrow> None | z # _ \<Rightarrow> Some z)"
  by (induction ys arbitrary: p) (auto split: option.splits list.split)

lemma chain_tail: "chain h p (x # xs) \<Longrightarrow> h x = Some n \<Longrightarrow> chain h (nd_next n) xs"
  by simp

text \<open>The step of the loop for a node it takes, when \<open>prev\<close> is the node in front of it.\<close>

definition take_node :: "nat \<Rightarrow> nat option \<Rightarrow> mc_area_node \<Rightarrow> mc_world \<Rightarrow> mc_world" where
  "take_node p prev n w =
     (let w = (case prev of Some q \<Rightarrow> upd_node q (\<lambda>m. m\<lparr>nd_next := nd_next n\<rparr>) w | None \<Rightarrow> w\<lparr>mw_areas := nd_next n\<rparr>);
          w = upd_node p (\<lambda>m. m\<lparr>nd_next := mctl_areas (mw_mc w)\<rparr>) w
      in upd_mc (\<lambda>c. c\<lparr>mctl_areas := Some p\<rparr>) w)"

lemma grab_step:
  assumes "mw_nodes w p = Some n"
  shows "grab_areas (Some p) prev w =
    (if owned w p then grab_areas (nd_next n) (Some p) (take_node p prev n w) else grab_areas (nd_next n) (Some p) w)"
proof -
  have "owned w p \<longleftrightarrow> nd_mc n = mctl_index (mw_mc w)" using assms by (simp add: owned_def node_data_def)
  then show ?thesis using assms by (subst grab_areas.simps) (simp add: take_node_def Let_def)
qed

lemma take_node_frame:
  "node_data (take_node p prev n w) = node_data w" "mw_mem (take_node p prev n w) = mw_mem w"
  "(mw_mc (take_node p prev n w))\<lparr>mctl_areas := None\<rparr> = (mw_mc w)\<lparr>mctl_areas := None\<rparr>"
  "owned (take_node p prev n w) = owned w" "mctl_areas (mw_mc (take_node p prev n w)) = Some p"
proof -
  show d: "node_data (take_node p prev n w) = node_data w"
    by (rule ext) (auto simp: node_data_def take_node_def upd_node_def upd_mc_def option.map_comp comp_def Let_def split: option.split)
  have "mctl_index (mw_mc (take_node p prev n w)) = mctl_index (mw_mc w)"
    by (simp add: take_node_def upd_node_def upd_mc_def Let_def split: option.split)
  then show "owned (take_node p prev n w) = owned w" by (intro ext) (simp only: owned_def d)
qed (simp_all add: take_node_def upd_node_def upd_mc_def Let_def split: option.split)

lemma take_node_chains:
  assumes "chain (mw_nodes w) (mw_areas w) (ys @ p # xs)" and "chain (mw_nodes w) (mctl_areas (mw_mc w)) zs"
    and "distinct (ys @ (p # xs) @ zs)" and "mw_nodes w p = Some n" and "prev = (if ys = [] then None else Some (last ys))"
  shows "chain (mw_nodes (take_node p prev n w)) (mw_areas (take_node p prev n w)) (ys @ xs)"
    and "chain (mw_nodes (take_node p prev n w)) (Some p) (p # zs)"
proof -
  show "chain (mw_nodes (take_node p prev n w)) (mw_areas (take_node p prev n w)) (ys @ xs)"
  proof (cases "ys = []")
    case True
    then show ?thesis using assms by (simp add: take_node_def upd_node_def upd_mc_def chain_other)
  next
    case False
    then obtain ys' q where ys: "ys = ys' @ [q]" by (metis rev_exhaust)
    obtain m where m: "mw_nodes w q = Some m" using chain_alive[OF assms(1), of q] ys by auto
    have "chain ((mw_nodes w)(q \<mapsto> m\<lparr>nd_next := nd_next n\<rparr>)) (mw_areas w) (ys' @ q # xs)"
      using assms(1,3,4) m unfolding ys by (intro chain_unlink[where x = p]) auto
    then show ?thesis using assms(3,5) ys m
      by (simp add: take_node_def upd_node_def upd_mc_def chain_other)
  qed
  have "chain (mw_nodes (take_node p prev n w)) (mctl_areas (mw_mc w)) zs"
    using assms(2,3,5) by (cases ys rule: rev_cases) (auto simp: take_node_def upd_node_def upd_mc_def chain_other)
  moreover have "\<exists>k. mw_nodes (take_node p prev n w) p = Some k \<and> nd_next k = mctl_areas (mw_mc w)"
    using assms(3,4,5) by (cases ys rule: rev_cases) (auto simp: take_node_def upd_node_def upd_mc_def)
  ultimately show "chain (mw_nodes (take_node p prev n w)) (Some p) (p # zs)" by auto
qed

text \<open>Nodes of the controller that are not neighbours in the list.\<close>

definition apart :: "mc_world \<Rightarrow> nat list \<Rightarrow> bool" where
  "apart w = successively (\<lambda>x y. \<not> (owned w x \<and> owned w y))"

lemma grab_apart:
  assumes "chain (mw_nodes w) (mw_areas w) (ys @ xs)" and "chain (mw_nodes w) (mctl_areas (mw_mc w)) zs"
    and "distinct (ys @ xs @ zs)" and "cur = (case xs of [] \<Rightarrow> None | x # _ \<Rightarrow> Some x)"
    and "prev = (if ys = [] then None else Some (last ys)) \<or> xs = [] \<or> \<not> owned w (hd xs)" and "apart w xs"
  shows "\<exists>w'. grab_areas cur prev w = Some (Inr w')
    \<and> chain (mw_nodes w') (mw_areas w') (ys @ filter (\<lambda>x. \<not> owned w x) xs)
    \<and> chain (mw_nodes w') (mctl_areas (mw_mc w')) (rev (filter (owned w) xs) @ zs)
    \<and> node_data w' = node_data w \<and> mw_mem w' = mw_mem w \<and> (mw_mc w')\<lparr>mctl_areas := None\<rparr> = (mw_mc w)\<lparr>mctl_areas := None\<rparr>"
  using assms
proof (induction xs arbitrary: w cur prev ys zs)
  case Nil
  then show ?case by (subst grab_areas.simps) simp
next
  case (Cons p xs)
  obtain n where n: "mw_nodes w p = Some n" "nd_next n = (case xs of [] \<Rightarrow> None | z # _ \<Rightarrow> Some z)"
    using chain_next[OF Cons.prems(1)] by blast
  have cur: "cur = Some p" using Cons.prems(4) by simp
  have apart: "apart w xs" using Cons.prems(6) by (cases xs) (simp_all add: apart_def)
  show ?case
  proof (cases "owned w p")
    case False
    have "\<exists>w'. grab_areas (nd_next n) (Some p) w = Some (Inr w')
        \<and> chain (mw_nodes w') (mw_areas w') ((ys @ [p]) @ filter (\<lambda>x. \<not> owned w x) xs)
        \<and> chain (mw_nodes w') (mctl_areas (mw_mc w')) (rev (filter (owned w) xs) @ zs)
        \<and> node_data w' = node_data w \<and> mw_mem w' = mw_mem w \<and> (mw_mc w')\<lparr>mctl_areas := None\<rparr> = (mw_mc w)\<lparr>mctl_areas := None\<rparr>"
      by (rule Cons.IH) (use Cons.prems(1,2,3) apart n(2) in simp_all)
    then show ?thesis using False by (simp add: cur grab_step[OF n(1)])
  next
    case True
    let ?w = "take_node p prev n w"
    have prev: "prev = (if ys = [] then None else Some (last ys))" using Cons.prems(5) True by simp
    note ch = take_node_chains[OF Cons.prems(1,2,3) n(1) prev]
    have "xs = [] \<or> \<not> owned w (hd xs)" using Cons.prems(6) True by (cases xs) (simp_all add: apart_def)
    then have "\<exists>w'. grab_areas (nd_next n) (Some p) ?w = Some (Inr w')
        \<and> chain (mw_nodes w') (mw_areas w') (ys @ filter (\<lambda>x. \<not> owned ?w x) xs)
        \<and> chain (mw_nodes w') (mctl_areas (mw_mc w')) (rev (filter (owned ?w) xs) @ p # zs)
        \<and> node_data w' = node_data ?w \<and> mw_mem w' = mw_mem ?w \<and> (mw_mc w')\<lparr>mctl_areas := None\<rparr> = (mw_mc ?w)\<lparr>mctl_areas := None\<rparr>"
      by (intro Cons.IH) (use ch apart n(2) Cons.prems(3) in \<open>auto simp: take_node_frame apart_def simp del: chain.simps\<close>)
    then show ?thesis using True by (simp add: cur grab_step[OF n(1)] take_node_frame)
  qed
qed

section \<open>Reset and programming\<close>

definition node_cs :: "mc_world \<Rightarrow> nat \<Rightarrow> u32" where
  "node_cs w x = nd_cs (the (mw_nodes w x))"

definition node_mem :: "mc_world \<Rightarrow> nat \<Rightarrow> nat" where
  "node_mem w x = nd_mem (the (mw_nodes w x))"

lemma node_data_fields:
  assumes "node_data v = node_data w"
  shows "node_cs v = node_cs w" and "node_mem v = node_mem w"
proof -
  have "nd_cs (the (mw_nodes v x)) = nd_cs (the (mw_nodes w x)) \<and> nd_mem (the (mw_nodes v x)) = nd_mem (the (mw_nodes w x))" for x
  proof (cases "mw_nodes w x")
    case None
    then show ?thesis using fun_cong[OF assms, of x] by (simp add: node_data_def)
  next
    case (Some n)
    then obtain m where m: "mw_nodes v x = Some m" "m\<lparr>nd_next := None\<rparr> = n\<lparr>nd_next := None\<rparr>"
      using fun_cong[OF assms, of x] by (auto simp: node_data_def)
    show ?thesis using arg_cong[OF m(2), of nd_cs] arg_cong[OF m(2), of nd_mem] by (simp add: Some m(1))
  qed
  then show "node_cs v = node_cs w" "node_mem v = node_mem w" by (simp_all add: node_cs_def node_mem_def fun_eq_iff)
qed

text \<open>Programming the chip select \<open>cs\<close> of a controller with the nodes \<open>ms\<close>.\<close>

lemma set_csc_tms_chain:
  assumes "chain (mw_nodes w) (mctl_areas (mw_mc w)) ms"
  shows "set_csc_tms cs csc tms w = Some (Inr (case find (\<lambda>x. node_cs w x = cs) ms of
      None \<Rightarrow> w
    | Some x \<Rightarrow> w\<lparr>mw_mem := set_area (node_mem w x) (\<lambda>a. a\<lparr>addr_mask := push_bit 22 (mctl_ba_mask (mw_mc w)),
        addr_compare := push_bit 22 (drop_bit 16 csc), valid := has csc 1\<rparr>) (mw_mem w)\<rparr>))"
  unfolding set_csc_tms_def find_cs_chain[OF assms] program_area_eq
  by (simp add: node_cs_def node_mem_def split: option.split)

lemma find_unique: "x \<in> set ms \<Longrightarrow> P x \<Longrightarrow> \<forall>y\<in>set ms. P y \<longrightarrow> y = x \<Longrightarrow> find P ms = Some x"
proof (induction ms)
  case (Cons m ms)
  show ?case
  proof (cases "P m")
    case True
    have "m = x" using Cons.prems(3) True by simp
    then show ?thesis using True by (simp only: find.simps if_True)
  next
    case False
    have "x \<in> set ms" using Cons.prems(1,2) False by auto
    moreover have "\<forall>y\<in>set ms. P y \<longrightarrow> y = x" using Cons.prems(3) by simp
    ultimately have "find P ms = Some x" using Cons.IH Cons.prems(2) by blast
    then show ?thesis using False by (simp only: find.simps if_False)
  qed
qed simp

lemma find_Some: "find P xs = Some x \<Longrightarrow> x \<in> set xs \<and> P x"
  by (auto simp: find_Some_iff)

text \<open>The invalidation of the areas of \<open>ms\<close> and the programming of chip select 0.\<close>

lemma reset_memory:
  assumes "chain (mw_nodes w) (mctl_areas (mw_mc w)) ms" and "inj_on (node_mem w) (set ms)"
    and "\<forall>x\<in>set ms. node_mem w x < length (dev_list (mw_mem w))"
  obtains mm where "bind_run (invalidate_areas (mctl_areas (mw_mc w)) w) (\<lambda>w. set_csc_tms 0 csc tms w) = Some (Inr (w\<lparr>mw_mem := mm\<rparr>))"
    and "\<And>x. x \<in> set ms \<Longrightarrow> node_cs w x \<noteq> 0 \<Longrightarrow> \<not> valid (dev_list mm ! node_mem w x)"
    and "\<And>y. find (\<lambda>x. node_cs w x = 0) ms = Some y \<Longrightarrow> valid (dev_list mm ! node_mem w y) = has csc 1
      \<and> addr_mask (dev_list mm ! node_mem w y) = push_bit 22 (mctl_ba_mask (mw_mc w))"
proof -
  let ?mm = "fold (\<lambda>x. set_mem_valid (node_mem w x) False) ms (mw_mem w)"
  let ?w = "w\<lparr>mw_mem := ?mm\<rparr>"
  have inv: "invalidate_areas (mctl_areas (mw_mc w)) w = Some (Inr ?w)"
    using invalidate_chain[OF assms(1)] by (simp add: node_mem_def)
  have ch: "chain (mw_nodes ?w) (mctl_areas (mw_mc ?w)) ms" using assms(1) by simp
  have same: "node_cs ?w = node_cs w" "node_mem ?w = node_mem w" by (simp_all add: node_cs_def node_mem_def fun_eq_iff)
  have off: "\<not> valid (dev_list ?mm ! node_mem w x)" if "x \<in> set ms" for x
    using fold_invalid(2)[of "node_mem w x" "mw_mem w" "node_mem w" ms] assms(3) that by auto
  show thesis
  proof (cases "find (\<lambda>x. node_cs w x = 0) ms")
    case None
    then have "bind_run (invalidate_areas (mctl_areas (mw_mc w)) w) (\<lambda>w. set_csc_tms 0 csc tms w) = Some (Inr (w\<lparr>mw_mem := ?mm\<rparr>))"
      by (simp add: inv set_csc_tms_chain[OF ch] same)
    then show thesis using off that None by fastforce
  next
    case (Some y)
    let ?m = "set_area (node_mem w y) (\<lambda>a. a\<lparr>addr_mask := push_bit 22 (mctl_ba_mask (mw_mc w)),
        addr_compare := push_bit 22 (drop_bit 16 csc), valid := has csc 1\<rparr>) ?mm"
    have y: "y \<in> set ms" "node_cs w y = 0" using find_Some[OF Some] by auto
    have "bind_run (invalidate_areas (mctl_areas (mw_mc w)) w) (\<lambda>w. set_csc_tms 0 csc tms w) = Some (Inr (w\<lparr>mw_mem := ?m\<rparr>))"
      by (simp add: inv set_csc_tms_chain[OF ch] same Some)
    moreover have "\<not> valid (dev_list ?m ! node_mem w x)" if "x \<in> set ms" "node_cs w x \<noteq> 0" for x
    proof -
      have "node_mem w x \<noteq> node_mem w y" using that y assms(2) by (metis inj_onD)
      moreover have "node_mem w y < length (dev_list ?mm)" using y(1) assms(3) fold_invalid(1)[of "node_mem w" ms "mw_mem w"] by simp
      ultimately show ?thesis using off[OF that(1)] by (simp add: area_set_area)
    qed
    moreover have "valid (dev_list ?m ! node_mem w y) = has csc 1 \<and> addr_mask (dev_list ?m ! node_mem w y) = push_bit 22 (mctl_ba_mask (mw_mc w))"
      using y(1) assms(3) fold_invalid(1)[of "node_mem w" ms "mw_mem w"] by (simp add: area_set_area)
    ultimately show thesis using that Some by auto
  qed
qed

lemma owned_cong: "node_data v = node_data w \<Longrightarrow> mctl_index (mw_mc v) = mctl_index (mw_mc w) \<Longrightarrow> owned v = owned w"
  by (intro ext) (simp only: owned_def)

lemma reset_frame:
  "mw_nodes (upd_mc reset_registers w) = mw_nodes w" "mw_areas (upd_mc reset_registers w) = mw_areas w"
  "mw_mem (upd_mc reset_registers w) = mw_mem w" "mctl_areas (mw_mc (upd_mc reset_registers w)) = mctl_areas (mw_mc w)"
  "owned (upd_mc reset_registers w) = owned w"
  by (simp_all add: upd_mc_def reset_registers_def Let_def csc_memtype_is_def)
    (rule owned_cong, simp_all add: node_data_def fun_eq_iff)

lemma csc_address:
  assumes "i < 8"
  shows "MC_CSC i \<noteq> MC_CSR" "MC_CSC i \<noteq> MC_POC" "MC_CSC i \<noteq> MC_BA_MASK" "is_csc_tms (MC_CSC i)" "\<not> is_tms (MC_CSC i)"
    "csc_tms_index (MC_CSC i) = i"
proof -
  have "i \<in> set [0, 1, 2, 3, 4, 5, 6, 7]"
  proof -
    have "unat i < 8" using assms by (simp add: word_less_nat_alt)
    then have "unat i \<in> {0, 1, 2, 3, 4, 5, 6, 7}" by auto
    then have "i \<in> word_of_nat ` {0, 1, 2, 3, 4, 5, 6, 7}" by (intro image_eqI[of _ _ "unat i"]) simp_all
    then show ?thesis by simp
  qed
  then show "MC_CSC i \<noteq> MC_CSR" "MC_CSC i \<noteq> MC_POC" "MC_CSC i \<noteq> MC_BA_MASK" "is_csc_tms (MC_CSC i)" "\<not> is_tms (MC_CSC i)"
    "csc_tms_index (MC_CSC i) = i"
    by (auto simp: is_csc_tms_def is_tms_def csc_tms_index_def)
qed

section \<open>Properties\<close>

text \<open>
  C30: a reset terminates and takes all the areas of the controller over from the global list, provided no two of them
  are neighbours there: they end in the controller's list, the others stay in the global list in their order. The areas of the
  controller on chip selects other than 0 are switched off; the first one on chip select 0 is switched on, and as the
  mask register is cleared it answers every address, for the boot code.
\<close>

theorem mc_reset_takes_areas:
  assumes "chain (mw_nodes w) (mw_areas w) xs" and "chain (mw_nodes w) (mctl_areas (mw_mc w)) zs" and "distinct (xs @ zs)"
    and "apart w xs" and "inj_on (node_mem w) (set (xs @ zs))" and "\<forall>x\<in>set (xs @ zs). node_mem w x < length (dev_list (mw_mem w))"
  shows "\<exists>w'. mc_reset w = Some (Inr w')
    \<and> chain (mw_nodes w') (mw_areas w') (filter (\<lambda>x. \<not> owned w x) xs)
    \<and> chain (mw_nodes w') (mctl_areas (mw_mc w')) (rev (filter (owned w) xs) @ zs)
    \<and> (\<forall>x\<in>set (filter (owned w) xs @ zs). node_cs w x \<noteq> 0 \<longrightarrow> \<not> valid (dev_list (mw_mem w') ! node_mem w x))
    \<and> (\<forall>x addr. find (\<lambda>x. node_cs w x = 0) (rev (filter (owned w) xs) @ zs) = Some x \<longrightarrow>
         valid (dev_list (mw_mem w') ! node_mem w x) \<and> area_matches addr (dev_list (mw_mem w') ! node_mem w x))"
proof -
  let ?w = "upd_mc reset_registers w" and ?ms = "rev (filter (owned w) xs) @ zs"
  have "\<exists>w1. grab_areas (mw_areas ?w) None ?w = Some (Inr w1)
    \<and> chain (mw_nodes w1) (mw_areas w1) ([] @ filter (\<lambda>x. \<not> owned ?w x) xs)
    \<and> chain (mw_nodes w1) (mctl_areas (mw_mc w1)) (rev (filter (owned ?w) xs) @ zs)
    \<and> node_data w1 = node_data ?w \<and> mw_mem w1 = mw_mem ?w \<and> (mw_mc w1)\<lparr>mctl_areas := None\<rparr> = (mw_mc ?w)\<lparr>mctl_areas := None\<rparr>"
    using assms(1-4) by (intro grab_apart) (auto simp: reset_frame apart_def split: list.split)
  then obtain w1 where w1: "grab_areas (mw_areas ?w) None ?w = Some (Inr w1)"
      "chain (mw_nodes w1) (mw_areas w1) (filter (\<lambda>x. \<not> owned w x) xs)"
      "chain (mw_nodes w1) (mctl_areas (mw_mc w1)) ?ms" "node_data w1 = node_data ?w" "mw_mem w1 = mw_mem w"
      "(mw_mc w1)\<lparr>mctl_areas := None\<rparr> = (mw_mc ?w)\<lparr>mctl_areas := None\<rparr>"
    by (auto simp: reset_frame)
  have regs: "mctl_csc (mw_mc w1) 0 = reset_csc0 (mctl_poc (mw_mc w))" "mctl_ba_mask (mw_mc w1) = 0"
    using arg_cong[OF w1(6), of mctl_csc] arg_cong[OF w1(6), of mctl_ba_mask] by (simp_all add: upd_mc_def reset_registers_def Let_def)
  have "bit (reset_csc0 (mctl_poc (mw_mc w))) 0" by (simp add: reset_csc0_def bit_or_iff bit_1_iff)
  then have on: "has (reset_csc0 (mctl_poc (mw_mc w))) 1" by (simp add: has_def and_one_eq bit_0 odd_iff_mod_2_eq_one)
  have "node_cs ?w = node_cs w" "node_mem ?w = node_mem w" by (simp_all add: node_cs_def node_mem_def reset_frame fun_eq_iff)
  then have same: "node_cs w1 = node_cs w" "node_mem w1 = node_mem w" using node_data_fields[OF w1(4)] by simp_all
  have "inj_on (node_mem w1) (set ?ms)" unfolding same by (rule inj_on_subset[OF assms(5)]) auto
  moreover have "\<forall>x\<in>set ?ms. node_mem w1 x < length (dev_list (mw_mem w1))" using assms(6) by (auto simp: same w1(5))
  ultimately obtain mm where "bind_run (invalidate_areas (mctl_areas (mw_mc w1)) w1)
      (\<lambda>w. set_csc_tms 0 (mctl_csc (mw_mc w1) 0) (mctl_tms (mw_mc w1) 0) w) = Some (Inr (w1\<lparr>mw_mem := mm\<rparr>))"
    and off: "\<And>x. x \<in> set ?ms \<Longrightarrow> node_cs w1 x \<noteq> 0 \<Longrightarrow> \<not> valid (dev_list mm ! node_mem w1 x)"
    and boot: "\<And>y. find (\<lambda>x. node_cs w1 x = 0) ?ms = Some y \<Longrightarrow> valid (dev_list mm ! node_mem w1 y) = has (mctl_csc (mw_mc w1) 0) 1
      \<and> addr_mask (dev_list mm ! node_mem w1 y) = push_bit 22 (mctl_ba_mask (mw_mc w1))"
    using reset_memory[OF w1(3)] by blast
  then have "mc_reset w = Some (Inr (w1\<lparr>mw_mem := mm\<rparr>))"
    using invalidate_chain[OF w1(3)] by (simp add: mc_reset_def Let_def w1(1))
  moreover have "valid (dev_list mm ! node_mem w x) \<and> area_matches addr (dev_list mm ! node_mem w x)"
    if "find (\<lambda>x. node_cs w x = 0) ?ms = Some x" for x addr
    using boot[unfolded same regs, OF that] on by (simp add: area_matches_def)
  ultimately show ?thesis using w1(2,3) off by (intro exI[of _ "w1\<lparr>mw_mem := mm\<rparr>"]) (auto simp: same)
qed

definition mc_sample :: "int \<Rightarrow> mc_world" where
  "mc_sample mc = \<lparr>
     mw_mc = \<lparr>mctl_csr = 0, mctl_poc = 0, mctl_ba_mask = 0xff, mctl_csc = \<lambda>_. 0, mctl_tms = \<lambda>_. 0, mctl_baseaddr = 0x60000000,
       mctl_enabled = True, mctl_index = 0, mctl_areas = None\<rparr>,
     mw_nodes = (\<lambda>_. None)
       (0 \<mapsto> \<lparr>nd_mem = 0, nd_cs = 1, nd_mc = 0, nd_next = Some 1\<rparr>,
        1 \<mapsto> \<lparr>nd_mem = 1, nd_cs = 0, nd_mc = mc, nd_next = Some 2\<rparr>,
        2 \<mapsto> \<lparr>nd_mem = 2, nd_cs = 2, nd_mc = 0, nd_next = None\<rparr>),
     mw_areas = Some 0,
     mw_mem = zero_memory\<lparr>dev_list := [sample_area 0xfffff 0, sample_area 0xffff 0xf0000000, sample_area 0xffff 0x40000000]\<rparr>\<rparr>"

theorem mc_reset_takes_areas_witness:
  "\<exists>w'. mc_reset (mc_sample 1) = Some (Inr w') \<and> chain (mw_nodes w') (mctl_areas (mw_mc w')) [2, 0]
    \<and> chain (mw_nodes w') (mw_areas w') [1] \<and> \<not> valid (dev_list (mw_mem w') ! 2)"
proof -
  let ?w = "mc_sample 1"
  have "chain (mw_nodes ?w) (mw_areas ?w) [0, 1, 2]" "chain (mw_nodes ?w) (mctl_areas (mw_mc ?w)) []" "apart ?w [0, 1, 2]"
    "inj_on (node_mem ?w) (set ([0, 1, 2] @ []))" "\<forall>x\<in>set ([0, 1, 2] @ []). node_mem ?w x < length (dev_list (mw_mem ?w))"
    by (simp_all add: mc_sample_def apart_def owned_def node_data_def node_mem_def)
  from mc_reset_takes_areas[OF this(1,2) _ this(3-5)]
  show ?thesis by (simp add: mc_sample_def owned_def node_data_def node_mem_def node_cs_def) blast
qed

text \<open>
  C31: writing the CSC register of a chip select makes its area answer exactly the addresses whose bits under the mask
  register are those of the select field, if the enable bit is set, and reads back. The memory type in the register has no
  effect, though the code means to derive the delays from it: they stay what they were.
\<close>

theorem mc_programs_chip_select:
  assumes "chain (mw_nodes w) (mctl_areas (mw_mc w)) ms" and "x \<in> set ms" and "\<forall>y\<in>set ms. node_cs w y = node_cs w x \<longrightarrow> y = x"
    and "node_cs w x = i" and "i < 8" and "node_mem w x < length (dev_list (mw_mem w))"
  shows "\<exists>w'. mc_write_word (MC_CSC i) v w = Some (Inr w') \<and> mc_read_word (MC_CSC i) (mw_mc w') = v
    \<and> length (dev_list (mw_mem w')) = length (dev_list (mw_mem w))
    \<and> (\<forall>q. q \<noteq> node_mem w x \<longrightarrow> dev_list (mw_mem w') ! q = dev_list (mw_mem w) ! q)
    \<and> valid (dev_list (mw_mem w') ! node_mem w x) = has v 1
    \<and> (\<forall>addr. area_matches addr (dev_list (mw_mem w') ! node_mem w x) \<longleftrightarrow>
         addr AND push_bit 22 (mctl_ba_mask (mw_mc w)) = push_bit 22 (drop_bit 16 v) AND push_bit 22 (mctl_ba_mask (mw_mc w)))
    \<and> ops (dev_list (mw_mem w') ! node_mem w x) = ops (dev_list (mw_mem w) ! node_mem w x)"
proof -
  let ?w = "upd_mc (\<lambda>c. c\<lparr>mctl_csc := (mctl_csc c)(unat i := v)\<rparr>) w"
  let ?mask = "push_bit 22 (mctl_ba_mask (mw_mc w))"
  let ?f = "\<lambda>d. d\<lparr>addr_mask := ?mask, addr_compare := push_bit 22 (drop_bit 16 v), valid := has v 1\<rparr>"
  note a = csc_address[OF assms(5)]
  have f: "find (\<lambda>y. node_cs w y = i) ms = Some x"
    using find_unique[of x ms "\<lambda>y. node_cs w y = i"] assms(2,3) unfolding assms(4) by blast
  have ch: "chain (mw_nodes ?w) (mctl_areas (mw_mc ?w)) ms" using assms(1) by (simp add: upd_mc_def)
  have same: "node_cs ?w = node_cs w" "node_mem ?w = node_mem w" "mctl_ba_mask (mw_mc ?w) = mctl_ba_mask (mw_mc w)" "mw_mem ?w = mw_mem w"
    by (simp_all add: node_cs_def node_mem_def upd_mc_def fun_eq_iff)
  have "mc_write_word (MC_CSC i) v w = set_csc_tms i (mctl_csc (mw_mc ?w) (unat i)) (mctl_tms (mw_mc ?w) (unat i)) ?w"
    by (simp add: mc_write_word_def a Let_def)
  then have "mc_write_word (MC_CSC i) v w = Some (Inr (?w\<lparr>mw_mem := set_area (node_mem w x) ?f (mw_mem w)\<rparr>))" (is "_ = Some (Inr ?v)")
    by (simp only: set_csc_tms_chain[OF ch] same f option.case) (simp add: upd_mc_def)
  moreover have "mc_read_word (MC_CSC i) (mw_mc ?v) = v"
    unfolding mc_read_word_def a(6) using a(1-5) by (simp add: upd_mc_def)
  moreover have "length (dev_list (mw_mem ?v)) = length (dev_list (mw_mem w))" by simp
  moreover have "dev_list (mw_mem ?v) ! q = dev_list (mw_mem w) ! q" if "q \<noteq> node_mem w x" for q
    using that assms(6) by (simp add: area_set_area)
  moreover have "dev_list (mw_mem ?v) ! node_mem w x = ?f (dev_list (mw_mem w) ! node_mem w x)"
    using assms(6) by (simp add: area_set_area)
  moreover have "valid (?f d) = has v 1" "area_matches addr (?f d) \<longleftrightarrow> addr AND ?mask = push_bit 22 (drop_bit 16 v) AND ?mask"
    "ops (?f d) = ops d" for d addr by (simp_all add: area_matches_def)
  ultimately show ?thesis by (intro exI[of _ ?v] conjI allI impI) (simp_all only:)
qed

definition mc_programmed_sample :: mc_world where
  "mc_programmed_sample = upd_mc (\<lambda>c. c\<lparr>mctl_areas := Some 0\<rparr>) ((mc_sample 0)\<lparr>mw_areas := None\<rparr>)"

theorem mc_programs_chip_select_witness:
  "\<exists>w'. mc_write_word (MC_CSC 2) 0x00400001 mc_programmed_sample = Some (Inr w') \<and> valid (dev_list (mw_mem w') ! 2)
    \<and> area_matches 0x10001234 (dev_list (mw_mem w') ! 2) \<and> \<not> area_matches 0x20001234 (dev_list (mw_mem w') ! 2)"
proof -
  let ?w = mc_programmed_sample
  have "chain (mw_nodes ?w) (mctl_areas (mw_mc ?w)) [0, 1, 2]" "(2 :: nat) \<in> set [0, 1, 2]"
    "\<forall>y\<in>set [0, 1, 2]. node_cs ?w y = node_cs ?w 2 \<longrightarrow> y = 2" "node_cs ?w 2 = 2" "(2 :: u32) < 8"
    "node_mem ?w 2 < length (dev_list (mw_mem ?w))"
    by (simp_all add: mc_programmed_sample_def mc_sample_def node_cs_def node_mem_def upd_mc_def)
  from mc_programs_chip_select[OF this, of "0x00400001"]
  show ?thesis by (auto simp: mc_programmed_sample_def mc_sample_def node_mem_def upd_mc_def has_def)
qed

text \<open>
  C32: when three areas of a controller are neighbours in the list, as the RAMs of one controller that a configuration
  file lists one after the other, the reset loses the first of them: it ends in neither list, and programming its chip
  select has no effect on the memory map any more.
\<close>

theorem mc_reset_loses_an_area:
  assumes "chain (mw_nodes w) (mw_areas w) [p, q, r]" and "mctl_areas (mw_mc w) = None" and "distinct [p, q, r]"
    and "owned w p" and "owned w q" and "owned w r" and "node_cs w p \<noteq> node_cs w q" and "node_cs w p \<noteq> node_cs w r"
    and "node_cs w p = i" and "i < 8"
  shows "\<exists>w'. mc_reset w = Some (Inr w') \<and> chain (mw_nodes w') (mctl_areas (mw_mc w')) [r, q]
    \<and> chain (mw_nodes w') (mw_areas w') [q]
    \<and> (\<forall>v. \<exists>w''. mc_write_word (MC_CSC i) v w' = Some (Inr w'') \<and> mw_mem w'' = mw_mem w')"
proof -
  obtain a b c where n: "mw_nodes w p = Some a" "nd_next a = Some q" "mw_nodes w q = Some b" "nd_next b = Some r"
      "mw_nodes w r = Some c" "nd_next c = None" "mw_areas w = Some p"
    using assms(1) by (auto split: option.splits)
  let ?w = "upd_mc reset_registers w"
  let ?w1 = "take_node p None a ?w"
  let ?a1 = "a\<lparr>nd_next := None\<rparr>"
  let ?w2 = "take_node q (Some p) b ?w1"
  let ?w3 = "take_node r (Some q) c ?w2"
  have d: "p \<noteq> q" "p \<noteq> r" "q \<noteq> r" using assms(3) by auto
  have own: "owned ?w = owned w" "owned ?w1 = owned w" "owned ?w2 = owned w" by (simp_all only: take_node_frame reset_frame)
  have n1: "mw_nodes ?w1 q = Some b" "mw_nodes ?w1 r = Some c"
    using n d by (simp_all add: take_node_def upd_node_def upd_mc_def)
  have n2: "mw_nodes ?w2 r = Some c" using n1 d by (simp add: take_node_def upd_node_def upd_mc_def)
  have g: "grab_areas (mw_areas ?w) None ?w = Some (Inr ?w3)"
  proof -
    have "grab_areas (Some p) None ?w = grab_areas (Some q) (Some p) ?w1"
      using grab_step[of ?w p a None] n assms(4) by (simp add: reset_frame)
    also have "\<dots> = grab_areas (Some r) (Some q) ?w2" using grab_step[OF n1(1), of "Some p"] n assms(5) by (simp add: own)
    also have "\<dots> = grab_areas None (Some r) ?w3" using grab_step[OF n2, of "Some q"] n assms(6) by (simp add: own)
    also have "\<dots> = Some (Inr ?w3)" by (subst grab_areas.simps) simp
    finally show ?thesis by (simp add: reset_frame n)
  qed
  have lists: "chain (mw_nodes ?w3) (mctl_areas (mw_mc ?w3)) [r, q]" "chain (mw_nodes ?w3) (mw_areas ?w3) [q]"
    using n d assms(2) by (simp_all add: take_node_def upd_node_def upd_mc_def reset_registers_def Let_def csc_memtype_is_def)
  have cs: "node_cs ?w3 = node_cs w"
  proof -
    have "node_data ?w3 = node_data ?w" by (simp only: take_node_frame)
    then have "node_cs ?w3 = node_cs ?w" by (rule node_data_fields)
    then show ?thesis by (simp add: node_cs_def reset_frame fun_eq_iff)
  qed
  define mm where "mm = fold (\<lambda>x. set_mem_valid (nd_mem (the (mw_nodes ?w3 x))) False) [r, q] (mw_mem ?w3)"
  have ch: "chain (mw_nodes (?w3\<lparr>mw_mem := mm\<rparr>)) (mctl_areas (mw_mc (?w3\<lparr>mw_mem := mm\<rparr>))) [r, q]" using lists(1) by simp
  obtain m2 where w': "mc_reset w = Some (Inr (?w3\<lparr>mw_mem := m2\<rparr>))"
    using set_csc_tms_chain[OF ch, of 0 "mctl_csc (mw_mc ?w3) 0" "mctl_tms (mw_mc ?w3) 0"]
    unfolding mc_reset_def Let_def g bind_run_simps invalidate_chain[OF lists(1)] mm_def[symmetric]
    by (auto split: option.splits)
  let ?v = "?w3\<lparr>mw_mem := m2\<rparr>"
  have "\<exists>w''. mc_write_word (MC_CSC i) v ?v = Some (Inr w'') \<and> mw_mem w'' = mw_mem ?v" for v
  proof -
    let ?u = "upd_mc (\<lambda>c. c\<lparr>mctl_csc := (mctl_csc c)(unat i := v)\<rparr>) ?v"
    have ch: "chain (mw_nodes ?u) (mctl_areas (mw_mc ?u)) [r, q]" using lists(1) by (simp add: upd_mc_def)
    have "node_cs ?u = node_cs ?w3" by (simp add: node_cs_def upd_mc_def fun_eq_iff)
    then have f: "find (\<lambda>x. node_cs ?u x = i) [r, q] = None" using assms(7-9) by (simp add: cs)
    have "mc_write_word (MC_CSC i) v ?v = set_csc_tms i (mctl_csc (mw_mc ?u) (unat i)) (mctl_tms (mw_mc ?u) (unat i)) ?u"
      by (simp only: mc_write_word_def csc_address[OF assms(10)] Let_def if_False if_True simp_thms)
    also have "\<dots> = Some (Inr ?u)" by (simp only: set_csc_tms_chain[OF ch] f option.case)
    finally show ?thesis by (simp add: upd_mc_def)
  qed
  then show ?thesis using w' lists by (intro exI[of _ ?v]) simp
qed

theorem mc_reset_loses_an_area_witness:
  "\<exists>w'. mc_reset (mc_sample 0) = Some (Inr w') \<and> chain (mw_nodes w') (mctl_areas (mw_mc w')) [2, 1]"
proof -
  let ?w = "mc_sample 0"
  have "chain (mw_nodes ?w) (mw_areas ?w) [0, 1, 2]" "mctl_areas (mw_mc ?w) = None" "distinct [0 :: nat, 1, 2]"
    "owned ?w 0" "owned ?w 1" "owned ?w 2" "node_cs ?w 0 \<noteq> node_cs ?w 1" "node_cs ?w 0 \<noteq> node_cs ?w 2" "node_cs ?w 0 = 1" "(1 :: u32) < 8"
    by (simp_all add: mc_sample_def owned_def node_data_def node_cs_def)
  from mc_reset_loses_an_area[OF this] show ?thesis by blast
qed

end
