(* ===== verification/Gpio.thy ===== *)
theory Gpio
  imports Units
begin

text \<open>
  The general purpose inputs and outputs (\<open>peripheral/gpio.c\<close>). A device keeps its visible registers twice, as they are
  and as they will be after the next clock; the clock is the system clock, a job that reschedules itself, or an input pin
  driven from the outside (VAPI). The jobs requested with \<open>SCHED_ADD\<close>, all with delay 1, and the values sent to VAPI are
  lists in the state; interrupts go to the interrupt controller of the machine. \<open>unsigned long\<close> has 64 bits.
\<close>

section \<open>State\<close>

record gpio_regs =
  g_in :: u64
  g_out :: u64
  g_oe :: u64
  g_inte :: u64
  g_ptrig :: u64
  g_aux :: u64
  g_ctrl :: u64
  g_ints :: u64
  external_clock :: int

record gpio_device =
  g_enabled :: bool
  g_baseaddr :: u32
  g_irq :: int
  base_vapi_id :: u64
  auxiliary_inputs :: u64
  curr_regs :: gpio_regs
  next_regs :: gpio_regs

datatype gpio_job = Gpio_clock | Gpio_do_int

record gpio_world =
  gw_gpio :: gpio_device
  gw_machine :: machine
  gw_jobs :: "gpio_job list"
  gw_sent :: "(u64 \<times> u64) list"

abbreviation (input) GPIO_VAPI_DATA :: u32 where "GPIO_VAPI_DATA \<equiv> 0"
abbreviation (input) GPIO_VAPI_AUX :: u32 where "GPIO_VAPI_AUX \<equiv> 1"
abbreviation (input) GPIO_VAPI_CLOCK :: u32 where "GPIO_VAPI_CLOCK \<equiv> 2"
abbreviation (input) GPIO_VAPI_RGPIO_OE :: u32 where "GPIO_VAPI_RGPIO_OE \<equiv> 3"
abbreviation (input) GPIO_VAPI_RGPIO_INTE :: u32 where "GPIO_VAPI_RGPIO_INTE \<equiv> 4"
abbreviation (input) GPIO_VAPI_RGPIO_PTRIG :: u32 where "GPIO_VAPI_RGPIO_PTRIG \<equiv> 5"
abbreviation (input) GPIO_VAPI_RGPIO_AUX :: u32 where "GPIO_VAPI_RGPIO_AUX \<equiv> 6"
abbreviation (input) GPIO_VAPI_RGPIO_CTRL :: u32 where "GPIO_VAPI_RGPIO_CTRL \<equiv> 7"

abbreviation (input) RGPIO_IN :: u32 where "RGPIO_IN \<equiv> 0"
abbreviation (input) RGPIO_OUT :: u32 where "RGPIO_OUT \<equiv> 4"
abbreviation (input) RGPIO_OE :: u32 where "RGPIO_OE \<equiv> 8"
abbreviation (input) RGPIO_INTE :: u32 where "RGPIO_INTE \<equiv> 0xc"
abbreviation (input) RGPIO_PTRIG :: u32 where "RGPIO_PTRIG \<equiv> 0x10"
abbreviation (input) RGPIO_AUX :: u32 where "RGPIO_AUX \<equiv> 0x14"
abbreviation (input) RGPIO_CTRL :: u32 where "RGPIO_CTRL \<equiv> 0x18"
abbreviation (input) RGPIO_INTS :: u32 where "RGPIO_INTS \<equiv> 0x1c"

abbreviation (input) RGPIO_CTRL_ECLK :: u64 where "RGPIO_CTRL_ECLK \<equiv> 1"
abbreviation (input) RGPIO_CTRL_NEC :: u64 where "RGPIO_CTRL_NEC \<equiv> 2"
abbreviation (input) RGPIO_CTRL_INTE :: u64 where "RGPIO_CTRL_INTE \<equiv> 4"
abbreviation (input) RGPIO_CTRL_INTS :: u64 where "RGPIO_CTRL_INTS \<equiv> 8"

definition upd_next :: "(gpio_regs \<Rightarrow> gpio_regs) \<Rightarrow> gpio_world \<Rightarrow> gpio_world" where
  "upd_next f w = w\<lparr>gw_gpio := (gw_gpio w)\<lparr>next_regs := f (next_regs (gw_gpio w))\<rparr>\<rparr>"

definition add_gpio_job :: "gpio_job \<Rightarrow> gpio_world \<Rightarrow> gpio_world" where
  "add_gpio_job j w = w\<lparr>gw_jobs := gw_jobs w @ [j]\<rparr>"

section \<open>The clock\<close>

text \<open>The inputs that raise an interrupt; the variables of the code are \<open>unsigned\<close>, 32 bits wide.\<close>

definition relevant_bits :: "gpio_regs \<Rightarrow> gpio_regs \<Rightarrow> u32" where
  "relevant_bits cur nxt =
     (let changed_bits = (ucast (g_in nxt XOR g_in cur) :: u32);
          set_bits = (ucast (ucast changed_bits AND g_in nxt) :: u32);
          cleared_bits = (ucast (ucast changed_bits AND g_in cur) :: u32)
      in ucast ((g_ptrig nxt AND ucast set_bits) OR (NOT (g_ptrig nxt) AND ucast cleared_bits)))"

definition gpio_device_clock :: "gpio_world \<Rightarrow> gpio_world" where
  "gpio_device_clock w =
     (let g = gw_gpio w; cur = curr_regs g; nxt = next_regs g;
          nxt = nxt\<lparr>g_in := g_in nxt AND NOT (g_oe nxt)\<rparr>;
          nxt = nxt\<lparr>g_out := (g_out nxt AND NOT (g_aux nxt)) OR (auxiliary_inputs g AND g_aux nxt)\<rparr>;
          nxt = nxt\<lparr>g_out := g_out nxt AND g_oe nxt\<rparr>;
          w = (if g_out nxt \<noteq> g_out cur \<and> base_vapi_id g \<noteq> 0
               then w\<lparr>gw_sent := gw_sent w @ [(base_vapi_id g + ucast GPIO_VAPI_DATA, g_out nxt)]\<rparr> else w);
          bits = ucast (relevant_bits cur nxt) AND g_inte nxt;
          raised = (g_in nxt \<noteq> g_in cur \<and> has (g_ctrl nxt) RGPIO_CTRL_INTE \<and> bits \<noteq> 0);
          nxt = (if raised then nxt\<lparr>g_ctrl := g_ctrl nxt OR RGPIO_CTRL_INTS, g_ints := g_ints nxt OR bits\<rparr> else nxt);
          w = (if raised then add_gpio_job Gpio_do_int w else w)
      in w\<lparr>gw_gpio := g\<lparr>curr_regs := nxt, next_regs := nxt\<rparr>\<rparr>)"

text \<open>The job of the system clock.\<close>

definition gpio_clock :: "gpio_world \<Rightarrow> gpio_world" where
  "gpio_clock w =
     add_gpio_job Gpio_clock
       (if \<not> has (g_ctrl (curr_regs (gw_gpio w))) RGPIO_CTRL_ECLK then gpio_device_clock w else w)"

definition gpio_external_clock :: "u64 \<Rightarrow> gpio_world \<Rightarrow> gpio_world" where
  "gpio_external_clock v w =
     (let ctrl = g_ctrl (curr_regs (gw_gpio w));
          use_external_clock = (ctrl AND RGPIO_CTRL_ECLK = RGPIO_CTRL_ECLK);
          negative_edge = (of_bool (ctrl AND RGPIO_CTRL_NEC = RGPIO_CTRL_NEC) :: int);
          v = (of_bool (v \<noteq> 0) :: int);
          w = upd_next (\<lambda>n. n\<lparr>external_clock := v\<rparr>) w
      in if use_external_clock
            \<and> external_clock (next_regs (gw_gpio w)) \<noteq> external_clock (curr_regs (gw_gpio w)) \<and> v \<noteq> negative_edge
            \<and> has ctrl RGPIO_CTRL_ECLK
         then gpio_device_clock w else w)"

section \<open>Accesses\<close>

definition gpio_read32 :: "u32 \<Rightarrow> gpio_device \<Rightarrow> u32" where
  "gpio_read32 addr g =
     (let c = curr_regs g
      in if addr = RGPIO_IN then ucast (g_in c OR g_out c)
         else if addr = RGPIO_OUT then ucast (g_out c)
         else if addr = RGPIO_OE then ucast (g_oe c)
         else if addr = RGPIO_INTE then ucast (g_inte c)
         else if addr = RGPIO_PTRIG then ucast (g_ptrig c)
         else if addr = RGPIO_AUX then ucast (g_aux c)
         else if addr = RGPIO_CTRL then ucast (g_ctrl c)
         else if addr = RGPIO_INTS then ucast (g_ints c)
         else 0)"

definition gpio_write32 :: "u32 \<Rightarrow> u32 \<Rightarrow> gpio_world \<Rightarrow> gpio_world res" where
  "gpio_write32 addr v w =
     (if addr = RGPIO_OUT then Inr (upd_next (\<lambda>n. n\<lparr>g_out := ucast v\<rparr>) w)
      else if addr = RGPIO_OE then Inr (upd_next (\<lambda>n. n\<lparr>g_oe := ucast v\<rparr>) w)
      else if addr = RGPIO_INTE then Inr (upd_next (\<lambda>n. n\<lparr>g_inte := ucast v\<rparr>) w)
      else if addr = RGPIO_PTRIG then Inr (upd_next (\<lambda>n. n\<lparr>g_ptrig := ucast v\<rparr>) w)
      else if addr = RGPIO_AUX then Inr (upd_next (\<lambda>n. n\<lparr>g_aux := ucast v\<rparr>) w)
      else if addr = RGPIO_CTRL then Inr (upd_next (\<lambda>n. n\<lparr>g_ctrl := ucast v\<rparr>) w)
      else if addr = RGPIO_INTS
      then bind_res
             (if g_ints (next_regs (gw_gpio w)) \<noteq> 0 \<and> v = 0
              then bind_res (clear_interrupt (g_irq (gw_gpio w)) (gw_machine w)) (\<lambda>m. Inr (w\<lparr>gw_machine := m\<rparr>))
              else Inr w)
             (\<lambda>w. Inr (upd_next (\<lambda>n. n\<lparr>g_ints := ucast v\<rparr>) w))
      else Inr w)"

text \<open>A value from the outside.\<close>

definition gpio_vapi_read :: "u64 \<Rightarrow> u64 \<Rightarrow> gpio_world \<Rightarrow> gpio_world" where
  "gpio_vapi_read vid data w =
     (let which = (ucast (vid - base_vapi_id (gw_gpio w)) :: u32)
      in if which = GPIO_VAPI_DATA then upd_next (\<lambda>n. n\<lparr>g_in := data\<rparr>) w
         else if which = GPIO_VAPI_AUX then w\<lparr>gw_gpio := (gw_gpio w)\<lparr>auxiliary_inputs := data\<rparr>\<rparr>
         else if which = GPIO_VAPI_RGPIO_OE then upd_next (\<lambda>n. n\<lparr>g_oe := data\<rparr>) w
         else if which = GPIO_VAPI_RGPIO_INTE then upd_next (\<lambda>n. n\<lparr>g_inte := data\<rparr>) w
         else if which = GPIO_VAPI_RGPIO_PTRIG then upd_next (\<lambda>n. n\<lparr>g_ptrig := data\<rparr>) w
         else if which = GPIO_VAPI_RGPIO_AUX then upd_next (\<lambda>n. n\<lparr>g_aux := data\<rparr>) w
         else if which = GPIO_VAPI_RGPIO_CTRL then upd_next (\<lambda>n. n\<lparr>g_ctrl := data\<rparr>) w
         else if which = GPIO_VAPI_CLOCK then gpio_external_clock data w
         else w)"

text \<open>The job that reports the interrupt.\<close>

definition gpio_do_int :: "gpio_world \<Rightarrow> gpio_world res" where
  "gpio_do_int w = bind_res (report_interrupt (g_irq (gw_gpio w)) (gw_machine w)) (\<lambda>m. Inr (w\<lparr>gw_machine := m\<rparr>))"

text \<open>The reset; the registration of the VAPI handlers leaves no state here.\<close>

definition gpio_reset :: "gpio_world \<Rightarrow> gpio_world" where
  "gpio_reset w = add_gpio_job Gpio_clock w"

section \<open>Configuration\<close>

definition gpio_baseaddr :: "u32 \<Rightarrow> gpio_device \<Rightarrow> gpio_device" where
  "gpio_baseaddr val g = g\<lparr>g_baseaddr := val\<rparr>"

definition gpio_irq :: "int \<Rightarrow> gpio_device \<Rightarrow> gpio_device" where
  "gpio_irq val g = g\<lparr>g_irq := val\<rparr>"

definition gpio_base_vapi_id :: "int \<Rightarrow> gpio_device \<Rightarrow> gpio_device" where
  "gpio_base_vapi_id val g = g\<lparr>base_vapi_id := word_of_int val\<rparr>"

definition gpio_enabled :: "int \<Rightarrow> gpio_device \<Rightarrow> gpio_device" where
  "gpio_enabled val g = g\<lparr>g_enabled := val \<noteq> 0\<rparr>"

definition zero_gpio_regs :: gpio_regs where
  "zero_gpio_regs = \<lparr>g_in = 0, g_out = 0, g_oe = 0, g_inte = 0, g_ptrig = 0, g_aux = 0, g_ctrl = 0, g_ints = 0, external_clock = 0\<rparr>"

definition gpio_sec_start :: gpio_device where
  "gpio_sec_start = \<lparr>g_enabled = True, g_baseaddr = 0, g_irq = 0, base_vapi_id = 0, auxiliary_inputs = 0,
     curr_regs = zero_gpio_regs, next_regs = zero_gpio_regs\<rparr>"

section \<open>What a clock does\<close>

text \<open>The value of input pin \<open>k\<close> after the clock, and the event on it that its trigger bit selects.\<close>

definition pin_in :: "gpio_regs \<Rightarrow> nat \<Rightarrow> bool" where
  "pin_in nxt k \<longleftrightarrow> bit (g_in nxt) k \<and> \<not> bit (g_oe nxt) k"

definition pin_event :: "gpio_regs \<Rightarrow> gpio_regs \<Rightarrow> nat \<Rightarrow> bool" where
  "pin_event cur nxt k \<longleftrightarrow> k < 32 \<and> bit (g_inte nxt) k \<and>
     (if bit (g_ptrig nxt) k then \<not> bit (g_in cur) k \<and> pin_in nxt k else bit (g_in cur) k \<and> \<not> pin_in nxt k)"

lemma bit_ucast_64: "bit (ucast (w :: u32) :: u64) k \<longleftrightarrow> bit w k"
  by (auto simp: bit_simps dest: bit_imp_le_length)

lemma bit_ucast_32: "bit (ucast (w :: u64) :: u32) k \<longleftrightarrow> k < 32 \<and> bit w k"
  by (auto simp: bit_simps)

lemma relevant_pins:
  "bit (ucast (relevant_bits cur (nxt\<lparr>g_in := g_in nxt AND NOT (g_oe nxt)\<rparr>)) AND g_inte nxt :: u64) k \<longleftrightarrow> pin_event cur nxt k"
  unfolding relevant_bits_def Let_def pin_event_def pin_in_def
  by (auto simp: bit_and_iff bit_or_iff bit_xor_iff bit_not_iff bit_ucast_64 bit_ucast_32 dest: bit_imp_le_length)

lemma no_pin_event_same_inputs:
  assumes "g_in nxt AND NOT (g_oe nxt) = g_in cur"
  shows "\<not> pin_event cur nxt k"
proof -
  have "bit (g_in cur) k \<longleftrightarrow> bit (g_in nxt) k \<and> \<not> bit (g_oe nxt) k" if "k < 32"
    using that by (simp add: bit_simps flip: assms)
  then show ?thesis by (auto simp: pin_event_def pin_in_def split: if_splits)
qed

lemma relevant_bits_inputs_only:
  "relevant_bits cur (nxt\<lparr>g_out := x\<rparr>) = relevant_bits cur nxt"
  by (simp add: relevant_bits_def)

lemma word_zero_iff: "(w :: u64) = 0 \<longleftrightarrow> (\<forall>k. \<not> bit w k)"
  using bit_eqI[of w 0] by auto

section \<open>The external clock\<close>

text \<open>What can reach the device from outside.\<close>

datatype gpio_event = Clock_job | Clock_pin u64 | Write_reg u32 u32 | Vapi_value u64 u64

definition gpio_event_step :: "gpio_event \<Rightarrow> gpio_world \<Rightarrow> gpio_world res" where
  "gpio_event_step e w = (case e of Clock_job \<Rightarrow> Inr (gpio_clock w) | Clock_pin v \<Rightarrow> Inr (gpio_external_clock v w)
     | Write_reg a v \<Rightarrow> gpio_write32 a v w | Vapi_value i d \<Rightarrow> Inr (gpio_vapi_read i d w))"

fun gpio_events :: "gpio_event list \<Rightarrow> gpio_world \<Rightarrow> gpio_world res" where
  "gpio_events [] w = Inr w"
| "gpio_events (e # es) w = bind_res (gpio_event_step e w) (gpio_events es)"

text \<open>The clock pin was last seen at the level its active edge leads to.\<close>

definition clock_at_active_level :: "gpio_regs \<Rightarrow> bool" where
  "clock_at_active_level c \<longleftrightarrow>
     g_ctrl c AND RGPIO_CTRL_ECLK = RGPIO_CTRL_ECLK \<and> external_clock c = of_bool (g_ctrl c AND RGPIO_CTRL_NEC \<noteq> RGPIO_CTRL_NEC)"

lemma upd_next_curr [simp]: "curr_regs (gw_gpio (upd_next f w)) = curr_regs (gw_gpio w)"
  by (simp add: upd_next_def)

lemma upd_next_next [simp]: "next_regs (gw_gpio (upd_next f w)) = f (next_regs (gw_gpio w))"
  by (simp add: upd_next_def)

lemma add_gpio_job_gpio [simp]: "gw_gpio (add_gpio_job j w) = gw_gpio w"
  by (simp add: add_gpio_job_def)

lemma eclk_set: "g_ctrl c AND RGPIO_CTRL_ECLK = RGPIO_CTRL_ECLK \<Longrightarrow> has (g_ctrl c) RGPIO_CTRL_ECLK"
  by (simp add: has_def)

lemma gpio_external_clock_stuck:
  assumes "clock_at_active_level (curr_regs (gw_gpio w))"
  shows "curr_regs (gw_gpio (gpio_external_clock v w)) = curr_regs (gw_gpio w)"
  using assms by (auto simp: clock_at_active_level_def gpio_external_clock_def Let_def)

lemma gpio_event_stuck:
  assumes "clock_at_active_level (curr_regs (gw_gpio w))" and "gpio_event_step e w = Inr w'"
  shows "curr_regs (gw_gpio w') = curr_regs (gw_gpio w)"
proof (cases e)
  case Clock_job
  with assms show ?thesis
    by (auto simp: gpio_event_step_def gpio_clock_def clock_at_active_level_def dest: eclk_set)
next
  case (Clock_pin v)
  with assms show ?thesis using gpio_external_clock_stuck by (auto simp: gpio_event_step_def)
next
  case (Write_reg a v)
  with assms show ?thesis
    by (auto simp: gpio_event_step_def gpio_write32_def bind_res_eq_Inr split: if_splits)
next
  case (Vapi_value i d)
  with assms show ?thesis using gpio_external_clock_stuck
    by (auto simp: gpio_event_step_def gpio_vapi_read_def Let_def split: if_splits)
qed

lemma gpio_events_stuck:
  assumes "clock_at_active_level (curr_regs (gw_gpio w))" and "gpio_events es w = Inr w'"
  shows "curr_regs (gw_gpio w') = curr_regs (gw_gpio w)"
  using assms
proof (induction es arbitrary: w)
  case (Cons e es)
  from Cons.prems obtain u where u: "gpio_event_step e w = Inr u" and es: "gpio_events es u = Inr w'"
    by (auto simp: bind_res_eq_Inr)
  from gpio_event_stuck[OF Cons.prems(1) u] Cons.IH[OF _ es] Cons.prems(1) show ?case by simp
qed simp

section \<open>Properties\<close>

lemma relevant_bits_next:
  "(ucast (relevant_bits cur (nxt\<lparr>g_in := i, g_out := x\<rparr>)) :: u64) = ucast (relevant_bits cur (nxt\<lparr>g_in := i\<rparr>))"
  by (simp add: relevant_bits_def)

lemma raised_iff_pin_event:
  "(g_in nxt AND NOT (g_oe nxt) \<noteq> g_in cur \<and> has (g_ctrl nxt) RGPIO_CTRL_INTE
     \<and> ucast (relevant_bits cur (nxt\<lparr>g_in := g_in nxt AND NOT (g_oe nxt)\<rparr>)) AND g_inte nxt \<noteq> 0)
   \<longleftrightarrow> has (g_ctrl nxt) RGPIO_CTRL_INTE \<and> (\<exists>k. pin_event cur nxt k)"
  using no_pin_event_same_inputs by (auto simp: word_zero_iff relevant_pins)

definition clock_raises :: "gpio_regs \<Rightarrow> gpio_regs \<Rightarrow> bool" where
  "clock_raises cur nxt \<longleftrightarrow> has (g_ctrl nxt) RGPIO_CTRL_INTE \<and> (\<exists>k. pin_event cur nxt k)"

definition clocked_regs :: "u64 \<Rightarrow> gpio_regs \<Rightarrow> gpio_regs \<Rightarrow> gpio_regs" where
  "clocked_regs aux cur nxt =
     (let i = g_in nxt AND NOT (g_oe nxt);
          n = nxt\<lparr>g_in := i, g_out := ((g_out nxt AND NOT (g_aux nxt)) OR (aux AND g_aux nxt)) AND g_oe nxt\<rparr>
      in if clock_raises cur nxt
         then n\<lparr>g_ctrl := g_ctrl nxt OR RGPIO_CTRL_INTS,
                g_ints := g_ints nxt OR (ucast (relevant_bits cur (nxt\<lparr>g_in := i\<rparr>)) AND g_inte nxt)\<rparr>
         else n)"

lemma gpio_device_clock_regs:
  "curr_regs (gw_gpio (gpio_device_clock w)) =
     clocked_regs (auxiliary_inputs (gw_gpio w)) (curr_regs (gw_gpio w)) (next_regs (gw_gpio w))"
  "next_regs (gw_gpio (gpio_device_clock w)) = curr_regs (gw_gpio (gpio_device_clock w))"
  "gw_jobs (gpio_device_clock w) =
     gw_jobs w @ (if clock_raises (curr_regs (gw_gpio w)) (next_regs (gw_gpio w)) then [Gpio_do_int] else [])"
  by (simp_all add: gpio_device_clock_def Let_def relevant_bits_next raised_iff_pin_event clocked_regs_def
        clock_raises_def[symmetric] add_gpio_job_def)

text \<open>
  C33: One clock of the GPIO device, pin by pin. After it input pin \<open>k\<close> reads the driven value if it is not an output, the
  output pin is driven only where it is enabled, with the auxiliary input where that is selected; an interrupt status bit
  is set exactly if it was, or the interrupt is enabled and the edge the trigger bit selects happened on that (enabled, low
  32) pin; the interrupt job is requested once if any such edge happened, and both copies of the registers agree.
\<close>

theorem gpio_clock_pins:
  "let cur = curr_regs (gw_gpio w); nxt = next_regs (gw_gpio w); w' = gpio_device_clock w; r = curr_regs (gw_gpio w')
   in (bit (g_in r) k \<longleftrightarrow> pin_in nxt k)
    \<and> (bit (g_out r) k \<longleftrightarrow> bit (g_oe nxt) k \<and> bit (if bit (g_aux nxt) k then auxiliary_inputs (gw_gpio w) else g_out nxt) k)
    \<and> (bit (g_ints r) k \<longleftrightarrow> bit (g_ints nxt) k \<or> has (g_ctrl nxt) RGPIO_CTRL_INTE \<and> pin_event cur nxt k)
    \<and> gw_jobs w' = gw_jobs w @ (if has (g_ctrl nxt) RGPIO_CTRL_INTE \<and> (\<exists>k. pin_event cur nxt k) then [Gpio_do_int] else [])
    \<and> next_regs (gw_gpio w') = r"
proof -
  define cur nxt w' r where defs: "cur = curr_regs (gw_gpio w)" "nxt = next_regs (gw_gpio w)"
    "w' = gpio_device_clock w" "r = curr_regs (gw_gpio w')"
  have r: "r = clocked_regs (auxiliary_inputs (gw_gpio w)) cur nxt"
    unfolding defs by (rule gpio_device_clock_regs(1))
  have ins: "bit (g_in r) k \<longleftrightarrow> pin_in nxt k"
    by (auto simp: r clocked_regs_def Let_def pin_in_def bit_simps dest: bit_imp_le_length)
  have outs: "bit (g_out r) k \<longleftrightarrow> bit (g_oe nxt) k \<and> bit (if bit (g_aux nxt) k then auxiliary_inputs (gw_gpio w) else g_out nxt) k"
    by (auto simp: r clocked_regs_def Let_def bit_simps dest: bit_imp_le_length)
  have ints: "bit (g_ints r) k \<longleftrightarrow> bit (g_ints nxt) k \<or> has (g_ctrl nxt) RGPIO_CTRL_INTE \<and> pin_event cur nxt k"
    by (auto simp: r clocked_regs_def Let_def bit_or_iff relevant_pins clock_raises_def)
  show ?thesis
    using ins outs ints gpio_device_clock_regs(2,3)[of w]
    unfolding Let_def defs[symmetric] by (simp add: defs clock_raises_def)
qed

text \<open>
  C34: With the external clock selected the device is clocked once and never again. After the first active edge of the
  clock pin that clocks it, no sequence of clock jobs, values on the clock pin, register writes and values from the outside
  changes a visible register: only a clock copies the pin's level into the current registers, so the inactive level that
  would arm the next edge is never recorded.
\<close>

theorem gpio_external_clock_once:
  assumes "g_ctrl (curr_regs (gw_gpio w)) AND RGPIO_CTRL_ECLK = RGPIO_CTRL_ECLK"
    and "g_ctrl (next_regs (gw_gpio w)) = g_ctrl (curr_regs (gw_gpio w))"
    and "external_clock (curr_regs (gw_gpio w)) = of_bool (g_ctrl (curr_regs (gw_gpio w)) AND RGPIO_CTRL_NEC = RGPIO_CTRL_NEC)"
    and "(v \<noteq> 0) \<longleftrightarrow> g_ctrl (curr_regs (gw_gpio w)) AND RGPIO_CTRL_NEC \<noteq> RGPIO_CTRL_NEC"
    and "w' = gpio_external_clock v w" and "gpio_events es w' = Inr w''"
  shows "w' = gpio_device_clock (upd_next (\<lambda>n. n\<lparr>external_clock := of_bool (v \<noteq> 0)\<rparr>) w)
    \<and> curr_regs (gw_gpio w'') = curr_regs (gw_gpio w')"
proof -
  define u where "u = upd_next (\<lambda>n. n\<lparr>external_clock := of_bool (v \<noteq> 0)\<rparr>) w"
  have w': "w' = gpio_device_clock u"
    using assms(1,3,4,5) by (auto simp: gpio_external_clock_def Let_def u_def eclk_set)
  have ctrl: "g_ctrl (curr_regs (gw_gpio w')) AND m = g_ctrl (curr_regs (gw_gpio w)) AND m" if "RGPIO_CTRL_INTS AND m = 0" for m
    using that assms(2) by (simp add: w' gpio_device_clock_regs clocked_regs_def Let_def u_def word_ao_dist)
  have "external_clock (curr_regs (gw_gpio w')) = of_bool (v \<noteq> 0)"
    by (simp add: w' gpio_device_clock_regs clocked_regs_def Let_def u_def)
  then have "clock_at_active_level (curr_regs (gw_gpio w'))"
    using assms(1,4) ctrl by (simp add: clock_at_active_level_def)
  from gpio_events_stuck[OF this assms(6)] w' show ?thesis by (simp add: u_def)
qed

definition external_example :: "machine \<Rightarrow> gpio_world" where
  "external_example m = \<lparr>gw_gpio = gpio_sec_start\<lparr>curr_regs := zero_gpio_regs\<lparr>g_ctrl := 1\<rparr>, next_regs := zero_gpio_regs\<lparr>g_ctrl := 1\<rparr>\<rparr>,
     gw_machine = m, gw_jobs = [], gw_sent = []\<rparr>"

theorem gpio_external_clock_once_witness:
  "\<exists>w'. gpio_events [Clock_pin 0, Write_reg 8 0xff, Vapi_value 0 0x5a, Clock_pin 1] (gpio_external_clock 1 (external_example pic_machine)) = Inr w'
     \<and> curr_regs (gw_gpio w') = curr_regs (gw_gpio (gpio_external_clock 1 (external_example pic_machine)))"
proof -
  let ?w = "external_example pic_machine"
  let ?es = "[Clock_pin 0, Write_reg 8 0xff, Vapi_value 0 0x5a, Clock_pin 1]"
  obtain w' where w': "gpio_events ?es (gpio_external_clock 1 ?w) = Inr w'"
    by (simp add: gpio_event_step_def gpio_write32_def)
  from gpio_external_clock_once[where w = ?w and v = 1, OF _ _ _ _ refl w'] w' show ?thesis
    by (simp add: external_example_def gpio_sec_start_def zero_gpio_regs_def)
qed

end
