(* ===== verification/Dma.thy ===== *)
theory Dma
  imports Access Units
begin

text \<open>
  The DMA controller (\<open>peripheral/dma.c\<close>, \<open>dma-defs.h\<close>, the macros of \<open>fields.h\<close>): channels that copy one word of the
  simulated memory per job of the scheduler. The memory is that of the machine, reached with the accesses of the simulator;
  the jobs requested with \<open>SCHED_ADD\<close>, all with delay 1, are the list of their channels. A channel's pointer to its
  controller is the controller of the state. \<open>unsigned long\<close> has 64 bits.
\<close>

section \<open>Fields of registers\<close>

definition TEST_FLAG :: "u64 \<Rightarrow> nat \<Rightarrow> bool" where
  "TEST_FLAG r off \<longleftrightarrow> drop_bit off r AND 1 \<noteq> 0"

definition SET_FLAG :: "nat \<Rightarrow> u64 \<Rightarrow> u64" where
  "SET_FLAG off r = r OR push_bit off 1"

definition CLEAR_FLAG :: "nat \<Rightarrow> u64 \<Rightarrow> u64" where
  "CLEAR_FLAG off r = r AND NOT (push_bit off 1)"

definition ASSIGN_FLAG :: "nat \<Rightarrow> bool \<Rightarrow> u64 \<Rightarrow> u64" where
  "ASSIGN_FLAG off b r = (if b then r OR push_bit off 1 else r AND NOT (push_bit off 1))"

definition GET_FIELD :: "u64 \<Rightarrow> nat \<Rightarrow> nat \<Rightarrow> u64" where
  "GET_FIELD r off width = drop_bit off r AND NOT (push_bit width (NOT 0))"

definition SET_FIELD :: "nat \<Rightarrow> nat \<Rightarrow> u64 \<Rightarrow> u64 \<Rightarrow> u64" where
  "SET_FIELD off width v r = (r AND NOT (push_bit off (NOT (push_bit width (NOT 0))))) OR push_bit off v"

abbreviation (input) DMA_NUM_CHANNELS :: nat where "DMA_NUM_CHANNELS \<equiv> 31"
abbreviation (input) DMA_CSR :: u32 where "DMA_CSR \<equiv> 0x00"
abbreviation (input) DMA_INT_MSK_A :: u32 where "DMA_INT_MSK_A \<equiv> 0x04"
abbreviation (input) DMA_INT_MSK_B :: u32 where "DMA_INT_MSK_B \<equiv> 0x08"
abbreviation (input) DMA_INT_SRC_A :: u32 where "DMA_INT_SRC_A \<equiv> 0x0C"
abbreviation (input) DMA_INT_SRC_B :: u32 where "DMA_INT_SRC_B \<equiv> 0x10"
abbreviation (input) DMA_CH_BASE :: u32 where "DMA_CH_BASE \<equiv> 0x20"
abbreviation (input) DMA_CH_SIZE :: u32 where "DMA_CH_SIZE \<equiv> 0x20"
abbreviation (input) DMA_CH_CSR :: u32 where "DMA_CH_CSR \<equiv> 0x00"
abbreviation (input) DMA_CH_SZ :: u32 where "DMA_CH_SZ \<equiv> 0x04"
abbreviation (input) DMA_CH_A0 :: u32 where "DMA_CH_A0 \<equiv> 0x08"
abbreviation (input) DMA_CH_AM0 :: u32 where "DMA_CH_AM0 \<equiv> 0x0C"
abbreviation (input) DMA_CH_A1 :: u32 where "DMA_CH_A1 \<equiv> 0x10"
abbreviation (input) DMA_CH_AM1 :: u32 where "DMA_CH_AM1 \<equiv> 0x14"
abbreviation (input) DMA_CH_DESC :: u32 where "DMA_CH_DESC \<equiv> 0x18"
abbreviation (input) DMA_CH_SWPTR :: u32 where "DMA_CH_SWPTR \<equiv> 0x1C"

abbreviation (input) CH_CSR_CH_EN :: nat where "CH_CSR_CH_EN \<equiv> 0"
abbreviation (input) CH_CSR_DST_SEL :: nat where "CH_CSR_DST_SEL \<equiv> 1"
abbreviation (input) CH_CSR_SRC_SEL :: nat where "CH_CSR_SRC_SEL \<equiv> 2"
abbreviation (input) CH_CSR_INC_DST :: nat where "CH_CSR_INC_DST \<equiv> 3"
abbreviation (input) CH_CSR_INC_SRC :: nat where "CH_CSR_INC_SRC \<equiv> 4"
abbreviation (input) CH_CSR_MODE :: nat where "CH_CSR_MODE \<equiv> 5"
abbreviation (input) CH_CSR_ARS :: nat where "CH_CSR_ARS \<equiv> 6"
abbreviation (input) CH_CSR_USE_ED :: nat where "CH_CSR_USE_ED \<equiv> 7"
abbreviation (input) CH_CSR_SZ_WB :: nat where "CH_CSR_SZ_WB \<equiv> 8"
abbreviation (input) CH_CSR_STOP :: nat where "CH_CSR_STOP \<equiv> 9"
abbreviation (input) CH_CSR_BUSY :: nat where "CH_CSR_BUSY \<equiv> 10"
abbreviation (input) CH_CSR_DONE :: nat where "CH_CSR_DONE \<equiv> 11"
abbreviation (input) CH_CSR_ERR :: nat where "CH_CSR_ERR \<equiv> 12"
abbreviation (input) CH_CSR_INE_ERR :: nat where "CH_CSR_INE_ERR \<equiv> 17"
abbreviation (input) CH_CSR_INE_DONE :: nat where "CH_CSR_INE_DONE \<equiv> 18"
abbreviation (input) CH_CSR_INT_ERR :: nat where "CH_CSR_INT_ERR \<equiv> 20"
abbreviation (input) CH_CSR_INT_DONE :: nat where "CH_CSR_INT_DONE \<equiv> 21"
abbreviation (input) CH_CSR_INT_CHUNK_DONE :: nat where "CH_CSR_INT_CHUNK_DONE \<equiv> 22"
abbreviation (input) CH_CSR_WRITE_MASK :: u64 where "CH_CSR_WRITE_MASK \<equiv> 0x000FE3FF"
abbreviation (input) CH_SZ_TOT_SZ_OFFSET :: nat where "CH_SZ_TOT_SZ_OFFSET \<equiv> 0"
abbreviation (input) CH_SZ_TOT_SZ_WIDTH :: nat where "CH_SZ_TOT_SZ_WIDTH \<equiv> 12"
abbreviation (input) CH_SZ_CHK_SZ_OFFSET :: nat where "CH_SZ_CHK_SZ_OFFSET \<equiv> 16"
abbreviation (input) CH_SZ_CHK_SZ_WIDTH :: nat where "CH_SZ_CHK_SZ_WIDTH \<equiv> 9"

abbreviation (input) DMA_DESC_CSR :: u64 where "DMA_DESC_CSR \<equiv> 0x00"
abbreviation (input) DMA_DESC_ADR0 :: u64 where "DMA_DESC_ADR0 \<equiv> 0x04"
abbreviation (input) DMA_DESC_ADR1 :: u64 where "DMA_DESC_ADR1 \<equiv> 0x08"
abbreviation (input) DMA_DESC_NEXT :: u64 where "DMA_DESC_NEXT \<equiv> 0x0C"
abbreviation (input) DESC_CSR_EOL :: nat where "DESC_CSR_EOL \<equiv> 20"
abbreviation (input) DESC_CSR_INC_SRC :: nat where "DESC_CSR_INC_SRC \<equiv> 19"
abbreviation (input) DESC_CSR_INC_DST :: nat where "DESC_CSR_INC_DST \<equiv> 18"
abbreviation (input) DESC_CSR_SRC_SEL :: nat where "DESC_CSR_SRC_SEL \<equiv> 17"
abbreviation (input) DESC_CSR_DST_SEL :: nat where "DESC_CSR_DST_SEL \<equiv> 16"
abbreviation (input) DESC_CSR_TOT_SZ_OFFSET :: nat where "DESC_CSR_TOT_SZ_OFFSET \<equiv> 0"
abbreviation (input) DESC_CSR_TOT_SZ_WIDTH :: nat where "DESC_CSR_TOT_SZ_WIDTH \<equiv> 12"

section \<open>State\<close>

record dma_channel =
  channel_number :: nat
  channel_mask :: u64
  referenced :: bool
  load_next_descriptor_when_done :: bool
  current_descriptor :: u64
  ch_source :: u32
  ch_destination :: u32
  source_mask :: u32
  destination_mask :: u32
  chunk_size :: u64
  total_size :: u64
  words_transferred :: u64
  ch_csr :: u64
  ch_sz :: u64
  ch_a0 :: u64
  ch_am0 :: u64
  ch_a1 :: u64
  ch_am1 :: u64
  ch_desc :: u64
  ch_swptr :: u64
  dma_req_i :: bool
  dma_ack_o :: bool
  dma_nd_i :: bool

record dma_controller =
  dm_enabled :: bool
  dm_baseaddr :: u32
  dm_irq :: int
  dm_vapi_id :: int
  dm_csr :: u64
  int_msk_a :: u64
  int_msk_b :: u64
  int_src_a :: u64
  int_src_b :: u64
  dm_ch :: "nat \<Rightarrow> dma_channel"

record dma_world =
  dw_dma :: dma_controller
  dw_machine :: machine
  dw_jobs :: "nat list"

abbreviation chan :: "nat \<Rightarrow> dma_world \<Rightarrow> dma_channel" where
  "chan k w \<equiv> dm_ch (dw_dma w) k"

definition upd_ch :: "nat \<Rightarrow> (dma_channel \<Rightarrow> dma_channel) \<Rightarrow> dma_world \<Rightarrow> dma_world" where
  "upd_ch k f w = w\<lparr>dw_dma := (dw_dma w)\<lparr>dm_ch := (dm_ch (dw_dma w))(k := f (chan k w))\<rparr>\<rparr>"

definition upd_csr :: "nat \<Rightarrow> (u64 \<Rightarrow> u64) \<Rightarrow> dma_world \<Rightarrow> dma_world" where
  "upd_csr k f = upd_ch k (\<lambda>c. c\<lparr>ch_csr := f (ch_csr c)\<rparr>)"

abbreviation csr_flag :: "nat \<Rightarrow> nat \<Rightarrow> dma_world \<Rightarrow> bool" where
  "csr_flag k off w \<equiv> TEST_FLAG (ch_csr (chan k w)) off"

definition upd_dma :: "(dma_controller \<Rightarrow> dma_controller) \<Rightarrow> dma_world \<Rightarrow> dma_world" where
  "upd_dma f w = w\<lparr>dw_dma := f (dw_dma w)\<rparr>"

definition on_machine :: "(machine \<Rightarrow> machine res) \<Rightarrow> dma_world \<Rightarrow> dma_world res" where
  "on_machine f w = bind_res (f (dw_machine w)) (\<lambda>m. Inr (w\<lparr>dw_machine := m\<rparr>))"

text \<open>\<open>SCHED_ADD\<close> and \<open>SCHED_FIND_REMOVE\<close> of the job of a channel.\<close>

definition add_dma_job :: "nat \<Rightarrow> dma_world \<Rightarrow> dma_world" where
  "add_dma_job k w = w\<lparr>dw_jobs := dw_jobs w @ [k]\<rparr>"

definition remove_dma_job :: "nat \<Rightarrow> dma_world \<Rightarrow> dma_world" where
  "remove_dma_job k w = w\<lparr>dw_jobs := remove1 k (dw_jobs w)\<rparr>"

definition direct_read32 :: "u64 \<Rightarrow> dma_world \<Rightarrow> (u64 \<times> dma_world) res" where
  "direct_read32 a w =
     bind_res (eval_direct32 (ucast a) False False (dw_machine w)) (\<lambda>(v, m). Inr (ucast v, w\<lparr>dw_machine := m\<rparr>))"

section \<open>Transfers\<close>

definition CHANNEL_ND_I :: "dma_channel \<Rightarrow> bool" where
  "CHANNEL_ND_I c \<longleftrightarrow> TEST_FLAG (ch_csr c) CH_CSR_MODE \<and> TEST_FLAG (ch_csr c) CH_CSR_USE_ED \<and> dma_nd_i c"

definition masked_increase :: "u64 \<Rightarrow> u32 \<Rightarrow> u32" where
  "masked_increase msk v = ucast ((ucast v AND NOT msk) OR (ucast (v + 4) AND msk))"

definition dma_load_descriptor :: "nat \<Rightarrow> dma_world \<Rightarrow> dma_world res" where
  "dma_load_descriptor k w =
     bind_res (direct_read32 (ch_desc (chan k w) + DMA_DESC_CSR) w) (\<lambda>(desc_csr, w).
       let w = upd_ch k (\<lambda>c. c\<lparr>load_next_descriptor_when_done := \<not> TEST_FLAG desc_csr DESC_CSR_EOL\<rparr>) w;
           w = upd_csr k (ASSIGN_FLAG CH_CSR_INC_SRC (TEST_FLAG desc_csr DESC_CSR_INC_SRC)) w;
           w = upd_csr k (ASSIGN_FLAG CH_CSR_INC_DST (TEST_FLAG desc_csr DESC_CSR_INC_DST)) w;
           w = upd_csr k (ASSIGN_FLAG CH_CSR_SRC_SEL (TEST_FLAG desc_csr DESC_CSR_SRC_SEL)) w;
           w = upd_csr k (ASSIGN_FLAG CH_CSR_DST_SEL (TEST_FLAG desc_csr DESC_CSR_DST_SEL)) w;
           w = upd_ch k (\<lambda>c. c\<lparr>ch_sz := SET_FIELD CH_SZ_TOT_SZ_OFFSET CH_SZ_TOT_SZ_WIDTH
                                 (GET_FIELD desc_csr DESC_CSR_TOT_SZ_OFFSET DESC_CSR_TOT_SZ_WIDTH) (ch_sz c)\<rparr>) w
       in bind_res (direct_read32 (ch_desc (chan k w) + DMA_DESC_ADR0) w) (\<lambda>(a0, w).
          let w = upd_ch k (\<lambda>c. c\<lparr>ch_a0 := a0\<rparr>) w
          in bind_res (direct_read32 (ch_desc (chan k w) + DMA_DESC_ADR1) w) (\<lambda>(a1, w).
             let w = upd_ch k (\<lambda>c. c\<lparr>ch_a1 := a1\<rparr>) w;
                 w = upd_ch k (\<lambda>c. c\<lparr>current_descriptor := ch_desc c\<rparr>) w
             in bind_res (direct_read32 (ch_desc (chan k w) + DMA_DESC_NEXT) w) (\<lambda>(nx, w).
                Inr (upd_ch k (\<lambda>c. c\<lparr>ch_desc := nx\<rparr>) w)))))"

definition init_channel :: "dma_channel \<Rightarrow> dma_channel" where
  "init_channel c =
     (let total = GET_FIELD (ch_sz c) CH_SZ_TOT_SZ_OFFSET CH_SZ_TOT_SZ_WIDTH;
          chunk = GET_FIELD (ch_sz c) CH_SZ_CHK_SZ_OFFSET CH_SZ_CHK_SZ_WIDTH
      in c\<lparr>ch_source := ucast (ch_a0 c), ch_destination := ucast (ch_a1 c),
           source_mask := (if TEST_FLAG (ch_csr c) CH_CSR_INC_SRC then ucast (ch_am0 c) else 0),
           destination_mask := (if TEST_FLAG (ch_csr c) CH_CSR_INC_DST then ucast (ch_am1 c) else 0),
           total_size := total,
           chunk_size := (if chunk = 0 \<or> total < chunk then total else chunk),
           words_transferred := 0\<rparr>)"

definition dma_init_transfer :: "nat \<Rightarrow> dma_world \<Rightarrow> dma_world" where
  "dma_init_transfer k = upd_ch k init_channel"

text \<open>The interrupt at the end of a transfer, and at a stop.\<close>

definition channel_interrupt :: "nat \<Rightarrow> nat \<Rightarrow> nat \<Rightarrow> dma_world \<Rightarrow> dma_world res" where
  "channel_interrupt k enable status w =
     (if csr_flag k enable w \<and> int_msk_a (dw_dma w) AND channel_mask (chan k w) \<noteq> 0
      then let w = upd_csr k (SET_FLAG status) w;
               w = upd_dma (\<lambda>d. d\<lparr>int_src_a := channel_mask (dm_ch d k)\<rparr>) w
           in on_machine (report_interrupt (dm_irq (dw_dma w))) w
      else Inr w)"

definition dma_channel_terminate_transfer :: "nat \<Rightarrow> bool \<Rightarrow> dma_world \<Rightarrow> dma_world res" where
  "dma_channel_terminate_transfer k generate_interrupt w =
     (if load_next_descriptor_when_done (chan k w)
      then bind_res (dma_load_descriptor k w) (\<lambda>w. Inr (add_dma_job k (dma_init_transfer k w)))
      else if csr_flag k CH_CSR_ARS w then Inr (dma_init_transfer k w)
      else
        let w = (if csr_flag k CH_CSR_SZ_WB w \<and> csr_flag k CH_CSR_USE_ED w
                 then upd_ch k (\<lambda>c. c\<lparr>ch_sz := SET_FIELD DESC_CSR_TOT_SZ_OFFSET DESC_CSR_TOT_SZ_WIDTH
                                        (total_size c - words_transferred c) (ch_sz c)\<rparr>) w
                 else w);
            w = upd_csr k (CLEAR_FLAG CH_CSR_CH_EN) w;
            w = upd_csr k (SET_FLAG CH_CSR_DONE) w;
            w = upd_csr k (CLEAR_FLAG CH_CSR_ERR) w;
            w = upd_csr k (CLEAR_FLAG CH_CSR_BUSY) w
        in if generate_interrupt then channel_interrupt k CH_CSR_INE_DONE CH_CSR_INT_DONE w else Inr w)"

text \<open>The first cycle of a transfer; the result says whether the job returns there.\<close>

definition dma_begin_transfer :: "nat \<Rightarrow> dma_world \<Rightarrow> (bool \<times> dma_world) res" where
  "dma_begin_transfer k w =
     (let w = upd_csr k (CLEAR_FLAG CH_CSR_DONE) w;
          w = upd_csr k (CLEAR_FLAG CH_CSR_ERR) w;
          w = upd_csr k (SET_FLAG CH_CSR_BUSY) w
      in bind_res (if csr_flag k CH_CSR_USE_ED w then dma_load_descriptor k w
                   else Inr (upd_ch k (\<lambda>c. c\<lparr>load_next_descriptor_when_done := False\<rparr>) w)) (\<lambda>w.
         let w = dma_init_transfer k w
         in if CHANNEL_ND_I (chan k w)
            then bind_res (dma_channel_terminate_transfer k False w) (\<lambda>w. Inr (True, w))
            else Inr (False, w)))"

definition dma_transfer_word :: "nat \<Rightarrow> dma_world \<Rightarrow> dma_world res" where
  "dma_transfer_word k w =
     bind_res (eval_direct32 (ch_source (chan k w)) False False (dw_machine w)) (\<lambda>(v, m).
     bind_res (set_direct32 (ch_destination (chan k w)) v False False m) (\<lambda>m.
       let w = w\<lparr>dw_machine := m\<rparr>;
           w = upd_ch k (\<lambda>c. c\<lparr>ch_source := masked_increase (ucast (source_mask c)) (ch_source c),
                               ch_destination := masked_increase (ucast (destination_mask c)) (ch_destination c),
                               words_transferred := words_transferred c + 1\<rparr>) w
       in if chunk_size (chan k w) = 0 then Inl Host_undef
          else Inr (upd_ch k (\<lambda>c. c\<lparr>dma_ack_o := (words_transferred c mod chunk_size c = 0)\<rparr>) w)))"

definition dma_channel_clock :: "nat \<Rightarrow> dma_world \<Rightarrow> dma_world res" where
  "dma_channel_clock k w =
     (if csr_flag k CH_CSR_STOP w
      then let w = upd_csr k (CLEAR_FLAG CH_CSR_CH_EN) w;
               w = upd_csr k (CLEAR_FLAG CH_CSR_BUSY) w;
               w = upd_csr k (SET_FLAG CH_CSR_ERR) w
           in channel_interrupt k CH_CSR_INE_ERR CH_CSR_INT_ERR w
      else if csr_flag k CH_CSR_MODE w \<and> \<not> dma_req_i (chan k w) then Inr (add_dma_job k w)
      else
        bind_res (if \<not> csr_flag k CH_CSR_BUSY w then dma_begin_transfer k w else Inr (False, w)) (\<lambda>(returned, w).
          if returned then Inr w
          else bind_res (dma_transfer_word k w) (\<lambda>w.
            if CHANNEL_ND_I (chan k w) then dma_channel_terminate_transfer k False w
            else if total_size (chan k w) \<le> words_transferred (chan k w) then dma_channel_terminate_transfer k True w
            else Inr (add_dma_job k w))))"

section \<open>Registers\<close>

definition dma_read_ch_csr :: "nat \<Rightarrow> dma_world \<Rightarrow> u64 \<times> dma_world" where
  "dma_read_ch_csr k w =
     (ch_csr (chan k w),
      upd_csr k (\<lambda>r. CLEAR_FLAG CH_CSR_ERR (CLEAR_FLAG CH_CSR_INT_ERR (CLEAR_FLAG CH_CSR_INT_DONE
        (CLEAR_FLAG CH_CSR_INT_CHUNK_DONE r)))) w)"

definition dma_read32 :: "u32 \<Rightarrow> dma_world \<Rightarrow> (u32 \<times> dma_world) res" where
  "dma_read32 addr w =
     (let d = dw_dma w
      in if addr < DMA_CH_BASE
         then if addr = DMA_CSR then Inr (ucast (dm_csr d), w)
              else if addr = DMA_INT_MSK_A then Inr (ucast (int_msk_a d), w)
              else if addr = DMA_INT_MSK_B then Inr (ucast (int_msk_b d), w)
              else if addr = DMA_INT_SRC_A
              then bind_res (if int_src_a d \<noteq> 0 then on_machine (clear_interrupt (dm_irq d)) w else Inr w) (\<lambda>w.
                     Inr (ucast (int_src_a d), upd_dma (\<lambda>d. d\<lparr>int_src_a := 0\<rparr>) w))
              else if addr = DMA_INT_SRC_B then Inr (ucast (int_src_b d), w)
              else Inr (0, w)
         else
           let k = unat ((addr - DMA_CH_BASE) div DMA_CH_SIZE);
               addr = (addr - DMA_CH_BASE) mod DMA_CH_SIZE;
               c = chan k w
           in if DMA_NUM_CHANNELS \<le> k then Inl Host_undef
              else if addr = DMA_CH_CSR then (let (v, w) = dma_read_ch_csr k w in Inr (ucast v, w))
              else if addr = DMA_CH_SZ then Inr (ucast (ch_sz c), w)
              else if addr = DMA_CH_A0 then Inr (ucast (ch_a0 c), w)
              else if addr = DMA_CH_AM0 then Inr (ucast (ch_am0 c), w)
              else if addr = DMA_CH_A1 then Inr (ucast (ch_a1 c), w)
              else if addr = DMA_CH_AM1 then Inr (ucast (ch_am1 c), w)
              else if addr = DMA_CH_DESC then Inr (ucast (ch_desc c), w)
              else if addr = DMA_CH_SWPTR then Inr (ucast (ch_swptr c), w)
              else Inr (0, w))"

definition dma_write_ch_csr :: "nat \<Rightarrow> u64 \<Rightarrow> dma_world \<Rightarrow> dma_world" where
  "dma_write_ch_csr k v w =
     upd_csr k (\<lambda>r. (r AND NOT CH_CSR_WRITE_MASK) OR (v AND CH_CSR_WRITE_MASK))
       (if \<not> csr_flag k CH_CSR_CH_EN w \<and> TEST_FLAG v CH_CSR_CH_EN then add_dma_job k w
        else if \<not> TEST_FLAG v CH_CSR_CH_EN then remove_dma_job k w
        else w)"

definition dma_write32 :: "u32 \<Rightarrow> u32 \<Rightarrow> dma_world \<Rightarrow> dma_world res" where
  "dma_write32 addr v w =
     (if addr < DMA_CH_BASE
      then if addr = DMA_INT_MSK_A then Inr (upd_dma (\<lambda>d. d\<lparr>int_msk_a := ucast v\<rparr>) w)
           else if addr = DMA_INT_MSK_B then Inr (upd_dma (\<lambda>d. d\<lparr>int_msk_b := ucast v\<rparr>) w)
           else if addr = DMA_INT_SRC_A then Inr (upd_dma (\<lambda>d. d\<lparr>int_src_a := ucast v\<rparr>) w)
           else if addr = DMA_INT_SRC_B then Inr (upd_dma (\<lambda>d. d\<lparr>int_src_b := ucast v\<rparr>) w)
           else Inr w
      else
        let k = unat ((addr - DMA_CH_BASE) div DMA_CH_SIZE);
            addr = (addr - DMA_CH_BASE) mod DMA_CH_SIZE;
            set = (\<lambda>f. Inr (upd_ch k f (upd_ch k (\<lambda>c. c\<lparr>referenced := True\<rparr>) w)))
        in if DMA_NUM_CHANNELS \<le> k then Inl Host_undef
           else if addr = DMA_CSR then Inr (dma_write_ch_csr k (ucast v) (upd_ch k (\<lambda>c. c\<lparr>referenced := True\<rparr>) w))
           else if addr = DMA_CH_SZ then set (\<lambda>c. c\<lparr>ch_sz := ucast v\<rparr>)
           else if addr = DMA_CH_A0 then set (\<lambda>c. c\<lparr>ch_a0 := ucast v\<rparr>)
           else if addr = DMA_CH_AM0 then set (\<lambda>c. c\<lparr>ch_am0 := ucast v\<rparr>)
           else if addr = DMA_CH_A1 then set (\<lambda>c. c\<lparr>ch_a1 := ucast v\<rparr>)
           else if addr = DMA_CH_AM1 then set (\<lambda>c. c\<lparr>ch_am1 := ucast v\<rparr>)
           else if addr = DMA_CH_DESC then set (\<lambda>c. c\<lparr>ch_desc := ucast v\<rparr>)
           else if addr = DMA_CH_SWPTR then set (\<lambda>c. c\<lparr>ch_swptr := ucast v\<rparr>)
           else set (\<lambda>c. c))"

section \<open>Reset, signals and configuration\<close>

definition reset_channel :: "nat \<Rightarrow> dma_channel" where
  "reset_channel k =
     \<lparr>channel_number = k, channel_mask = push_bit k 1, referenced = False, load_next_descriptor_when_done = False,
      current_descriptor = 0, ch_source = 0, ch_destination = 0, source_mask = 0, destination_mask = 0, chunk_size = 0,
      total_size = 0, words_transferred = 0, ch_csr = 0, ch_sz = 0, ch_a0 = 0, ch_am0 = 0xFFFFFFFC, ch_a1 = 0,
      ch_am1 = 0xFFFFFFFC, ch_desc = 0, ch_swptr = 0, dma_req_i = False, dma_ack_o = False, dma_nd_i = False\<rparr>"

definition dma_reset :: "dma_world \<Rightarrow> dma_world" where
  "dma_reset = upd_dma (\<lambda>d. d\<lparr>dm_ch := (\<lambda>k. if k < DMA_NUM_CHANNELS then reset_channel k else dm_ch d k),
     dm_csr := 0, int_msk_a := 0, int_msk_b := 0, int_src_a := 0, int_src_b := 0\<rparr>)"

definition set_dma_req_i :: "nat \<Rightarrow> dma_world \<Rightarrow> dma_world" where
  "set_dma_req_i k = upd_ch k (\<lambda>c. c\<lparr>dma_req_i := True\<rparr>)"

definition clear_dma_req_i :: "nat \<Rightarrow> dma_world \<Rightarrow> dma_world" where
  "clear_dma_req_i k = upd_ch k (\<lambda>c. c\<lparr>dma_req_i := False\<rparr>)"

definition set_dma_nd_i :: "nat \<Rightarrow> dma_world \<Rightarrow> dma_world" where
  "set_dma_nd_i k = upd_ch k (\<lambda>c. c\<lparr>dma_nd_i := True\<rparr>)"

definition clear_dma_nd_i :: "nat \<Rightarrow> dma_world \<Rightarrow> dma_world" where
  "clear_dma_nd_i k = upd_ch k (\<lambda>c. c\<lparr>dma_nd_i := False\<rparr>)"

definition check_dma_ack_o :: "nat \<Rightarrow> dma_world \<Rightarrow> bool" where
  "check_dma_ack_o k w = dma_ack_o (chan k w)"

text \<open>The list of all controllers, without the pointers: which controller the other devices find.\<close>

fun find_dma_controller_ch :: "dma_controller list \<Rightarrow> nat \<Rightarrow> nat \<Rightarrow> dma_channel option" where
  "find_dma_controller_ch [] n k = None"
| "find_dma_controller_ch (d # ds) 0 k = Some (dm_ch d k)"
| "find_dma_controller_ch (d # ds) (Suc n) k = find_dma_controller_ch ds n k"

definition dma_baseaddr :: "u32 \<Rightarrow> dma_controller \<Rightarrow> dma_controller" where
  "dma_baseaddr val d = d\<lparr>dm_baseaddr := val\<rparr>"

definition dma_irq :: "int \<Rightarrow> dma_controller \<Rightarrow> dma_controller" where
  "dma_irq val d = d\<lparr>dm_irq := val\<rparr>"

definition dma_vapi_id :: "int \<Rightarrow> dma_controller \<Rightarrow> dma_controller" where
  "dma_vapi_id val d = d\<lparr>dm_vapi_id := val\<rparr>"

definition dma_enabled :: "int \<Rightarrow> dma_controller \<Rightarrow> dma_controller" where
  "dma_enabled val d = d\<lparr>dm_enabled := val \<noteq> 0\<rparr>"

text \<open>\<open>fresh\<close> is what \<open>malloc\<close> leaves in the fields that are not set.\<close>

definition dma_sec_start :: "dma_controller \<Rightarrow> dma_controller" where
  "dma_sec_start fresh = fresh\<lparr>dm_enabled := True, dm_baseaddr := 0, dm_irq := 0, dm_vapi_id := 0\<rparr>"

section \<open>Flags and channels\<close>

lemma TEST_FLAG_bit: "TEST_FLAG r k \<longleftrightarrow> bit r k"
  by (auto simp: TEST_FLAG_def and_one_eq bit_iff_odd odd_iff_mod_2_eq_one drop_bit_eq_div)

lemma bit_flags [simp]:
  "bit (SET_FLAG off r) k \<longleftrightarrow> bit r k \<or> k = off \<and> k < 64"
  "bit (CLEAR_FLAG off r) k \<longleftrightarrow> bit r k \<and> k \<noteq> off"
  by (auto simp: SET_FLAG_def CLEAR_FLAG_def bit_simps dest: bit_imp_le_length)

lemma chan_simps [simp]:
  "chan k (upd_ch k f w) = f (chan k w)"
  "dw_machine (upd_ch k f w) = dw_machine w" "dw_jobs (upd_ch k f w) = dw_jobs w"
  "int_msk_a (dw_dma (upd_ch k f w)) = int_msk_a (dw_dma w)"
  "dm_irq (dw_dma (upd_ch k f w)) = dm_irq (dw_dma w)"
  "chan k (add_dma_job j w) = chan k w" "dw_machine (add_dma_job j w) = dw_machine w"
  "dw_jobs (add_dma_job j w) = dw_jobs w @ [j]" "dw_dma (add_dma_job j w) = dw_dma w"
  by (simp_all add: upd_ch_def add_dma_job_def)

section \<open>Accesses to RAM\<close>

text \<open>The accesses of the simulator reach the same RAM as those of the processor.\<close>

definition direct_ok :: "machine \<Rightarrow> bool" where
  "direct_ok m \<longleftrightarrow> phys_wf (mem m) \<and>
     (\<forall>i < length (dev_list (mem m)). \<forall>p. ram_block (mem m) (dev_list (mem m) ! i) = Some p \<longrightarrow>
        is_ram_ops p (direct_ops (dev_list (mem m) ! i)))"

lemma direct_read:
  assumes ok: "direct_ok m" and al: "a AND 3 = 0" and ram: "ram_backed m a"
  shows "\<exists>i < length (dev_list (mem m)). eval_direct32 a False False m = Inr (be_load (guest_mem m) a 4, set_mem ((mem m)\<lparr>cur_area := Some i\<rparr>) m)"
proof -
  have wf: "phys_wf (mem m)" using ok by (simp add: direct_ok_def)
  obtain p off where at: "ram_at (mem m) a = Some (p, off)" using ram by (auto simp: ram_backed_def)
  obtain i where i: "i < length (dev_list (mem m))"
      "verify_memoryarea a (mem m) = (Some i, (mem m)\<lparr>cur_area := Some i\<rparr>)"
      "ram_block (mem m) (dev_list (mem m) ! i) = Some p" "off = a AND size_mask (dev_list (mem m) ! i)"
      "rams (mem m) p \<noteq> None"
    using ram_at_Some[OF wf at] by metis
  let ?f = "ram_bytes (the (rams (mem m) p))"
  have os: "is_ram_ops p (direct_ops (dev_list (mem m) ! i))" using ok i by (auto simp: direct_ok_def)
  have w: "off AND 3 = 0" "unat off + 4 \<le> ram_size (the (rams (mem m) p))" using ram_word[OF wf at al] .
  have b: "phys_byte (mem m) (a + 1) = guest_byte ?f (off + 1)" "phys_byte (mem m) (a + 2) = guest_byte ?f (off + 2)"
      "phys_byte (mem m) (a + 3) = guest_byte ?f (off + 3)"
    using aligned_disjoint[OF al] al by (intro phys_byte_at ram_at_neighbour(1)[OF wf at]; simp)+
  show ?thesis
    using i os w b phys_byte_at[OF at] al guest_read32[OF w(1)]
    by (intro exI[of _ i]) (simp add: eval_direct32_def direct_phys_def has_def call_read_def simmem_read32_def
        ram_access_ok is_ram_ops_def be_load_def guest_mem_def Let_def)
qed

lemma direct_write:
  assumes ok: "direct_ok m" and al: "a AND 3 = 0" and ram: "ram_backed m a"
  shows "\<exists>i p f. i < length (dev_list (mem m)) \<and> set_direct32 a v False False m = Inr (set_mem (ram_update p f ((mem m)\<lparr>cur_area := Some i\<rparr>)) m)
     \<and> phys_byte (ram_update p f (mem m)) = be_store (guest_mem m) a 4 v"
proof -
  have wf: "phys_wf (mem m)" using ok by (simp add: direct_ok_def)
  obtain p off where at: "ram_at (mem m) a = Some (p, off)" using ram by (auto simp: ram_backed_def)
  obtain i where i: "i < length (dev_list (mem m))"
      "verify_memoryarea a (mem m) = (Some i, (mem m)\<lparr>cur_area := Some i\<rparr>)"
      "ram_block (mem m) (dev_list (mem m) ! i) = Some p" "off = a AND size_mask (dev_list (mem m) ! i)"
      "rams (mem m) p \<noteq> None"
    using ram_at_Some[OF wf at] by metis
  let ?f = "ram_bytes (the (rams (mem m) p))"
  have os: "is_ram_ops p (direct_ops (dev_list (mem m) ! i))" using ok i by (auto simp: direct_ok_def)
  have w: "off AND 3 = 0" "unat off + 4 \<le> ram_size (the (rams (mem m) p))" using ram_word[OF wf at al] .
  have n: "ram_at (mem m) (a + 1) = Some (p, off + 1)" "ram_at (mem m) (a + 2) = Some (p, off + 2)"
      "ram_at (mem m) (a + 3) = Some (p, off + 3)"
    using aligned_disjoint[OF al] al by (intro ram_at_neighbour(1)[OF wf at]; simp)+
  have "phys_byte (ram_update p (host_write32 (unat off) v ?f) (mem m)) = be_store (guest_mem m) a 4 v"
    unfolding guest_mem_def put_all_store
    by (rule phys_byte_store[OF wf, where ovs = "[(off, be_byte32 v 0), (off + 1, be_byte32 v 1), (off + 2, be_byte32 v 2), (off + 3, be_byte32 v 3)]"])
      (simp_all add: guest_write32[OF w(1)] at n)
  moreover have "set_direct32 a v False False m
      = Inr (set_mem (ram_update p (host_write32 (unat off) v ?f) ((mem m)\<lparr>cur_area := Some i\<rparr>)) m)"
    using i os w al
    by (simp add: set_direct32_def direct_phys_def has_def call_write_def simmem_write32_def ram_access_ok is_ram_ops_def Let_def)
      (simp add: set_mem_def)
  ultimately show ?thesis using i(1) by blast
qed

lemma direct_ok_frame:
  assumes "direct_ok m" and "i < length (dev_list (mem m))"
  shows "direct_ok (set_mem ((mem m)\<lparr>cur_area := Some i\<rparr>) m')" and "guest_mem (set_mem ((mem m)\<lparr>cur_area := Some i\<rparr>) m') = guest_mem m"
    and "ram_backed (set_mem ((mem m)\<lparr>cur_area := Some i\<rparr>) m') = ram_backed m"
  using assms by (auto simp: direct_ok_def guest_mem_def ram_backed_def fun_eq_iff)

lemma direct_ok_store:
  assumes "direct_ok m" and "i < length (dev_list (mem m))"
  shows "direct_ok (set_mem (ram_update p f ((mem m)\<lparr>cur_area := Some i\<rparr>)) m')"
    and "guest_mem (set_mem (ram_update p f ((mem m)\<lparr>cur_area := Some i\<rparr>)) m') = phys_byte (ram_update p f (mem m))"
    and "ram_backed (set_mem (ram_update p f ((mem m)\<lparr>cur_area := Some i\<rparr>)) m') = ram_backed m"
  using assms
  by (auto simp: direct_ok_def guest_mem_def ram_backed_def fun_eq_iff ram_update_pointers intro!: phys_wf_update)

text \<open>One word of a transfer.\<close>

definition copy_word :: "u32 \<Rightarrow> u32 \<Rightarrow> (u32 \<Rightarrow> u8) \<Rightarrow> u32 \<Rightarrow> u8" where
  "copy_word s d f = be_store f d 4 (be_load f s 4)"

lemma direct_copy:
  assumes ok: "direct_ok m" and s: "s AND 3 = 0" "ram_backed m s" and d: "d AND 3 = 0" "ram_backed m d"
  shows "\<exists>v m1 m2. eval_direct32 s False False m = Inr (v, m1) \<and> set_direct32 d v False False m1 = Inr m2
    \<and> direct_ok m2 \<and> guest_mem m2 = copy_word s d (guest_mem m) \<and> ram_backed m2 = ram_backed m"
proof -
  obtain i where il: "i < length (dev_list (mem m))" and i: "eval_direct32 s False False m = Inr (be_load (guest_mem m) s 4, set_mem ((mem m)\<lparr>cur_area := Some i\<rparr>) m)"
    using direct_read[OF ok s] by blast
  let ?m1 = "set_mem ((mem m)\<lparr>cur_area := Some i\<rparr>) m" and ?v = "be_load (guest_mem m) s 4"
  note m1 = direct_ok_frame[OF ok il, where m' = m]
  have "ram_backed ?m1 d" using d m1(3) by simp
  from direct_write[OF m1(1) d(1) this] obtain j p f where
    jl: "j < length (dev_list (mem ?m1))" and j: "set_direct32 d ?v False False ?m1 = Inr (set_mem (ram_update p f ((mem ?m1)\<lparr>cur_area := Some j\<rparr>)) ?m1)"
      "phys_byte (ram_update p f (mem ?m1)) = be_store (guest_mem ?m1) d 4 ?v" by blast
  from direct_ok_store[OF m1(1) jl, where p = p and f = f and m' = ?m1] i j m1 show ?thesis
    by (auto simp: copy_word_def simp del: mem_set_mem)
qed

section \<open>A whole transfer\<close>

text \<open>The next address under an address mask, the condition that all words are in RAM, and the memory afterwards.\<close>

definition next_word :: "bool \<Rightarrow> u32 \<Rightarrow> u32 \<Rightarrow> u32" where
  "next_word inc msk v = (if inc then (v AND NOT msk) OR ((v + 4) AND msk) else v)"

fun in_ram :: "nat \<Rightarrow> (u32 \<Rightarrow> bool) \<Rightarrow> (u32 \<Rightarrow> u32) \<Rightarrow> u32 \<Rightarrow> bool" where
  "in_ram 0 ram f a = True"
| "in_ram (Suc n) ram f a = (a AND 3 = 0 \<and> ram a \<and> in_ram n ram f (f a))"

fun copied :: "nat \<Rightarrow> (u32 \<Rightarrow> u32) \<Rightarrow> (u32 \<Rightarrow> u32) \<Rightarrow> u32 \<Rightarrow> u32 \<Rightarrow> (u32 \<Rightarrow> u8) \<Rightarrow> u32 \<Rightarrow> u8" where
  "copied 0 f g s d b = b"
| "copied (Suc n) f g s d b = copied n f g (f s) (g d) (copy_word s d b)"

fun dma_clocks :: "nat \<Rightarrow> nat \<Rightarrow> dma_world \<Rightarrow> dma_world res" where
  "dma_clocks k 0 w = Inr w"
| "dma_clocks k (Suc n) w = bind_res (dma_channel_clock k w) (dma_clocks k n)"

text \<open>Without incrementing, and with the mask a reset sets, the addresses are the expected ones.\<close>

lemma low_bits_add_4: "(a + 4 :: u32) AND 3 = a AND 3"
proof transfer
  fix x :: int
  have "(x + 4) AND 3 = x AND 3"
    using take_bit_eq_mask[of 2 x] take_bit_eq_mask[of 2 "x + 4"] by (simp add: take_bit_eq_mod mask_eq_exp_minus_1)
  then show "take_bit LENGTH(32) ((x + 4) AND 3) = take_bit LENGTH(32) (x AND 3)" by simp
qed

lemma next_word_consecutive:
  assumes "a AND 3 = 0"
  shows "next_word True 0xFFFFFFFC a = a + 4"
proof -
  have "a + 4 = ((a + 4) AND 3) OR ((a + 4) AND NOT 3)" by (auto simp: bit_eq_iff bit_simps)
  moreover have "(0xFFFFFFFC :: u32) = NOT 3" by simp
  ultimately show ?thesis
    using low_bits_add_4[of a] assms by (simp only: next_word_def if_True bit.double_compl or.left_neutral)
qed

definition step_ch :: "dma_channel \<Rightarrow> dma_channel" where
  "step_ch c = (let c = c\<lparr>ch_source := masked_increase (ucast (source_mask c)) (ch_source c),
                          ch_destination := masked_increase (ucast (destination_mask c)) (ch_destination c),
                          words_transferred := words_transferred c + 1\<rparr>
                in c\<lparr>dma_ack_o := (words_transferred c mod chunk_size c = 0)\<rparr>)"

lemma upd_ch_twice [simp]: "upd_ch k f (upd_ch k g w) = upd_ch k (\<lambda>c. f (g c)) w"
  by (simp add: upd_ch_def)

lemma upd_ch_machine: "upd_ch k f (w\<lparr>dw_machine := m\<rparr>) = (upd_ch k f w)\<lparr>dw_machine := m\<rparr>"
  by (simp add: upd_ch_def)

lemma dma_transfer_word_ok:
  assumes ok: "direct_ok (dw_machine w)" and chunk: "chunk_size (chan k w) \<noteq> 0"
    and s: "ch_source (chan k w) AND 3 = 0" "ram_backed (dw_machine w) (ch_source (chan k w))"
    and d: "ch_destination (chan k w) AND 3 = 0" "ram_backed (dw_machine w) (ch_destination (chan k w))"
  shows "\<exists>m. dma_transfer_word k w = Inr (upd_ch k step_ch (w\<lparr>dw_machine := m\<rparr>)) \<and> direct_ok m
    \<and> ram_backed m = ram_backed (dw_machine w)
    \<and> guest_mem m = copy_word (ch_source (chan k w)) (ch_destination (chan k w)) (guest_mem (dw_machine w))"
proof -
  from direct_copy[OF ok s d] obtain v m1 m2 where
    m: "eval_direct32 (ch_source (chan k w)) False False (dw_machine w) = Inr (v, m1)"
      "set_direct32 (ch_destination (chan k w)) v False False m1 = Inr m2" "direct_ok m2"
      "guest_mem m2 = copy_word (ch_source (chan k w)) (ch_destination (chan k w)) (guest_mem (dw_machine w))"
      "ram_backed m2 = ram_backed (dw_machine w)" by blast
  then have "dma_transfer_word k w = Inr (upd_ch k step_ch (w\<lparr>dw_machine := m2\<rparr>))"
    using chunk by (simp add: dma_transfer_word_def Let_def step_ch_def[abs_def])
  with m(3-5) show ?thesis by blast
qed

text \<open>A channel in the middle of a transfer without a list of descriptors.\<close>

definition running :: "dma_channel \<Rightarrow> bool" where
  "running c \<longleftrightarrow> TEST_FLAG (ch_csr c) CH_CSR_BUSY \<and> \<not> TEST_FLAG (ch_csr c) CH_CSR_STOP \<and> \<not> TEST_FLAG (ch_csr c) CH_CSR_MODE
     \<and> \<not> load_next_descriptor_when_done c \<and> chunk_size c \<noteq> 0"

lemma step_ch_simps [simp]:
  "running (step_ch c) = running c" "total_size (step_ch c) = total_size c" "ch_csr (step_ch c) = ch_csr c"
  "words_transferred (step_ch c) = words_transferred c + 1"
  "source_mask (step_ch c) = source_mask c" "destination_mask (step_ch c) = destination_mask c"
  "ch_source (step_ch c) = masked_increase (ucast (source_mask c)) (ch_source c)"
  "ch_destination (step_ch c) = masked_increase (ucast (destination_mask c)) (ch_destination c)"
  "load_next_descriptor_when_done (step_ch c) = load_next_descriptor_when_done c"
  "channel_mask (step_ch c) = channel_mask c"
  by (simp_all add: step_ch_def running_def Let_def)

lemma clock_running:
  assumes "running (chan k w)"
  shows "dma_channel_clock k w = bind_res (dma_transfer_word k w) (\<lambda>w.
     if CHANNEL_ND_I (chan k w) then dma_channel_terminate_transfer k False w
     else if total_size (chan k w) \<le> words_transferred (chan k w) then dma_channel_terminate_transfer k True w
     else Inr (add_dma_job k w))"
  using assms by (simp add: dma_channel_clock_def running_def)

definition mid_state :: "nat \<Rightarrow> nat \<Rightarrow> dma_world \<Rightarrow> bool" where
  "mid_state k n w \<longleftrightarrow> running (chan k w) \<and> direct_ok (dw_machine w)
     \<and> unat (total_size (chan k w)) = unat (words_transferred (chan k w)) + n
     \<and> in_ram n (ram_backed (dw_machine w)) (masked_increase (ucast (source_mask (chan k w)))) (ch_source (chan k w))
     \<and> in_ram n (ram_backed (dw_machine w)) (masked_increase (ucast (destination_mask (chan k w)))) (ch_destination (chan k w))"

lemma one_word:
  assumes mid: "mid_state k (Suc n) w"
  shows "\<exists>w'. dma_transfer_word k w = Inr w' \<and> mid_state k n w' \<and> chan k w' = step_ch (chan k w) \<and> dw_jobs w' = dw_jobs w
    \<and> int_msk_a (dw_dma w') = int_msk_a (dw_dma w) \<and> dm_irq (dw_dma w') = dm_irq (dw_dma w)
    \<and> guest_mem (dw_machine w') = copy_word (ch_source (chan k w)) (ch_destination (chan k w)) (guest_mem (dw_machine w))"
proof -
  let ?c = "chan k w"
  from mid have "direct_ok (dw_machine w)" "chunk_size ?c \<noteq> 0" "ch_source ?c AND 3 = 0" "ram_backed (dw_machine w) (ch_source ?c)"
      "ch_destination ?c AND 3 = 0" "ram_backed (dw_machine w) (ch_destination ?c)"
    by (simp_all add: mid_state_def running_def)
  from dma_transfer_word_ok[OF this] obtain m where m: "dma_transfer_word k w = Inr (upd_ch k step_ch (w\<lparr>dw_machine := m\<rparr>))"
      "direct_ok m" "ram_backed m = ram_backed (dw_machine w)"
      "guest_mem m = copy_word (ch_source ?c) (ch_destination ?c) (guest_mem (dw_machine w))" by blast
  have "unat (total_size ?c) < 18446744073709551616" using unsigned_less[of "total_size ?c"] by simp
  moreover have "unat (total_size ?c) = unat (words_transferred ?c) + Suc n" using mid by (simp add: mid_state_def)
  ultimately have "unat (words_transferred ?c) + 1 < 18446744073709551616" by linarith
  then have "unat (words_transferred ?c + 1) = unat (words_transferred ?c) + 1"
    by (simp add: unat_plus_if_size word_size)
  then have "mid_state k n (upd_ch k step_ch (w\<lparr>dw_machine := m\<rparr>))"
    using mid m by (simp add: mid_state_def)
  with m show ?thesis by (intro exI[of _ "upd_ch k step_ch (w\<lparr>dw_machine := m\<rparr>)"]) simp
qed

lemma no_nd_i: "running c \<Longrightarrow> \<not> CHANNEL_ND_I c"
  by (simp add: running_def CHANNEL_ND_I_def)

lemma clocks_running:
  assumes "mid_state k (Suc n) w"
  shows "\<exists>w'. dma_clocks k (Suc n) w = dma_channel_terminate_transfer k True w'
    \<and> chan k w' = (step_ch ^^ Suc n) (chan k w) \<and> dw_jobs w' = dw_jobs w @ replicate n k
    \<and> int_msk_a (dw_dma w') = int_msk_a (dw_dma w) \<and> dm_irq (dw_dma w') = dm_irq (dw_dma w)
    \<and> guest_mem (dw_machine w') = copied (Suc n) (masked_increase (ucast (source_mask (chan k w))))
         (masked_increase (ucast (destination_mask (chan k w)))) (ch_source (chan k w)) (ch_destination (chan k w)) (guest_mem (dw_machine w))"
  using assms
proof (induction n arbitrary: w)
  case 0
  note base = this
  from one_word[OF base] obtain w' where w': "dma_transfer_word k w = Inr w'" "mid_state k 0 w'" "chan k w' = step_ch (chan k w)"
      "dw_jobs w' = dw_jobs w" "int_msk_a (dw_dma w') = int_msk_a (dw_dma w)" "dm_irq (dw_dma w') = dm_irq (dw_dma w)"
      "guest_mem (dw_machine w') = copy_word (ch_source (chan k w)) (ch_destination (chan k w)) (guest_mem (dw_machine w))" by blast
  from w'(2) have "running (chan k w')" "total_size (chan k w') \<le> words_transferred (chan k w')"
    by (simp_all add: mid_state_def word_le_nat_alt)
  then have "dma_channel_clock k w = dma_channel_terminate_transfer k True w'"
    using clock_running[where k = k and w = w] base w'(1) no_nd_i by (simp add: mid_state_def)
  then show ?case using w' by (intro exI[of _ w']) (simp add: bind_res_def split: sum.split)
next
  case (Suc n)
  from one_word[OF Suc.prems] obtain w' where w': "dma_transfer_word k w = Inr w'" "mid_state k (Suc n) w'"
      "chan k w' = step_ch (chan k w)" "dw_jobs w' = dw_jobs w"
      "int_msk_a (dw_dma w') = int_msk_a (dw_dma w)" "dm_irq (dw_dma w') = dm_irq (dw_dma w)"
      "guest_mem (dw_machine w') = copy_word (ch_source (chan k w)) (ch_destination (chan k w)) (guest_mem (dw_machine w))" by blast
  from w'(2) have "running (chan k w')" "\<not> total_size (chan k w') \<le> words_transferred (chan k w')"
    by (simp_all add: mid_state_def word_le_nat_alt)
  then have "dma_channel_clock k w = Inr (add_dma_job k w')"
    using clock_running[where k = k and w = w] Suc.prems w'(1) no_nd_i by (simp add: mid_state_def)
  moreover have "mid_state k (Suc n) (add_dma_job k w')" using w'(2) by (simp add: mid_state_def)
  note Suc.IH[OF this]
  ultimately show ?case using w' by (simp add: funpow_swap1)
qed

text \<open>The first clock of a transfer.\<close>

definition begin_ch :: "dma_channel \<Rightarrow> dma_channel" where
  "begin_ch c = init_channel (c\<lparr>ch_csr := SET_FLAG CH_CSR_BUSY (CLEAR_FLAG CH_CSR_ERR (CLEAR_FLAG CH_CSR_DONE (ch_csr c))),
                                load_next_descriptor_when_done := False\<rparr>)"

definition idle :: "dma_channel \<Rightarrow> bool" where
  "idle c \<longleftrightarrow> \<not> TEST_FLAG (ch_csr c) CH_CSR_BUSY \<and> \<not> TEST_FLAG (ch_csr c) CH_CSR_STOP
     \<and> \<not> TEST_FLAG (ch_csr c) CH_CSR_MODE \<and> \<not> TEST_FLAG (ch_csr c) CH_CSR_USE_ED"

lemma dma_begin_transfer_idle:
  assumes "idle (chan k w)"
  shows "dma_begin_transfer k w = Inr (False, upd_ch k begin_ch w)"
  using assms
  by (simp add: dma_begin_transfer_def idle_def upd_csr_def Let_def TEST_FLAG_bit dma_init_transfer_def CHANNEL_ND_I_def
      begin_ch_def[abs_def] init_channel_def)

lemma begin_ch_flags [simp]:
  "TEST_FLAG (ch_csr (begin_ch c)) off \<longleftrightarrow> off = CH_CSR_BUSY \<or> off \<noteq> CH_CSR_DONE \<and> off \<noteq> CH_CSR_ERR \<and> TEST_FLAG (ch_csr c) off"
  by (auto simp: begin_ch_def init_channel_def TEST_FLAG_bit Let_def)

lemma first_clock:
  assumes "idle (chan k w)"
  shows "dma_channel_clock k w = dma_channel_clock k (upd_ch k begin_ch w)"
  using assms dma_begin_transfer_idle[OF assms] by (simp add: dma_channel_clock_def idle_def)

lemma GET_FIELD_TOT_SZ: "GET_FIELD r CH_SZ_TOT_SZ_OFFSET CH_SZ_TOT_SZ_WIDTH = r AND 0xFFF"
  by (simp add: GET_FIELD_def mask_eq_exp_minus_1)

lemma masked_increase_next_word: "masked_increase (ucast (if inc then ucast msk else 0 :: u32)) = next_word inc (ucast (msk :: u64))"
  by (auto simp: fun_eq_iff masked_increase_def next_word_def bit_eq_iff bit_simps)

abbreviation words_of :: "dma_channel \<Rightarrow> nat" where
  "words_of c \<equiv> unat (ch_sz c AND 0xFFF)"

abbreviation source_next :: "dma_channel \<Rightarrow> u32 \<Rightarrow> u32" where
  "source_next c \<equiv> next_word (TEST_FLAG (ch_csr c) CH_CSR_INC_SRC) (ucast (ch_am0 c))"

abbreviation destination_next :: "dma_channel \<Rightarrow> u32 \<Rightarrow> u32" where
  "destination_next c \<equiv> next_word (TEST_FLAG (ch_csr c) CH_CSR_INC_DST) (ucast (ch_am1 c))"

lemma begin_ch_simps [simp]:
  "total_size (begin_ch c) = ch_sz c AND 0xFFF" "words_transferred (begin_ch c) = 0"
  "ch_source (begin_ch c) = ucast (ch_a0 c)" "ch_destination (begin_ch c) = ucast (ch_a1 c)"
  "masked_increase (ucast (source_mask (begin_ch c))) = source_next c"
  "masked_increase (ucast (destination_mask (begin_ch c))) = destination_next c"
  "load_next_descriptor_when_done (begin_ch c) = False"
  "ch_sz c AND 0xFFF \<noteq> 0 \<Longrightarrow> chunk_size (begin_ch c) \<noteq> 0"
  "ch_sz c AND 0xFFF = 0 \<Longrightarrow> chunk_size (begin_ch c) = 0"
  by (simp_all add: begin_ch_def init_channel_def GET_FIELD_TOT_SZ masked_increase_next_word[symmetric] TEST_FLAG_bit Let_def word_gt_0)

definition source_in_ram :: "nat \<Rightarrow> dma_world \<Rightarrow> bool" where
  "source_in_ram k w \<longleftrightarrow> in_ram (words_of (chan k w)) (ram_backed (dw_machine w)) (source_next (chan k w)) (ucast (ch_a0 (chan k w)))"

definition destination_in_ram :: "nat \<Rightarrow> dma_world \<Rightarrow> bool" where
  "destination_in_ram k w \<longleftrightarrow>
     in_ram (words_of (chan k w)) (ram_backed (dw_machine w)) (destination_next (chan k w)) (ucast (ch_a1 (chan k w)))"

lemma transfer_begins:
  assumes "idle (chan k w)" and "words_of (chan k w) = Suc n" and "direct_ok (dw_machine w)"
    and "source_in_ram k w" and "destination_in_ram k w"
  shows "mid_state k (Suc n) (upd_ch k begin_ch w)"
proof -
  have "ch_sz (chan k w) AND 0xFFF \<noteq> 0" using assms(2) by auto
  then show ?thesis
    using assms by (simp add: mid_state_def running_def idle_def source_in_ram_def destination_in_ram_def)
qed

lemma transfer_runs:
  assumes "idle (chan k w)" and "words_of (chan k w) = Suc n" and "direct_ok (dw_machine w)"
    and "source_in_ram k w" and "destination_in_ram k w"
  shows "\<exists>w'. dma_clocks k (Suc n) w = dma_channel_terminate_transfer k True w'
    \<and> chan k w' = (step_ch ^^ Suc n) (begin_ch (chan k w)) \<and> dw_jobs w' = dw_jobs w @ replicate n k
    \<and> int_msk_a (dw_dma w') = int_msk_a (dw_dma w) \<and> dm_irq (dw_dma w') = dm_irq (dw_dma w)
    \<and> guest_mem (dw_machine w') = copied (Suc n) (source_next (chan k w)) (destination_next (chan k w))
         (ucast (ch_a0 (chan k w))) (ucast (ch_a1 (chan k w))) (guest_mem (dw_machine w))"
  using clocks_running[OF transfer_begins[OF assms]] first_clock[OF assms(1)] by (simp del: copied.simps)

lemma steps_keep [simp]:
  "ch_csr ((step_ch ^^ n) c) = ch_csr c" "load_next_descriptor_when_done ((step_ch ^^ n) c) = load_next_descriptor_when_done c"
  "total_size ((step_ch ^^ n) c) = total_size c" "words_transferred ((step_ch ^^ n) c) = words_transferred c + of_nat n"
  by (induction n) simp_all

section \<open>Properties\<close>

definition done_csr :: "u64 \<Rightarrow> u64" where
  "done_csr r = CLEAR_FLAG CH_CSR_BUSY (CLEAR_FLAG CH_CSR_ERR (SET_FLAG CH_CSR_DONE (CLEAR_FLAG CH_CSR_CH_EN r)))"

lemma terminate_simple:
  assumes "\<not> load_next_descriptor_when_done (chan k w)" and "\<not> csr_flag k CH_CSR_ARS w" and "\<not> csr_flag k CH_CSR_USE_ED w"
  shows "dma_channel_terminate_transfer k True w
    = channel_interrupt k CH_CSR_INE_DONE CH_CSR_INT_DONE (upd_ch k (\<lambda>c. c\<lparr>ch_csr := done_csr (ch_csr c)\<rparr>) w)"
  using assms by (simp add: dma_channel_terminate_transfer_def upd_csr_def done_csr_def)

definition dma_sample :: "u64 \<Rightarrow> dma_world" where
  "dma_sample csr =
     \<lparr>dw_dma = \<lparr>dm_enabled = True, dm_baseaddr = 0x9a000000, dm_irq = 4, dm_vapi_id = 0, dm_csr = 0, int_msk_a = 0, int_msk_b = 0,
        int_src_a = 0, int_src_b = 0,
        dm_ch = (reset_channel)(0 := (reset_channel 0)\<lparr>ch_csr := csr, ch_sz := 3, ch_a0 := 0x100, ch_a1 := 0x200\<rparr>)\<rparr>,
      dw_machine = cache_machine, dw_jobs = []\<rparr>"

lemma dma_sample_simps [simp]:
  "chan 0 (dma_sample csr) = (reset_channel 0)\<lparr>ch_csr := csr, ch_sz := 3, ch_a0 := 0x100, ch_a1 := 0x200\<rparr>"
  "dw_machine (dma_sample csr) = cache_machine" "dw_jobs (dma_sample csr) = []"
  by (simp_all add: dma_sample_def)

lemma in_ram_3: "in_ram 3 ram f a \<longleftrightarrow> a AND 3 = 0 \<and> ram a \<and> f a AND 3 = 0 \<and> ram (f a) \<and> f (f a) AND 3 = 0 \<and> ram (f (f a))"
  unfolding numeral_3_eq_3 in_ram.simps by simp

lemma dma_sample_ok:
  shows "direct_ok cache_machine"
    and "source_in_ram 0 (dma_sample 0x19)" "destination_in_ram 0 (dma_sample 0x19)"
    and "source_in_ram 0 (dma_sample 0x59)" "destination_in_ram 0 (dma_sample 0x59)"
    and "words_of (chan 0 (dma_sample csr)) = Suc 2"
proof -
  have "is_ram_ops 0 sample_ops" "read_dat8 sample_ops = 0"
    by (simp_all add: is_ram_ops_def sample_ops_def ram_ops_def memory_sec_start_def Let_def)
  then show "direct_ok cache_machine"
    using cache_machine_ram(1)
    by (auto simp: direct_ok_def bare_ok_def ram_block_def cache_machine_simps sample_area_def zero_memory_def Let_def split: if_splits)
qed (simp_all add: source_in_ram_def destination_in_ram_def reset_channel_def in_ram_3 next_word_def TEST_FLAG_def
      cache_machine_ram(2))

lemma dma_sample_flags [simp]:
  "TEST_FLAG 0x19 0" "\<not> TEST_FLAG 0x19 5" "\<not> TEST_FLAG 0x19 6" "\<not> TEST_FLAG 0x19 7" "\<not> TEST_FLAG 0x19 9" "\<not> TEST_FLAG 0x19 10"
  "TEST_FLAG 0x59 0" "\<not> TEST_FLAG 0x59 5" "TEST_FLAG 0x59 6" "\<not> TEST_FLAG 0x59 7" "\<not> TEST_FLAG 0x59 9" "\<not> TEST_FLAG 0x59 10"
  by (simp_all add: TEST_FLAG_def)

text \<open>
  C35: a transfer of one or more words, not in handshake mode, without descriptors and auto restart, copies exactly the words
  its registers describe: with the sources and destinations in RAM, that many clocks give the memory in which the words were
  stored one after the other at the addresses the masks select. Each clock moves one word, whatever the chunk size. Every
  clock but the last asks for the next one, and the last one clears busy and enable, sets done and raises the interrupt if
  that is enabled.
\<close>

theorem dma_transfer_copies:
  assumes "idle (chan k w)" and "\<not> csr_flag k CH_CSR_ARS w" and "words_of (chan k w) = Suc n" and "direct_ok (dw_machine w)"
    and "source_in_ram k w" and "destination_in_ram k w"
  shows "\<exists>w'. dma_clocks k (Suc n) w = channel_interrupt k CH_CSR_INE_DONE CH_CSR_INT_DONE w'
    \<and> guest_mem (dw_machine w') = copied (Suc n) (source_next (chan k w)) (destination_next (chan k w))
         (ucast (ch_a0 (chan k w))) (ucast (ch_a1 (chan k w))) (guest_mem (dw_machine w))
    \<and> dw_jobs w' = dw_jobs w @ replicate n k \<and> words_transferred (chan k w') = total_size (chan k w')
    \<and> csr_flag k CH_CSR_DONE w' \<and> \<not> csr_flag k CH_CSR_BUSY w' \<and> \<not> csr_flag k CH_CSR_CH_EN w' \<and> \<not> csr_flag k CH_CSR_ERR w'"
proof -
  obtain u where u: "dma_clocks k (Suc n) w = dma_channel_terminate_transfer k True u"
      "chan k u = (step_ch ^^ Suc n) (begin_ch (chan k w))" "dw_jobs u = dw_jobs w @ replicate n k"
      "guest_mem (dw_machine u) = copied (Suc n) (source_next (chan k w)) (destination_next (chan k w))
         (ucast (ch_a0 (chan k w))) (ucast (ch_a1 (chan k w))) (guest_mem (dw_machine w))"
    using transfer_runs[OF assms(1,3-6)] by blast
  note c = steps_keep[of "Suc n" "begin_ch (chan k w)", folded u(2)]
  have "of_nat (Suc n) = ch_sz (chan k w) AND 0xFFF" unfolding assms(3)[symmetric] by simp
  then have "words_transferred (chan k u) = total_size (chan k u)" using c(3,4) by simp
  moreover have "dma_channel_terminate_transfer k True u
      = channel_interrupt k CH_CSR_INE_DONE CH_CSR_INT_DONE (upd_ch k (\<lambda>c. c\<lparr>ch_csr := done_csr (ch_csr c)\<rparr>) u)"
    using assms(1,2) by (intro terminate_simple) (simp_all add: c idle_def)
  ultimately show ?thesis
    using u by (intro exI[of _ "upd_ch k (\<lambda>c. c\<lparr>ch_csr := done_csr (ch_csr c)\<rparr>) u"]) (simp add: done_csr_def TEST_FLAG_bit)
qed

theorem dma_transfer_copies_witness:
  "\<exists>w'. dma_clocks 0 (Suc 2) (dma_sample 0x19) = channel_interrupt 0 CH_CSR_INE_DONE CH_CSR_INT_DONE w'
     \<and> dw_jobs w' = replicate 2 0 \<and> \<not> csr_flag 0 CH_CSR_BUSY w'"
proof -
  have "idle (chan 0 (dma_sample 0x19))" and "\<not> csr_flag 0 CH_CSR_ARS (dma_sample 0x19)" by (simp_all add: idle_def)
  moreover have "direct_ok (dw_machine (dma_sample 0x19))" using dma_sample_ok(1) by simp
  ultimately show ?thesis
    using dma_transfer_copies[where k = 0 and n = 2, OF _ _ dma_sample_ok(6) _ dma_sample_ok(2,3)]
    by (simp only: dma_sample_simps append_Nil) blast
qed

text \<open>
  C36: a channel in auto restart mode does not restart. After the last word of a transfer its registers are set up for the
  next one, it is still enabled and busy, but no clock is asked for, and writing the enable bit again does not ask for one
  either: the channel hangs until it is disabled.
\<close>

theorem dma_auto_restart_hangs:
  assumes "idle (chan k w)" and "csr_flag k CH_CSR_ARS w" and "csr_flag k CH_CSR_CH_EN w" and "words_of (chan k w) = Suc n"
    and "direct_ok (dw_machine w)" and "source_in_ram k w" and "destination_in_ram k w" and "TEST_FLAG v CH_CSR_CH_EN"
  shows "\<exists>w'. dma_clocks k (Suc n) w = Inr w' \<and> dw_jobs w' = dw_jobs w @ replicate n k
    \<and> csr_flag k CH_CSR_CH_EN w' \<and> csr_flag k CH_CSR_BUSY w' \<and> words_transferred (chan k w') = 0
    \<and> dw_jobs (dma_write_ch_csr k v w') = dw_jobs w'"
proof -
  obtain u where u: "dma_clocks k (Suc n) w = dma_channel_terminate_transfer k True u"
      "chan k u = (step_ch ^^ Suc n) (begin_ch (chan k w))" "dw_jobs u = dw_jobs w @ replicate n k"
    using transfer_runs[OF assms(1,4-7)] by blast
  note c = steps_keep[of "Suc n" "begin_ch (chan k w)", folded u(2)]
  have "dma_channel_terminate_transfer k True u = Inr (dma_init_transfer k u)"
    using assms(2) by (simp add: dma_channel_terminate_transfer_def c)
  moreover have "csr_flag k CH_CSR_CH_EN (dma_init_transfer k u)" "csr_flag k CH_CSR_BUSY (dma_init_transfer k u)"
    using assms(3) by (simp_all add: dma_init_transfer_def init_channel_def c Let_def)
  ultimately show ?thesis
    using u assms(8)
    by (intro exI[of _ "dma_init_transfer k u"])
      (simp add: dma_write_ch_csr_def upd_csr_def, simp add: dma_init_transfer_def init_channel_def Let_def)
qed

theorem dma_auto_restart_hangs_witness:
  "\<exists>w'. dma_clocks 0 (Suc 2) (dma_sample 0x59) = Inr w' \<and> dw_jobs w' = replicate 2 0 \<and> csr_flag 0 CH_CSR_BUSY w'
     \<and> dw_jobs (dma_write_ch_csr 0 0x59 w') = dw_jobs w'"
proof -
  have "idle (chan 0 (dma_sample 0x59))" and "csr_flag 0 CH_CSR_ARS (dma_sample 0x59)"
    and "csr_flag 0 CH_CSR_CH_EN (dma_sample 0x59)" and "TEST_FLAG 0x59 CH_CSR_CH_EN"
    by (simp_all add: idle_def)
  moreover have "direct_ok (dw_machine (dma_sample 0x59))" using dma_sample_ok(1) by simp
  ultimately show ?thesis
    using dma_auto_restart_hangs[where k = 0 and n = 2 and v = "0x59", OF _ _ _ dma_sample_ok(6) _ dma_sample_ok(4,5)]
    by (simp only: dma_sample_simps append_Nil) blast
qed

text \<open>A transfer of no words copies one word and then divides by the chunk size, which is 0.\<close>

theorem dma_empty_transfer_divides_by_zero:
  assumes "idle (chan k w)" and "words_of (chan k w) = 0" and "direct_ok (dw_machine w)"
    and "ucast (ch_a0 (chan k w)) AND (3 :: u32) = 0" "ram_backed (dw_machine w) (ucast (ch_a0 (chan k w)))"
    and "ucast (ch_a1 (chan k w)) AND (3 :: u32) = 0" "ram_backed (dw_machine w) (ucast (ch_a1 (chan k w)))"
  shows "dma_channel_clock k w = Inl Host_undef"
proof -
  let ?w = "upd_ch k begin_ch w"
  have "chunk_size (begin_ch (chan k w)) = 0" using assms(2) by (simp add: unat_eq_0)
  moreover from direct_copy[OF assms(3-7)] obtain v m1 m2 where
    "eval_direct32 (ucast (ch_a0 (chan k w))) False False (dw_machine w) = Inr (v, m1)"
    "set_direct32 (ucast (ch_a1 (chan k w))) v False False m1 = Inr m2" by blast
  ultimately have "dma_transfer_word k ?w = Inl Host_undef" by (simp add: dma_transfer_word_def Let_def)
  then show ?thesis
    using first_clock[OF assms(1)] assms(1) by (simp add: dma_channel_clock_def idle_def)
qed

end
