(* ===== verification/Uart.thy ===== *)
theory Uart
  imports Units Sbuf
begin

text \<open>
  The serial port (\<open>peripheral/16450.c\<close>): transmit and receive FIFOs, the interrupt identification, break and loopback, and
  the commands of the test bench (VAPI). The jobs requested with \<open>SCHED_ADD\<close> are a list with their delays, and what the
  port sends to the test bench or to its channel is a list. What a channel delivers is an argument of \<open>uart_check_char\<close>.
  The loops that exchange characters with a server on a socket, which this copy of the program adds, and the messages leave no
  state here. \<open>unsigned long\<close> has 64 bits. The \<open>int\<close> positions in the buffers are natural numbers; they are only
  set to 0 and to remainders.
\<close>

section \<open>Constants\<close>

abbreviation (input) UART_MAX_FIFO_LEN :: nat where "UART_MAX_FIFO_LEN \<equiv> 16"
abbreviation (input) UART_VAPI_BUF_LEN :: nat where "UART_VAPI_BUF_LEN \<equiv> 128"
abbreviation (input) MAX_SKEW :: int where "MAX_SKEW \<equiv> 1"
abbreviation (input) UART_CLOCK_DIVIDER :: u64 where "UART_CLOCK_DIVIDER \<equiv> 16"
abbreviation (input) UART_FGETC_SLOWDOWN :: u64 where "UART_FGETC_SLOWDOWN \<equiv> 100"
abbreviation (input) UART_BREAK_COUNT :: u64 where "UART_BREAK_COUNT \<equiv> 1"
abbreviation (input) UART_CHAR_TIMEOUT :: u64 where "UART_CHAR_TIMEOUT \<equiv> 4"
abbreviation (input) UART_RXBUF :: u32 where "UART_RXBUF \<equiv> 0"
abbreviation (input) UART_TXBUF :: u32 where "UART_TXBUF \<equiv> 0"
abbreviation (input) UART_DLL :: u32 where "UART_DLL \<equiv> 0"
abbreviation (input) UART_DLH :: u32 where "UART_DLH \<equiv> 1"
abbreviation (input) UART_IER :: u32 where "UART_IER \<equiv> 1"
abbreviation (input) UART_IIR :: u32 where "UART_IIR \<equiv> 2"
abbreviation (input) UART_FCR :: u32 where "UART_FCR \<equiv> 2"
abbreviation (input) UART_LCR :: u32 where "UART_LCR \<equiv> 3"
abbreviation (input) UART_MCR :: u32 where "UART_MCR \<equiv> 4"
abbreviation (input) UART_LSR :: u32 where "UART_LSR \<equiv> 5"
abbreviation (input) UART_MSR :: u32 where "UART_MSR \<equiv> 6"
abbreviation (input) UART_SCR :: u32 where "UART_SCR \<equiv> 7"
abbreviation (input) UART_VALID_LCR :: u8 where "UART_VALID_LCR \<equiv> 0xff"
abbreviation (input) UART_VALID_LSR :: u8 where "UART_VALID_LSR \<equiv> 0xff"
abbreviation (input) UART_VALID_IIR :: u8 where "UART_VALID_IIR \<equiv> 0x0f"
abbreviation (input) UART_VALID_FCR :: u8 where "UART_VALID_FCR \<equiv> 0xc0"
abbreviation (input) UART_VALID_IER :: u8 where "UART_VALID_IER \<equiv> 0x0f"
abbreviation (input) UART_VALID_MCR :: u8 where "UART_VALID_MCR \<equiv> 0x1f"
abbreviation (input) UART_VALID_MSR :: u8 where "UART_VALID_MSR \<equiv> 0xff"
abbreviation (input) UART_LCR_DLAB :: u8 where "UART_LCR_DLAB \<equiv> 0x80"
abbreviation (input) UART_LCR_SBC :: u8 where "UART_LCR_SBC \<equiv> 0x40"
abbreviation (input) UART_LCR_SPAR :: u8 where "UART_LCR_SPAR \<equiv> 0x20"
abbreviation (input) UART_LCR_EPAR :: u8 where "UART_LCR_EPAR \<equiv> 0x10"
abbreviation (input) UART_LCR_PARITY :: u8 where "UART_LCR_PARITY \<equiv> 0x08"
abbreviation (input) UART_LCR_STOP :: u8 where "UART_LCR_STOP \<equiv> 0x04"
abbreviation (input) UART_LCR_WLEN8 :: u8 where "UART_LCR_WLEN8 \<equiv> 0x03"
abbreviation (input) UART_LCR_RESET :: u8 where "UART_LCR_RESET \<equiv> 0x03"
abbreviation (input) UART_LSR_RXERR :: u8 where "UART_LSR_RXERR \<equiv> 0x80"
abbreviation (input) UART_LSR_TXSERE :: u8 where "UART_LSR_TXSERE \<equiv> 0x40"
abbreviation (input) UART_LSR_TXBUFE :: u8 where "UART_LSR_TXBUFE \<equiv> 0x20"
abbreviation (input) UART_LSR_BREAK :: u8 where "UART_LSR_BREAK \<equiv> 0x10"
abbreviation (input) UART_LSR_FRAME :: u8 where "UART_LSR_FRAME \<equiv> 0x08"
abbreviation (input) UART_LSR_PARITY :: u8 where "UART_LSR_PARITY \<equiv> 0x04"
abbreviation (input) UART_LSR_OVRRUN :: u8 where "UART_LSR_OVRRUN \<equiv> 0x02"
abbreviation (input) UART_LSR_RDRDY :: u8 where "UART_LSR_RDRDY \<equiv> 0x01"
abbreviation (input) UART_IIR_NO_INT :: u8 where "UART_IIR_NO_INT \<equiv> 0x01"
abbreviation (input) UART_IIR_MSI :: u8 where "UART_IIR_MSI \<equiv> 0x00"
abbreviation (input) UART_IIR_THRI :: u8 where "UART_IIR_THRI \<equiv> 0x02"
abbreviation (input) UART_IIR_RDI :: u8 where "UART_IIR_RDI \<equiv> 0x04"
abbreviation (input) UART_IIR_RLSI :: u8 where "UART_IIR_RLSI \<equiv> 0x06"
abbreviation (input) UART_IIR_CTI :: u8 where "UART_IIR_CTI \<equiv> 0x0c"
abbreviation (input) UART_FCR_FIE :: u8 where "UART_FCR_FIE \<equiv> 0x01"
abbreviation (input) UART_FCR_RRXFI :: u8 where "UART_FCR_RRXFI \<equiv> 0x02"
abbreviation (input) UART_FCR_RTXFI :: u8 where "UART_FCR_RTXFI \<equiv> 0x04"
abbreviation (input) UART_IER_MSI :: u8 where "UART_IER_MSI \<equiv> 0x08"
abbreviation (input) UART_IER_RLSI :: u8 where "UART_IER_RLSI \<equiv> 0x04"
abbreviation (input) UART_IER_THRI :: u8 where "UART_IER_THRI \<equiv> 0x02"
abbreviation (input) UART_IER_RDI :: u8 where "UART_IER_RDI \<equiv> 0x01"
abbreviation (input) UART_MCR_LOOP :: u8 where "UART_MCR_LOOP \<equiv> 0x10"
abbreviation (input) UART_MCR_AUX2 :: u8 where "UART_MCR_AUX2 \<equiv> 0x08"
abbreviation (input) UART_MCR_AUX1 :: u8 where "UART_MCR_AUX1 \<equiv> 0x04"
abbreviation (input) UART_MCR_RTS :: u8 where "UART_MCR_RTS \<equiv> 0x02"
abbreviation (input) UART_MCR_DTR :: u8 where "UART_MCR_DTR \<equiv> 0x01"
abbreviation (input) UART_MSR_DCD :: u8 where "UART_MSR_DCD \<equiv> 0x80"
abbreviation (input) UART_MSR_RI :: u8 where "UART_MSR_RI \<equiv> 0x40"
abbreviation (input) UART_MSR_DSR :: u8 where "UART_MSR_DSR \<equiv> 0x20"
abbreviation (input) UART_MSR_CTS :: u8 where "UART_MSR_CTS \<equiv> 0x10"
abbreviation (input) UART_MSR_DDCD :: u8 where "UART_MSR_DDCD \<equiv> 0x08"
abbreviation (input) UART_MSR_TERI :: u8 where "UART_MSR_TERI \<equiv> 0x04"
abbreviation (input) UART_MSR_DDSR :: u8 where "UART_MSR_DDSR \<equiv> 0x02"
abbreviation (input) UART_MSR_DCTS :: u8 where "UART_MSR_DCTS \<equiv> 0x01"

definition UART_FIFO_TRIGGER :: "u8 \<Rightarrow> u32" where
  "UART_FIFO_TRIGGER x = (if x = 0 then 1 else if x = 1 then 4 else if x = 2 then 8 else if x = 3 then 14 else 0)"

section \<open>State\<close>

record dev_16450 =
  txbuf :: "nat \<Rightarrow> u8"
  rxbuf :: "nat \<Rightarrow> u16"
  u_dll :: u8
  u_dlh :: u8
  ier :: u8
  iir :: u8
  fcr :: u8
  lcr :: u8
  mcr :: u8
  lsr :: u8
  msr :: u8
  scr :: u8
  txser :: u8
  rxser :: u16
  u_loopback :: u8
  txbuf_head :: nat
  txbuf_tail :: nat
  rxbuf_head :: nat
  rxbuf_tail :: nat
  txbuf_full :: u32
  rxbuf_full :: u32
  receiveing :: bool
  recv_break :: bool
  ints :: u32
  u_char_clks :: u64
  v_char_clks :: u64
  v_dll :: u8
  v_dlh :: u8
  v_lcr :: u8
  v_skew :: int
  vapi_buf :: "nat \<Rightarrow> u64"
  vapi_buf_head_ptr :: nat
  vapi_buf_tail_ptr :: nat
  fifo_len :: nat
  u_enabled :: bool
  jitter :: int
  u_baseaddr :: u32
  u_irq :: int
  u_vapi_id :: u64
  uart16550 :: bool
  channel_str :: string

datatype uart_job = Int_cti | Char_clock | Send_break | Tx_send | Recv_break | Recv_char | Check_char | Vapi_cmd
  | Recv_break_start | Recv_break_stop

datatype uart_out = To_vapi u64 u64 | To_channel u8

record uart_world =
  uw_uart :: dev_16450
  uw_machine :: machine
  uw_jobs :: "(uart_job \<times> u64) list"
  uw_out :: "uart_out list"

abbreviation ug :: "(dev_16450 \<Rightarrow> 'a) \<Rightarrow> uart_world \<Rightarrow> 'a" where
  "ug f w \<equiv> f (uw_uart w)"

definition upd_u :: "(dev_16450 \<Rightarrow> dev_16450) \<Rightarrow> uart_world \<Rightarrow> uart_world" where
  "upd_u f w = w\<lparr>uw_uart := f (uw_uart w)\<rparr>"

definition add_job :: "uart_job \<Rightarrow> u64 \<Rightarrow> uart_world \<Rightarrow> uart_world" where
  "add_job j d w = w\<lparr>uw_jobs := uw_jobs w @ [(j, d)]\<rparr>"

fun remove_first :: "uart_job \<Rightarrow> (uart_job \<times> u64) list \<Rightarrow> (uart_job \<times> u64) list" where
  "remove_first j [] = []"
| "remove_first j (x # xs) = (if fst x = j then xs else x # remove_first j xs)"

definition find_remove_job :: "uart_job \<Rightarrow> uart_world \<Rightarrow> uart_world" where
  "find_remove_job j w = w\<lparr>uw_jobs := remove_first j (uw_jobs w)\<rparr>"

definition send_out :: "uart_out \<Rightarrow> uart_world \<Rightarrow> uart_world" where
  "send_out x w = w\<lparr>uw_out := uw_out w @ [x]\<rparr>"

definition uart_report :: "uart_world \<Rightarrow> uart_world res" where
  "uart_report w = bind_res (report_interrupt (ug u_irq w) (uw_machine w)) (\<lambda>m. Inr (w\<lparr>uw_machine := m\<rparr>))"

section \<open>Clocks per character\<close>

definition bauds_per_char :: "u8 \<Rightarrow> u64" where
  "bauds_per_char l =
     2 + (if has l UART_LCR_PARITY then 2 else 0)
     + (if has l UART_LCR_STOP then 4 else if l AND 0x3 \<noteq> 0 then 2 else 3)
     + (10 + push_bit 1 (ucast (l AND 0x3)))"

definition char_clks :: "u8 \<Rightarrow> u8 \<Rightarrow> u8 \<Rightarrow> u64" where
  "char_clks dll dlh l = drop_bit 1 ((push_bit 8 (ucast dlh) + ucast dll) * bauds_per_char l)"

section \<open>Interrupts\<close>

definition int_bit :: "u8 \<Rightarrow> u32" where
  "int_bit i = push_bit (unat i) 1"

definition set_int :: "u8 \<Rightarrow> uart_world \<Rightarrow> uart_world" where
  "set_int i = upd_u (\<lambda>u. u\<lparr>ints := ints u OR int_bit i\<rparr>)"

definition report_iir :: "u8 \<Rightarrow> uart_world \<Rightarrow> uart_world res" where
  "report_iir i w = uart_report (upd_u (\<lambda>u. u\<lparr>iir := i\<rparr>) w)"

definition uart_int_msi :: "uart_world \<Rightarrow> uart_world res" where
  "uart_int_msi w =
     (let w = set_int UART_IIR_MSI w
      in if \<not> has (ug ier w) UART_IER_MSI then Inr w
         else if has (ug iir w) UART_IIR_NO_INT \<or> ug iir w = UART_IIR_MSI then report_iir UART_IIR_MSI w
         else Inr w)"

definition uart_int_thri :: "uart_world \<Rightarrow> uart_world res" where
  "uart_int_thri w =
     (let w = set_int UART_IIR_THRI w
      in if \<not> has (ug ier w) UART_IER_THRI then Inr w
         else if has (ug iir w) UART_IIR_NO_INT \<or> ug iir w = UART_IIR_MSI \<or> ug iir w = UART_IIR_THRI
         then report_iir UART_IIR_THRI w
         else Inr w)"

definition uart_int_cti :: "uart_world \<Rightarrow> uart_world res" where
  "uart_int_cti w =
     (let w = set_int UART_IIR_CTI w
      in if \<not> has (ug ier w) UART_IER_RDI then Inr w
         else if ug iir w \<noteq> UART_IIR_RLSI \<and> ug iir w \<noteq> UART_IIR_RDI then report_iir UART_IIR_CTI w
         else Inr w)"

definition uart_int_rdi :: "uart_world \<Rightarrow> uart_world res" where
  "uart_int_rdi w =
     (let w = set_int UART_IIR_RDI w
      in if \<not> has (ug ier w) UART_IER_RDI then Inr w
         else if ug iir w \<noteq> UART_IIR_RLSI then report_iir UART_IIR_RDI w
         else Inr w)"

definition uart_int_rlsi :: "uart_world \<Rightarrow> uart_world res" where
  "uart_int_rlsi w =
     (let w = set_int UART_IIR_RLSI w
      in if \<not> has (ug ier w) UART_IER_RLSI then Inr w else report_iir UART_IIR_RLSI w)"

definition uart_check_rlsi :: "uart_world \<Rightarrow> uart_world res" where
  "uart_check_rlsi w =
     (if has (ug lsr w) (UART_LSR_OVRRUN OR UART_LSR_PARITY OR UART_LSR_FRAME OR UART_LSR_BREAK) then uart_int_rlsi w else Inr w)"

definition uart_check_rdi :: "uart_world \<Rightarrow> uart_world res" where
  "uart_check_rdi w = (if UART_FIFO_TRIGGER (drop_bit 6 (ug fcr w)) \<le> ug rxbuf_full w then uart_int_rdi w else Inr w)"

definition is_due :: "u8 \<Rightarrow> u8 \<Rightarrow> dev_16450 \<Rightarrow> bool" where
  "is_due i e u \<longleftrightarrow> has (ints u) (int_bit i) \<and> has (ier u) e"

definition uart_next_int :: "uart_world \<Rightarrow> uart_world res" where
  "uart_next_int w =
     (if is_due UART_IIR_RLSI UART_IER_RLSI (uw_uart w) then uart_int_rlsi w
      else if is_due UART_IIR_RDI UART_IER_RDI (uw_uart w) then uart_int_rdi w
      else if is_due UART_IIR_CTI UART_IER_RDI (uw_uart w) then uart_int_cti w
      else if is_due UART_IIR_THRI UART_IER_THRI (uw_uart w) then uart_int_thri w
      else if is_due UART_IIR_MSI UART_IER_MSI (uw_uart w) then uart_int_msi w
      else bind_res (clear_interrupt (ug u_irq w) (uw_machine w)) (\<lambda>m.
             Inr (upd_u (\<lambda>u. u\<lparr>iir := UART_IIR_NO_INT\<rparr>) (w\<lparr>uw_machine := m\<rparr>))))"

definition uart_clear_int :: "u8 \<Rightarrow> uart_world \<Rightarrow> uart_world res" where
  "uart_clear_int intr w =
     (let w = upd_u (\<lambda>u. u\<lparr>ints := ints u AND NOT (int_bit intr)\<rparr>) w;
          w = (if intr = UART_IIR_CTI then find_remove_job Int_cti w else w)
      in if intr \<noteq> ug iir w then Inr w else uart_next_int w)"

section \<open>Loopback\<close>

definition loopback_deltas :: "u8 \<Rightarrow> u8 \<Rightarrow> u8" where
  "loopback_deltas c s =
     (let s = (if c AND UART_MCR_AUX2 \<noteq> drop_bit 4 (s AND UART_MSR_DCD) then s OR UART_MSR_DDCD else s);
          s = (if c AND UART_MCR_AUX1 < drop_bit 4 (s AND UART_MSR_RI) then s OR UART_MSR_TERI else s);
          s = (if c AND UART_MCR_RTS \<noteq> drop_bit 3 (s AND UART_MSR_CTS) then s OR UART_MSR_DCTS else s)
      in if c AND UART_MCR_DTR \<noteq> drop_bit 5 (s AND UART_MSR_DSR) then s OR UART_MSR_DDSR else s)"

definition loopback_msr :: "u8 \<Rightarrow> u8 \<Rightarrow> u8" where
  "loopback_msr c s =
     (loopback_deltas c s AND NOT (UART_MSR_DCD OR UART_MSR_RI OR UART_MSR_DSR OR UART_MSR_CTS))
     OR push_bit 4 (c AND UART_MCR_AUX2) OR push_bit 4 (c AND UART_MCR_AUX1)
     OR push_bit 3 (c AND UART_MCR_RTS) OR push_bit 5 (c AND UART_MCR_DTR)"

definition uart_loopback :: "uart_world \<Rightarrow> uart_world res" where
  "uart_loopback w =
     (if \<not> has (ug mcr w) UART_MCR_LOOP then Inr w
      else
        let w = upd_u (\<lambda>u. u\<lparr>msr := loopback_msr (mcr u) (msr u)\<rparr>) w
        in if has (ug msr w) (UART_MSR_DCTS OR UART_MSR_DDSR OR UART_MSR_TERI OR UART_MSR_DDCD) then uart_int_msi w else Inr w)"

section \<open>Transmitter\<close>

definition parity_of :: "nat \<Rightarrow> u64 \<Rightarrow> u64" where
  "parity_of n packet = fold (\<lambda>j par. par XOR (drop_bit j packet AND 1)) [0..<n] 0"

text \<open>The frame the port sends, and how the test bench with its own settings reads it.\<close>

definition encode_packet :: "u8 \<Rightarrow> u8 \<Rightarrow> nat \<Rightarrow> u64" where
  "encode_packet ch l bits_send =
     (let nbits = min bits_send (unat (l AND UART_LCR_WLEN8) + 5);
          packet = ucast ch AND (push_bit nbits 1 - 1);
          par = parity_of nbits packet;
          (packet, nbits) =
            (if has l UART_LCR_PARITY
             then ((if has l UART_LCR_SPAR then packet OR push_bit nbits 1
                    else if has l UART_LCR_EPAR then packet OR push_bit nbits par
                    else packet OR push_bit nbits (par XOR 1)), nbits + 1)
             else (packet, nbits));
          packet = packet OR push_bit nbits 1; nbits = nbits + 1
      in if has l UART_LCR_STOP then packet OR push_bit nbits 1 else packet)"

definition decode_packet :: "u64 \<Rightarrow> u8 \<Rightarrow> u64" where
  "decode_packet packet v =
     (let nbits = unat (v AND UART_LCR_WLEN8) + 5;
          data = packet AND (push_bit nbits 1 - 1);
          par = parity_of (nbits + 1) packet;
          (pe, nbits) =
            (if has v UART_LCR_PARITY
             then (of_bool (if has v UART_LCR_SPAR then drop_bit nbits packet AND 1 = 0
                            else if has v UART_LCR_EPAR then par \<noteq> 0 else par \<noteq> 1), nbits + 1)
             else (0, nbits));
          fe = (drop_bit nbits packet AND 1) XOR 1; nbits = nbits + 1;
          fe = (if has v UART_LCR_STOP then fe OR ((drop_bit nbits packet AND 1) XOR 1) else fe)
      in data OR (push_bit 8 (ucast v) OR push_bit 16 pe OR push_bit 17 fe OR push_bit 8 (ucast v)))"

definition send_char :: "nat \<Rightarrow> uart_world \<Rightarrow> uart_world" where
  "send_char bits_send w =
     (if has (ug mcr w) UART_MCR_LOOP then upd_u (\<lambda>u. u\<lparr>u_loopback := txser u\<rparr>) w
      else if ug u_vapi_id w \<noteq> 0
      then send_out (To_vapi (ug u_vapi_id w) (decode_packet (encode_packet (ug txser w) (ug lcr w) bits_send) (ug v_lcr w))) w
      else send_out (To_channel (ug txser w)) w)"

definition uart_tx_send :: "uart_world \<Rightarrow> uart_world res" where
  "uart_tx_send w =
     (let w = upd_u (\<lambda>u. u\<lparr>txser := txbuf u (txbuf_tail u), txbuf_tail := (txbuf_tail u + 1) mod fifo_len u,
                            txbuf_full := txbuf_full u - 1, lsr := lsr u AND NOT UART_LSR_TXSERE\<rparr>) w;
          w = (if \<not> has (ug lcr w) UART_LCR_SBC then add_job Char_clock (ug u_char_clks w * UART_CLOCK_DIVIDER) w
               else add_job Send_break 0 w)
      in if ug txbuf_full w = 0 then uart_int_thri (upd_u (\<lambda>u. u\<lparr>lsr := lsr u OR UART_LSR_TXBUFE\<rparr>) w) else Inr w)"

definition tx_next :: "uart_world \<Rightarrow> uart_world res" where
  "tx_next w =
     (if ug txbuf_full w = 0 then Inr (upd_u (\<lambda>u. u\<lparr>lsr := lsr u OR UART_LSR_TXSERE\<rparr>) w) else uart_tx_send w)"

definition uart_char_clock :: "uart_world \<Rightarrow> uart_world res" where
  "uart_char_clock w = tx_next (send_char (unat (ug lcr w AND UART_LCR_WLEN8) + 5) w)"

definition uart_send_break :: "uart_world \<Rightarrow> uart_world res" where
  "uart_send_break w = tx_next (send_out (To_vapi (ug u_vapi_id w) (push_bit 8 (ucast UART_LCR_SBC))) w)"

section \<open>Receiver\<close>

definition rx_put :: "u16 \<Rightarrow> dev_16450 \<Rightarrow> dev_16450" where
  "rx_put ch u = u\<lparr>rxbuf := (rxbuf u)(rxbuf_head u := ch), rxbuf_head := (rxbuf_head u + 1) mod fifo_len u,
                   rxbuf_full := rxbuf_full u + 1\<rparr>"

definition uart_add_char :: "u32 \<Rightarrow> uart_world \<Rightarrow> uart_world res" where
  "uart_add_char ch w =
     bind_res (uart_clear_int UART_IIR_CTI (upd_u (\<lambda>u. u\<lparr>lsr := lsr u OR UART_LSR_RDRDY\<rparr>) w)) (\<lambda>w.
       let w = add_job Int_cti (ug u_char_clks w * UART_CHAR_TIMEOUT * UART_CLOCK_DIVIDER) w
       in bind_res
            (if word_of_nat (ug fifo_len w) < ug rxbuf_full w + 1
             then uart_int_rlsi (upd_u (\<lambda>u. u\<lparr>lsr := lsr u OR (UART_LSR_OVRRUN OR UART_LSR_RXERR)\<rparr>) w)
             else
               let was_empty = (ug rxbuf_full w = 0); w = upd_u (rx_put (ucast ch)) w
               in if was_empty
                  then uart_check_rlsi (upd_u (\<lambda>u. u\<lparr>lsr := lsr u OR ucast (drop_bit 8 ch)\<rparr>) w)
                  else Inr w)
            uart_check_rdi)"

definition uart_recv_break_stop :: "uart_world \<Rightarrow> uart_world" where
  "uart_recv_break_stop w = find_remove_job Recv_break (upd_u (\<lambda>u. u\<lparr>recv_break := False\<rparr>) w)"

definition uart_recv_break :: "uart_world \<Rightarrow> uart_world res" where
  "uart_recv_break w = uart_add_char (push_bit 8 (ucast (UART_LSR_BREAK OR UART_LSR_RXERR OR UART_LSR_RDRDY))) w"

definition uart_sched_recv_check :: "uart_world \<Rightarrow> uart_world" where
  "uart_sched_recv_check w =
     (if ug u_vapi_id w = 0 then add_job Check_char (UART_FGETC_SLOWDOWN * UART_CLOCK_DIVIDER) w else w)"

definition vapi_waiting :: "dev_16450 \<Rightarrow> bool" where
  "vapi_waiting u \<longleftrightarrow> u_vapi_id u \<noteq> 0 \<and> vapi_buf_head_ptr u \<noteq> vapi_buf_tail_ptr u"

definition uart_recv_char :: "uart_world \<Rightarrow> uart_world res" where
  "uart_recv_char w =
     (let char_to_add = rxser (uw_uart w) AND ((push_bit (unat (ug lcr w AND 3) + 5) 1 - 1) OR 0xff00);
          w = (if has (ug mcr w) UART_MCR_LOOP
               then add_job Recv_char (ug u_char_clks w * UART_CLOCK_DIVIDER)
                      (upd_u (\<lambda>u. u\<lparr>rxser := ucast (u_loopback u), receiveing := True\<rparr>) w)
               else
                 let w = uart_sched_recv_check (upd_u (\<lambda>u. u\<lparr>receiveing := False\<rparr>) w)
                 in if vapi_waiting (uw_uart w) then add_job Vapi_cmd 0 w else w)
      in uart_add_char (ucast char_to_add) w)"

text \<open>\<open>retval\<close> and \<open>buffer\<close> are what \<open>channel_read\<close> returns and fills in.\<close>

definition uart_check_char :: "int \<Rightarrow> u8 \<Rightarrow> uart_world \<Rightarrow> uart_world" where
  "uart_check_char retval buffer w =
     (if 0 < retval
      then add_job Recv_char (ug u_char_clks w * UART_CLOCK_DIVIDER)
             (upd_u (\<lambda>u. u\<lparr>rxser := ucast buffer, receiveing := True\<rparr>) w)
      else if retval = 0 then add_job Check_char (UART_FGETC_SLOWDOWN * UART_CLOCK_DIVIDER) w
      else w)"

section \<open>Register accesses\<close>

definition tx_put :: "u8 \<Rightarrow> dev_16450 \<Rightarrow> dev_16450" where
  "tx_put v u = u\<lparr>txbuf := (txbuf u)(txbuf_head u := v), txbuf_head := (txbuf_head u + 1) mod fifo_len u,
                  txbuf_full := txbuf_full u + 1\<rparr>"

definition write_txbuf :: "u8 \<Rightarrow> uart_world \<Rightarrow> uart_world res" where
  "write_txbuf v w =
     (let w = upd_u (\<lambda>u. u\<lparr>lsr := lsr u AND NOT UART_LSR_TXBUFE\<rparr>) w;
          w = (if ug txbuf_full w < word_of_nat (ug fifo_len w)
               then let was_empty = (ug txbuf_full w = 0); w = upd_u (tx_put v) w
                    in if was_empty \<and> has (ug lsr w) UART_LSR_TXSERE then add_job Tx_send 0 w else w
               else upd_u (\<lambda>u. u\<lparr>txbuf := (txbuf u)(txbuf_head u := v)\<rparr>) w)
      in uart_clear_int UART_IIR_THRI w)"

definition write_fcr :: "u8 \<Rightarrow> uart_world \<Rightarrow> uart_world res" where
  "write_fcr v w =
     (let w = upd_u (\<lambda>u. u\<lparr>fcr := v AND UART_VALID_FCR\<rparr>) w;
          v = (if ug fifo_len w = 1 \<and> has v UART_FCR_FIE \<or> ug fifo_len w \<noteq> 1 \<and> \<not> has v UART_FCR_FIE
               then v OR (UART_FCR_RRXFI OR UART_FCR_RTXFI) else v);
          w = upd_u (\<lambda>u. u\<lparr>fifo_len := (if has v UART_FCR_FIE then 16 else 1)\<rparr>) w
      in bind_res
           (if has v UART_FCR_RTXFI
            then let w = upd_u (\<lambda>u. u\<lparr>txbuf_head := 0, txbuf_tail := 0, txbuf_full := 0, lsr := lsr u OR UART_LSR_TXBUFE\<rparr>) w
                 in bind_res (if ug fifo_len w = 16 then uart_int_thri w else Inr w) (\<lambda>w. Inr (find_remove_job Tx_send w))
            else Inr w)
           (\<lambda>w. if has v UART_FCR_RRXFI
                then let w = upd_u (\<lambda>u. u\<lparr>rxbuf_head := 0, rxbuf_tail := 0, rxbuf_full := 0, lsr := lsr u AND NOT UART_LSR_RDRDY\<rparr>) w
                     in bind_res (uart_clear_int UART_IIR_RDI w) (uart_clear_int UART_IIR_CTI)
                else Inr w))"

definition write_lcr :: "u8 \<Rightarrow> uart_world \<Rightarrow> uart_world" where
  "write_lcr v w =
     (let w = (if ug lcr w AND UART_LCR_SBC \<noteq> v AND UART_LCR_SBC
               then let w = (if has v UART_LCR_SBC \<and> \<not> has (ug lsr w) UART_LSR_TXSERE
                             then add_job Send_break 0 (find_remove_job Char_clock w) else w)
                    in if \<not> has v UART_LCR_SBC \<and> \<not> has (ug lsr w) UART_LSR_TXSERE
                       then find_remove_job Char_clock (add_job Tx_send 0 w) else w
               else w)
      in upd_u (\<lambda>u. u\<lparr>lcr := v AND UART_VALID_LCR, u_char_clks := char_clks (u_dll u) (u_dlh u) (v AND UART_VALID_LCR)\<rparr>) w)"

definition uart_write_byte :: "u32 \<Rightarrow> u8 \<Rightarrow> uart_world \<Rightarrow> uart_world res" where
  "uart_write_byte addr v w =
     (if has (ug lcr w) UART_LCR_DLAB \<and> addr = UART_DLL
      then Inr (upd_u (\<lambda>u. u\<lparr>u_dll := v, u_char_clks := char_clks v (u_dlh u) (lcr u)\<rparr>) w)
      else if has (ug lcr w) UART_LCR_DLAB \<and> addr = UART_DLH then Inr (upd_u (\<lambda>u. u\<lparr>u_dlh := v\<rparr>) w)
      else if addr = UART_TXBUF then write_txbuf v w
      else if addr = UART_FCR then write_fcr v w
      else if addr = UART_IER then uart_next_int (upd_u (\<lambda>u. u\<lparr>ier := v AND UART_VALID_IER\<rparr>) w)
      else if addr = UART_LCR then Inr (write_lcr v w)
      else if addr = UART_MCR then uart_loopback (upd_u (\<lambda>u. u\<lparr>mcr := v AND UART_VALID_MCR\<rparr>) w)
      else if addr = UART_SCR then Inr (upd_u (\<lambda>u. u\<lparr>scr := v\<rparr>) w)
      else Inr w)"

definition rx_get :: "dev_16450 \<Rightarrow> dev_16450" where
  "rx_get u = u\<lparr>rxbuf_tail := (rxbuf_tail u + 1) mod fifo_len u, rxbuf_full := rxbuf_full u - 1\<rparr>"

definition read_rxbuf :: "uart_world \<Rightarrow> (u8 \<times> uart_world) res" where
  "read_rxbuf w =
     (let (v, w) = (if ug rxbuf_full w \<noteq> 0 then (ucast (ug rxbuf w (ug rxbuf_tail w)), upd_u rx_get w) else (0, w))
      in bind_res (uart_clear_int UART_IIR_RDI w) (\<lambda>w. bind_res (uart_clear_int UART_IIR_CTI w) (\<lambda>w.
           if ug rxbuf_full w \<noteq> 0
           then let w = upd_u (\<lambda>u. u\<lparr>lsr := lsr u OR (UART_LSR_RDRDY OR ucast (drop_bit 8 (rxbuf u (rxbuf_tail u))))\<rparr>) w;
                    w = add_job Int_cti (ug u_char_clks w * UART_CHAR_TIMEOUT * UART_CLOCK_DIVIDER) w
                in bind_res (uart_check_rlsi w) (\<lambda>w. bind_res (uart_check_rdi w) (\<lambda>w. Inr (v, w)))
           else Inr (v, upd_u (\<lambda>u. u\<lparr>lsr := lsr u AND NOT UART_LSR_RDRDY\<rparr>) w))))"

definition uart_read_byte :: "u32 \<Rightarrow> uart_world \<Rightarrow> (u8 \<times> uart_world) res" where
  "uart_read_byte addr w =
     (if has (ug lcr w) UART_LCR_DLAB \<and> addr = UART_DLL then Inr (ug u_dll w, w)
      else if has (ug lcr w) UART_LCR_DLAB \<and> addr = UART_DLH then Inr (ug u_dlh w, w)
      else if addr = UART_RXBUF then read_rxbuf w
      else if addr = UART_IER then Inr (ug ier w AND UART_VALID_IER, w)
      else if addr = UART_IIR
      then let v = (ug iir w AND UART_VALID_IIR) OR 0xc0
           in bind_res (if ug iir w = UART_IIR_THRI then uart_clear_int UART_IIR_THRI w else Inr w) (\<lambda>w. Inr (v, w))
      else if addr = UART_LCR then Inr (ug lcr w AND UART_VALID_LCR, w)
      else if addr = UART_MCR then Inr (0, w)
      else if addr = UART_LSR
      then let v = ug lsr w AND UART_VALID_LSR
           in bind_res (uart_clear_int UART_IIR_RLSI (upd_u (\<lambda>u. u\<lparr>lsr := lsr u AND
                NOT (UART_LSR_OVRRUN OR UART_LSR_BREAK OR UART_LSR_PARITY OR UART_LSR_FRAME OR UART_LSR_RXERR)\<rparr>) w))
                (\<lambda>w. Inr (v, w))
      else if addr = UART_MSR
      then let v = ug msr w AND UART_VALID_MSR
           in bind_res (uart_clear_int UART_IIR_MSI (upd_u (\<lambda>u. u\<lparr>msr := 0\<rparr>) w)) (\<lambda>w.
                bind_res (uart_loopback w) (\<lambda>w. Inr (v, w)))
      else if addr = UART_SCR then Inr (ug scr w, w)
      else Inr (0, w))"

section \<open>Commands of the test bench\<close>

definition vapi_char :: "u64 \<Rightarrow> dev_16450 \<Rightarrow> dev_16450" where
  "vapi_char data u =
     (let u = u\<lparr>v_lcr := ucast (drop_bit 8 data), rxser := ucast (data AND 0xff)\<rparr>;
          u = u\<lparr>v_char_clks := char_clks (v_dll u) (v_dlh u) (v_lcr u)\<rparr>;
          mismatch = (v_lcr u AND NOT UART_LCR_SBC \<noteq> lcr u AND NOT UART_LCR_SBC \<or> v_char_clks u \<noteq> u_char_clks u
                      \<or> v_skew u < - MAX_SKEW \<or> MAX_SKEW < v_skew u);
          u = (if mismatch then u\<lparr>rxser := rxser u OR push_bit 8 (ucast (UART_LSR_FRAME OR UART_LSR_RXERR))\<rparr> else u)
      in if mismatch \<and> has (lcr u) UART_LCR_PARITY then u\<lparr>rxser := rxser u OR push_bit 8 (ucast UART_LSR_PARITY)\<rparr> else u)"

text \<open>
  The loop over the commands; a command that starts a break handles the commands behind it first. Every round takes a command
  out of the buffer, so the fuel \<open>UART_VAPI_BUF_LEN\<close> is enough (\<open>uart_vapi_cmd_returns\<close> below).
\<close>

definition break_start :: "(uart_world \<Rightarrow> uart_world res option) \<Rightarrow> uart_world \<Rightarrow> uart_world res option" where
  "break_start cmd w =
     (let w = find_remove_job Recv_char (upd_u (\<lambda>u. u\<lparr>receiveing := False, recv_break := True\<rparr>) w)
      in bind_run (if vapi_waiting (uw_uart w) then cmd w else Some (Inr w)) (\<lambda>w.
           Some (Inr (add_job Recv_break (UART_BREAK_COUNT * ug v_char_clks w * UART_CLOCK_DIVIDER) w))))"

definition vapi_take :: "dev_16450 \<Rightarrow> dev_16450" where
  "vapi_take u = u\<lparr>vapi_buf_tail_ptr := (vapi_buf_tail_ptr u + 1) mod UART_VAPI_BUF_LEN\<rparr>"

primrec uart_vapi_loop :: "nat \<Rightarrow> uart_world \<Rightarrow> uart_world res option" where
  "uart_vapi_loop 0 = (\<lambda>w. None)"
| "uart_vapi_loop (Suc n) = (\<lambda>w.
     if ug vapi_buf_head_ptr w = ug vapi_buf_tail_ptr w then Some (Inr w)
     else
       let data = ug vapi_buf w (ug vapi_buf_tail_ptr w); w = upd_u vapi_take w; cmd = drop_bit 24 data
       in if cmd = 0
          then let w = upd_u (vapi_char data) w
               in Some (Inr (if \<not> ug recv_break w
                             then add_job Recv_char (ug u_char_clks w * UART_CLOCK_DIVIDER) (upd_u (\<lambda>u. u\<lparr>receiveing := True\<rparr>) w)
                             else w))
          else
            bind_run
              (if cmd = 1 then Some (Inr (upd_u (\<lambda>u. u\<lparr>v_dll := ucast data, v_dlh := ucast (drop_bit 8 data)\<rparr>) w))
               else if cmd = 2 then Some (Inr (upd_u (\<lambda>u. u\<lparr>v_lcr := ucast (drop_bit 8 data)\<rparr>) w))
               else if cmd = 3 then Some (Inr (upd_u (\<lambda>u. u\<lparr>v_skew := sint (ucast data :: u16)\<rparr>) w))
               else if cmd = 4
               then if bit data 16
                    then if data AND 0xffff = 0 then break_start (uart_vapi_loop n) w
                         else Some (Inr (add_job Recv_break_start ((data AND 0xffff) * UART_CLOCK_DIVIDER) w))
                    else if data AND 0xffff = 0 then Some (Inr (uart_recv_break_stop w))
                         else Some (Inr (add_job Recv_break_stop ((data AND 0xffff) * UART_CLOCK_DIVIDER) w))
               else Some (Inr w))
              (uart_vapi_loop n))"

definition uart_vapi_cmd :: "uart_world \<Rightarrow> uart_world res option" where
  "uart_vapi_cmd = uart_vapi_loop UART_VAPI_BUF_LEN"

definition uart_recv_break_start :: "uart_world \<Rightarrow> uart_world res option" where
  "uart_recv_break_start = break_start uart_vapi_cmd"

definition uart_vapi_read :: "u64 \<Rightarrow> uart_world \<Rightarrow> uart_world res option" where
  "uart_vapi_read data w =
     (let w = upd_u (\<lambda>u. u\<lparr>vapi_buf := (vapi_buf u)(vapi_buf_head_ptr u := data),
                            vapi_buf_head_ptr := (vapi_buf_head_ptr u + 1) mod UART_VAPI_BUF_LEN\<rparr>) w
      in if ug vapi_buf_tail_ptr w = ug vapi_buf_head_ptr w then Some (Inl Exit_failure)
         else if \<not> ug receiveing w then uart_vapi_cmd w
         else Some (Inr w))"

section \<open>Reset and configuration\<close>

definition reset_regs :: "dev_16450 \<Rightarrow> dev_16450" where
  "reset_regs u =
     u\<lparr>fifo_len := (if uart16550 u then 16 else 1), rxbuf_head := 0, rxbuf_tail := 0, txbuf_head := 0, txbuf_tail := 0,
       txbuf_full := 0, rxbuf_full := 0, u_char_clks := 0, txser := 0, rxser := 0, u_loopback := 0, receiveing := False,
       recv_break := False, ints := 0, txbuf := (\<lambda>_. 0), rxbuf := (\<lambda>_. 0), u_dll := 0, u_dlh := 0, ier := 0,
       iir := UART_IIR_NO_INT, fcr := 0, lcr := UART_LCR_RESET, mcr := 0, lsr := UART_LSR_TXBUFE OR UART_LSR_TXSERE, msr := 0,
       scr := 0, v_skew := 0, v_lcr := 0, v_dll := 0, v_char_clks := 0, vapi_buf_head_ptr := 0, vapi_buf_tail_ptr := 0,
       vapi_buf := (\<lambda>_. 0)\<rparr>"

text \<open>Opening the channel and installing the handler of the test bench leave no state here.\<close>

definition uart_reset :: "uart_world \<Rightarrow> uart_world" where
  "uart_reset w = uart_sched_recv_check (upd_u reset_regs w)"

definition uart_baseaddr :: "u32 \<Rightarrow> dev_16450 \<Rightarrow> dev_16450" where
  "uart_baseaddr val u = u\<lparr>u_baseaddr := val\<rparr>"

definition uart_jitter :: "int \<Rightarrow> dev_16450 \<Rightarrow> dev_16450" where
  "uart_jitter val u = u\<lparr>jitter := val\<rparr>"

definition uart_irq :: "int \<Rightarrow> dev_16450 \<Rightarrow> dev_16450" where
  "uart_irq val u = u\<lparr>u_irq := val\<rparr>"

definition uart_16550 :: "int \<Rightarrow> dev_16450 \<Rightarrow> dev_16450" where
  "uart_16550 val u = u\<lparr>uart16550 := val \<noteq> 0\<rparr>"

text \<open>\<open>copy\<close> is what \<open>strdup\<close> returns.\<close>

definition uart_channel :: "string option \<Rightarrow> dev_16450 \<Rightarrow> dev_16450 res" where
  "uart_channel copy u = (case copy of None \<Rightarrow> Inl Exit_failure | Some s \<Rightarrow> Inr (u\<lparr>channel_str := s\<rparr>))"

definition uart_vapi_id :: "int \<Rightarrow> dev_16450 \<Rightarrow> dev_16450" where
  "uart_vapi_id val u = u\<lparr>u_vapi_id := word_of_int val\<rparr>"

definition uart_enabled :: "int \<Rightarrow> dev_16450 \<Rightarrow> dev_16450" where
  "uart_enabled val u = u\<lparr>u_enabled := val \<noteq> 0\<rparr>"

text \<open>\<open>fresh\<close> is what \<open>malloc\<close> leaves in the fields that are not set.\<close>

definition uart_sec_start :: "dev_16450 \<Rightarrow> dev_16450" where
  "uart_sec_start fresh = fresh\<lparr>u_enabled := True, u_baseaddr := 0, u_irq := 0, uart16550 := False, jitter := 0,
     channel_str := ''xterm:'', u_vapi_id := 0\<rparr>"

section \<open>What interrupts leave alone\<close>

definition rest :: "dev_16450 \<Rightarrow> dev_16450" where
  "rest u = u\<lparr>ints := 0, iir := 0\<rparr>"

lemma ug_upd_u [simp]: "uw_uart (upd_u f w) = f (uw_uart w)" "uw_machine (upd_u f w) = uw_machine w"
    "uw_jobs (upd_u f w) = uw_jobs w" "uw_out (upd_u f w) = uw_out w"
  by (simp_all add: upd_u_def)

lemma job_simps [simp]:
  "uw_uart (add_job j d w) = uw_uart w" "uw_uart (find_remove_job j w) = uw_uart w" "uw_uart (send_out x w) = uw_uart w"
  "uw_machine (add_job j d w) = uw_machine w" "uw_machine (find_remove_job j w) = uw_machine w"
  "uw_jobs (add_job j d w) = uw_jobs w @ [(j, d)]" "uw_jobs (find_remove_job j w) = remove_first j (uw_jobs w)"
  "uw_jobs (send_out x w) = uw_jobs w"
  by (simp_all add: add_job_def find_remove_job_def send_out_def)

lemma rest_flags [simp]: "rest (u\<lparr>ints := a\<rparr>) = rest u" "rest (u\<lparr>iir := b\<rparr>) = rest u"
  by (simp_all add: rest_def)

lemma report_iir_rest: "report_iir i w = Inr w' \<Longrightarrow> rest (uw_uart w') = rest (uw_uart w)"
  by (auto simp: report_iir_def uart_report_def bind_res_eq_Inr)

lemma set_int_uart [simp]:
  "rest (uw_uart (set_int i w)) = rest (uw_uart w)" "ug ier (set_int i w) = ug ier w" "ug iir (set_int i w) = ug iir w"
  "uw_machine (set_int i w) = uw_machine w"
  by (simp_all add: set_int_def)

lemma uart_int_rest:
  "uart_int_msi w = Inr w' \<Longrightarrow> rest (uw_uart w') = rest (uw_uart w)"
  "uart_int_thri w = Inr w' \<Longrightarrow> rest (uw_uart w') = rest (uw_uart w)"
  "uart_int_cti w = Inr w' \<Longrightarrow> rest (uw_uart w') = rest (uw_uart w)"
  "uart_int_rdi w = Inr w' \<Longrightarrow> rest (uw_uart w') = rest (uw_uart w)"
  "uart_int_rlsi w = Inr w' \<Longrightarrow> rest (uw_uart w') = rest (uw_uart w)"
  by (auto simp: uart_int_msi_def uart_int_thri_def uart_int_cti_def uart_int_rdi_def uart_int_rlsi_def Let_def
      dest!: report_iir_rest split: if_splits)

lemma uart_check_rest:
  "uart_check_rlsi w = Inr w' \<Longrightarrow> rest (uw_uart w') = rest (uw_uart w)"
  "uart_check_rdi w = Inr w' \<Longrightarrow> rest (uw_uart w') = rest (uw_uart w)"
  by (auto simp: uart_check_rlsi_def uart_check_rdi_def dest: uart_int_rest split: if_splits)

lemma uart_next_int_rest: "uart_next_int w = Inr w' \<Longrightarrow> rest (uw_uart w') = rest (uw_uart w)"
  by (auto simp: uart_next_int_def bind_res_eq_Inr dest: uart_int_rest split: if_splits)

lemma uart_clear_int_rest: "uart_clear_int i w = Inr w' \<Longrightarrow> rest (uw_uart w') = rest (uw_uart w)"
  by (auto simp: uart_clear_int_def Let_def dest!: uart_next_int_rest split: if_splits)

section \<open>Ring buffers\<close>

definition ring_items :: "(nat \<Rightarrow> 'a) \<Rightarrow> nat \<Rightarrow> nat \<Rightarrow> nat \<Rightarrow> 'a list" where
  "ring_items buf t n len = map (\<lambda>i. buf ((t + i) mod len)) [0..<n]"

lemma length_ring_items [simp]: "length (ring_items buf t n len) = n"
  by (simp add: ring_items_def)

lemma ring_items_Suc:
  "t < len \<Longrightarrow> ring_items buf t (Suc n) len = buf t # ring_items buf ((t + 1) mod len) n len"
  by (simp add: ring_items_def map_upt_Suc mod_add_left_eq del: upt_Suc)

lemma ring_position_differs:
  assumes "i < n" and "n < (len :: nat)"
  shows "(t + i) mod len \<noteq> (t + n) mod len"
proof
  assume "(t + i) mod len = (t + n) mod len"
  then have "len dvd (t + n) - (t + i)" using assms mod_eq_dvd_iff_nat[of "t + i" "t + n" len] by simp
  then show False using assms dvd_imp_le[of len "n - i"] by simp
qed

lemma ring_items_put:
  assumes "n < len" and "h = (t + n) mod len"
  shows "ring_items (buf(h := x)) t (Suc n) len = ring_items buf t n len @ [x]"
  using assms ring_position_differs[of _ n len t] by (simp add: ring_items_def)

lemma ring_items_oldest:
  assumes "t < len" and "Suc n \<le> len"
  shows "ring_items (buf(t := y)) t (Suc n) len = y # ring_items buf ((t + 1) mod len) n len"
proof -
  have "(t + 1 + i) mod len \<noteq> t" if "i < n" for i
    using ring_position_differs[of 0 "Suc i" len t] that assms by simp
  then show ?thesis
    by (simp add: ring_items_Suc[OF assms(1)]) (simp add: ring_items_def mod_add_left_eq)
qed

section \<open>The transmit FIFO\<close>

definition tx_ok :: "nat \<Rightarrow> dev_16450 \<Rightarrow> bool" where
  "tx_ok len u \<longleftrightarrow> fifo_len u = len \<and> txbuf_tail u < len \<and> unat (txbuf_full u) \<le> len
     \<and> txbuf_head u = (txbuf_tail u + unat (txbuf_full u)) mod len"

definition tx_items :: "dev_16450 \<Rightarrow> u8 list" where
  "tx_items u = ring_items (txbuf u) (txbuf_tail u) (unat (txbuf_full u)) (fifo_len u)"

definition tx_pop :: "dev_16450 \<Rightarrow> dev_16450" where
  "tx_pop u = u\<lparr>txbuf_tail := (txbuf_tail u + 1) mod fifo_len u, txbuf_full := txbuf_full u - 1\<rparr>"

definition tx_set_oldest :: "u8 \<Rightarrow> dev_16450 \<Rightarrow> dev_16450" where
  "tx_set_oldest v u = u\<lparr>txbuf := (txbuf u)(txbuf_tail u := v)\<rparr>"

lemma unat_Suc_u32: "unat (x :: u32) < 16 \<Longrightarrow> unat (x + 1) = Suc (unat x)"
  by (simp add: unat_plus_if_size word_size)

lemma unat_pred_u32: "unat (x :: u32) = Suc n \<Longrightarrow> unat (x - 1) = n"
  using unat_minus_one[of x] by force

lemma tx_fifo:
  assumes "0 < len" and "len \<le> 16"
  shows "fifo (tx_ok len) tx_items tx_pop tx_put tx_set_oldest len"
proof
  fix u :: dev_16450 and x :: u8 and xs
  assume ok: "tx_ok len u" and it: "tx_items u = x # xs"
  define n where "n = length xs"
  have full: "unat (txbuf_full u) = Suc n" using arg_cong[OF it, of length] by (simp add: tx_items_def n_def)
  have xs: "xs = ring_items (txbuf u) ((txbuf_tail u + 1) mod len) n len"
    using it ok ring_items_Suc[of "txbuf_tail u" len "txbuf u" n] by (simp add: tx_items_def full tx_ok_def)
  show "tx_ok len (tx_pop u) \<and> tx_items (tx_pop u) = xs"
    using ok assms full unat_pred_u32[OF full]
    by (simp add: tx_ok_def tx_pop_def tx_items_def xs mod_add_left_eq)
  fix y
  show "tx_ok len (tx_set_oldest y u) \<and> tx_items (tx_set_oldest y u) = y # xs"
    using ok full ring_items_oldest[of "txbuf_tail u" len n "txbuf u" y]
    by (simp add: tx_ok_def tx_set_oldest_def tx_items_def xs)
next
  fix u :: dev_16450 and x :: u8
  assume ok: "tx_ok len u" and room: "length (tx_items u) < len"
  then have n: "unat (txbuf_full u) < len" by (simp add: tx_items_def)
  with assms have "unat (txbuf_full u + 1) = Suc (unat (txbuf_full u))" by (intro unat_Suc_u32) simp
  then show "tx_ok len (tx_put x u) \<and> tx_items (tx_put x u) = tx_items u @ [x]"
    using ok n ring_items_put[of "unat (txbuf_full u)" len "txbuf_head u" "txbuf_tail u" "txbuf u" x]
    by (simp add: tx_ok_def tx_put_def tx_items_def mod_Suc_eq)
qed

text \<open>The 16450 has one place, the 16550 sixteen.\<close>

interpretation tx1: fifo "tx_ok 1" tx_items tx_pop tx_put tx_set_oldest 1
  by (rule tx_fifo) simp_all

interpretation tx16: fifo "tx_ok 16" tx_items tx_pop tx_put tx_set_oldest 16
  by (rule tx_fifo) simp_all

section \<open>The receive FIFO\<close>

definition rx_ok :: "dev_16450 \<Rightarrow> bool" where
  "rx_ok u \<longleftrightarrow> 0 < fifo_len u \<and> fifo_len u \<le> 16 \<and> rxbuf_tail u < fifo_len u \<and> unat (rxbuf_full u) \<le> fifo_len u
     \<and> rxbuf_head u = (rxbuf_tail u + unat (rxbuf_full u)) mod fifo_len u"

definition rx_items :: "dev_16450 \<Rightarrow> u16 list" where
  "rx_items u = ring_items (rxbuf u) (rxbuf_tail u) (unat (rxbuf_full u)) (fifo_len u)"

lemma rx_get_items:
  assumes ok: "rx_ok u" and it: "rx_items u = x # xs"
  shows "rx_ok (rx_get u)" and "rx_items (rx_get u) = xs" and "rxbuf u (rxbuf_tail u) = x"
proof -
  define n where "n = length xs"
  have full: "unat (rxbuf_full u) = Suc n" using arg_cong[OF it, of length] by (simp add: rx_items_def n_def)
  have "ring_items (rxbuf u) (rxbuf_tail u) (Suc n) (fifo_len u)
      = rxbuf u (rxbuf_tail u) # ring_items (rxbuf u) ((rxbuf_tail u + 1) mod fifo_len u) n (fifo_len u)"
    using ok by (intro ring_items_Suc) (simp add: rx_ok_def)
  then have xs: "x = rxbuf u (rxbuf_tail u)" "xs = ring_items (rxbuf u) ((rxbuf_tail u + 1) mod fifo_len u) n (fifo_len u)"
    using it by (simp_all add: rx_items_def full)
  then show "rx_items (rx_get u) = xs" "rxbuf u (rxbuf_tail u) = x"
    using unat_pred_u32[OF full] by (simp_all add: rx_items_def rx_get_def)
  show "rx_ok (rx_get u)"
    using ok full unat_pred_u32[OF full] by (simp add: rx_ok_def rx_get_def mod_add_left_eq)
qed

lemma rx_put_items:
  assumes ok: "rx_ok u" and room: "length (rx_items u) < fifo_len u"
  shows "rx_ok (rx_put x u)" and "rx_items (rx_put x u) = rx_items u @ [x]"
proof -
  have n: "unat (rxbuf_full u) < fifo_len u" using room by (simp add: rx_items_def)
  then have "unat (rxbuf_full u + 1) = Suc (unat (rxbuf_full u))" using ok by (intro unat_Suc_u32) (simp add: rx_ok_def)
  then show "rx_ok (rx_put x u)" "rx_items (rx_put x u) = rx_items u @ [x]"
    using ok n ring_items_put[of "unat (rxbuf_full u)" "fifo_len u" "rxbuf_head u" "rxbuf_tail u" "rxbuf u" x]
    by (simp_all add: rx_ok_def rx_put_def rx_items_def mod_Suc_eq)
qed

text \<open>The part of the state the receive FIFO is made of.\<close>

definition rx_part :: "dev_16450 \<Rightarrow> (nat \<Rightarrow> u16) \<times> nat \<times> nat \<times> u32 \<times> nat" where
  "rx_part u = (rxbuf u, rxbuf_head u, rxbuf_tail u, rxbuf_full u, fifo_len u)"

lemma rx_part_rest: "rest u = rest v \<Longrightarrow> rx_part u = rx_part v"
proof -
  assume "rest u = rest v"
  then have "rx_part (rest u) = rx_part (rest v)" by simp
  then show ?thesis by (simp add: rx_part_def rest_def)
qed

lemma rx_part_keeps: "rx_part u = rx_part v \<Longrightarrow> rx_ok u = rx_ok v \<and> rx_items u = rx_items v"
  by (simp add: rx_part_def rx_ok_def rx_items_def)

lemma rx_part_lsr [simp]: "rx_part (u\<lparr>lsr := l\<rparr>) = rx_part u"
  by (simp add: rx_part_def)

section \<open>Receiving and reading\<close>

datatype rx_event = Arrive u32 | Fetch

fun rx_run :: "rx_event list \<Rightarrow> uart_world \<Rightarrow> (u8 list \<times> uart_world) res" where
  "rx_run [] w = Inr ([], w)"
| "rx_run (Arrive ch # es) w = bind_res (uart_add_char ch w) (rx_run es)"
| "rx_run (Fetch # es) w = bind_res (read_rxbuf w) (\<lambda>(v, w). bind_res (rx_run es w) (\<lambda>(vs, w). Inr (v # vs, w)))"

text \<open>A queue with \<open>len\<close> places; what does not fit is lost, and an empty queue reads as 0.\<close>

fun rx_spec :: "nat \<Rightarrow> rx_event list \<Rightarrow> u16 list \<Rightarrow> u8 list \<times> u16 list" where
  "rx_spec len [] q = ([], q)"
| "rx_spec len (Arrive ch # es) q = rx_spec len es (if length q < len then q @ [ucast ch] else q)"
| "rx_spec len (Fetch # es) q =
     (let (vs, q') = rx_spec len es (tl q) in ((if q = [] then 0 else ucast (hd q)) # vs, q'))"

text \<open>Polled mode: no interrupt is enabled.\<close>

definition polled :: "dev_16450 \<Rightarrow> bool" where
  "polled u \<longleftrightarrow> ier u = 0 \<and> 0 \<le> u_irq u \<and> u_irq u < 32"

lemma polled_rest: "rest u = rest v \<Longrightarrow> polled u = polled v"
proof -
  assume "rest u = rest v"
  then have "polled (rest u) = polled (rest v)" by simp
  then show ?thesis by (simp add: polled_def rest_def)
qed

lemma polled_lsr [simp]: "polled (u\<lparr>lsr := l\<rparr>) = polled u" "polled (rx_put ch u) = polled u" "polled (rx_get u) = polled u"
  by (simp_all add: polled_def rx_put_def rx_get_def)

lemma polled_returns:
  assumes "polled (uw_uart w)"
  shows "\<exists>w'. uart_int_rlsi w = Inr w'" "\<exists>w'. uart_int_rdi w = Inr w'" "\<exists>w'. uart_check_rlsi w = Inr w'"
    "\<exists>w'. uart_check_rdi w = Inr w'" "\<exists>w'. uart_next_int w = Inr w'" "\<exists>w'. uart_clear_int i w = Inr w'"
proof -
  show a: "\<exists>w'. uart_int_rlsi w = Inr w'" and b: "\<exists>w'. uart_int_rdi w = Inr w'"
    using assms by (simp_all add: uart_int_rlsi_def uart_int_rdi_def polled_def has_def Let_def)
  show "\<exists>w'. uart_check_rlsi w = Inr w'" "\<exists>w'. uart_check_rdi w = Inr w'"
    using a b by (simp_all add: uart_check_rlsi_def uart_check_rdi_def)
  have next_int: "\<exists>w'. uart_next_int v = Inr w'" if "polled (uw_uart v)" for v
    using that by (simp add: uart_next_int_def is_due_def polled_def has_def clear_interrupt_def Let_def)
  then show "\<exists>w'. uart_next_int w = Inr w'" using assms .
  show "\<exists>w'. uart_clear_int i w = Inr w'"
    using assms by (auto simp: uart_clear_int_def Let_def polled_def intro!: next_int)
qed

lemma fifo_room: "rx_ok u \<Longrightarrow> (word_of_nat (fifo_len u) < rxbuf_full u + 1) = (\<not> length (rx_items u) < fifo_len u)"
proof -
  assume ok: "rx_ok u"
  then have "unat (rxbuf_full u + 1) = Suc (unat (rxbuf_full u))"
    by (simp add: rx_ok_def unat_plus_if_size word_size)
  moreover have "unat (word_of_nat (fifo_len u) :: u32) = fifo_len u"
    using ok by (simp add: rx_ok_def unat_of_nat)
  ultimately show ?thesis by (simp add: word_less_nat_alt rx_items_def not_less less_Suc_eq_le)
qed

text \<open>After the interrupts at the beginning and the end, the FIFO is that of the middle.\<close>

definition rx_after :: "u32 \<Rightarrow> dev_16450 \<Rightarrow> dev_16450" where
  "rx_after ch u = (if length (rx_items u) < fifo_len u then rx_put (ucast ch) u else u)"

lemma rx_part_after: "rx_part u = rx_part v \<Longrightarrow> rx_part (rx_after ch u) = rx_part (rx_after ch v)"
  using rx_part_keeps[of u v] by (simp add: rx_after_def rx_part_def rx_put_def)

lemma rest_lsr_parts: "rest u = rest (v\<lparr>lsr := l\<rparr>) \<Longrightarrow> rx_part u = rx_part v \<and> polled u = polled v"
  using rx_part_rest[of u "v\<lparr>lsr := l\<rparr>"] polled_rest[of u "v\<lparr>lsr := l\<rparr>"] by simp

lemma uart_add_char_rx:
  assumes ok: "rx_ok (uw_uart w)" and run: "uart_add_char ch w = Inr w'"
  shows "rx_part (uw_uart w') = rx_part (rx_after ch (uw_uart w)) \<and> (polled (uw_uart w) \<longrightarrow> polled (uw_uart w'))"
proof -
  obtain w1 where w1: "uart_clear_int UART_IIR_CTI (upd_u (\<lambda>u. u\<lparr>lsr := lsr u OR UART_LSR_RDRDY\<rparr>) w) = Inr w1"
    using run by (auto simp: uart_add_char_def bind_res_eq_Inr)
  note r1 = uart_clear_int_rest[OF w1]
  have p1: "rx_part (uw_uart w1) = rx_part (uw_uart w)" and q1: "polled (uw_uart w1) = polled (uw_uart w)"
    using rx_part_rest[OF r1] polled_rest[OF r1] by simp_all
  have ok1: "rx_ok (uw_uart w1)" using ok rx_part_keeps[OF p1] by simp
  obtain w2 where w2: "uart_check_rdi w2 = Inr w'" and part: "rx_part (uw_uart w2) = rx_part (rx_after ch (uw_uart w1))"
      and pol: "polled (uw_uart w2) = polled (uw_uart w1)"
    using run w1 ok1
    by (auto simp: uart_add_char_def bind_res_eq_Inr Let_def fifo_room rx_after_def split: if_splits
        dest!: uart_int_rest(5) uart_check_rest(1) rest_lsr_parts)
  note r2 = uart_check_rest(2)[OF w2]
  from rx_part_rest[OF r2] polled_rest[OF r2] part pol rx_part_after[OF p1] q1 show ?thesis by simp
qed

lemma uart_add_char_polled:
  assumes "polled (uw_uart w)"
  shows "\<exists>w'. uart_add_char ch w = Inr w'"
proof -
  let ?w = "upd_u (\<lambda>u. u\<lparr>lsr := lsr u OR UART_LSR_RDRDY\<rparr>) w"
  obtain w1 where w1: "uart_clear_int UART_IIR_CTI ?w = Inr w1" using polled_returns(6)[of ?w] assms by auto
  have p1: "polled (uw_uart w1)" using polled_rest[OF uart_clear_int_rest[OF w1]] assms by simp
  have rlsi: "\<exists>v'. uart_int_rlsi v = Inr v' \<and> polled (uw_uart v')" if "polled (uw_uart v)" for v
    using polled_returns(1)[OF that] that by (auto dest: uart_int_rest(5) polled_rest)
  have check: "\<exists>v'. uart_check_rlsi v = Inr v' \<and> polled (uw_uart v')" if "polled (uw_uart v)" for v
    using polled_returns(3)[OF that] that by (auto dest: uart_check_rest(1) polled_rest)
  let ?v = "add_job Int_cti (ug u_char_clks w1 * UART_CHAR_TIMEOUT * UART_CLOCK_DIVIDER) w1"
  have "\<exists>w2. (if word_of_nat (ug fifo_len ?v) < ug rxbuf_full ?v + 1
       then uart_int_rlsi (upd_u (\<lambda>u. u\<lparr>lsr := lsr u OR (UART_LSR_OVRRUN OR UART_LSR_RXERR)\<rparr>) ?v)
       else if ug rxbuf_full ?v = 0
       then uart_check_rlsi (upd_u (\<lambda>u. u\<lparr>lsr := lsr u OR ucast (drop_bit 8 ch)\<rparr>) (upd_u (rx_put (ucast ch)) ?v))
       else Inr (upd_u (rx_put (ucast ch)) ?v)) = Inr w2 \<and> polled (uw_uart w2)"
    using p1 by (auto intro!: rlsi check)
  then obtain w2 where w2: "(if word_of_nat (ug fifo_len ?v) < ug rxbuf_full ?v + 1
       then uart_int_rlsi (upd_u (\<lambda>u. u\<lparr>lsr := lsr u OR (UART_LSR_OVRRUN OR UART_LSR_RXERR)\<rparr>) ?v)
       else if ug rxbuf_full ?v = 0
       then uart_check_rlsi (upd_u (\<lambda>u. u\<lparr>lsr := lsr u OR ucast (drop_bit 8 ch)\<rparr>) (upd_u (rx_put (ucast ch)) ?v))
       else Inr (upd_u (rx_put (ucast ch)) ?v)) = Inr w2" "polled (uw_uart w2)" by blast
  from polled_returns(4)[OF w2(2)] show ?thesis
    by (simp only: uart_add_char_def w1 bind_res_Inr Let_def w2(1))
qed

lemma read_rxbuf_rx:
  assumes ok: "rx_ok (uw_uart w)" and run: "read_rxbuf w = Inr (v, w')"
  shows "v = (if rx_items (uw_uart w) = [] then 0 else ucast (hd (rx_items (uw_uart w))))
    \<and> rx_ok (uw_uart w') \<and> rx_items (uw_uart w') = tl (rx_items (uw_uart w)) \<and> ug fifo_len w' = ug fifo_len w
    \<and> (polled (uw_uart w) \<longrightarrow> polled (uw_uart w'))"
proof -
  define w0 where "w0 = (if ug rxbuf_full w \<noteq> 0 then upd_u rx_get w else w)"
  have empty: "rx_items (uw_uart w) = [] \<longleftrightarrow> ug rxbuf_full w = 0"
    using length_ring_items by (metis length_0_conv rx_items_def unat_eq_0)
  obtain w1 w2 where w1: "uart_clear_int UART_IIR_RDI w0 = Inr w1" and w2: "uart_clear_int UART_IIR_CTI w1 = Inr w2"
    using run by (auto simp: read_rxbuf_def bind_res_eq_Inr w0_def split: if_splits)
  have p2: "rx_part (uw_uart w2) = rx_part (uw_uart w0) \<and> polled (uw_uart w2) = polled (uw_uart w0)"
    using uart_clear_int_rest[OF w1] uart_clear_int_rest[OF w2] by (metis rx_part_rest polled_rest)
  have v: "v = (if ug rxbuf_full w \<noteq> 0 then ucast (ug rxbuf w (ug rxbuf_tail w)) else 0)"
    and p': "rx_part (uw_uart w') = rx_part (uw_uart w2) \<and> polled (uw_uart w') = polled (uw_uart w2)"
    using run w1 w2
    by (auto simp: read_rxbuf_def bind_res_eq_Inr w0_def Let_def split: if_splits
        dest!: uart_check_rest dest: rest_lsr_parts rx_part_rest polled_rest)
  show ?thesis
  proof (cases "rx_items (uw_uart w)")
    case Nil
    then have "w0 = w" using empty by (simp add: w0_def)
    then show ?thesis using Nil v p' p2 ok empty rx_part_keeps[of "uw_uart w'" "uw_uart w"] by (simp add: rx_part_def)
  next
    case (Cons x xs)
    then have "w0 = upd_u rx_get w" using empty by (auto simp: w0_def)
    with p' p2 have e: "rx_part (uw_uart w') = rx_part (rx_get (uw_uart w))" and pol: "polled (uw_uart w') = polled (uw_uart w)"
      by simp_all
    from e have "ug fifo_len w' = ug fifo_len w" by (simp add: rx_part_def rx_get_def)
    moreover have "v = ucast x" using v empty Cons rx_get_items(3)[OF ok Cons] by auto
    ultimately show ?thesis using Cons pol rx_part_keeps[OF e] rx_get_items(1,2)[OF ok Cons] by simp
  qed
qed

lemma read_rxbuf_polled:
  assumes "polled (uw_uart w)"
  shows "\<exists>r. read_rxbuf w = Inr r"
proof -
  define w0 where "w0 = (if ug rxbuf_full w \<noteq> 0 then upd_u rx_get w else w)"
  have clear: "\<exists>v'. uart_clear_int i v = Inr v' \<and> polled (uw_uart v')" if "polled (uw_uart v)" for v i
    using polled_returns(6)[OF that, of i] that by (auto dest: uart_clear_int_rest polled_rest)
  have "polled (uw_uart w0)" using assms by (simp add: w0_def)
  then obtain w1 w2 where w1: "uart_clear_int UART_IIR_RDI w0 = Inr w1" and w2: "uart_clear_int UART_IIR_CTI w1 = Inr w2"
      and p2: "polled (uw_uart w2)" using clear by metis
  let ?w = "add_job Int_cti (ug u_char_clks w2 * UART_CHAR_TIMEOUT * UART_CLOCK_DIVIDER)
      (upd_u (\<lambda>u. u\<lparr>lsr := lsr u OR (UART_LSR_RDRDY OR ucast (drop_bit 8 (rxbuf u (rxbuf_tail u))))\<rparr>) w2)"
  obtain w3 where w3: "uart_check_rlsi ?w = Inr w3" using polled_returns(3)[of ?w] p2 by auto
  have "polled (uw_uart w3)" using polled_rest[OF uart_check_rest(1)[OF w3]] p2 by simp
  then obtain w4 where "uart_check_rdi w3 = Inr w4" using polled_returns(4) by blast
  with w1 w2 w3 show ?thesis by (simp add: read_rxbuf_def w0_def Let_def split: if_splits)
qed

lemma rx_after_items:
  assumes "rx_ok u"
  shows "rx_ok (rx_after ch u)" and "fifo_len (rx_after ch u) = fifo_len u"
    and "rx_items (rx_after ch u) = (if length (rx_items u) < fifo_len u then rx_items u @ [ucast ch] else rx_items u)"
  using assms rx_put_items[OF assms, of "ucast ch"] by (simp_all add: rx_after_def) (simp add: rx_put_def)

lemma rx_run_spec:
  assumes "rx_ok (uw_uart w)" and "rx_run es w = Inr (vs, w')"
  shows "rx_spec (ug fifo_len w) es (rx_items (uw_uart w)) = (vs, rx_items (uw_uart w')) \<and> rx_ok (uw_uart w')"
  using assms
proof (induction es arbitrary: w vs)
  case (Cons e es)
  show ?case
  proof (cases e)
    case (Arrive ch)
    with Cons.prems(2) obtain w1 where w1: "uart_add_char ch w = Inr w1" and run: "rx_run es w1 = Inr (vs, w')"
      by (auto simp: bind_res_eq_Inr)
    have e: "rx_part (uw_uart w1) = rx_part (rx_after ch (uw_uart w))" using uart_add_char_rx[OF Cons.prems(1) w1] by simp
    note after = rx_after_items[OF Cons.prems(1), of ch]
    have "rx_ok (uw_uart w1)" "ug fifo_len w1 = ug fifo_len w" "rx_items (uw_uart w1) = rx_items (rx_after ch (uw_uart w))"
      using rx_part_keeps[OF e] after e by (simp_all add: rx_part_def)
    with Cons.IH[OF _ run] Arrive after show ?thesis by simp
  next
    case Fetch
    with Cons.prems(2) obtain v w1 vs' where w1: "read_rxbuf w = Inr (v, w1)" and run: "rx_run es w1 = Inr (vs', w')" and vs: "vs = v # vs'"
      by (auto simp: bind_res_eq_Inr)
    note r = read_rxbuf_rx[OF Cons.prems(1) w1]
    with Cons.IH[OF _ run] Fetch vs show ?thesis by simp
  qed
qed simp

lemma rx_run_polled:
  assumes "rx_ok (uw_uart w)" and "polled (uw_uart w)"
  shows "\<exists>r. rx_run es w = Inr r"
  using assms
proof (induction es arbitrary: w)
  case (Cons e es)
  show ?case
  proof (cases e)
    case (Arrive ch)
    obtain w1 where w1: "uart_add_char ch w = Inr w1" using uart_add_char_polled[OF Cons.prems(2)] by blast
    note a = uart_add_char_rx[OF Cons.prems(1) w1]
    have "rx_ok (uw_uart w1)" using rx_part_keeps[OF conjunct1[OF a]] rx_after_items(1)[OF Cons.prems(1)] by simp
    with Cons.IH[of w1] a Cons.prems(2) w1 Arrive show ?thesis by simp
  next
    case Fetch
    obtain v w1 where w1: "read_rxbuf w = Inr (v, w1)" using read_rxbuf_polled[OF Cons.prems(2)] by auto
    with Cons.IH[of w1] read_rxbuf_rx[OF Cons.prems(1) w1] Cons.prems(2) Fetch show ?thesis by auto
  qed
qed simp

section \<open>The commands are all taken\<close>

definition vapi_ok :: "dev_16450 \<Rightarrow> bool" where
  "vapi_ok u \<longleftrightarrow> vapi_buf_head_ptr u < 128 \<and> vapi_buf_tail_ptr u < 128"

definition vapi_pending :: "dev_16450 \<Rightarrow> nat" where
  "vapi_pending u = (vapi_buf_head_ptr u + (128 - vapi_buf_tail_ptr u)) mod 128"

definition vapi_ptrs :: "dev_16450 \<Rightarrow> nat \<times> nat" where
  "vapi_ptrs u = (vapi_buf_head_ptr u, vapi_buf_tail_ptr u)"

lemma vapi_take_pending:
  assumes "vapi_ok u" and "vapi_buf_head_ptr u \<noteq> vapi_buf_tail_ptr u"
  shows "vapi_ok (vapi_take u)" and "vapi_pending u = Suc (vapi_pending (vapi_take u))"
proof -
  obtain h t where ht: "vapi_buf_head_ptr u = h" "vapi_buf_tail_ptr u = t" "h < 128" "t < 128" "h \<noteq> t"
    using assms by (simp add: vapi_ok_def)
  show "vapi_ok (vapi_take u)" using ht by (simp add: vapi_ok_def vapi_take_def)
  have "(h + (128 - t)) mod 128 = Suc ((h + (128 - (t + 1) mod 128)) mod 128)"
  proof (cases "t = 127")
    case True
    with ht show ?thesis by simp
  next
    case False
    have "h + (128 - t) = Suc (h + (128 - (t + 1)))" using ht False by simp
    moreover have "(h + (128 - (t + 1))) mod 128 \<noteq> 127"
    proof (cases "t < h")
      case True
      then have e: "h + (128 - (t + 1)) = 128 + (h - (t + 1))" using ht by simp
      show ?thesis unfolding e using ht by simp
    qed (use ht in simp)
    ultimately show ?thesis using ht False by (simp add: mod_Suc)
  qed
  then show "vapi_pending u = Suc (vapi_pending (vapi_take u))" using ht by (simp add: vapi_pending_def vapi_take_def)
qed

lemma vapi_ptrs_keeps: "vapi_ptrs u = vapi_ptrs v \<Longrightarrow> vapi_ok u = vapi_ok v \<and> vapi_pending u = vapi_pending v"
  by (simp add: vapi_ptrs_def vapi_ok_def vapi_pending_def)

lemma vapi_ptrs_updates [simp]:
  "vapi_ptrs (vapi_char d u) = vapi_ptrs u" "vapi_ptrs (u\<lparr>receiveing := b\<rparr>) = vapi_ptrs u"
  "vapi_ptrs (u\<lparr>recv_break := b\<rparr>) = vapi_ptrs u" "vapi_ptrs (u\<lparr>v_dll := x\<rparr>) = vapi_ptrs u"
  "vapi_ptrs (u\<lparr>v_dlh := x\<rparr>) = vapi_ptrs u" "vapi_ptrs (u\<lparr>v_lcr := x\<rparr>) = vapi_ptrs u"
  "vapi_ptrs (u\<lparr>v_skew := k\<rparr>) = vapi_ptrs u" "vapi_ptrs (uw_uart (uart_recv_break_stop w)) = vapi_ptrs (uw_uart w)"
  by (simp_all add: vapi_ptrs_def vapi_char_def uart_recv_break_stop_def Let_def)

text \<open>What a round leaves: an answer, and fewer commands than it found.\<close>

definition takes :: "nat \<Rightarrow> uart_world res option \<Rightarrow> bool" where
  "takes k r \<longleftrightarrow> (\<exists>w. r = Some (Inr w) \<and> vapi_ok (uw_uart w) \<and> vapi_pending (uw_uart w) \<le> k)"

lemma takes_keeps: "vapi_ptrs (uw_uart w) = vapi_ptrs u \<Longrightarrow> vapi_ok u \<Longrightarrow> vapi_pending u \<le> k \<Longrightarrow> takes k (Some (Inr w))"
  using vapi_ptrs_keeps[of "uw_uart w" u] by (simp add: takes_def)

lemma takes_bind:
  assumes "takes k r" and "\<And>w. vapi_ok (uw_uart w) \<Longrightarrow> vapi_pending (uw_uart w) \<le> k \<Longrightarrow> takes k (f w)"
  shows "takes k (bind_run r f)"
proof -
  obtain w where "r = Some (Inr w)" "vapi_ok (uw_uart w)" "vapi_pending (uw_uart w) \<le> k" using assms(1) by (auto simp: takes_def)
  with assms(2) show ?thesis by (simp add: bind_run_simps)
qed

lemma takes_mono: "takes j r \<Longrightarrow> j \<le> k \<Longrightarrow> takes k r"
  by (auto simp: takes_def)

lemma break_start_takes:
  assumes "\<And>v. vapi_ok (uw_uart v) \<Longrightarrow> vapi_pending (uw_uart v) \<le> k \<Longrightarrow> takes k (cmd v)"
    and "vapi_ok (uw_uart w)" and "vapi_pending (uw_uart w) \<le> k"
  shows "takes k (break_start cmd w)"
proof -
  let ?v = "find_remove_job Recv_char (upd_u (\<lambda>u. u\<lparr>receiveing := False, recv_break := True\<rparr>) w)"
  have ptrs: "vapi_ptrs (uw_uart ?v) = vapi_ptrs (uw_uart w)" by simp
  have v: "vapi_ok (uw_uart ?v)" "vapi_pending (uw_uart ?v) \<le> k" using vapi_ptrs_keeps[OF ptrs] assms(2,3) by simp_all
  show ?thesis unfolding break_start_def Let_def
  proof (rule takes_bind)
    show "takes k (if vapi_waiting (uw_uart ?v) then cmd ?v else Some (Inr ?v))"
      using assms(1)[OF v] v by (auto simp: takes_def)
  qed (auto simp: takes_def)
qed

lemma vapi_loop_takes:
  "vapi_ok (uw_uart w) \<Longrightarrow> vapi_pending (uw_uart w) < n \<Longrightarrow> takes (vapi_pending (uw_uart w)) (uart_vapi_loop n w)"
proof (induction n arbitrary: w)
  case (Suc n)
  show ?case
  proof (cases "ug vapi_buf_head_ptr w = ug vapi_buf_tail_ptr w")
    case True
    with Suc.prems show ?thesis by (simp add: takes_def)
  next
    case False
    let ?w = "upd_u vapi_take w" and ?data = "ug vapi_buf w (ug vapi_buf_tail_ptr w)"
    note take = vapi_take_pending[OF Suc.prems(1) False]
    have ok: "vapi_ok (vapi_take (uw_uart w))" and k: "vapi_pending (vapi_take (uw_uart w)) < n" using take Suc.prems by simp_all
    have keep: "takes (vapi_pending (vapi_take (uw_uart w))) (Some (Inr v))" if "vapi_ptrs (uw_uart v) = vapi_ptrs (vapi_take (uw_uart w))" for v
      by (rule takes_keeps[OF that ok order_refl])
    have loop: "takes (vapi_pending (vapi_take (uw_uart w))) (uart_vapi_loop n v)"
      if "vapi_ok (uw_uart v)" "vapi_pending (uw_uart v) \<le> vapi_pending (vapi_take (uw_uart w))" for v
      using Suc.IH[OF that(1)] that k by (auto elim: takes_mono)
    have brk: "takes (vapi_pending (vapi_take (uw_uart w))) (break_start (uart_vapi_loop n) ?w)"
      by (rule break_start_takes[OF loop]) (simp_all add: ok)
    have loop_keep: "takes (vapi_pending (vapi_take (uw_uart w))) (uart_vapi_loop n v)" if "vapi_ptrs (uw_uart v) = vapi_ptrs (vapi_take (uw_uart w))" for v
      using vapi_ptrs_keeps[OF that] ok by (intro loop) simp_all
    have brk_loop: "takes (vapi_pending (vapi_take (uw_uart w))) (bind_run (break_start (uart_vapi_loop n) ?w) (uart_vapi_loop n))"
      by (rule takes_bind[OF brk loop])
    have "takes (vapi_pending (vapi_take (uw_uart w))) (uart_vapi_loop (Suc n) w)"
      using False by (simp add: Let_def bind_run_simps keep loop_keep brk_loop)
    from takes_mono[OF this, of "vapi_pending (uw_uart w)"] take(2) show ?thesis by (simp del: uart_vapi_loop.simps)
  qed
qed simp

lemma uart_vapi_cmd_returns:
  assumes "vapi_ok (uw_uart w)"
  shows "\<exists>w'. uart_vapi_cmd w = Some (Inr w')"
proof -
  have "vapi_pending (uw_uart w) < UART_VAPI_BUF_LEN" by (simp add: vapi_pending_def)
  from vapi_loop_takes[OF assms this] show ?thesis by (auto simp: uart_vapi_cmd_def takes_def)
qed

section \<open>Properties\<close>

definition uart_sample :: "bool \<Rightarrow> uart_world" where
  "uart_sample b =
     \<lparr>uw_uart = reset_regs \<lparr>txbuf = \<lambda>_. 0, rxbuf = \<lambda>_. 0, u_dll = 0, u_dlh = 0, ier = 0, iir = 0, fcr = 0, lcr = 0, mcr = 0,
        lsr = 0, msr = 0, scr = 0, txser = 0, rxser = 0, u_loopback = 0, txbuf_head = 0, txbuf_tail = 0, rxbuf_head = 0,
        rxbuf_tail = 0, txbuf_full = 0, rxbuf_full = 0, receiveing = False, recv_break = False, ints = 0, u_char_clks = 0,
        v_char_clks = 0, v_dll = 0, v_dlh = 0, v_lcr = 0, v_skew = 0, vapi_buf = \<lambda>_. 0, vapi_buf_head_ptr = 0,
        vapi_buf_tail_ptr = 0, fifo_len = 0, u_enabled = True, jitter = 0, u_baseaddr = 0x90000000, u_irq = 2, u_vapi_id = 0,
        uart16550 = b, channel_str = ''xterm:''\<rparr>,
      uw_machine = pic_machine, uw_jobs = [], uw_out = []\<rparr>"

lemma uart_sample_ok: "rx_ok (uw_uart (uart_sample b))" "polled (uw_uart (uart_sample b))"
  by (simp_all add: uart_sample_def reset_regs_def rx_ok_def polled_def)

text \<open>
  C37: the receiver is a queue of \<open>fifo_len\<close> characters. For any sequence of received characters and reads of the
  buffer, what the reads return and what is left is what a bounded queue gives that loses the characters that do not fit,
  whatever interrupts are raised and cleared on the way; and with interrupts disabled every such sequence runs to its end.
\<close>

theorem uart_receive_queue:
  assumes "rx_ok (uw_uart w)"
  shows "(\<forall>vs w'. rx_run es w = Inr (vs, w') \<longrightarrow>
      rx_spec (ug fifo_len w) es (rx_items (uw_uart w)) = (vs, rx_items (uw_uart w')) \<and> rx_ok (uw_uart w'))
    \<and> (polled (uw_uart w) \<longrightarrow> (\<exists>r. rx_run es w = Inr r))"
  using rx_run_spec[OF assms] rx_run_polled[OF assms] by blast

theorem uart_receive_queue_witness:
  "\<exists>w1 w2. rx_run [Arrive 0x41, Arrive 0x42, Fetch, Fetch] (uart_sample True) = Inr ([0x41, 0x42], w1)
     \<and> rx_run [Arrive 0x41, Arrive 0x42, Fetch, Fetch] (uart_sample False) = Inr ([0x41, 0], w2)"
proof -
  have run: "\<exists>w'. rx_run es (uart_sample b) = Inr (fst (rx_spec (if b then 16 else 1) es []), w')" for es b
  proof -
    obtain vs w' where "rx_run es (uart_sample b) = Inr (vs, w')"
      using uart_receive_queue[OF uart_sample_ok(1)[of b], where es = es] uart_sample_ok(2) by auto
    moreover have "rx_items (uw_uart (uart_sample b)) = []" "ug fifo_len (uart_sample b) = (if b then 16 else 1)"
      by (simp_all add: uart_sample_def reset_regs_def rx_items_def ring_items_def)
    ultimately show ?thesis using uart_receive_queue[OF uart_sample_ok(1)[of b], where es = es] by auto
  qed
  from run[of "[Arrive 0x41, Arrive 0x42, Fetch, Fetch]" True] run[of "[Arrive 0x41, Arrive 0x42, Fetch, Fetch]" False]
  show ?thesis by simp
qed

text \<open>
  C38: the interrupt identification can name an interrupt that is no longer pending. When the line status interrupt is the
  current one and received data is pending too, reading the line status clears the former, but the identification still
  names it and no interrupt is reported for the data: \<open>uart_next_int\<close> raises the next interrupt through a function
  that yields to the one still named.
\<close>

theorem uart_stale_line_status:
  assumes "ug iir w = UART_IIR_RLSI" and "is_due UART_IIR_RDI UART_IER_RDI (uw_uart w)"
  shows "\<exists>w'. uart_read_byte UART_LSR w = Inr (ug lsr w, w') \<and> \<not> has (ug ints w') (int_bit UART_IIR_RLSI)
    \<and> uart_read_byte UART_IIR w' = Inr (0xc0 OR UART_IIR_RLSI, w') \<and> uw_machine w' = uw_machine w"
proof -
  have bits: "int_bit UART_IIR_RLSI = 64" "int_bit UART_IIR_RDI = 16" by (simp_all add: int_bit_def)
  have i: "((ug ints w AND NOT 64) AND 64) = 0" "(ug ints w AND NOT 64) AND 16 = ug ints w AND 16"
    by (simp_all add: and.assoc)
  have j: "((ug ints w AND NOT 64) OR 16) AND 64 = 0" by (simp add: word_ao_dist and.assoc)
  define w' where "w' = set_int UART_IIR_RDI (upd_u (\<lambda>u. u\<lparr>ints := ints u AND NOT (int_bit UART_IIR_RLSI)\<rparr>)
    (upd_u (\<lambda>u. u\<lparr>lsr := lsr u AND
       NOT (UART_LSR_OVRRUN OR UART_LSR_BREAK OR UART_LSR_PARITY OR UART_LSR_FRAME OR UART_LSR_RXERR)\<rparr>) w))"
  have "uart_read_byte UART_LSR w = Inr (ug lsr w AND UART_VALID_LSR, w')"
    using assms i
    by (simp add: uart_read_byte_def uart_clear_int_def uart_next_int_def is_due_def has_def bits uart_int_rdi_def Let_def w'_def)
  moreover have "UART_VALID_LSR = -1" by simp
  then have "ug lsr w AND UART_VALID_LSR = ug lsr w" by (simp only: and.right_neutral)
  moreover have "ug ints w' = (ug ints w AND NOT 64) OR 16" "ug iir w' = UART_IIR_RLSI" "uw_machine w' = uw_machine w"
    using assms(1) by (simp_all add: w'_def set_int_def bits)
  ultimately show ?thesis using j by (intro exI[of _ w']) (simp add: has_def bits uart_read_byte_def)
qed

theorem uart_stale_line_status_witness:
  "\<exists>w'. uart_read_byte UART_LSR (upd_u (\<lambda>u. u\<lparr>iir := UART_IIR_RLSI, ints := 0x50, ier := 5\<rparr>) (uart_sample True)) = Inr (0x60, w')
     \<and> uart_read_byte UART_IIR w' = Inr (0xc6, w')"
proof -
  let ?w = "upd_u (\<lambda>u. u\<lparr>iir := UART_IIR_RLSI, ints := 0x50, ier := 5\<rparr>) (uart_sample True)"
  have "ug iir ?w = UART_IIR_RLSI" "is_due UART_IIR_RDI UART_IER_RDI (uw_uart ?w)" "ug lsr ?w = 0x60"
    by (simp_all add: uart_sample_def reset_regs_def is_due_def has_def int_bit_def)
  with uart_stale_line_status[of ?w] show ?thesis by auto
qed

lemma remove_first_append: "\<forall>x\<in>set ys. fst x \<noteq> j \<Longrightarrow> remove_first j (xs @ ys) = remove_first j xs @ ys"
proof (induction xs)
  case Nil
  then show ?case by (induction ys) auto
qed simp

text \<open>
  C39: releasing a break while the last character is still being sent makes the transmitter run away. With an empty FIFO, a
  break set and released at once leaves the jobs that send the break and the next character; when they run the count of
  waiting characters goes from 0 to \<open>2 ^ 32 - 1\<close>, so the transmitter goes on with the contents of an empty buffer.
\<close>

theorem uart_break_underflows:
  assumes "\<not> has (ug lcr w) UART_LCR_SBC" and "\<not> has (ug lsr w) UART_LSR_TXSERE" and "ug txbuf_full w = 0"
    and "has a UART_LCR_SBC" and "\<not> has b UART_LCR_SBC"
  shows "\<exists>w1 w2 w3 w4 js. uart_write_byte UART_LCR a w = Inr w1 \<and> uart_write_byte UART_LCR b w1 = Inr w2
    \<and> uw_jobs w2 = js @ [(Send_break, 0), (Tx_send, 0)]
    \<and> uart_send_break w2 = Inr w3 \<and> uart_tx_send w3 = Inr w4 \<and> ug txbuf_full w4 = 0xFFFFFFFF \<and> \<not> has (ug lsr w4) UART_LSR_TXSERE"
proof -
  have sbc: "ug lcr w AND 64 = 0" "b AND 64 = 0" "a AND 64 \<noteq> 0" "(a AND 255) AND 64 = a AND 64" "ug lsr w AND 64 = 0"
    using assms by (simp_all add: has_def and.assoc)
  have tx: "((ug lsr w OR 64) AND NOT 64) AND 64 = 0" by (simp add: and.assoc)
  show ?thesis
    using assms(3) sbc tx
    by (simp add: uart_write_byte_def write_lcr_def has_def remove_first_append uart_send_break_def tx_next_def uart_tx_send_def Let_def)
qed

theorem uart_break_underflows_witness:
  "\<exists>w1 w2 w3 w4. uart_write_byte UART_LCR 0x43 (upd_u (\<lambda>u. u\<lparr>lsr := UART_LSR_TXBUFE\<rparr>) (uart_sample True)) = Inr w1
     \<and> uart_write_byte UART_LCR 3 w1 = Inr w2 \<and> uart_send_break w2 = Inr w3 \<and> uart_tx_send w3 = Inr w4
     \<and> ug txbuf_full w4 = 0xFFFFFFFF"
proof -
  let ?w = "upd_u (\<lambda>u. u\<lparr>lsr := UART_LSR_TXBUFE\<rparr>) (uart_sample True)"
  have "\<not> has (ug lcr ?w) UART_LCR_SBC" "\<not> has (ug lsr ?w) UART_LSR_TXSERE" "ug txbuf_full ?w = 0"
    "has (0x43 :: u8) UART_LCR_SBC" "\<not> has (3 :: u8) UART_LCR_SBC"
    by (simp_all add: uart_sample_def reset_regs_def has_def)
  from uart_break_underflows[OF this] show ?thesis by blast
qed

text \<open>
  In loopback mode with an output of the modem control set, every read of the modem status finds a change again: the read
  clears the status, so the lines the loopback drives seem to have changed.
\<close>

theorem uart_loopback_status_changes_again:
  assumes "has (ug mcr w) UART_MCR_LOOP" and "has (ug mcr w) UART_MCR_AUX2" and "uart_read_byte UART_MSR w = Inr (v, w')"
  shows "has (ug msr w') UART_MSR_DDCD"
proof -
  obtain w1 where w1: "uart_clear_int UART_IIR_MSI (upd_u (\<lambda>u. u\<lparr>msr := 0\<rparr>) w) = Inr w1" and w': "uart_loopback w1 = Inr w'"
    using assms(3) by (auto simp: uart_read_byte_def bind_res_eq_Inr Let_def)
  have fields: "mcr u = mcr v \<and> msr u = msr v" if "rest u = rest v" for u v
    using arg_cong[OF that, of mcr] arg_cong[OF that, of msr] by (simp add: rest_def)
  have w1_regs: "ug mcr w1 = ug mcr w" "ug msr w1 = 0" using fields[OF uart_clear_int_rest[OF w1]] by simp_all
  then have "ug msr w' = loopback_msr (ug mcr w) 0"
    using w' assms(1) fields[OF uart_int_rest(1)] by (auto simp: uart_loopback_def Let_def split: if_splits)
  moreover have "bit (ug mcr w) 3" using assms(2) by (simp add: has_def and_exp_eq_0_iff_not_bit[of _ 3, simplified])
  then have "bit (loopback_msr (ug mcr w) 0) 3"
    using assms(2) by (auto simp: loopback_msr_def loopback_deltas_def has_def Let_def bit_simps)
  ultimately show ?thesis by (simp add: has_def and_exp_eq_0_iff_not_bit[of _ 3, simplified])
qed

end
