(* ===== verification/Uart_Transmit.thy ===== *)
theory Uart_Transmit
  imports Uart
begin

text \<open>
  The transmitter of the serial port as a queue, from the instances of \<open>fifo\<close> for the two sizes of its buffer. Characters
  are written to TXBUF and taken into the shift register by \<open>uart_tx_send\<close>.
\<close>

datatype tx_event = Put u8 | Take

fun tx_run :: "tx_event list \<Rightarrow> uart_world \<Rightarrow> (u8 list \<times> uart_world) res" where
  "tx_run [] w = Inr ([], w)"
| "tx_run (Put v # es) w = bind_res (write_txbuf v w) (tx_run es)"
| "tx_run (Take # es) w =
     bind_res (tx_next w) (\<lambda>w'. bind_res (tx_run es w') (\<lambda>(vs, w''). Inr ((if ug txbuf_full w = 0 then vs else ug txser w' # vs), w'')))"

text \<open>A queue with \<open>len\<close> places in which a character that finds no room takes the place of the oldest one.\<close>

fun tx_spec :: "nat \<Rightarrow> tx_event list \<Rightarrow> u8 list \<Rightarrow> u8 list \<times> u8 list" where
  "tx_spec len [] q = ([], q)"
| "tx_spec len (Put v # es) q = tx_spec len es (if length q < len then q @ [v] else v # tl q)"
| "tx_spec len (Take # es) [] = tx_spec len es []"
| "tx_spec len (Take # es) (x # q) = (let (vs, q') = tx_spec len es q in (x # vs, q'))"

definition tx_part :: "dev_16450 \<Rightarrow> (nat \<Rightarrow> u8) \<times> nat \<times> nat \<times> u32 \<times> nat \<times> u8" where
  "tx_part u = (txbuf u, txbuf_head u, txbuf_tail u, txbuf_full u, fifo_len u, txser u)"

lemma tx_part_rest: "rest u = rest v \<Longrightarrow> tx_part u = tx_part v"
proof -
  assume "rest u = rest v"
  then have "tx_part (rest u) = tx_part (rest v)" by simp
  then show ?thesis by (simp add: tx_part_def rest_def)
qed

lemma tx_part_keeps: "tx_part u = tx_part v \<Longrightarrow> tx_ok len u = tx_ok len v \<and> tx_items u = tx_items v \<and> txser u = txser v"
  by (simp add: tx_part_def tx_ok_def tx_items_def)

lemma tx_part_lsr [simp]: "tx_part (u\<lparr>lsr := l\<rparr>) = tx_part u"
  by (simp add: tx_part_def)

text \<open>What a write and a step of the transmitter do to the buffer.\<close>

definition tx_write :: "u8 \<Rightarrow> dev_16450 \<Rightarrow> dev_16450" where
  "tx_write v u = (if length (tx_items u) < fifo_len u then tx_put v u else u\<lparr>txbuf := (txbuf u)(txbuf_head u := v)\<rparr>)"

lemma tx_room: "tx_ok len u \<Longrightarrow> len \<le> 16 \<Longrightarrow> (txbuf_full u < word_of_nat (fifo_len u)) = (length (tx_items u) < fifo_len u)"
  by (simp add: tx_ok_def tx_items_def word_less_nat_alt unat_of_nat)

lemma tx_items_write:
  assumes ok: "tx_ok len u" and len: "0 < len" "len \<le> 16"
  shows "tx_ok len (tx_write v u) \<and> tx_items (tx_write v u) = (if length (tx_items u) < len then tx_items u @ [v] else v # tl (tx_items u))"
proof (cases "length (tx_items u) < len")
  case True
  with fifo.put[OF tx_fifo[OF len] ok True, of v] ok show ?thesis by (simp add: tx_write_def tx_ok_def)
next
  case False
  then have full: "unat (txbuf_full u) = len" using ok by (simp add: tx_ok_def tx_items_def)
  then obtain x xs where it: "tx_items u = x # xs" using len by (cases "tx_items u") (auto simp: tx_items_def dest: arg_cong[of _ _ length])
  have "tx_write v u = tx_set_oldest v u"
    using False ok full by (simp add: tx_write_def tx_set_oldest_def tx_ok_def)
  with fifo.oldest[OF tx_fifo[OF len] ok it, of v] False it show ?thesis by simp
qed

definition tx_taken :: "dev_16450 \<Rightarrow> dev_16450" where
  "tx_taken u = u\<lparr>txser := txbuf u (txbuf_tail u), txbuf_tail := (txbuf_tail u + 1) mod fifo_len u, txbuf_full := txbuf_full u - 1\<rparr>"

lemma tx_items_taken:
  assumes ok: "tx_ok len u" and len: "0 < len" "len \<le> 16" and it: "tx_items u = x # xs"
  shows "tx_ok len (tx_taken u) \<and> tx_items (tx_taken u) = xs \<and> txser (tx_taken u) = x"
proof -
  have "txbuf u (txbuf_tail u) = x"
    using it ok ring_items_Suc[of "txbuf_tail u" len "txbuf u" "length xs"] arg_cong[OF it, of length]
    by (simp add: tx_items_def tx_ok_def)
  moreover have "tx_ok len (tx_taken u) = tx_ok len (tx_pop u) \<and> tx_items (tx_taken u) = tx_items (tx_pop u)"
    by (simp add: tx_taken_def tx_pop_def tx_ok_def tx_items_def)
  ultimately show ?thesis using fifo.pop[OF tx_fifo[OF len] ok it] by (simp add: tx_taken_def)
qed

lemma rest_lsr_tx: "rest u = rest (v\<lparr>lsr := l\<rparr>) \<Longrightarrow> tx_part u = tx_part v \<and> polled u = polled v"
  using tx_part_rest[of u "v\<lparr>lsr := l\<rparr>"] polled_rest[of u "v\<lparr>lsr := l\<rparr>"] by simp

lemma polled_tx [simp]: "polled (tx_write v u) = polled u" "polled (tx_taken u) = polled u"
  by (simp_all add: polled_def tx_write_def tx_taken_def tx_put_def)

lemma write_txbuf_tx:
  assumes ok: "tx_ok len (uw_uart w)" and len: "len \<le> 16" and run: "write_txbuf v w = Inr w'"
  shows "tx_part (uw_uart w') = tx_part (tx_write v (uw_uart w)) \<and> polled (uw_uart w') = polled (uw_uart w)"
proof -
  define u where "u = (uw_uart w)\<lparr>lsr := ug lsr w AND NOT UART_LSR_TXBUFE\<rparr>"
  have u: "tx_part u = tx_part (uw_uart w)" "polled u = polled (uw_uart w)" by (simp_all add: u_def)
  have ok': "tx_ok len u" using ok by (simp add: u_def tx_ok_def)
  obtain w1 where w1: "uart_clear_int UART_IIR_THRI w1 = Inr w'" "uw_uart w1 = tx_write v u"
    using run tx_room[OF ok' len]
    by (auto simp: write_txbuf_def Let_def u_def[symmetric] tx_write_def split: if_splits) (auto simp: u_def)
  have "tx_part (tx_write v u) = tx_part (tx_write v (uw_uart w))"
    using u(1) tx_part_keeps[OF u(1)] by (simp add: tx_write_def tx_part_def tx_put_def)
  then show ?thesis
    using u(2) tx_part_rest[OF uart_clear_int_rest[OF w1(1)]] polled_rest[OF uart_clear_int_rest[OF w1(1)]] w1(2) by simp
qed

lemma tx_next_empty:
  assumes "ug txbuf_full w = 0"
  shows "\<exists>w'. tx_next w = Inr w' \<and> tx_part (uw_uart w') = tx_part (uw_uart w) \<and> polled (uw_uart w') = polled (uw_uart w)"
  using assms by (simp add: tx_next_def)

lemma tx_next_takes:
  assumes "ug txbuf_full w \<noteq> 0" and "tx_next w = Inr w'"
  shows "tx_part (uw_uart w') = tx_part (tx_taken (uw_uart w)) \<and> polled (uw_uart w') = polled (uw_uart w)"
proof -
  have "\<exists>l. rest (uw_uart w') = rest ((tx_taken (uw_uart w))\<lparr>lsr := l\<rparr>)"
    using assms
    by (auto simp: tx_next_def uart_tx_send_def Let_def tx_taken_def dest!: uart_int_rest(2) split: if_splits)
  then show ?thesis using rest_lsr_tx polled_tx(2) by metis
qed

lemma empty_iff: "tx_items u = [] \<longleftrightarrow> txbuf_full u = 0"
  using length_ring_items by (metis length_0_conv tx_items_def unat_eq_0)

lemma tx_run_spec:
  assumes len: "0 < len" "len \<le> 16" and "tx_ok len (uw_uart w)" and "tx_run es w = Inr (vs, w')"
  shows "tx_spec len es (tx_items (uw_uart w)) = (vs, tx_items (uw_uart w')) \<and> tx_ok len (uw_uart w')"
  using assms(3,4)
proof (induction es arbitrary: w vs)
  case (Cons e es)
  show ?case
  proof (cases e)
    case (Put v)
    with Cons.prems(2) obtain w1 where w1: "write_txbuf v w = Inr w1" and run: "tx_run es w1 = Inr (vs, w')"
      by (auto simp: bind_res_eq_Inr)
    have e: "tx_part (uw_uart w1) = tx_part (tx_write v (uw_uart w))" using write_txbuf_tx[OF Cons.prems(1) len(2) w1] by simp
    note wr = tx_items_write[OF Cons.prems(1) len, of v]
    have "tx_ok len (uw_uart w1)" "tx_items (uw_uart w1) = tx_items (tx_write v (uw_uart w))"
      using tx_part_keeps[OF e] wr by auto
    with Cons.IH[OF _ run] Put wr show ?thesis by simp
  next
    case Take
    with Cons.prems(2) obtain w1 ws where w1: "tx_next w = Inr w1" and run: "tx_run es w1 = Inr (ws, w')"
        and vs: "vs = (if ug txbuf_full w = 0 then ws else ug txser w1 # ws)"
      by (auto simp: bind_res_eq_Inr split: if_splits)
    show ?thesis
    proof (cases "tx_items (uw_uart w)")
      case Nil
      then have e: "tx_part (uw_uart w1) = tx_part (uw_uart w)" and full: "ug txbuf_full w = 0"
        using tx_next_empty[of w] w1 empty_iff by auto
      have "tx_ok len (uw_uart w1)" using tx_part_keeps[OF e] Cons.prems(1) by simp
      from Cons.IH[OF this run] tx_part_keeps[OF e] Nil full vs Take show ?thesis by simp
    next
      case (Cons x xs)
      then have full: "ug txbuf_full w \<noteq> 0" using empty_iff[of "uw_uart w"] by simp
      then have e: "tx_part (uw_uart w1) = tx_part (tx_taken (uw_uart w))" using tx_next_takes[OF _ w1] by simp
      note taken = tx_items_taken[OF Cons.prems(1) len Cons]
      have "tx_ok len (uw_uart w1)" "tx_items (uw_uart w1) = xs" "ug txser w1 = x" using tx_part_keeps[OF e] taken by auto
      with Cons.IH[OF _ run] full vs Take Cons show ?thesis by simp
    qed
  qed
qed simp

lemma uart_int_thri_polled: "polled (uw_uart w) \<Longrightarrow> \<exists>w'. uart_int_thri w = Inr w'"
  by (simp add: uart_int_thri_def polled_def has_def Let_def)

lemma tx_next_polled: "polled (uw_uart w) \<Longrightarrow> \<exists>w'. tx_next w = Inr w'"
  by (auto simp: tx_next_def uart_tx_send_def Let_def polled_def intro!: uart_int_thri_polled)

lemma write_txbuf_polled: "polled (uw_uart w) \<Longrightarrow> \<exists>w'. write_txbuf v w = Inr w'"
  unfolding write_txbuf_def Let_def by (rule polled_returns(6)) (auto simp: polled_def tx_put_def)

lemma tx_run_polled:
  assumes len: "0 < len" "len \<le> 16" and "tx_ok len (uw_uart w)" and "polled (uw_uart w)"
  shows "\<exists>r. tx_run es w = Inr r"
  using assms(3,4)
proof (induction es arbitrary: w)
  case (Cons e es)
  show ?case
  proof (cases e)
    case (Put v)
    obtain w1 where w1: "write_txbuf v w = Inr w1" using write_txbuf_polled[OF Cons.prems(2)] by blast
    note a = write_txbuf_tx[OF Cons.prems(1) len(2) w1]
    have "tx_ok len (uw_uart w1)" using tx_part_keeps[OF conjunct1[OF a]] tx_items_write[OF Cons.prems(1) len] by simp
    with Cons.IH[of w1] a Cons.prems(2) w1 Put show ?thesis by simp
  next
    case Take
    obtain w1 where w1: "tx_next w = Inr w1" using tx_next_polled[OF Cons.prems(2)] by blast
    have run: "tx_run [Take] w = Inr (if ug txbuf_full w = 0 then [] else [ug txser w1], w1)" using w1 by simp
    have "polled (uw_uart w1)"
      using tx_next_empty[of w] tx_next_takes[of w w1] w1 Cons.prems(2) by (cases "ug txbuf_full w = 0") auto
    with Cons.IH[of w1] tx_run_spec[OF len Cons.prems(1) run] w1 Take show ?thesis by auto
  qed
qed simp

section \<open>Properties\<close>

text \<open>
  C40: the transmitter is a queue of \<open>len\<close> characters (1 or 16). For any sequence of writes to TXBUF and steps of the
  shift register the characters come out in the order they were written, and a character written to a full buffer replaces
  the oldest one that waits. With interrupts disabled every such sequence runs to its end.
\<close>

theorem uart_transmit_queue:
  assumes "0 < len" and "len \<le> 16" and "tx_ok len (uw_uart w)"
  shows "(\<forall>vs w'. tx_run es w = Inr (vs, w') \<longrightarrow>
      tx_spec len es (tx_items (uw_uart w)) = (vs, tx_items (uw_uart w')) \<and> tx_ok len (uw_uart w'))
    \<and> (polled (uw_uart w) \<longrightarrow> (\<exists>r. tx_run es w = Inr r))"
  using tx_run_spec[OF assms] tx_run_polled[OF assms] by blast

theorem uart_transmit_queue_witness:
  "\<exists>w'. tx_run [Put 0x41, Put 0x42, Take, Take, Take] (uart_sample True) = Inr ([0x41, 0x42], w')"
proof -
  have ok: "tx_ok 16 (uw_uart (uart_sample True))" and empty: "tx_items (uw_uart (uart_sample True)) = []"
    by (simp_all add: uart_sample_def reset_regs_def tx_ok_def tx_items_def ring_items_def)
  obtain vs w' where r: "tx_run [Put 0x41, Put 0x42, Take, Take, Take] (uart_sample True) = Inr (vs, w')"
    using uart_transmit_queue[OF _ _ ok, of "[Put 0x41, Put 0x42, Take, Take, Take]"] uart_sample_ok(2) by auto
  with uart_transmit_queue[OF _ _ ok, of "[Put 0x41, Put 0x42, Take, Take, Take]"] empty show ?thesis by auto
qed

end
