(* ===== verification/Labels.thy ===== *)
theory Labels
  imports Prelude
begin

text \<open>
  The table of labels (\<open>cpu/common/labels.c\<close>): chains of labels in a hash table, lookup by address and by name, and the
  expressions of the debugger, a label with an offset. A chain is the list of its entries in order; \<open>malloc\<close>, whose result
  the code does not test, succeeds. The functions of the C library on strings are written out.
\<close>

section \<open>The table\<close>

abbreviation (input) LABELS_HASH_SIZE :: nat where "LABELS_HASH_SIZE \<equiv> 119"

record label_entry =
  l_name :: string
  l_addr :: u32

type_synonym label_table = "nat \<Rightarrow> label_entry list"

definition bucket :: "u32 \<Rightarrow> nat" where
  "bucket addr = unat (addr mod word_of_nat LABELS_HASH_SIZE)"

definition init_labels :: label_table where
  "init_labels = (\<lambda>i. [])"

definition add_label :: "u32 \<Rightarrow> string \<Rightarrow> label_table \<Rightarrow> label_table" where
  "add_label addr name h = h(bucket addr := h (bucket addr) @ [\<lparr>l_name = name, l_addr = addr\<rparr>])"

definition get_label :: "u32 \<Rightarrow> label_table \<Rightarrow> label_entry option" where
  "get_label addr h = List.find (\<lambda>e. l_addr e = addr) (h (bucket addr))"

definition find_label :: "string \<Rightarrow> label_table \<Rightarrow> label_entry option" where
  "find_label name h = List.find (\<lambda>e. l_name e = name) (concat (map h [0..<LABELS_HASH_SIZE]))"

section \<open>Expressions\<close>

text \<open>\<open>strchr\<close> with the string cut at the character found: what is before it and what is behind it.\<close>

fun cut_at :: "char \<Rightarrow> string \<Rightarrow> (string \<times> string) option" where
  "cut_at c [] = None"
| "cut_at c (x # xs) = (if x = c then Some ([], xs) else map_option (\<lambda>(a, b). (x # a, b)) (cut_at c xs))"

definition digit_value :: "char \<Rightarrow> int" where
  "digit_value c = int (of_char c) - 48"

definition is_digit :: "char \<Rightarrow> bool" where
  "is_digit c \<longleftrightarrow> 0 \<le> digit_value c \<and> digit_value c \<le> 9"

definition decimal :: "string \<Rightarrow> int" where
  "decimal s = fold (\<lambda>c n. n * 10 + digit_value c) (takeWhile is_digit s) 0"

text \<open>\<open>atoi\<close>; the C standard leaves numbers that do not fit open, here they are taken modulo \<open>2 ^ 32\<close> by the caller.\<close>

definition atoi :: "string \<Rightarrow> int" where
  "atoi s =
     (let s = dropWhile (\<lambda>c. c = CHR '' '' \<or> 9 \<le> (of_char c :: nat) \<and> (of_char c :: nat) \<le> 13) s
      in case s of [] \<Rightarrow> 0 | c # cs \<Rightarrow> if c = CHR ''-'' then - decimal cs else if c = CHR ''+'' then decimal cs else decimal s)"

definition eval_label :: "string \<Rightarrow> label_table \<Rightarrow> u32" where
  "eval_label name h =
     (let (name, positive_offset) = (case cut_at CHR ''+'' name of None \<Rightarrow> (name, 0) | Some (n, s) \<Rightarrow> (n, atoi s));
          (name, negative_offset) = (case cut_at CHR ''-'' name of None \<Rightarrow> (name, 0) | Some (n, s) \<Rightarrow> (n, atoi s))
      in case find_label name h of
           None \<Rightarrow> 0
         | Some le \<Rightarrow> l_addr le + word_of_int positive_offset - word_of_int negative_offset)"

section \<open>What the table holds\<close>

definition add_labels :: "(u32 \<times> string) list \<Rightarrow> label_table \<Rightarrow> label_table" where
  "add_labels ls h = fold (\<lambda>(a, n). add_label a n) ls h"

definition entry :: "u32 \<times> string \<Rightarrow> label_entry" where
  "entry an = \<lparr>l_name = snd an, l_addr = fst an\<rparr>"

lemma entry_simps [simp]: "l_name (entry an) = snd an" "l_addr (entry an) = fst an"
  by (simp_all add: entry_def)

lemma bucket_less: "bucket a < LABELS_HASH_SIZE"
proof -
  have "a mod 119 < (119 :: u32)" by (rule word_mod_less_divisor) simp
  then show ?thesis by (simp add: bucket_def word_less_nat_alt)
qed

lemma add_labels_bucket: "add_labels ls h k = h k @ map entry (filter (\<lambda>an. bucket (fst an) = k) ls)"
  by (induction ls arbitrary: h) (auto simp: add_labels_def add_label_def entry_def)

lemma set_concat_upt: "set (concat (map f [0..<n])) = (\<Union>k<n. set (f k))"
  by (auto simp: lessThan_def)

lemma add_labels_all_below:
  "\<forall>an\<in>set ls. bucket (fst an) < n \<Longrightarrow> set (concat (map (add_labels ls init_labels) [0..<n])) = entry ` set ls"
  unfolding set_concat_upt by (auto simp: add_labels_bucket init_labels_def)

lemma add_labels_all: "set (concat (map (add_labels ls init_labels) [0..<LABELS_HASH_SIZE])) = entry ` set ls"
proof -
  have "\<forall>an\<in>set ls. bucket (fst an) < LABELS_HASH_SIZE" by (intro ballI bucket_less)
  then show ?thesis by (rule add_labels_all_below)
qed

lemma find_the_one:
  assumes "x \<in> set xs" and "P x" and only: "\<forall>y\<in>set xs. P y \<longrightarrow> y = x"
  shows "List.find P xs = Some x"
proof (cases "List.find P xs")
  case None
  with assms(1,2) show ?thesis by (auto simp: find_None_iff)
next
  case (Some y)
  then have "y \<in> set xs" "P y" by (auto simp: find_Some_iff)
  with only have "y = x" by blast
  with Some show ?thesis by simp
qed

lemma find_none: "\<forall>y\<in>set xs. \<not> P y \<Longrightarrow> List.find P xs = None"
  by (induction xs) auto

lemma find_in_bucket:
  "List.find (\<lambda>e. l_addr e = a) (map entry (filter (\<lambda>an. bucket (fst an) = bucket a) ls)) =
     map_option entry (List.find (\<lambda>an. fst an = a) ls)"
  by (induction ls) auto

lemma cut_at_first: "c \<notin> set a \<Longrightarrow> cut_at c (a @ c # b) = Some (a, b)"
  by (induction a) auto

lemma cut_at_none: "c \<notin> set a \<Longrightarrow> cut_at c a = None"
  by (induction a) auto

definition number :: "string \<Rightarrow> bool" where
  "number s \<longleftrightarrow> s \<noteq> [] \<and> (\<forall>c\<in>set s. is_digit c)"

lemma digit_chars: "is_digit c \<Longrightarrow> c \<noteq> CHR ''+'' \<and> c \<noteq> CHR ''-'' \<and> c \<noteq> CHR '' '' \<and> 13 < (of_char c :: nat)"
  by (auto simp: is_digit_def digit_value_def)

lemma atoi_number:
  assumes "number s" and "rest = [] \<or> \<not> is_digit (hd rest)"
  shows "atoi (s @ rest) = decimal s"
proof -
  obtain c cs where s: "s = c # cs" "is_digit c" using assms(1) by (cases s) (auto simp: number_def)
  have "takeWhile is_digit rest = []" using assms(2) by (cases rest) auto
  moreover have all: "takeWhile is_digit s = s" using assms(1) by (simp add: number_def takeWhile_eq_all_conv)
  moreover have "takeWhile is_digit (s @ rest) = s @ takeWhile is_digit rest"
    using assms(1) by (intro takeWhile_append2) (simp add: number_def)
  ultimately have "takeWhile is_digit (s @ rest) = s" "takeWhile is_digit s = s" by simp_all
  then have "decimal (s @ rest) = decimal s" by (simp only: decimal_def)
  then show ?thesis using s digit_chars[OF s(2)] by (simp add: atoi_def)
qed

section \<open>Properties\<close>

text \<open>
  The table resolves labels. When labels with different names are added to the empty table, each name is found with its
  address and no other name is found, whatever chains they fall into; and looking up an address gives the first label added
  for it.
\<close>

theorem labels_resolve:
  assumes "distinct (map snd ls)"
  shows "(\<forall>(a, n)\<in>set ls. find_label n (add_labels ls init_labels) = Some \<lparr>l_name = n, l_addr = a\<rparr>)
    \<and> (\<forall>n. n \<notin> snd ` set ls \<longrightarrow> find_label n (add_labels ls init_labels) = None)
    \<and> get_label a (add_labels ls init_labels) = map_option entry (List.find (\<lambda>an. fst an = a) ls)"
proof (intro conjI ballI allI impI)
  let ?all = "concat (map (add_labels ls init_labels) [0..<LABELS_HASH_SIZE])"
  fix an assume an: "an \<in> set ls"
  have "List.find (\<lambda>e. l_name e = snd an) ?all = Some (entry an)"
  proof (rule find_the_one)
    show "entry an \<in> set ?all" unfolding add_labels_all using an by (rule imageI)
    show "\<forall>y\<in>set ?all. l_name y = snd an \<longrightarrow> y = entry an"
      unfolding add_labels_all using an assms by (auto simp: distinct_map dest: inj_onD)
  qed simp
  then show "case an of (a, n) \<Rightarrow> find_label n (add_labels ls init_labels) = Some \<lparr>l_name = n, l_addr = a\<rparr>"
    by (cases an) (simp only: find_label_def entry_def prod.case fst_conv snd_conv)
next
  fix n assume "n \<notin> snd ` set ls"
  then have "\<forall>y\<in>set (concat (map (add_labels ls init_labels) [0..<LABELS_HASH_SIZE])). l_name y \<noteq> n"
    unfolding add_labels_all by auto
  then show "find_label n (add_labels ls init_labels) = None" unfolding find_label_def by (rule find_none)
next
  show "get_label a (add_labels ls init_labels) = map_option entry (List.find (\<lambda>an. fst an = a) ls)"
    by (simp add: get_label_def add_labels_bucket init_labels_def find_in_bucket)
qed

theorem labels_resolve_witness:
  "find_label ''main'' (add_labels [(0x100, ''_start''), (0x200, ''main'')] init_labels) = Some \<lparr>l_name = ''main'', l_addr = 0x200\<rparr>
    \<and> find_label ''exit'' (add_labels [(0x100, ''_start''), (0x200, ''main'')] init_labels) = None"
proof -
  have d: "distinct (map snd [(0x100 :: u32, ''_start''), (0x200, ''main'')])" by simp
  from labels_resolve[OF d, of 0] show ?thesis by simp
qed

text \<open>
  The offsets of an expression: a label with \<open>-q+p\<close> behind it is the address less \<open>q\<close> plus \<open>p\<close>, but with
  \<open>+p-q\<close> the subtraction is lost, because the string is cut at the plus sign before the minus sign is looked for.
\<close>

theorem label_offsets:
  assumes "find_label name h = Some e" and "CHR ''+'' \<notin> set name" and "CHR ''-'' \<notin> set name" and "number p" and "number q"
  shows "eval_label (name @ ''-'' @ q @ ''+'' @ p) h = l_addr e + word_of_int (decimal p) - word_of_int (decimal q)"
    and "eval_label (name @ ''+'' @ p @ ''-'' @ q) h = l_addr e + word_of_int (decimal p)"
proof -
  have plus: "CHR ''+'' \<notin> set (name @ ''-'' @ q)" using assms(2,5) digit_chars by (auto simp: number_def)
  have p: "atoi p = decimal p" "atoi q = decimal q" using atoi_number[OF assms(4), of "[]"] atoi_number[OF assms(5), of "[]"] by simp_all
  have "\<not> is_digit CHR ''-''" using digit_chars by blast
  then have pq: "atoi (p @ ''-'' @ q) = decimal p" using atoi_number[OF assms(4)] by simp
  show "eval_label (name @ ''-'' @ q @ ''+'' @ p) h = l_addr e + word_of_int (decimal p) - word_of_int (decimal q)"
    using cut_at_first[OF plus, of p] cut_at_first[OF assms(3), of q] p assms(1) by (simp add: eval_label_def)
  show "eval_label (name @ ''+'' @ p @ ''-'' @ q) h = l_addr e + word_of_int (decimal p)"
    using cut_at_first[OF assms(2), of "p @ ''-'' @ q"] cut_at_none[OF assms(3)] pq assms(1) by (simp add: eval_label_def)
qed

end
