(* ===== verification/Softfloat.thy ===== *)
theory Softfloat
  imports Prelude
begin

text \<open>
  Software floating point (\<open>softfloat/softfloat.c\<close>, \<open>softfloat-macros\<close>, \<open>softfloat-specialize\<close>): the functions on
  single precision numbers. \<open>float_rounding_mode\<close> is the argument \<open>rm\<close>, \<open>float_exception_flags\<close> the argument \<open>fl\<close>
  returned updated; \<open>float_detect_tininess\<close> keeps its initial value, after rounding. \<open>bits32\<close> and \<open>bits64\<close> are words,
  negated and shifted as the host does. Exponents and shift counts (\<open>int16\<close>, which \<open>host.h\<close> defines as \<open>int\<close>)
  stay below a few hundred and are unbounded integers. Out parameters are results.
\<close>

section \<open>Modes and flags\<close>

abbreviation (input) float_round_nearest_even :: u32 where "float_round_nearest_even \<equiv> 0"
abbreviation (input) float_round_down :: u32 where "float_round_down \<equiv> 1"
abbreviation (input) float_round_up :: u32 where "float_round_up \<equiv> 2"
abbreviation (input) float_round_to_zero :: u32 where "float_round_to_zero \<equiv> 3"

abbreviation (input) float_flag_invalid :: u32 where "float_flag_invalid \<equiv> 1"
abbreviation (input) float_flag_divbyzero :: u32 where "float_flag_divbyzero \<equiv> 4"
abbreviation (input) float_flag_overflow :: u32 where "float_flag_overflow \<equiv> 8"
abbreviation (input) float_flag_underflow :: u32 where "float_flag_underflow \<equiv> 16"
abbreviation (input) float_flag_inexact :: u32 where "float_flag_inexact \<equiv> 32"

definition float_raise :: "u32 \<Rightarrow> u32 \<Rightarrow> u32" where
  "float_raise flags fl = fl OR flags"

text \<open>\<open>if (c) float_exception_flags |= f\<close>.\<close>

definition raise_if :: "bool \<Rightarrow> u32 \<Rightarrow> u32 \<Rightarrow> u32" where
  "raise_if c flags fl = (if c then float_raise flags fl else fl)"

definition shl :: "'a::len word \<Rightarrow> int \<Rightarrow> 'a word" where
  "shl w n = push_bit (nat n) w"

definition shr :: "'a::len word \<Rightarrow> int \<Rightarrow> 'a word" where
  "shr w n = drop_bit (nat n) w"

section \<open>Primitive arithmetic\<close>

definition shift32RightJamming :: "u32 \<Rightarrow> int \<Rightarrow> u32" where
  "shift32RightJamming a count =
     (if count = 0 then a
      else if count < 32 then shr a count OR of_bool (shl a ((- count) mod 32) \<noteq> 0)
      else of_bool (a \<noteq> 0))"

definition shift64RightJamming :: "u64 \<Rightarrow> int \<Rightarrow> u64" where
  "shift64RightJamming a count =
     (if count = 0 then a
      else if count < 64 then shr a count OR of_bool (shl a ((- count) mod 64) \<noteq> 0)
      else of_bool (a \<noteq> 0))"

definition shift64ExtraRightJamming :: "u64 \<Rightarrow> u64 \<Rightarrow> int \<Rightarrow> u64 \<times> u64" where
  "shift64ExtraRightJamming a0 a1 count =
     (if count = 0 then (a0, a1)
      else if count < 64 then (shr a0 count, shl a0 ((- count) mod 64) OR of_bool (a1 \<noteq> 0))
      else (0, if count = 64 then a0 OR of_bool (a1 \<noteq> 0) else of_bool (a0 OR a1 \<noteq> 0)))"

definition add128 :: "u64 \<Rightarrow> u64 \<Rightarrow> u64 \<Rightarrow> u64 \<Rightarrow> u64 \<times> u64" where
  "add128 a0 a1 b0 b1 = (let z1 = a1 + b1 in (a0 + b0 + of_bool (z1 < a1), z1))"

definition sub128 :: "u64 \<Rightarrow> u64 \<Rightarrow> u64 \<Rightarrow> u64 \<Rightarrow> u64 \<times> u64" where
  "sub128 a0 a1 b0 b1 = (a0 - b0 - of_bool (a1 < b1), a1 - b1)"

definition mul64To128 :: "u64 \<Rightarrow> u64 \<Rightarrow> u64 \<times> u64" where
  "mul64To128 a b =
     (let aLow = ucast (ucast a :: u32); aHigh = drop_bit 32 a;
          bLow = ucast (ucast b :: u32); bHigh = drop_bit 32 b;
          z1 = aLow * bLow; zMiddleA = aLow * bHigh; zMiddleB = aHigh * bLow; z0 = aHigh * bHigh;
          zMiddleA = zMiddleA + zMiddleB;
          z0 = z0 + (push_bit 32 (of_bool (zMiddleA < zMiddleB)) + drop_bit 32 zMiddleA);
          zMiddleA = push_bit 32 zMiddleA;
          z1 = z1 + zMiddleA;
          z0 = z0 + of_bool (z1 < zMiddleA)
      in (z0, z1))"

text \<open>The loop of \<open>estimateDiv128To64\<close>.\<close>

partial_function (option) reduce_estimate :: "u64 \<Rightarrow> u64 \<Rightarrow> u64 \<Rightarrow> u64 \<Rightarrow> u64 \<Rightarrow> (u64 \<times> u64 \<times> u64) option" where
  "reduce_estimate b b0 z rem0 rem1 =
     (if sint rem0 < 0
      then let z = z - 0x100000000; (rem0, rem1) = add128 rem0 rem1 b0 (push_bit 32 b)
           in reduce_estimate b b0 z rem0 rem1
      else Some (z, rem0, rem1))"

definition estimateDiv128To64 :: "u64 \<Rightarrow> u64 \<Rightarrow> u64 \<Rightarrow> u64 option" where
  "estimateDiv128To64 a0 a1 b =
     (if b \<le> a0 then Some 0xFFFFFFFFFFFFFFFF
      else
        let b0 = drop_bit 32 b;
            z = (if push_bit 32 b0 \<le> a0 then 0xFFFFFFFF00000000 else push_bit 32 (a0 div b0));
            (term0, term1) = mul64To128 b z;
            (rem0, rem1) = sub128 a0 a1 term0 term1
        in case reduce_estimate b b0 z rem0 rem1 of
             None \<Rightarrow> None
           | Some (z, rem0, rem1) \<Rightarrow>
               let rem0 = push_bit 32 rem0 OR drop_bit 32 rem1
               in Some (z OR (if push_bit 32 b0 \<le> rem0 then 0xFFFFFFFF else rem0 div b0)))"

definition sqrtOddAdjustments :: "u32 list" where
  "sqrtOddAdjustments =
     [0x0004, 0x0022, 0x005D, 0x00B1, 0x011D, 0x019F, 0x0236, 0x02E0,
      0x039C, 0x0468, 0x0545, 0x0631, 0x072B, 0x0832, 0x0946, 0x0A67]"

definition sqrtEvenAdjustments :: "u32 list" where
  "sqrtEvenAdjustments =
     [0x0A2D, 0x08AF, 0x075A, 0x0629, 0x051A, 0x0429, 0x0356, 0x029E,
      0x0200, 0x0179, 0x0109, 0x00AF, 0x0068, 0x0034, 0x0012, 0x0002]"

definition estimateSqrt32 :: "int \<Rightarrow> u32 \<Rightarrow> u32" where
  "estimateSqrt32 aExp a =
     (let index = unat (drop_bit 27 a AND 15);
          last_step = (\<lambda>(a :: u32) z. ucast (push_bit 31 (ucast a :: u64) div ucast z) + drop_bit 1 z)
      in if odd aExp
         then let z = 0x4000 + drop_bit 17 a - sqrtOddAdjustments ! index;
                  z = push_bit 14 (a div z) + push_bit 15 z
              in last_step (drop_bit 1 a) z
         else let z = 0x8000 + drop_bit 17 a - sqrtEvenAdjustments ! index;
                  z = a div z + z;
                  z = (if 0x20000 \<le> z then 0xFFFF8000 else push_bit 15 z)
              in if z \<le> a then signed_drop_bit 1 a else last_step a z)"

definition countLeadingZerosHigh :: "int list" where
  "countLeadingZerosHigh =
     [8, 7] @ replicate 2 6 @ replicate 4 5 @ replicate 8 4 @ replicate 16 3 @ replicate 32 2 @ replicate 64 1 @ replicate 128 0"

definition countLeadingZeros32 :: "u32 \<Rightarrow> int" where
  "countLeadingZeros32 a =
     (let (shiftCount, a) = (if a < 0x10000 then (16, push_bit 16 a) else (0, a));
          (shiftCount, a) = (if a < 0x1000000 then (shiftCount + 8, push_bit 8 a) else (shiftCount, a))
      in shiftCount + countLeadingZerosHigh ! unat (drop_bit 24 a))"

definition countLeadingZeros64 :: "u64 \<Rightarrow> int" where
  "countLeadingZeros64 a =
     (if a < 0x100000000 then 32 + countLeadingZeros32 (ucast a) else countLeadingZeros32 (ucast (drop_bit 32 a)))"

section \<open>Rounding to integers\<close>

text \<open>The increment both \<open>roundAndPackInt32\<close> and \<open>roundAndPackFloat32\<close> start with.\<close>

definition round_increment :: "u32 \<Rightarrow> bool \<Rightarrow> u32" where
  "round_increment rm zSign =
     (if rm = float_round_nearest_even then 0x40
      else if rm = float_round_to_zero then 0
      else if zSign then (if rm = float_round_up then 0 else 0x7F)
      else (if rm = float_round_down then 0 else 0x7F))"

definition roundAndPackInt32 :: "u32 \<Rightarrow> u32 \<Rightarrow> bool \<Rightarrow> u64 \<Rightarrow> u32 \<times> u32" where
  "roundAndPackInt32 rm fl zSign absZ =
     (let roundBits = absZ AND 0x7F;
          absZ = drop_bit 7 (absZ + ucast (round_increment rm zSign));
          absZ = (if roundBits XOR 0x40 = 0 \<and> rm = float_round_nearest_even then absZ AND NOT 1 else absZ);
          z = ucast absZ;
          z = (if zSign then - z else z)
      in if drop_bit 32 absZ \<noteq> 0 \<or> (z \<noteq> 0 \<and> (sint z < 0) \<noteq> zSign)
         then (if zSign then 0x80000000 else 0x7FFFFFFF, float_raise float_flag_invalid fl)
         else (z, raise_if (roundBits \<noteq> 0) float_flag_inexact fl))"

definition roundAndPackInt64 :: "u32 \<Rightarrow> u32 \<Rightarrow> bool \<Rightarrow> u64 \<Rightarrow> u64 \<Rightarrow> u64 \<times> u32" where
  "roundAndPackInt64 rm fl zSign absZ0 absZ1 =
     (let increment =
            (if rm = float_round_nearest_even then sint absZ1 < 0
             else if rm = float_round_to_zero then False
             else if zSign then rm = float_round_down \<and> absZ1 \<noteq> 0
             else rm = float_round_up \<and> absZ1 \<noteq> 0);
          overflow = (if zSign then 0x8000000000000000 else 0x7FFFFFFFFFFFFFFF, float_raise float_flag_invalid fl);
          absZ = (if increment then absZ0 + 1 else absZ0)
      in if increment \<and> absZ = 0 then overflow
         else
           let absZ = (if increment \<and> push_bit 1 absZ1 = 0 \<and> rm = float_round_nearest_even then absZ AND NOT 1 else absZ);
               z = (if zSign then - absZ else absZ)
           in if z \<noteq> 0 \<and> (sint z < 0) \<noteq> zSign then overflow
              else (z, raise_if (absZ1 \<noteq> 0) float_flag_inexact fl))"

section \<open>The single precision format\<close>

definition extractFloat32Frac :: "u32 \<Rightarrow> u32" where
  "extractFloat32Frac a = a AND 0x007FFFFF"

definition extractFloat32Exp :: "u32 \<Rightarrow> int" where
  "extractFloat32Exp a = uint (drop_bit 23 a AND 0xFF)"

definition extractFloat32Sign :: "u32 \<Rightarrow> bool" where
  "extractFloat32Sign a = (drop_bit 31 a \<noteq> 0)"

text \<open>The exponent and the significand.\<close>

definition normalizeFloat32Subnormal :: "u32 \<Rightarrow> int \<times> u32" where
  "normalizeFloat32Subnormal aSig =
     (let shiftCount = countLeadingZeros32 aSig - 8 in (1 - shiftCount, shl aSig shiftCount))"

definition packFloat32 :: "bool \<Rightarrow> int \<Rightarrow> u32 \<Rightarrow> u32" where
  "packFloat32 zSign zExp zSig = push_bit 31 (of_bool zSign) + push_bit 23 (word_of_int zExp) + zSig"

text \<open>The rounding at the end of \<open>roundAndPackFloat32\<close>.\<close>

definition round_pack :: "u32 \<Rightarrow> u32 \<Rightarrow> bool \<Rightarrow> int \<Rightarrow> u32 \<Rightarrow> u32 \<times> u32" where
  "round_pack rm fl zSign zExp zSig =
     (let roundBits = zSig AND 0x7F;
          fl = raise_if (roundBits \<noteq> 0) float_flag_inexact fl;
          zSig = drop_bit 7 (zSig + round_increment rm zSign);
          zSig = (if roundBits XOR 0x40 = 0 \<and> rm = float_round_nearest_even then zSig AND NOT 1 else zSig);
          zExp = (if zSig = 0 then 0 else zExp)
      in (packFloat32 zSign zExp zSig, fl))"

definition roundAndPackFloat32 :: "u32 \<Rightarrow> u32 \<Rightarrow> bool \<Rightarrow> int \<Rightarrow> u32 \<Rightarrow> u32 \<times> u32" where
  "roundAndPackFloat32 rm fl zSign zExp zSig =
     (let roundIncrement = round_increment rm zSign
      in if 0xFD \<le> zExp mod 0x10000
         then
           if 0xFD < zExp \<or> (zExp = 0xFD \<and> sint (zSig + roundIncrement) < 0)
           then (packFloat32 zSign 0xFF 0 - of_bool (roundIncrement = 0), float_raise (float_flag_overflow OR float_flag_inexact) fl)
           else if zExp < 0
           then let isTiny = (zExp < -1 \<or> zSig + roundIncrement < 0x80000000);
                    zSig = shift32RightJamming zSig (- zExp);
                    fl = raise_if (isTiny \<and> zSig AND 0x7F \<noteq> 0) float_flag_underflow fl
                in round_pack rm fl zSign 0 zSig
           else round_pack rm fl zSign zExp zSig
         else round_pack rm fl zSign zExp zSig)"

definition normalizeRoundAndPackFloat32 :: "u32 \<Rightarrow> u32 \<Rightarrow> bool \<Rightarrow> int \<Rightarrow> u32 \<Rightarrow> u32 \<times> u32" where
  "normalizeRoundAndPackFloat32 rm fl zSign zExp zSig =
     (let shiftCount = countLeadingZeros32 zSig - 1
      in roundAndPackFloat32 rm fl zSign (zExp - shiftCount) (shl zSig shiftCount))"

section \<open>NaNs\<close>

record commonNaNT =
  nan_sign :: bool
  nan_high :: u64
  nan_low :: u64

abbreviation (input) float32_default_nan :: u32 where "float32_default_nan \<equiv> 0xFFC00000"

definition float32_is_nan :: "u32 \<Rightarrow> bool" where
  "float32_is_nan a = (0xFF000000 < push_bit 1 a)"

definition float32_is_signaling_nan :: "u32 \<Rightarrow> bool" where
  "float32_is_signaling_nan a = (drop_bit 22 a AND 0x1FF = 0x1FE \<and> a AND 0x003FFFFF \<noteq> 0)"

definition float32ToCommonNaN :: "u32 \<Rightarrow> u32 \<Rightarrow> commonNaNT \<times> u32" where
  "float32ToCommonNaN fl a =
     (\<lparr>nan_sign = (drop_bit 31 a \<noteq> 0), nan_high = push_bit 41 (ucast a), nan_low = 0\<rparr>,
      raise_if (float32_is_signaling_nan a) float_flag_invalid fl)"

definition commonNaNToFloat64 :: "commonNaNT \<Rightarrow> u64" where
  "commonNaNToFloat64 a = push_bit 63 (of_bool (nan_sign a)) OR 0x7FF8000000000000 OR drop_bit 12 (nan_high a)"

definition propagateFloat32NaN :: "u32 \<Rightarrow> u32 \<Rightarrow> u32 \<Rightarrow> u32 \<times> u32" where
  "propagateFloat32NaN fl a b =
     (let aIsNaN = float32_is_nan a; aIsSignalingNaN = float32_is_signaling_nan a;
          bIsNaN = float32_is_nan b; bIsSignalingNaN = float32_is_signaling_nan b;
          a = a OR 0x00400000; b = b OR 0x00400000;
          fl = raise_if (aIsSignalingNaN \<or> bIsSignalingNaN) float_flag_invalid fl
      in if aIsNaN then (if aIsSignalingNaN \<and> bIsNaN then b else a, fl) else (b, fl))"

section \<open>Conversions\<close>

definition int32_to_float32 :: "u32 \<Rightarrow> u32 \<Rightarrow> u32 \<Rightarrow> u32 \<times> u32" where
  "int32_to_float32 rm fl a =
     (if a = 0 then (0, fl)
      else if a = 0x80000000 then (packFloat32 True 0x9E 0, fl)
      else let zSign = (sint a < 0)
           in normalizeRoundAndPackFloat32 rm fl zSign 0x9C (if zSign then - a else a))"

definition int64_to_float32 :: "u32 \<Rightarrow> u32 \<Rightarrow> u64 \<Rightarrow> u32 \<times> u32" where
  "int64_to_float32 rm fl a =
     (if a = 0 then (0, fl)
      else
        let zSign = (sint a < 0); absA = (if zSign then - a else a);
            shiftCount = countLeadingZeros64 absA - 40
        in if 0 \<le> shiftCount then (packFloat32 zSign (0x95 - shiftCount) (ucast (shl absA shiftCount)), fl)
           else
             let shiftCount = shiftCount + 7;
                 absA = (if shiftCount < 0 then shift64RightJamming absA (- shiftCount) else shl absA shiftCount)
             in roundAndPackFloat32 rm fl zSign (0x9C - shiftCount) (ucast absA))"

definition float32_to_int32 :: "u32 \<Rightarrow> u32 \<Rightarrow> u32 \<Rightarrow> u32 \<times> u32" where
  "float32_to_int32 rm fl a =
     (let aSig = extractFloat32Frac a; aExp = extractFloat32Exp a; aSign = extractFloat32Sign a;
          aSign = (if aExp = 0xFF \<and> aSig \<noteq> 0 then False else aSign);
          aSig = (if aExp \<noteq> 0 then aSig OR 0x00800000 else aSig);
          shiftCount = 0xAF - aExp;
          aSig64 = push_bit 32 (ucast aSig :: u64);
          aSig64 = (if 0 < shiftCount then shift64RightJamming aSig64 shiftCount else aSig64)
      in roundAndPackInt32 rm fl aSign aSig64)"

definition float32_to_int32_round_to_zero :: "u32 \<Rightarrow> u32 \<Rightarrow> u32 \<times> u32" where
  "float32_to_int32_round_to_zero fl a =
     (let aSig = extractFloat32Frac a; aExp = extractFloat32Exp a; aSign = extractFloat32Sign a;
          shiftCount = aExp - 0x9E
      in if 0 \<le> shiftCount
         then if a \<noteq> 0xCF000000
              then (if \<not> aSign \<or> (aExp = 0xFF \<and> aSig \<noteq> 0) then 0x7FFFFFFF else 0x80000000, float_raise float_flag_invalid fl)
              else (0x80000000, fl)
         else if aExp \<le> 0x7E then (0, raise_if (aExp \<noteq> 0 \<or> aSig \<noteq> 0) float_flag_inexact fl)
         else
           let aSig = push_bit 8 (aSig OR 0x00800000); z = shr aSig (- shiftCount);
               fl = raise_if (shl aSig (shiftCount mod 32) \<noteq> 0) float_flag_inexact fl
           in (if aSign then - z else z, fl))"

definition float32_to_int64 :: "u32 \<Rightarrow> u32 \<Rightarrow> u32 \<Rightarrow> u64 \<times> u32" where
  "float32_to_int64 rm fl a =
     (let aSig = extractFloat32Frac a; aExp = extractFloat32Exp a; aSign = extractFloat32Sign a;
          shiftCount = 0xBE - aExp
      in if shiftCount < 0
         then (if \<not> aSign \<or> (aExp = 0xFF \<and> aSig \<noteq> 0) then 0x7FFFFFFFFFFFFFFF else 0x8000000000000000,
               float_raise float_flag_invalid fl)
         else
           let aSig = (if aExp \<noteq> 0 then aSig OR 0x00800000 else aSig);
               (aSig64, aSigExtra) = shift64ExtraRightJamming (push_bit 40 (ucast aSig)) 0 shiftCount
           in roundAndPackInt64 rm fl aSign aSig64 aSigExtra)"

definition float32_to_int64_round_to_zero :: "u32 \<Rightarrow> u32 \<Rightarrow> u64 \<times> u32" where
  "float32_to_int64_round_to_zero fl a =
     (let aSig = extractFloat32Frac a; aExp = extractFloat32Exp a; aSign = extractFloat32Sign a;
          shiftCount = aExp - 0xBE
      in if 0 \<le> shiftCount
         then if a \<noteq> 0xDF000000
              then (if \<not> aSign \<or> (aExp = 0xFF \<and> aSig \<noteq> 0) then 0x7FFFFFFFFFFFFFFF else 0x8000000000000000,
                    float_raise float_flag_invalid fl)
              else (0x8000000000000000, fl)
         else if aExp \<le> 0x7E then (0, raise_if (aExp \<noteq> 0 \<or> aSig \<noteq> 0) float_flag_inexact fl)
         else
           let aSig64 = push_bit 40 (ucast (aSig OR 0x00800000) :: u64); z = shr aSig64 (- shiftCount);
               fl = raise_if (shl aSig64 (shiftCount mod 64) \<noteq> 0) float_flag_inexact fl
           in (if aSign then - z else z, fl))"

definition packFloat64 :: "bool \<Rightarrow> int \<Rightarrow> u64 \<Rightarrow> u64" where
  "packFloat64 zSign zExp zSig = push_bit 63 (of_bool zSign) + push_bit 52 (word_of_int zExp) + zSig"

definition int32_to_float64 :: "u32 \<Rightarrow> u64" where
  "int32_to_float64 a =
     (if a = 0 then 0
      else
        let zSign = (sint a < 0); absA = (if zSign then - a else a);
            shiftCount = countLeadingZeros32 absA + 21
        in packFloat64 zSign (0x432 - shiftCount) (shl (ucast absA) shiftCount))"

definition float32_to_float64 :: "u32 \<Rightarrow> u32 \<Rightarrow> u64 \<times> u32" where
  "float32_to_float64 fl a =
     (let aSig = extractFloat32Frac a; aExp = extractFloat32Exp a; aSign = extractFloat32Sign a
      in if aExp = 0xFF
         then if aSig \<noteq> 0 then case float32ToCommonNaN fl a of (n, fl) \<Rightarrow> (commonNaNToFloat64 n, fl)
              else (packFloat64 aSign 0x7FF 0, fl)
         else if aExp = 0 \<and> aSig = 0 then (packFloat64 aSign 0 0, fl)
         else
           let (aExp, aSig) = (if aExp = 0 then case normalizeFloat32Subnormal aSig of (e, s) \<Rightarrow> (e - 1, s) else (aExp, aSig))
           in (packFloat64 aSign (aExp + 0x380) (push_bit 29 (ucast aSig)), fl))"

definition float32_round_to_int :: "u32 \<Rightarrow> u32 \<Rightarrow> u32 \<Rightarrow> u32 \<times> u32" where
  "float32_round_to_int rm fl a =
     (let aExp = extractFloat32Exp a
      in if 0x96 \<le> aExp
         then if aExp = 0xFF \<and> extractFloat32Frac a \<noteq> 0 then propagateFloat32NaN fl a a else (a, fl)
         else if aExp \<le> 0x7E
         then if push_bit 1 a = 0 then (a, fl)
              else
                let fl = float_raise float_flag_inexact fl; aSign = extractFloat32Sign a
                in (if rm = float_round_nearest_even \<and> aExp = 0x7E \<and> extractFloat32Frac a \<noteq> 0 then packFloat32 aSign 0x7F 0
                    else if rm = float_round_down then (if aSign then 0xBF800000 else 0)
                    else if rm = float_round_up then (if aSign then 0x80000000 else 0x3F800000)
                    else packFloat32 aSign 0 0, fl)
         else
           let lastBitMask = shl 1 (0x96 - aExp); roundBitsMask = lastBitMask - 1;
               z = (if rm = float_round_nearest_even
                    then let z = a + drop_bit 1 lastBitMask in if z AND roundBitsMask = 0 then z AND NOT lastBitMask else z
                    else if rm \<noteq> float_round_to_zero \<and> extractFloat32Sign a \<noteq> (rm = float_round_up)
                    then a + roundBitsMask else a);
               z = z AND NOT roundBitsMask
           in (z, raise_if (z \<noteq> a) float_flag_inexact fl))"

section \<open>Arithmetic\<close>

definition addFloat32Sigs :: "u32 \<Rightarrow> u32 \<Rightarrow> u32 \<Rightarrow> u32 \<Rightarrow> bool \<Rightarrow> u32 \<times> u32" where
  "addFloat32Sigs rm fl a b zSign =
     (let aSig = push_bit 6 (extractFloat32Frac a); aExp = extractFloat32Exp a;
          bSig = push_bit 6 (extractFloat32Frac b); bExp = extractFloat32Exp b;
          expDiff = aExp - bExp;
          add_sigs = (\<lambda>aSig bSig zExp.
            let aSig = aSig OR 0x20000000; zSig = push_bit 1 (aSig + bSig)
            in if sint zSig < 0 then roundAndPackFloat32 rm fl zSign zExp (aSig + bSig)
               else roundAndPackFloat32 rm fl zSign (zExp - 1) zSig)
      in if 0 < expDiff
         then if aExp = 0xFF then if aSig \<noteq> 0 then propagateFloat32NaN fl a b else (a, fl)
              else let (expDiff, bSig) = (if bExp = 0 then (expDiff - 1, bSig) else (expDiff, bSig OR 0x20000000))
                   in add_sigs aSig (shift32RightJamming bSig expDiff) aExp
         else if expDiff < 0
         then if bExp = 0xFF then if bSig \<noteq> 0 then propagateFloat32NaN fl a b else (packFloat32 zSign 0xFF 0, fl)
              else let (expDiff, aSig) = (if aExp = 0 then (expDiff + 1, aSig) else (expDiff, aSig OR 0x20000000))
                   in add_sigs (shift32RightJamming aSig (- expDiff)) bSig bExp
         else if aExp = 0xFF then if aSig OR bSig \<noteq> 0 then propagateFloat32NaN fl a b else (a, fl)
         else if aExp = 0 then (packFloat32 zSign 0 (drop_bit 6 (aSig + bSig)), fl)
         else roundAndPackFloat32 rm fl zSign aExp (0x40000000 + aSig + bSig))"

definition subFloat32Sigs :: "u32 \<Rightarrow> u32 \<Rightarrow> u32 \<Rightarrow> u32 \<Rightarrow> bool \<Rightarrow> u32 \<times> u32" where
  "subFloat32Sigs rm fl a b zSign =
     (let aSig = push_bit 7 (extractFloat32Frac a); aExp = extractFloat32Exp a;
          bSig = push_bit 7 (extractFloat32Frac b); bExp = extractFloat32Exp b;
          expDiff = aExp - bExp;
          aBigger = (\<lambda>aSig bSig zExp. normalizeRoundAndPackFloat32 rm fl zSign (zExp - 1) (aSig - bSig));
          bBigger = (\<lambda>aSig bSig zExp. normalizeRoundAndPackFloat32 rm fl (\<not> zSign) (zExp - 1) (bSig - aSig))
      in if 0 < expDiff
         then if aExp = 0xFF then if aSig \<noteq> 0 then propagateFloat32NaN fl a b else (a, fl)
              else let (expDiff, bSig) = (if bExp = 0 then (expDiff - 1, bSig) else (expDiff, bSig OR 0x40000000))
                   in aBigger (aSig OR 0x40000000) (shift32RightJamming bSig expDiff) aExp
         else if expDiff < 0
         then if bExp = 0xFF then if bSig \<noteq> 0 then propagateFloat32NaN fl a b else (packFloat32 (\<not> zSign) 0xFF 0, fl)
              else let (expDiff, aSig) = (if aExp = 0 then (expDiff + 1, aSig) else (expDiff, aSig OR 0x40000000))
                   in bBigger (shift32RightJamming aSig (- expDiff)) (bSig OR 0x40000000) bExp
         else if aExp = 0xFF
         then if aSig OR bSig \<noteq> 0 then propagateFloat32NaN fl a b else (float32_default_nan, float_raise float_flag_invalid fl)
         else
           let (aExp, bExp) = (if aExp = 0 then (1, 1) else (aExp, bExp))
           in if bSig < aSig then aBigger aSig bSig aExp
              else if aSig < bSig then bBigger aSig bSig bExp
              else (packFloat32 (rm = float_round_down) 0 0, fl))"

definition float32_add :: "u32 \<Rightarrow> u32 \<Rightarrow> u32 \<Rightarrow> u32 \<Rightarrow> u32 \<times> u32" where
  "float32_add rm fl a b =
     (let aSign = extractFloat32Sign a; bSign = extractFloat32Sign b
      in if aSign = bSign then addFloat32Sigs rm fl a b aSign else subFloat32Sigs rm fl a b aSign)"

definition float32_sub :: "u32 \<Rightarrow> u32 \<Rightarrow> u32 \<Rightarrow> u32 \<Rightarrow> u32 \<times> u32" where
  "float32_sub rm fl a b =
     (let aSign = extractFloat32Sign a; bSign = extractFloat32Sign b
      in if aSign = bSign then subFloat32Sigs rm fl a b aSign else addFloat32Sigs rm fl a b aSign)"

text \<open>\<open>if (e == 0) normalizeFloat32Subnormal (s, &e, &s)\<close>.\<close>

definition normalize_if :: "int \<Rightarrow> u32 \<Rightarrow> int \<times> u32" where
  "normalize_if e s = (if e = 0 then normalizeFloat32Subnormal s else (e, s))"

definition float32_mul :: "u32 \<Rightarrow> u32 \<Rightarrow> u32 \<Rightarrow> u32 \<Rightarrow> u32 \<times> u32" where
  "float32_mul rm fl a b =
     (let aSig = extractFloat32Frac a; aExp = extractFloat32Exp a; aSign = extractFloat32Sign a;
          bSig = extractFloat32Frac b; bExp = extractFloat32Exp b; bSign = extractFloat32Sign b;
          zSign = (aSign \<noteq> bSign)
      in if aExp = 0xFF
         then if aSig \<noteq> 0 \<or> (bExp = 0xFF \<and> bSig \<noteq> 0) then propagateFloat32NaN fl a b
              else if bExp = 0 \<and> bSig = 0 then (float32_default_nan, float_raise float_flag_invalid fl)
              else (packFloat32 zSign 0xFF 0, fl)
         else if bExp = 0xFF
         then if bSig \<noteq> 0 then propagateFloat32NaN fl a b
              else if aExp = 0 \<and> aSig = 0 then (float32_default_nan, float_raise float_flag_invalid fl)
              else (packFloat32 zSign 0xFF 0, fl)
         else if aExp = 0 \<and> aSig = 0 then (packFloat32 zSign 0 0, fl)
         else if bExp = 0 \<and> bSig = 0 then (packFloat32 zSign 0 0, fl)
         else
           let (aExp, aSig) = normalize_if aExp aSig; (bExp, bSig) = normalize_if bExp bSig;
               zExp = aExp + bExp - 0x7F;
               aSig = push_bit 7 (aSig OR 0x00800000); bSig = push_bit 8 (bSig OR 0x00800000);
               zSig = (ucast (shift64RightJamming (ucast aSig * ucast bSig) 32) :: u32)
           in if 0 \<le> sint (push_bit 1 zSig) then roundAndPackFloat32 rm fl zSign (zExp - 1) (push_bit 1 zSig)
              else roundAndPackFloat32 rm fl zSign zExp zSig)"

definition float32_div :: "u32 \<Rightarrow> u32 \<Rightarrow> u32 \<Rightarrow> u32 \<Rightarrow> u32 \<times> u32" where
  "float32_div rm fl a b =
     (let aSig = extractFloat32Frac a; aExp = extractFloat32Exp a; aSign = extractFloat32Sign a;
          bSig = extractFloat32Frac b; bExp = extractFloat32Exp b; bSign = extractFloat32Sign b;
          zSign = (aSign \<noteq> bSign)
      in if aExp = 0xFF
         then if aSig \<noteq> 0 \<or> (bExp = 0xFF \<and> bSig \<noteq> 0) then propagateFloat32NaN fl a b
              else if bExp = 0xFF then (float32_default_nan, float_raise float_flag_invalid fl)
              else (packFloat32 zSign 0xFF 0, fl)
         else if bExp = 0xFF
         then if bSig \<noteq> 0 then propagateFloat32NaN fl a b else (packFloat32 zSign 0 0, fl)
         else if bExp = 0 \<and> bSig = 0
         then if aExp = 0 \<and> aSig = 0 then (float32_default_nan, float_raise float_flag_invalid fl)
              else (packFloat32 zSign 0xFF 0, float_raise float_flag_divbyzero fl)
         else if aExp = 0 \<and> aSig = 0 then (packFloat32 zSign 0 0, fl)
         else
           let (bExp, bSig) = normalize_if bExp bSig; (aExp, aSig) = normalize_if aExp aSig;
               zExp = aExp - bExp + 0x7D;
               aSig = push_bit 7 (aSig OR 0x00800000); bSig = push_bit 8 (bSig OR 0x00800000);
               (aSig, zExp) = (if bSig \<le> aSig + aSig then (drop_bit 1 aSig, zExp + 1) else (aSig, zExp));
               n = push_bit 32 (ucast aSig :: u64);
               zSig = (ucast (n div ucast bSig) :: u32);
               zSig = (if zSig AND 0x3F = 0 then zSig OR of_bool (ucast bSig * ucast zSig \<noteq> n) else zSig)
           in roundAndPackFloat32 rm fl zSign zExp zSig)"

text \<open>The loops of \<open>float32_rem\<close>: the quotient estimate of far apart operands, the last subtractions.\<close>

function rem_reduce :: "int \<Rightarrow> u32 \<Rightarrow> u64 \<Rightarrow> u64 \<Rightarrow> (int \<times> u64) option" where
  "rem_reduce expDiff bSig bSig64 aSig64 =
     (if 0 < expDiff
      then case estimateDiv128To64 aSig64 0 bSig64 of
             None \<Rightarrow> None
           | Some q64 \<Rightarrow>
               let q64 = (if 2 < q64 then q64 - 2 else 0)
               in rem_reduce (expDiff - 62) bSig bSig64 (- push_bit 38 (ucast bSig * q64))
      else Some (expDiff, aSig64))"
  by auto

termination
  by (relation "measure (\<lambda>(expDiff, _). nat expDiff)") auto

partial_function (option) rem_subtract :: "u32 \<Rightarrow> u32 \<Rightarrow> u32 \<Rightarrow> (u32 \<times> u32 \<times> u32) option" where
  "rem_subtract bSig q aSig =
     (let alternateASig = aSig; q = q + 1; aSig = aSig - bSig
      in if 0 \<le> sint aSig then rem_subtract bSig q aSig else Some (alternateASig, q, aSig))"

text \<open>The quotient, the remainder so far and the divisor the last loop starts with.\<close>

definition rem_quotient :: "int \<Rightarrow> u32 \<Rightarrow> u32 \<Rightarrow> (u32 \<times> u32 \<times> u32) option" where
  "rem_quotient expDiff aSig bSig =
     (if expDiff < 32
      then
        let aSig = push_bit 8 aSig; bSig = push_bit 8 bSig;
            aSig = (if expDiff < 0 then drop_bit 1 aSig else aSig);
            q = of_bool (bSig \<le> aSig);
            aSig = (if q \<noteq> 0 then aSig - bSig else aSig)
        in if 0 < expDiff
           then
             let q = (ucast (push_bit 32 (ucast aSig :: u64) div ucast bSig) :: u32);
                 q = shr q (32 - expDiff);
                 bSig = drop_bit 2 bSig
             in Some (q, shl (drop_bit 1 aSig) (expDiff - 1) - bSig * q, bSig)
           else Some (q, drop_bit 2 aSig, drop_bit 2 bSig)
      else
        let aSig = (if bSig \<le> aSig then aSig - bSig else aSig);
            bSig64 = push_bit 40 (ucast bSig)
        in case rem_reduce (expDiff - 64) bSig bSig64 (push_bit 40 (ucast aSig)) of
             None \<Rightarrow> None
           | Some (expDiff, aSig64) \<Rightarrow>
               let expDiff = expDiff + 64
               in case estimateDiv128To64 aSig64 0 bSig64 of
                    None \<Rightarrow> None
                  | Some q64 \<Rightarrow>
                      let q64 = (if 2 < q64 then q64 - 2 else 0);
                          q = (ucast (shr q64 (64 - expDiff)) :: u32);
                          bSig = push_bit 6 bSig
                      in Some (q, ucast (shl (drop_bit 33 aSig64) (expDiff - 1)) - bSig * q, bSig))"

definition float32_rem :: "u32 \<Rightarrow> u32 \<Rightarrow> u32 \<Rightarrow> u32 \<Rightarrow> (u32 \<times> u32) option" where
  "float32_rem rm fl a b =
     (let aSig = extractFloat32Frac a; aExp = extractFloat32Exp a; aSign = extractFloat32Sign a;
          bSig = extractFloat32Frac b; bExp = extractFloat32Exp b
      in if aExp = 0xFF
         then Some (if aSig \<noteq> 0 \<or> (bExp = 0xFF \<and> bSig \<noteq> 0) then propagateFloat32NaN fl a b
                    else (float32_default_nan, float_raise float_flag_invalid fl))
         else if bExp = 0xFF then Some (if bSig \<noteq> 0 then propagateFloat32NaN fl a b else (a, fl))
         else if bExp = 0 \<and> bSig = 0 then Some (float32_default_nan, float_raise float_flag_invalid fl)
         else if aExp = 0 \<and> aSig = 0 then Some (a, fl)
         else
           let (bExp, bSig) = normalize_if bExp bSig; (aExp, aSig) = normalize_if aExp aSig;
               expDiff = aExp - bExp
           in if expDiff < -1 then Some (a, fl)
              else
                case rem_quotient expDiff (aSig OR 0x00800000) (bSig OR 0x00800000) of
                  None \<Rightarrow> None
                | Some (q, aSig, bSig) \<Rightarrow>
                    (case rem_subtract bSig q aSig of
                       None \<Rightarrow> None
                     | Some (alternateASig, q, aSig) \<Rightarrow>
                         let sigMean = aSig + alternateASig;
                             aSig = (if sint sigMean < 0 \<or> (sigMean = 0 \<and> q AND 1 \<noteq> 0) then alternateASig else aSig);
                             zSign = (sint aSig < 0);
                             aSig = (if zSign then - aSig else aSig)
                         in Some (normalizeRoundAndPackFloat32 rm fl (aSign \<noteq> zSign) bExp aSig)))"

partial_function (option) sqrt_correct :: "u32 \<Rightarrow> u64 \<Rightarrow> (u32 \<times> u64) option" where
  "sqrt_correct zSig rem =
     (if sint rem < 0
      then let zSig = zSig - 1 in sqrt_correct zSig (rem + (push_bit 1 (ucast zSig) OR 1))
      else Some (zSig, rem))"

definition float32_sqrt :: "u32 \<Rightarrow> u32 \<Rightarrow> u32 \<Rightarrow> (u32 \<times> u32) option" where
  "float32_sqrt rm fl a =
     (let aSig = extractFloat32Frac a; aExp = extractFloat32Exp a; aSign = extractFloat32Sign a
      in if aExp = 0xFF
         then Some (if aSig \<noteq> 0 then propagateFloat32NaN fl a 0
                    else if \<not> aSign then (a, fl) else (float32_default_nan, float_raise float_flag_invalid fl))
         else if aSign
         then Some (if aExp = 0 \<and> aSig = 0 then (a, fl) else (float32_default_nan, float_raise float_flag_invalid fl))
         else if aExp = 0 \<and> aSig = 0 then Some (0, fl)
         else
           let (aExp, aSig) = normalize_if aExp aSig;
               zExp = (aExp - 0x7F) div 2 + 0x7E;
               aSig = push_bit 8 (aSig OR 0x00800000);
               zSig = estimateSqrt32 aExp aSig + 2
           in if zSig AND 0x7F \<le> 5
              then if zSig < 2 then Some (roundAndPackFloat32 rm fl False zExp 0x7FFFFFFF)
                   else
                     let aSig = (if odd aExp then drop_bit 1 aSig else aSig);
                         rem = push_bit 32 (ucast aSig :: u64) - ucast zSig * ucast zSig
                     in case sqrt_correct zSig rem of
                          None \<Rightarrow> None
                        | Some (zSig, rem) \<Rightarrow>
                            Some (roundAndPackFloat32 rm fl False zExp (shift32RightJamming (zSig OR of_bool (rem \<noteq> 0)) 1))
              else Some (roundAndPackFloat32 rm fl False zExp (shift32RightJamming zSig 1)))"

declare reduce_estimate.simps [code] rem_subtract.simps [code] sqrt_correct.simps [code]

section \<open>Comparisons\<close>

text \<open>The test the comparisons start with.\<close>

definition nan_operand :: "u32 \<Rightarrow> bool" where
  "nan_operand a = (extractFloat32Exp a = 0xFF \<and> extractFloat32Frac a \<noteq> 0)"

definition signaling_operand :: "u32 \<Rightarrow> u32 \<Rightarrow> bool" where
  "signaling_operand a b = (float32_is_signaling_nan a \<or> float32_is_signaling_nan b)"

definition ordered_le :: "u32 \<Rightarrow> u32 \<Rightarrow> bool" where
  "ordered_le a b =
     (let aSign = extractFloat32Sign a; bSign = extractFloat32Sign b
      in if aSign \<noteq> bSign then aSign \<or> push_bit 1 (a OR b) = 0 else a = b \<or> aSign \<noteq> (a < b))"

definition ordered_lt :: "u32 \<Rightarrow> u32 \<Rightarrow> bool" where
  "ordered_lt a b =
     (let aSign = extractFloat32Sign a; bSign = extractFloat32Sign b
      in if aSign \<noteq> bSign then aSign \<and> push_bit 1 (a OR b) \<noteq> 0 else a \<noteq> b \<and> aSign \<noteq> (a < b))"

definition float32_eq :: "u32 \<Rightarrow> u32 \<Rightarrow> u32 \<Rightarrow> bool \<times> u32" where
  "float32_eq fl a b =
     (if nan_operand a \<or> nan_operand b then (False, raise_if (signaling_operand a b) float_flag_invalid fl)
      else (a = b \<or> push_bit 1 (a OR b) = 0, fl))"

definition float32_le :: "u32 \<Rightarrow> u32 \<Rightarrow> u32 \<Rightarrow> bool \<times> u32" where
  "float32_le fl a b =
     (if nan_operand a \<or> nan_operand b then (False, float_raise float_flag_invalid fl) else (ordered_le a b, fl))"

definition float32_lt :: "u32 \<Rightarrow> u32 \<Rightarrow> u32 \<Rightarrow> bool \<times> u32" where
  "float32_lt fl a b =
     (if nan_operand a \<or> nan_operand b then (False, float_raise float_flag_invalid fl) else (ordered_lt a b, fl))"

definition float32_eq_signaling :: "u32 \<Rightarrow> u32 \<Rightarrow> u32 \<Rightarrow> bool \<times> u32" where
  "float32_eq_signaling fl a b =
     (if nan_operand a \<or> nan_operand b then (False, float_raise float_flag_invalid fl)
      else (a = b \<or> push_bit 1 (a OR b) = 0, fl))"

definition float32_le_quiet :: "u32 \<Rightarrow> u32 \<Rightarrow> u32 \<Rightarrow> bool \<times> u32" where
  "float32_le_quiet fl a b =
     (if nan_operand a \<or> nan_operand b then (False, raise_if (signaling_operand a b) float_flag_invalid fl)
      else (ordered_le a b, fl))"

definition float32_lt_quiet :: "u32 \<Rightarrow> u32 \<Rightarrow> u32 \<Rightarrow> bool \<times> u32" where
  "float32_lt_quiet fl a b =
     (if nan_operand a \<or> nan_operand b then (False, raise_if (signaling_operand a b) float_flag_invalid fl)
      else (ordered_lt a b, fl))"

end
