(* ===== verification/Rounding.thy ===== *)
theory Rounding
  imports Prelude
begin

text \<open>
  Rounding of non-negative rationals \<open>n / d\<close> as IEEE 754 defines it, and what makes the intermediate results of the
  software floating point good enough for it. The unit is the smallest positive single precision number,
  \<open>2 ^ -149\<close>: the finite numbers are \<open>m * 2 ^ e\<close> with \<open>m < 2 ^ 24\<close> and \<open>e \<le> 253\<close>. Rounding modes are those of
  \<open>softfloat.h\<close>: to nearest even 0, down 1, up 2, to zero 3.
\<close>

section \<open>Rounding to integers\<close>

definition rounds_away :: "u32 \<Rightarrow> bool \<Rightarrow> bool" where
  "rounds_away rm s = (rm = 2 \<and> \<not> s \<or> rm = 1 \<and> s)"

definition rounded :: "u32 \<Rightarrow> bool \<Rightarrow> nat \<Rightarrow> nat \<Rightarrow> nat" where
  "rounded rm s n d =
     (let q = n div d; r = n mod d
      in q + of_bool (if rm = 0 then d < 2 * r \<or> (2 * r = d \<and> odd q) else r \<noteq> 0 \<and> rounds_away rm s))"

lemma rounded_cancel [simp]: "0 < c \<Longrightarrow> rounded rm s (n * c) (d * c) = rounded rm s n d"
  by (auto simp: rounded_def Let_def mult_mod_left simp flip: mult.assoc)

lemma rounded_bounds: "n div d \<le> rounded rm s n d" "rounded rm s n d \<le> n div d + 1"
  by (simp_all add: rounded_def Let_def)

lemma rounded_exact: "0 < d \<Longrightarrow> d dvd n \<Longrightarrow> rounded rm s n d = n div d"
  by (auto simp: rounded_def Let_def)

lemma rounded_exact_iff: "0 < d \<Longrightarrow> rounded rm s n d * d = n \<longleftrightarrow> d dvd n"
  by (metis dvd_div_mult_self dvd_triv_right rounded_exact)

section \<open>The quantum of a number\<close>

text \<open>The exponent of the unit in the last place of the floating point numbers around \<open>n / d\<close>.\<close>

definition quantum :: "nat \<Rightarrow> nat \<Rightarrow> nat" where
  "quantum n d = (LEAST e. n < 2 ^ 24 * 2 ^ e * d)"

lemma quantum_eqI:
  assumes "n < 2 ^ 24 * 2 ^ e * d" and "e = 0 \<or> 2 ^ 23 * 2 ^ e * d \<le> n"
  shows "quantum n d = e"
  unfolding quantum_def
proof (rule Least_equality)
  show "n < 2 ^ 24 * 2 ^ e * d" by fact
  fix y
  assume y: "n < 2 ^ 24 * 2 ^ y * d"
  show "e \<le> y"
  proof (rule ccontr)
    assume "\<not> e \<le> y"
    then have "Suc y \<le> e" and "e \<noteq> 0" by simp_all
    then have "(2::nat) ^ Suc y \<le> 2 ^ e" by (intro power_increasing) simp_all
    then have "2 ^ 23 * 2 ^ Suc y * d \<le> 2 ^ 23 * 2 ^ e * d" by (intro mult_le_mono mult_le_mono2) simp_all
    moreover have "2 ^ 23 * 2 ^ Suc y * d = 2 ^ 24 * 2 ^ y * d" by simp
    ultimately show False using assms(2) y \<open>e \<noteq> 0\<close> by linarith
  qed
qed

text \<open>The correctly rounded magnitude.\<close>

definition correctly_rounded :: "u32 \<Rightarrow> bool \<Rightarrow> nat \<Rightarrow> nat \<Rightarrow> nat" where
  "correctly_rounded rm s n d = (let e = quantum n d in rounded rm s n (d * 2 ^ e) * 2 ^ e)"

section \<open>Sticky bits\<close>

text \<open>A shift right that jams the bits shifted out into the lowest bit of the result.\<close>

definition jam :: "nat \<Rightarrow> nat \<Rightarrow> nat" where
  "jam n j = n div 2 ^ j + of_bool (\<not> 2 ^ j dvd n \<and> even (n div 2 ^ j))"

text \<open>
  \<open>z\<close> stands for \<open>n / d\<close>: it is equal to it, or neither is a multiple of \<open>2 ^ i\<close> and both lie between the same
  multiples of \<open>2 ^ i\<close>.
\<close>

definition sticky :: "nat \<Rightarrow> nat \<Rightarrow> nat \<Rightarrow> nat \<Rightarrow> bool" where
  "sticky i z n d \<longleftrightarrow> z * d = n \<or> (\<not> 2 ^ i dvd z \<and> \<not> d * 2 ^ i dvd n \<and> z div 2 ^ i = n div (d * 2 ^ i))"

lemma sticky_exact [intro]: "z * d = n \<Longrightarrow> sticky i z n d"
  by (simp add: sticky_def)

lemma above_multiple: "0 < g \<Longrightarrow> \<not> g dvd x \<Longrightarrow> x \<noteq> g * c \<and> (g * c < x \<longleftrightarrow> c \<le> x div g)" for x :: nat
  by (metis div_le_mono dvd_triv_left less_eq_div_iff_mult_less_eq linorder_not_less mult.commute
      nat_less_le nonzero_mult_div_cancel_left not_gr_zero)

lemma mod_div_cancel: "0 < g \<Longrightarrow> n mod (g * c) div g = n div g mod c" for n g c :: nat
  by (simp add: mod_mult2_eq)

lemma sticky_rounded:
  assumes "sticky i z n d" and "i < k" and d: "0 < d"
  shows "rounded rm s z (2 ^ k) = rounded rm s n (d * 2 ^ k)"
proof (cases "z * d = n")
  case True
  then show ?thesis using rounded_cancel[OF d, of rm s z "2 ^ k"] by (simp add: mult.commute)
next
  case False
  with assms(1) have nz: "\<not> 2 ^ i dvd z" and nn: "\<not> d * 2 ^ i dvd n" and same: "z div 2 ^ i = n div (d * 2 ^ i)"
    by (auto simp: sticky_def)
  obtain j where k: "k = i + Suc j" using \<open>i < k\<close> by (metis add_Suc_right less_iff_Suc_add)
  let ?g = "2 ^ i :: nat" and ?g' = "d * 2 ^ i"
  have pow: "2 ^ k = ?g * 2 ^ Suc j" "d * 2 ^ k = ?g' * 2 ^ Suc j" by (simp_all add: k power_add)
  have q: "z div 2 ^ k = n div (d * 2 ^ k)" by (simp only: pow div_mult2_eq same)
  have r: "z mod 2 ^ k div ?g = n mod (d * 2 ^ k) div ?g'"
    unfolding pow using mod_div_cancel[of ?g z "2 ^ Suc j"] mod_div_cancel[of ?g' n "2 ^ Suc j"] d same by (simp add: mult.assoc)
  have nr: "\<not> ?g dvd z mod 2 ^ k" "\<not> ?g' dvd n mod (d * 2 ^ k)"
    using nz nn by (simp_all add: pow mod_mod_cancel dvd_mod_iff)
  have half: "(2 ^ k < 2 * x \<longleftrightarrow> ?g * 2 ^ j < x) \<and> (2 * x = 2 ^ k \<longleftrightarrow> x = ?g * 2 ^ j)"
    "(d * 2 ^ k < 2 * x \<longleftrightarrow> ?g' * 2 ^ j < x) \<and> (2 * x = d * 2 ^ k \<longleftrightarrow> x = ?g' * 2 ^ j)" for x
    by (auto simp: pow)
  have g: "0 < ?g" "0 < ?g'" using d by simp_all
  have "z mod 2 ^ k \<noteq> 0" "n mod (d * 2 ^ k) \<noteq> 0" using nr by (metis dvd_0_right)+
  then show ?thesis
    using above_multiple[OF g(1) nr(1), of "2 ^ j"] above_multiple[OF g(2) nr(2), of "2 ^ j"]
    by (simp add: rounded_def Let_def q half r)
qed

lemma sticky_dvd:
  assumes "sticky i z n d" and "i \<le> k" and "0 < d"
  shows "2 ^ k dvd z \<longleftrightarrow> d * 2 ^ k dvd n"
proof -
  have "2 ^ i dvd (2 :: nat) ^ k" using \<open>i \<le> k\<close> by (rule le_imp_power_dvd)
  then have "\<not> 2 ^ i dvd z \<Longrightarrow> \<not> 2 ^ k dvd z" "\<not> d * 2 ^ i dvd n \<Longrightarrow> \<not> d * 2 ^ k dvd n"
    by (metis dvd_trans, metis dvd_trans mult_dvd_mono dvd_refl)
  moreover have "z * d = n \<Longrightarrow> 2 ^ k dvd z \<longleftrightarrow> d * 2 ^ k dvd n" using \<open>0 < d\<close> by (auto simp: mult.commute[of z])
  ultimately show ?thesis using assms(1) unfolding sticky_def by blast
qed

lemma sticky_double: "sticky i z n d \<Longrightarrow> sticky (i + c) (z * 2 ^ c) (n * 2 ^ c) d"
  by (auto simp: sticky_def power_add div_mult2_eq mult.commute[of _ "2 ^ c"] simp flip: mult.assoc)

lemma jam_half: "jam n j div 2 = n div 2 ^ j div 2"
  by (auto simp: jam_def)

lemma jam_even: "even (jam n j) \<Longrightarrow> 2 ^ j dvd n \<and> jam n j = n div 2 ^ j"
  by (cases "2 ^ j dvd n") (auto simp: jam_def split: if_splits)

lemma jam_div: "0 < i \<Longrightarrow> jam n j div 2 ^ i = n div (2 ^ j * 2 ^ i)"
  by (metis Suc_pred div_mult2_eq jam_half power_Suc)

lemma jam_exact: "2 ^ j dvd n \<Longrightarrow> jam n j = n div 2 ^ j"
  by (simp add: jam_def)

lemma sticky_jam:
  assumes "sticky i z n d" and "0 < i" and "0 < d"
  shows "sticky i (jam z j) n (d * 2 ^ j)"
proof (cases "2 ^ j dvd z \<and> z * d = n")
  case True
  then have "jam z j * (d * 2 ^ j) = n" by (auto simp: jam_exact)
  then show ?thesis by (rule sticky_exact)
next
  case False
  have st: "z div 2 ^ i = n div (d * 2 ^ i)"
    using assms(1,3) by (auto simp: sticky_def)
  have "\<not> d * (2 ^ j * 2 ^ i) dvd n" and nd: "\<not> 2 ^ i dvd jam z j"
  proof -
    show "\<not> d * (2 ^ j * 2 ^ i) dvd n"
    proof
      assume "d * (2 ^ j * 2 ^ i) dvd n"
      then have "d * 2 ^ j dvd n" "d * 2 ^ i dvd n" by (auto dest: dvd_mult_left simp: mult.left_commute[of "2 ^ i"] mult.commute[of "2 ^ j"] simp flip: mult.assoc)
      with False assms(1) have "z * d = n" "\<not> 2 ^ j dvd z" by (auto simp: sticky_def)
      with \<open>d * 2 ^ j dvd n\<close> \<open>0 < d\<close> show False by (auto simp: mult.commute[of z])
    qed
    show "\<not> 2 ^ i dvd jam z j"
    proof
      assume d: "2 ^ i dvd jam z j"
      then have "even (jam z j)" using \<open>0 < i\<close> by (metis dvd_power dvd_trans)
      then have "2 ^ j dvd z" "jam z j = z div 2 ^ j" using jam_even[of z j] by blast+
      then have "2 ^ i dvd z" using d by (metis dvd_div_mult_self dvd_mult2)
      with False \<open>2 ^ j dvd z\<close> assms(1) show False by (auto simp: sticky_def)
    qed
  qed
  moreover have "jam z j div 2 ^ i = n div (d * 2 ^ j * 2 ^ i)"
  proof -
    have "jam z j div 2 ^ i = z div 2 ^ i div 2 ^ j"
      using \<open>0 < i\<close> by (simp only: jam_div mult.commute[of "2 ^ j"] div_mult2_eq)
    also have "\<dots> = n div (d * 2 ^ i * 2 ^ j)" by (simp only: st div_mult2_eq)
    finally show ?thesis by (simp only: mult.assoc mult.commute[of "2 ^ j"])
  qed
  ultimately show ?thesis by (auto simp: sticky_def mult.assoc)
qed

lemma sticky_add:
  assumes "sticky i w n d" and "2 ^ i dvd a" and "0 < d"
  shows "sticky i (a + w) (a * d + n) d"
proof -
  obtain b where "a = 2 ^ i * b" using assms(2) by (rule dvdE)
  then show ?thesis
    using assms(1,3) by (auto simp: sticky_def algebra_simps dvd_add_right_iff) 
qed

lemma sticky_sub:
  assumes "sticky i w n d" and "2 ^ i dvd a" and "0 < d" and "w \<le> a" and "n \<le> a * d"
  shows "sticky i (a - w) (a * d - n) d"
proof (cases "w * d = n")
  case True
  then show ?thesis by (intro sticky_exact) (auto simp: diff_mult_distrib)
next
  case False
  then have w: "\<not> 2 ^ i dvd w" "\<not> d * 2 ^ i dvd n" "w div 2 ^ i = n div (d * 2 ^ i)"
    using assms(1) by (auto simp: sticky_def)
  obtain b where b: "a = 2 ^ i * b" using assms(2) by (rule dvdE)
  have *: "\<not> g dvd x \<Longrightarrow> x \<le> g * b \<Longrightarrow> 0 < g \<Longrightarrow> (g * b - x) div g = b - x div g - 1 \<and> \<not> g dvd g * b - x" for g x :: nat
  proof
    assume x: "\<not> g dvd x" "x \<le> g * b" "0 < g"
    then show "\<not> g dvd g * b - x" by (metis dvd_diffD1 dvd_triv_left)
    define q r where "q = x div g" and "r = x mod g"
    then have xm: "x = g * q + r" "0 < r" "r < g" "x div g = q"
      using x by (auto simp: mod_greater_zero_iff_not_dvd)
    have "g * q < g * b" using x(2) xm by linarith
    then have "q < b" by simp
    then obtain c where c: "b = q + 1 + c" by (auto simp: less_iff_Suc_add)
    obtain e where e: "g = r + e" using xm(3) by (auto simp: less_iff_Suc_add)
    have "g * b - x = e + g * c" using c e by (simp add: xm(1) distrib_left)
    moreover have "e < g" using xm(2) e by simp
    ultimately have "(g * b - x) div g = c" by simp
    then show "(g * b - x) div g = b - x div g - 1" using c xm(4) by simp
  qed
  show ?thesis
    unfolding sticky_def
  proof (intro disjI2 conjI)
    have a: "a * d = d * 2 ^ i * b" by (simp add: b)
    note 1 = *[OF w(1), folded b, OF \<open>w \<le> a\<close>] and 2 = *[OF w(2), folded a, OF \<open>n \<le> a * d\<close>]
    show "\<not> 2 ^ i dvd a - w" "\<not> d * 2 ^ i dvd a * d - n" using 1 2 \<open>0 < d\<close> by auto
    show "(a - w) div 2 ^ i = (a * d - n) div (d * 2 ^ i)" using 1 2 \<open>0 < d\<close> w(3) by simp
  qed
qed

lemma sticky_quotient:
  assumes "0 < d" and "z = (if 2 ^ i dvd n div d \<and> \<not> d dvd n then n div d + 1 else n div d)" and "0 < i"
  shows "sticky i z n d"
proof (cases "d dvd n")
  case True
  then show ?thesis using assms by (intro sticky_exact) auto
next
  case False
  have q: "z div 2 ^ i = n div d div 2 ^ i \<and> \<not> 2 ^ i dvd z"
  proof (cases "2 ^ i dvd n div d")
    case True
    then obtain c where c: "n div d = 2 ^ i * c" by (rule dvdE)
    have "(1::nat) < 2 ^ i" using one_less_power[of "2 :: nat" i] \<open>0 < i\<close> by simp
    moreover have "1 < g \<Longrightarrow> (g * c + 1) div g = c \<and> \<not> g dvd g * c + 1" for g :: nat
      using div_mult_self4[of g 1 c] dvd_add_right_iff[of g "g * c" 1] by (simp add: div_less del: One_nat_def)
    ultimately have "(2 ^ i * c + 1) div 2 ^ i = c \<and> \<not> 2 ^ i dvd 2 ^ i * c + 1" by blast
    then show ?thesis using True False assms(2) c by simp
  next
    case False
    then show ?thesis using assms(2) by simp
  qed
  moreover have "\<not> d * 2 ^ i dvd n" using False by (auto dest: dvd_mult_left)
  ultimately show ?thesis by (simp add: sticky_def div_mult2_eq)
qed

section \<open>Rounding a sticky significand\<close>

lemma sticky_bounds:
  assumes "sticky i z n d" and "i \<le> k" and "0 < d"
  shows "2 ^ k \<le> z \<longleftrightarrow> 2 ^ k * d \<le> n"
proof -
  have pow: "(2::nat) ^ k = 2 ^ i * 2 ^ (k - i)" using \<open>i \<le> k\<close> by (simp flip: power_add)
  have "z div 2 ^ k = n div (d * 2 ^ k)"
    using assms(1,3) by (auto simp: sticky_def pow div_mult2_eq)
  moreover have "2 ^ k \<le> z \<longleftrightarrow> 0 < z div 2 ^ k" "2 ^ k * d \<le> n \<longleftrightarrow> 0 < n div (d * 2 ^ k)"
    using \<open>0 < d\<close> by (simp_all add: div_greater_zero_iff mult.commute)
  ultimately show ?thesis by simp
qed

lemma sticky_normal:
  assumes "sticky i z n d" and "i < 7" and "0 < d" and "2 ^ 30 \<le> z" and "z < 2 ^ 31"
  shows "correctly_rounded rm s (n * 2 ^ e) (d * 2 ^ 7) = rounded rm s z (2 ^ 7) * 2 ^ e"
    and "quantum (n * 2 ^ e) (d * 2 ^ 7) = e"
proof -
  have "2 ^ 30 * d \<le> n" "n < 2 ^ 31 * d"
    using sticky_bounds[OF assms(1) _ assms(3), of 30] sticky_bounds[OF assms(1) _ assms(3), of 31] assms(2,4,5) by auto
  then have "2 ^ 23 * 2 ^ 7 * d * 2 ^ e \<le> n * 2 ^ e" "n * 2 ^ e < 2 ^ 24 * 2 ^ 7 * d * 2 ^ e" by simp_all
  then show q: "quantum (n * 2 ^ e) (d * 2 ^ 7) = e"
    by (intro quantum_eqI disjI2) (simp_all only: ac_simps)
  have "rounded rm s (n * 2 ^ e) (d * 2 ^ 7 * 2 ^ e) = rounded rm s z (2 ^ 7)"
    using sticky_rounded[OF assms(1) _ assms(3), of 7] \<open>i < 7\<close> rounded_cancel[of "2 ^ e" rm s n "d * 2 ^ 7"] by simp
  then show "correctly_rounded rm s (n * 2 ^ e) (d * 2 ^ 7) = rounded rm s z (2 ^ 7) * 2 ^ e"
    by (simp only: correctly_rounded_def q Let_def)
qed

lemma sticky_subnormal:
  assumes "sticky i z n d" and "0 < i" and "i < 7" and "0 < d" and "z < 2 ^ 31"
  shows "correctly_rounded rm s n (d * 2 ^ (7 + j)) = rounded rm s (jam z j) (2 ^ 7)"
    and "quantum n (d * 2 ^ (7 + j)) = 0"
proof -
  have "n < 2 ^ 31 * d"
    using sticky_bounds[OF assms(1) _ assms(4), of 31] assms(3,5) by auto
  also have "2 ^ 31 * d \<le> 2 ^ 24 * 2 ^ 0 * (d * 2 ^ (7 + j))" by (simp add: power_add)
  finally have "n < 2 ^ 24 * 2 ^ 0 * (d * 2 ^ (7 + j))" .
  then show q: "quantum n (d * 2 ^ (7 + j)) = 0" by (rule quantum_eqI) (rule disjI1, rule refl)
  have "rounded rm s (jam z j) (2 ^ 7) = rounded rm s n (d * 2 ^ j * 2 ^ 7)"
    using assms by (intro sticky_rounded[OF sticky_jam]) simp_all
  then show "correctly_rounded rm s n (d * 2 ^ (7 + j)) = rounded rm s (jam z j) (2 ^ 7)"
    by (simp only: correctly_rounded_def q Let_def) (simp add: power_add mult.commute mult.left_commute mult.assoc)
qed

end
