(* ===== verification/Softfloat_Props.thy ===== *)
theory Softfloat_Props
  imports Softfloat Rounding
begin

text \<open>
  The numbers single precision words stand for, and what \<open>roundAndPackFloat32\<close> does to a significand with a sticky bit:
  it returns the number the significand stands for correctly rounded in the sense of the theory Rounding, in all rounding
  modes, subnormal results and overflow included, with the flags.
\<close>

section \<open>Fields of a number\<close>

lemma nat_and_low: "n AND 0x7FFFFF = n mod 2 ^ 23" "n AND 0xFF = n mod 2 ^ 8" "n AND 0x7F = n mod 2 ^ 7" for n :: nat
  using take_bit_eq_mask[of 23 n] take_bit_eq_mask[of 8 n] take_bit_eq_mask[of 7 n]
  by (simp_all add: take_bit_eq_mod mask_eq_exp_minus_1)

lemma unat_drop: "unat (drop_bit k w) = unat w div 2 ^ k"
  by (rule trans[OF unat_drop_bit_eq drop_bit_eq_div])

lemma unat_frac: "unat (extractFloat32Frac a) = unat a mod 2 ^ 23"
  by (simp add: extractFloat32Frac_def unsigned_and_eq nat_and_low)

lemma exp_unat: "extractFloat32Exp a = int (unat a div 2 ^ 23 mod 2 ^ 8)"
  by (simp add: extractFloat32Exp_def uint_nat unsigned_and_eq nat_and_low unat_drop)

lemma sign_unat: "extractFloat32Sign a \<longleftrightarrow> 2 ^ 31 \<le> unat a"
  by (simp add: extractFloat32Sign_def unat_drop div_greater_zero_iff flip: unat_gt_0)

lemma unat_pack:
  assumes "0 \<le> e" and "nat e * 2 ^ 23 + unat m < 2 ^ 31"
  shows "unat (packFloat32 s e m) = of_bool s * 2 ^ 31 + nat e * 2 ^ 23 + unat m"
proof -
  have "packFloat32 s e m = word_of_nat (of_bool s * 2 ^ 31 + nat e * 2 ^ 23 + unat m)"
    using assms(1) by (simp add: packFloat32_def push_bit_eq_mult mult.commute)
  moreover have "of_bool s * 2 ^ 31 + nat e * 2 ^ 23 + unat m < 2 ^ LENGTH(32)"
    using assms(2) by (cases s) simp_all
  ultimately show ?thesis by (simp only: unat_of_nat mod_less)
qed

section \<open>The value of a number\<close>

text \<open>The magnitude in units of \<open>2 ^ -149\<close>.\<close>

definition significand :: "u32 \<Rightarrow> nat" where
  "significand a = unat (extractFloat32Frac a) + (if extractFloat32Exp a = 0 then 0 else 2 ^ 23)"

definition exponent :: "u32 \<Rightarrow> nat" where
  "exponent a = nat (extractFloat32Exp a) - 1"

definition magnitude :: "u32 \<Rightarrow> nat" where
  "magnitude a = significand a * 2 ^ exponent a"

definition finite32 :: "u32 \<Rightarrow> bool" where
  "finite32 a \<longleftrightarrow> extractFloat32Exp a \<noteq> 0xFF"

definition float_value :: "u32 \<Rightarrow> int" where
  "float_value a = (if extractFloat32Sign a then - int (magnitude a) else int (magnitude a))"

text \<open>The magnitude of the number whose bits without the sign are \<open>b\<close>.\<close>

definition bits_magnitude :: "nat \<Rightarrow> nat" where
  "bits_magnitude b = (b mod 2 ^ 23 + (if b div 2 ^ 23 = 0 then 0 else 2 ^ 23)) * 2 ^ (b div 2 ^ 23 - 1)"

lemma magnitude_bits: "magnitude a = bits_magnitude (unat a mod 2 ^ 31)"
proof -
  have "unat a mod 2 ^ 31 div 2 ^ 23 = unat a div 2 ^ 23 mod 2 ^ 8" "unat a mod 2 ^ 31 mod 2 ^ 23 = unat a mod 2 ^ 23"
    using mod_div_cancel[of "2 ^ 23" "unat a" "2 ^ 8"] by (simp_all add: mod_mod_cancel)
  then show ?thesis by (simp add: magnitude_def significand_def exponent_def bits_magnitude_def unat_frac exp_unat)
qed

lemma bits_magnitude_pack:
  assumes "m < 2 ^ 23 \<and> e = 0 \<or> 2 ^ 23 \<le> m \<and> m \<le> 2 ^ 24"
  shows "bits_magnitude (e * 2 ^ 23 + m) = m * 2 ^ e"
proof -
  consider "m < 2 ^ 23" "e = 0" | "m = 2 ^ 23 + (m - 2 ^ 23)" "m - 2 ^ 23 < 2 ^ 23" | "m = 2 ^ 24"
    using assms by fastforce
  then show ?thesis
  proof cases
    case 1
    then show ?thesis by (simp add: bits_magnitude_def)
  next
    case 2
    define k where "k = m - 2 ^ 23"
    have k: "m = 2 ^ 23 + k" "k < 2 ^ 23" using 2 by (simp_all only: k_def)
    then have "(e * 2 ^ 23 + m) div 2 ^ 23 = e + 1" "(e * 2 ^ 23 + m) mod 2 ^ 23 = k" by simp_all
    then show ?thesis using k(1) by (simp add: bits_magnitude_def)
  next
    case 3
    then have "(e * 2 ^ 23 + m) div 2 ^ 23 = e + 2" "(e * 2 ^ 23 + m) mod 2 ^ 23 = 0" by simp_all
    then show ?thesis using 3 by (simp add: bits_magnitude_def)
  qed
qed

lemma magnitude_pack:
  assumes "m < 2 ^ 23 \<and> e = 0 \<or> 2 ^ 23 \<le> m \<and> m \<le> 2 ^ 24" and "e * 2 ^ 23 + m < 255 * 2 ^ 23"
  shows "magnitude (packFloat32 s (int e) (word_of_nat m)) = m * 2 ^ e"
    and "finite32 (packFloat32 s (int e) (word_of_nat m))"
    and "extractFloat32Sign (packFloat32 s (int e) (word_of_nat m)) = s"
proof -
  have m: "unat (word_of_nat m :: u32) = m" using assms(1) by (auto simp: unat_of_nat)
  have p: "unat (packFloat32 s (int e) (word_of_nat m)) = of_bool s * 2 ^ 31 + (e * 2 ^ 23 + m)"
    using assms(2) by (subst unat_pack) (simp_all add: m)
  have "(of_bool s * 2 ^ 31 + (e * 2 ^ 23 + m)) mod 2 ^ 31 = e * 2 ^ 23 + m"
    using assms(2) by (cases s) simp_all
  then show "magnitude (packFloat32 s (int e) (word_of_nat m)) = m * 2 ^ e"
    using bits_magnitude_pack[OF assms(1)] by (simp only: magnitude_bits p)
  have "(of_bool s * 2 ^ 31 + (e * 2 ^ 23 + m)) div 2 ^ 23 mod 2 ^ 8 = (e * 2 ^ 23 + m) div 2 ^ 23 mod 2 ^ 8"
    using div_mult_self1[of "2 ^ 23" "e * 2 ^ 23 + m" "2 ^ 8"] by (cases s) (simp_all add: add.commute)
  moreover have "(e * 2 ^ 23 + m) div 2 ^ 23 < 255" using assms(2) by (intro less_mult_imp_div_less)
  ultimately show "finite32 (packFloat32 s (int e) (word_of_nat m))"
    by (simp only: finite32_def exp_unat p) (simp add: mod_less)
  show "extractFloat32Sign (packFloat32 s (int e) (word_of_nat m)) = s"
    unfolding sign_unat p using assms(2) by (cases s) simp_all
qed

section \<open>Rounding and packing\<close>

lemma unat_clear_low: "unat (x AND NOT 1) = unat x - unat x mod 2" for x :: "'a::len word"
proof -
  have "x AND NOT 1 = x AND NOT (x AND 1)" by (rule bit_eqI) (auto simp: bit_simps)
  also have "\<dots> = x - (x AND 1)"
    by (rule disjunctive_diff_eq_and_not[symmetric]) (rule bit_eqI, auto simp: bit_simps)
  finally have e: "x AND NOT 1 = x - (x AND 1)" .
  have "unat (x AND 1) = unat x AND 1" by (simp only: unsigned_and_eq unsigned_1)
  then have u: "unat (x AND 1) = unat x mod 2" by (simp only: and_one_eq)
  then have "x AND 1 \<le> x" by (simp only: word_le_nat_alt mod_less_eq_dividend)
  then show ?thesis by (simp only: e unat_sub u)
qed

lemma tie: "x XOR 0x40 = 0 \<longleftrightarrow> x = 0x40" for x :: "'a::len word"
proof
  assume "x XOR 0x40 = 0"
  then have "(x XOR 0x40) XOR 0x40 = 0x40" by (simp only: xor.left_neutral)
  then show "x = 0x40" by (simp only: xor.assoc xor_self_eq xor.right_neutral)
qed simp

lemma mode_cases:
  assumes "rm \<le> 3"
  obtains "rm = 0" | "rm = 1" | "rm = 2" | "rm = (3 :: u32)"
proof -
  obtain k where k: "rm = word_of_nat k" "k < 4"
  proof
    show "rm = word_of_nat (unat rm)" by simp
    show "unat rm < 4" using assms by (simp add: word_le_nat_alt)
  qed
  then have "k = 0 \<or> k = 1 \<or> k = 2 \<or> k = 3" by linarith
  then show ?thesis using that k(1) by (elim disjE) simp_all
qed

text \<open>The rounding the code does, on natural numbers.\<close>

lemma increment_rounds:
  assumes "rm \<le> 3"
  shows "(let q = (x + unat (round_increment rm s)) div 128 in if x mod 128 = 64 \<and> rm = 0 then q - q mod 2 else q)
    = rounded rm s x 128"
proof -
  obtain q r where x: "x = 128 * q + r" "r < 128"
    by (metis mod_less_divisor mult_div_mod_eq zero_less_numeral)
  have d: "(128 * q + r + c) div 128 = q + (r + c) div 128" for c
    using div_mult_self4[of 128 q "r + c"] by (simp add: add.assoc)
  have 64: "(r + 64) div 128 = of_bool (64 \<le> r)" using x(2) by (auto simp: div_if)
  have 127: "(r + 127) div 128 = of_bool (r \<noteq> 0)" using x(2) by (auto simp: div_if)
  have m: "(128 * q + r) mod 128 = r" "(128 * q + r) div 128 = q" using x(2) by simp_all
  have e: "q + 1 - (q + 1) mod 2 = q + of_bool (odd q)" by (cases "even q") (auto elim: oddE)
  from assms show ?thesis
  proof (cases rule: mode_cases)
    case 1
    then show ?thesis
      using e x(2) by (cases r "64 :: nat" rule: linorder_cases) (simp_all add: x(1) round_increment_def rounded_def d 64 m)
  next
    case 2
    then show ?thesis using x(2) by (simp add: x(1) round_increment_def rounded_def rounds_away_def d 127 m)
  next
    case 3
    then show ?thesis using x(2) by (simp add: x(1) round_increment_def rounded_def rounds_away_def d 127 m)
  next
    case 4
    then show ?thesis using x(2) by (simp add: x(1) round_increment_def rounded_def rounds_away_def m)
  qed
qed

text \<open>The same on words.\<close>

lemma low_bits:
  fixes z :: "'a::len word"
  assumes "8 \<le> LENGTH('a)"
  shows "z AND 0x7F = 0x40 \<longleftrightarrow> unat z mod 128 = 64" and "z AND 0x7F = 0 \<longleftrightarrow> 128 dvd unat z"
proof -
  have "(2 :: nat) ^ 8 \<le> 2 ^ LENGTH('a)" using assms by (intro power_increasing) simp_all
  then have u: "unat (0x7F :: 'a word) = 0x7F" "unat (0x40 :: 'a word) = 0x40" by (simp_all add: take_bit_eq_mod)
  have m: "unat (z AND 0x7F) = unat z mod 128" by (simp only: unsigned_and_eq u nat_and_low) simp
  show "z AND 0x7F = 0x40 \<longleftrightarrow> unat z mod 128 = 64" by (simp only: word_unat_eq_iff m u)
  show "z AND 0x7F = 0 \<longleftrightarrow> 128 dvd unat z" by (simp only: word_unat_eq_iff m unsigned_0 dvd_eq_mod_eq_0)
qed

lemma rounded_word:
  fixes z :: "'a::len word"
  assumes "rm \<le> 3" and "8 \<le> LENGTH('a)" and "unat z + 127 < 2 ^ LENGTH('a)" and "unat inc = unat (round_increment rm s)"
  shows "unat (if z AND 0x7F = 0x40 \<and> rm = 0 then drop_bit 7 (z + inc) AND NOT 1 else drop_bit 7 (z + inc)) = rounded rm s (unat z) 128"
proof -
  have "unat (round_increment rm s) \<le> 127" by (simp add: round_increment_def)
  then have "unat (z + inc) = unat z + unat (round_increment rm s)"
    using assms(3,4) unat_word_ariths(1)[of z inc] by simp
  then have q: "unat (drop_bit 7 (z + inc)) = (unat z + unat (round_increment rm s)) div 128" by (simp add: unat_drop)
  show ?thesis
    using increment_rounds[OF assms(1), of "unat z" s] unfolding low_bits(1)[OF assms(2)]
    by (cases "unat z mod 128 = 64 \<and> rm = 0") (simp_all only: unat_clear_low q Let_def if_True if_False simp_thms)
qed

text \<open>What is packed and the inexact flag.\<close>

lemma round_pack_eq:
  fixes s :: bool
  assumes "rm \<le> 3" and "unat z < 2 ^ 31"
  defines "m \<equiv> rounded rm s (unat z) 128"
  shows "round_pack rm fl s e z =
    (packFloat32 s (if m = 0 then 0 else e) (word_of_nat m), raise_if (\<not> 128 dvd unat z) float_flag_inexact fl)"
proof -
  let ?q = "drop_bit 7 (z + round_increment rm s)"
  define w where "w = (if z AND 0x7F = 0x40 \<and> rm = 0 then ?q AND NOT 1 else ?q)"
  have "unat w = m"
    unfolding w_def m_def using assms(2) by (intro rounded_word[OF assms(1)]) simp_all
  then have w: "w = word_of_nat m" by (auto simp flip: \<open>unat w = m\<close>)
  have "round_pack rm fl s e z =
      (packFloat32 s (if w = 0 then 0 else e) w, raise_if (z AND 0x7F \<noteq> 0) float_flag_inexact fl)"
    by (simp only: round_pack_def Let_def tie w_def)
  moreover have "w = 0 \<longleftrightarrow> m = 0" using \<open>unat w = m\<close> unat_eq_0[of w] by simp
  moreover have "z AND 0x7F = 0 \<longleftrightarrow> 128 dvd unat z" by (rule low_bits(2)) simp
  ultimately show ?thesis by (simp only:) (simp only: w)
qed

section \<open>Jamming shifts\<close>

lemma unat_or_bool: "unat (w OR of_bool b) = unat w + of_bool (b \<and> even (unat w))" for w :: "'a::len word"
proof (cases b)
  case True
  have "unat (w OR 1) = unat w OR 1" by (simp only: unsigned_or_eq unsigned_1)
  also have "\<dots> = unat w + of_bool (even (unat w))" by (rule or_one_eq)
  finally show ?thesis by (simp only: True of_bool_eq simp_thms)
qed simp

lemma push_bit_zero_iff:
  fixes w :: "'a::len word"
  assumes "c \<le> LENGTH('a)"
  shows "push_bit (LENGTH('a) - c) w = 0 \<longleftrightarrow> 2 ^ c dvd unat w"
proof -
  have "unat (push_bit (LENGTH('a) - c) w) = (2 ^ (LENGTH('a) - c) * unat w) mod (2 ^ (LENGTH('a) - c) * 2 ^ c)"
    unfolding unsigned_push_bit_eq using assms
    by (simp only: push_bit_eq_mult take_bit_eq_mod mult.commute[of "unat w"] power_add[symmetric] le_add_diff_inverse2)
  also have "\<dots> = 2 ^ (LENGTH('a) - c) * (unat w mod 2 ^ c)" by (rule mod_mult_mult1)
  finally show ?thesis by (simp add: dvd_eq_mod_eq_0 flip: unat_eq_0)
qed

lemma unat_jam_word:
  fixes w :: "'a::len word"
  assumes "c \<le> LENGTH('a)"
  shows "unat (drop_bit c w OR of_bool (push_bit (LENGTH('a) - c) w \<noteq> 0)) = jam (unat w) c"
  using push_bit_zero_iff[OF assms, of w] by (simp add: unat_or_bool unat_drop jam_def)

lemma jam_large: "x < 2 ^ c \<Longrightarrow> jam x c = of_bool (x \<noteq> 0)"
  by (auto simp: jam_def dest: nat_dvd_not_less)

lemma unat_lt32: "unat w < 2 ^ 32" for w :: u32
  using unsigned_less[of w, where ?'a = nat] by simp

lemma unat_lt64: "unat w < 2 ^ 64" for w :: u64
  using unsigned_less[of w, where ?'a = nat] by simp

lemma unat_shift32: "unat (shift32RightJamming w (int c)) = jam (unat w) c"
proof -
  consider "c = 0" | "0 < c" "c < 32" | "32 \<le> c" by linarith
  then show ?thesis
  proof cases
    case 2
    then have "nat (- int c mod 32) = LENGTH(32) - c" by (simp add: zmod_zminus1_eq_if nat_diff_distrib)
    then show ?thesis using 2 unat_jam_word[of c w] by (simp add: shift32RightJamming_def shr_def shl_def)
  next
    case 3
    then have "unat w < 2 ^ c" using unat_lt32[of w] power_increasing[of 32 c "2 :: nat"] by linarith
    then show ?thesis using 3 by (simp add: shift32RightJamming_def jam_large unat_eq_0)
  qed (simp add: shift32RightJamming_def jam_def)
qed

lemma unat_shift64: "unat (shift64RightJamming w (int c)) = jam (unat w) c"
proof -
  consider "c = 0" | "0 < c" "c < 64" | "64 \<le> c" by linarith
  then show ?thesis
  proof cases
    case 2
    then have "nat (- int c mod 64) = LENGTH(64) - c" by (simp add: zmod_zminus1_eq_if nat_diff_distrib)
    then show ?thesis using 2 unat_jam_word[of c w] by (simp add: shift64RightJamming_def shr_def shl_def)
  next
    case 3
    then have "unat w < 2 ^ c" using unat_lt64[of w] power_increasing[of 64 c "2 :: nat"] by linarith
    then show ?thesis using 3 by (simp add: shift64RightJamming_def jam_large unat_eq_0)
  qed (simp add: shift64RightJamming_def jam_def)
qed

section \<open>Correct rounding\<close>

definition infinity :: "bool \<Rightarrow> u32" where
  "infinity s = (if s then 0xFF800000 else 0x7F800000)"

definition overflows :: "nat \<Rightarrow> bool" where
  "overflows m \<longleftrightarrow> 2 ^ 24 * 2 ^ 253 \<le> m"

text \<open>\<open>r\<close> is \<open>n / d\<close> with the sign \<open>s\<close>, rounded; too large numbers become infinite or the largest finite number.\<close>

definition rounds_to :: "u32 \<Rightarrow> bool \<Rightarrow> nat \<Rightarrow> nat \<Rightarrow> u32 \<Rightarrow> bool" where
  "rounds_to rm s n d r \<longleftrightarrow>
     (let m = correctly_rounded rm s n d
      in if \<not> overflows m then finite32 r \<and> extractFloat32Sign r = s \<and> magnitude r = m
         else r = (if rm = 0 \<or> rounds_away rm s then infinity s else infinity s - 1))"

text \<open>The flags raised, underflow left aside.\<close>

definition rounding_flags :: "u32 \<Rightarrow> bool \<Rightarrow> nat \<Rightarrow> nat \<Rightarrow> u32" where
  "rounding_flags rm s n d =
     (let m = correctly_rounded rm s n d
      in if overflows m then float_flag_overflow OR float_flag_inexact
         else if m * d \<noteq> n then float_flag_inexact else 0)"

definition correct_result :: "u32 \<Rightarrow> u32 \<Rightarrow> bool \<Rightarrow> nat \<Rightarrow> nat \<Rightarrow> u32 \<times> u32 \<Rightarrow> bool" where
  "correct_result rm fl s n d res \<longleftrightarrow>
     rounds_to rm s n d (fst res) \<and>
     snd res AND NOT float_flag_underflow = (fl OR rounding_flags rm s n d) AND NOT float_flag_underflow"

lemma quantum_cancel: "0 < c \<Longrightarrow> quantum (n * c) (d * c) = quantum n d"
  by (simp add: quantum_def flip: mult.assoc)

lemma correctly_rounded_cancel: "0 < c \<Longrightarrow> correctly_rounded rm s (n * c) (d * c) = correctly_rounded rm s n d"
  using rounded_cancel[of c rm s n "d * 2 ^ quantum n d"]
  by (simp only: correctly_rounded_def quantum_cancel Let_def mult.assoc mult.commute[of c])

lemma correct_result_cancel: "0 < c \<Longrightarrow> correct_result rm fl s (n * c) (d * c) res = correct_result rm fl s n d res"
proof -
  assume c: "0 < c"
  have "m * (d * c) = n * c \<longleftrightarrow> m * d = n" for m using mult_cancel2[of "m * d" c n] c by (simp only: mult.assoc) simp
  then show ?thesis
    by (simp only: correct_result_def rounds_to_def rounding_flags_def correctly_rounded_cancel[OF c])
qed

lemma infinity_pack: "packFloat32 s 0xFF 0 = infinity s"
  by (cases s) (simp_all add: packFloat32_def infinity_def)

lemma raise_if_inexact: "raise_if b float_flag_inexact fl = fl OR (if b then float_flag_inexact else 0)"
  by (simp add: raise_if_def float_raise_def)

lemma clear_raise_underflow: "(raise_if b float_flag_underflow fl OR x) AND NOT float_flag_underflow = (fl OR x) AND NOT float_flag_underflow"
  by (cases b) (auto simp: raise_if_def float_raise_def bit_eq_iff bit_simps)

text \<open>The end of \<open>roundAndPackFloat32\<close>.\<close>

lemma round_pack_correct:
  assumes "rm \<le> 3" and z: "unat z < 2 ^ 31"
    and m: "m = rounded rm s (unat z) 128" and e: "e = 0 \<or> 2 ^ 30 \<le> unat z" and "e \<le> 253" and "\<not> (e = 253 \<and> m = 2 ^ 24)"
    and spec: "correctly_rounded rm s n d = m * 2 ^ e" and exact: "128 dvd unat z \<longleftrightarrow> m * 2 ^ e * d = n"
  shows "rounds_to rm s n d (fst (round_pack rm fl s (int e) z))"
    and "snd (round_pack rm fl s (int e) z) = fl OR rounding_flags rm s n d"
proof -
  have m24: "m \<le> 2 ^ 24"
  proof -
    have "unat z div 128 < 2 ^ 24" using z by (intro less_mult_imp_div_less) simp
    then show ?thesis using rounded_bounds(2)[where n = "unat z" and d = 128 and rm = rm and s = s] m by linarith
  qed
  have m23: "2 ^ 23 \<le> m" if "2 ^ 30 \<le> unat z"
    using div_le_mono[OF that, of 128] rounded_bounds(1)[where n = "unat z" and d = 128 and rm = rm and s = s] m by simp
  have "m * 2 ^ e < 2 ^ 24 * 2 ^ 253"
  proof (cases "m = 2 ^ 24")
    case True
    then have "e < 253" using assms(5,6) by auto
    then show ?thesis using True by (simp only: mult_less_cancel1 power_strict_increasing_iff) simp
  next
    case False
    have "(2 :: nat) ^ e \<le> 2 ^ 253" using assms(5) by (intro power_increasing) simp_all
    then show ?thesis using m24 False by (intro mult_less_le_imp_less) simp_all
  qed
  then have no: "\<not> overflows (m * 2 ^ e)" by (simp only: overflows_def not_le)
  have pack: "round_pack rm fl s (int e) z =
      (packFloat32 s (int (if m = 0 then 0 else e)) (word_of_nat m), raise_if (\<not> 128 dvd unat z) float_flag_inexact fl)"
    using round_pack_eq[OF assms(1) z, of fl s "int e"] m by simp
  have sh: "m < 2 ^ 23 \<and> (if m = 0 then 0 else e) = 0 \<or> 2 ^ 23 \<le> m \<and> m \<le> 2 ^ 24"
    using e m24 m23 by auto
  have bound: "(if m = 0 then 0 else e) * 2 ^ 23 + m < 255 * 2 ^ 23"
    using m24 assms(5,6) by (cases "e = 253") auto
  show "rounds_to rm s n d (fst (round_pack rm fl s (int e) z))"
    using magnitude_pack[OF sh bound, of s] no by (simp only: rounds_to_def spec pack fst_conv Let_def) auto
  show "snd (round_pack rm fl s (int e) z) = fl OR rounding_flags rm s n d"
    using no exact by (simp only: pack snd_conv raise_if_inexact rounding_flags_def spec Let_def) simp
qed

lemma sint_neg: "sint w < 0 \<longleftrightarrow> 2 ^ 31 \<le> unat w" for w :: u32
proof -
  have "sint w < 0 \<longleftrightarrow> bit w 31" using bit_last_iff[of w] by simp
  also have "\<dots> \<longleftrightarrow> bit (unat w) 31" by (simp add: bit_unsigned_iff)
  also have "\<dots> \<longleftrightarrow> odd (unat w div 2 ^ 31)" by (rule bit_iff_odd)
  also have "\<dots> \<longleftrightarrow> 2 ^ 31 \<le> unat w" 
  proof (cases "2 ^ 31 \<le> unat w")
    case True
    then have "unat w div 2 ^ 31 = 1" using unat_lt32[of w] by (intro div_nat_eqI) simp_all
    then show ?thesis using True by simp
  qed simp
  finally show ?thesis .
qed

lemma unat_add_increment: "unat z < 2 ^ 31 \<Longrightarrow> unat (z + round_increment rm s) = unat z + unat (round_increment rm s)"
  by (intro unat_plus_simple[THEN iffD1]) (simp add: no_olen_add_nat round_increment_def)

text \<open>The rounding carries into the exponent.\<close>

lemma carries:
  assumes "rm \<le> 3" and "unat z < 2 ^ 31"
  shows "rounded rm s (unat z) 128 = 2 ^ 24 \<longleftrightarrow> sint (z + round_increment rm s) < 0"
proof -
  let ?q = "(unat z + unat (round_increment rm s)) div 128"
  have inc: "unat (round_increment rm s) \<le> 127" by (simp add: round_increment_def)
  then have "unat z + unat (round_increment rm s) < (2 ^ 24 + 1) * 128" using assms(2) by simp
  then have q: "?q < 2 ^ 24 + 1" by (rule less_mult_imp_div_less)
  then have "?q - ?q mod 2 = 2 ^ 24 \<longleftrightarrow> ?q = 2 ^ 24" by (cases "?q = 2 ^ 24") simp_all
  then have "rounded rm s (unat z) 128 = 2 ^ 24 \<longleftrightarrow> ?q = 2 ^ 24"
    unfolding increment_rounds[OF assms(1), symmetric] Let_def by (simp only: simp_thms split: if_split)
  also have "\<dots> \<longleftrightarrow> 2 ^ 24 \<le> ?q" using q by linarith
  also have "\<dots> \<longleftrightarrow> 2 ^ 24 * 128 \<le> unat z + unat (round_increment rm s)"
    by (rule less_eq_div_iff_mult_less_eq) simp
  also have "2 ^ 24 * 128 = (2 ^ 31 :: nat)" by simp
  finally show ?thesis by (simp only: sint_neg unat_add_increment[OF assms(2)])
qed

lemma no_increment: "rm \<le> 3 \<Longrightarrow> round_increment rm s = 0 \<longleftrightarrow> \<not> (rm = 0 \<or> rounds_away rm s)"
  by (erule mode_cases) (simp_all add: round_increment_def rounds_away_def)

lemma jam_less: "0 < j \<Longrightarrow> x < 2 * c \<Longrightarrow> jam x j < 2 * c"
proof -
  assume "0 < j" "x < 2 * c"
  have "jam x j div 2 \<le> x div 2" by (simp add: jam_half div_le_mono)
  also have "x div 2 < c" using \<open>x < 2 * c\<close> by (intro less_mult_imp_div_less) simp
  finally show "jam x j < 2 * c" by (simp add: div_less_iff_less_mult mult.commute)
qed

text \<open>
  A significand that stands for \<open>n / d\<close> with its binary point after bit 7; it is normalized unless the exponent is
  negative.
\<close>

lemma roundAndPack_correct:
  assumes rm: "rm \<le> 3" and st: "sticky i (unat z) n d" and i: "0 < i" "i < 7" and d: "0 < d"
    and z: "unat z < 2 ^ 31" and norm: "0 \<le> e \<Longrightarrow> 2 ^ 30 \<le> unat z" and e: "- 1000 < e" "e < 1000"
  shows "correct_result rm fl s (n * 2 ^ nat e) (d * 2 ^ (7 + nat (- e))) (roundAndPackFloat32 rm fl s e z)"
proof (cases "e < 0")
  case True
  define j where "j = nat (- e)"
  have j: "e = - int j" "0 < j" using True by (simp_all add: j_def)
  let ?z = "shift32RightJamming z (int j)" and ?f = "raise_if ((e < -1 \<or> z + round_increment rm s < 0x80000000) \<and> shift32RightJamming z (int j) AND 0x7F \<noteq> 0) float_flag_underflow fl"
  have "e mod 0x10000 = e + 0x10000" using True e by (intro mod_pos_pos_trivial[THEN trans[OF mod_add_self2[symmetric]]]) simp_all
  then have "0xFD \<le> e mod 0x10000" "\<not> 0xFD < e" "e \<noteq> 0xFD" using True e by simp_all
  then have r: "roundAndPackFloat32 rm fl s e z = round_pack rm ?f s (int 0) ?z"
    using True unfolding roundAndPackFloat32_def Let_def j(1) by simp
  have uz: "unat ?z = jam (unat z) j" by (rule unat_shift32)
  define m where "m = rounded rm s (unat ?z) 128"
  let ?d = "d * 2 ^ (7 + j)"
  have spec: "correctly_rounded rm s n ?d = m * 2 ^ 0"
    using sticky_subnormal(1)[OF st i d z, of rm s j] by (simp add: m_def uz)
  have st': "sticky i (unat ?z) n (d * 2 ^ j)" unfolding uz by (rule sticky_jam[OF st i(1) d])
  then have "m = rounded rm s n ?d"
    using sticky_rounded[OF st' i(2), of rm s] d by (simp add: m_def power_add mult.commute mult.left_commute mult.assoc)
  then have "m * ?d = n \<longleftrightarrow> ?d dvd n" using rounded_exact_iff[of ?d rm s n] d by simp
  also have "\<dots> \<longleftrightarrow> 2 ^ 7 dvd unat ?z"
    using sticky_dvd[OF st', of 7] i(2) d by (simp add: power_add mult.commute mult.left_commute mult.assoc)
  finally have exact: "128 dvd unat ?z \<longleftrightarrow> m * 2 ^ 0 * ?d = n" by simp
  have "unat ?z < 2 ^ 31" using jam_less[OF j(2), of "unat z" "2 ^ 30"] z by (simp add: uz)
  note rp = round_pack_correct[OF rm this m_def _ _ _ spec exact, of ?f]
  have "rounds_to rm s n ?d (fst (roundAndPackFloat32 rm fl s e z))" unfolding r by (rule rp(1)) simp_all
  moreover have "snd (roundAndPackFloat32 rm fl s e z) = ?f OR rounding_flags rm s n ?d" unfolding r by (rule rp(2)) simp_all
  moreover have "nat e = 0" "nat (- e) = j" using True by (simp_all add: j_def)
  ultimately show ?thesis by (simp only: correct_result_def clear_raise_underflow power_0 mult_1_right)
next
  case False
  define k where "k = nat e"
  have k: "e = int k" using False by (simp add: k_def)
  have z30: "2 ^ 30 \<le> unat z" using norm False by simp
  define m where "m = rounded rm s (unat z) 128"
  let ?n = "n * 2 ^ k" and ?d = "d * 2 ^ 7"
  have spec: "correctly_rounded rm s ?n ?d = m * 2 ^ k"
    using sticky_normal(1)[OF st i(2) d z30 z, of rm s k] by (simp add: m_def)
  have "m = rounded rm s n ?d"
    using sticky_rounded[OF st i(2) d, of rm s] by (simp add: m_def)
  then have "m * ?d = n \<longleftrightarrow> ?d dvd n" using rounded_exact_iff[of ?d rm s n] d by simp
  also have "\<dots> \<longleftrightarrow> 2 ^ 7 dvd unat z" using sticky_dvd[OF st _ d, of 7] i(2) by simp
  also have "m * ?d = n \<longleftrightarrow> m * 2 ^ k * ?d = ?n"
    using mult_cancel2[of "m * ?d" "2 ^ k" n] by (simp add: mult.commute mult.left_commute)
  finally have exact: "128 dvd unat z \<longleftrightarrow> m * 2 ^ k * ?d = ?n" by simp
  have mod: "int k mod 0x10000 = int k" using e(2) k by (intro mod_pos_pos_trivial) simp_all
  have carry: "sint (z + round_increment rm s) < 0 \<longleftrightarrow> m = 2 ^ 24" using carries[OF rm z, of s] by (simp only: m_def)
  have ?thesis if small: "k \<le> 253" "\<not> (k = 253 \<and> m = 2 ^ 24)"
  proof -
    have r: "roundAndPackFloat32 rm fl s e z = round_pack rm fl s (int k) z"
      using small False unfolding roundAndPackFloat32_def Let_def mod carry k by auto
    note rp = round_pack_correct[OF rm z m_def _ small spec exact, of fl]
    have "rounds_to rm s ?n ?d (fst (roundAndPackFloat32 rm fl s e z))" unfolding r by (rule rp(1)) (use z30 in simp)
    moreover have "snd (roundAndPackFloat32 rm fl s e z) = fl OR rounding_flags rm s ?n ?d"
      unfolding r by (rule rp(2)) (use z30 in simp)
    ultimately show ?thesis using False by (simp only: correct_result_def k_def[symmetric]) simp
  qed
  moreover have ?thesis if large: "253 < k \<or> k = 253 \<and> m = 2 ^ 24"
  proof -
    have r: "roundAndPackFloat32 rm fl s e z =
        (infinity s - of_bool (round_increment rm s = 0), float_raise (float_flag_overflow OR float_flag_inexact) fl)"
      using large False unfolding roundAndPackFloat32_def Let_def mod carry k infinity_pack by auto
    have "2 ^ 23 \<le> m"
      using div_le_mono[OF z30, of 128] rounded_bounds(1)[where n = "unat z" and d = 128 and rm = rm and s = s] by (simp add: m_def)
    have "2 ^ 24 * 2 ^ 253 \<le> m * 2 ^ k"
    proof (cases "k = 253")
      case True
      then show ?thesis using large by (simp only: order_less_irrefl simp_thms)
    next
      case False
      then have "(2 :: nat) ^ 254 \<le> 2 ^ k" using large by (intro power_increasing) simp_all
      then have "2 ^ 23 * 2 ^ 254 \<le> m * 2 ^ k" using \<open>2 ^ 23 \<le> m\<close> by (intro mult_le_mono)
      then show ?thesis by simp
    qed
    then have o: "overflows (correctly_rounded rm s ?n ?d)" by (simp only: overflows_def spec)
    have "rounds_to rm s ?n ?d (fst (roundAndPackFloat32 rm fl s e z))"
      using o no_increment[OF rm, of s] by (simp add: rounds_to_def r)
    moreover have "snd (roundAndPackFloat32 rm fl s e z) = fl OR rounding_flags rm s ?n ?d"
      using o by (simp add: rounding_flags_def r float_raise_def)
    ultimately show ?thesis using False by (simp only: correct_result_def k_def[symmetric]) simp
  qed
  ultimately show ?thesis by linarith
qed

end
