(* ===== verification/Softfloat_Arith.thy ===== *)
theory Softfloat_Arith
  imports Softfloat_Props
begin

text \<open>
  Multiplication and division of the software floating point are correctly rounded: the significand handed to
  \<open>roundAndPackFloat32\<close>, with its sticky bit, stands for the exact product or quotient.
\<close>

text \<open>Only the quotient matters.\<close>

lemma correct_result_eq:
  assumes "n * d' = n' * d" and "0 < d" and "0 < d'"
  shows "correct_result rm fl s n d res = correct_result rm fl s n' d' res"
  using correct_result_cancel[OF assms(3), of rm fl s n d res] correct_result_cancel[OF assms(2), of rm fl s n' d' res] assms(1)
  by (simp only: mult.commute[of d])

lemma correct_result_transfer:
  "correct_result rm fl s n d res \<Longrightarrow> n * d' = n' * d \<Longrightarrow> 0 < d \<Longrightarrow> 0 < d' \<Longrightarrow> correct_result rm fl s n' d' res"
  using correct_result_eq by blast

section \<open>Normalization\<close>

lemma clz_table:
  assumes "k < 256" and "k \<noteq> 0"
  shows "\<exists>c\<le>7. countLeadingZerosHigh ! k = int c \<and> 128 \<le> k * 2 ^ c \<and> (k + 1) * 2 ^ c \<le> 256"
proof -
  have "list_all (\<lambda>k. k = 0 \<or> (let c = nat (countLeadingZerosHigh ! k)
      in c \<le> 7 \<and> countLeadingZerosHigh ! k = int c \<and> 128 \<le> k * 2 ^ c \<and> (k + 1) * 2 ^ c \<le> 256)) [0..<256]"
    by code_simp
  then have "\<forall>k\<in>{0..<256}. k = 0 \<or> (let c = nat (countLeadingZerosHigh ! k)
      in c \<le> 7 \<and> countLeadingZerosHigh ! k = int c \<and> 128 \<le> k * 2 ^ c \<and> (k + 1) * 2 ^ c \<le> 256)"
    by (simp only: list_all_iff set_upt)
  then show ?thesis using assms by (intro exI[of _ "nat (countLeadingZerosHigh ! k)"]) (drule bspec[of _ _ k], simp, simp only: Let_def simp_thms)
qed

lemma unat_push: "unat w * 2 ^ k < 2 ^ 32 \<Longrightarrow> unat (push_bit k w) = unat w * 2 ^ k" for w :: u32
  unfolding unsigned_push_bit_eq by (simp add: push_bit_eq_mult take_bit_eq_mod)

lemma clz_high:
  assumes "2 ^ 24 \<le> unat (w :: u32)"
  shows "\<exists>c\<le>7. countLeadingZerosHigh ! unat (drop_bit 24 w) = int c \<and> 2 ^ 31 \<le> unat w * 2 ^ c \<and> unat w * 2 ^ c < 2 ^ 32"
proof -
  let ?k = "unat w div 2 ^ 24"
  have k: "?k < 256" using unat_lt32[of w] by (intro less_mult_imp_div_less) simp
  have "?k \<noteq> 0" using assms by (simp add: div_eq_0_iff)
  with k obtain c where c: "c \<le> 7" "countLeadingZerosHigh ! ?k = int c" "128 \<le> ?k * 2 ^ c" "(?k + 1) * 2 ^ c \<le> 256"
    using clz_table by blast
  have "?k * 2 ^ 24 \<le> unat w" "unat w < (?k + 1) * 2 ^ 24"
    using dividend_less_div_times[of "2 ^ 24" "unat w"] by (simp_all only: div_times_less_eq_dividend) simp
  then have "?k * 2 ^ 24 * 2 ^ c \<le> unat w * 2 ^ c" "unat w * 2 ^ c < (?k + 1) * 2 ^ 24 * 2 ^ c" by simp_all
  moreover have "128 \<le> q * 2 ^ c \<Longrightarrow> 2 ^ 31 \<le> q * 2 ^ 24 * 2 ^ c" "q * 2 ^ c \<le> 256 \<Longrightarrow> q * 2 ^ 24 * 2 ^ c \<le> 2 ^ 32" for q :: nat
    by (drule mult_le_mono2[of _ _ "2 ^ 24"], simp add: mult.commute mult.left_commute)+
  note this(1)[OF c(3)] this(2)[OF c(4)]
  ultimately have "2 ^ 31 \<le> unat w * 2 ^ c \<and> unat w * 2 ^ c < 2 ^ 32" by linarith
  then show ?thesis using c(1,2) by (intro exI[of _ c]) (simp only: unat_drop simp_thms)
qed

lemma clz32:
  assumes "w \<noteq> 0"
  shows "\<exists>c\<le>31. countLeadingZeros32 w = int c \<and> 2 ^ 31 \<le> unat w * 2 ^ c \<and> unat w * 2 ^ c < 2 ^ 32"
proof -
  have w: "0 < unat w" using assms by (simp add: unat_gt_0)
  have lt: "w < 0x10000 \<longleftrightarrow> unat w < 2 ^ 16" "v < 0x1000000 \<longleftrightarrow> unat v < 2 ^ 24" for v :: u32
    by (simp_all add: word_less_nat_alt)
  define w1 :: u32 and s1 :: nat where "w1 = (if w < 0x10000 then push_bit 16 w else w)" and "s1 = (if w < 0x10000 then 16 else 0)"
  define w2 and s2 :: nat where "w2 = (if w1 < 0x1000000 then push_bit 8 w1 else w1)" and "s2 = (if w1 < 0x1000000 then s1 + 8 else s1)"
  have 1: "unat w1 = unat w * 2 ^ s1" "2 ^ 16 \<le> unat w1"
    using w by (auto simp: w1_def s1_def lt unat_push)
  have 2: "unat w2 = unat w * 2 ^ s2" "2 ^ 24 \<le> unat w2"
    using 1 by (auto simp: w2_def s2_def lt unat_push power_add)
  have "countLeadingZeros32 w = int s2 + countLeadingZerosHigh ! unat (drop_bit 24 w2)"
    by (simp add: countLeadingZeros32_def w1_def w2_def s1_def s2_def split: if_splits)
  moreover obtain c where "c \<le> 7" "countLeadingZerosHigh ! unat (drop_bit 24 w2) = int c"
      "2 ^ 31 \<le> unat w2 * 2 ^ c" "unat w2 * 2 ^ c < 2 ^ 32"
    using clz_high[OF 2(2)] by blast
  moreover have "s2 \<le> 24" by (simp add: s1_def s2_def)
  ultimately show ?thesis by (intro exI[of _ "s2 + c"]) (simp add: 2(1) power_add)
qed

lemma normalizeRoundAndPack_correct:
  assumes rm: "rm \<le> 3" and z: "z \<noteq> 0" "unat z < 2 ^ 31" and d: "0 < d"
    and st: "\<And>c. 2 ^ 30 \<le> unat z * 2 ^ c \<Longrightarrow> unat z * 2 ^ c < 2 ^ 31 \<Longrightarrow> \<exists>j. 0 < j \<and> j < 7 \<and> sticky j (unat z * 2 ^ c) (n * 2 ^ c) d"
    and e: "- 900 < e" "e < 900"
  shows "correct_result rm fl s (n * 2 ^ nat e) (d * 2 ^ (7 + nat (- e))) (normalizeRoundAndPackFloat32 rm fl s e z)"
proof -
  obtain k where k: "k \<le> 31" "countLeadingZeros32 z = int k" "2 ^ 31 \<le> unat z * 2 ^ k" "unat z * 2 ^ k < 2 ^ 32"
    using clz32[OF z(1)] by blast
  then have "0 < k" using z(2) by (cases k) auto
  then obtain c where c: "k = Suc c" by (cases k) auto
  have b: "2 ^ 30 \<le> unat z * 2 ^ c" "unat z * 2 ^ c < 2 ^ 31" using k(3,4) by (simp_all add: c)
  obtain j where j: "0 < j" "j < 7" "sticky j (unat z * 2 ^ c) (n * 2 ^ c) d" using st[OF b] by blast
  have u: "unat (shl z (int c)) = unat z * 2 ^ c" using b(2) by (simp add: shl_def unat_push)
  have "correct_result rm fl s (n * 2 ^ c * 2 ^ nat (e - int c)) (d * 2 ^ (7 + nat (- (e - int c))))
      (roundAndPackFloat32 rm fl s (e - int c) (shl z (int c)))"
    using j(3) b e k(1) c by (intro roundAndPack_correct[OF rm _ j(1,2) d]) (simp_all add: u)
  moreover have "n * 2 ^ c * 2 ^ nat (e - int c) * (d * 2 ^ (7 + nat (- e))) = n * 2 ^ nat e * (d * 2 ^ (7 + nat (- (e - int c))))"
  proof -
    have "c + nat (e - int c) + nat (- e) = nat e + nat (- (e - int c))" by linarith
    then have "(2 :: nat) ^ c * 2 ^ nat (e - int c) * 2 ^ nat (- e) = 2 ^ nat e * 2 ^ nat (- (e - int c))" by (simp only: flip: power_add)
    then show ?thesis by (simp add: power_add mult.commute mult.left_commute)
  qed
  ultimately show ?thesis
    using correct_result_eq[of "n * 2 ^ c * 2 ^ nat (e - int c)" "d * 2 ^ (7 + nat (- e))" "n * 2 ^ nat e" "d * 2 ^ (7 + nat (- (e - int c)))"] d
    by (simp add: normalizeRoundAndPackFloat32_def k(2) c Let_def)
qed

lemma bit_unat: "bit w p \<longleftrightarrow> odd (unat w div 2 ^ p)" for w :: "'a::len word"
proof -
  have "bit w p \<longleftrightarrow> bit (unat w) p" by (simp add: bit_unsigned_iff)
  then show ?thesis by (simp only: bit_iff_odd)
qed

lemma unat_or_pow:
  fixes w :: "'a::len word"
  assumes "unat w < 2 ^ p" and "p < LENGTH('a)"
  shows "unat (w OR push_bit p 1) = unat w + 2 ^ p"
proof -
  have "\<not> bit w p" using assms(1) by (simp add: bit_unat)
  then have "w AND push_bit p 1 = 0" by (intro bit_eqI) (auto simp: bit_simps)
  then have "w OR push_bit p 1 = w + push_bit p 1" by (rule disjunctive_add_eq_or[symmetric])
  moreover have "unat (push_bit p 1 :: 'a word) = 2 ^ p"
  proof -
    have "unat (push_bit p 1 :: 'a word) = take_bit LENGTH('a) (push_bit p (unat (1 :: 'a word)))" by (rule unsigned_push_bit_eq)
    also have "\<dots> = 2 ^ p mod 2 ^ LENGTH('a)" by (simp only: unsigned_1 push_bit_eq_mult take_bit_eq_mod mult_1)
    finally show ?thesis using assms(2) by (simp add: power_strict_increasing)
  qed
  moreover have "unat w + 2 ^ p < 2 ^ LENGTH('a)"
  proof -
    have "(2 :: nat) ^ Suc p \<le> 2 ^ LENGTH('a)" using assms(2) by (intro power_increasing) simp_all
    then show ?thesis using assms(1) by simp
  qed
  ultimately show ?thesis by (simp add: unat_word_ariths(1))
qed

lemma or_pow_set: "2 ^ p \<le> unat w \<Longrightarrow> unat w < 2 * 2 ^ p \<Longrightarrow> w OR push_bit p 1 = w" for w :: "'a::len word"
proof -
  assume "2 ^ p \<le> unat w" "unat w < 2 * 2 ^ p"
  then have "unat w div 2 ^ p = 1" by (intro div_nat_eqI) simp_all
  then have "bit w p" by (simp add: bit_unat)
  then show ?thesis by (intro bit_eqI) (auto simp: bit_simps)
qed

lemma hidden_bits: "0x00800000 = (push_bit 23 1 :: u32)" "0x20000000 = (push_bit 29 1 :: u32)" "0x40000000 = (push_bit 30 1 :: u32)"
  by simp_all

text \<open>The normalized significand and exponent of a number other than zero.\<close>

lemma normalize_if:
  assumes "finite32 a" and "\<not> (extractFloat32Exp a = 0 \<and> extractFloat32Frac a = 0)"
  obtains e t sg where "normalize_if (extractFloat32Exp a) (extractFloat32Frac a) = (e, sg)"
    and "e = int t - 22" and "t < 277" and "2 ^ 23 \<le> unat (sg OR 0x00800000)" and "unat (sg OR 0x00800000) < 2 ^ 24"
    and "magnitude a * 2 ^ 23 = unat (sg OR 0x00800000) * 2 ^ t"
proof (cases "extractFloat32Exp a = 0")
  case False
  define x where "x = nat (extractFloat32Exp a)"
  have x: "extractFloat32Exp a = int x" "0 < x" "x < 255"
    using False assms(1) by (auto simp: x_def finite32_def exp_unat)
  have f: "unat (extractFloat32Frac a) < 2 ^ 23" by (simp add: unat_frac)
  then have s: "unat (extractFloat32Frac a OR 0x00800000) = unat (extractFloat32Frac a) + 2 ^ 23"
    unfolding hidden_bits by (rule unat_or_pow) simp
  have "magnitude a * 2 ^ 23 = (unat (extractFloat32Frac a) + 2 ^ 23) * (2 ^ (x - 1) * 2 ^ 23)"
    using x by (simp add: magnitude_def significand_def exponent_def)
  also have "(2 :: nat) ^ (x - 1) * 2 ^ 23 = 2 ^ (x + 22)" using x(2) by (cases x) (simp_all add: power_add)
  finally have m: "magnitude a * 2 ^ 23 = (unat (extractFloat32Frac a) + 2 ^ 23) * 2 ^ (x + 22)" .
  show ?thesis
    by (rule that[of "int x" "extractFloat32Frac a" "x + 22"]) (use x f m in \<open>simp_all add: normalize_if_def s\<close>)
next
  case True
  let ?f = "extractFloat32Frac a"
  have "?f \<noteq> 0" using assms(2) True by simp
  then obtain k where k: "k \<le> 31" "countLeadingZeros32 ?f = int k" "2 ^ 31 \<le> unat ?f * 2 ^ k" "unat ?f * 2 ^ k < 2 ^ 32"
    using clz32 by blast
  have f: "unat ?f < 2 ^ 23" by (simp add: unat_frac)
  have "8 < k"
  proof (rule ccontr)
    assume "\<not> 8 < k"
    then have "unat ?f * 2 ^ k < 2 ^ 23 * 2 ^ 8" using f by (intro mult_less_le_imp_less power_increasing) simp_all
    then show False using k(3) by simp
  qed
  then obtain c where c: "k = 8 + c" "0 < c" by (auto simp: less_iff_Suc_add)
  then have b: "2 ^ 23 \<le> unat ?f * 2 ^ c" "unat ?f * 2 ^ c < 2 ^ 24" using k(3,4) by (simp_all add: power_add)
  then have u: "unat (push_bit c ?f) = unat ?f * 2 ^ c" by (intro unat_push) simp
  have o: "push_bit c ?f OR 0x00800000 = push_bit c ?f"
    unfolding hidden_bits by (rule or_pow_set) (use b in \<open>simp_all add: u\<close>)
  have "c \<le> 23" using k(1) c by simp
  then have "(2 :: nat) ^ 23 = 2 ^ c * 2 ^ (23 - c)" by (simp flip: power_add)
  then have m: "magnitude a * 2 ^ 23 = unat (push_bit c ?f) * 2 ^ (23 - c)"
    using True by (simp add: magnitude_def significand_def exponent_def u mult.assoc)
  have n: "normalize_if (extractFloat32Exp a) ?f = (1 - int c, push_bit c ?f)"
    by (simp add: True normalize_if_def normalizeFloat32Subnormal_def shl_def k(2) c(1))
  show ?thesis
  proof (rule that[OF n])
    show "1 - int c = int (23 - c) - 22" "23 - c < 277" using \<open>c \<le> 23\<close> by simp_all
    show "2 ^ 23 \<le> unat (push_bit c ?f OR 0x00800000)" "unat (push_bit c ?f OR 0x00800000) < 2 ^ 24"
      unfolding o u by (rule b)+
    show "magnitude a * 2 ^ 23 = unat (push_bit c ?f OR 0x00800000) * 2 ^ (23 - c)" unfolding o by (rule m)
  qed
qed

section \<open>Multiplication\<close>

lemma zero_magnitude: "magnitude a = 0 \<longleftrightarrow> extractFloat32Exp a = 0 \<and> extractFloat32Frac a = 0"
  by (auto simp: magnitude_def significand_def unat_eq_0)

lemma correct_zero: "0 < d \<Longrightarrow> correct_result rm fl s 0 d (packFloat32 s 0 0, fl)"
proof -
  assume d: "0 < d"
  have q: "quantum 0 d = 0" using d by (intro quantum_eqI) simp_all
  have c: "correctly_rounded rm s 0 d = 0" using d by (simp add: correctly_rounded_def q rounded_exact)
  have "\<not> overflows 0" by (simp add: overflows_def)
  then show ?thesis
    using magnitude_pack[of 0 0 s] by (simp add: correct_result_def rounds_to_def rounding_flags_def c)
qed

lemma sint_nonneg_double: "unat z < 2 ^ 31 \<Longrightarrow> 0 \<le> sint (push_bit 1 z) \<longleftrightarrow> unat z < 2 ^ 30" for z :: u32
proof -
  assume "unat z < 2 ^ 31"
  then have "unat (push_bit 1 z) = unat z * 2 ^ 1" by (intro unat_push) simp
  then show ?thesis using sint_neg[of "push_bit 1 z"] by auto
qed

lemma unat_ucast64: "unat (ucast w :: u64) = unat w" for w :: u32
  using unat_lt32[of w] by (simp add: unsigned_ucast_eq take_bit_nat_eq_self)

lemma unat_ucast32: "unat w < 2 ^ 32 \<Longrightarrow> unat (ucast w :: u32) = unat w" for w :: u64
  by (simp add: unsigned_ucast_eq take_bit_nat_eq_self)

lemma unat_mult64: "unat x * unat y < 2 ^ 64 \<Longrightarrow> unat (x * y) = unat x * unat y" for x y :: u64
  by (simp add: unat_word_ariths(2))

lemma scaled_eq:
  fixes m s :: nat
  assumes "m * 2 ^ k = s * 2 ^ t" and "a + k = t + b"
  shows "s * 2 ^ a = m * 2 ^ b"
proof -
  have "s * 2 ^ a * 2 ^ k = s * 2 ^ t * 2 ^ b" using assms(2) by (simp only: mult.assoc flip: power_add)
  also have "\<dots> = m * 2 ^ b * 2 ^ k" by (simp only: assms(1)[symmetric] mult.assoc mult.commute[of "2 ^ k"])
  finally show ?thesis by simp
qed

lemma mul_correct:
  assumes rm: "rm \<le> 3" and a: "finite32 a" and b: "finite32 b"
  shows "correct_result rm fl (extractFloat32Sign a \<noteq> extractFloat32Sign b) (magnitude a * magnitude b) (2 ^ 149) (float32_mul rm fl a b)"
proof -
  let ?s = "extractFloat32Sign a \<noteq> extractFloat32Sign b"
  note fin = a[unfolded finite32_def] b[unfolded finite32_def]
  show ?thesis
  proof (cases "magnitude a = 0 \<or> magnitude b = 0")
    case True
    then have "float32_mul rm fl a b = (packFloat32 ?s 0 0, fl)"
      using fin unfolding zero_magnitude by (auto simp: float32_mul_def Let_def)
    moreover have "magnitude a * magnitude b = 0" using True by simp
    ultimately show ?thesis using correct_zero[of "2 ^ 149" rm fl ?s] by (simp only:) simp
  next
    case False
    then have nz: "\<not> (extractFloat32Exp a = 0 \<and> extractFloat32Frac a = 0)" "\<not> (extractFloat32Exp b = 0 \<and> extractFloat32Frac b = 0)"
      by (auto simp: zero_magnitude)
    obtain ea ta sa where A: "normalize_if (extractFloat32Exp a) (extractFloat32Frac a) = (ea, sa)" "ea = int ta - 22" "ta < 277"
        "2 ^ 23 \<le> unat (sa OR 0x00800000)" "unat (sa OR 0x00800000) < 2 ^ 24" "magnitude a * 2 ^ 23 = unat (sa OR 0x00800000) * 2 ^ ta"
      using normalize_if[OF a nz(1)] by blast
    obtain eb tb sb where B: "normalize_if (extractFloat32Exp b) (extractFloat32Frac b) = (eb, sb)" "eb = int tb - 22" "tb < 277"
        "2 ^ 23 \<le> unat (sb OR 0x00800000)" "unat (sb OR 0x00800000) < 2 ^ 24" "magnitude b * 2 ^ 23 = unat (sb OR 0x00800000) * 2 ^ tb"
      using normalize_if[OF b nz(2)] by blast
    let ?A = "unat (sa OR 0x00800000)" and ?B = "unat (sb OR 0x00800000)"
    define e where "e = ea + eb - 0x7F"
    define p :: u64 where "p = ucast (push_bit 7 (sa OR 0x00800000)) * ucast (push_bit 8 (sb OR 0x00800000))"
    define z :: u32 where "z = ucast (shift64RightJamming p 32)"
    have "?A * ?B < 2 ^ 24 * 2 ^ 24" "2 ^ 23 * 2 ^ 23 \<le> ?A * ?B" using A(4,5) B(4,5) by (intro mult_strict_mono mult_le_mono; simp)+
    then have P: "?A * ?B * 2 ^ 15 < 2 ^ 63" "2 ^ 61 \<le> ?A * ?B * 2 ^ 15" by simp_all
    have "unat (push_bit 7 (sa OR 0x00800000)) = ?A * 2 ^ 7" "unat (push_bit 8 (sb OR 0x00800000)) = ?B * 2 ^ 8"
      using A(5) B(5) by (intro unat_push; simp)+
    then have p: "unat p = ?A * ?B * 2 ^ 15"
      using P(1) unfolding p_def by (subst unat_mult64) (simp_all only: unat_ucast64, simp_all)
    have jam: "jam (unat p) 32 < 2 * 2 ^ 30" "2 ^ 29 \<le> jam (unat p) 32"
    proof -
      have "jam (unat p) 32 div 2 < 2 ^ 30"
        unfolding jam_half using P(1) by (intro less_mult_imp_div_less) (simp add: p)
      then show "jam (unat p) 32 < 2 * 2 ^ 30" by (simp add: div_less_iff_less_mult)
      have "2 ^ 61 div 2 ^ 32 \<le> unat p div 2 ^ 32" using P(2) by (intro div_le_mono) (simp only: p)
      then show "2 ^ 29 \<le> jam (unat p) 32" by (simp add: jam_def)
    qed
    have z: "unat z = jam (unat p) 32"
      using unat_shift64[of p 32] jam(1) unfolding z_def by (subst unat_ucast32) simp_all
    have st: "sticky 1 (unat z) (unat p) (2 ^ 32)"
      using sticky_jam[of 1 "unat p" "unat p" 1 32] unfolding z by (simp add: sticky_def)
    have prod: "magnitude a * magnitude b * 2 ^ 46 = ?A * ?B * 2 ^ (ta + tb)"
    proof -
      have "magnitude a * 2 ^ 23 * (magnitude b * 2 ^ 23) = ?A * 2 ^ ta * (?B * 2 ^ tb)" by (simp only: A(6) B(6))
      then show ?thesis by (simp add: power_add mult.commute mult.left_commute)
    qed
    have e: "e = int (ta + tb) - 171" "- 500 < e" "e < 500" using A(2,3) B(2,3) by (simp_all add: e_def)
    have m: "float32_mul rm fl a b =
        (if 0 \<le> sint (push_bit 1 z) then roundAndPackFloat32 rm fl ?s (e - 1) (push_bit 1 z) else roundAndPackFloat32 rm fl ?s e z)"
      unfolding float32_mul_def Let_def A(1) B(1) prod.case z_def p_def e_def
      by (simp only: fin nz A(1) B(1) prod.case if_False simp_thms)
    show ?thesis
    proof (cases "unat z < 2 ^ 30")
      case True
      have u: "unat (push_bit 1 z) = unat z * 2 ^ 1" using True by (intro unat_push) simp
      have "sticky 2 (unat (push_bit 1 z)) (unat p * 2 ^ 1) (2 ^ 32)"
        unfolding u using sticky_double[OF st, of 1] by (simp only: one_add_one)
      moreover have "0 \<le> sint (push_bit 1 z)" using True sint_nonneg_double[of z] by simp
      moreover have "2 ^ 30 \<le> unat (push_bit 1 z)" "unat (push_bit 1 z) < 2 ^ 31" using True jam(2) unfolding u z by simp_all
      ultimately have "correct_result rm fl ?s (unat p * 2 ^ 1 * 2 ^ nat (e - 1)) (2 ^ 32 * 2 ^ (7 + nat (- (e - 1)))) (float32_mul rm fl a b)"
        unfolding m if_P[OF \<open>0 \<le> sint (push_bit 1 z)\<close>] using e(2,3)
        by (intro roundAndPack_correct[OF rm, of 2]) simp_all
      moreover have "unat p * 2 ^ 1 * 2 ^ nat (e - 1) * 2 ^ 149 = magnitude a * magnitude b * (2 ^ 32 * 2 ^ (7 + nat (- (e - 1))))"
        using scaled_eq[OF prod, of "15 + 1 + nat (e - 1) + 149" "32 + (7 + nat (- (e - 1)))"] e(1)
        unfolding p by (simp add: power_add mult.assoc)
      ultimately show ?thesis by (rule correct_result_transfer) simp_all
    next
      case False
      have "correct_result rm fl ?s (unat p * 2 ^ nat e) (2 ^ 32 * 2 ^ (7 + nat (- e))) (float32_mul rm fl a b)"
      proof -
        have "\<not> 0 \<le> sint (push_bit 1 z)" using False jam(1) sint_nonneg_double[of z] unfolding z by simp
        then show ?thesis
          unfolding m if_not_P[OF \<open>\<not> 0 \<le> sint (push_bit 1 z)\<close>] using False e(2,3) jam(1) st z
          by (intro roundAndPack_correct[OF rm, of 1]) simp_all
      qed
      moreover have "unat p * 2 ^ nat e * 2 ^ 149 = magnitude a * magnitude b * (2 ^ 32 * 2 ^ (7 + nat (- e)))"
        using scaled_eq[OF prod, of "15 + nat e + 149" "32 + (7 + nat (- e))"] e(1)
        unfolding p by (simp add: power_add mult.assoc)
      ultimately show ?thesis by (rule correct_result_transfer) simp_all
    qed
  qed
qed

section \<open>Division\<close>

lemma scaled_ratio:
  fixes a b m n :: nat
  assumes "m * 2 ^ k = a * 2 ^ s" and "n * 2 ^ k = b * 2 ^ t" and "x + t = y + s"
  shows "a * 2 ^ x * n = m * (b * 2 ^ y)"
proof -
  have "a * 2 ^ x * n * (2 ^ s * 2 ^ t) = (a * 2 ^ s) * n * 2 ^ (x + t)"
    by (simp only: power_add) (simp only: ac_simps)
  also have "\<dots> = m * (n * 2 ^ k) * 2 ^ (y + s)" by (simp only: assms(1)[symmetric] assms(3)) (simp only: ac_simps)
  also have "\<dots> = m * (b * 2 ^ y) * (2 ^ s * 2 ^ t)" by (simp only: assms(2) power_add) (simp only: ac_simps)
  finally show ?thesis by simp
qed

lemma and_3F: "unat (w AND 0x3F) = unat w mod 2 ^ 6" for w :: u32
proof -
  have "n AND 0x3F = n mod 2 ^ 6" for n :: nat
    using take_bit_eq_mask[of 6 n] by (simp add: take_bit_eq_mod mask_eq_exp_minus_1)
  then show ?thesis by (simp add: unsigned_and_eq)
qed

text \<open>The quotient with its sticky bit.\<close>

lemma quotient_sticky:
  fixes n d :: u64
  assumes "0 < unat d" and "unat d < 2 ^ 32" and "unat n < 2 ^ 31 * unat d"
  defines "q \<equiv> ucast (n div d) :: u32"
  defines "z \<equiv> (if q AND 0x3F = 0 then q OR of_bool (d * ucast q \<noteq> n) else q)"
  shows "sticky 6 (unat z) (unat n) (unat d)"
proof -
  have "unat n div unat d < 2 ^ 31" using assms(3) by (intro less_mult_imp_div_less)
  then have q: "unat q = unat n div unat d" unfolding q_def by (subst unat_ucast32) (simp_all add: unat_div)
  have "unat d * unat q \<le> unat n" by (simp add: q)
  then have "unat (d * ucast q) = unat d * (unat n div unat d)"
    using unat_lt64[of n] by (subst unat_mult64) (simp_all only: unat_ucast64 q)
  then have "d * ucast q = n \<longleftrightarrow> unat d * (unat n div unat d) = unat n" by (simp only: word_unat_eq_iff)
  also have "\<dots> \<longleftrightarrow> unat d dvd unat n" by (metis dvd_mult_div_cancel dvd_triv_left)
  finally have ex: "d * ucast q = n \<longleftrightarrow> unat d dvd unat n" .
  have six: "q AND 0x3F = 0 \<longleftrightarrow> 2 ^ 6 dvd unat n div unat d"
    using and_3F[of q] by (simp only: unat_eq_0[symmetric] dvd_eq_mod_eq_0 q)
  have "even (unat q)" if "2 ^ 6 dvd unat n div unat d" using that by (auto simp: q)
  then have "unat z = (if 2 ^ 6 dvd unat n div unat d \<and> \<not> unat d dvd unat n then unat n div unat d + 1 else unat n div unat d)"
    unfolding z_def six ex by (simp only: unat_or_bool q simp_thms if_False if_True split: if_split) auto
  then show ?thesis by (intro sticky_quotient assms(1)) simp_all
qed

lemma div_correct:
  assumes rm: "rm \<le> 3" and a: "finite32 a" and b: "finite32 b" and nzb: "magnitude b \<noteq> 0"
  shows "correct_result rm fl (extractFloat32Sign a \<noteq> extractFloat32Sign b) (magnitude a * 2 ^ 149) (magnitude b) (float32_div rm fl a b)"
proof -
  let ?s = "extractFloat32Sign a \<noteq> extractFloat32Sign b"
  note fin = a[unfolded finite32_def] b[unfolded finite32_def]
  have nb: "\<not> (extractFloat32Exp b = 0 \<and> extractFloat32Frac b = 0)" using nzb by (auto simp: zero_magnitude)
  show ?thesis
  proof (cases "magnitude a = 0")
    case True
    then have "extractFloat32Exp a = 0 \<and> extractFloat32Frac a = 0" by (simp only: zero_magnitude)
    then have "float32_div rm fl a b = (packFloat32 ?s 0 0, fl)"
      unfolding float32_div_def Let_def by (simp only: fin nb if_False if_True simp_thms) simp
    then show ?thesis using True correct_zero[of "magnitude b" rm fl ?s] nzb by simp
  next
    case False
    then have na: "\<not> (extractFloat32Exp a = 0 \<and> extractFloat32Frac a = 0)" by (auto simp: zero_magnitude)
    obtain ea ta sa where A: "normalize_if (extractFloat32Exp a) (extractFloat32Frac a) = (ea, sa)" "ea = int ta - 22" "ta < 277"
        "2 ^ 23 \<le> unat (sa OR 0x00800000)" "unat (sa OR 0x00800000) < 2 ^ 24" "magnitude a * 2 ^ 23 = unat (sa OR 0x00800000) * 2 ^ ta"
      using normalize_if[OF a na] by blast
    obtain eb tb sb where B: "normalize_if (extractFloat32Exp b) (extractFloat32Frac b) = (eb, sb)" "eb = int tb - 22" "tb < 277"
        "2 ^ 23 \<le> unat (sb OR 0x00800000)" "unat (sb OR 0x00800000) < 2 ^ 24" "magnitude b * 2 ^ 23 = unat (sb OR 0x00800000) * 2 ^ tb"
      using normalize_if[OF b nb] by blast
    let ?A = "unat (sa OR 0x00800000)" and ?B = "unat (sb OR 0x00800000)"
    define x0 y0 where "x0 = push_bit 7 (sa OR 0x00800000)" and "y0 = push_bit 8 (sb OR 0x00800000)"
    define e x where "e = (if y0 \<le> x0 + x0 then ea - eb + 0x7D + 1 else ea - eb + 0x7D)" and "x = (if y0 \<le> x0 + x0 then drop_bit 1 x0 else x0)"
    define n d :: u64 where "n = push_bit 32 (ucast x)" and "d = ucast y0"
    define q z :: u32 where "q = ucast (n div d)" and "z = (if q AND 0x3F = 0 then q OR of_bool (d * ucast q \<noteq> n) else q)"
    define h :: nat where "h = (if ?B \<le> ?A then 6 else 7)"
    have ux: "unat x0 = ?A * 2 ^ 7" "unat y0 = ?B * 2 ^ 8" unfolding x0_def y0_def using A(5) B(5) by (intro unat_push; simp)+
    have "unat (x0 + x0) = (unat x0 + unat x0) mod 2 ^ LENGTH(32)" by (rule unat_word_ariths(1))
    then have "unat (x0 + x0) = ?A * 2 ^ 8" using A(5) unfolding ux by simp
    then have cmp: "y0 \<le> x0 + x0 \<longleftrightarrow> ?B \<le> ?A" by (simp add: word_le_nat_alt ux)
    have "unat x = ?A * 2 ^ h" using ux(1) unfolding x_def h_def cmp by (simp add: unat_drop)
    then have un: "unat n = ?A * 2 ^ h * 2 ^ 32" using A(5)
      unfolding n_def unsigned_push_bit_eq unat_ucast64 by (simp add: push_bit_eq_mult take_bit_eq_mod h_def)
    have ud: "unat d = ?B * 2 ^ 8" by (simp add: d_def unat_ucast64 ux)
    have bounds: "2 ^ 30 * unat d \<le> unat n" "unat n < 2 ^ 31 * unat d" "0 < unat d" "unat d < 2 ^ 32"
      using A(4,5) B(4,5) by (auto simp: un ud h_def)
    have st: "sticky 6 (unat z) (unat n) (unat d)"
      unfolding z_def q_def by (rule quotient_sticky[OF bounds(3,4,2)])
    have z: "2 ^ 30 \<le> unat z" "unat z < 2 ^ 31"
      using sticky_bounds[OF st _ bounds(3), of 30] sticky_bounds[OF st _ bounds(3), of 31] bounds(1,2) by simp_all
    have e: "e = int ta - int tb + 132 - int h" "- 500 < e" "e < 500" using A(2,3) B(2,3) unfolding e_def h_def cmp by simp_all
    have "float32_div rm fl a b = roundAndPackFloat32 rm fl ?s e z"
      unfolding float32_div_def Let_def A(1) B(1) prod.case z_def q_def n_def d_def x_def e_def x0_def y0_def
      by (cases "push_bit 8 (sb OR 0x00800000) \<le> push_bit 7 (sa OR 0x00800000) + push_bit 7 (sa OR 0x00800000)")
        (simp_all only: fin na nb A(1) B(1) prod.case if_False if_True simp_thms)
    moreover have "correct_result rm fl ?s (unat n * 2 ^ nat e) (unat d * 2 ^ (7 + nat (- e))) (roundAndPackFloat32 rm fl ?s e z)"
      using e(2,3) z by (intro roundAndPack_correct[OF rm st _ _ bounds(3)]) simp_all
    ultimately have "correct_result rm fl ?s (unat n * 2 ^ nat e) (unat d * 2 ^ (7 + nat (- e))) (float32_div rm fl a b)"
      by (simp only:)
    moreover have "unat n * 2 ^ nat e * magnitude b = magnitude a * 2 ^ 149 * (unat d * 2 ^ (7 + nat (- e)))"
      using scaled_ratio[OF A(6) B(6), of "h + 32 + nat e" "149 + 8 + (7 + nat (- e))"] e(1)
      unfolding un ud by (simp add: power_add mult.assoc mult.left_commute)
    ultimately show ?thesis by (rule correct_result_transfer) (use bounds(3) nzb in simp_all)
  qed
qed

section \<open>Properties\<close>

text \<open>
  C9: for finite operands, subnormal ones included, in every rounding mode, \<open>float32_mul\<close> and \<open>float32_div\<close> return
  the exact product or quotient correctly rounded, with its sign, or the infinity or largest number that stands for an
  overflow, and raise overflow and inexact exactly when they have to.
\<close>

theorem float32_mul_div_rounded:
  assumes "rm \<le> 3" and "finite32 a" and "finite32 b" and "magnitude b \<noteq> 0"
  shows "correct_result rm fl (extractFloat32Sign a \<noteq> extractFloat32Sign b) (magnitude a * magnitude b) (2 ^ 149) (float32_mul rm fl a b) \<and>
    correct_result rm fl (extractFloat32Sign a \<noteq> extractFloat32Sign b) (magnitude a * 2 ^ 149) (magnitude b) (float32_div rm fl a b)"
  using mul_correct[OF assms(1-3)] div_correct[OF assms] by (rule conjI)

theorem float32_mul_div_rounded_witness:
  "correct_result 0 0 False (magnitude 0x3F800001 * magnitude 0x40400000) (2 ^ 149) (0x40400002, 0x20) \<and>
   correct_result 0 0 False (magnitude 0x3F800001 * 2 ^ 149) (magnitude 0x40400000) (0x3EAAAAAC, 0)"
proof -
  have "finite32 0x3F800001" "finite32 0x40400000" by code_simp+
  moreover have "magnitude 0x40400000 \<noteq> 0" unfolding zero_magnitude by code_simp
  moreover have "float32_mul 0 0 0x3F800001 0x40400000 = (0x40400002, 0x20)" by code_simp
  moreover have "float32_div 0 0 0x3F800001 0x40400000 = (0x3EAAAAAC, 0)" by code_simp
  moreover have "(extractFloat32Sign 0x3F800001 \<noteq> extractFloat32Sign 0x40400000) = False" by code_simp
  moreover have "(0 :: u32) \<le> 3" by simp
  ultimately show ?thesis
    using float32_mul_div_rounded[of 0 "0x3F800001" "0x40400000" 0] by (simp only: simp_thms)
qed

end
