(* ===== verification/Softfloat_Add.thy ===== *)
theory Softfloat_Add
  imports Softfloat_Arith
begin

text \<open>
  Addition and subtraction of \<open>softfloat.c\<close>: \<open>addFloat32Sigs\<close> and \<open>subFloat32Sigs\<close> align the operands with
  \<open>shift32RightJamming\<close>, whose sticky bit stands for what is shifted out; the aligned sum or difference is within the
  slack the rounding theorem of Softfloat_Props allows (\<open>add_step\<close>, \<open>sub_step\<close>), so the result is the exact sum or
  difference correctly rounded. The three cases of the proofs are the three cases of the code: the first operand has the
  larger exponent, the second has, or the exponents agree.
\<close>

section \<open>Addition of magnitudes\<close>

lemma significand_bounds: "significand a < 2 ^ 24" "extractFloat32Exp a \<noteq> 0 \<Longrightarrow> 2 ^ 23 \<le> significand a"
  "extractFloat32Exp a = 0 \<Longrightarrow> significand a < 2 ^ 23"
  by (auto simp: significand_def unat_frac)

lemma exponent_bound: "finite32 a \<Longrightarrow> exponent a < 254"
  by (auto simp: exponent_def finite32_def exp_unat)

text \<open>The significand shifted left with its hidden bit.\<close>

lemma unat_shifted_frac: "k \<le> 8 \<Longrightarrow> unat (push_bit k (extractFloat32Frac a)) = unat (extractFloat32Frac a) * 2 ^ k"
proof (rule unat_push)
  assume "k \<le> 8"
  then have "(2 :: nat) ^ k \<le> 2 ^ 8" by (intro power_increasing) simp_all
  then have "unat (extractFloat32Frac a) * 2 ^ k < 2 ^ 23 * 2 ^ 8"
    by (intro mult_less_le_imp_less) (simp_all add: unat_frac)
  then show "unat (extractFloat32Frac a) * 2 ^ k < 2 ^ 32" by simp
qed

lemma shifted_significand:
  assumes "k \<le> 8"
  shows "extractFloat32Exp a = 0 \<Longrightarrow> unat (push_bit k (extractFloat32Frac a)) = significand a * 2 ^ k"
    and "extractFloat32Exp a \<noteq> 0 \<Longrightarrow> unat (push_bit k (extractFloat32Frac a) OR push_bit (23 + k) 1) = significand a * 2 ^ k"
proof -
  have u: "unat (push_bit k (extractFloat32Frac a)) = unat (extractFloat32Frac a) * 2 ^ k" using assms by (rule unat_shifted_frac)
  then show "extractFloat32Exp a = 0 \<Longrightarrow> unat (push_bit k (extractFloat32Frac a)) = significand a * 2 ^ k"
    by (simp only: significand_def simp_thms if_True add_0_right)
  have "unat (push_bit k (extractFloat32Frac a) OR push_bit (23 + k) 1) = unat (push_bit k (extractFloat32Frac a)) + 2 ^ (23 + k)"
    by (rule unat_or_pow) (use assms in \<open>simp_all only: u power_add unat_frac mult_less_cancel2\<close>, simp_all)
  then show "extractFloat32Exp a \<noteq> 0 \<Longrightarrow> unat (push_bit k (extractFloat32Frac a) OR push_bit (23 + k) 1) = significand a * 2 ^ k"
    by (simp only: u significand_def simp_thms if_False add_mult_distrib power_add)
qed

lemma jam_half_bound: "0 < j \<Longrightarrow> x < 4 * c \<Longrightarrow> jam x j < 2 * c"
proof -
  assume "0 < j" "x < 4 * c"
  have "(2 :: nat) ^ 1 \<le> 2 ^ j" using \<open>0 < j\<close> by (intro power_increasing) simp_all
  then have "x div 2 ^ j \<le> x div 2" by (intro div_le_mono2) simp_all
  then have "jam x j div 2 \<le> x div 2 div 2" by (simp add: jam_half div_le_mono)
  also have "\<dots> < c" using \<open>x < 4 * c\<close> by (simp add: less_mult_imp_div_less flip: div_mult2_eq)
  finally show "jam x j < 2 * c" by (simp add: div_less_iff_less_mult mult.commute)
qed

lemma sticky_jam_self: "sticky 1 (jam b j) b (2 ^ j)"
  using sticky_jam[of 1 b b 1 j] by (simp add: sticky_def)

lemma unat_plus: "unat x + unat y < 2 ^ 32 \<Longrightarrow> unat (x + y) = unat x + unat y" for x y :: u32
  using unat_word_ariths(1)[of x y] by simp

lemma add_step:
  assumes rm: "rm \<le> 3" and A: "2 ^ 29 \<le> A" "A < 2 ^ 30" "2 ^ 1 dvd A" and B: "B < 2 ^ 30"
    and x: "unat x = A + jam B j" and E: "1 \<le> E" "E \<le> 254"
  shows "correct_result rm fl s ((A * 2 ^ j + B) * 2 ^ E) (2 ^ j * 2 ^ 7)
    (if sint (push_bit 1 x) < 0 then roundAndPackFloat32 rm fl s (int E) x
     else roundAndPackFloat32 rm fl s (int E - 1) (push_bit 1 x))"
proof -
  have "jam B j < 2 ^ 30"
    using jam_less[of j B "2 ^ 29"] B by (cases "j = 0") (simp_all add: jam_def)
  then have x31: "unat x < 2 ^ 31" using A(2) x by simp
  have st: "sticky 1 (unat x) (A * 2 ^ j + B) (2 ^ j)"
    unfolding x using sticky_jam_self A(3) by (rule sticky_add) simp
  show ?thesis
  proof (cases "unat x < 2 ^ 30")
    case True
    have u: "unat (push_bit 1 x) = unat x * 2 ^ 1" using True by (intro unat_push) simp
    have nn: "\<not> sint (push_bit 1 x) < 0" using True sint_nonneg_double[OF x31] by simp
    have "sticky 2 (unat (push_bit 1 x)) ((A * 2 ^ j + B) * 2 ^ 1) (2 ^ j)"
      unfolding u using sticky_double[OF st, of 1] by (simp only: one_add_one)
    moreover have "2 ^ 30 \<le> unat (push_bit 1 x)" "unat (push_bit 1 x) < 2 ^ 31" unfolding u using True A(1) x by simp_all
    ultimately have "correct_result rm fl s ((A * 2 ^ j + B) * 2 ^ 1 * 2 ^ nat (int E - 1)) (2 ^ j * 2 ^ (7 + nat (- (int E - 1))))
        (roundAndPackFloat32 rm fl s (int E - 1) (push_bit 1 x))"
      using E by (intro roundAndPack_correct[OF rm, of 2]) simp_all
    moreover have "(2 :: nat) ^ 1 * 2 ^ nat (int E - 1) = 2 ^ E" using E(1) by (simp add: nat_diff_distrib flip: power_Suc)
    moreover have "nat (- (int E - 1)) = 0" using E(1) by simp
    ultimately show ?thesis unfolding if_not_P[OF nn] by (simp only: mult.assoc add_0_right)
  next
    case False
    have nn: "sint (push_bit 1 x) < 0" using False sint_nonneg_double[OF x31] by simp
    have "correct_result rm fl s ((A * 2 ^ j + B) * 2 ^ nat (int E)) (2 ^ j * 2 ^ (7 + nat (- int E)))
        (roundAndPackFloat32 rm fl s (int E) x)"
      using E False x31 st by (intro roundAndPack_correct[OF rm, of 1]) simp_all
    moreover have "nat (- int E) = 0" by simp
    ultimately show ?thesis unfolding if_P[OF nn] by (simp only: nat_int add_0_right)
  qed
qed

text \<open>The exact sum in units of the smaller operand.\<close>

lemma add_units:
  fixes m n :: nat
  assumes "j \<le> e"
  shows "(m * 2 ^ 6 * 2 ^ j + n * 2 ^ 6) * 2 ^ (e + 1) * 1 = (m * 2 ^ e + n * 2 ^ (e - j)) * (2 ^ j * 2 ^ 7)"
proof -
  have "(2 :: nat) ^ e = 2 ^ (e - j) * 2 ^ j" using assms by (simp flip: power_add)
  then show ?thesis by (simp add: algebra_simps)
qed

lemma exact_small:
  assumes "m < 2 ^ 24"
  shows "correct_result rm fl s m 1 (packFloat32 s 0 (word_of_nat m), fl)"
proof -
  have q: "quantum m 1 = 0" using assms by (intro quantum_eqI) simp_all
  have c: "correctly_rounded rm s m 1 = m" unfolding correctly_rounded_def q Let_def by (simp add: rounded_exact)
  have "m < 2 ^ 23 \<and> 0 = (0 :: nat) \<or> 2 ^ 23 \<le> m \<and> m \<le> 2 ^ 24" "0 * 2 ^ 23 + m < 255 * 2 ^ 23" using assms by auto
  note p = magnitude_pack[OF this, of s]
  have "(2 :: nat) ^ 24 \<le> 2 ^ 24 * 2 ^ 253" by simp
  then have no: "\<not> overflows m" using assms unfolding overflows_def by linarith
  then show ?thesis using p by (simp only: correct_result_def rounds_to_def rounding_flags_def c fst_conv snd_conv Let_def of_nat_0) simp
qed

lemma exponent_cases:
  assumes "finite32 a"
  obtains "extractFloat32Exp a = 0" "exponent a = 0"
  | "extractFloat32Exp a = int (exponent a + 1)" "exponent a < 254" "extractFloat32Exp a \<noteq> 0"
proof (cases "extractFloat32Exp a = 0")
  case True
  then show ?thesis by (intro that(1)) (simp_all add: exponent_def)
next
  case False
  define x where "x = nat (extractFloat32Exp a)"
  have x: "extractFloat32Exp a = int x" "x < 256" unfolding x_def exp_unat by simp_all
  then have "0 < x" "x < 255" using False assms by (auto simp: finite32_def)
  then show ?thesis using x by (intro that(2)) (simp_all add: exponent_def)
qed

lemma add_mags:
  assumes rm: "rm \<le> 3" and a: "finite32 a" and b: "finite32 b"
  shows "correct_result rm fl s (magnitude a + magnitude b) 1 (addFloat32Sigs rm fl a b s)"
proof -
  note fin = a[unfolded finite32_def] b[unfolded finite32_def]
  have sig: "significand x * 2 ^ 6 < 2 ^ 30" "2 ^ 1 dvd significand x * 2 ^ 6" for x
    using significand_bounds(1)[of x] by simp_all
  let ?A = "push_bit 6 (extractFloat32Frac a)" and ?B = "push_bit 6 (extractFloat32Frac b)"
  consider "extractFloat32Exp b < extractFloat32Exp a" | "extractFloat32Exp a < extractFloat32Exp b" | "extractFloat32Exp a = extractFloat32Exp b"
    by linarith
  then show ?thesis
  proof cases
    case 1
    have na: "extractFloat32Exp a \<noteq> 0" using 1 by (simp add: exp_unat)
    define j where "j = exponent a - exponent b"
    define w where "w = (if extractFloat32Exp b = 0 then ?B else ?B OR 0x20000000)"
    define x where "x = (?A OR 0x20000000) + shift32RightJamming w (int j)"
    have ea: "extractFloat32Exp a = int (exponent a + 1)" "exponent a < 254" using a na by (auto elim: exponent_cases)
    have j: "j \<le> exponent a" "exponent b = exponent a - j"
      "(if extractFloat32Exp b = 0 then extractFloat32Exp a - extractFloat32Exp b - 1 else extractFloat32Exp a - extractFloat32Exp b) = int j"
      using 1 ea(1) b by (auto simp: j_def elim: exponent_cases)
    have uw: "unat w = significand b * 2 ^ 6"
      using shifted_significand[of 6 b] unfolding w_def hidden_bits by (auto split: if_split)
    have uA: "unat (?A OR 0x20000000) = significand a * 2 ^ 6"
      using shifted_significand(2)[of 6 a] na unfolding hidden_bits by simp
    have "jam (significand b * 2 ^ 6) j < 2 * 2 ^ 29"
      using jam_less[of j "significand b * 2 ^ 6" "2 ^ 29"] sig(1)[of b] by (cases "j = 0") (simp_all add: jam_def)
    then have ux: "unat x = significand a * 2 ^ 6 + jam (significand b * 2 ^ 6) j"
      unfolding x_def using sig(1)[of a] by (subst unat_plus) (simp_all only: uA unat_shift32 uw, simp_all)
    have d: "(0 < extractFloat32Exp a - extractFloat32Exp b) = True" using 1 by simp
    have "addFloat32Sigs rm fl a b s =
        (if sint (push_bit 1 x) < 0 then roundAndPackFloat32 rm fl s (extractFloat32Exp a) x
         else roundAndPackFloat32 rm fl s (extractFloat32Exp a - 1) (push_bit 1 x))"
    proof (cases "extractFloat32Exp b = 0")
      case True
      note t = eqTrueI[OF True]
      have jj: "extractFloat32Exp a - extractFloat32Exp b - 1 = int j" using j(3) by (simp only: t if_True)
      show ?thesis
        unfolding addFloat32Sigs_def Let_def x_def w_def by (simp only: d t fin jj if_True if_False prod.case simp_thms)
    next
      case False
      have jj: "extractFloat32Exp a - extractFloat32Exp b = int j" using j(3) by (simp only: False if_False)
      have d': "(0 < int j) = True" using d by (simp only: jj)
      show ?thesis
        unfolding addFloat32Sigs_def Let_def x_def w_def by (simp only: jj d' False fin if_True if_False prod.case simp_thms)
    qed
    moreover have "correct_result rm fl s ((significand a * 2 ^ 6 * 2 ^ j + significand b * 2 ^ 6) * 2 ^ (exponent a + 1)) (2 ^ j * 2 ^ 7)
        (if sint (push_bit 1 x) < 0 then roundAndPackFloat32 rm fl s (int (exponent a + 1)) x
         else roundAndPackFloat32 rm fl s (int (exponent a + 1) - 1) (push_bit 1 x))"
      by (rule add_step[OF rm _ sig(1) sig(2) sig(1) ux]) (use significand_bounds(2)[OF na] ea(2) in simp_all)
    ultimately have "correct_result rm fl s ((significand a * 2 ^ 6 * 2 ^ j + significand b * 2 ^ 6) * 2 ^ (exponent a + 1)) (2 ^ j * 2 ^ 7)
        (addFloat32Sigs rm fl a b s)"
      by (simp only: ea(1))
    then show ?thesis
      unfolding magnitude_def j(2) using add_units[OF j(1)] by (rule correct_result_transfer) simp_all
  next
    case 2
    have nb: "extractFloat32Exp b \<noteq> 0" using 2 by (simp add: exp_unat)
    define j where "j = exponent b - exponent a"
    define w where "w = (if extractFloat32Exp a = 0 then ?A else ?A OR 0x20000000)"
    define x where "x = (shift32RightJamming w (int j) OR 0x20000000) + ?B"
    have eb: "extractFloat32Exp b = int (exponent b + 1)" "exponent b < 254" using b nb by (auto elim: exponent_cases)
    have j: "j \<le> exponent b" "exponent a = exponent b - j"
      "(if extractFloat32Exp a = 0 then extractFloat32Exp a - extractFloat32Exp b + 1 else extractFloat32Exp a - extractFloat32Exp b) = - int j"
      using 2 eb(1) a by (auto simp: j_def elim: exponent_cases)
    have uw: "unat w = significand a * 2 ^ 6"
      using shifted_significand[of 6 a] unfolding w_def hidden_bits by (auto split: if_split)
    have jam29: "jam (significand a * 2 ^ 6) j < 2 ^ 29"
    proof (cases "j = 0")
      case True
      then have "extractFloat32Exp a = 0" using 2 a eb(1) by (auto simp: j_def elim: exponent_cases)
      then show ?thesis using True significand_bounds(3)[of a] by (simp add: jam_def)
    next
      case False
      then show ?thesis using jam_half_bound[of j "significand a * 2 ^ 6" "2 ^ 28"] sig(1)[of a] by simp
    qed
    have "unat (shift32RightJamming w (int j) OR push_bit 29 1) = jam (significand a * 2 ^ 6) j + 2 ^ 29"
      using jam29 by (subst unat_or_pow) (simp_all only: unat_shift32 uw, simp)
    moreover have "unat ?B + 2 ^ 29 = significand b * 2 ^ 6"
      using unat_shifted_frac[of 6 b] nb by (simp add: significand_def)
    ultimately have ux: "unat x = significand b * 2 ^ 6 + jam (significand a * 2 ^ 6) j"
      unfolding x_def hidden_bits(2) using sig(1)[of b] jam29 by (subst unat_plus) (simp_all del: push_bit_of_1)
    have d: "(0 < extractFloat32Exp a - extractFloat32Exp b) = False" "(extractFloat32Exp a - extractFloat32Exp b < 0) = True" using 2 by simp_all
    have "addFloat32Sigs rm fl a b s =
        (if sint (push_bit 1 x) < 0 then roundAndPackFloat32 rm fl s (extractFloat32Exp b) x
         else roundAndPackFloat32 rm fl s (extractFloat32Exp b - 1) (push_bit 1 x))"
    proof (cases "extractFloat32Exp a = 0")
      case True
      note t = eqTrueI[OF True]
      have jj: "extractFloat32Exp a - extractFloat32Exp b + 1 = - int j" using j(3) by (simp only: t if_True)
      show ?thesis
        unfolding addFloat32Sigs_def Let_def x_def w_def by (simp only: d t fin jj minus_minus if_True if_False prod.case simp_thms)
    next
      case False
      have jj: "extractFloat32Exp a - extractFloat32Exp b = - int j" using j(3) by (simp only: False if_False)
      have d': "(0 < - int j) = False" "(- int j < 0) = True" using d by (simp_all only: jj)
      show ?thesis
        unfolding addFloat32Sigs_def Let_def x_def w_def by (simp only: jj d' minus_minus False fin if_True if_False prod.case simp_thms)
    qed
    moreover have "correct_result rm fl s ((significand b * 2 ^ 6 * 2 ^ j + significand a * 2 ^ 6) * 2 ^ (exponent b + 1)) (2 ^ j * 2 ^ 7)
        (if sint (push_bit 1 x) < 0 then roundAndPackFloat32 rm fl s (int (exponent b + 1)) x
         else roundAndPackFloat32 rm fl s (int (exponent b + 1) - 1) (push_bit 1 x))"
      by (rule add_step[OF rm _ sig(1) sig(2) sig(1) ux]) (use significand_bounds(2)[OF nb] eb(2) in simp_all)
    ultimately have "correct_result rm fl s ((significand b * 2 ^ 6 * 2 ^ j + significand a * 2 ^ 6) * 2 ^ (exponent b + 1)) (2 ^ j * 2 ^ 7)
        (addFloat32Sigs rm fl a b s)"
      by (simp only: eb(1))
    then show ?thesis
      unfolding magnitude_def j(2) add.commute[of "significand a * _"] using add_units[OF j(1)]
      by (rule correct_result_transfer) simp_all
  next
    case 3
    have d: "(0 < extractFloat32Exp a - extractFloat32Exp b) = False" "(extractFloat32Exp a - extractFloat32Exp b < 0) = False" using 3 by simp_all
    have same: "exponent b = exponent a" using 3 by (simp add: exponent_def)
    have frac: "unat (extractFloat32Frac v) < 2 ^ 23" "unat (push_bit 6 (extractFloat32Frac v)) = unat (extractFloat32Frac v) * 2 ^ 6" for v
      by (simp add: unat_frac, rule unat_shifted_frac, simp)
    show ?thesis
    proof (cases "extractFloat32Exp a = 0")
      case True
      note t = eqTrueI[OF True]
      have m: "magnitude v = unat (extractFloat32Frac v)" if "extractFloat32Exp v = 0" for v
        using that by (simp add: magnitude_def significand_def exponent_def)
      have "unat (?A + ?B) = (unat (extractFloat32Frac a) + unat (extractFloat32Frac b)) * 2 ^ 6"
        using frac(1)[of a] frac(1)[of b] by (subst unat_plus) (simp_all only: frac(2), simp_all)
      then have "unat (drop_bit 6 (?A + ?B)) = magnitude a + magnitude b"
        using 3 True by (simp add: unat_drop m)
      moreover have "drop_bit 6 (?A + ?B) = word_of_nat (unat (drop_bit 6 (?A + ?B)))" by (rule unsigned_word_eqI) simp
      ultimately have "drop_bit 6 (?A + ?B) = word_of_nat (magnitude a + magnitude b)" by (simp only:)
      then have "addFloat32Sigs rm fl a b s = (packFloat32 s 0 (word_of_nat (magnitude a + magnitude b)), fl)"
        unfolding addFloat32Sigs_def Let_def by (simp only: d t fin if_True if_False simp_thms)
      moreover have "magnitude a + magnitude b < 2 ^ 24" using 3 True frac(1)[of a] frac(1)[of b] by (simp add: m)
      ultimately show ?thesis using exact_small[of "magnitude a + magnitude b"] by (simp only:)
    next
      case False
      define z where "z = 0x40000000 + ?A + ?B"
      have ea: "extractFloat32Exp a = int (exponent a + 1)" "exponent a < 254" using a False by (auto elim: exponent_cases)
      have "unat (0x40000000 + ?A) = 0x40000000 + unat (extractFloat32Frac a) * 2 ^ 6"
        using frac(1)[of a] by (subst unat_plus) (simp_all only: frac(2), simp_all)
      then have uz: "unat z = 0x40000000 + unat (extractFloat32Frac a) * 2 ^ 6 + unat (extractFloat32Frac b) * 2 ^ 6"
        unfolding z_def using frac(1)[of a] frac(1)[of b] by (subst unat_plus) (simp_all only: frac(2), simp_all)
      then have z: "2 ^ 30 \<le> unat z" "unat z < 2 ^ 31" "unat z = (significand a + significand b) * 2 ^ 6"
        using frac(1)[of a] frac(1)[of b] False 3 by (simp_all add: significand_def)
      have "addFloat32Sigs rm fl a b s = roundAndPackFloat32 rm fl s (extractFloat32Exp a) z"
        unfolding addFloat32Sigs_def Let_def z_def by (simp only: d False fin if_True if_False simp_thms)
      moreover have "sticky 1 (unat z) (unat z) 1" by (simp add: sticky_def)
      note roundAndPack_correct[OF rm this _ _ _ z(2), of "extractFloat32Exp a" fl s]
      then have "correct_result rm fl s (unat z * 2 ^ nat (extractFloat32Exp a)) (1 * 2 ^ (7 + nat (- extractFloat32Exp a)))
          (roundAndPackFloat32 rm fl s (extractFloat32Exp a) z)"
        using z(1) ea by simp
      moreover have "nat (extractFloat32Exp a) = exponent a + 1" "nat (- extractFloat32Exp a) = 0" using ea(1) by simp_all
      ultimately have "correct_result rm fl s (unat z * 2 ^ (exponent a + 1)) (2 ^ 7) (addFloat32Sigs rm fl a b s)"
        by (simp only: add_0_right mult_1)
      then show ?thesis
        by (rule correct_result_transfer) (simp_all add: magnitude_def same z(3) algebra_simps)
    qed
  qed
qed

section \<open>Subtraction of magnitudes\<close>

lemma sub_step:
  assumes rm: "rm \<le> 3" and A: "2 ^ 30 \<le> A" "A < 2 ^ 31" "2 ^ 7 dvd A" and B: "B < 2 ^ 31" "2 ^ 7 dvd B"
    and less: "j = 0 \<Longrightarrow> B < A" and z: "unat z = A - jam B j" and E: "E \<le> 254"
  shows "B < A * 2 ^ j" and "jam B j < A"
    and "correct_result rm fl s ((A * 2 ^ j - B) * 2 ^ E) (2 ^ j * 2 ^ 7) (normalizeRoundAndPackFloat32 rm fl s (int E) z)"
proof -
  show jam: "jam B j < A"
  proof (cases "j = 0")
    case True
    then show ?thesis using less by (simp add: jam_def)
  next
    case False
    then show ?thesis using jam_half_bound[of j B "2 ^ 29"] B(1) A(1) by simp
  qed
  show lt: "B < A * 2 ^ j"
  proof (cases "j = 0")
    case True
    then show ?thesis using less by simp
  next
    case False
    have "(2 :: nat) ^ 1 \<le> 2 ^ j" using False by (intro power_increasing) simp_all
    then have "A * 2 ^ 1 \<le> A * 2 ^ j" by (rule mult_le_mono2)
    moreover have "B < A * 2 ^ 1" using A(1) B(1) by simp
    ultimately show ?thesis by (rule less_le_trans[rotated])
  qed
  have z0: "z \<noteq> 0" using jam z by (auto simp: unat_eq_0[symmetric])
  have "\<exists>k. 0 < k \<and> k < 7 \<and> sticky k (unat z * 2 ^ c) ((A * 2 ^ j - B) * 2 ^ c) (2 ^ j)"
    if c: "2 ^ 30 \<le> unat z * 2 ^ c" "unat z * 2 ^ c < 2 ^ 31" for c
  proof (cases "j \<le> 7")
    case True
    then have "2 ^ j dvd B" using B(2) dvd_trans[OF le_imp_power_dvd[of j 7 "2 :: nat"]] by blast
    then have "unat z * 2 ^ j = A * 2 ^ j - B" by (simp add: z jam_exact diff_mult_distrib)
    then have "unat z * 2 ^ c * 2 ^ j = (A * 2 ^ j - B) * 2 ^ c" by (simp add: mult.assoc mult.commute[of "2 ^ c"] flip: mult.assoc)
    then show ?thesis by (intro exI[of _ 1] conjI sticky_exact) simp_all
  next
    case False
    then have "(2 :: nat) ^ 8 \<le> 2 ^ j" by (intro power_increasing) simp_all
    then have "B div 2 ^ j \<le> B div 2 ^ 8" by (intro div_le_mono2) simp_all
    also have "\<dots> < 2 ^ 23" using B(1) by (intro less_mult_imp_div_less) simp
    finally have "jam B j \<le> 2 ^ 23" by (simp add: jam_def)
    then have "2 ^ 29 \<le> unat z" using A(1) z by simp
    then have "2 ^ 29 * 2 ^ c \<le> unat z * 2 ^ c" by simp
    then have "(2 :: nat) ^ (29 + c) < 2 ^ 31" using c(2) by (simp only: power_add)
    then have "c < 2" by (subst (asm) power_strict_increasing_iff) simp_all
    have "2 ^ 1 dvd A" using A(3) by (rule dvd_trans[rotated]) simp
    then have "sticky 1 (unat z) (A * 2 ^ j - B) (2 ^ j)"
      unfolding z by (rule sticky_sub[OF sticky_jam_self]) (use \<open>2 ^ 1 dvd A\<close> jam lt in simp_all)
    then have "sticky (1 + c) (unat z * 2 ^ c) ((A * 2 ^ j - B) * 2 ^ c) (2 ^ j)" by (rule sticky_double)
    then show ?thesis using \<open>c < 2\<close> by (intro exI[of _ "1 + c"]) simp
  qed
  moreover have "unat z < 2 ^ 31" using A(2) z by simp
  ultimately have "correct_result rm fl s ((A * 2 ^ j - B) * 2 ^ nat (int E)) (2 ^ j * 2 ^ (7 + nat (- int E))) (normalizeRoundAndPackFloat32 rm fl s (int E) z)"
    using E z0 by (intro normalizeRoundAndPack_correct[OF rm]) simp_all
  moreover have "nat (- int E) = 0" by simp
  ultimately show "correct_result rm fl s ((A * 2 ^ j - B) * 2 ^ E) (2 ^ j * 2 ^ 7) (normalizeRoundAndPackFloat32 rm fl s (int E) z)"
    by (simp only: nat_int add_0_right)
qed

lemma sub_units:
  fixes m n :: nat
  assumes "j \<le> e"
  shows "(m * 2 ^ 7 * 2 ^ j - n * 2 ^ 7) * 2 ^ e * 1 = (m * 2 ^ e - n * 2 ^ (e - j)) * (2 ^ j * 2 ^ 7)"
    and "n * 2 ^ 7 < m * 2 ^ 7 * 2 ^ j \<Longrightarrow> n * 2 ^ (e - j) < m * 2 ^ e"
proof -
  have p: "(2 :: nat) ^ e = 2 ^ (e - j) * 2 ^ j" using assms by (simp flip: power_add)
  show "(m * 2 ^ 7 * 2 ^ j - n * 2 ^ 7) * 2 ^ e * 1 = (m * 2 ^ e - n * 2 ^ (e - j)) * (2 ^ j * 2 ^ 7)"
    unfolding p by (simp add: diff_mult_distrib diff_mult_distrib2 ac_simps)
  show "n * 2 ^ 7 < m * 2 ^ 7 * 2 ^ j \<Longrightarrow> n * 2 ^ (e - j) < m * 2 ^ e"
    unfolding p by (simp add: mult.left_commute[of m])
qed

text \<open>The difference with the sign of its first operand; a zero difference has the sign of the rounding mode.\<close>

definition diff_result :: "u32 \<Rightarrow> u32 \<Rightarrow> bool \<Rightarrow> nat \<Rightarrow> nat \<Rightarrow> u32 \<times> u32 \<Rightarrow> bool" where
  "diff_result rm fl s m n res =
     correct_result rm fl (if m = n then rm = float_round_down else if n < m then s else \<not> s) ((m - n) + (n - m)) 1 res"

lemma diff_resultI:
  "n < m \<Longrightarrow> correct_result rm fl s (m - n) 1 res \<Longrightarrow> diff_result rm fl s m n res"
  "m < n \<Longrightarrow> correct_result rm fl (\<not> s) (n - m) 1 res \<Longrightarrow> diff_result rm fl s m n res"
  by (simp_all add: diff_result_def)

lemma sub_mags:
  assumes rm: "rm \<le> 3" and a: "finite32 a" and b: "finite32 b"
  shows "diff_result rm fl s (magnitude a) (magnitude b) (subFloat32Sigs rm fl a b s)"
proof -
  note fin = a[unfolded finite32_def] b[unfolded finite32_def]
  have sig: "significand x * 2 ^ 7 < 2 ^ 31" "2 ^ 7 dvd significand x * 2 ^ 7" for x
    using significand_bounds(1)[of x] by simp_all
  let ?A = "push_bit 7 (extractFloat32Frac a)" and ?B = "push_bit 7 (extractFloat32Frac b)"
  consider "extractFloat32Exp b < extractFloat32Exp a" | "extractFloat32Exp a < extractFloat32Exp b" | "extractFloat32Exp a = extractFloat32Exp b"
    by linarith
  then show ?thesis
  proof cases
    case 1
    have na: "extractFloat32Exp a \<noteq> 0" using 1 by (simp add: exp_unat)
    define j where "j = exponent a - exponent b"
    define w where "w = (if extractFloat32Exp b = 0 then ?B else ?B OR 0x40000000)"
    define z where "z = (?A OR 0x40000000) - shift32RightJamming w (int j)"
    have ea: "extractFloat32Exp a = int (exponent a + 1)" "exponent a < 254" using a na by (auto elim: exponent_cases)
    have j: "j \<le> exponent a" "exponent b = exponent a - j"
      "(if extractFloat32Exp b = 0 then extractFloat32Exp a - extractFloat32Exp b - 1 else extractFloat32Exp a - extractFloat32Exp b) = int j"
      using 1 ea(1) b by (auto simp: j_def elim: exponent_cases)
    have uw: "unat w = significand b * 2 ^ 7"
      using shifted_significand[of 7 b] unfolding w_def hidden_bits by (auto split: if_split)
    have uA: "unat (?A OR 0x40000000) = significand a * 2 ^ 7"
      using shifted_significand(2)[of 7 a] na unfolding hidden_bits by simp
    have A: "2 ^ 30 \<le> significand a * 2 ^ 7" using significand_bounds(2)[OF na] by simp
    have less: "significand b * 2 ^ 7 < significand a * 2 ^ 7" if "j = 0"
    proof -
      have "extractFloat32Exp b = 0" using that 1 b ea(1) by (auto simp: j_def elim: exponent_cases)
      then show ?thesis using significand_bounds(2)[OF na] significand_bounds(3)[of b] by simp
    qed
    have ej: "exponent a \<le> 254" using ea(2) by simp
    note step = sub_step[OF rm A sig(1) sig(2) sig(1) sig(2) less _ ej]
    have "jam (significand b * 2 ^ 7) j < significand a * 2 ^ 7"
      by (rule step(2)[of _ "word_of_nat (significand a * 2 ^ 7 - jam (significand b * 2 ^ 7) j)"])
        (use sig(1)[of a] in \<open>simp_all add: unat_of_nat\<close>)
    then have uz: "unat z = significand a * 2 ^ 7 - jam (significand b * 2 ^ 7) j"
      unfolding z_def by (subst unat_sub) (simp_all only: word_le_nat_alt uA unat_shift32 uw)
    have d: "(0 < extractFloat32Exp a - extractFloat32Exp b) = True" using 1 by simp
    have "subFloat32Sigs rm fl a b s = normalizeRoundAndPackFloat32 rm fl s (extractFloat32Exp a - 1) z"
    proof (cases "extractFloat32Exp b = 0")
      case True
      note t = eqTrueI[OF True]
      have jj: "extractFloat32Exp a - extractFloat32Exp b - 1 = int j" using j(3) by (simp only: t if_True)
      show ?thesis
        unfolding subFloat32Sigs_def Let_def z_def w_def by (simp only: d t fin jj if_True if_False prod.case simp_thms)
    next
      case False
      have jj: "extractFloat32Exp a - extractFloat32Exp b = int j" using j(3) by (simp only: False if_False)
      have d': "(0 < int j) = True" using d by (simp only: jj)
      show ?thesis
        unfolding subFloat32Sigs_def Let_def z_def w_def by (simp only: jj d' False fin if_True if_False prod.case simp_thms)
    qed
    moreover have "extractFloat32Exp a - 1 = int (exponent a)" using ea(1) by simp
    ultimately have "correct_result rm fl s ((significand a * 2 ^ 7 * 2 ^ j - significand b * 2 ^ 7) * 2 ^ exponent a) (2 ^ j * 2 ^ 7)
        (subFloat32Sigs rm fl a b s)"
      using step(3)[OF _ uz] by (simp only:)
    then have "correct_result rm fl s (magnitude a - magnitude b) 1 (subFloat32Sigs rm fl a b s)"
      unfolding magnitude_def j(2) using sub_units(1)[OF j(1)] by (rule correct_result_transfer) simp_all
    moreover have "magnitude b < magnitude a"
      unfolding magnitude_def j(2) by (rule sub_units(2)[OF j(1) step(1)[OF _ uz]])
    ultimately show ?thesis by (intro diff_resultI(1))
  next
    case 2
    have nb: "extractFloat32Exp b \<noteq> 0" using 2 by (simp add: exp_unat)
    define j where "j = exponent b - exponent a"
    define w where "w = (if extractFloat32Exp a = 0 then ?A else ?A OR 0x40000000)"
    define z where "z = (?B OR 0x40000000) - shift32RightJamming w (int j)"
    have eb: "extractFloat32Exp b = int (exponent b + 1)" "exponent b < 254" using b nb by (auto elim: exponent_cases)
    have j: "j \<le> exponent b" "exponent a = exponent b - j"
      "(if extractFloat32Exp a = 0 then extractFloat32Exp a - extractFloat32Exp b + 1 else extractFloat32Exp a - extractFloat32Exp b) = - int j"
      using 2 eb(1) a by (auto simp: j_def elim: exponent_cases)
    have uw: "unat w = significand a * 2 ^ 7"
      using shifted_significand[of 7 a] unfolding w_def hidden_bits by (auto split: if_split)
    have uB: "unat (?B OR 0x40000000) = significand b * 2 ^ 7"
      using shifted_significand(2)[of 7 b] nb unfolding hidden_bits by simp
    have B: "2 ^ 30 \<le> significand b * 2 ^ 7" using significand_bounds(2)[OF nb] by simp
    have less: "significand a * 2 ^ 7 < significand b * 2 ^ 7" if "j = 0"
    proof -
      have "extractFloat32Exp a = 0" using that 2 a eb(1) by (auto simp: j_def elim: exponent_cases)
      then show ?thesis using significand_bounds(2)[OF nb] significand_bounds(3)[of a] by simp
    qed
    have ej: "exponent b \<le> 254" using eb(2) by simp
    note step = sub_step[OF rm B sig(1) sig(2) sig(1) sig(2) less _ ej]
    have "jam (significand a * 2 ^ 7) j < significand b * 2 ^ 7"
      by (rule step(2)[of _ "word_of_nat (significand b * 2 ^ 7 - jam (significand a * 2 ^ 7) j)"])
        (use sig(1)[of b] in \<open>simp_all add: unat_of_nat\<close>)
    then have uz: "unat z = significand b * 2 ^ 7 - jam (significand a * 2 ^ 7) j"
      unfolding z_def by (subst unat_sub) (simp_all only: word_le_nat_alt uB unat_shift32 uw)
    have d: "(0 < extractFloat32Exp a - extractFloat32Exp b) = False" "(extractFloat32Exp a - extractFloat32Exp b < 0) = True" using 2 by simp_all
    have "subFloat32Sigs rm fl a b s = normalizeRoundAndPackFloat32 rm fl (\<not> s) (extractFloat32Exp b - 1) z"
    proof (cases "extractFloat32Exp a = 0")
      case True
      note t = eqTrueI[OF True]
      have jj: "extractFloat32Exp a - extractFloat32Exp b + 1 = - int j" using j(3) by (simp only: t if_True)
      show ?thesis
        unfolding subFloat32Sigs_def Let_def z_def w_def by (simp only: d t fin jj minus_minus if_True if_False prod.case simp_thms)
    next
      case False
      have jj: "extractFloat32Exp a - extractFloat32Exp b = - int j" using j(3) by (simp only: False if_False)
      have d': "(0 < - int j) = False" "(- int j < 0) = True" using d by (simp_all only: jj)
      show ?thesis
        unfolding subFloat32Sigs_def Let_def z_def w_def by (simp only: jj d' minus_minus False fin if_True if_False prod.case simp_thms)
    qed
    moreover have "extractFloat32Exp b - 1 = int (exponent b)" using eb(1) by simp
    ultimately have "correct_result rm fl (\<not> s) ((significand b * 2 ^ 7 * 2 ^ j - significand a * 2 ^ 7) * 2 ^ exponent b) (2 ^ j * 2 ^ 7)
        (subFloat32Sigs rm fl a b s)"
      using step(3)[OF _ uz] by (simp only:)
    then have "correct_result rm fl (\<not> s) (magnitude b - magnitude a) 1 (subFloat32Sigs rm fl a b s)"
      unfolding magnitude_def j(2) using sub_units(1)[OF j(1)] by (rule correct_result_transfer) simp_all
    moreover have "magnitude a < magnitude b"
      unfolding magnitude_def j(2) by (rule sub_units(2)[OF j(1) step(1)[OF _ uz]])
    ultimately show ?thesis by (intro diff_resultI(2))
  next
    case 3
    have d: "(0 < extractFloat32Exp a - extractFloat32Exp b) = False" "(extractFloat32Exp a - extractFloat32Exp b < 0) = False" using 3 by simp_all
    have same: "exponent b = exponent a" using 3 by (simp add: exponent_def)
    have frac: "unat (push_bit 7 (extractFloat32Frac v)) = unat (extractFloat32Frac v) * 2 ^ 7" "unat (extractFloat32Frac v) < 2 ^ 23" for v
      by (rule unat_shifted_frac, simp_all add: unat_frac)
    have mags: "magnitude v - magnitude w = (unat (extractFloat32Frac v) - unat (extractFloat32Frac w)) * 2 ^ exponent a"
      "magnitude w < magnitude v \<longleftrightarrow> unat (extractFloat32Frac w) < unat (extractFloat32Frac v)"
      if "extractFloat32Exp v = extractFloat32Exp a" "extractFloat32Exp w = extractFloat32Exp a" for v w
      using that by (simp_all add: magnitude_def significand_def exponent_def flip: diff_mult_distrib)
    have cmp: "push_bit 7 (extractFloat32Frac v) < push_bit 7 (extractFloat32Frac w) \<longleftrightarrow> unat (extractFloat32Frac v) < unat (extractFloat32Frac w)" for v w
      by (simp only: word_less_nat_alt frac(1) mult_less_cancel2) simp
    have e: "exponent a \<le> 254" using exponent_bound[OF a] by simp
    let ?E = "if extractFloat32Exp a = 0 then 1 else extractFloat32Exp a"
    have E: "?E - 1 = int (exponent a)" using a by (auto elim: exponent_cases)
    have norm: "correct_result rm fl t (magnitude v - magnitude w) 1
        (normalizeRoundAndPackFloat32 rm fl t (int (exponent a)) (push_bit 7 (extractFloat32Frac v) - push_bit 7 (extractFloat32Frac w)))"
      if v: "extractFloat32Exp v = extractFloat32Exp a" "extractFloat32Exp w = extractFloat32Exp a"
        and lt: "unat (extractFloat32Frac w) < unat (extractFloat32Frac v)" for t v w
    proof -
      let ?z = "push_bit 7 (extractFloat32Frac v) - push_bit 7 (extractFloat32Frac w)"
      let ?n = "unat (extractFloat32Frac v) - unat (extractFloat32Frac w)"
      have uz: "unat ?z = ?n * 2 ^ 7"
        using lt by (subst unat_sub) (simp_all add: word_le_nat_alt frac(1) diff_mult_distrib)
      have "?n < 2 ^ 23" using frac(2)[of v] by linarith
      then have z: "unat ?z < 2 ^ 31" unfolding uz by simp
      have z0: "?z \<noteq> 0" using lt uz by (auto simp: unat_eq_0[symmetric])
      have st: "\<exists>k. 0 < k \<and> k < 7 \<and> sticky k (unat ?z * 2 ^ c) (unat ?z * 2 ^ c) 1" for c
        by (intro exI[of _ 1]) (simp add: sticky_def)
      have "correct_result rm fl t (unat ?z * 2 ^ nat (int (exponent a))) (1 * 2 ^ (7 + nat (- int (exponent a))))
          (normalizeRoundAndPackFloat32 rm fl t (int (exponent a)) ?z)"
        by (rule normalizeRoundAndPack_correct[OF rm z0 z _ st]) (use e in simp_all)
      moreover have "nat (- int (exponent a)) = 0" by simp
      ultimately have "correct_result rm fl t (unat ?z * 2 ^ exponent a) (1 * 2 ^ 7)
          (normalizeRoundAndPackFloat32 rm fl t (int (exponent a)) ?z)"
        by (simp only: nat_int add_0_right)
      then show ?thesis unfolding uz mags(1)[OF v] by (rule correct_result_transfer) simp_all
    qed
    have step: "subFloat32Sigs rm fl a b s =
        (if ?B < ?A then normalizeRoundAndPackFloat32 rm fl s (?E - 1) (?A - ?B)
         else if ?A < ?B then normalizeRoundAndPackFloat32 rm fl (\<not> s) (?E - 1) (?B - ?A)
         else (packFloat32 (rm = float_round_down) 0 0, fl))"
    proof (cases "extractFloat32Exp a = 0")
      case True
      note t = eqTrueI[OF True]
      show ?thesis unfolding subFloat32Sigs_def Let_def by (simp only: d t fin if_True if_False prod.case simp_thms)
    next
      case False
      show ?thesis
        unfolding subFloat32Sigs_def Let_def
        by (simp only: d False fin if_True if_False prod.case simp_thms) (simp only: 3)
    qed
    consider "?B < ?A" | "?A < ?B" | "\<not> ?B < ?A" "\<not> ?A < ?B" by blast
    then show ?thesis
    proof cases
      case 1
      then have lt: "unat (extractFloat32Frac b) < unat (extractFloat32Frac a)" by (simp only: cmp)
      show ?thesis
        using norm[OF refl 3[symmetric] lt, of s] mags(2)[OF refl 3[symmetric]] lt
        unfolding step if_P[OF 1] E by (intro diff_resultI(1)) simp_all
    next
      case 2
      then have lt: "unat (extractFloat32Frac a) < unat (extractFloat32Frac b)" by (simp only: cmp)
      then have n: "\<not> ?B < ?A" by (simp only: cmp)
      show ?thesis
        using norm[OF 3[symmetric] refl lt, of "\<not> s"] mags(2)[OF 3[symmetric] refl] lt
        unfolding step if_not_P[OF n] if_P[OF 2] E by (intro diff_resultI(2)) simp_all
    next
      case 4: 3
      then have "unat (extractFloat32Frac a) = unat (extractFloat32Frac b)" by (simp only: cmp)
      then have m: "magnitude a = magnitude b" using 3 same by (simp add: magnitude_def significand_def)
      show ?thesis
        unfolding step if_not_P[OF 4(1)] if_not_P[OF 4(2)] diff_result_def m using correct_zero[of 1 rm fl "rm = float_round_down"] by simp
    qed
  qed
qed

section \<open>The sum and the difference of two numbers\<close>

text \<open>
  What IEEE arithmetic requires of a sum \<open>v\<close>, in units of \<open>2 ^ -149\<close>: rounded correctly, and a zero with the sign
  \<open>zero_sign\<close>.
\<close>

definition signed_result :: "u32 \<Rightarrow> u32 \<Rightarrow> bool \<Rightarrow> int \<Rightarrow> u32 \<times> u32 \<Rightarrow> bool" where
  "signed_result rm fl zero_sign v res =
     correct_result rm fl (if v = 0 then zero_sign else v < 0) (nat \<bar>v\<bar>) 1 res"

lemma signed_sum:
  assumes "correct_result rm fl s (m + n) 1 res"
  shows "signed_result rm fl s ((if s then - int m else int m) + (if s then - int n else int n)) res"
proof -
  have "nat \<bar>(if s then - int m else int m) + (if s then - int n else int n)\<bar> = m + n" by auto
  moreover have "(if s then - int m else int m) + (if s then - int n else int n) < 0 \<longleftrightarrow> s \<and> m + n \<noteq> 0"
    "(if s then - int m else int m) + (if s then - int n else int n) = 0 \<longleftrightarrow> m + n = 0" by auto
  ultimately show ?thesis using assms unfolding signed_result_def by (cases "m + n = 0") (simp_all only: simp_thms if_True if_False)
qed

lemma signed_diff:
  assumes "diff_result rm fl s m n res"
  shows "signed_result rm fl (rm = float_round_down) ((if s then - int m else int m) - (if s then - int n else int n)) res"
proof -
  let ?v = "(if s then - int m else int m) - (if s then - int n else int n)"
  have a: "nat \<bar>?v\<bar> = (m - n) + (n - m)" "?v = 0 \<longleftrightarrow> m = n" by auto
  have "m \<noteq> n \<Longrightarrow> ?v < 0 \<longleftrightarrow> (if n < m then s else \<not> s)" by auto
  then show ?thesis using assms unfolding signed_result_def diff_result_def a
    by (cases "m = n") (simp_all only: simp_thms if_True if_False)
qed

lemma float32_add_value:
  assumes "rm \<le> 3" and "finite32 a" and "finite32 b"
  shows "signed_result rm fl (if extractFloat32Sign a = extractFloat32Sign b then extractFloat32Sign a else rm = float_round_down)
      (float_value a + float_value b) (float32_add rm fl a b)"
proof (cases "extractFloat32Sign a = extractFloat32Sign b")
  case True
  then have "float32_add rm fl a b = addFloat32Sigs rm fl a b (extractFloat32Sign a)"
    by (simp add: float32_add_def)
  then show ?thesis
    using signed_sum[OF add_mags[OF assms], of fl "extractFloat32Sign a"] True
    by (simp only: float_value_def simp_thms if_True)
next
  case False
  then have s: "extractFloat32Sign b = (\<not> extractFloat32Sign a)" by blast
  have "float32_add rm fl a b = subFloat32Sigs rm fl a b (extractFloat32Sign a)"
    using False by (simp only: float32_add_def Let_def if_False)
  moreover have "float_value a + float_value b =
      (if extractFloat32Sign a then - int (magnitude a) else int (magnitude a)) - (if extractFloat32Sign a then - int (magnitude b) else int (magnitude b))"
    by (simp add: float_value_def s)
  ultimately show ?thesis
    using signed_diff[OF sub_mags[OF assms], of fl "extractFloat32Sign a"] False by (simp only: if_False)
qed

lemma float32_sub_value:
  assumes "rm \<le> 3" and "finite32 a" and "finite32 b"
  shows "signed_result rm fl (if extractFloat32Sign a \<noteq> extractFloat32Sign b then extractFloat32Sign a else rm = float_round_down)
      (float_value a - float_value b) (float32_sub rm fl a b)"
proof (cases "extractFloat32Sign a = extractFloat32Sign b")
  case True
  then have "float32_sub rm fl a b = subFloat32Sigs rm fl a b (extractFloat32Sign a)"
    by (simp add: float32_sub_def)
  then show ?thesis
    using signed_diff[OF sub_mags[OF assms], of fl "extractFloat32Sign a"] True
    by (simp only: float_value_def simp_thms if_False)
next
  case False
  then have s: "extractFloat32Sign b = (\<not> extractFloat32Sign a)" by blast
  have "float32_sub rm fl a b = addFloat32Sigs rm fl a b (extractFloat32Sign a)"
    using False by (simp only: float32_sub_def Let_def if_False)
  moreover have "float_value a - float_value b =
      (if extractFloat32Sign a then - int (magnitude a) else int (magnitude a)) + (if extractFloat32Sign a then - int (magnitude b) else int (magnitude b))"
    by (simp add: float_value_def s)
  ultimately show ?thesis
    using signed_sum[OF add_mags[OF assms], of fl "extractFloat32Sign a"] False by (simp only: simp_thms if_True)
qed

section \<open>Properties\<close>

text \<open>
  C8: for finite operands, subnormal ones included, in every rounding mode, \<open>float32_add\<close> and \<open>float32_sub\<close> return the
  exact sum or difference correctly rounded, with the flags it requires; a zero sum of operands of different sign is
  positive unless the mode is rounding down.
\<close>

theorem float32_add_sub_rounded:
  assumes "rm \<le> 3" and "finite32 a" and "finite32 b"
  shows "signed_result rm fl (if extractFloat32Sign a = extractFloat32Sign b then extractFloat32Sign a else rm = float_round_down)
      (float_value a + float_value b) (float32_add rm fl a b) \<and>
    signed_result rm fl (if extractFloat32Sign a \<noteq> extractFloat32Sign b then extractFloat32Sign a else rm = float_round_down)
      (float_value a - float_value b) (float32_sub rm fl a b)"
  using float32_add_value[OF assms] float32_sub_value[OF assms] by (rule conjI)

theorem float32_add_sub_rounded_witness:
  "signed_result 0 0 False (float_value 0x3F800000 + float_value 0x33800001) (0x3F800001, 0x20) \<and>
   signed_result 0 0 (0 = float_round_down) (float_value 0x3F800000 - float_value 0x33800001) (0x3F7FFFFF, 0x20)"
proof -
  have "finite32 0x3F800000" "finite32 0x33800001" by code_simp+
  moreover have "float32_add 0 0 0x3F800000 0x33800001 = (0x3F800001, 0x20)" by code_simp
  moreover have "float32_sub 0 0 0x3F800000 0x33800001 = (0x3F7FFFFF, 0x20)" by code_simp
  moreover have "extractFloat32Sign 0x3F800000 = False" "extractFloat32Sign 0x33800001 = False" by code_simp+
  moreover have "(0 :: u32) \<le> 3" by simp
  ultimately show ?thesis
    using float32_add_sub_rounded[of 0 "0x3F800000" "0x33800001" 0] by (simp only: simp_thms if_True if_False)
qed

end
