(* ===== verification/Softfloat_Convert.thy ===== *)
theory Softfloat_Convert
  imports Softfloat_Add
begin

text \<open>
  Conversions of \<open>softfloat.c\<close> between 32 bit integers and single precision numbers: \<open>int32_to_float32\<close> rounds
  correctly, \<open>float32_to_int32\<close> rounds to an integer in the given mode and saturates with the invalid flag.
\<close>

section \<open>From integers\<close>

lemma exact_sticky: "sticky i z z 1"
  by (intro sticky_exact) simp

lemma sint_in_range: "- 2147483648 \<le> k \<Longrightarrow> k < 2147483648 \<Longrightarrow> sint (word_of_int k :: u32) = k"
  by (simp only: signed_of_int) (simp add: signed_take_bit_int_eq_self)

lemma unat_abs: "unat (if sint a < 0 then - a else a) = nat \<bar>sint a\<bar>" for a :: u32
proof (cases "sint a < 0")
  case True
  then have l: "2 ^ 31 \<le> unat a" by (simp add: sint_neg)
  have "a = word_of_int (int (unat a))" by simp
  also have "\<dots> = word_of_int (int (unat a) - 4294967296)" by simp
  finally have a: "a = word_of_int (int (unat a) - 4294967296)" .
  have "2147483648 \<le> unat a" "unat a < 4294967296" using l unat_lt32[of a] by simp_all
  then have "2147483648 \<le> int (unat a)" "int (unat a) < 4294967296" by linarith+
  then have "sint (word_of_int (int (unat a) - 4294967296) :: u32) = int (unat a) - 4294967296"
    by (intro sint_in_range) linarith+
  with arg_cong[OF a, of sint] have "sint a = int (unat a) - 4294967296" by (rule trans)
  moreover have "unat (- a) = 4294967296 - unat a" using l unat_sub_if_size[of 0 a] by (simp add: word_size)
  ultimately show ?thesis using True by (simp only: if_True)
next
  case False
  then have "unat a < 2147483648" by (simp add: sint_neg)
  then have "- 2147483648 \<le> int (unat a)" "int (unat a) < 2147483648" by linarith+
  then have "sint (word_of_int (int (unat a)) :: u32) = int (unat a)" by (rule sint_in_range)
  then show ?thesis using False by simp
qed

lemma min_int_result: "correct_result rm fl True (2 ^ 31 * 2 ^ 149) 1 (packFloat32 True 0x9E 0, fl)"
proof -
  have c: "correctly_rounded rm True (2 ^ 30 * 2 ^ 157) (1 * 2 ^ 7) = 2 ^ 23 * 2 ^ 157"
    using sticky_normal(1)[OF exact_sticky, of 1 "2 ^ 30" rm True 157] by (simp add: rounded_exact)
  have pk: "packFloat32 True 0x9E 0 = packFloat32 True (int 157) (word_of_nat (2 ^ 23))" by (simp add: packFloat32_def)
  have "(2 ^ 23 :: nat) < 2 ^ 23 \<and> (157 :: nat) = 0 \<or> (2 ^ 23 :: nat) \<le> 2 ^ 23 \<and> (2 ^ 23 :: nat) \<le> 2 ^ 24"
    "(157 :: nat) * 2 ^ 23 + 2 ^ 23 < 255 * 2 ^ 23" by simp_all
  note p = magnitude_pack[OF this, of True]
  have "\<not> overflows (2 ^ 23 * 2 ^ 157)" "(2 :: nat) ^ 23 * 2 ^ 157 * (1 * 2 ^ 7) = 2 ^ 30 * 2 ^ 157"
    by (simp_all add: overflows_def flip: power_add)
  then have "correct_result rm fl True (2 ^ 30 * 2 ^ 157) (1 * 2 ^ 7) (packFloat32 True 0x9E 0, fl)"
    unfolding pk by (simp only: correct_result_def rounds_to_def rounding_flags_def c p Let_def fst_conv snd_conv
      simp_thms if_True if_False or.right_neutral)
  then show ?thesis by (rule correct_result_transfer) (simp_all flip: power_add)
qed

lemma int32_to_float32_value:
  assumes "rm \<le> 3"
  shows "correct_result rm fl (sint a < 0) (nat \<bar>sint a\<bar> * 2 ^ 149) 1 (int32_to_float32 rm fl a)"
proof -
  consider "a = 0" | "a = 0x80000000" | "a \<noteq> 0" "a \<noteq> 0x80000000" by blast
  then show ?thesis
  proof cases
    case 1
    then show ?thesis using correct_zero[of 1 rm fl False] by (simp add: int32_to_float32_def packFloat32_def)
  next
    case 2
    have "int32_to_float32 rm fl a = (packFloat32 True 0x9E 0, fl)" by (simp add: int32_to_float32_def 2)
    moreover have "sint a = - (2 ^ 31)" by (simp add: 2)
    ultimately show ?thesis using min_int_result[of rm fl] by (simp only:) simp
  next
    case 3
    define z where "z = (if sint a < 0 then - a else a)"
    have z: "z \<noteq> 0" "unat z = nat \<bar>sint a\<bar>" using 3(1) unfolding z_def by (simp_all only: unat_abs) simp
    have "unat z < 2 ^ 31"
    proof (rule ccontr)
      assume "\<not> unat z < 2 ^ 31"
      then have "2 ^ 31 \<le> nat \<bar>sint a\<bar>" using z(2) by simp
      then have "sint a = - (2 ^ 31)" using sint_ge[of a] sint_lt[of a] by simp
      then have "word_of_int (sint a) = (word_of_int (- (2 ^ 31)) :: u32)" by (simp only:)
      then show False using 3(2) by simp
    qed
    then have "correct_result rm fl (sint a < 0) (unat z * 2 ^ nat 0x9C) (1 * 2 ^ (7 + nat (- 0x9C))) (normalizeRoundAndPackFloat32 rm fl (sint a < 0) 0x9C z)"
      using z(1) exact_sticky[of 1] by (intro normalizeRoundAndPack_correct[OF assms]) (auto intro!: exI[of _ 1])
    moreover have "int32_to_float32 rm fl a = normalizeRoundAndPackFloat32 rm fl (sint a < 0) 0x9C z"
      using 3 by (simp add: int32_to_float32_def z_def Let_def)
    ultimately have "correct_result rm fl (sint a < 0) (nat \<bar>sint a\<bar> * 2 ^ 156) (2 ^ 7) (int32_to_float32 rm fl a)"
      by (simp add: z(2))
    then show ?thesis by (rule correct_result_transfer) (simp_all flip: power_add)
  qed
qed

section \<open>To integers\<close>

text \<open>The integer \<open>q\<close> with a sign, saturated; \<open>inexact\<close> where it is not the number converted.\<close>

definition int_result :: "u32 \<Rightarrow> bool \<Rightarrow> nat \<Rightarrow> bool \<Rightarrow> u32 \<times> u32" where
  "int_result fl s q inexact =
     (if q < 2 ^ 31 + of_bool s then (word_of_int (if s then - int q else int q), raise_if inexact float_flag_inexact fl)
      else (if s then 0x80000000 else 0x7FFFFFFF, float_raise float_flag_invalid fl))"

text \<open>Only the quotient a sticky significand stands for matters.\<close>

lemma sticky_cancel: "0 < c \<Longrightarrow> sticky i z (n * c) (d * c) = sticky i z n d"
proof -
  assume c: "0 < c"
  have "z * (d * c) = n * c \<longleftrightarrow> z * d = n" using c mult_cancel2[of "z * d" c n] by (simp add: mult.assoc)
  moreover have "d * c * 2 ^ i dvd n * c \<longleftrightarrow> d * 2 ^ i dvd n" "n * c div (d * c * 2 ^ i) = n div (d * 2 ^ i)"
    using c by (simp_all add: mult.commute[of _ c] mult.assoc)
  ultimately show ?thesis by (simp only: sticky_def)
qed

lemma sticky_cross:
  assumes "sticky i z n d" and "n * d' = n' * d" and "0 < d" and "0 < d'"
  shows "sticky i z n' d'"
  using assms(1) sticky_cancel[OF assms(4), of i z n d] sticky_cancel[OF assms(3), of i z n' d'] assms(2)
  by (simp only: mult.commute[of d])

lemma roundAndPackInt32_value:
  assumes rm: "rm \<le> 3" and z: "unat z < 2 ^ 63"
  shows "roundAndPackInt32 rm fl s z = int_result fl s (rounded rm s (unat z) 128) (\<not> 128 dvd unat z)"
proof -
  define q where "q = rounded rm s (unat z) 128"
  let ?w = "drop_bit 7 (z + ucast (round_increment rm s))"
  define w where "w = (if z AND 0x7F = 0x40 \<and> rm = 0 then ?w AND NOT 1 else ?w)"
  have w: "unat w = q" unfolding w_def q_def
    by (rule rounded_word[OF rm]) (use z in \<open>simp_all add: unat_ucast64\<close>)
  define x :: u32 where "x = ucast w"
  have big: "drop_bit 32 w \<noteq> 0 \<longleftrightarrow> 2 ^ 32 \<le> q" by (simp add: unat_drop w div_greater_zero_iff flip: unat_gt_0)
  have low: "z AND 0x7F = 0 \<longleftrightarrow> 128 dvd unat z" by (rule low_bits(2)) simp
  have r: "roundAndPackInt32 rm fl s z =
      (if 2 ^ 32 \<le> q \<or> ((if s then - x else x) \<noteq> 0 \<and> (sint (if s then - x else x) < 0) \<noteq> s)
       then (if s then 0x80000000 else 0x7FFFFFFF, float_raise float_flag_invalid fl)
       else (if s then - x else x, raise_if (\<not> 128 dvd unat z) float_flag_inexact fl))"
    unfolding roundAndPackInt32_def Let_def tie big[symmetric] x_def w_def by (simp only: low)
  show ?thesis
  proof (cases "2 ^ 32 \<le> q")
    case True
    then show ?thesis unfolding r q_def[symmetric] int_result_def by (cases s) simp_all
  next
    case False
    then have x: "unat x = q" using w by (simp add: x_def unat_ucast32)
    have xi: "x = word_of_int (int q)" by (simp flip: x)
    show ?thesis
    proof (cases s)
      case True
      have "unat (- x) = (if q = 0 then 0 else 2 ^ 32 - q)"
        using x unat_sub_if_size[of 0 x] by (simp add: word_size)
      then have "- x \<noteq> 0 \<and> \<not> sint (- x) < 0 \<longleftrightarrow> 2 ^ 31 < q" using False unfolding sint_neg
        by (auto simp flip: unat_eq_0 split: if_splits)
      then show ?thesis using True False unfolding r q_def[symmetric] int_result_def by (simp add: xi)
    next
      case s: False
      have "x \<noteq> 0 \<and> sint x < 0 \<longleftrightarrow> 2 ^ 31 \<le> q" unfolding sint_neg x by (auto simp: x simp flip: unat_eq_0)
      then show ?thesis using s False unfolding r q_def[symmetric] int_result_def by (simp add: xi)
    qed
  qed
qed

lemma float32_to_int32_value:
  assumes rm: "rm \<le> 3" and a: "finite32 a"
  shows "float32_to_int32 rm fl a =
    int_result fl (extractFloat32Sign a) (rounded rm (extractFloat32Sign a) (magnitude a) (2 ^ 149)) (\<not> 2 ^ 149 dvd magnitude a)"
proof -
  let ?s = "extractFloat32Sign a" and ?e = "extractFloat32Exp a"
  define sg where "sg = (if ?e \<noteq> 0 then extractFloat32Frac a OR 0x00800000 else extractFloat32Frac a)"
  have sg: "unat sg = significand a"
    using shifted_significand[of 0 a] unfolding sg_def hidden_bits by (cases "?e = 0") simp_all
  note sgb = significand_bounds(1)[of a]
  have u64: "unat (push_bit 32 (ucast sg :: u64)) = significand a * 2 ^ 32"
    using sgb unfolding unsigned_push_bit_eq unat_ucast64 sg by (simp add: push_bit_eq_mult take_bit_eq_mod)
  define z where "z = (if 0 < 0xAF - ?e then shift64RightJamming (push_bit 32 (ucast sg :: u64)) (0xAF - ?e) else push_bit 32 (ucast sg))"
  have r: "float32_to_int32 rm fl a = roundAndPackInt32 rm fl ?s z"
    using a unfolding float32_to_int32_def Let_def z_def sg_def finite32_def by simp
  show ?thesis
  proof (cases "?e < 0xAF")
    case True
    define j where "j = nat (0xAF - ?e)"
    have j: "0xAF - ?e = int j" "0 < j" using True by (simp_all add: j_def)
    have uz: "unat z = jam (significand a * 2 ^ 32) j"
      unfolding z_def j(1) using j(2) by (simp add: unat_shift64 u64)
    have st: "sticky 1 (unat z) (magnitude a) (2 ^ 142)"
      using a
    proof (cases rule: exponent_cases)
      case 1
      have "significand a * 2 ^ 32 < 2 ^ j"
        using significand_bounds(3)[OF 1(1)] 1(1) by (simp add: j_def)
      then have z1: "unat z = of_bool (significand a \<noteq> 0)" using uz by (simp add: jam_large)
      have "significand a < 2 ^ 142" using sgb by simp
      then show ?thesis using z1 1(2) by (auto simp: sticky_def magnitude_def dest: dvd_imp_le)
    next
      case 2
      have "sticky 1 (unat z) (significand a * 2 ^ 32) (2 ^ j)" unfolding uz by (rule sticky_jam_self)
      moreover have "exponent a + 1 + j = 175" using j(1) 2(1) by simp
      then have "(2 :: nat) ^ 32 * 2 ^ 142 = 2 ^ exponent a * 2 ^ j" by (simp flip: power_add)
      then have "significand a * 2 ^ 32 * 2 ^ 142 = magnitude a * 2 ^ j" unfolding magnitude_def by (simp only: mult.assoc)
      ultimately show ?thesis by (rule sticky_cross) simp_all
    qed
    have "unat z < 2 ^ 63" using jam_less[OF j(2), of "significand a * 2 ^ 32" "2 ^ 62"] sgb uz by simp
    note rp = roundAndPackInt32_value[OF rm this, of fl ?s]
    have "rounded rm ?s (unat z) (2 ^ 7) = rounded rm ?s (magnitude a) (2 ^ 142 * 2 ^ 7)" by (rule sticky_rounded[OF st]) simp_all
    moreover have "2 ^ 7 dvd unat z \<longleftrightarrow> 2 ^ 142 * 2 ^ 7 dvd magnitude a" by (rule sticky_dvd[OF st]) simp_all
    ultimately show ?thesis unfolding r rp by (simp flip: power_add)
  next
    case False
    then have z: "unat z = significand a * 2 ^ 32" unfolding z_def by (simp add: u64)
    have e: "exponent a + 1 = nat ?e" "2 ^ 23 \<le> significand a" using False a significand_bounds(2)[of a] by (auto simp: exponent_def)
    have "unat z < 2 ^ 63" using sgb z by simp
    note rp = roundAndPackInt32_value[OF rm this, of fl ?s]
    have "2 ^ 33 \<le> rounded rm ?s (unat z) 128"
      using e(2) rounded_bounds(1)[of "unat z" 128 rm ?s] unfolding z by simp
    moreover have "2 ^ 33 \<le> rounded rm ?s (magnitude a) (2 ^ 149)"
    proof -
      have "(2 :: nat) ^ 23 * 2 ^ 174 \<le> magnitude a" unfolding magnitude_def
        using e False by (intro mult_le_mono power_increasing) simp_all
      then have "(2 :: nat) ^ 48 \<le> magnitude a div 2 ^ 149" by (simp add: less_eq_div_iff_mult_less_eq flip: power_add)
      then show ?thesis using rounded_bounds(1)[of "magnitude a" "2 ^ 149" rm ?s] by simp
    qed
    ultimately show ?thesis unfolding r rp int_result_def by (cases ?s) simp_all
  qed
qed

section \<open>Round trips\<close>

text \<open>An integer of at most 24 bits is a single precision number.\<close>

lemma small_integer_exact:
  assumes "n < 2 ^ 24"
  shows "correctly_rounded rm s (n * 2 ^ 149) 1 = n * 2 ^ 149" and "\<not> overflows (n * 2 ^ 149)"
proof -
  have less: "n * 2 ^ 149 < 2 ^ 24 * 2 ^ 149 * 1" using assms by simp
  define e where "e = quantum (n * 2 ^ 149) 1"
  have "e \<le> 149" unfolding e_def quantum_def by (rule Least_le) (rule less)
  then have "(2 :: nat) ^ e dvd 2 ^ 149" by (rule le_imp_power_dvd)
  then have d: "2 ^ e dvd n * 2 ^ 149" by (rule dvd_mult)
  then have "rounded rm s (n * 2 ^ 149) (1 * 2 ^ e) = n * 2 ^ 149 div 2 ^ e" by (subst rounded_exact) simp_all
  then show "correctly_rounded rm s (n * 2 ^ 149) 1 = n * 2 ^ 149"
    unfolding correctly_rounded_def e_def[symmetric] Let_def using dvd_div_mult_self[OF d] by (simp only:)
  have "(2 :: nat) ^ 24 * 2 ^ 149 \<le> 2 ^ 24 * 2 ^ 253" by simp
  with less show "\<not> overflows (n * 2 ^ 149)" unfolding overflows_def by linarith
qed

lemma integer_round_trip:
  assumes "rm \<le> 3" and "rm' \<le> 3" and "\<bar>sint a\<bar> < 2 ^ 24"
  shows "float32_to_int32 rm' fl' (fst (int32_to_float32 rm fl a)) = (a, fl')"
proof -
  define n where "n = nat \<bar>sint a\<bar>"
  have n: "n < 2 ^ 24" using assms(3) unfolding n_def by (simp add: nat_less_iff)
  let ?f = "fst (int32_to_float32 rm fl a)" and ?s = "sint a < 0"
  have "rounds_to rm ?s (n * 2 ^ 149) 1 ?f"
    using int32_to_float32_value[OF assms(1), of fl a] unfolding correct_result_def n_def by blast
  then have f: "finite32 ?f" "extractFloat32Sign ?f = ?s" "magnitude ?f = n * 2 ^ 149"
    unfolding rounds_to_def Let_def small_integer_exact(1)[OF n] if_P[OF small_integer_exact(2)[OF n]] by blast+
  have "rounded rm' ?s (n * 2 ^ 149) (2 ^ 149) = n * 2 ^ 149 div 2 ^ 149" by (rule rounded_exact) simp_all
  then have r: "rounded rm' ?s (n * 2 ^ 149) (2 ^ 149) = n" by simp
  have d: "2 ^ 149 dvd n * 2 ^ 149" by (rule dvd_triv_right)
  have "float32_to_int32 rm' fl' ?f = int_result fl' ?s n False"
    using float32_to_int32_value[OF assms(2) f(1), of fl'] d unfolding f(2,3) r by (simp only: simp_thms)
  moreover have "n < 2 ^ 31 + of_bool ?s" using n by simp
  moreover have "(if ?s then - int n else int n) = sint a" unfolding n_def by simp
  ultimately show ?thesis unfolding int_result_def by (simp only: if_True raise_if_def if_False of_int_sint scast_id id_apply)
qed

section \<open>Properties\<close>

text \<open>
  C20: \<open>int32_to_float32\<close> returns every integer correctly rounded, \<open>float32_to_int32\<close> rounds every finite number to
  an integer in the given mode and saturates with the invalid flag when it does not fit, and an integer of at most 24
  bits survives the round trip without flags, whatever the two rounding modes.
\<close>

theorem integer_conversions:
  assumes "rm \<le> 3" and "rm' \<le> 3" and "\<bar>sint a\<bar> < 2 ^ 24" and "finite32 x"
  shows "correct_result rm fl (sint i < 0) (nat \<bar>sint i\<bar> * 2 ^ 149) 1 (int32_to_float32 rm fl i) \<and>
    float32_to_int32 rm fl x =
      int_result fl (extractFloat32Sign x) (rounded rm (extractFloat32Sign x) (magnitude x) (2 ^ 149)) (\<not> 2 ^ 149 dvd magnitude x) \<and>
    float32_to_int32 rm' fl' (fst (int32_to_float32 rm fl a)) = (a, fl')"
  using int32_to_float32_value[OF assms(1)] float32_to_int32_value[OF assms(1,4)] integer_round_trip[OF assms(1-3)] by blast

theorem integer_conversions_witness:
  "float32_to_int32 2 0 (fst (int32_to_float32 1 0 0xFFFEDCBA)) = (0xFFFEDCBA, 0) \<and>
   int_result 0 False (rounded 1 False (magnitude 0x40700000) (2 ^ 149)) (\<not> 2 ^ 149 dvd magnitude 0x40700000) = (3, 32) \<and>
   correct_result 1 0 (sint (0x7FFFFFFF :: u32) < 0) (nat \<bar>sint (0x7FFFFFFF :: u32)\<bar> * 2 ^ 149) 1 (0x4EFFFFFF, 32)"
proof -
  have "finite32 0x40700000" "extractFloat32Sign 0x40700000 = False" by code_simp+
  moreover have "float32_to_int32 1 0 0x40700000 = (3, 32)" by code_simp
  moreover have "int32_to_float32 1 0 0x7FFFFFFF = (0x4EFFFFFF, 32)" by code_simp
  moreover have "(1 :: u32) \<le> 3" "(2 :: u32) \<le> 3" "\<bar>sint (0xFFFEDCBA :: u32)\<bar> < 2 ^ 24" by simp_all
  ultimately show ?thesis
    using integer_conversions[of 1 2 "0xFFFEDCBA" "0x40700000" 0 "0x7FFFFFFF" 0] by (simp only: simp_thms)
qed

end
