(* ===== verification/Softfloat_Compare.thy ===== *)
theory Softfloat_Compare
  imports Softfloat_Arith
begin

text \<open>
  Comparisons of \<open>softfloat.c\<close>: \<open>float32_eq\<close>, \<open>float32_le\<close> and \<open>float32_lt\<close> compare bit patterns; the magnitude of a
  number is strictly monotone in its bits without the sign (infinity included), so they compare the values.
\<close>

section \<open>The order of magnitudes\<close>

lemma bits_magnitude_Suc: "bits_magnitude b < bits_magnitude (Suc b)"
proof (cases "b < 2 ^ 23")
  case True
  then have "b < 2 ^ 23 \<and> (0 :: nat) = 0 \<or> 2 ^ 23 \<le> b \<and> b \<le> 2 ^ 24"
    "Suc b < 2 ^ 23 \<and> (0 :: nat) = 0 \<or> 2 ^ 23 \<le> Suc b \<and> Suc b \<le> 2 ^ 24" by auto
  from this[THEN bits_magnitude_pack] show ?thesis by (simp only: mult_0 add_0 power_0 mult_1_right lessI)
next
  case False
  define e where "e = b div 2 ^ 23 - 1"
  define f where "f = b mod 2 ^ 23"
  have "b div 2 ^ 23 \<noteq> 0" using False by (simp add: div_eq_0_iff)
  then have "b = (e + 1) * 2 ^ 23 + f" by (simp only: e_def f_def) simp
  then have b: "b = e * 2 ^ 23 + (2 ^ 23 + f)" "Suc b = e * 2 ^ 23 + Suc (2 ^ 23 + f)" by simp_all
  have "f < 2 ^ 23" by (simp add: f_def)
  then have "2 ^ 23 + f < 2 ^ 23 \<and> e = 0 \<or> 2 ^ 23 \<le> 2 ^ 23 + f \<and> 2 ^ 23 + f \<le> 2 ^ 24"
    "Suc (2 ^ 23 + f) < 2 ^ 23 \<and> e = 0 \<or> 2 ^ 23 \<le> Suc (2 ^ 23 + f) \<and> Suc (2 ^ 23 + f) \<le> 2 ^ 24" by auto
  from this[THEN bits_magnitude_pack, folded b] show ?thesis by (simp only: mult_less_cancel2) (simp add: less_Suc_eq)
qed

lemma bits_magnitude_mono: "strict_mono bits_magnitude"
  by (rule strict_mono_Suc_iff[THEN iffD2]) (simp add: bits_magnitude_Suc)

lemmas bits_magnitude_order =
  strict_mono_less[OF bits_magnitude_mono] strict_mono_less_eq[OF bits_magnitude_mono] strict_mono_eq[OF bits_magnitude_mono]

lemma bits_magnitude_zero: "bits_magnitude b = 0 \<longleftrightarrow> b = 0"
  using bits_magnitude_order(3)[of b 0] by (simp add: bits_magnitude_def)

text \<open>A number is its sign and its other 31 bits.\<close>

lemma sign_and_bits:
  obtains s x where "extractFloat32Sign a = s" "unat a = of_bool s * 2 ^ 31 + x" "x < 2 ^ 31" "magnitude a = bits_magnitude x"
    "push_bit 1 a = 0 \<longleftrightarrow> x = 0"
proof (cases "2 ^ 31 \<le> unat a")
  case True
  define x where "x = unat a - 2 ^ 31"
  have x: "unat a = 2 ^ 31 + x" "x < 2 ^ 31" using True unat_lt32[of a] by (simp_all add: x_def)
  then have m: "unat a mod 2 ^ 31 = x" by simp
  show ?thesis
    by (rule that[of True x]) (use x m push_bit_zero_iff[of 31 a] in \<open>simp_all add: sign_unat magnitude_bits dvd_eq_mod_eq_0\<close>)
next
  case False
  then have m: "unat a mod 2 ^ 31 = unat a" by simp
  show ?thesis
    by (rule that[of False "unat a"]) (use False m push_bit_zero_iff[of 31 a] in \<open>simp_all add: sign_unat magnitude_bits dvd_eq_mod_eq_0\<close>)
qed

lemma push_bit_or_zero: "push_bit n (a OR b) = 0 \<longleftrightarrow> push_bit n a = 0 \<and> push_bit n b = 0" for a b :: "'a::len word"
  by (simp add: push_bit_or or_eq_0_iff)

lemma float_value_order:
  shows "a = b \<or> push_bit 1 (a OR b) = 0 \<longleftrightarrow> float_value a = float_value b"
    and "ordered_le a b \<longleftrightarrow> float_value a \<le> float_value b"
    and "ordered_lt a b \<longleftrightarrow> float_value a < float_value b"
proof -
  obtain s x where x: "extractFloat32Sign a = s" "unat a = of_bool s * 2 ^ 31 + x" "x < 2 ^ 31" "magnitude a = bits_magnitude x"
    "push_bit 1 a = 0 \<longleftrightarrow> x = 0" by (rule sign_and_bits)
  obtain t y where y: "extractFloat32Sign b = t" "unat b = of_bool t * 2 ^ 31 + y" "y < 2 ^ 31" "magnitude b = bits_magnitude y"
    "push_bit 1 b = 0 \<longleftrightarrow> y = 0" by (rule sign_and_bits)
  have eq: "a = b \<longleftrightarrow> s = t \<and> x = y" using x(2,3) y(2,3) by (auto simp: word_unat_eq_iff)
  have less: "s = t \<Longrightarrow> a < b \<longleftrightarrow> x < y" using x(2) y(2) by (simp add: word_less_nat_alt)
  have nonneg: "- int (bits_magnitude p) = int (bits_magnitude q) \<longleftrightarrow> p = 0 \<and> q = 0"
    "int (bits_magnitude q) = - int (bits_magnitude p) \<longleftrightarrow> p = 0 \<and> q = 0"
    "- int (bits_magnitude p) < int (bits_magnitude q) \<longleftrightarrow> \<not> (p = 0 \<and> q = 0)"
    "int (bits_magnitude q) \<le> - int (bits_magnitude p) \<longleftrightarrow> p = 0 \<and> q = 0"
    "- int (bits_magnitude p) \<le> int (bits_magnitude q)" "\<not> int (bits_magnitude q) < - int (bits_magnitude p)" for p q
    using bits_magnitude_zero[of p] bits_magnitude_zero[of q] by auto
  note vals = float_value_def x(1,4,5) y(1,4,5) push_bit_or_zero eq bits_magnitude_order
  show "a = b \<or> push_bit 1 (a OR b) = 0 \<longleftrightarrow> float_value a = float_value b"
    unfolding vals by (cases s; cases t) (auto simp: nonneg bits_magnitude_order bits_magnitude_zero)
  show "ordered_le a b \<longleftrightarrow> float_value a \<le> float_value b"
    unfolding ordered_le_def Let_def vals using less by (cases s; cases t) (auto simp: nonneg bits_magnitude_order bits_magnitude_zero)
  show "ordered_lt a b \<longleftrightarrow> float_value a < float_value b"
    unfolding ordered_lt_def Let_def vals using less by (cases s; cases t) (auto simp: nonneg bits_magnitude_order bits_magnitude_zero)
qed

text \<open>The three comparisons; \<open>number32\<close> is what is not a NaN.\<close>

definition number32 :: "u32 \<Rightarrow> bool" where
  "number32 a = (finite32 a \<or> extractFloat32Frac a = 0)"

lemma nan_number32: "nan_operand a \<longleftrightarrow> \<not> number32 a"
  by (simp add: nan_operand_def number32_def finite32_def)

lemma float32_compare_values:
  "float32_eq fl a b = (number32 a \<and> number32 b \<and> float_value a = float_value b,
     raise_if (\<not> (number32 a \<and> number32 b) \<and> signaling_operand a b) float_flag_invalid fl)"
  "float32_le fl a b = (number32 a \<and> number32 b \<and> float_value a \<le> float_value b,
     raise_if (\<not> (number32 a \<and> number32 b)) float_flag_invalid fl)"
  "float32_lt fl a b = (number32 a \<and> number32 b \<and> float_value a < float_value b,
     raise_if (\<not> (number32 a \<and> number32 b)) float_flag_invalid fl)"
  by (simp_all only: float32_eq_def float32_le_def float32_lt_def nan_number32 float_value_order) (auto simp: raise_if_def)

lemma is_nan_number32: "float32_is_nan a \<longleftrightarrow> \<not> number32 a"
proof -
  obtain s x where x: "unat a = of_bool s * 2 ^ 31 + x" "x < 2 ^ 31" by (rule sign_and_bits)
  then have m: "unat a mod 2 ^ 31 = x" by (cases s) simp_all
  have "unat (push_bit 1 a) = unat a * 2 mod 2 ^ 32" 
    unfolding unsigned_push_bit_eq by (simp add: push_bit_eq_mult take_bit_eq_mod)
  also have "\<dots> = 2 * x" using x by (cases s) (simp_all add: mod_if)
  finally have "float32_is_nan a \<longleftrightarrow> 255 * 2 ^ 23 < x" by (simp add: float32_is_nan_def word_less_nat_alt)
  moreover have "unat a div 2 ^ 23 mod 2 ^ 8 = x div 2 ^ 23" "unat a mod 2 ^ 23 = x mod 2 ^ 23"
    using mod_div_cancel[of "2 ^ 23" "unat a" "2 ^ 8"] mod_mod_cancel[of "2 ^ 23" "2 ^ 31" "unat a"] m by simp_all
  moreover have "255 * 2 ^ 23 < x \<longleftrightarrow> x div 2 ^ 23 = 255 \<and> x mod 2 ^ 23 \<noteq> 0"
  proof -
    define q r where "q = x div 2 ^ 23" and "r = x mod 2 ^ 23"
    have qr: "x = q * 2 ^ 23 + r" "r < 2 ^ 23" by (simp_all add: q_def r_def)
    have "q * 2 ^ 23 < 256 * 2 ^ 23" using qr x(2) by simp
    then have "q < 256" by (simp only: mult_less_cancel2)
    then have "255 * 2 ^ 23 < q * 2 ^ 23 + r \<longleftrightarrow> q = 255 \<and> r \<noteq> 0" using qr(2) by (cases "q = 255") auto
    then show ?thesis unfolding qr(1)[symmetric] unfolding q_def r_def .
  qed
  ultimately show ?thesis by (simp add: number32_def finite32_def exp_unat unat_frac unat_eq_0[symmetric])
qed

end
