(* ===== verification/Softfloat_Rem.thy ===== *)
theory Softfloat_Rem
  imports Softfloat_Arith
begin

text \<open>
  The loops of \<open>float32_rem\<close> end: \<open>estimateDiv128To64\<close> adds the divisor to a negative remainder of 128 bits until it is
  not negative, the reduction of far apart exponents takes 62 bits in each round, and the last loop subtracts the divisor,
  a positive number below \<open>2 ^ 31\<close>, until the remainder is negative.
\<close>

section \<open>The quotient estimate\<close>

text \<open>The signed remainder of two words.\<close>

definition signed128 :: "u64 \<Rightarrow> u64 \<Rightarrow> int" where
  "signed128 r0 r1 = sint r0 * 2 ^ 64 + int (unat r1)"

lemma sint_lower: "- (2 ^ 63) \<le> sint w" for w :: u64
  using sint_ge[of w] by simp

lemma sint_add_small:
  fixes w :: u64
  assumes "sint w < 0" and "unat c < 2 ^ 63"
  shows "sint (w + c) = sint w + int (unat c)"
proof -
  have "w + c = word_of_int (sint w + int (unat c))" by simp
  moreover have "int (unat c) < int (2 ^ 63)" using assms(2) by (simp only: of_nat_less_iff)
  then have "- (2 ^ 63) \<le> sint w + int (unat c)" "sint w + int (unat c) < 2 ^ 63"
    using sint_lower[of w] assms(1) by (simp_all only: of_nat_power of_nat_numeral)
  ultimately show ?thesis by (simp only: signed_of_int) (simp add: signed_take_bit_int_eq_self)
qed

lemma add_carry: "int (unat (x + y)) + (if x + y < x then 2 ^ 64 else 0) = int (unat x) + int (unat y)" for x y :: u64
proof (cases "unat x + unat y < 2 ^ 64")
  case True
  then have "unat (x + y) = unat x + unat y" using unat_word_ariths(1)[of x y] by simp
  then show ?thesis by (simp add: word_less_nat_alt)
next
  case False
  moreover have "unat x < 2 ^ 64" "unat y < 2 ^ 64" by (rule unat_lt64)+
  ultimately have "(unat x + unat y) mod 2 ^ 64 = unat x + unat y - 2 ^ 64" by (simp add: mod_if)
  then have "unat (x + y) = unat x + unat y - 2 ^ 64" using unat_word_ariths(1)[of x y] by simp
  then show ?thesis using False \<open>unat y < 2 ^ 64\<close> by (simp add: word_less_nat_alt)
qed

lemma scaled_sum:
  fixes S R K :: int
  assumes "S = R + C" and "s + (if c then K * K else 0) = r + K * M" and "C = D + (if c then 1 else 0)" and "B = D * K + M"
  shows "S * (K * K) + s = R * (K * K) + r + B * K"
  using assms by (cases c) (simp_all add: algebra_simps)

lemma add128_signed:
  assumes "sint r0 < 0" and "add128 r0 r1 (drop_bit 32 b) (push_bit 32 b) = (s0, s1)"
  shows "signed128 s0 s1 = signed128 r0 r1 + int (unat b) * 2 ^ 32"
proof -
  define c :: u64 where "c = drop_bit 32 b + of_bool (r1 + push_bit 32 b < r1)"
  have d: "unat (drop_bit 32 b) = unat b div 2 ^ 32" by (rule unat_drop)
  have "unat b div 2 ^ 32 < 2 ^ 32" using unat_lt64[of b] by (intro less_mult_imp_div_less) simp
  then have c: "unat c = unat b div 2 ^ 32 + of_bool (r1 + push_bit 32 b < r1)"
    unfolding c_def using unat_word_ariths(1)[of "drop_bit 32 b" "of_bool (r1 + push_bit 32 b < r1)"] by (simp add: d)
  have "unat (push_bit 32 b) = 2 ^ 32 * unat b mod (2 ^ 32 * 2 ^ 32)"
    unfolding unsigned_push_bit_eq by (simp add: push_bit_eq_mult take_bit_eq_mod mult.commute)
  then have low: "unat (push_bit 32 b) = 2 ^ 32 * (unat b mod 2 ^ 32)" by (simp only: mod_mult_mult1)
  have s: "s0 = r0 + c" "s1 = r1 + push_bit 32 b" using assms(2) unfolding add128_def Let_def prod.inject c_def by (auto simp only: add.assoc)
  have "unat c < 2 ^ 63" using c \<open>unat b div 2 ^ 32 < 2 ^ 32\<close> by simp
  then have "sint s0 = sint r0 + int (unat c)" unfolding s(1) by (rule sint_add_small[OF assms(1)])
  moreover have k: "(2 :: int) ^ 32 * 2 ^ 32 = 2 ^ 64" by simp
  have "int (unat s1) + (if s1 < r1 then 2 ^ 32 * 2 ^ 32 else 0) = int (unat r1) + 2 ^ 32 * int (unat b mod 2 ^ 32)"
    using add_carry[of r1 "push_bit 32 b"] by (simp only: k s(2) low of_nat_mult of_nat_power of_nat_numeral)
  moreover have "int (unat c) = int (unat b div 2 ^ 32) + (if s1 < r1 then 1 else 0)" by (simp add: c s(2))
  moreover have "int (unat b) = int (unat b div 2 ^ 32) * 2 ^ 32 + int (unat b mod 2 ^ 32)"
    using div_mult_mod_eq[of "unat b" "2 ^ 32"] by (metis of_nat_add of_nat_mult of_nat_numeral of_nat_power)
  ultimately have "sint s0 * (2 ^ 32 * 2 ^ 32) + int (unat s1) = sint r0 * (2 ^ 32 * 2 ^ 32) + int (unat r1) + int (unat b) * 2 ^ 32"
    by (rule scaled_sum)
  then show ?thesis unfolding signed128_def by simp
qed

lemma signed128_negative: "sint r0 < 0 \<Longrightarrow> signed128 r0 r1 < 0"
proof -
  assume "sint r0 < 0"
  then have "sint r0 * 2 ^ 64 \<le> - (2 ^ 64)" by simp
  moreover have "int (unat r1) < 2 ^ 64" using unat_lt64[of r1] by (simp only: of_nat_less_numeral_power_cancel_iff)
  ultimately show ?thesis unfolding signed128_def by linarith
qed

lemma reduce_estimate_returns:
  assumes "b \<noteq> 0"
  shows "\<exists>r. reduce_estimate b (drop_bit 32 b) z r0 r1 = Some r"
proof (induction "nat (- signed128 r0 r1)" arbitrary: z r0 r1 rule: less_induct)
  case less
  show ?case
  proof (cases "sint r0 < 0")
    case True
    obtain s0 s1 where s: "add128 r0 r1 (drop_bit 32 b) (push_bit 32 b) = (s0, s1)" by (rule prod.exhaust)
    have "0 < unat b" using assms by (simp only: unat_gt_0 simp_thms)
    then have "0 < int (unat b) * 2 ^ 32" by (simp only: of_nat_0_less_iff zero_less_mult_iff zero_less_power zero_less_numeral simp_thms)
    then have "nat (- signed128 s0 s1) < nat (- signed128 r0 r1)"
      using add128_signed[OF True s] signed128_negative[OF True, of r1] by linarith
    from less[OF this] show ?thesis using True s by (subst reduce_estimate.simps) (simp add: Let_def)
  next
    case False
    then show ?thesis by (subst reduce_estimate.simps) simp
  qed
qed

lemma estimate_returns: "\<exists>q. estimateDiv128To64 a0 a1 b = Some q"
proof (cases "b \<le> a0")
  case False
  then have "b \<noteq> 0" by auto
  note red = reduce_estimate_returns[OF this]
  define z where "z = (if push_bit 32 (drop_bit 32 b) \<le> a0 then 0xFFFFFFFF00000000 else push_bit 32 (a0 div drop_bit 32 b))"
  obtain t0 t1 where t: "mul64To128 b z = (t0, t1)" by (rule prod.exhaust)
  obtain r0 r1 where r: "sub128 a0 a1 t0 t1 = (r0, r1)" by (rule prod.exhaust)
  obtain z' s0 s1 where "reduce_estimate b (drop_bit 32 b) z r0 r1 = Some (z', s0, s1)" using red by (metis prod.exhaust)
  then show ?thesis
    unfolding estimateDiv128To64_def Let_def if_not_P[OF False] z_def[symmetric] t r prod.case by (simp only: option.case prod.case) blast
qed (simp add: estimateDiv128To64_def)

lemma rem_reduce_returns: "\<exists>r. rem_reduce e b b64 a64 = Some r"
proof (induction e b b64 a64 rule: rem_reduce.induct)
  case (1 e b b64 a64)
  obtain q where "estimateDiv128To64 a64 0 b64 = Some q" using estimate_returns by blast
  then show ?case using 1 by (subst rem_reduce.simps) (simp add: Let_def)
qed

section \<open>The last subtractions\<close>

lemma rem_subtract_returns:
  assumes "b \<noteq> 0" and "unat b < 2 ^ 31"
  shows "\<exists>r. rem_subtract b q a = Some r"
proof -
  have nonneg: "\<exists>r. rem_subtract b q a = Some r" if "unat a < 2 ^ 31" for q a
    using that
  proof (induction "unat a" arbitrary: q a rule: less_induct)
    case less
    show ?case
    proof (cases "b \<le> a")
      case True
      have "unat (a - b) = unat a - unat b" using True by (rule unat_sub)
      moreover have "0 < unat b" "unat b \<le> unat a" using assms(1) True by (simp_all add: unat_gt_0 word_le_nat_alt)
      ultimately have "unat (a - b) < unat a" "unat (a - b) < 2 ^ 31" using less.prems by simp_all
      from less.hyps[OF this] show ?thesis by (subst rem_subtract.simps) (simp add: Let_def)
    next
      case False
      then have l: "unat a < unat b" by (simp add: word_le_nat_alt)
      have "unat (a - b) = unat a + 2 ^ 32 - unat b" using l by (simp add: unat_sub_if_size word_size)
      then have "sint (a - b) < 0" using assms(2) l unfolding sint_neg by simp
      then show ?thesis by (subst rem_subtract.simps) (simp add: Let_def)
    qed
  qed
  show ?thesis
  proof (cases "0 \<le> sint (a - b)")
    case True
    then have "unat (a - b) < 2 ^ 31" using sint_neg[of "a - b"] by simp
    from nonneg[OF this] show ?thesis by (subst rem_subtract.simps) (simp add: Let_def)
  next
    case False
    then show ?thesis by (subst rem_subtract.simps) (simp add: Let_def)
  qed
qed

lemma rem_quotient_returns:
  assumes "2 ^ 23 \<le> unat b" and "unat b < 2 ^ 24"
  obtains q a' b' where "rem_quotient e a b = Some (q, a', b')" and "unat b' = unat b * 2 ^ 6"
proof -
  have s: "unat (push_bit 6 b) = unat b * 2 ^ 6" "unat (drop_bit 2 (push_bit 8 b)) = unat b * 2 ^ 6"
    using assms(2) by (simp_all add: unat_drop unat_push del: push_bit_numeral drop_bit_push_bit)
  show thesis
  proof (cases "e < 32")
    case True
    then have "\<exists>q a' b'. rem_quotient e a b = Some (q, a', b') \<and> unat b' = unat b * 2 ^ 6"
      unfolding rem_quotient_def Let_def using s by (cases "0 < e") auto
    then show thesis using that by blast
  next
    case False
    obtain e' a64 where r: "rem_reduce (e - 64) b (push_bit 40 (ucast b)) (push_bit 40 (ucast (if b \<le> a then a - b else a))) = Some (e', a64)"
      using rem_reduce_returns by (metis prod.exhaust)
    obtain q where "estimateDiv128To64 a64 0 (push_bit 40 (ucast b)) = Some q" using estimate_returns by blast
    then show thesis
      using False r that s(1) unfolding rem_quotient_def Let_def by (simp del: push_bit_numeral)
  qed
qed

lemma float32_rem_returns: "\<exists>r. float32_rem rm fl a b = Some r"
proof (cases "finite32 b \<and> \<not> (extractFloat32Exp b = 0 \<and> extractFloat32Frac b = 0)")
  case True
  obtain e t sg where b: "normalize_if (extractFloat32Exp b) (extractFloat32Frac b) = (e, sg)"
    "2 ^ 23 \<le> unat (sg OR 0x00800000)" "unat (sg OR 0x00800000) < 2 ^ 24"
    using True normalize_if[of b] by metis
  obtain ea sa where a: "normalize_if (extractFloat32Exp a) (extractFloat32Frac a) = (ea, sa)" by (rule prod.exhaust)
  obtain q a' b' where q: "rem_quotient (ea - e) (sa OR 0x00800000) (sg OR 0x00800000) = Some (q, a', b')"
    "unat b' = unat (sg OR 0x00800000) * 2 ^ 6"
    using rem_quotient_returns[OF b(2,3)] by metis
  then have "b' \<noteq> 0" "unat b' < 2 ^ 31" using b(2,3) by (auto simp flip: unat_gt_0)
  then obtain r where "rem_subtract b' q a' = Some r" using rem_subtract_returns by blast
  then show ?thesis
    using True unfolding float32_rem_def Let_def a b(1) prod.case q(1) option.case
    by (cases r) (auto simp: finite32_def)
next
  case False
  then show ?thesis unfolding float32_rem_def Let_def finite32_def by auto
qed

end
