(* ===== verification/Float_Insns.thy ===== *)
theory Float_Insns
  imports Softfloat_Convert Softfloat_Compare Softfloat_Rem Insn
begin

text \<open>
  The floating point instructions of \<open>cpu/or32/insnset.c\<close> with the functions of \<open>softfloat.c\<close>: the record the
  instruction set is parametric in, filled with the functions of the theory Softfloat. What an instruction leaves in its
  destination register, in the flag or in FPCSR follows from the theorems on the functions.
\<close>

section \<open>The functions the instructions call\<close>

text \<open>\<open>float32_rem\<close> returns, so its result is read off.\<close>

definition or1k_softfloat :: softfloat where
  "or1k_softfloat = \<lparr>
     float32_add = Softfloat.float32_add,
     float32_sub = Softfloat.float32_sub,
     float32_mul = Softfloat.float32_mul,
     float32_div = Softfloat.float32_div,
     float32_rem = (\<lambda>rm fl a b. the (Softfloat.float32_rem rm fl a b)),
     float32_to_int32 = Softfloat.float32_to_int32,
     int32_to_float32 = Softfloat.int32_to_float32,
     float32_eq = Softfloat.float32_eq,
     float32_lt = Softfloat.float32_lt,
     float32_le = Softfloat.float32_le,
     float32_is_nan = Softfloat.float32_is_nan\<rparr>"

lemma or1k_softfloat_fields [simp]:
  "float32_add or1k_softfloat = Softfloat.float32_add" "float32_sub or1k_softfloat = Softfloat.float32_sub"
  "float32_mul or1k_softfloat = Softfloat.float32_mul" "float32_div or1k_softfloat = Softfloat.float32_div"
  "float32_to_int32 or1k_softfloat = Softfloat.float32_to_int32" "int32_to_float32 or1k_softfloat = Softfloat.int32_to_float32"
  "float32_eq or1k_softfloat = Softfloat.float32_eq" "float32_lt or1k_softfloat = Softfloat.float32_lt"
  "float32_le or1k_softfloat = Softfloat.float32_le" "float32_is_nan or1k_softfloat = Softfloat.float32_is_nan"
  by (simp_all add: or1k_softfloat_def)

lemma or1k_rem: "Softfloat.float32_rem rm fl a b = Some (float32_rem or1k_softfloat rm fl a b)"
  using float32_rem_returns[of rm fl a b] by (auto simp: or1k_softfloat_def)

section \<open>The rounding mode and the flags\<close>

lemma rounding_mode: "float_set_rm m \<le> 3"
  by (simp add: float_set_rm_def Let_def)

text \<open>FPCSR after an instruction: its exception flags are those of the operation, the other bits are kept.\<close>

definition fpcsr_flags :: "u32 \<Rightarrow> u32" where
  "fpcsr_flags fl = (if has fl 1 then SPR_FPCSR_IVF else 0) OR (if has fl 4 then SPR_FPCSR_DZF else 0) OR
     (if has fl 8 then SPR_FPCSR_OVF else 0) OR (if has fl 16 then SPR_FPCSR_UNF else 0) OR (if has fl 32 then SPR_FPCSR_IXF else 0)"

lemma update_same: "c\<lparr>sprs := sprs c\<rparr> = c" "m\<lparr>cpu := cpu m\<rparr> = m" for c :: cpu_state and m :: machine
  by simp_all

lemma set_spr_same: "set_spr r (spr r m) m = m"
  unfolding set_spr_def spr_def fun_upd_triv update_same by (rule refl)

lemma spr_or_if: "(if b then spr_or r f m else m) = set_spr r (spr r m OR (if b then f else 0)) m"
  by (cases b) (simp_all only: spr_or_def set_spr_same or.right_neutral if_True if_False)

lemma set_spr_again: "set_spr r v (set_spr r w m) = set_spr r v m"
  by (simp add: set_spr_def)

lemma float_set_flags_value:
  "float_set_flags fl m = set_spr SPR_FPCSR (spr SPR_FPCSR m AND NOT SPR_FPCSR_ALLF OR fpcsr_flags fl) m"
  unfolding float_set_flags_def fpcsr_flags_def Let_def spr_or_if spr_clear_def
  by (simp only: set_spr_again spr_set_spr if_True or.assoc simp_thms)

section \<open>What an instruction leaves\<close>

text \<open>An instruction that stores \<open>v\<close> and the flags \<open>fl\<close>.\<close>

definition float_outcome :: "operand list \<Rightarrow> machine \<Rightarrow> u32 \<times> u32 \<Rightarrow> machine" where
  "float_outcome ps m res = float_set_flags (snd res) (set_param0 (fst res) ps m)"

lemma float_op_outcome: "cfg_hardfloat (conf m) \<Longrightarrow> float_op f ps m = float_outcome ps m (f (float_set_rm m))"
  by (simp add: float_op_def float_outcome_def split: prod.split)

text \<open>The flag after a comparison; the invalid flag is raised for NaNs.\<close>

definition compare_outcome :: "bool \<Rightarrow> bool \<Rightarrow> machine \<Rightarrow> machine" where
  "compare_outcome flag invalid m =
     (if cfg_hardfloat (conf m) then float_set_flags (of_bool invalid) (spr_flag SPR_SR_F flag m) else l_invalid m)"

lemma raise_invalid: "raise_if b float_flag_invalid 0 = of_bool b"
  by (simp add: raise_if_def float_raise_def)

section \<open>The contract of the floating point library\<close>

text \<open>What the instructions rely on: correctly rounded results and comparisons of values.\<close>

locale float_library =
  fixes sf :: softfloat
  assumes add_rounded: "rm \<le> 3 \<Longrightarrow> finite32 a \<Longrightarrow> finite32 b \<Longrightarrow>
      signed_result rm fl (if extractFloat32Sign a = extractFloat32Sign b then extractFloat32Sign a else rm = float_round_down)
        (float_value a + float_value b) (float32_add sf rm fl a b)"
    and sub_rounded: "rm \<le> 3 \<Longrightarrow> finite32 a \<Longrightarrow> finite32 b \<Longrightarrow>
      signed_result rm fl (if extractFloat32Sign a \<noteq> extractFloat32Sign b then extractFloat32Sign a else rm = float_round_down)
        (float_value a - float_value b) (float32_sub sf rm fl a b)"
    and mul_rounded: "rm \<le> 3 \<Longrightarrow> finite32 a \<Longrightarrow> finite32 b \<Longrightarrow>
      correct_result rm fl (extractFloat32Sign a \<noteq> extractFloat32Sign b) (magnitude a * magnitude b) (2 ^ 149) (float32_mul sf rm fl a b)"
    and div_rounded: "rm \<le> 3 \<Longrightarrow> finite32 a \<Longrightarrow> finite32 b \<Longrightarrow> magnitude b \<noteq> 0 \<Longrightarrow>
      correct_result rm fl (extractFloat32Sign a \<noteq> extractFloat32Sign b) (magnitude a * 2 ^ 149) (magnitude b) (float32_div sf rm fl a b)"
    and itof_rounded: "rm \<le> 3 \<Longrightarrow>
      correct_result rm fl (sint i < 0) (nat \<bar>sint i\<bar> * 2 ^ 149) 1 (int32_to_float32 sf rm fl i)"
    and ftoi_rounded: "rm \<le> 3 \<Longrightarrow> finite32 a \<Longrightarrow> float32_to_int32 sf rm fl a =
      int_result fl (extractFloat32Sign a) (rounded rm (extractFloat32Sign a) (magnitude a) (2 ^ 149)) (\<not> 2 ^ 149 dvd magnitude a)"
    and compare_values:
      "float32_eq sf fl a b = (number32 a \<and> number32 b \<and> float_value a = float_value b,
         raise_if (\<not> (number32 a \<and> number32 b) \<and> signaling_operand a b) float_flag_invalid fl)"
      "float32_le sf fl a b = (number32 a \<and> number32 b \<and> float_value a \<le> float_value b,
         raise_if (\<not> (number32 a \<and> number32 b)) float_flag_invalid fl)"
      "float32_lt sf fl a b = (number32 a \<and> number32 b \<and> float_value a < float_value b,
         raise_if (\<not> (number32 a \<and> number32 b)) float_flag_invalid fl)"
      "float32_is_nan sf a = (\<not> number32 a)"
begin

lemma lf_add_rounded:
  assumes "cfg_hardfloat (conf m)" and "finite32 (param 1 ps m)" and "finite32 (param 2 ps m)"
  obtains res where "lf_add_s sf ps m = float_outcome ps m res"
    and "signed_result (float_set_rm m) 0 (if extractFloat32Sign (param 1 ps m) = extractFloat32Sign (param 2 ps m)
        then extractFloat32Sign (param 1 ps m) else float_set_rm m = float_round_down)
      (float_value (param 1 ps m) + float_value (param 2 ps m)) res"
  using add_rounded[OF rounding_mode assms(2,3)] that unfolding lf_add_s_def float_op_outcome[OF assms(1)] by blast

lemma lf_sub_rounded:
  assumes "cfg_hardfloat (conf m)" and "finite32 (param 1 ps m)" and "finite32 (param 2 ps m)"
  obtains res where "lf_sub_s sf ps m = float_outcome ps m res"
    and "signed_result (float_set_rm m) 0 (if extractFloat32Sign (param 1 ps m) \<noteq> extractFloat32Sign (param 2 ps m)
        then extractFloat32Sign (param 1 ps m) else float_set_rm m = float_round_down)
      (float_value (param 1 ps m) - float_value (param 2 ps m)) res"
  using sub_rounded[OF rounding_mode assms(2,3)] that unfolding lf_sub_s_def float_op_outcome[OF assms(1)] by blast

lemma lf_mul_rounded:
  assumes "cfg_hardfloat (conf m)" and "finite32 (param 1 ps m)" and "finite32 (param 2 ps m)"
  obtains res where "lf_mul_s sf ps m = float_outcome ps m res"
    and "correct_result (float_set_rm m) 0 (extractFloat32Sign (param 1 ps m) \<noteq> extractFloat32Sign (param 2 ps m))
      (magnitude (param 1 ps m) * magnitude (param 2 ps m)) (2 ^ 149) res"
  using mul_rounded[OF rounding_mode assms(2,3)] that unfolding lf_mul_s_def float_op_outcome[OF assms(1)] by blast

lemma lf_div_rounded:
  assumes "cfg_hardfloat (conf m)" and "finite32 (param 1 ps m)" and "finite32 (param 2 ps m)" and "magnitude (param 2 ps m) \<noteq> 0"
  obtains res where "lf_div_s sf ps m = float_outcome ps m res"
    and "correct_result (float_set_rm m) 0 (extractFloat32Sign (param 1 ps m) \<noteq> extractFloat32Sign (param 2 ps m))
      (magnitude (param 1 ps m) * 2 ^ 149) (magnitude (param 2 ps m)) res"
  using div_rounded[OF rounding_mode assms(2,3,4)] that unfolding lf_div_s_def float_op_outcome[OF assms(1)] by blast

lemma lf_itof_rounded:
  assumes "cfg_hardfloat (conf m)"
  obtains res where "lf_itof_s sf ps m = float_outcome ps m res"
    and "correct_result (float_set_rm m) 0 (sint (param 1 ps m) < 0) (nat \<bar>sint (param 1 ps m)\<bar> * 2 ^ 149) 1 res"
  using itof_rounded[OF rounding_mode] that unfolding lf_itof_s_def float_op_outcome[OF assms] by blast

lemma lf_ftoi_rounded:
  assumes "cfg_hardfloat (conf m)" and "finite32 (param 1 ps m)"
  shows "lf_ftoi_s sf ps m = float_outcome ps m (int_result 0 (extractFloat32Sign (param 1 ps m))
      (rounded (float_set_rm m) (extractFloat32Sign (param 1 ps m)) (magnitude (param 1 ps m)) (2 ^ 149))
      (\<not> 2 ^ 149 dvd magnitude (param 1 ps m)))"
  unfolding lf_ftoi_s_def float_op_outcome[OF assms(1)] ftoi_rounded[OF rounding_mode assms(2)] by (rule refl)

lemma numbers_number32: "numbers sf ps m \<longleftrightarrow> number32 (param 0 ps m) \<and> number32 (param 1 ps m)"
  by (simp add: numbers_def compare_values)

lemma compare_outcomes:
  assumes "(number32 (param 0 ps m) \<and> number32 (param 1 ps m)) = n"
  shows "lf_sfeq_s sf ps m =
      compare_outcome (n \<and> float_value (param 0 ps m) = float_value (param 1 ps m)) (\<not> n \<and> signaling_operand (param 0 ps m) (param 1 ps m)) m"
    and "lf_sfne_s sf ps m =
      compare_outcome (\<not> (n \<and> float_value (param 0 ps m) = float_value (param 1 ps m))) (\<not> n \<and> signaling_operand (param 0 ps m) (param 1 ps m)) m"
    and "lf_sfge_s sf ps m = compare_outcome (n \<and> float_value (param 1 ps m) \<le> float_value (param 0 ps m)) (\<not> n) m"
    and "lf_sfgt_s sf ps m = compare_outcome (n \<and> float_value (param 1 ps m) < float_value (param 0 ps m)) (\<not> n) m"
    and "lf_sfle_s sf ps m = compare_outcome (n \<and> float_value (param 0 ps m) \<le> float_value (param 1 ps m)) (\<not> n) m"
    and "lf_sflt_s sf ps m = compare_outcome (n \<and> float_value (param 0 ps m) < float_value (param 1 ps m)) (\<not> n) m"
  using assms by (auto simp: lf_sfeq_s_def lf_sfne_s_def lf_sfge_s_def lf_sfgt_s_def lf_sfle_s_def lf_sflt_s_def float_compare_def
      compare_outcome_def compare_values numbers_number32 raise_invalid linorder_not_less linorder_not_le)

end

interpretation or1k: float_library or1k_softfloat
  by (unfold_locales; unfold or1k_softfloat_fields)
    (rule float32_add_value float32_sub_value mul_correct div_correct int32_to_float32_value float32_to_int32_value
      float32_compare_values is_nan_number32; assumption)+

section \<open>Properties\<close>

text \<open>
  C18: the six comparison instructions set SR[F] exactly when both operands are numbers and their values compare as the
  instruction says (\<open>lf.sfne.s\<close> also when one is a NaN), and raise the invalid flag in FPCSR for NaN operands, in
  \<open>lf.sfeq.s\<close> and \<open>lf.sfne.s\<close> for signaling ones only.
\<close>

theorem float_comparisons_set_flag:
  "let x = param 0 ps m; y = param 1 ps m; n = (number32 x \<and> number32 y); signaling = signaling_operand x y
   in lf_sfeq_s or1k_softfloat ps m = compare_outcome (n \<and> float_value x = float_value y) (\<not> n \<and> signaling) m \<and>
      lf_sfne_s or1k_softfloat ps m = compare_outcome (\<not> (n \<and> float_value x = float_value y)) (\<not> n \<and> signaling) m \<and>
      lf_sfge_s or1k_softfloat ps m = compare_outcome (n \<and> float_value y \<le> float_value x) (\<not> n) m \<and>
      lf_sfgt_s or1k_softfloat ps m = compare_outcome (n \<and> float_value y < float_value x) (\<not> n) m \<and>
      lf_sfle_s or1k_softfloat ps m = compare_outcome (n \<and> float_value x \<le> float_value y) (\<not> n) m \<and>
      lf_sflt_s or1k_softfloat ps m = compare_outcome (n \<and> float_value x < float_value y) (\<not> n) m"
  unfolding Let_def by (intro conjI or1k.compare_outcomes[OF refl])

text \<open>
  C19: \<open>lf.rem.s\<close> always completes: the loops of \<open>float32_rem\<close>, the quotient estimates of 128 bits and the final
  subtractions, end for all operands, and the destination register and FPCSR get what it returns.
\<close>

theorem float_remainder_returns:
  "\<exists>res. Softfloat.float32_rem (float_set_rm m) 0 (param 1 ps m) (param 2 ps m) = Some res \<and>
     lf_rem_s or1k_softfloat ps m = (if cfg_hardfloat (conf m) then float_outcome ps m res else l_invalid m)"
proof (intro exI conjI)
  show "Softfloat.float32_rem (float_set_rm m) 0 (param 1 ps m) (param 2 ps m) =
      Some (float32_rem or1k_softfloat (float_set_rm m) 0 (param 1 ps m) (param 2 ps m))" by (rule or1k_rem)
  show "lf_rem_s or1k_softfloat ps m = (if cfg_hardfloat (conf m)
      then float_outcome ps m (float32_rem or1k_softfloat (float_set_rm m) 0 (param 1 ps m) (param 2 ps m)) else l_invalid m)"
    unfolding lf_rem_s_def float_op_def float_outcome_def by (simp split: prod.split)
qed

end
