(* ===== verification/Spec2Isabelle.thy ===== *)
theory Spec2Isabelle
  imports Loop Insn_Props Predict Sbuf Sprs Mem_Props Mmu_Props Cache_Props Cache_Coherence Mcontrol Gpio Dma Uart_Transmit Labels Float_Insns
begin

text \<open>
  Or1ksim, the architectural simulator of the OpenRISC 1000 (\<open>src/or1ksim\<close>): a model of the simulated processor, its
  units and its memory, and the theorems that make it a correct simulator of them.

  \<^bold>\<open>The program.\<close> The C files of the simulator share global variables: \<open>cpu_state\<close> (registers, special purpose
  registers, program counter), \<open>runtime\<close> (cycles, stall state), \<open>config\<close> (the configuration file), one state per unit and
  the job queue \<open>scheduler\<close>. The main loop (\<open>exec_main\<close> in \<open>cpu/or32/execute.c\<close>) runs a cycle of the processor, adds the
  cycles it took and runs the jobs that are due (\<open>do_scheduler\<close>): timer and interrupt deliveries. A cycle fetches a word
  through translation and instruction cache, decodes it with the automaton \<open>cpu/or32/or32.c\<close> builds, in the form of the
  switch \<open>cpu/or32/generate.c\<close> writes, and executes a body of \<open>cpu/or32/insnset.c\<close>; loads and stores go through
  the data translation, the watchpoints of the debug unit, the data cache and the memory map. Every unit may call
  \<open>except_handle\<close>, which asks the debug unit first.

  \<^bold>\<open>The model.\<close> The globals are the record \<open>machine\<close>, with a record per unit; a C function that changes them is a
  function from \<open>machine\<close> to \<open>machine\<close>, or to \<open>machine res\<close> where it may leave the simulator (\<open>exit\<close>, \<open>abort\<close>, a crash of
  the host: the type \<open>stop\<close> of Prelude). C integers are words of their width, \<open>int\<close> with \<open>i32\<close> where signed
  arithmetic matters. Loops are recursion with a measure; the ones whose end is not evident (\<open>do_scheduler\<close>, the wait
  for a stalled processor, the walks through the automaton, three loops of \<open>softfloat.c\<close>) are \<open>partial_function (option)\<close>:
  \<open>None\<close> is not to return. There is no fuel but in the command loop of the UART; that the others return is proved (\<open>decoder_exact\<close>,
  \<open>generated_decoder_agrees\<close>, \<open>every_due_job_runs\<close>, \<open>float_remainder_returns\<close>) or refuted
  (\<open>zero_period_never_returns\<close>).

  \<^bold>\<open>Theories\<close>, in the order of the imports:
  \<^item> Prelude, SprDefs: results, word lemmas, the constants of \<open>spr-defs.h\<close> and \<open>except.h\<close>.
  \<^item> Sched, Jobs: \<open>support/sched.c\<close>. The job list with its deltas refines a queue of due times (locale \<open>timed_queue\<close>); Jobs
    states the same for the scheduler inside the machine.
  \<^item> Machine: the state. Except: \<open>cpu/or1k/except.c\<close> with the part of \<open>debug/debug-unit.c\<close> it calls. Debug: matchpoints,
    watchpoints, counters, scan chains.
  \<^item> Tick, Units: \<open>tick/tick.c\<close>; \<open>pic/pic.c\<close>, \<open>pcu/pcu.c\<close>, \<open>pm/pm.c\<close>.
  \<^item> Mem, Mem_Props: the memory map of \<open>cpu/common/abstract.c\<close> and the RAM of \<open>peripheral/memory.c\<close>; the RAM is a big endian
    byte memory (locale \<open>be_memory\<close>), the map a partition of the address space.
  \<^item> Mcontrol: the memory controller of \<open>peripheral/mc.c\<close>, its lists in a heap, and what its registers make of the memory
    map. Gpio: the pins of \<open>peripheral/gpio.c\<close>, with the interrupt controller of Units.
    Dma: the channels of \<open>peripheral/dma.c\<close> copying words of the memory. Uart, Uart_Transmit: the
    serial port of \<open>peripheral/16450.c\<close>; its transmit buffer is another instance of \<open>fifo\<close>. Labels: the symbol table of
    \<open>cpu/common/labels.c\<close>; its breakpoints are part of Cpu.
  \<^item> Mmu, Mmu_Props: \<open>mmu/immu.c\<close>, \<open>mmu/dmmu.c\<close>; both are instances of the locale \<open>translation\<close>.
  \<^item> Cache, Phys, Cache_Props, Cache_Coherence, Access: \<open>cache/icache-model.c\<close>, \<open>cache/dcache-model.c\<close> and the virtual
    accesses of \<open>abstract.c\<close>. The contract \<open>data_memory\<close> is met by the bare memory, by the data cache over it and by the
    accesses of the CPU over both, with the same proofs for sequences of accesses.
  \<^item> Predict, Sbuf: \<open>bpb/branch-predict.c\<close> (locale \<open>table_buffer\<close>), the store buffer (locale \<open>fifo\<close>).
  \<^item> Sprs: \<open>mtspr\<close> and \<open>mfspr\<close> of \<open>cpu/or1k/sprs.c\<close> with all their side effects, the cpu section of \<open>cpu-config.c\<close>.
  \<^item> Opcodes, Decode: the opcode table, the builder of the automaton, the decoder of the library and the generated one.
  \<^item> Insn, Exec, Cpu: the instructions, one definition each; \<open>decode_execute\<close> as generated; the cycle, the main loop.
    Loop and Insn_Props hold their theorems.
  \<^item> Softfloat: the single precision functions of \<open>softfloat/softfloat.c\<close> with its macros. Rounding is the theory of
    IEEE rounding on natural numbers, \<open>n / d\<close> rounded to 24 bits, and of sticky bits; Softfloat_Props, Softfloat_Arith,
    Softfloat_Add, Softfloat_Convert, Softfloat_Compare and Softfloat_Rem relate the functions to it. Float_Insns fills the
    record \<open>softfloat\<close> the instructions are parametric in with these functions; the locale \<open>float_library\<close> is what the
    instructions rely on.

  \<^bold>\<open>The properties\<close> stand at the ends of the theories, each with a text that states it. Refinements: the scheduler
  (Sched) and the timer that uses it (Tick), the RAM (Mem_Props), the data cache and the accesses of the CPU
  (Cache_Coherence, Access), the store buffer and the branch target cache (Sbuf, Predict). Exceptions: entry, and where
  \<open>l.rfe\<close> resumes, with the one case in which it is the wrong place (Except, Insn_Props). Decoding: the automaton is exact and agrees with the generated code
  (Decode). Translation: the DTLB by the bits of its
  registers (Mmu_Props). Breakpoints by those of the debug unit (Debug). The main loop: every due job runs, in order (Loop). Arithmetic: carries and overflows of the adders (Insn_Props), correctly
  rounded floating point, conversions and comparisons (Softfloat_Arith, Softfloat_Add, Softfloat_Convert, Float_Insns).
  Devices: resets and chip selects of the memory controller (Mcontrol), the pins (Gpio), copies between RAM addresses (Dma),
  the serial port as two queues (Uart, Uart_Transmit).
  Where the code does not do what it means to, the theorem says what it does.

  \<^bold>\<open>Parameters.\<close> \<open>malloc\<close> and \<open>random ()\<close> of the C library, the command line and the
  remote debugger in the main loop. The instruction set takes the record \<open>softfloat\<close> as an argument, and every
  theorem about it holds for \<open>or1k_softfloat\<close>. The devices of Gpio, Dma and Uart keep the jobs they request and the data
  they send in lists; their registration with the memory map is that of Mem, and is not repeated for them.

  \<^bold>\<open>Bounds.\<close> Cycle counts and delays are unsigned words of the host; due times in the scheduler theorems stay below the \<open>MAX_LATE\<close> of
  Jobs, under which no signed delta wraps around. The
  fuel of the UART's command loop is the size of its buffer, and every round takes a command (\<open>uart_vapi_cmd_returns\<close>). Exponents of the floating point are integers, as they stay within a few hundred.

  \<^bold>\<open>Not modelled.\<close> \<open>argtable2\<close>, \<open>libtool\<close> and the other copies of foreign code; the custom unit compiler (\<open>cuc/\<close>), a separate
  compiler that the simulator does not need to run; the test bench sockets (\<open>vapi/\<close>), the JTAG and remote debugging servers
  (\<open>debug/jtag.c\<close>, \<open>debug/rsp-server.c\<close>, \<open>debug/gdbcomm.c\<close>), which translate socket traffic into the debug unit's
  functions; the peripherals other than memory, memory controller, GPIO, DMA and UART (Ethernet, keyboard, frame buffer and so on), whose state is behind
  host files and sockets; parsing of the configuration file, commands, symbol files and profiling output; the
  disassembler, which prints; the double precision functions of \<open>softfloat.c\<close>, which no instruction of the 32 bit
  processor calls, and the extended ones, which are not compiled.
\<close>

end
